(* ===== verification/Prelude.thy ===== *)
theory Prelude
  imports Main "HOL-Library.Sublist"
begin

text \<open>
  Shared ground of the development: the errors a service can raise, the transaction monad in
  which every database operation of the backend is written, tables as lists of rows with the SQL
  statements the services use on them, decimal numerals as strings, and the small interface
  locales (a table of a state, a transition system with an invariant) that the component theories
  interpret.
\<close>

section \<open>Errors and results\<close>

text \<open>
  The values a rejected promise carries: an \<open>ApiError\<close> of \<open>common/errors.ts\<close> with its status,
  message and code, a plain \<open>Error\<close>, the \<open>MoneyRangeError\<close> of \<open>domain/money.ts\<close>, a PostgreSQL
  error with its SQLSTATE, and a Zod validation failure.
\<close>

datatype err =
    ApiError (api_status: nat) (api_message: string) (api_code: string)
  | JsError string
  | MoneyRangeError string
  | PgError (pg_code: string)
  | ZodError string

type_synonym 'a result = "err + 'a"
type_synonym uuid = string
type_synonym time = int

definition notFound :: "string \<Rightarrow> err" where
  "notFound message = ApiError 404 message ''not_found''"

definition forbidden :: "string \<Rightarrow> err" where
  "forbidden message = ApiError 403 message ''forbidden''"

definition badRequest :: "string \<Rightarrow> err" where
  "badRequest message = ApiError 400 message ''bad_request''"

definition conflict :: "string \<Rightarrow> err" where
  "conflict message = ApiError 409 message ''conflict''"

definition unauthorized :: "string \<Rightarrow> err" where
  "unauthorized message = ApiError 401 message ''unauthorized''"

definition serviceUnavailable :: "string \<Rightarrow> err" where
  "serviceUnavailable message = ApiError 503 message ''service_unavailable''"

text \<open>The status and code that \<open>errorHandler\<close> answers with for each kind of error.\<close>

definition errorHandler :: "err \<Rightarrow> nat \<times> string" where
  "errorHandler e = (case e of
       ApiError status _ code \<Rightarrow> (status, code)
     | PgError c \<Rightarrow>
         (if c = ''23505'' then (409, ''conflict'')
          else if c = ''23503'' then (400, ''invalid_reference'')
          else if c = ''23514'' then (400, ''constraint_violation'')
          else (500, ''internal_error''))
     | ZodError _ \<Rightarrow> (400, ''validation_error'')
     | _ \<Rightarrow> (500, ''internal_error''))"

lemmas error_defs = notFound_def forbidden_def badRequest_def conflict_def unauthorized_def
  serviceUnavailable_def

definition r_bind :: "'a result \<Rightarrow> ('a \<Rightarrow> 'b result) \<Rightarrow> 'b result" where
  "r_bind r f = (case r of Inl e \<Rightarrow> Inl e | Inr x \<Rightarrow> f x)"

lemma r_bind_simps [simp]:
  "r_bind (Inl e) f = Inl e"
  "r_bind (Inr x) f = f x"
  by (simp_all add: r_bind_def)

lemma r_bind_Inr_iff [simp]: "r_bind r f = Inr y \<longleftrightarrow> (\<exists>x. r = Inr x \<and> f x = Inr y)"
  by (cases r) auto

lemma r_bind_assoc: "r_bind (r_bind r f) g = r_bind r (\<lambda>x. r_bind (f x) g)"
  by (cases r) auto

lemma r_bind_if: "r_bind (if b then r else r') f = (if b then r_bind r f else r_bind r' f)"
  by simp

section \<open>The transaction monad\<close>

text \<open>
  A callback passed to \<open>inTx\<close> reads and writes the state \<open>'s\<close> and either returns or throws. The
  state at the throw is kept: \<open>inTxWithIsolation\<close> rolls the tables back, but not what the callback
  did outside the database.
\<close>

type_synonym ('s, 'a) tx = "'s \<Rightarrow> 'a result \<times> 's"

named_theorems tx_simps

definition tx_return :: "'a \<Rightarrow> ('s, 'a) tx" where
  "tx_return x = (\<lambda>s. (Inr x, s))"

definition tx_throw :: "err \<Rightarrow> ('s, 'a) tx" where
  "tx_throw e = (\<lambda>s. (Inl e, s))"

definition tx_bind :: "('s, 'a) tx \<Rightarrow> ('a \<Rightarrow> ('s, 'b) tx) \<Rightarrow> ('s, 'b) tx" where
  "tx_bind m f = (\<lambda>s. case m s of (Inl e, s') \<Rightarrow> (Inl e, s') | (Inr x, s') \<Rightarrow> f x s')"

definition tx_gets :: "('s \<Rightarrow> 'a) \<Rightarrow> ('s, 'a) tx" where
  "tx_gets f = (\<lambda>s. (Inr (f s), s))"

definition tx_modify :: "('s \<Rightarrow> 's) \<Rightarrow> ('s, unit) tx" where
  "tx_modify g = (\<lambda>s. (Inr (), g s))"

definition tx_lift :: "'a result \<Rightarrow> ('s, 'a) tx" where
  "tx_lift r = (\<lambda>s. (r, s))"

text \<open>\<open>if (!condition) throw e\<close>.\<close>

definition tx_guard :: "bool \<Rightarrow> err \<Rightarrow> ('s, unit) tx" where
  "tx_guard b e = (if b then tx_return () else tx_throw e)"

text \<open>\<open>const row = result.rows[0]; if (!row) throw e\<close>.\<close>

definition tx_some :: "'a option \<Rightarrow> err \<Rightarrow> ('s, 'a) tx" where
  "tx_some v e = (case v of None \<Rightarrow> tx_throw e | Some x \<Rightarrow> tx_return x)"

definition tx_when :: "bool \<Rightarrow> ('s, unit) tx \<Rightarrow> ('s, unit) tx" where
  "tx_when b m = (if b then m else tx_return ())"

text \<open>\<open>try { m } catch (e) { h e }\<close>.\<close>

definition tx_catch :: "('s, 'a) tx \<Rightarrow> (err \<Rightarrow> ('s, 'a) tx) \<Rightarrow> ('s, 'a) tx" where
  "tx_catch m h = (\<lambda>s. case m s of (Inl e, s') \<Rightarrow> h e s' | (Inr x, s') \<Rightarrow> (Inr x, s'))"

lemma tx_catch_iff [tx_simps]:
  "tx_catch m h s = (Inr y, s'') \<longleftrightarrow>
     m s = (Inr y, s'') \<or> (\<exists>e s'. m s = (Inl e, s') \<and> h e s' = (Inr y, s''))"
  by (auto simp: tx_catch_def split: sum.splits prod.splits)

lemma tx_return_iff [tx_simps]: "tx_return x s = (Inr y, s') \<longleftrightarrow> y = x \<and> s' = s"
  by (auto simp: tx_return_def)

lemma tx_throw_iff [tx_simps]: "tx_throw e s = (Inr y, s') \<longleftrightarrow> False"
  by (simp add: tx_throw_def)

lemma tx_bind_iff [tx_simps]:
  "tx_bind m f s = (Inr y, s'') \<longleftrightarrow> (\<exists>x s'. m s = (Inr x, s') \<and> f x s' = (Inr y, s''))"
  by (auto simp: tx_bind_def split: sum.splits prod.splits)

lemma tx_gets_iff [tx_simps]: "tx_gets f s = (Inr y, s') \<longleftrightarrow> y = f s \<and> s' = s"
  by (auto simp: tx_gets_def)

lemma tx_modify_iff [tx_simps]: "tx_modify g s = (Inr y, s') \<longleftrightarrow> s' = g s"
  by (auto simp: tx_modify_def)

lemma tx_lift_iff [tx_simps]: "tx_lift r s = (Inr y, s') \<longleftrightarrow> r = Inr y \<and> s' = s"
  by (auto simp: tx_lift_def)

lemma tx_guard_iff [tx_simps]: "tx_guard b e s = (Inr y, s') \<longleftrightarrow> b \<and> s' = s"
  by (auto simp: tx_guard_def tx_return_def tx_throw_def)

lemma tx_some_iff [tx_simps]: "tx_some v e s = (Inr y, s') \<longleftrightarrow> v = Some y \<and> s' = s"
  by (auto simp: tx_some_def tx_return_def tx_throw_def split: option.splits)

lemma tx_when_iff [tx_simps]:
  "tx_when b m s = (Inr y, s') \<longleftrightarrow> (if b then m s = (Inr y, s') else s' = s)"
  by (auto simp: tx_when_def tx_return_def)

text \<open>The same, for a callback that throws.\<close>

lemma tx_errs:
  "tx_bind m f s = (Inl e, s'') \<longleftrightarrow>
     m s = (Inl e, s'') \<or> (\<exists>x s'. m s = (Inr x, s') \<and> f x s' = (Inl e, s''))"
  "tx_return x s = (Inl e, s') \<longleftrightarrow> False"
  "tx_throw e0 s = (Inl e, s') \<longleftrightarrow> e0 = e \<and> s' = s"
  "tx_gets g s = (Inl e, s') \<longleftrightarrow> False"
  "tx_modify h s = (Inl e, s') \<longleftrightarrow> False"
  "tx_lift r s = (Inl e, s') \<longleftrightarrow> r = Inl e \<and> s' = s"
  "tx_guard b e0 s = (Inl e, s') \<longleftrightarrow> \<not> b \<and> e0 = e \<and> s' = s"
  "tx_some v e0 s = (Inl e, s') \<longleftrightarrow> v = None \<and> e0 = e \<and> s' = s"
  by (auto simp: tx_bind_def tx_return_def tx_throw_def tx_gets_def tx_modify_def tx_lift_def tx_guard_def tx_some_def
      split: sum.splits prod.splits option.splits)

lemma tx_returns: "\<not> isl (fst p) \<Longrightarrow> \<exists>x s. p = (Inr x, s)"
  by (cases p; cases "fst p") auto

lemmas tx_defs = tx_return_def tx_throw_def tx_bind_def tx_gets_def tx_modify_def tx_lift_def
  tx_guard_def tx_some_def tx_when_def

text \<open>
  A callback that moves the state only along a given preorder, whether it returns or throws; such
  frame facts compose through \<open>tx_bind\<close>.
\<close>

locale frame =
  fixes moves :: "'s \<Rightarrow> 's \<Rightarrow> bool"
  assumes moves_refl: "moves s s"
    and moves_trans: "moves s t \<Longrightarrow> moves t u \<Longrightarrow> moves s u"
begin

definition keeps :: "('s, 'a) tx \<Rightarrow> bool" where
  "keeps m \<longleftrightarrow> (\<forall>s r s'. m s = (r, s') \<longrightarrow> moves s s')"

lemma keepsD: "keeps m \<Longrightarrow> m s = (r, s') \<Longrightarrow> moves s s'"
  by (simp add: keeps_def)

lemma keeps_bind: "keeps m \<Longrightarrow> (\<And>x. keeps (f x)) \<Longrightarrow> keeps (tx_bind m f)"
  unfolding keeps_def tx_bind_def
  by (clarsimp split: prod.splits sum.splits) (metis moves_trans sum.exhaust)

lemma keeps_basic:
  "keeps (tx_return x)"
  "keeps (tx_throw e)"
  "keeps (tx_gets f)"
  "keeps (tx_lift r)"
  "keeps (tx_guard b e)"
  "keeps (tx_some v e)"
  by (auto simp: keeps_def tx_defs moves_refl split: option.splits)

lemma keeps_modify: "(\<And>s. moves s (g s)) \<Longrightarrow> keeps (tx_modify g)"
  by (auto simp: keeps_def tx_defs)

lemma keeps_when: "keeps m \<Longrightarrow> keeps (tx_when b m)"
  by (auto simp: keeps_def tx_defs moves_refl split: if_splits)

lemma keeps_if: "(b \<Longrightarrow> keeps m) \<Longrightarrow> (\<not> b \<Longrightarrow> keeps n) \<Longrightarrow> keeps (if b then m else n)"
  by simp

lemma keeps_case_option:
  "(v = None \<Longrightarrow> keeps m) \<Longrightarrow> (\<And>x. v = Some x \<Longrightarrow> keeps (n x)) \<Longrightarrow>
   keeps (case v of None \<Rightarrow> m | Some x \<Rightarrow> n x)"
  by (cases v) auto

lemma keeps_catch: "keeps m \<Longrightarrow> (\<And>e. keeps (h e)) \<Longrightarrow> keeps (tx_catch m h)"
  unfolding keeps_def tx_catch_def
  by (clarsimp split: prod.splits sum.splits) (metis moves_trans sum.exhaust)

lemmas keeps_intros = keeps_bind keeps_catch keeps_basic keeps_modify keeps_when keeps_if keeps_case_option

end

section \<open>Tables\<close>

text \<open>
  A table is the list of its rows. \<open>t_find\<close> is \<open>select ... where key = k\<close> read through
  \<open>rows[0]\<close>, \<open>t_upd\<close> is \<open>update ... where key = k\<close>.
\<close>

definition t_find :: "('r \<Rightarrow> 'k) \<Rightarrow> 'k \<Rightarrow> 'r list \<Rightarrow> 'r option" where
  "t_find key k rows = find (\<lambda>r. key r = k) rows"

definition t_upd :: "('r \<Rightarrow> 'k) \<Rightarrow> 'k \<Rightarrow> ('r \<Rightarrow> 'r) \<Rightarrow> 'r list \<Rightarrow> 'r list" where
  "t_upd key k f rows = map (\<lambda>r. if key r = k then f r else r) rows"

lemma t_find_simps [simp]:
  "t_find key k [] = None"
  "t_find key k (r # rows) = (if key r = k then Some r else t_find key k rows)"
  by (simp_all add: t_find_def)

lemma t_upd_simps [simp]:
  "t_upd key k f [] = []"
  "t_upd key k f (r # rows) = (if key r = k then f r else r) # t_upd key k f rows"
  by (simp_all add: t_upd_def)

lemma t_find_Some: "t_find key k rows = Some r \<Longrightarrow> r \<in> set rows \<and> key r = k"
  by (induction rows) (auto split: if_splits)

lemma t_find_None_iff: "t_find key k rows = None \<longleftrightarrow> k \<notin> key ` set rows"
  by (induction rows) auto

lemma t_find_append:
  "t_find key k (xs @ ys) = (case t_find key k xs of None \<Rightarrow> t_find key k ys | Some r \<Rightarrow> Some r)"
  by (induction xs) auto

lemma t_find_distinct:
  "distinct (map key rows) \<Longrightarrow> r \<in> set rows \<Longrightarrow> t_find key (key r) rows = Some r"
  by (induction rows) (auto simp: image_iff)

lemma t_find_upd:
  "(\<And>r. key (f r) = key r) \<Longrightarrow>
   t_find key k' (t_upd key k f rows) = (if k' = k then map_option f (t_find key k rows) else t_find key k' rows)"
  by (induction rows) auto

lemma map_key_t_upd: "(\<And>r. key (f r) = key r) \<Longrightarrow> map key (t_upd key k f rows) = map key rows"
  by (induction rows) auto

lemma map_t_upd: "(\<And>r. g (f r) = g r) \<Longrightarrow> map g (t_upd key k f rows) = map g rows"
  by (induction rows) auto

lemma t_upd_absent: "t_find key k rows = None \<Longrightarrow> t_upd key k f rows = rows"
  by (induction rows) (auto split: if_splits)

lemma set_t_upd:
  "distinct (map key rows) \<Longrightarrow> t_find key k rows = Some r \<Longrightarrow>
   set (t_upd key k f rows) = insert (f r) (set rows - {r})"
proof (induction rows)
  case Nil
  then show ?case by simp
next
  case (Cons x rows)
  show ?case
  proof (cases "key x = k")
    case True
    with Cons.prems have "r = x" and "k \<notin> key ` set rows" by auto
    moreover from this have "t_upd key k f rows = rows"
      by (simp add: t_upd_absent t_find_None_iff)
    moreover have "x \<notin> set rows" using Cons.prems by auto
    ultimately show ?thesis using True by simp
  next
    case False
    with Cons have "set (t_upd key k f rows) = insert (f r) (set rows - {r})" by simp
    moreover have "x \<noteq> r" using False Cons.prems by (auto dest: t_find_Some)
    ultimately show ?thesis using False by auto
  qed
qed

lemma mem_t_upd: "r \<in> set (t_upd key k f rows) \<Longrightarrow> \<exists>r0\<in>set rows. r = (if key r0 = k then f r0 else r0)"
  by (auto simp: t_upd_def)

text \<open>Tables with the same keys and the same rows behind them are equal.\<close>

lemma t_eqI:
  "map key xs = map key ys \<Longrightarrow> distinct (map key ys) \<Longrightarrow> (\<And>i. t_find key i xs = t_find key i ys) \<Longrightarrow> xs = ys"
proof (induction xs arbitrary: ys)
  case Nil
  then show ?case by simp
next
  case (Cons x xs)
  then obtain y ys' where ys: "ys = y # ys'" and k: "key x = key y" "map key xs = map key ys'" by auto
  have "x = y" using Cons.prems(3) [of "key x"] k ys by simp
  moreover have "t_find key i xs = t_find key i ys'" for i
  proof (cases "i = key x")
    case True
    then have "i \<notin> key ` set xs" "i \<notin> key ` set ys'" using Cons.prems(1,2) ys k by (metis distinct.simps(2) list.set_map list.simps(9))+
    then show ?thesis by (metis t_find_None_iff)
  next
    case False
    then show ?thesis using Cons.prems(3) [of i] k ys by simp
  qed
  ultimately show ?case using Cons.IH k Cons.prems(2) ys by auto
qed

text \<open>The sum of a column after one row is replaced or added.\<close>

definition t_sum :: "('r \<Rightarrow> int) \<Rightarrow> 'r list \<Rightarrow> int" where
  "t_sum g rows = sum_list (map g rows)"

lemma t_sum_simps [simp]:
  "t_sum g [] = 0"
  "t_sum g (r # rows) = g r + t_sum g rows"
  "t_sum g (rows @ rows') = t_sum g rows + t_sum g rows'"
  by (simp_all add: t_sum_def)

lemma t_sum_upd:
  "distinct (map key rows) \<Longrightarrow> t_find key k rows = Some r \<Longrightarrow>
   t_sum g (t_upd key k f rows) = t_sum g rows - g r + g (f r)"
proof (induction rows)
  case Nil
  then show ?case by simp
next
  case (Cons x rows)
  show ?case
  proof (cases "key x = k")
    case True
    with Cons.prems have "t_upd key k f rows = rows"
      by (simp add: t_upd_absent t_find_None_iff)
    with True Cons.prems show ?thesis by simp
  next
    case False
    with Cons show ?thesis by simp
  qed
qed

lemma t_sum_upd_same:
  "(\<And>r. r \<in> set rows \<Longrightarrow> key r = k \<Longrightarrow> g (f r) = g r) \<Longrightarrow> t_sum g (t_upd key k f rows) = t_sum g rows"
  by (induction rows) auto

lemma t_sum_cong: "(\<And>r. r \<in> set rows \<Longrightarrow> g r = h r) \<Longrightarrow> t_sum g rows = t_sum h rows"
  by (induction rows) auto

lemma t_sum_zero: "(\<And>r. r \<in> set rows \<Longrightarrow> g r = 0) \<Longrightarrow> t_sum g rows = 0"
  by (induction rows) auto

lemma t_sum_add: "t_sum (\<lambda>r. g r + h r) rows = t_sum g rows + t_sum h rows"
  by (induction rows) auto

lemma t_sum_nonneg: "(\<And>r. r \<in> set rows \<Longrightarrow> 0 \<le> g r) \<Longrightarrow> 0 \<le> t_sum g rows"
  by (induction rows) auto

lemma t_sum_member: "x \<in> set xs \<Longrightarrow> (\<And>y. y \<in> set xs \<Longrightarrow> 0 \<le> f y) \<Longrightarrow> f x \<le> t_sum f xs"
proof (induction xs)
  case (Cons y ys)
  have "0 \<le> t_sum f ys" by (rule t_sum_nonneg) (simp add: Cons.prems)
  with Cons show ?case by (cases "x = y") fastforce+
qed simp

text \<open>
  A table inside a larger state: its key and its field access. The laws are those of a record
  field; the interpretations are the tables of the marketplace database.
\<close>

locale table =
  fixes key :: "'r \<Rightarrow> 'k"
    and rows :: "'s \<Rightarrow> 'r list"
    and rows_update :: "('r list \<Rightarrow> 'r list) \<Rightarrow> 's \<Rightarrow> 's"
  assumes rows_get_update: "rows (rows_update f s) = f (rows s)"
begin

definition lookup :: "'s \<Rightarrow> 'k \<Rightarrow> 'r option" where
  "lookup s k = t_find key k (rows s)"

lemma lookup_insert:
  "lookup (rows_update (\<lambda>t. t @ [r]) s) k =
   (case lookup s k of None \<Rightarrow> if key r = k then Some r else None | Some r' \<Rightarrow> Some r')"
  by (simp add: lookup_def rows_get_update t_find_append split: option.splits)

lemma lookup_update:
  "(\<And>r. key (f r) = key r) \<Longrightarrow>
   lookup (rows_update (t_upd key k f) s) k' = (if k' = k then map_option f (lookup s k) else lookup s k')"
  by (simp add: lookup_def rows_get_update t_find_upd)

lemma distinct_insert:
  "distinct (map key (rows s)) \<Longrightarrow> lookup s (key r) = None \<Longrightarrow>
   distinct (map key (rows (rows_update (\<lambda>t. t @ [r]) s)))"
  by (auto simp: lookup_def rows_get_update t_find_None_iff)

lemma distinct_update:
  "distinct (map key (rows s)) \<Longrightarrow> (\<And>r. key (f r) = key r) \<Longrightarrow>
   distinct (map key (rows (rows_update (t_upd key k f) s)))"
  by (simp add: rows_get_update map_key_t_upd)

lemma sum_update:
  "distinct (map key (rows s)) \<Longrightarrow> lookup s k = Some r \<Longrightarrow>
   t_sum g (rows (rows_update (t_upd key k f) s)) = t_sum g (rows s) - g r + g (f r)"
  by (simp add: lookup_def rows_get_update t_sum_upd)

end

section \<open>Transition systems\<close>

text \<open>
  A state machine given by its initial states and its steps. An invariant that holds initially
  and is kept by every step holds wherever a run can get.
\<close>

locale transition_system =
  fixes init :: "'s \<Rightarrow> bool"
    and step :: "'s \<Rightarrow> 's \<Rightarrow> bool"
    and inv :: "'s \<Rightarrow> bool"
  assumes inv_init: "init s \<Longrightarrow> inv s"
    and inv_step: "inv s \<Longrightarrow> step s t \<Longrightarrow> inv t"
begin

lemma inv_steps: "step\<^sup>*\<^sup>* s t \<Longrightarrow> inv s \<Longrightarrow> inv t"
  by (induction rule: rtranclp_induct) (auto intro: inv_step)

lemma inv_reachable: "init s \<Longrightarrow> step\<^sup>*\<^sup>* s t \<Longrightarrow> inv t"
  using inv_init inv_steps by blast

end

section \<open>Decimal numerals\<close>

definition digit_char :: "nat \<Rightarrow> char" where
  "digit_char d = char_of (48 + d)"

definition char_digit :: "char \<Rightarrow> nat" where
  "char_digit c = of_char c - 48"

definition is_digit :: "char \<Rightarrow> bool" where
  "is_digit c \<longleftrightarrow> (48 :: nat) \<le> of_char c \<and> of_char c \<le> (57 :: nat)"

fun nat_dec :: "nat \<Rightarrow> string" where
  "nat_dec n = (if n < 10 then [digit_char n] else nat_dec (n div 10) @ [digit_char (n mod 10)])"

declare nat_dec.simps [simp del]

definition dec_nat :: "string \<Rightarrow> nat" where
  "dec_nat s = foldl (\<lambda>a c. 10 * a + char_digit c) 0 s"

lemma of_char_digit_char: "d < 10 \<Longrightarrow> of_char (digit_char d) = (48 + d :: nat)"
  by (simp add: digit_char_def of_char_of)

lemma char_digit_digit_char [simp]: "d < 10 \<Longrightarrow> char_digit (digit_char d) = d"
  by (simp add: char_digit_def of_char_digit_char)

lemma is_digit_digit_char [simp]: "d < 10 \<Longrightarrow> is_digit (digit_char d)"
  by (simp add: is_digit_def of_char_digit_char)

lemma digit_char_char_digit: "is_digit c \<Longrightarrow> digit_char (char_digit c) = c"
  by (simp add: is_digit_def digit_char_def char_digit_def)

lemma char_digit_less: "is_digit c \<Longrightarrow> char_digit c < 10"
  by (auto simp: is_digit_def char_digit_def)

lemma digit_char_0 [simp]: "digit_char 0 = CHR ''0''"
  using digit_char_char_digit [of "CHR ''0''"] by (simp add: is_digit_def char_digit_def)

lemma nat_dec_not_Nil [simp]: "nat_dec n \<noteq> []"
  by (subst nat_dec.simps) simp

lemma nat_dec_digits: "list_all is_digit (nat_dec n)"
  by (induction n rule: nat_dec.induct) (subst nat_dec.simps, simp)

lemma dec_nat_snoc: "dec_nat (s @ [c]) = 10 * dec_nat s + char_digit c"
  by (simp add: dec_nat_def)

lemma dec_nat_nat_dec [simp]: "dec_nat (nat_dec n) = n"
proof (induction n rule: nat_dec.induct)
  case (1 n)
  show ?case
  proof (cases "n < 10")
    case True
    then show ?thesis by (subst nat_dec.simps) (simp add: dec_nat_def)
  next
    case False
    with 1 have "dec_nat (nat_dec (n div 10)) = n div 10" by simp
    then have "dec_nat (nat_dec n) = 10 * (n div 10) + n mod 10"
      using False by (subst nat_dec.simps) (simp add: dec_nat_snoc)
    then show ?thesis by simp
  qed
qed

lemma hd_nat_dec: "0 < n \<Longrightarrow> hd (nat_dec n) \<noteq> CHR ''0''"
proof (induction n rule: nat_dec.induct)
  case (1 n)
  show ?case
  proof (cases "n < 10")
    case True
    have "of_char (digit_char n) \<noteq> (of_char (CHR ''0'') :: nat)"
      using True 1 by (simp add: of_char_digit_char)
    then have "digit_char n \<noteq> CHR ''0''" by metis
    with True show ?thesis by (subst nat_dec.simps) simp
  next
    case False
    with 1 have "hd (nat_dec (n div 10)) \<noteq> CHR ''0''" by simp
    with False show ?thesis by (subst nat_dec.simps) simp
  qed
qed

text \<open>A numeral without a leading zero is the numeral of its value.\<close>

lemma nat_dec_dec_nat:
  "s \<noteq> [] \<Longrightarrow> list_all is_digit s \<Longrightarrow> hd s \<noteq> CHR ''0'' \<or> s = ''0'' \<Longrightarrow> nat_dec (dec_nat s) = s"
proof (induction s rule: rev_induct)
  case Nil
  then show ?case by simp
next
  case (snoc c s)
  from snoc.prems have c: "is_digit c" by simp
  show ?case
  proof (cases "s = []")
    case True
    with c show ?thesis
      by (subst nat_dec.simps) (simp add: dec_nat_def char_digit_less digit_char_char_digit)
  next
    case False
    with snoc.prems have s: "hd s \<noteq> CHR ''0''" "list_all is_digit s" by auto
    with False snoc.IH have IH: "nat_dec (dec_nat s) = s" by simp
    have "dec_nat s \<noteq> 0"
    proof
      assume "dec_nat s = 0"
      with IH have "s = nat_dec 0" by simp
      then have "hd s = CHR ''0''" by (simp add: nat_dec.simps)
      with s show False by simp
    qed
    then have "\<not> dec_nat (s @ [c]) < 10" by (simp add: dec_nat_snoc)
    moreover have "(10 * dec_nat s + char_digit c) div 10 = dec_nat s"
      "(10 * dec_nat s + char_digit c) mod 10 = char_digit c"
      using char_digit_less [OF c] by auto
    ultimately show ?thesis
      using c IH by (subst nat_dec.simps) (simp add: dec_nat_snoc digit_char_char_digit)
  qed
qed

definition int_dec :: "int \<Rightarrow> string" where
  "int_dec i = (if i < 0 then CHR ''-'' # nat_dec (nat (- i)) else nat_dec (nat i))"

lemma nat_dec_inject: "nat_dec m = nat_dec n \<longleftrightarrow> m = n"
  using dec_nat_nat_dec by metis

lemma minus_not_digit: "\<not> is_digit (CHR ''-'')"
  by (simp add: is_digit_def)

end
