(* ===== verification/Money.thy ===== *)
theory Money
  imports Prelude
begin

text \<open>
  Money: \<open>backend/src/domain/money.ts\<close> (canonical cents strings and checked bigint arithmetic),
  \<open>backend/src/common/validation.ts\<close> (decimal amounts to cents and back) and
  \<open>backend/src/modules/payments/provider-money.ts\<close>. The string functions are translated first;
  \<open>cents_add\<close>, \<open>cents_sub\<close>, \<open>cents_abs\<close> and \<open>cents_fee\<close> are the same operations on the integers
  that the strings denote, with the refinement lemmas that let the services be modelled over
  bigint columns.
\<close>

section \<open>Canonical cents strings\<close>

text \<open>
  A JavaScript number as the code inspects it: an integral value, or one that is not an integer
  (a fraction, NaN, an infinity), carried by its printed form.
\<close>

datatype js_number = JsInt int | JsNonInt string

fun js_number_string :: "js_number \<Rightarrow> string" where
  "js_number_string (JsInt i) = int_dec i"
| "js_number_string (JsNonInt s) = s"

definition MAX_SAFE_INTEGER :: int where
  "MAX_SAFE_INTEGER = 9007199254740991"

fun isSafeInteger :: "js_number \<Rightarrow> bool" where
  "isSafeInteger (JsInt i) = (- MAX_SAFE_INTEGER \<le> i \<and> i \<le> MAX_SAFE_INTEGER)"
| "isSafeInteger (JsNonInt _) = False"

type_synonym MoneyCents = string

datatype MoneyCentsInput = BigInt int | Str string | Num js_number

definition POSTGRES_BIGINT_MAX :: int where
  "POSTGRES_BIGINT_MAX = 9223372036854775807"

definition POSTGRES_BIGINT_MIN :: int where
  "POSTGRES_BIGINT_MIN = - 9223372036854775808"

definition positive_numeral :: "string \<Rightarrow> bool" where
  "positive_numeral s \<longleftrightarrow> s \<noteq> [] \<and> hd s \<noteq> CHR ''0'' \<and> list_all is_digit s"

text \<open>\<open>/^(?:0|-?[1-9]\d*)$/\<close>\<close>

definition CANONICAL_INTEGER_PATTERN :: "string \<Rightarrow> bool" where
  "CANONICAL_INTEGER_PATTERN s \<longleftrightarrow>
     s = ''0'' \<or> (case s of c # rest \<Rightarrow> if c = CHR ''-'' then positive_numeral rest else positive_numeral s
                  | [] \<Rightarrow> False)"

text \<open>\<open>BigInt(value)\<close> of a string the pattern accepts.\<close>

definition bigint_of_string :: "string \<Rightarrow> int" where
  "bigint_of_string s = (case s of c # rest \<Rightarrow> if c = CHR ''-'' then - int (dec_nat rest) else int (dec_nat s)
                         | [] \<Rightarrow> 0)"

definition in_bigint_range :: "int \<Rightarrow> bool" where
  "in_bigint_range v \<longleftrightarrow> POSTGRES_BIGINT_MIN \<le> v \<and> v \<le> POSTGRES_BIGINT_MAX"

definition assertPostgresBigintRange :: "int \<Rightarrow> int result" where
  "assertPostgresBigintRange value =
     (if value < POSTGRES_BIGINT_MIN \<or> value > POSTGRES_BIGINT_MAX
      then Inl (MoneyRangeError (''Money cents is outside PostgreSQL bigint range: '' @ int_dec value))
      else Inr value)"

definition parseMoneyCents :: "string \<Rightarrow> int result" where
  "parseMoneyCents value =
     (if \<not> CANONICAL_INTEGER_PATTERN value
      then Inl (JsError (''Money cents must be a canonical integer string, got \"'' @ value @ ''\"''))
      else assertPostgresBigintRange (bigint_of_string value))"

definition bigintToMoneyCents :: "MoneyCentsInput \<Rightarrow> MoneyCents result" where
  "bigintToMoneyCents value = (case value of
       Num n \<Rightarrow>
         (if \<not> isSafeInteger n
          then Inl (JsError (''Money cents number must be a safe integer, got '' @ js_number_string n))
          else (case n of JsInt i \<Rightarrow> r_bind (assertPostgresBigintRange i) (\<lambda>v. Inr (int_dec v))
                | JsNonInt _ \<Rightarrow> Inl (JsError '''')))
     | BigInt v \<Rightarrow> r_bind (assertPostgresBigintRange v) (\<lambda>v. Inr (int_dec v))
     | Str s \<Rightarrow> r_bind (parseMoneyCents s) (\<lambda>v. Inr (int_dec v)))"

text \<open>\<open>parseMoneyCents(bigintToMoneyCents(value))\<close>, which every arithmetic function applies first.\<close>

definition moneyValue :: "MoneyCentsInput \<Rightarrow> int result" where
  "moneyValue value = r_bind (bigintToMoneyCents value) parseMoneyCents"

definition addMoneyCents :: "MoneyCentsInput \<Rightarrow> MoneyCentsInput \<Rightarrow> MoneyCents result" where
  "addMoneyCents left right =
     r_bind (moneyValue left) (\<lambda>l. r_bind (moneyValue right) (\<lambda>r. bigintToMoneyCents (BigInt (l + r))))"

definition subtractMoneyCents :: "MoneyCentsInput \<Rightarrow> MoneyCentsInput \<Rightarrow> MoneyCents result" where
  "subtractMoneyCents left right =
     r_bind (moneyValue left) (\<lambda>l. r_bind (moneyValue right) (\<lambda>r. bigintToMoneyCents (BigInt (l - r))))"

definition absoluteMoneyCents :: "MoneyCentsInput \<Rightarrow> MoneyCents result" where
  "absoluteMoneyCents value =
     r_bind (moneyValue value) (\<lambda>parsed. bigintToMoneyCents (BigInt (if parsed < 0 then - parsed else parsed)))"

text \<open>\<open>BigInt\<close> division truncates; the dividend is non-negative here.\<close>

definition platformFeeCents :: "MoneyCentsInput \<Rightarrow> js_number \<Rightarrow> MoneyCents result" where
  "platformFeeCents amountCents feeBps =
     (case feeBps of
        JsInt bps \<Rightarrow>
          (if \<not> isSafeInteger feeBps \<or> bps < 0 \<or> bps > 10000
           then Inl (JsError (''feeBps must be an integer between 0 and 10000, got '' @ int_dec bps))
           else r_bind (moneyValue amountCents) (\<lambda>amount.
             if amount < 0 then Inl (JsError (''amountCents must be non-negative, got '' @ int_dec amount))
             else bigintToMoneyCents (BigInt ((amount * bps) div 10000))))
      | JsNonInt s \<Rightarrow> Inl (JsError (''feeBps must be an integer between 0 and 10000, got '' @ s)))"

section \<open>Decimal amounts\<close>

text \<open>The white space that \<open>String.prototype.trim\<close> removes, below code point 256.\<close>

definition js_space :: "char \<Rightarrow> bool" where
  "js_space c \<longleftrightarrow> (of_char c :: nat) \<in> {9, 10, 11, 12, 13, 32, 160}"

definition js_trim :: "string \<Rightarrow> string" where
  "js_trim s = rev (dropWhile js_space (rev (dropWhile js_space s)))"

text \<open>\<open>trimmed.split(".")\<close> read as \<open>[whole, fraction = ""]\<close>, and \<open>/^\d+(\.\d{1,2})?$/\<close>.\<close>

definition split_dot :: "string \<Rightarrow> string \<times> string option" where
  "split_dot s = (case dropWhile (\<lambda>c. c \<noteq> CHR ''.'') s of
       [] \<Rightarrow> (s, None)
     | _ # rest \<Rightarrow> (takeWhile (\<lambda>c. c \<noteq> CHR ''.'') s, Some rest))"

definition MONEY_PATTERN :: "string \<Rightarrow> bool" where
  "MONEY_PATTERN s = (case split_dot s of
       (whole, None) \<Rightarrow> whole \<noteq> [] \<and> list_all is_digit whole
     | (whole, Some fraction) \<Rightarrow> whole \<noteq> [] \<and> list_all is_digit whole \<and>
         1 \<le> length fraction \<and> length fraction \<le> 2 \<and> list_all is_digit fraction)"

definition padEnd2 :: "string \<Rightarrow> string" where
  "padEnd2 s = s @ replicate (2 - length s) (CHR ''0'')"

definition padStart2 :: "string \<Rightarrow> string" where
  "padStart2 s = replicate (2 - length s) (CHR ''0'') @ s"

definition moneyToCents :: "string \<Rightarrow> MoneyCents result" where
  "moneyToCents value =
     (let trimmed = js_trim value in
      if \<not> MONEY_PATTERN trimmed then Inl (badRequest (''Invalid money amount: \"'' @ value @ ''\"''))
      else
        let (whole, fraction) = split_dot trimmed;
            frac = (case fraction of None \<Rightarrow> [] | Some f \<Rightarrow> f);
            cents = int (dec_nat whole) * 100 + int (dec_nat (padEnd2 frac))
        in if cents > POSTGRES_BIGINT_MAX then Inl (badRequest ''Money amount too large'')
           else bigintToMoneyCents (BigInt cents))"

definition centsToDecimalString :: "MoneyCentsInput \<Rightarrow> string result" where
  "centsToDecimalString cents =
     r_bind (moneyValue cents) (\<lambda>parsed.
       let sign = (if parsed < 0 then ''-'' else '''');
           magnitude = (if parsed < 0 then - parsed else parsed);
           whole = magnitude div 100;
           remainder = magnitude mod 100
       in Inr (sign @ int_dec whole @ ''.'' @ padStart2 (int_dec remainder)))"

section \<open>Provider wire formats\<close>

definition providerSafeCents :: "MoneyCents \<Rightarrow> int result" where
  "providerSafeCents amountCents =
     r_bind (moneyValue (Str amountCents)) (\<lambda>amount.
       if amount < 0 \<or> amount > MAX_SAFE_INTEGER
       then Inl (badRequest ''Payment amount exceeds the provider's exact numeric range'')
       else Inr amount)"

definition moneyCentsToProviderInteger :: "MoneyCents \<Rightarrow> js_number result" where
  "moneyCentsToProviderInteger amountCents =
     r_bind (providerSafeCents amountCents) (\<lambda>amount. Inr (JsInt amount))"

section \<open>The operations on integers\<close>

definition cents_add :: "int \<Rightarrow> int \<Rightarrow> int result" where
  "cents_add a b = r_bind (assertPostgresBigintRange a) (\<lambda>a.
     r_bind (assertPostgresBigintRange b) (\<lambda>b. assertPostgresBigintRange (a + b)))"

definition cents_sub :: "int \<Rightarrow> int \<Rightarrow> int result" where
  "cents_sub a b = r_bind (assertPostgresBigintRange a) (\<lambda>a.
     r_bind (assertPostgresBigintRange b) (\<lambda>b. assertPostgresBigintRange (a - b)))"

definition cents_abs :: "int \<Rightarrow> int result" where
  "cents_abs a = r_bind (assertPostgresBigintRange a) (\<lambda>a.
     assertPostgresBigintRange (if a < 0 then - a else a))"

definition cents_fee :: "int \<Rightarrow> int \<Rightarrow> int result" where
  "cents_fee amount bps =
     (if \<not> isSafeInteger (JsInt bps) \<or> bps < 0 \<or> bps > 10000
      then Inl (JsError (''feeBps must be an integer between 0 and 10000, got '' @ int_dec bps))
      else r_bind (assertPostgresBigintRange amount) (\<lambda>amount.
        if amount < 0 then Inl (JsError (''amountCents must be non-negative, got '' @ int_dec amount))
        else assertPostgresBigintRange ((amount * bps) div 10000)))"

section \<open>Lemmas\<close>

lemma assert_range_Inr_iff [simp]:
  "assertPostgresBigintRange v = Inr w \<longleftrightarrow> w = v \<and> in_bigint_range v"
  by (auto simp: assertPostgresBigintRange_def in_bigint_range_def)

lemma assert_range_eq: "in_bigint_range v \<Longrightarrow> assertPostgresBigintRange v = Inr v"
  by simp

lemma positive_numeral_nat_dec: "0 < n \<Longrightarrow> positive_numeral (nat_dec n)"
  by (simp add: positive_numeral_def hd_nat_dec nat_dec_digits)

lemma positive_numeral_dec_nat: "positive_numeral s \<Longrightarrow> nat_dec (dec_nat s) = s"
  by (simp add: positive_numeral_def nat_dec_dec_nat)

lemma positive_numeral_pos: "positive_numeral s \<Longrightarrow> 0 < dec_nat s"
proof (rule ccontr)
  assume s: "positive_numeral s" and "\<not> 0 < dec_nat s"
  then have "s = nat_dec 0" using positive_numeral_dec_nat [OF s] by simp
  with s show False by (simp add: positive_numeral_def nat_dec.simps)
qed

lemma nat_dec_0 [simp]: "nat_dec 0 = ''0''"
  by (simp add: nat_dec.simps)

lemma nat_dec_hd_digit: "nat_dec n = c # rest \<Longrightarrow> is_digit c"
  using nat_dec_digits [of n] by simp

lemma nat_dec_hd_not_minus: "nat_dec n = c # rest \<Longrightarrow> c \<noteq> CHR ''-''"
  using nat_dec_hd_digit minus_not_digit by blast

lemma canonical_int_dec [simp]: "CANONICAL_INTEGER_PATTERN (int_dec v)"
proof (cases "v < 0")
  case True
  then show ?thesis
    by (simp add: int_dec_def CANONICAL_INTEGER_PATTERN_def positive_numeral_nat_dec)
next
  case False
  show ?thesis
  proof (cases "v = 0")
    case True
    then show ?thesis by (simp add: int_dec_def CANONICAL_INTEGER_PATTERN_def)
  next
    case False
    with \<open>\<not> v < 0\<close> have "positive_numeral (nat_dec (nat v))" by (intro positive_numeral_nat_dec) simp
    with \<open>\<not> v < 0\<close> nat_dec_hd_not_minus [of "nat v"] show ?thesis
      by (auto simp: int_dec_def CANONICAL_INTEGER_PATTERN_def split: list.split)
  qed
qed

lemma bigint_of_string_int_dec [simp]: "bigint_of_string (int_dec v) = v"
proof (cases "v < 0")
  case True
  then show ?thesis by (simp add: bigint_of_string_def int_dec_def)
next
  case False
  obtain c rest where cr: "nat_dec (nat v) = c # rest" by (cases "nat_dec (nat v)") auto
  have "dec_nat (c # rest) = nat v" using dec_nat_nat_dec [of "nat v"] cr by simp
  moreover have "c \<noteq> CHR ''-''" using nat_dec_hd_not_minus [OF cr] .
  ultimately show ?thesis using False cr by (simp add: bigint_of_string_def int_dec_def)
qed

lemma int_dec_bigint_of_string: "CANONICAL_INTEGER_PATTERN s \<Longrightarrow> int_dec (bigint_of_string s) = s"
proof (cases s)
  case Nil
  then show "CANONICAL_INTEGER_PATTERN s \<Longrightarrow> ?thesis" by (simp add: CANONICAL_INTEGER_PATTERN_def)
next
  case (Cons c rest)
  assume can: "CANONICAL_INTEGER_PATTERN s"
  show ?thesis
  proof (cases "c = CHR ''-''")
    case True
    with can Cons have "positive_numeral rest" by (auto simp: CANONICAL_INTEGER_PATTERN_def)
    with True Cons show ?thesis
      using positive_numeral_pos [of rest] positive_numeral_dec_nat [of rest]
      by (simp add: bigint_of_string_def int_dec_def)
  next
    case False
    with can Cons have "s = ''0'' \<or> positive_numeral s" by (auto simp: CANONICAL_INTEGER_PATTERN_def)
    then have "nat_dec (dec_nat s) = s"
      using positive_numeral_dec_nat by (auto simp: dec_nat_def char_digit_def)
    with False Cons show ?thesis by (simp add: bigint_of_string_def int_dec_def)
  qed
qed

lemma int_dec_inject: "int_dec v = int_dec w \<longleftrightarrow> v = w"
  using bigint_of_string_int_dec by metis

lemma parse_int_dec: "parseMoneyCents (int_dec v) = assertPostgresBigintRange v"
  by (simp add: parseMoneyCents_def)

text \<open>The arithmetic depends on its arguments only through the integer each denotes.\<close>

lemma moneyValue_simps:
  "moneyValue (BigInt v) = assertPostgresBigintRange v"
  "moneyValue (Str s) = parseMoneyCents s"
  by (auto simp: moneyValue_def bigintToMoneyCents_def parse_int_dec r_bind_def parseMoneyCents_def
      split: sum.splits)

definition to_cents :: "int result \<Rightarrow> MoneyCents result" where
  "to_cents r = r_bind r (\<lambda>v. Inr (int_dec v))"

lemma bigintToMoneyCents_BigInt: "bigintToMoneyCents (BigInt v) = to_cents (assertPostgresBigintRange v)"
  by (simp add: bigintToMoneyCents_def to_cents_def)

lemma sub_refines:
  "subtractMoneyCents (Str (int_dec a)) (Str (int_dec b)) = to_cents (cents_sub a b)"
  by (simp add: subtractMoneyCents_def cents_sub_def moneyValue_simps parse_int_dec
      bigintToMoneyCents_BigInt to_cents_def r_bind_assoc r_bind_if)

lemma abs_refines: "absoluteMoneyCents (Str (int_dec a)) = to_cents (cents_abs a)"
  by (simp add: absoluteMoneyCents_def cents_abs_def moneyValue_simps parse_int_dec
      bigintToMoneyCents_BigInt to_cents_def r_bind_assoc r_bind_if)

lemma fee_refines:
  "platformFeeCents (Str (int_dec a)) (JsInt bps) = to_cents (cents_fee a bps)"
  by (simp add: platformFeeCents_def cents_fee_def moneyValue_simps parse_int_dec
      bigintToMoneyCents_BigInt to_cents_def r_bind_assoc r_bind_if cong: if_cong)

lemma cents_add_Inr_iff [simp]:
  "cents_add a b = Inr c \<longleftrightarrow> c = a + b \<and> in_bigint_range a \<and> in_bigint_range b \<and> in_bigint_range (a + b)"
  by (auto simp: cents_add_def)

lemma cents_sub_Inr_iff [simp]:
  "cents_sub a b = Inr c \<longleftrightarrow> c = a - b \<and> in_bigint_range a \<and> in_bigint_range b \<and> in_bigint_range (a - b)"
  by (auto simp: cents_sub_def)

lemma cents_abs_Inr_iff [simp]:
  "cents_abs a = Inr c \<longleftrightarrow> c = \<bar>a\<bar> \<and> in_bigint_range a \<and> in_bigint_range \<bar>a\<bar>"
  by (auto simp: cents_abs_def)

lemma cents_fee_Inr:
  "cents_fee amount bps = Inr f \<Longrightarrow>
   f = (amount * bps) div 10000 \<and> 0 \<le> bps \<and> bps \<le> 10000 \<and> 0 \<le> amount"
  by (auto simp: cents_fee_def split: if_splits)

lemma fee_le_amount: "0 \<le> amount \<Longrightarrow> 0 \<le> bps \<Longrightarrow> bps \<le> 10000 \<Longrightarrow>
  0 \<le> (amount * bps) div 10000 \<and> (amount * bps) div 10000 \<le> (amount :: int)"
proof
  assume a: "0 \<le> amount" "0 \<le> bps" "bps \<le> 10000"
  show "0 \<le> (amount * bps) div 10000" using a by (simp add: pos_imp_zdiv_nonneg_iff)
  have "amount * bps \<le> amount * 10000" using a by (simp add: mult_left_mono)
  then have "(amount * bps) div 10000 \<le> (amount * 10000) div 10000" by (rule zdiv_mono1) simp
  then show "(amount * bps) div 10000 \<le> amount" by simp
qed

text \<open>Decimal strings.\<close>

lemma is_digit_not_space: "is_digit c \<Longrightarrow> \<not> js_space c"
  by (auto simp: is_digit_def js_space_def)

lemma is_digit_not_dot: "is_digit c \<Longrightarrow> c \<noteq> CHR ''.''"
  by (auto simp: is_digit_def)

lemma js_trim_id: "s \<noteq> [] \<Longrightarrow> \<not> js_space (hd s) \<Longrightarrow> \<not> js_space (last s) \<Longrightarrow> js_trim s = s"
  by (auto simp: js_trim_def neq_Nil_conv hd_rev [symmetric] dropWhile_eq_self_iff)

lemma split_dot_digits:
  "list_all is_digit w \<Longrightarrow> split_dot (w @ ''.'' @ f) = (w, Some f)"
proof -
  assume "list_all is_digit w"
  then have "\<forall>c\<in>set w. c \<noteq> CHR ''.''" by (auto simp: list_all_iff is_digit_not_dot)
  then have "takeWhile (\<lambda>c. c \<noteq> CHR ''.'') (w @ ''.'' @ f) = w"
    "dropWhile (\<lambda>c. c \<noteq> CHR ''.'') (w @ ''.'' @ f) = ''.'' @ f"
    by (simp_all add: takeWhile_append2 dropWhile_append2)
  then show ?thesis by (simp add: split_dot_def)
qed

lemma nat_dec_small: "n < 10 \<Longrightarrow> nat_dec n = [digit_char n]"
  by (simp add: nat_dec.simps)

lemma nat_dec_two: "10 \<le> n \<Longrightarrow> n < 100 \<Longrightarrow> nat_dec n = [digit_char (n div 10), digit_char (n mod 10)]"
  by (subst nat_dec.simps) (simp add: nat_dec_small)

lemma padStart2_cases:
  assumes "n < 100"
  shows "length (padStart2 (nat_dec n)) = 2 \<and> list_all is_digit (padStart2 (nat_dec n)) \<and>
    dec_nat (padStart2 (nat_dec n)) = n"
proof (cases "n < 10")
  case True
  then show ?thesis
    by (simp add: padStart2_def nat_dec_small dec_nat_def char_digit_def is_digit_def of_char_digit_char)
next
  case False
  with assms show ?thesis
    by (simp add: padStart2_def nat_dec_two dec_nat_def)
qed

lemma hd_nat_dec_digit: "is_digit (hd (nat_dec n))"
  using nat_dec_digits [of n] nat_dec_not_Nil [of n] by (cases "nat_dec n") auto

lemma last_padStart2: "n < 100 \<Longrightarrow> is_digit (last (padStart2 (nat_dec n)))"
  using padStart2_cases [of n]
  by (cases "padStart2 (nat_dec n)" rule: rev_cases) auto

lemma moneyToCents_decimal:
  assumes r: "r < 100" and range: "int (w * 100 + r) \<le> POSTGRES_BIGINT_MAX"
  shows "moneyToCents (nat_dec w @ ''.'' @ padStart2 (nat_dec r)) = Inr (int_dec (int (w * 100 + r)))"
proof -
  let ?p = "padStart2 (nat_dec r)" and ?s = "nat_dec w @ ''.'' @ padStart2 (nat_dec r)"
  have p: "length ?p = 2" "list_all is_digit ?p" "dec_nat ?p = r"
    using padStart2_cases [OF r] by auto
  have "js_trim ?s = ?s"
  proof (rule js_trim_id)
    show "?s \<noteq> []" by simp
    show "\<not> js_space (hd ?s)" using is_digit_not_space [OF hd_nat_dec_digit [of w]] by simp
    show "\<not> js_space (last ?s)"
      using is_digit_not_space [OF last_padStart2 [OF r]] p(1) by auto
  qed
  moreover have "split_dot ?s = (nat_dec w, Some ?p)"
    by (rule split_dot_digits [OF nat_dec_digits])
  moreover have "padEnd2 ?p = ?p" using p(1) by (simp add: padEnd2_def)
  moreover have "in_bigint_range (int (w * 100 + r))"
    using range by (simp add: in_bigint_range_def POSTGRES_BIGINT_MIN_def)
  ultimately show ?thesis
    using p range
    by (simp add: moneyToCents_def MONEY_PATTERN_def nat_dec_digits bigintToMoneyCents_BigInt
        to_cents_def assert_range_eq algebra_simps)
qed

section \<open>Properties\<close>

text \<open>
  A string is accepted as cents exactly when it is the canonical decimal form of an integer
  in PostgreSQL's bigint range, and then it denotes that integer. Parsing and printing are
  inverse, so no two strings stand for one amount.
\<close>

theorem parse_iff_canonical:
  "parseMoneyCents s = Inr v \<longleftrightarrow> s = int_dec v \<and> in_bigint_range v"
  using int_dec_bigint_of_string [of s] by (auto simp: parseMoneyCents_def)

text \<open>
  Checked addition is exact or refused. It returns only the canonical form of the true sum of
  two canonical operands, and it returns whenever the operands and the sum are in range.
\<close>

theorem add_exact:
  "addMoneyCents (Str s) (Str t) = Inr u \<longleftrightarrow>
   (\<exists>a b. s = int_dec a \<and> t = int_dec b \<and> u = int_dec (a + b) \<and>
      in_bigint_range a \<and> in_bigint_range b \<and> in_bigint_range (a + b))"
proof -
  have p: "parseMoneyCents r = Inr v \<longleftrightarrow> r = int_dec v \<and> in_bigint_range v" for r v
    using int_dec_bigint_of_string [of r] by (auto simp: parseMoneyCents_def)
  show ?thesis
    by (auto simp: addMoneyCents_def moneyValue_simps bigintToMoneyCents_BigInt to_cents_def p
        int_dec_inject)
qed

text \<open>
  C25: the string-level money functions compute, on canonical strings, exactly the integer
  operations the services are modelled with, errors included.
\<close>

theorem money_ops_refine:
  "addMoneyCents (Str (int_dec a)) (Str (int_dec b)) = to_cents (cents_add a b) \<and>
   subtractMoneyCents (Str (int_dec a)) (Str (int_dec b)) = to_cents (cents_sub a b) \<and>
   absoluteMoneyCents (Str (int_dec a)) = to_cents (cents_abs a) \<and>
   platformFeeCents (Str (int_dec a)) (JsInt bps) = to_cents (cents_fee a bps)"
proof -
  have "addMoneyCents (Str (int_dec a)) (Str (int_dec b)) = to_cents (cents_add a b)"
    by (simp add: addMoneyCents_def cents_add_def moneyValue_simps parse_int_dec
        bigintToMoneyCents_BigInt to_cents_def r_bind_assoc)
  with sub_refines abs_refines fee_refines show ?thesis by blast
qed

text \<open>
  The platform fee is the floor of \<open>amount * bps / 10000\<close>, computed without rounding error,
  and lies between zero and the amount.
\<close>

theorem fee_is_floor:
  assumes "platformFeeCents (Str (int_dec amount)) (JsInt bps) = Inr f"
  shows "\<exists>v. f = int_dec v \<and> v * 10000 \<le> amount * bps \<and> amount * bps < (v + 1) * 10000 \<and>
    0 \<le> v \<and> v \<le> amount"
proof -
  from assms obtain v where v: "cents_fee amount bps = Inr v" "f = int_dec v"
    by (auto simp: fee_refines to_cents_def)
  from cents_fee_Inr [OF v(1)] have eq: "v = (amount * bps) div 10000"
    and b: "0 \<le> bps" "bps \<le> 10000" "0 \<le> amount" by auto
  have "v * 10000 \<le> amount * bps \<and> amount * bps < (v + 1) * 10000" unfolding eq by presburger
  with v(2) eq fee_le_amount [OF b(3,1,2)] show ?thesis by auto
qed

theorem fee_is_floor_witness:
  "\<exists>v. ''199'' = int_dec v \<and> v * 10000 \<le> 1999 * 1000 \<and> 1999 * 1000 < (v + 1) * 10000 \<and>
    0 \<le> v \<and> v \<le> 1999"
proof -
  have "platformFeeCents (Str (int_dec 1999)) (JsInt 1000) = Inr ''199''"
    by code_simp
  from fee_is_floor [OF this] show ?thesis .
qed

text \<open>
  \<open>moneyToCents\<close> inverts \<open>centsToDecimalString\<close> on every non-negative amount a bigint column
  can hold, so an amount handed to a provider as a decimal comes back as the same cents.
\<close>

theorem decimal_roundtrip:
  assumes "0 \<le> v" and "v \<le> POSTGRES_BIGINT_MAX"
  shows "r_bind (centsToDecimalString (BigInt v)) moneyToCents = Inr (int_dec v)"
proof -
  obtain n where n: "v = int n" using assms(1) nonneg_int_cases by blast
  have "in_bigint_range v" using assms by (simp add: in_bigint_range_def POSTGRES_BIGINT_MIN_def)
  moreover have "\<not> int n mod 100 < 0" "\<not> int n div 100 < 0" by (simp_all add: not_less)
  ultimately have "centsToDecimalString (BigInt v) =
      Inr (nat_dec (n div 100) @ ''.'' @ padStart2 (nat_dec (n mod 100)))"
    using n by (simp add: centsToDecimalString_def moneyValue_simps assert_range_eq Let_def int_dec_def
        nat_div_distrib nat_mod_distrib)
  moreover have "moneyToCents (nat_dec (n div 100) @ ''.'' @ padStart2 (nat_dec (n mod 100))) =
      Inr (int_dec (int (n div 100 * 100 + n mod 100)))"
    using assms n by (intro moneyToCents_decimal) auto
  ultimately show ?thesis using n by simp
qed

theorem decimal_roundtrip_witness:
  "r_bind (centsToDecimalString (BigInt 1905)) moneyToCents = Inr (int_dec 1905)"
  by (rule decimal_roundtrip) (simp_all add: POSTGRES_BIGINT_MAX_def)

end
