(* ===== verification/Enums.thy ===== *)
theory Enums
  imports Prelude
begin

text \<open>
  The lifecycle enumerations of \<open>backend/src/domain/enums.ts\<close>: each string union as a datatype
  with its wire names, the canonical lists, and the membership guards.
\<close>

datatype OrderStatus =
  Pending | Paid | InProgress | Delivered | Disputed | Completed | Refunded | Canceled

fun orderStatusName :: "OrderStatus \<Rightarrow> string" where
  "orderStatusName Pending = ''pending''"
| "orderStatusName Paid = ''paid''"
| "orderStatusName InProgress = ''in_progress''"
| "orderStatusName Delivered = ''delivered''"
| "orderStatusName Disputed = ''disputed''"
| "orderStatusName Completed = ''completed''"
| "orderStatusName Refunded = ''refunded''"
| "orderStatusName Canceled = ''canceled''"

datatype ProductStatus = ProdActive | ProdPaused | ProdBlocked | ProdDeleted

datatype DisputeStatus = DOpen | DResolving | DResolved | DResolutionFailed

datatype DisputeDecision = Refund | Release

fun decisionName :: "DisputeDecision \<Rightarrow> string" where
  "decisionName Refund = ''refund''"
| "decisionName Release = ''release''"

datatype DeliveryType = Manual | Instant

datatype Role = RUser | RModerator | RAdmin

fun roleName :: "Role \<Rightarrow> string" where
  "roleName RUser = ''user''"
| "roleName RModerator = ''moderator''"
| "roleName RAdmin = ''admin''"

definition ORDER_STATUSES :: "string list" where
  "ORDER_STATUSES = [''pending'', ''paid'', ''in_progress'', ''delivered'', ''disputed'',
     ''completed'', ''refunded'', ''canceled'']"

definition PRODUCT_STATUSES :: "string list" where
  "PRODUCT_STATUSES = [''active'', ''paused'', ''blocked'', ''deleted'']"

definition DISPUTE_STATUSES :: "string list" where
  "DISPUTE_STATUSES = [''open'', ''resolving'', ''resolved'', ''resolution_failed'']"

definition DELIVERY_TYPES :: "string list" where
  "DELIVERY_TYPES = [''manual'', ''instant'']"

definition PRODUCT_TYPES :: "string list" where
  "PRODUCT_TYPES = [''account'', ''key'', ''topup'', ''boosting'', ''service'', ''item'', ''currency'']"

definition CATALOG_STATUSES :: "string list" where
  "CATALOG_STATUSES = [''draft'', ''active'', ''hidden'', ''archived'', ''deleted'']"

definition ROLES :: "string list" where
  "ROLES = [''user'', ''moderator'', ''admin'']"

definition CURRENCY_CODES :: "string list" where
  "CURRENCY_CODES = [''UAH'', ''USD'', ''EUR'']"

definition enum_includes :: "string list \<Rightarrow> string \<Rightarrow> bool" where
  "enum_includes values value = list_ex (\<lambda>v. v = value) values"

definition isOrderStatus :: "string \<Rightarrow> bool" where
  "isOrderStatus value = enum_includes ORDER_STATUSES value"

definition isProductStatus :: "string \<Rightarrow> bool" where
  "isProductStatus value = enum_includes PRODUCT_STATUSES value"

definition isDisputeStatus :: "string \<Rightarrow> bool" where
  "isDisputeStatus value = enum_includes DISPUTE_STATUSES value"

definition isDeliveryType :: "string \<Rightarrow> bool" where
  "isDeliveryType value = enum_includes DELIVERY_TYPES value"

definition isProductType :: "string \<Rightarrow> bool" where
  "isProductType value = enum_includes PRODUCT_TYPES value"

definition isCatalogStatus :: "string \<Rightarrow> bool" where
  "isCatalogStatus value = enum_includes CATALOG_STATUSES value"

definition isRole :: "string \<Rightarrow> bool" where
  "isRole value = enum_includes ROLES value"

definition isCurrencyCode :: "string \<Rightarrow> bool" where
  "isCurrencyCode value = enum_includes CURRENCY_CODES value"

text \<open>The wire names are exactly the listed strings, and they identify the status.\<close>

lemma isOrderStatus_iff: "isOrderStatus v \<longleftrightarrow> (\<exists>s. v = orderStatusName s)"
proof
  assume "isOrderStatus v"
  then have "v \<in> orderStatusName ` {Pending, Paid, InProgress, Delivered, Disputed, Completed, Refunded, Canceled}"
    by (auto simp: isOrderStatus_def enum_includes_def ORDER_STATUSES_def)
  then show "\<exists>s. v = orderStatusName s" by blast
next
  assume "\<exists>s. v = orderStatusName s"
  then obtain s where "v = orderStatusName s" ..
  then show "isOrderStatus v"
    by (cases s) (simp_all add: isOrderStatus_def enum_includes_def ORDER_STATUSES_def)
qed

lemma orderStatusName_inject [simp]: "orderStatusName s = orderStatusName t \<longleftrightarrow> s = t"
  by (cases s; cases t) simp_all

lemma decisionName_inject [simp]: "decisionName s = decisionName t \<longleftrightarrow> s = t"
  by (cases s; cases t) simp_all

end
