(* ===== verification/Json.thy ===== *)
theory Json
  imports Prelude
begin

text \<open>
  JSON values, as the services store them in \<open>jsonb\<close> columns and send them in event payloads: an
  object is the list of its members in insertion order. \<open>json_contains\<close> is PostgreSQL's \<open>@>\<close> on
  objects, arrays and scalars.
\<close>

datatype json =
    JNull
  | JBool bool
  | JNum int
  | JStr string
  | JArr "json list"
  | JObj "(string \<times> json) list"

fun json_member :: "string \<Rightarrow> json \<Rightarrow> json option" where
  "json_member k (JObj ms) = map_of ms k"
| "json_member k _ = None"

text \<open>\<open>left @> right\<close>, by recursion on the right-hand side.\<close>

fun json_contains :: "json \<Rightarrow> json \<Rightarrow> bool" where
  "json_contains l (JObj ms) =
     (case l of JObj ls \<Rightarrow>
        list_all (\<lambda>m. case map_of ls (fst m) of None \<Rightarrow> False | Some v \<Rightarrow> json_contains v (snd m)) ms
      | _ \<Rightarrow> False)"
| "json_contains l (JArr rs) =
     (case l of JArr ls \<Rightarrow> list_all (\<lambda>r. list_ex (\<lambda>v. json_contains v r) ls) rs | _ \<Rightarrow> False)"
| "json_contains l r = (l = r)"

fun json_of_option :: "string option \<Rightarrow> json" where
  "json_of_option None = JNull"
| "json_of_option (Some s) = JStr s"

text \<open>\<open>{...o, k: v}\<close>: a present member keeps its place and takes the new value.\<close>

fun obj_put :: "string \<Rightarrow> json \<Rightarrow> (string \<times> json) list \<Rightarrow> (string \<times> json) list" where
  "obj_put k v [] = [(k, v)]"
| "obj_put k v ((k', v') # ms) = (if k' = k then (k, v) # ms else (k', v') # obj_put k v ms)"

definition obj_spread :: "(string \<times> json) list \<Rightarrow> (string \<times> json) list \<Rightarrow> (string \<times> json) list" where
  "obj_spread ms more = fold (\<lambda>(k, v). obj_put k v) more ms"

definition json_strings :: "string list \<Rightarrow> json" where
  "json_strings xs = JArr (map JStr xs)"

text \<open>\<open>JSON.stringify\<close>: control characters, quotes and backslashes are escaped, numbers are integers.\<close>

definition hex_digit :: "nat \<Rightarrow> char" where
  "hex_digit d = (if d < 10 then char_of (48 + d) else char_of (87 + d))"

definition escape_char :: "char \<Rightarrow> string" where
  "escape_char c = (let n = of_char c :: nat in
     if n = 34 \<or> n = 92 then [char_of (92::nat), c]
     else if n = 8 then [char_of (92::nat), CHR ''b''] else if n = 9 then [char_of (92::nat), CHR ''t'']
     else if n = 10 then [char_of (92::nat), CHR ''n''] else if n = 12 then [char_of (92::nat), CHR ''f'']
     else if n = 13 then [char_of (92::nat), CHR ''r'']
     else if n < 32 then [char_of (92::nat), CHR ''u'', CHR ''0'', CHR ''0'', hex_digit (n div 16), hex_digit (n mod 16)]
     else [c])"

definition quote_string :: "string \<Rightarrow> string" where
  "quote_string x = char_of (34::nat) # concat (map escape_char x) @ [char_of (34::nat)]"

fun join_comma :: "string list \<Rightarrow> string" where
  "join_comma [] = []"
| "join_comma [x] = x"
| "join_comma (x # y # xs) = x @ CHR '','' # join_comma (y # xs)"

fun stringify :: "json \<Rightarrow> string" where
  "stringify JNull = ''null''"
| "stringify (JBool b) = (if b then ''true'' else ''false'')"
| "stringify (JNum n) = int_dec n"
| "stringify (JStr x) = quote_string x"
| "stringify (JArr xs) = CHR ''['' # join_comma (map stringify xs) @ '']''"
| "stringify (JObj fs) = CHR ''{'' # join_comma (map (\<lambda>(k, v). quote_string k @ CHR '':'' # stringify v) fs) @ ''}''"

lemma map_of_obj_put: "map_of (obj_put k v ms) = (map_of ms)(k \<mapsto> v)"
  by (induction k v ms rule: obj_put.induct) (auto simp: fun_eq_iff)

lemma json_contains_scalar_refl [simp]:
  "json_contains (JStr s) (JStr s)" "json_contains (JNum i) (JNum i)"
  "json_contains (JBool b) (JBool b)" "json_contains JNull JNull"
  by simp_all

end
