(* ===== verification/I18n.thy ===== *)
theory I18n
  imports Json
begin

text \<open>
  Translation: \<open>backend/src/i18n/config.ts\<close> and \<open>backend/src/i18n/t.ts\<close>. The three locale files
  are data; they enter as the argument \<open>dicts\<close>, nested as the files nest them.
\<close>

datatype Locale = Ua | Ru | En

fun localeName :: "Locale \<Rightarrow> string" where
  "localeName Ua = ''ua''"
| "localeName Ru = ''ru''"
| "localeName En = ''en''"

definition defaultLocale :: Locale where
  "defaultLocale = Ua"

definition isLocale :: "string option \<Rightarrow> Locale option" where
  "isLocale value = (case value of
       None \<Rightarrow> None
     | Some v \<Rightarrow> (if v = ''ua'' then Some Ua else if v = ''ru'' then Some Ru
                 else if v = ''en'' then Some En else None))"

definition ascii_lower :: "char \<Rightarrow> char" where
  "ascii_lower c = (let n = (of_char c :: nat) in if 65 \<le> n \<and> n \<le> 90 then char_of (n + 32) else c)"

definition ascii_upper :: "char \<Rightarrow> char" where
  "ascii_upper c = (let n = (of_char c :: nat) in if 97 \<le> n \<and> n \<le> 122 then char_of (n - 32) else c)"

text \<open>\<open>toLowerCase\<close> and \<open>toUpperCase\<close> on ASCII text.\<close>

definition toLowerCase :: "string \<Rightarrow> string" where
  "toLowerCase = map ascii_lower"

definition toUpperCase :: "string \<Rightarrow> string" where
  "toUpperCase = map ascii_upper"

definition normalizeLocale :: "string option \<Rightarrow> Locale" where
  "normalizeLocale value = (case isLocale value of
       Some l \<Rightarrow> l
     | None \<Rightarrow> (case value of
           None \<Rightarrow> defaultLocale
         | Some v \<Rightarrow>
             let lower = toLowerCase v in
             if prefix ''uk'' lower \<or> prefix ''ua'' lower then Ua
             else if prefix ''ru'' lower then Ru
             else if prefix ''en'' lower then En
             else defaultLocale))"

datatype NestedDictionary = Text string | Dict "(string \<times> NestedDictionary) list"

type_synonym FlatDictionary = "(string \<times> string) list"

text \<open>
  \<open>flatten\<close> walks the entries in order and writes each text under its dotted path; a later write to
  the same path wins, so the accumulator is read from its front.
\<close>

fun flatten :: "NestedDictionary \<Rightarrow> string \<Rightarrow> FlatDictionary \<Rightarrow> FlatDictionary" where
  "flatten (Text s) path into = (path, s) # into"
| "flatten (Dict entries) pre into =
     fold (\<lambda>e acc. flatten (snd e) (if pre \<noteq> [] then pre @ ''.'' @ fst e else fst e) acc) entries into"

type_synonym dictionaries = "Locale \<Rightarrow> NestedDictionary"
type_synonym TranslateParams = "(string \<times> json) list"

definition dictionary :: "dictionaries \<Rightarrow> Locale \<Rightarrow> FlatDictionary" where
  "dictionary dicts l = flatten (dicts l) [] []"

definition word_char :: "char \<Rightarrow> bool" where
  "word_char c \<longleftrightarrow> is_digit c \<or> c = CHR ''_'' \<or>
     (65 \<le> (of_char c :: nat) \<and> (of_char c :: nat) \<le> 90) \<or>
     (97 \<le> (of_char c :: nat) \<and> (of_char c :: nat) \<le> 122)"

fun param_string :: "json \<Rightarrow> string" where
  "param_string (JStr s) = s"
| "param_string (JNum i) = int_dec i"
| "param_string _ = []"

text \<open>\<open>template.replace(/\{(\w+)\}/g, ...)\<close>: an unknown name leaves the placeholder in place.\<close>

function interpolate_go :: "TranslateParams \<Rightarrow> string \<Rightarrow> string" where
  "interpolate_go params [] = []"
| "interpolate_go params (c # s) =
     (let name = takeWhile word_char s; rest = dropWhile word_char s in
      if c = CHR ''{'' \<and> name \<noteq> [] \<and> rest \<noteq> [] \<and> hd rest = CHR ''}''
      then (case map_of params name of None \<Rightarrow> ''{'' @ name @ ''}'' | Some v \<Rightarrow> param_string v)
           @ interpolate_go params (tl rest)
      else c # interpolate_go params s)"
  by pat_completeness auto
termination
  by (relation "measure (\<lambda>(params, s). length s)") (auto simp: less_Suc_eq_le intro: le_trans [OF diff_le_self length_dropWhile_le])

definition interpolate :: "string \<Rightarrow> TranslateParams option \<Rightarrow> string" where
  "interpolate template params = (case params of None \<Rightarrow> template | Some ps \<Rightarrow> interpolate_go ps template)"

definition translate :: "dictionaries \<Rightarrow> Locale \<Rightarrow> string \<Rightarrow> TranslateParams option \<Rightarrow> string" where
  "translate dicts locale key params = (case map_of (dictionary dicts locale) key of
       Some exact \<Rightarrow> interpolate exact params
     | None \<Rightarrow> (case map_of (dictionary dicts defaultLocale) key of
           Some fallback \<Rightarrow> interpolate fallback params
         | None \<Rightarrow> key))"

text \<open>The request locale: header, then cookie, then the first accepted language, then the default.\<close>

definition getRequestLocale :: "string option \<Rightarrow> string option \<Rightarrow> string option \<Rightarrow> Locale" where
  "getRequestLocale header cookie acceptLanguage = (case isLocale header of
       Some l \<Rightarrow> l
     | None \<Rightarrow> (case isLocale cookie of
           Some l \<Rightarrow> l
         | None \<Rightarrow> (case acceptLanguage of
               Some (a # as) \<Rightarrow> normalizeLocale (Some (takeWhile (\<lambda>c. c \<noteq> CHR '','') (a # as)))
             | _ \<Rightarrow> defaultLocale)))"

lemma length_toUpperCase [simp]: "length (toUpperCase s) = length s"
  by (simp add: toUpperCase_def)

lemma interpolate_go_plain: "CHR ''{'' \<notin> set s \<Longrightarrow> interpolate_go params s = s"
  by (induction s) (auto simp: Let_def)

end
