(* ===== verification/Database.thy ===== *)
theory Database
  imports Money Enums I18n
begin

text \<open>
  The marketplace database and its process-local companions as one state record, with the rows the
  services select and write (\<open>backend/migrations\<close> fixes their columns and constraints), the
  configuration of \<open>config/env.ts\<close> the services read, and \<open>inTx\<close> of \<open>db/pool.ts\<close>.

  A table is the list of its rows. A wallet is identified by its unique (user, currency) pair and a
  ledger entry by its unique idempotency key, so those pairs stand for the surrogate ids. Values of
  \<open>gen_random_uuid()\<close>, \<open>randomUUID()\<close> and \<open>nanoid()\<close> come from the supplies of the
  configuration, indexed by a counter.
\<close>

section \<open>Rows\<close>

record user_row =
  u_id :: uuid
  u_role :: Role
  u_banned :: bool

record product_row =
  p_id :: uuid
  p_seller :: uuid
  p_price :: int
  p_currency :: string
  p_stock :: int
  p_status :: ProductStatus
  p_delivery_type :: DeliveryType
  p_delivery_template :: "string option"
  p_sales_count :: int

record order_row =
  o_id :: uuid
  o_buyer :: uuid
  o_seller :: uuid
  o_product :: uuid
  o_quantity :: int
  o_amount :: int
  o_fee :: int
  o_currency :: string
  o_status :: OrderStatus
  o_payment_provider :: "string option"
  o_payment_reference :: "string option"
  o_delivery_note :: "string option"
  o_auto_release_at :: "time option"
  o_paid_at :: "time option"
  o_delivered_at :: "time option"
  o_completed_at :: "time option"
  o_created_at :: time
  o_updated_at :: time

record wallet_row =
  w_user :: uuid
  w_currency :: string
  w_available :: int
  w_escrow :: int

record platform_wallet_row =
  pw_currency :: string
  pw_revenue :: int

record transaction_row =
  tr_id :: uuid
  tr_user :: uuid
  tr_order :: "uuid option"
  tr_type :: string
  tr_direction :: string
  tr_amount :: int
  tr_currency :: string
  tr_status :: string
  tr_metadata :: json

datatype AccountType = Asset | Liability | Revenue | Expense | Equity

record account_row =
  ac_code :: string
  ac_name :: string
  ac_type :: AccountType
  ac_currency :: string
  ac_user :: "uuid option"

record entry_row =
  en_key :: string
  en_type :: string
  en_order :: "uuid option"
  en_currency :: string
  en_metadata :: json

record line_row =
  ln_entry :: string
  ln_account :: string
  ln_debit :: int
  ln_credit :: int
  ln_currency :: string

datatype TopupStatus = TPending | TCompleted | TFailed

record topup_row =
  tp_id :: uuid
  tp_user :: uuid
  tp_amount :: int
  tp_currency :: string
  tp_status :: TopupStatus
  tp_provider :: "string option"
  tp_reference :: "string option"
  tp_completed_at :: "time option"

datatype PayoutStatus = POPending | POProcessing | POPaid | PORejected

record payout_row =
  po_id :: uuid
  po_user :: uuid
  po_transaction :: uuid
  po_amount :: int
  po_currency :: string
  po_provider :: string
  po_destination :: json
  po_status :: PayoutStatus
  po_reference :: "string option"
  po_admin_note :: "string option"
  po_processed_by :: "uuid option"
  po_processed_at :: "time option"

record dispute_row =
  d_id :: uuid
  d_order :: uuid
  d_opened_by :: uuid
  d_reason :: string
  d_status :: DisputeStatus
  d_resolution :: "DisputeDecision option"
  d_decision :: "DisputeDecision option"
  d_operation :: "uuid option"
  d_started_at :: "time option"
  d_attempts :: nat
  d_last_error :: "string option"
  d_admin :: "uuid option"
  d_admin_note :: "string option"
  d_created_at :: time
  d_resolved_at :: "time option"

record event_row =
  ev_id :: uuid
  ev_order :: uuid
  ev_actor :: "uuid option"
  ev_type :: string
  ev_title :: string
  ev_body :: "string option"
  ev_metadata :: json
  ev_created_at :: time

datatype OutboxStatus = OPending | OProcessing | OProcessed | OFailed

record outbox_row =
  ob_id :: uuid
  ob_key :: string
  ob_type :: string
  ob_aggregate_type :: string
  ob_aggregate_id :: string
  ob_payload :: json
  ob_status :: OutboxStatus
  ob_attempts :: nat
  ob_available_at :: time
  ob_locked_at :: "time option"
  ob_locked_by :: "string option"
  ob_processed_at :: "time option"
  ob_last_error :: "string option"
  ob_created_at :: time

record conversation_row =
  cv_id :: uuid
  cv_buyer :: uuid
  cv_seller :: uuid
  cv_product :: "uuid option"
  cv_order :: "uuid option"

record message_row =
  ms_id :: uuid
  ms_conversation :: uuid
  ms_sender :: "uuid option"
  ms_kind :: string
  ms_system_type :: "string option"
  ms_body :: string
  ms_metadata :: json

record review_row =
  rv_id :: uuid
  rv_order :: uuid
  rv_seller :: uuid
  rv_buyer :: uuid
  rv_rating :: int
  rv_comment :: "string option"

record notification_row =
  nt_id :: uuid
  nt_user :: uuid
  nt_type :: string
  nt_title :: string
  nt_body :: "string option"
  nt_title_key :: "string option"
  nt_body_key :: "string option"
  nt_params :: json
  nt_order :: "uuid option"
  nt_product :: "uuid option"
  nt_conversation :: "uuid option"
  nt_event_key :: "string option"

datatype IdemStatus = IProcessing | ICompleted

record idem_row =
  ik_id :: uuid
  ik_user :: uuid
  ik_scope :: string
  ik_key :: uuid
  ik_hash :: string
  ik_status :: IdemStatus
  ik_response_status :: "nat option"
  ik_response_body :: "json option"
  ik_resource :: "uuid option"
  ik_expires_at :: time

record snapshot_row =
  sn_currency :: string
  sn_wallet_available :: int
  sn_wallet_escrow :: int
  sn_ledger_payable :: int
  sn_ledger_escrow :: int
  sn_platform_revenue :: int
  sn_ledger_revenue :: int
  sn_provider_clearing :: int
  sn_difference :: int
  sn_status :: string

section \<open>State\<close>

text \<open>
  \<open>cache\<close> holds the keys present in Redis, \<open>captured\<close> the references the simulated payment
  providers keep in memory; neither is rolled back with a transaction.
\<close>

record db =
  users :: "user_row list"
  products :: "product_row list"
  orders :: "order_row list"
  wallets :: "wallet_row list"
  platform_wallets :: "platform_wallet_row list"
  transactions :: "transaction_row list"
  ledger_accounts :: "account_row list"
  ledger_entries :: "entry_row list"
  ledger_lines :: "line_row list"
  wallet_topups :: "topup_row list"
  payouts :: "payout_row list"
  disputes :: "dispute_row list"
  order_events :: "event_row list"
  domain_outbox :: "outbox_row list"
  conversations :: "conversation_row list"
  messages :: "message_row list"
  notifications :: "notification_row list"
  reviews :: "review_row list"
  idempotency_keys :: "idem_row list"
  snapshots :: "snapshot_row list"
  uuid_ctr :: nat
  cache :: "string list"
  captured :: "((string \<times> string) \<times> string) list"

record env =
  PLATFORM_FEE_BPS :: int
  AUTO_RELEASE_HOURS :: int
  NODE_ENV_production :: bool
  dicts :: dictionaries
  gen_uuid :: "nat \<Rightarrow> uuid"
  gen_nanoid :: "nat \<Rightarrow> string"
  redis_up :: bool
  pg_message :: "string \<Rightarrow> string"

type_synonym 'a dbtx = "(db, 'a) tx"

section \<open>Transactions\<close>

definition rollback :: "db \<Rightarrow> db \<Rightarrow> db" where
  "rollback s s' = s\<lparr>cache := cache s', captured := captured s'\<rparr>"

definition inTx :: "'a dbtx \<Rightarrow> 'a dbtx" where
  "inTx fn s = (case fn s of (Inl e, s') \<Rightarrow> (Inl e, rollback s s') | (Inr x, s') \<Rightarrow> (Inr x, s'))"

definition RETRYABLE_TX_CODES :: "string list" where
  "RETRYABLE_TX_CODES = [''40001'', ''40P01'']"

definition retryableTxCode :: "err \<Rightarrow> string option" where
  "retryableTxCode e = (case e of
       PgError code \<Rightarrow> (if list_ex (\<lambda>c. c = code) RETRYABLE_TX_CODES then Some code else None)
     | _ \<Rightarrow> None)"

text \<open>
  One attempt under SERIALIZABLE: the server may abort it with a serialization or deadlock code.
  \<open>fault\<close> says whether it does; an aborted attempt has run the callback, then rolls back.
\<close>

definition attemptTx :: "string option \<Rightarrow> 'a dbtx \<Rightarrow> 'a dbtx" where
  "attemptTx fault fn s = (case fault of
       None \<Rightarrow> inTx fn s
     | Some code \<Rightarrow> (Inl (PgError code), rollback s (snd (fn s))))"

text \<open>The retry loop of \<open>inSerializableTx\<close>, from attempt number \<open>attempt\<close> on.\<close>

function serializableLoop :: "nat \<Rightarrow> (nat \<Rightarrow> string option) \<Rightarrow> 'a dbtx \<Rightarrow> nat \<Rightarrow> 'a dbtx" where
  "serializableLoop maxAttempts faults fn attempt s =
     (case attemptTx (faults attempt) fn s of
        (Inr x, s') \<Rightarrow> (Inr x, s')
      | (Inl e, s') \<Rightarrow>
          (case retryableTxCode e of
             None \<Rightarrow> (Inl e, s')
           | Some code \<Rightarrow>
               if attempt \<ge> maxAttempts then (Inl e, s')
               else serializableLoop maxAttempts faults fn (Suc attempt) s'))"
  by pat_completeness auto
termination
  by (relation "measure (\<lambda>(maxAttempts, faults, fn, attempt, s). maxAttempts - attempt)") auto

declare serializableLoop.simps [simp del]

definition inSerializableTx :: "nat \<Rightarrow> (nat \<Rightarrow> string option) \<Rightarrow> 'a dbtx \<Rightarrow> 'a dbtx" where
  "inSerializableTx maxAttempts faults fn = serializableLoop (max 1 maxAttempts) faults fn 1"

section \<open>Statements\<close>

definition gen_random_uuid :: "env \<Rightarrow> uuid dbtx" where
  "gen_random_uuid env =
     (\<lambda>s. (Inr (gen_uuid env (uuid_ctr s)), s\<lparr>uuid_ctr := Suc (uuid_ctr s)\<rparr>))"

definition wallet_key :: "wallet_row \<Rightarrow> uuid \<times> string" where
  "wallet_key w = (w_user w, w_currency w)"

text \<open>
  \<open>insert into wallets ... on conflict (user_id, currency) do update set updated_at\<close>: the row is
  created empty when it is missing, and its user must exist (foreign key).
\<close>

definition ensureWallet :: "uuid \<Rightarrow> string \<Rightarrow> (uuid \<times> string) dbtx" where
  "ensureWallet userId currency = (\<lambda>s.
     case t_find wallet_key (userId, currency) (wallets s) of
       Some _ \<Rightarrow> (Inr (userId, currency), s)
     | None \<Rightarrow>
         (case t_find u_id userId (users s) of
            None \<Rightarrow> (Inl (PgError ''23503''), s)
          | Some _ \<Rightarrow> (Inr (userId, currency),
              s\<lparr>wallets := wallets s @
                 [\<lparr>w_user = userId, w_currency = currency, w_available = 0, w_escrow = 0\<rparr>]\<rparr>)))"

definition selectWallet :: "uuid \<times> string \<Rightarrow> wallet_row dbtx" where
  "selectWallet wid = tx_bind (tx_gets (\<lambda>s. t_find wallet_key wid (wallets s)))
     (\<lambda>w. tx_some w (JsError ''Cannot read properties of undefined''))"

text \<open>A wallet write under the \<open>check (available_cents >= 0)\<close>, \<open>check (escrow_cents >= 0)\<close> columns.\<close>

definition updateWallet :: "uuid \<times> string \<Rightarrow> (wallet_row \<Rightarrow> wallet_row) \<Rightarrow> unit dbtx" where
  "updateWallet wid f = tx_bind (tx_gets (\<lambda>s. t_find wallet_key wid (wallets s))) (\<lambda>w.
     case w of
       Some row \<Rightarrow> tx_bind (tx_guard (0 \<le> w_available (f row) \<and> 0 \<le> w_escrow (f row)) (PgError ''23514''))
         (\<lambda>_. tx_modify (wallets_update (t_upd wallet_key wid f)))
     | None \<Rightarrow> tx_return ())"

text \<open>The \<open>check (type in ...)\<close> of the \<open>transactions\<close> table, as every migration leaves it.\<close>

definition TRANSACTION_TYPES :: "string list" where
  "TRANSACTION_TYPES = [''payment_capture'', ''escrow_hold'', ''escrow_release'', ''platform_fee'',
     ''refund'', ''wallet_credit'', ''wallet_debit'']"

definition insertTransaction ::
  "env \<Rightarrow> uuid \<Rightarrow> uuid option \<Rightarrow> string \<Rightarrow> string \<Rightarrow> int \<Rightarrow> string \<Rightarrow> string \<Rightarrow> json \<Rightarrow> uuid dbtx" where
  "insertTransaction env userId orderId type direction amount currency status metadata =
     tx_bind (gen_random_uuid env) (\<lambda>id.
     tx_bind (tx_guard (list_ex (\<lambda>t. t = type) TRANSACTION_TYPES \<and> 0 \<le> amount) (PgError ''23514'')) (\<lambda>_.
     tx_bind (tx_modify (transactions_update (\<lambda>ts. ts @
       [\<lparr>tr_id = id, tr_user = userId, tr_order = orderId, tr_type = type, tr_direction = direction,
         tr_amount = amount, tr_currency = currency, tr_status = status, tr_metadata = metadata\<rparr>]))) (\<lambda>_.
     tx_return id)))"

text \<open>\<open>error.message\<close>; the text of a PostgreSQL error is the server's.\<close>

definition error_message :: "env \<Rightarrow> err \<Rightarrow> string" where
  "error_message env e = (case e of
       ApiError _ m _ \<Rightarrow> m
     | JsError m \<Rightarrow> m
     | MoneyRangeError m \<Rightarrow> m
     | PgError code \<Rightarrow> pg_message env code
     | ZodError m \<Rightarrow> m)"

section \<open>Read caches\<close>

text \<open>\<open>deleteCacheKeys\<close> and \<open>deleteCachePrefixes\<close> of \<open>common/redis.ts\<close>; nothing happens without Redis.\<close>

definition cacheDel :: "env \<Rightarrow> string list \<Rightarrow> unit dbtx" where
  "cacheDel env keys = tx_when (redis_up env)
     (tx_modify (cache_update (filter (\<lambda>k. \<not> list_ex (\<lambda>d. d = k) keys))))"

definition cacheDelPrefixes :: "env \<Rightarrow> string list \<Rightarrow> unit dbtx" where
  "cacheDelPrefixes env ps = tx_when (redis_up env)
     (tx_modify (cache_update (filter (\<lambda>k. \<not> list_ex (\<lambda>p. p \<noteq> [] \<and> prefix p k) ps))))"

definition orderReadPrefixes :: "uuid \<Rightarrow> uuid \<Rightarrow> uuid \<Rightarrow> string list" where
  "orderReadPrefixes orderId buyerId sellerId =
     [''order:'' @ orderId @ '':'', ''orders:'' @ buyerId @ '':'', ''orders:'' @ sellerId @ '':'']"

definition walletCacheKey :: "uuid \<Rightarrow> string" where
  "walletCacheKey userId = ''user:'' @ userId @ '':wallet''"

text \<open>\<open>invalidateOrderParticipantReadCaches\<close> in its best-effort mode.\<close>

definition invalidateOrderParticipantReadCaches ::
  "env \<Rightarrow> uuid \<Rightarrow> uuid \<Rightarrow> uuid \<Rightarrow> bool \<Rightarrow> bool \<Rightarrow> unit dbtx" where
  "invalidateOrderParticipantReadCaches env orderId buyerId sellerId buyerWallet sellerWallet =
     tx_bind (cacheDelPrefixes env (orderReadPrefixes orderId buyerId sellerId)) (\<lambda>_.
     cacheDel env ((if buyerWallet then [walletCacheKey buyerId] else []) @
                   (if sellerWallet then [walletCacheKey sellerId] else [])))"

section \<open>The tables as interfaces\<close>

interpretation orders_tbl: table o_id orders orders_update by unfold_locales simp
interpretation wallets_tbl: table wallet_key wallets wallets_update by unfold_locales simp
interpretation platform_tbl: table pw_currency platform_wallets platform_wallets_update
  by unfold_locales simp
interpretation topups_tbl: table tp_id wallet_topups wallet_topups_update by unfold_locales simp
interpretation payouts_tbl: table po_id payouts payouts_update by unfold_locales simp
interpretation disputes_tbl: table d_id disputes disputes_update by unfold_locales simp
interpretation outbox_tbl: table ob_id domain_outbox domain_outbox_update by unfold_locales simp
interpretation products_tbl: table p_id products products_update by unfold_locales simp

section \<open>Side tables\<close>

text \<open>
  What the money and lifecycle properties do not look at: timeline events, the outbox, chat, reviews,
  idempotency records, reconciliation snapshots and the read caches. A step that only touches those, and
  perhaps draws new ids, is a side step.
\<close>

definition side_core :: "db \<Rightarrow> db" where
  "side_core s = s\<lparr>order_events := [], domain_outbox := [], conversations := [], messages := [],
     notifications := [], reviews := [], idempotency_keys := [], snapshots := [], uuid_ctr := 0, cache := []\<rparr>"

definition side_step :: "db \<Rightarrow> db \<Rightarrow> bool" where
  "side_step s s' \<longleftrightarrow> side_core s' = side_core s \<and> uuid_ctr s \<le> uuid_ctr s'"

interpretation side: frame side_step
  by unfold_locales (auto simp: side_step_def)

lemma side_step_fields:
  assumes "side_step s s'"
  shows "users s' = users s" "products s' = products s" "orders s' = orders s" "wallets s' = wallets s"
    "platform_wallets s' = platform_wallets s" "transactions s' = transactions s"
    "ledger_accounts s' = ledger_accounts s" "ledger_entries s' = ledger_entries s"
    "ledger_lines s' = ledger_lines s" "wallet_topups s' = wallet_topups s" "payouts s' = payouts s"
    "disputes s' = disputes s" "captured s' = captured s" "uuid_ctr s \<le> uuid_ctr s'"
proof -
  from assms have eq: "side_core s' = side_core s" and ctr: "uuid_ctr s \<le> uuid_ctr s'"
    by (auto simp: side_step_def)
  show "uuid_ctr s \<le> uuid_ctr s'" by (rule ctr)
  from arg_cong [OF eq, of users] show "users s' = users s" by (simp add: side_core_def)
  from arg_cong [OF eq, of products] show "products s' = products s" by (simp add: side_core_def)
  from arg_cong [OF eq, of orders] show "orders s' = orders s" by (simp add: side_core_def)
  from arg_cong [OF eq, of wallets] show "wallets s' = wallets s" by (simp add: side_core_def)
  from arg_cong [OF eq, of platform_wallets] show "platform_wallets s' = platform_wallets s"
    by (simp add: side_core_def)
  from arg_cong [OF eq, of transactions] show "transactions s' = transactions s" by (simp add: side_core_def)
  from arg_cong [OF eq, of ledger_accounts] show "ledger_accounts s' = ledger_accounts s"
    by (simp add: side_core_def)
  from arg_cong [OF eq, of ledger_entries] show "ledger_entries s' = ledger_entries s"
    by (simp add: side_core_def)
  from arg_cong [OF eq, of ledger_lines] show "ledger_lines s' = ledger_lines s" by (simp add: side_core_def)
  from arg_cong [OF eq, of wallet_topups] show "wallet_topups s' = wallet_topups s" by (simp add: side_core_def)
  from arg_cong [OF eq, of payouts] show "payouts s' = payouts s" by (simp add: side_core_def)
  from arg_cong [OF eq, of disputes] show "disputes s' = disputes s" by (simp add: side_core_def)
  from arg_cong [OF eq, of captured] show "captured s' = captured s" by (simp add: side_core_def)
qed

section \<open>Lemmas\<close>

lemma side_gen_random_uuid: "side.keeps (gen_random_uuid env)"
  by (auto simp: side.keeps_def gen_random_uuid_def side_step_def side_core_def)

lemma side_caches:
  "side.keeps (cacheDel env ks)"
  "side.keeps (cacheDelPrefixes env ps)"
  "side.keeps (invalidateOrderParticipantReadCaches env ordId b sl x y)"
  unfolding invalidateOrderParticipantReadCaches_def cacheDel_def cacheDelPrefixes_def
  by (intro side.keeps_intros; simp add: side_step_def side_core_def)+

lemma inTx_iff [tx_simps]: "inTx fn s = (Inr x, s') \<longleftrightarrow> fn s = (Inr x, s')"
  by (auto simp: inTx_def split: prod.splits sum.splits)

lemma inTx_Inl: "inTx fn s = (Inl e, s') \<Longrightarrow> \<exists>s''. fn s = (Inl e, s'') \<and> s' = rollback s s''"
  by (auto simp: inTx_def split: prod.splits sum.splits)

lemma rollback_rollback [simp]: "rollback (rollback s s') s'' = rollback s s''"
  by (simp add: rollback_def)

lemma gen_random_uuid_iff [tx_simps]:
  "gen_random_uuid env s = (Inr uid, s') \<longleftrightarrow> uid = gen_uuid env (uuid_ctr s) \<and> s' = s\<lparr>uuid_ctr := Suc (uuid_ctr s)\<rparr>"
  by (auto simp: gen_random_uuid_def)

lemma selectWallet_iff [tx_simps]:
  "selectWallet wid s = (Inr w, s') \<longleftrightarrow> t_find wallet_key wid (wallets s) = Some w \<and> s' = s"
  by (auto simp: selectWallet_def tx_simps)

lemma updateWallet_iff:
  "updateWallet wid f s = (Inr y, s') \<longleftrightarrow>
   (case t_find wallet_key wid (wallets s) of
      None \<Rightarrow> s' = s
    | Some w \<Rightarrow> 0 \<le> w_available (f w) \<and> 0 \<le> w_escrow (f w) \<and>
        s' = s\<lparr>wallets := t_upd wallet_key wid f (wallets s)\<rparr>)"
  by (auto simp: updateWallet_def tx_simps split: option.splits)

lemma insertTransaction_iff [tx_simps]:
  "insertTransaction env u oid ty dir amt cur st md s = (Inr uid, s') \<longleftrightarrow>
     ty \<in> set TRANSACTION_TYPES \<and> 0 \<le> amt \<and> uid = gen_uuid env (uuid_ctr s) \<and>
     s' = s\<lparr>uuid_ctr := Suc (uuid_ctr s), transactions := transactions s @
       [\<lparr>tr_id = uid, tr_user = u, tr_order = oid, tr_type = ty, tr_direction = dir,
         tr_amount = amt, tr_currency = cur, tr_status = st, tr_metadata = md\<rparr>]\<rparr>"
  by (auto simp: insertTransaction_def tx_simps list_ex_iff)

lemma cacheDel_iff [tx_simps]:
  "cacheDel env ks s = (Inr y, s') \<longleftrightarrow>
   s' = (if redis_up env then s\<lparr>cache := filter (\<lambda>k. k \<notin> set ks) (cache s)\<rparr> else s)"
  by (auto simp: cacheDel_def tx_simps list_ex_iff intro!: arg_cong2 [where f = filter])

lemma cacheDelPrefixes_iff [tx_simps]:
  "cacheDelPrefixes env ps s = (Inr y, s') \<longleftrightarrow>
   s' = (if redis_up env then s\<lparr>cache := filter (\<lambda>k. \<not> (\<exists>p\<in>set ps. p \<noteq> [] \<and> prefix p k)) (cache s)\<rparr> else s)"
  by (auto simp: cacheDelPrefixes_def tx_simps list_ex_iff)

end
