(* ===== verification/Sample.thy ===== *)
theory Sample
  imports Database
begin

text \<open>
  A small marketplace the component theories evaluate their operations on: a buyer, a seller and an
  admin, one product, an unpaid order for it, the two platform wallets the migrations insert, and a
  configuration with the default fee and auto-release delay.
\<close>

definition env0 :: env where
  "env0 = \<lparr>PLATFORM_FEE_BPS = 500, AUTO_RELEASE_HOURS = 72, NODE_ENV_production = False,
     dicts = (\<lambda>_. Dict []), gen_uuid = (\<lambda>n. ''u'' @ replicate n (CHR ''x'')),
     gen_nanoid = (\<lambda>n. ''n'' @ replicate n (CHR ''x'')), redis_up = True,
     pg_message = (\<lambda>code. code)\<rparr>"

definition product0 :: product_row where
  "product0 = \<lparr>p_id = ''p1'', p_seller = ''seller'', p_price = 1000, p_currency = ''USD'', p_stock = 5,
     p_status = ProdActive, p_delivery_type = Manual, p_delivery_template = None, p_sales_count = 0\<rparr>"

definition order0 :: order_row where
  "order0 = \<lparr>o_id = ''o1'', o_buyer = ''buyer'', o_seller = ''seller'', o_product = ''p1'', o_quantity = 1,
     o_amount = 1000, o_fee = 50, o_currency = ''USD'', o_status = Pending, o_payment_provider = None,
     o_payment_reference = None, o_delivery_note = None, o_auto_release_at = None, o_paid_at = None,
     o_delivered_at = None, o_completed_at = None, o_created_at = 0, o_updated_at = 0\<rparr>"

definition empty_db :: db where
  "empty_db = \<lparr>users = [], products = [], orders = [], wallets = [], platform_wallets = [], transactions = [],
     ledger_accounts = [], ledger_entries = [], ledger_lines = [], wallet_topups = [], payouts = [],
     disputes = [], order_events = [], domain_outbox = [], conversations = [], messages = [], notifications = [], reviews = [],
     idempotency_keys = [], snapshots = [], uuid_ctr = 0, cache = [], captured = []\<rparr>"

definition db0 :: db where
  "db0 = empty_db\<lparr>
     users := [\<lparr>u_id = ''buyer'', u_role = RUser, u_banned = False\<rparr>,
               \<lparr>u_id = ''seller'', u_role = RUser, u_banned = False\<rparr>,
               \<lparr>u_id = ''admin'', u_role = RAdmin, u_banned = False\<rparr>],
     products := [product0], orders := [order0],
     platform_wallets := [\<lparr>pw_currency = ''USD'', pw_revenue = 0\<rparr>, \<lparr>pw_currency = ''UAH'', pw_revenue = 0\<rparr>]\<rparr>"

lemma inj_gen_uuid0: "inj (gen_uuid env0)"
  by (rule injI) (simp add: env0_def)

end
