(* ===== verification/Accounting.thy ===== *)
theory Accounting
  imports Sample
begin

text \<open>
  The double-entry ledger of \<open>modules/orders/accounting.service.ts\<close>: account codes, the idempotent
  \<open>postLedgerEntry\<close> and the entry each money operation records. Amounts are the integers behind the
  canonical \<open>MoneyCents\<close> strings (theory \<open>Money\<close> relates the two).
\<close>

section \<open>Posting\<close>

record LedgerLineInput =
  li_code :: string
  li_name :: string
  li_type :: AccountType
  li_user :: "uuid option"
  li_debit :: int
  li_credit :: int

record LedgerEntryInput =
  le_key :: string
  le_type :: string
  le_order :: "uuid option"
  le_currency :: string
  le_metadata :: json
  le_lines :: "LedgerLineInput list"

text \<open>An empty user id is falsy, like a missing one.\<close>

definition accountCode :: "string \<Rightarrow> string \<Rightarrow> uuid option \<Rightarrow> string" where
  "accountCode kind currency userId = (case userId of
       Some (u # us) \<Rightarrow> kind @ '':'' @ currency @ '':'' @ u # us
     | _ \<Rightarrow> kind @ '':'' @ currency)"

definition providerClearing :: "string \<Rightarrow> string" where
  "providerClearing currency = accountCode ''asset:provider-clearing'' currency None"

definition sellerEscrow :: "string \<Rightarrow> uuid \<Rightarrow> string" where
  "sellerEscrow currency sellerId = accountCode ''liability:seller-escrow'' currency (Some sellerId)"

definition userPayable :: "string \<Rightarrow> uuid \<Rightarrow> string" where
  "userPayable currency userId = accountCode ''liability:user-payable'' currency (Some userId)"

definition platformRevenue :: "string \<Rightarrow> string" where
  "platformRevenue currency = accountCode ''revenue:platform-fee'' currency None"

text \<open>\<open>insert into ledger_accounts ... on conflict (code) do nothing\<close>; the account's user must exist.\<close>

definition ensureLedgerAccount :: "LedgerLineInput \<Rightarrow> string \<Rightarrow> string dbtx" where
  "ensureLedgerAccount line currency =
     tx_bind (tx_gets (\<lambda>s. t_find ac_code (li_code line) (ledger_accounts s))) (\<lambda>existing.
     case existing of
       Some a \<Rightarrow> tx_return (ac_code a)
     | None \<Rightarrow>
         tx_bind (tx_gets (\<lambda>s. case li_user line of None \<Rightarrow> True | Some u \<Rightarrow> t_find u_id u (users s) \<noteq> None)) (\<lambda>fk.
         tx_bind (tx_guard fk (PgError ''23503'')) (\<lambda>_.
         tx_bind (tx_modify (ledger_accounts_update (\<lambda>as. as @
           [\<lparr>ac_code = li_code line, ac_name = li_name line, ac_type = li_type line,
             ac_currency = currency, ac_user = li_user line\<rparr>]))) (\<lambda>_.
         tx_return (li_code line)))))"

definition ledger_line :: "string \<Rightarrow> string \<Rightarrow> string \<Rightarrow> LedgerLineInput \<Rightarrow> line_row" where
  "ledger_line key currency account line = \<lparr>ln_entry = key, ln_account = account, ln_debit = li_debit line,
     ln_credit = li_credit line, ln_currency = currency\<rparr>"

text \<open>The check of \<open>ledger_lines\<close>: exactly one side is positive, the other zero.\<close>

definition line_check :: "LedgerLineInput \<Rightarrow> bool" where
  "line_check line \<longleftrightarrow> 0 \<le> li_debit line \<and> 0 \<le> li_credit line \<and>
     (0 < li_debit line \<and> li_credit line = 0 \<or> 0 < li_credit line \<and> li_debit line = 0)"

fun postLines :: "string \<Rightarrow> string \<Rightarrow> LedgerLineInput list \<Rightarrow> unit dbtx" where
  "postLines key currency [] = tx_return ()"
| "postLines key currency (line # lines) =
     tx_bind (ensureLedgerAccount line currency) (\<lambda>account.
     tx_bind (tx_guard (line_check line) (PgError ''23514'')) (\<lambda>_.
     tx_bind (tx_modify (ledger_lines_update (\<lambda>ls. ls @ [ledger_line key currency account line]))) (\<lambda>_.
     postLines key currency lines)))"

definition postLedgerEntry :: "LedgerEntryInput \<Rightarrow> string option dbtx" where
  "postLedgerEntry input =
     tx_bind (tx_guard (\<not> length (le_lines input) < 2)
       (badRequest ''Ledger entry must contain at least two lines'')) (\<lambda>_.
     let debitTotal = t_sum li_debit (le_lines input); creditTotal = t_sum li_credit (le_lines input) in
     tx_bind (tx_guard (\<not> (debitTotal \<le> 0 \<or> debitTotal \<noteq> creditTotal))
       (badRequest ''Ledger entry is not balanced'')) (\<lambda>_.
     tx_bind (tx_gets (\<lambda>s. t_find en_key (le_key input) (ledger_entries s))) (\<lambda>existing.
     case existing of
       Some _ \<Rightarrow> tx_return None
     | None \<Rightarrow>
         tx_bind (tx_modify (ledger_entries_update (\<lambda>es. es @
           [\<lparr>en_key = le_key input, en_type = le_type input, en_order = le_order input,
             en_currency = le_currency input, en_metadata = le_metadata input\<rparr>]))) (\<lambda>_.
         tx_bind (postLines (le_key input) (le_currency input) (le_lines input)) (\<lambda>_.
         tx_return (Some (le_key input)))))))"

section \<open>The entries\<close>

definition debitLine :: "string \<Rightarrow> string \<Rightarrow> AccountType \<Rightarrow> uuid option \<Rightarrow> int \<Rightarrow> LedgerLineInput" where
  "debitLine code name type user amount = \<lparr>li_code = code, li_name = name, li_type = type, li_user = user,
     li_debit = amount, li_credit = 0\<rparr>"

definition creditLine :: "string \<Rightarrow> string \<Rightarrow> AccountType \<Rightarrow> uuid option \<Rightarrow> int \<Rightarrow> LedgerLineInput" where
  "creditLine code name type user amount = \<lparr>li_code = code, li_name = name, li_type = type, li_user = user,
     li_debit = 0, li_credit = amount\<rparr>"

definition payment_capture_entry :: "uuid \<Rightarrow> uuid \<Rightarrow> int \<Rightarrow> string \<Rightarrow> string \<Rightarrow> string \<Rightarrow> LedgerEntryInput" where
  "payment_capture_entry orderId sellerId amountCents currency provider reference =
     \<lparr>le_key = ''order:'' @ orderId @ '':payment_capture'', le_type = ''payment_capture'',
      le_order = Some orderId, le_currency = currency,
      le_metadata = JObj [(''provider'', JStr provider), (''reference'', JStr reference)],
      le_lines =
        [debitLine (providerClearing currency) (currency @ '' provider clearing'') Asset None amountCents,
         creditLine (sellerEscrow currency sellerId) (currency @ '' seller escrow liability'') Liability
           (Some sellerId) amountCents]\<rparr>"

definition recordPaymentCaptureLedger ::
  "uuid \<Rightarrow> uuid \<Rightarrow> int \<Rightarrow> string \<Rightarrow> string \<Rightarrow> string \<Rightarrow> unit dbtx" where
  "recordPaymentCaptureLedger orderId sellerId amountCents currency provider reference =
     tx_bind (postLedgerEntry (payment_capture_entry orderId sellerId amountCents currency provider reference))
       (\<lambda>_. tx_return ())"

definition escrow_release_entry :: "uuid \<Rightarrow> uuid \<Rightarrow> int \<Rightarrow> int \<Rightarrow> int \<Rightarrow> string \<Rightarrow> uuid option \<Rightarrow> LedgerEntryInput" where
  "escrow_release_entry orderId sellerId amountCents feeCents netCents currency adminId =
     \<lparr>le_key = ''order:'' @ orderId @ '':escrow_release'', le_type = ''escrow_release'',
      le_order = Some orderId, le_currency = currency,
      le_metadata = JObj [(''adminId'', json_of_option adminId)],
      le_lines =
        [debitLine (sellerEscrow currency sellerId) (currency @ '' seller escrow liability'') Liability
           (Some sellerId) amountCents] @
        (if 0 < netCents then [creditLine (userPayable currency sellerId) (currency @ '' user payable liability'')
           Liability (Some sellerId) netCents] else []) @
        (if 0 < feeCents then [creditLine (platformRevenue currency) (currency @ '' platform fee revenue'')
           Revenue None feeCents] else [])\<rparr>"

definition recordEscrowReleaseLedger ::
  "uuid \<Rightarrow> uuid \<Rightarrow> int \<Rightarrow> int \<Rightarrow> string \<Rightarrow> uuid option \<Rightarrow> unit dbtx" where
  "recordEscrowReleaseLedger orderId sellerId amountCents feeCents currency adminId =
     tx_bind (tx_lift (cents_sub amountCents feeCents)) (\<lambda>netCents.
     tx_bind (postLedgerEntry (escrow_release_entry orderId sellerId amountCents feeCents netCents currency adminId))
       (\<lambda>_. tx_return ()))"

text \<open>The two-line entries between the provider clearing account and a user's payable account.\<close>

definition wallet_entry :: "string \<Rightarrow> (string \<times> json) list \<Rightarrow> bool \<Rightarrow> uuid \<Rightarrow> int \<Rightarrow> string \<Rightarrow> LedgerEntryInput" where
  "wallet_entry key metadata toUser userId amountCents currency =
     (let clearing = (\<lambda>mk. mk (providerClearing currency) (currency @ '' provider clearing'') Asset None amountCents);
          payable = (\<lambda>mk. mk (userPayable currency userId) (currency @ '' user payable liability'') Liability
            (Some userId) amountCents) in
      \<lparr>le_key = key, le_type = ''adjustment'', le_order = None, le_currency = currency,
       le_metadata = JObj metadata,
       le_lines = (if toUser then [clearing debitLine, payable creditLine]
                   else [payable debitLine, clearing creditLine])\<rparr>)"

definition recordWalletTopupLedger ::
  "uuid \<Rightarrow> int \<Rightarrow> string \<Rightarrow> string \<Rightarrow> string \<Rightarrow> uuid \<Rightarrow> unit dbtx" where
  "recordWalletTopupLedger userId amountCents currency provider reference topupId =
     tx_bind (postLedgerEntry (wallet_entry (''wallet_topup:'' @ topupId)
       [(''provider'', JStr provider), (''reference'', JStr reference), (''kind'', JStr ''wallet_topup'')]
       True userId amountCents currency)) (\<lambda>_. tx_return ())"

definition recordWalletWithdrawalLedger :: "uuid \<Rightarrow> uuid \<Rightarrow> int \<Rightarrow> string \<Rightarrow> unit dbtx" where
  "recordWalletWithdrawalLedger transactionId userId amountCents currency =
     tx_bind (postLedgerEntry (wallet_entry (''wallet_withdrawal:'' @ transactionId)
       [(''kind'', JStr ''wallet_withdrawal'')] False userId amountCents currency)) (\<lambda>_. tx_return ())"

definition recordWalletWithdrawalReversalLedger :: "uuid \<Rightarrow> uuid \<Rightarrow> int \<Rightarrow> string \<Rightarrow> unit dbtx" where
  "recordWalletWithdrawalReversalLedger transactionId userId amountCents currency =
     tx_bind (postLedgerEntry (wallet_entry (''wallet_withdrawal_reversal:'' @ transactionId)
       [(''kind'', JStr ''wallet_withdrawal_reversal'')] True userId amountCents currency)) (\<lambda>_. tx_return ())"

definition recordManualAdjustmentLedger ::
  "uuid \<Rightarrow> uuid \<Rightarrow> int \<Rightarrow> string \<Rightarrow> uuid \<Rightarrow> string \<Rightarrow> unit dbtx" where
  "recordManualAdjustmentLedger adjustmentId userId amountCents currency adminId reason =
     tx_bind (tx_lift (cents_abs amountCents)) (\<lambda>magnitude.
     let isCredit = 0 \<le> amountCents;
         equity = (\<lambda>mk. mk (accountCode ''equity:manual-adjustment'' currency None)
           (currency @ '' manual adjustment equity'') Equity None magnitude);
         payable = (\<lambda>mk. mk (userPayable currency userId) (currency @ '' user payable liability'') Liability
           (Some userId) magnitude) in
     tx_bind (postLedgerEntry \<lparr>le_key = ''manual_adjustment:'' @ adjustmentId, le_type = ''adjustment'',
       le_order = None, le_currency = currency,
       le_metadata = JObj [(''kind'', JStr ''manual_adjustment''), (''adminId'', JStr adminId), (''reason'', JStr reason)],
       le_lines = [equity (if isCredit then debitLine else creditLine),
                   payable (if isCredit then creditLine else debitLine)]\<rparr>) (\<lambda>_. tx_return ()))"

definition refund_entry :: "uuid \<Rightarrow> uuid \<Rightarrow> uuid \<Rightarrow> int \<Rightarrow> string \<Rightarrow> uuid option \<Rightarrow> LedgerEntryInput" where
  "refund_entry orderId sellerId buyerId amountCents currency adminId =
     \<lparr>le_key = ''order:'' @ orderId @ '':refund'', le_type = ''refund'',
      le_order = Some orderId, le_currency = currency,
      le_metadata = JObj [(''adminId'', json_of_option adminId)],
      le_lines =
        [debitLine (sellerEscrow currency sellerId) (currency @ '' seller escrow liability'') Liability
           (Some sellerId) amountCents,
         creditLine (userPayable currency buyerId) (currency @ '' user payable liability'') Liability
           (Some buyerId) amountCents]\<rparr>"

definition recordRefundLedger :: "uuid \<Rightarrow> uuid \<Rightarrow> uuid \<Rightarrow> int \<Rightarrow> string \<Rightarrow> uuid option \<Rightarrow> unit dbtx" where
  "recordRefundLedger orderId sellerId buyerId amountCents currency adminId =
     tx_bind (postLedgerEntry (refund_entry orderId sellerId buyerId amountCents currency adminId))
       (\<lambda>_. tx_return ())"

section \<open>The effect of a posting\<close>

definition ledger_keys :: "db \<Rightarrow> string set" where
  "ledger_keys s = en_key ` set (ledger_entries s)"

text \<open>Credits minus debits of an account.\<close>

definition account_balance :: "line_row list \<Rightarrow> string \<Rightarrow> int" where
  "account_balance ls code = t_sum (\<lambda>l. if ln_account l = code then ln_credit l - ln_debit l else 0) ls"

definition entry_delta :: "LedgerEntryInput \<Rightarrow> string \<Rightarrow> int" where
  "entry_delta input code = t_sum (\<lambda>l. if li_code l = code then li_credit l - li_debit l else 0) (le_lines input)"

definition entry_valid :: "LedgerEntryInput \<Rightarrow> bool" where
  "entry_valid input \<longleftrightarrow> 2 \<le> length (le_lines input) \<and> 0 < t_sum li_debit (le_lines input) \<and>
     t_sum li_debit (le_lines input) = t_sum li_credit (le_lines input)"

definition entry_lines :: "LedgerEntryInput \<Rightarrow> line_row list" where
  "entry_lines input = map (\<lambda>l. ledger_line (le_key input) (le_currency input) (li_code l) l) (le_lines input)"

definition entry_of :: "LedgerEntryInput \<Rightarrow> entry_row" where
  "entry_of input = \<lparr>en_key = le_key input, en_type = le_type input, en_order = le_order input,
     en_currency = le_currency input, en_metadata = le_metadata input\<rparr>"

lemma ensureLedgerAccount_Inr:
  "ensureLedgerAccount line cur s = (Inr a, s') \<Longrightarrow> a = li_code line \<and> (\<exists>accs. s' = s\<lparr>ledger_accounts := accs\<rparr>)"
  by (auto simp: ensureLedgerAccount_def tx_simps dest: t_find_Some split: option.splits)
    (metis db.surjective db.update_convs(7))+

lemma postLines_Inr:
  "postLines key cur lines s = (Inr y, s') \<Longrightarrow> list_all line_check lines \<and>
   (\<exists>accs. s' = s\<lparr>ledger_accounts := accs,
      ledger_lines := ledger_lines s @ map (\<lambda>l. ledger_line key cur (li_code l) l) lines\<rparr>)"
proof (induction lines arbitrary: s)
  case Nil
  then show ?case by (auto simp: tx_simps intro: exI [of _ "ledger_accounts s"])
next
  case (Cons l lines)
  then obtain s1 where e: "ensureLedgerAccount l cur s = (Inr (li_code l), s1)"
    and c: "line_check l"
    and p: "postLines key cur lines (ledger_lines_update (\<lambda>ls. ls @ [ledger_line key cur (li_code l) l]) s1) = (Inr y, s')"
    by (auto simp: tx_simps dest: ensureLedgerAccount_Inr)
  from Cons.IH [OF p] ensureLedgerAccount_Inr [OF e] c show ?case by auto
qed

text \<open>
  What a returning \<open>postLedgerEntry\<close> has done: nothing when the key is known, else it added the entry
  with its lines and perhaps some account rows.
\<close>

lemma postLedgerEntry_Inr:
  assumes "postLedgerEntry input s = (Inr r, s')"
  shows "entry_valid input" and "le_key input \<in> ledger_keys s \<Longrightarrow> s' = s"
    and "le_key input \<notin> ledger_keys s \<Longrightarrow> list_all line_check (le_lines input) \<and>
      (\<exists>accs. s' = s\<lparr>ledger_accounts := accs, ledger_entries := ledger_entries s @ [entry_of input],
         ledger_lines := ledger_lines s @ entry_lines input\<rparr>)"
proof -
  from assms show "entry_valid input"
    by (auto simp: postLedgerEntry_def entry_valid_def tx_simps Let_def)
  show "s' = s" if k: "le_key input \<in> ledger_keys s"
  proof -
    from k obtain e where "t_find en_key (le_key input) (ledger_entries s) = Some e"
      by (cases "t_find en_key (le_key input) (ledger_entries s)") (auto simp: ledger_keys_def t_find_None_iff)
    with assms show ?thesis by (auto simp: postLedgerEntry_def tx_simps Let_def)
  qed
  show "list_all line_check (le_lines input) \<and>
      (\<exists>accs. s' = s\<lparr>ledger_accounts := accs, ledger_entries := ledger_entries s @ [entry_of input],
         ledger_lines := ledger_lines s @ entry_lines input\<rparr>)" if k: "le_key input \<notin> ledger_keys s"
  proof -
    from k have "t_find en_key (le_key input) (ledger_entries s) = None"
      by (simp add: ledger_keys_def t_find_None_iff)
    with assms have "postLines (le_key input) (le_currency input) (le_lines input)
        (ledger_entries_update (\<lambda>es. es @ [entry_of input]) s) = (Inr (), s')"
      by (auto simp: postLedgerEntry_def tx_simps Let_def entry_of_def)
    from postLines_Inr [OF this] obtain accs where "list_all line_check (le_lines input)"
      and "s' = (ledger_entries_update (\<lambda>es. es @ [entry_of input]) s)\<lparr>ledger_accounts := accs,
        ledger_lines := ledger_lines s @ entry_lines input\<rparr>" by (auto simp: entry_lines_def)
    then show ?thesis by (auto intro!: exI [of _ accs] db.equality)
  qed
qed

lemma account_balance_append [simp]:
  "account_balance (ls @ ls') code = account_balance ls code + account_balance ls' code"
  by (simp add: account_balance_def)

lemma account_balance_entry_lines: "account_balance (entry_lines input) code = entry_delta input code"
  by (simp add: account_balance_def entry_lines_def entry_delta_def t_sum_def ledger_line_def comp_def cong: if_cong)

text \<open>
  An idempotent book: postings carry a key, a new key moves the balances by the entry's deltas, a
  known key changes nothing.
\<close>

locale idempotent_book =
  fixes post :: "'e \<Rightarrow> 's \<Rightarrow> 's option"
    and bal :: "'s \<Rightarrow> 'a \<Rightarrow> int"
    and posted :: "'s \<Rightarrow> 'k set"
    and key :: "'e \<Rightarrow> 'k"
    and delta :: "'e \<Rightarrow> 'a \<Rightarrow> int"
  assumes post_known: "post e s = Some s' \<Longrightarrow> key e \<in> posted s \<Longrightarrow> s' = s"
    and post_bal: "post e s = Some s' \<Longrightarrow> key e \<notin> posted s \<Longrightarrow> bal s' a = bal s a + delta e a"
    and post_posted: "post e s = Some s' \<Longrightarrow> posted s' = insert (key e) (posted s)"
begin

fun post_all :: "'e list \<Rightarrow> 's \<Rightarrow> 's option" where
  "post_all [] s = Some s"
| "post_all (e # es) s = (case post e s of None \<Rightarrow> None | Some s' \<Rightarrow> post_all es s')"

text \<open>The entries of a run that take effect: the first with each key not posted before.\<close>

fun effective :: "'k set \<Rightarrow> 'e list \<Rightarrow> 'e list" where
  "effective K [] = []"
| "effective K (e # es) = (if key e \<in> K then effective K es else e # effective (insert (key e) K) es)"

lemma post_once: "post e s = Some s' \<Longrightarrow> post e s' = Some s'' \<Longrightarrow> s'' = s'"
  using post_known post_posted by blast

lemma post_all_bal:
  "post_all es s = Some s' \<Longrightarrow>
   bal s' a = bal s a + sum_list (map (\<lambda>e. delta e a) (effective (posted s) es))"
proof (induction es arbitrary: s)
  case Nil
  then show ?case by simp
next
  case (Cons e es)
  then obtain t where t: "post e s = Some t" and r: "post_all es t = Some s'"
    by (auto split: option.splits)
  have P: "posted t = insert (key e) (posted s)" by (rule post_posted [OF t])
  show ?case
  proof (cases "key e \<in> posted s")
    case True
    with post_known [OF t] Cons.IH [OF r] show ?thesis by simp
  next
    case False
    with post_bal [OF t] Cons.IH [OF r] P show ?thesis by simp
  qed
qed

lemma post_all_posted: "post_all es s = Some s' \<Longrightarrow> posted s' = posted s \<union> key ` set es"
  by (induction es arbitrary: s) (auto split: option.splits dest: post_posted)

lemma effective_replay: "key ` set es \<subseteq> K \<Longrightarrow> effective K es = []"
  by (induction es) auto

lemma replay:
  assumes "post_all es s = Some s'" "set es' \<subseteq> set es" "post_all es' s' = Some s''"
  shows "bal s'' a = bal s' a"
proof -
  have "key ` set es' \<subseteq> posted s'" using post_all_posted [OF assms(1)] assms(2) by blast
  with post_all_bal [OF assms(3)] show ?thesis by (simp add: effective_replay)
qed

end

definition post_ok :: "LedgerEntryInput \<Rightarrow> db \<Rightarrow> db option" where
  "post_ok input s = (case postLedgerEntry input s of (Inr _, s') \<Rightarrow> Some s' | (Inl _, _) \<Rightarrow> None)"

lemma post_ok_Some: "post_ok input s = Some s' \<longleftrightarrow> (\<exists>r. postLedgerEntry input s = (Inr r, s'))"
  by (auto simp: post_ok_def split: prod.splits sum.splits)

interpretation book: idempotent_book post_ok "\<lambda>s. account_balance (ledger_lines s)" ledger_keys le_key entry_delta
proof
  fix e s s' a
  assume "post_ok e s = Some s'"
  then obtain r where p: "postLedgerEntry e s = (Inr r, s')" by (auto simp: post_ok_Some)
  note P = postLedgerEntry_Inr [OF p]
  show "le_key e \<in> ledger_keys s \<Longrightarrow> s' = s" by (rule P(2))
  show "account_balance (ledger_lines s') a = account_balance (ledger_lines s) a + entry_delta e a"
    if "le_key e \<notin> ledger_keys s"
    using P(3) [OF that] by (auto simp: account_balance_entry_lines)
  show "ledger_keys s' = insert (le_key e) (ledger_keys s)"
    using P by (cases "le_key e \<in> ledger_keys s") (auto simp: ledger_keys_def entry_of_def)
qed

lemma post_balance:
  assumes "postLedgerEntry input s = (Inr r, s')"
  shows "account_balance (ledger_lines s') code = account_balance (ledger_lines s) code +
    (if le_key input \<in> ledger_keys s then 0 else entry_delta input code)"
proof -
  have "post_ok input s = Some s'" using assms by (auto simp: post_ok_Some)
  then show ?thesis using book.post_known [of input s s'] book.post_bal [of input s s' code] by auto
qed

lemma postLedgerEntry_known:
  assumes "entry_valid input" "le_key input \<in> ledger_keys s"
  shows "postLedgerEntry input s = (Inr None, s)"
proof -
  from assms(2) obtain e where "t_find en_key (le_key input) (ledger_entries s) = Some e"
    by (cases "t_find en_key (le_key input) (ledger_entries s)") (auto simp: ledger_keys_def t_find_None_iff)
  with assms(1) show ?thesis by (simp add: postLedgerEntry_def entry_valid_def tx_defs Let_def)
qed

section \<open>Accounts behind the wallets\<close>

text \<open>
  The accounts a wallet column mirrors: what the platform owes a user, what it holds in escrow for a
  seller, and its own fees.
\<close>

datatype acct = Payable uuid string | Held uuid string | Fees string

fun acct_code :: "acct \<Rightarrow> string" where
  "acct_code (Payable u c) = userPayable c u"
| "acct_code (Held u c) = sellerEscrow c u"
| "acct_code (Fees c) = platformRevenue c"

text \<open>Codes are unambiguous for non-empty user ids and three-letter currencies.\<close>

fun acct_valid :: "acct \<Rightarrow> bool" where
  "acct_valid (Payable u c) \<longleftrightarrow> u \<noteq> [] \<and> length c = 3"
| "acct_valid (Held u c) \<longleftrightarrow> u \<noteq> [] \<and> length c = 3"
| "acct_valid (Fees c) \<longleftrightarrow> length c = 3"

lemma accountCode_user: "u \<noteq> [] \<Longrightarrow> accountCode kind c (Some u) = kind @ '':'' @ c @ '':'' @ u"
  by (cases u) (simp_all add: accountCode_def)

lemma accountCode_None: "accountCode kind c None = kind @ '':'' @ c"
  by (simp add: accountCode_def)

lemmas account_codes = providerClearing_def sellerEscrow_def userPayable_def platformRevenue_def
  accountCode_user accountCode_None

lemma acct_code_inject: "acct_valid a \<Longrightarrow> acct_valid b \<Longrightarrow> acct_code a = acct_code b \<longleftrightarrow> a = b"
  by (cases a; cases b)
    (auto simp: account_codes)

lemma clearing_not_acct: "acct_valid a \<Longrightarrow> providerClearing c \<noteq> acct_code a"
  by (cases a) (auto simp: account_codes)

definition ledger_money :: "line_row list \<Rightarrow> acct \<Rightarrow> int" where
  "ledger_money ls a = account_balance ls (acct_code a)"

definition acct_delta :: "acct \<Rightarrow> int \<Rightarrow> acct \<Rightarrow> int" where
  "acct_delta b v a = (if a = b then v else 0)"

lemma delta_lines:
  "acct_valid a \<Longrightarrow> acct_valid b \<Longrightarrow>
   (if acct_code b = acct_code a then v else 0) = acct_delta b v a"
  using acct_code_inject [of b a] by (auto simp: acct_delta_def)

lemmas entry_delta_defs = entry_delta_def debitLine_def creditLine_def

lemma delta_payment_capture:
  "acct_valid a \<Longrightarrow> acct_valid (Held sl c) \<Longrightarrow>
   entry_delta (payment_capture_entry ord sl amt c p r) (acct_code a) = acct_delta (Held sl c) amt a"
  using delta_lines [of a "Held sl c" amt]
  by (auto simp: payment_capture_entry_def entry_delta_defs clearing_not_acct)

text \<open>On the accounts themselves: the seller's escrow is credited, the provider's clearing account debited.\<close>

lemma entry_delta_capture:
  assumes "sl \<noteq> []"
  shows "entry_delta (payment_capture_entry ord sl amt c p r) x =
    (if x = sellerEscrow c sl then amt else if x = providerClearing c then - amt else 0)"
proof -
  have "providerClearing c \<noteq> sellerEscrow c sl" using assms by (simp add: account_codes)
  then show ?thesis by (auto simp: payment_capture_entry_def entry_delta_defs)
qed

lemma delta_escrow_release:
  "acct_valid a \<Longrightarrow> acct_valid (Held sl c) \<Longrightarrow> 0 \<le> fee \<Longrightarrow> 0 \<le> net \<Longrightarrow>
   entry_delta (escrow_release_entry ord sl amt fee net c adm) (acct_code a) =
     acct_delta (Held sl c) (- amt) a + acct_delta (Payable sl c) net a + acct_delta (Fees c) fee a"
  using delta_lines [of a "Held sl c" "- amt"] delta_lines [of a "Payable sl c" net] delta_lines [of a "Fees c" fee]
  by (auto simp: escrow_release_entry_def entry_delta_defs)

lemma delta_refund:
  "acct_valid a \<Longrightarrow> acct_valid (Held sl c) \<Longrightarrow> acct_valid (Payable b c) \<Longrightarrow>
   entry_delta (refund_entry ord sl b amt c adm) (acct_code a) =
     acct_delta (Held sl c) (- amt) a + acct_delta (Payable b c) amt a"
  using delta_lines [of a "Held sl c" "- amt"] delta_lines [of a "Payable b c" amt]
  by (auto simp: refund_entry_def entry_delta_defs)

lemma delta_wallet:
  "acct_valid a \<Longrightarrow> acct_valid (Payable u c) \<Longrightarrow>
   entry_delta (wallet_entry key md toUser u amt c) (acct_code a) =
     acct_delta (Payable u c) (if toUser then amt else - amt) a"
  using delta_lines [of a "Payable u c" amt] delta_lines [of a "Payable u c" "- amt"]
  by (auto simp: wallet_entry_def entry_delta_defs Let_def clearing_not_acct)

section \<open>Balanced books\<close>

definition entry_sum :: "(line_row \<Rightarrow> int) \<Rightarrow> line_row list \<Rightarrow> string \<Rightarrow> int" where
  "entry_sum side ls k = t_sum (\<lambda>l. if ln_entry l = k then side l else 0) ls"

definition currency_sum :: "string \<Rightarrow> line_row list \<Rightarrow> int" where
  "currency_sum c ls = t_sum (\<lambda>l. if ln_currency l = c then ln_credit l - ln_debit l else 0) ls"

definition ledger_balanced :: "db \<Rightarrow> bool" where
  "ledger_balanced s \<longleftrightarrow>
     distinct (map en_key (ledger_entries s)) \<and>
     (\<forall>l\<in>set (ledger_lines s). ln_entry l \<in> ledger_keys s \<and> 0 \<le> ln_debit l \<and> 0 \<le> ln_credit l) \<and>
     (\<forall>k\<in>ledger_keys s. entry_sum ln_debit (ledger_lines s) k = entry_sum ln_credit (ledger_lines s) k \<and>
        0 < entry_sum ln_debit (ledger_lines s) k) \<and>
     (\<forall>c. currency_sum c (ledger_lines s) = 0)"

lemma entry_sum_append [simp]: "entry_sum f (ls @ ls') k = entry_sum f ls k + entry_sum f ls' k"
  by (simp add: entry_sum_def)

lemma entry_sum_foreign: "k \<notin> ln_entry ` set ls \<Longrightarrow> entry_sum f ls k = 0"
  by (auto simp: entry_sum_def intro!: t_sum_zero)

lemma entry_sum_own:
  "entry_sum ln_debit (entry_lines input) k = (if k = le_key input then t_sum li_debit (le_lines input) else 0)"
  "entry_sum ln_credit (entry_lines input) k = (if k = le_key input then t_sum li_credit (le_lines input) else 0)"
  by (auto simp: entry_sum_def entry_lines_def t_sum_def ledger_line_def comp_def)

lemma currency_sum_append [simp]: "currency_sum c (ls @ ls') = currency_sum c ls + currency_sum c ls'"
  by (simp add: currency_sum_def)

lemma currency_sum_entry: "entry_valid input \<Longrightarrow> currency_sum c (entry_lines input) = 0"
proof -
  have "t_sum (\<lambda>l. li_credit l - li_debit l) ls = t_sum li_credit ls - t_sum li_debit ls" for ls :: "LedgerLineInput list"
    by (induction ls) auto
  then show "entry_valid input \<Longrightarrow> currency_sum c (entry_lines input) = 0"
    by (cases "c = le_currency input") (auto simp: currency_sum_def entry_lines_def t_sum_def ledger_line_def comp_def entry_valid_def)
qed

lemma post_balanced:
  assumes "postLedgerEntry input s = (Inr r, s')" "ledger_balanced s"
  shows "ledger_balanced s'"
proof (cases "le_key input \<in> ledger_keys s")
  case True
  with assms show ?thesis using postLedgerEntry_Inr(2) by blast
next
  case False
  from postLedgerEntry_Inr(3) [OF assms(1) False] obtain accs
    where chk: "list_all line_check (le_lines input)"
      and s': "s' = s\<lparr>ledger_accounts := accs, ledger_entries := ledger_entries s @ [entry_of input],
        ledger_lines := ledger_lines s @ entry_lines input\<rparr>" by blast
  have v: "entry_valid input" by (rule postLedgerEntry_Inr(1) [OF assms(1)])
  have keys: "ledger_keys s' = insert (le_key input) (ledger_keys s)"
    by (auto simp: s' ledger_keys_def entry_of_def)
  have old: "entry_sum f (ledger_lines s) (le_key input) = 0" for f
    using False assms(2) by (intro entry_sum_foreign) (auto simp: ledger_balanced_def)
  have "\<forall>l\<in>set (entry_lines input). ln_entry l = le_key input \<and> 0 \<le> ln_debit l \<and> 0 \<le> ln_credit l"
    using chk by (auto simp: entry_lines_def ledger_line_def line_check_def list_all_iff)
  then show ?thesis
    using assms(2) v old False unfolding ledger_balanced_def keys
    by (auto simp: s' entry_sum_own entry_of_def ledger_keys_def currency_sum_entry [OF v] entry_valid_def)
qed

section \<open>The chart of accounts\<close>

text \<open>The codes the services use under a currency.\<close>

definition chart_code :: "string \<Rightarrow> string \<Rightarrow> bool" where
  "chart_code c code \<longleftrightarrow> code = providerClearing c \<or>
     (\<exists>a. acct_valid a \<and> code = acct_code a \<and> (\<exists>u. a \<in> {Payable u c, Held u c, Fees c}))"

definition accounts_ok :: "db \<Rightarrow> bool" where
  "accounts_ok s \<longleftrightarrow> distinct (map ac_code (ledger_accounts s)) \<and>
     (\<forall>x\<in>set (ledger_accounts s). length (ac_currency x) = 3 \<and> chart_code (ac_currency x) (ac_code x)) \<and>
     (\<forall>l\<in>set (ledger_lines s). \<exists>x\<in>set (ledger_accounts s). ac_code x = ln_account l \<and> ac_currency x = ln_currency l)"

definition entry_charted :: "LedgerEntryInput \<Rightarrow> bool" where
  "entry_charted input \<longleftrightarrow> length (le_currency input) = 3 \<and> (\<forall>l\<in>set (le_lines input). chart_code (le_currency input) (li_code l))"

lemma chart_currency:
  "chart_code c code \<Longrightarrow> chart_code c' code \<Longrightarrow> length c = 3 \<Longrightarrow> length c' = 3 \<Longrightarrow> c' = c"
  by (auto simp: chart_code_def account_codes)

lemma ensureLedgerAccount_accounts:
  assumes "ensureLedgerAccount line c s = (Inr a, s')" "accounts_ok s" "length c = 3" "chart_code c (li_code line)"
  shows "accounts_ok s' \<and> (\<exists>x\<in>set (ledger_accounts s'). ac_code x = li_code line \<and> ac_currency x = c)"
proof (cases "t_find ac_code (li_code line) (ledger_accounts s)")
  case (Some x)
  with assms(1) have "s' = s" by (auto simp: ensureLedgerAccount_def tx_simps)
  moreover have x: "x \<in> set (ledger_accounts s)" "ac_code x = li_code line" using t_find_Some [OF Some] by simp_all
  moreover from x assms(2) have "length (ac_currency x) = 3" "chart_code (ac_currency x) (ac_code x)" by (auto simp: accounts_ok_def)
  ultimately show ?thesis using assms(2-4) chart_currency by metis
next
  case None
  with assms show ?thesis
    by (auto simp: ensureLedgerAccount_def tx_simps accounts_ok_def t_find_None_iff)
qed

lemma postLines_accounts:
  "postLines key c lines s = (Inr y, s') \<Longrightarrow> accounts_ok s \<Longrightarrow> length c = 3 \<Longrightarrow>
   \<forall>l\<in>set lines. chart_code c (li_code l) \<Longrightarrow> accounts_ok s'"
proof (induction lines arbitrary: s)
  case Nil
  then show ?case by (simp add: tx_simps)
next
  case (Cons l lines)
  then obtain s1 where e: "ensureLedgerAccount l c s = (Inr (li_code l), s1)"
    and p: "postLines key c lines (ledger_lines_update (\<lambda>ls. ls @ [ledger_line key c (li_code l) l]) s1) = (Inr y, s')"
    by (auto simp: tx_simps dest: ensureLedgerAccount_Inr)
  have "accounts_ok s1 \<and> (\<exists>x\<in>set (ledger_accounts s1). ac_code x = li_code l \<and> ac_currency x = c)"
    using ensureLedgerAccount_accounts [OF e] Cons.prems by simp
  then have "accounts_ok (ledger_lines_update (\<lambda>ls. ls @ [ledger_line key c (li_code l) l]) s1)"
    by (auto simp: accounts_ok_def ledger_line_def)
  from Cons.IH [OF p this] Cons.prems show ?case by simp
qed

lemma post_accounts:
  assumes "postLedgerEntry input s = (Inr r, s')" "accounts_ok s" "entry_charted input"
  shows "accounts_ok s'"
proof (cases "t_find en_key (le_key input) (ledger_entries s)")
  case (Some e)
  with assms(1,2) show ?thesis by (auto simp: postLedgerEntry_def tx_simps Let_def)
next
  case None
  with assms(1) obtain y where post: "postLines (le_key input) (le_currency input) (le_lines input) (ledger_entries_update (\<lambda>es. es @ [entry_of input]) s) = (Inr y, s')"
    by (auto simp: postLedgerEntry_def tx_simps Let_def entry_of_def)
  have "accounts_ok (ledger_entries_update (\<lambda>es. es @ [entry_of input]) s)" using assms(2) by (simp add: accounts_ok_def)
  from postLines_accounts [OF post this] assms(3) show ?thesis by (simp add: entry_charted_def)
qed

lemma chart_codes [simp]:
  "chart_code c (providerClearing c)"
  "u \<noteq> [] \<Longrightarrow> length c = 3 \<Longrightarrow> chart_code c (userPayable c u)"
  "u \<noteq> [] \<Longrightarrow> length c = 3 \<Longrightarrow> chart_code c (sellerEscrow c u)"
  "length c = 3 \<Longrightarrow> chart_code c (platformRevenue c)"
proof -
  have acct: "chart_code c (acct_code a)" if "acct_valid a" "a = Payable u c \<or> a = Held u c \<or> a = Fees c" for a
    using that unfolding chart_code_def by blast
  show "chart_code c (providerClearing c)" by (simp add: chart_code_def)
  show "u \<noteq> [] \<Longrightarrow> length c = 3 \<Longrightarrow> chart_code c (userPayable c u)" using acct [of "Payable u c"] by simp
  show "u \<noteq> [] \<Longrightarrow> length c = 3 \<Longrightarrow> chart_code c (sellerEscrow c u)" using acct [of "Held u c"] by simp
  show "length c = 3 \<Longrightarrow> chart_code c (platformRevenue c)" using acct [of "Fees c"] by simp
qed

lemma entries_charted:
  "acct_valid (Held sl c) \<Longrightarrow> entry_charted (payment_capture_entry i sl amt c p r)"
  "acct_valid (Held sl c) \<Longrightarrow> entry_charted (escrow_release_entry i sl amt fee net c adm)"
  "acct_valid (Held sl c) \<Longrightarrow> acct_valid (Payable b c) \<Longrightarrow> entry_charted (refund_entry i sl b amt c adm)"
  "acct_valid (Payable u c) \<Longrightarrow> entry_charted (wallet_entry k md toUser u amt c)"
  by (auto simp: entry_charted_def payment_capture_entry_def escrow_release_entry_def refund_entry_def wallet_entry_def
      debitLine_def creditLine_def Let_def)

section \<open>Properties\<close>

text \<open>
  C17: a ledger entry is booked exactly once: when \<open>postLedgerEntry\<close> returns, a new key has moved every
  account by exactly the entry's credits minus debits, a known key has moved nothing, and running the same
  posting again (a retried transaction) returns null and leaves the state as it is.
\<close>

theorem post_exactly_once:
  assumes "postLedgerEntry input s = (Inr r, s')"
  shows "account_balance (ledger_lines s') code = account_balance (ledger_lines s) code +
      (if le_key input \<in> en_key ` set (ledger_entries s) then 0 else entry_delta input code) \<and>
    postLedgerEntry input s' = (Inr None, s')"
proof (rule conjI)
  have ok: "post_ok input s = Some s'" using assms by (auto simp: post_ok_Some)
  show "account_balance (ledger_lines s') code = account_balance (ledger_lines s) code +
      (if le_key input \<in> en_key ` set (ledger_entries s) then 0 else entry_delta input code)"
    using post_balance [OF assms] by (simp add: ledger_keys_def)
  show "postLedgerEntry input s' = (Inr None, s')"
    using postLedgerEntry_Inr(1) [OF assms] book.post_posted [OF ok] by (simp add: postLedgerEntry_known)
qed

text \<open>
  The books stay balanced: \<open>postLedgerEntry\<close> keeps that idempotency keys are unique, that every line
  belongs to an entry and has non-negative sides, that the debits of each entry equal its credits and
  are positive, and that debits equal credits in every currency.
\<close>

theorem post_keeps_balanced:
  assumes "ledger_balanced s" "postLedgerEntry input s = (Inr r, s')"
  shows "ledger_balanced s'"
  using post_balanced [OF assms(2,1)] .

definition capture0 :: LedgerEntryInput where
  "capture0 = payment_capture_entry ''o1'' ''seller'' 1000 ''USD'' ''manual'' ''ref''"

lemma capture0_runs: "\<exists>r s'. postLedgerEntry capture0 db0 = (Inr r, s')"
  by (rule tx_returns) code_simp

theorem post_exactly_once_witness:
  "\<exists>r s'. postLedgerEntry capture0 db0 = (Inr r, s') \<and> postLedgerEntry capture0 s' = (Inr None, s') \<and>
     account_balance (ledger_lines s') ''liability:seller-escrow:USD:seller'' = 1000"
proof -
  obtain r s' where p: "postLedgerEntry capture0 db0 = (Inr r, s')" using capture0_runs by blast
  have "account_balance (ledger_lines db0) ''liability:seller-escrow:USD:seller'' +
    (if le_key capture0 \<in> en_key ` set (ledger_entries db0) then 0
     else entry_delta capture0 ''liability:seller-escrow:USD:seller'') = 1000" by code_simp
  with p post_exactly_once [OF p] show ?thesis by auto
qed

theorem post_keeps_balanced_witness:
  "\<exists>r s'. postLedgerEntry capture0 db0 = (Inr r, s') \<and> ledger_balanced db0 \<and> ledger_balanced s'"
proof -
  obtain r s' where p: "postLedgerEntry capture0 db0 = (Inr r, s')" using capture0_runs by blast
  moreover have "ledger_balanced db0"
    by (simp add: ledger_balanced_def db0_def empty_db_def ledger_keys_def currency_sum_def)
  ultimately show ?thesis using post_keeps_balanced by blast
qed

end
