(* ===== verification/TxRetry.thy ===== *)
theory TxRetry
  imports Sample
begin

text \<open>
  What the transaction runners of \<open>db/pool.ts\<close> (\<open>inTx\<close>, \<open>inSerializableTx\<close>, defined with the database)
  promise to the services: a callback commits once or leaves every table as it was, and the retries of
  serialization failures and deadlocks are bounded.
\<close>

lemma rollback_fields [simp]:
  "users (rollback s t) = users s" "products (rollback s t) = products s"
  "orders (rollback s t) = orders s" "wallets (rollback s t) = wallets s"
  "platform_wallets (rollback s t) = platform_wallets s" "transactions (rollback s t) = transactions s"
  "ledger_accounts (rollback s t) = ledger_accounts s" "ledger_entries (rollback s t) = ledger_entries s"
  "ledger_lines (rollback s t) = ledger_lines s" "wallet_topups (rollback s t) = wallet_topups s"
  "payouts (rollback s t) = payouts s" "disputes (rollback s t) = disputes s"
  "order_events (rollback s t) = order_events s" "domain_outbox (rollback s t) = domain_outbox s"
  "conversations (rollback s t) = conversations s" "messages (rollback s t) = messages s"
  "notifications (rollback s t) = notifications s"
  "reviews (rollback s t) = reviews s" "idempotency_keys (rollback s t) = idempotency_keys s"
  "snapshots (rollback s t) = snapshots s" "uuid_ctr (rollback s t) = uuid_ctr s"
  "cache (rollback s t) = cache t" "captured (rollback s t) = captured t"
  by (simp_all add: rollback_def)

lemma rollback_self [simp]: "rollback s s = s"
  by (simp add: rollback_def)

text \<open>
  A transaction runner: when it returns, the callback ran to its end once, from the tables as they were;
  when it throws, the tables are as they were.
\<close>

locale tx_runner =
  fixes run :: "'a dbtx \<Rightarrow> 'a dbtx"
  assumes run_ok: "run fn s = (Inr x, s') \<Longrightarrow> \<exists>t. fn (rollback s t) = (Inr x, s')"
    and run_error: "run fn s = (Inl e, s') \<Longrightarrow> \<exists>t. s' = rollback s t"
begin

lemma run_preserves:
  assumes "\<And>s t. I s \<Longrightarrow> I (rollback s t)"
    and "\<And>s x s'. I s \<Longrightarrow> fn s = (Inr x, s') \<Longrightarrow> I s'"
    and "I s" and "run fn s = (r, s')"
  shows "I s'"
proof (cases r)
  case (Inl e)
  with assms(4) run_error obtain t where "s' = rollback s t" by blast
  with assms(1,3) show ?thesis by blast
next
  case (Inr x)
  with assms(4) run_ok obtain t where "fn (rollback s t) = (Inr x, s')" by blast
  with assms(1-3) show ?thesis by blast
qed

end

lemma attemptTx_cases:
  assumes "attemptTx fault fn s = (r, s')"
  obtains (ok) x where "fault = None" "r = Inr x" "fn s = (Inr x, s')"
  | (error) e where "fault = None" "r = Inl e" "s' = rollback s (snd (fn s))" "fst (fn s) = Inl e"
  | (fault) code where "fault = Some code" "r = Inl (PgError code)" "s' = rollback s (snd (fn s))"
  using assms by (auto simp: attemptTx_def inTx_def split: option.splits prod.splits sum.splits)

lemma serializableLoop_ok:
  assumes "serializableLoop maxAttempts faults fn attempt s = (Inr x, s')"
  shows "\<exists>t. fn (rollback s t) = (Inr x, s')"
  using assms
proof (induction maxAttempts faults fn attempt s rule: serializableLoop.induct)
  case (1 maxAttempts faults fn attempt s)
  obtain r1 s1 where a: "attemptTx (faults attempt) fn s = (r1, s1)" by fastforce
  from a show ?case
  proof (cases rule: attemptTx_cases)
    case (ok y)
    with 1(2) a show ?thesis by (auto simp: serializableLoop.simps [of maxAttempts] intro: exI [of _ s])
  next
    case (error e)
    with 1 a show ?thesis
      by (fastforce simp: serializableLoop.simps [of maxAttempts] split: option.splits if_splits)
  next
    case (fault code)
    with 1 a show ?thesis
      by (fastforce simp: serializableLoop.simps [of maxAttempts] split: option.splits if_splits)
  qed
qed

lemma serializableLoop_error:
  assumes "serializableLoop maxAttempts faults fn attempt s = (Inl e, s')"
  shows "\<exists>t. s' = rollback s t"
  using assms
proof (induction maxAttempts faults fn attempt s rule: serializableLoop.induct)
  case (1 maxAttempts faults fn attempt s)
  obtain r1 s1 where a: "attemptTx (faults attempt) fn s = (r1, s1)" by fastforce
  from a show ?case
  proof (cases rule: attemptTx_cases)
    case (ok y)
    with 1(2) a show ?thesis by (auto simp: serializableLoop.simps [of maxAttempts])
  next
    case (error e')
    with 1 a show ?thesis
      by (fastforce simp: serializableLoop.simps [of maxAttempts] split: option.splits if_splits)
  next
    case (fault code)
    with 1 a show ?thesis
      by (fastforce simp: serializableLoop.simps [of maxAttempts] split: option.splits if_splits)
  qed
qed

interpretation plain: tx_runner inTx
proof
  fix fn :: "'a dbtx" and s x s' e
  show "inTx fn s = (Inr x, s') \<Longrightarrow> \<exists>t. fn (rollback s t) = (Inr x, s')"
    by (intro exI [of _ s]) (simp add: inTx_iff)
  show "inTx fn s = (Inl e, s') \<Longrightarrow> \<exists>t. s' = rollback s t"
    by (auto dest: inTx_Inl)
qed

interpretation serial: tx_runner "inSerializableTx maxAttempts faults"
  by unfold_locales (auto simp: inSerializableTx_def dest: serializableLoop_ok serializableLoop_error)

section \<open>Attempts\<close>

text \<open>The state an attempt starts from, after the given number of aborted ones.\<close>

fun attempt_state :: "'a dbtx \<Rightarrow> db \<Rightarrow> nat \<Rightarrow> db" where
  "attempt_state fn s 0 = s"
| "attempt_state fn s (Suc i) = attempt_state fn (rollback s (snd (fn s))) i"

lemma attempt_state_rollback: "\<exists>t. attempt_state fn s i = rollback s t"
proof (induction fn s i rule: attempt_state.induct)
  case (1 fn s)
  then show ?case by (intro exI [of _ s]) simp
next
  case (2 fn s i)
  then show ?case by auto
qed

definition aborts :: "(nat \<Rightarrow> string option) \<Rightarrow> 'a dbtx \<Rightarrow> db \<Rightarrow> nat \<Rightarrow> bool" where
  "aborts faults fn s i \<longleftrightarrow> (\<exists>e. fst (attemptTx (faults (Suc i)) fn (attempt_state fn s i)) = Inl e \<and>
     retryableTxCode e \<noteq> None)"

lemma attemptTx_error_state: "attemptTx fault fn s = (Inl e, s') \<Longrightarrow> s' = rollback s (snd (fn s))"
  by (erule attemptTx_cases) auto

lemma serializableLoop_attempts:
  assumes "serializableLoop m faults fn a s = (r, s')" "a \<le> m"
  shows "\<exists>k. a + k \<le> m \<and>
    (\<forall>i<k. \<exists>e. fst (attemptTx (faults (a + i)) fn (attempt_state fn s i)) = Inl e \<and> retryableTxCode e \<noteq> None) \<and>
    attemptTx (faults (a + k)) fn (attempt_state fn s k) = (r, s') \<and>
    (a + k = m \<or> (\<forall>e. r = Inl e \<longrightarrow> retryableTxCode e = None))"
  using assms
proof (induction m faults fn a s rule: serializableLoop.induct)
  case (1 m faults fn a s)
  obtain r1 s1 where at: "attemptTx (faults a) fn s = (r1, s1)" by fastforce
  show ?case
  proof (cases "\<exists>e code. r1 = Inl e \<and> retryableTxCode e = Some code \<and> a < m")
    case False
    with 1(2) at have "r = r1" "s' = s1"
      by (auto simp: serializableLoop.simps [of m] split: sum.splits option.splits if_splits)
    with False at 1(3) show ?thesis by (intro exI [of _ 0]) (auto simp: not_less)
  next
    case True
    then obtain e code where e: "r1 = Inl e" "retryableTxCode e = Some code" "a < m" by blast
    with at 1(2) have "serializableLoop m faults fn (Suc a) s1 = (r, s')"
      by (simp add: serializableLoop.simps [of m faults fn a])
    from 1(1) [OF at [symmetric] e(1,2) _ this] e(3) obtain k where
      k: "Suc a + k \<le> m"
        "\<forall>i<k. \<exists>e. fst (attemptTx (faults (Suc a + i)) fn (attempt_state fn s1 i)) = Inl e \<and> retryableTxCode e \<noteq> None"
        "attemptTx (faults (Suc a + k)) fn (attempt_state fn s1 k) = (r, s')"
        "Suc a + k = m \<or> (\<forall>e. r = Inl e \<longrightarrow> retryableTxCode e = None)" by auto
    have s1: "s1 = rollback s (snd (fn s))" using at e(1) attemptTx_error_state by blast
    have "\<exists>e. fst (attemptTx (faults (a + i)) fn (attempt_state fn s i)) = Inl e \<and> retryableTxCode e \<noteq> None"
      if "i < Suc k" for i
      using that at e k(2) s1 by (cases i) auto
    with k s1 show ?thesis by (intro exI [of _ "Suc k"]) auto
  qed
qed

section \<open>Properties\<close>

text \<open>
  \<open>inSerializableTx\<close> always returns after at most \<open>maxAttempts\<close> attempts (at least one): some attempt
  decides, every attempt before it aborted with a serialization or deadlock code and was rolled back, a
  retryable failure is reported only when the attempts are used up, and after a failure every table is as
  it was before the first attempt.
\<close>

theorem retry_bounded:
  "\<exists>k t. k < max 1 maxAttempts \<and> (\<forall>i. i < k \<longrightarrow> aborts faults fn s i) \<and>
     attempt_state fn s k = rollback s t \<and>
     attemptTx (faults (Suc k)) fn (rollback s t) = inSerializableTx maxAttempts faults fn s \<and>
     (Suc k = max 1 maxAttempts \<or> \<not> aborts faults fn s k) \<and>
     (isl (fst (inSerializableTx maxAttempts faults fn s)) \<longrightarrow>
        (\<exists>u. snd (inSerializableTx maxAttempts faults fn s) = rollback s u))"
proof -
  obtain r s' where R: "inSerializableTx maxAttempts faults fn s = (r, s')" by fastforce
  then have "serializableLoop (max 1 maxAttempts) faults fn 1 s = (r, s')"
    by (simp add: inSerializableTx_def)
  from serializableLoop_attempts [OF this] obtain k where
    k: "Suc k \<le> max 1 maxAttempts" "\<forall>i<k. aborts faults fn s i"
      "attemptTx (faults (Suc k)) fn (attempt_state fn s k) = (r, s')"
      "Suc k = max 1 maxAttempts \<or> (\<forall>e. r = Inl e \<longrightarrow> retryableTxCode e = None)"
    unfolding aborts_def by auto
  obtain t where t: "attempt_state fn s k = rollback s t" using attempt_state_rollback by blast
  have "isl r \<longrightarrow> (\<exists>u. s' = rollback s u)"
    using R serial.run_error by (cases r) auto
  with k t R show ?thesis
    by (intro exI [of _ k] exI [of _ t]) (auto simp: aborts_def)
qed

definition flaky :: "nat \<Rightarrow> string option" where
  "flaky i = (if i = 1 then Some ''40001'' else None)"

theorem retry_bounded_witness:
  "\<exists>k t. k < 3 \<and> (\<forall>i. i < k \<longrightarrow> aborts flaky (gen_random_uuid env0) db0 i) \<and>
     attemptTx (flaky (Suc k)) (gen_random_uuid env0) (rollback db0 t) =
       inSerializableTx 3 flaky (gen_random_uuid env0) db0 \<and>
     fst (inSerializableTx 3 flaky (gen_random_uuid env0) db0) = Inr ''u''"
proof -
  have "fst (inSerializableTx 3 flaky (gen_random_uuid env0) db0) = Inr ''u''" by code_simp
  with retry_bounded [of 3 flaky "gen_random_uuid env0" db0] show ?thesis by auto
qed

end
