(* ===== verification/Balances.thy ===== *)
theory Balances
  imports Accounting TxRetry
begin

text \<open>
  Wallet columns and ledger accounts as two views of the same money. An operation moves both by the same
  amounts, its ledger half guarded by an idempotency key; \<open>money_step\<close> states that, and the statements
  the services are written with are related to it.
\<close>

section \<open>The wallet view\<close>

fun wallet_balance :: "wallet_row list \<Rightarrow> platform_wallet_row list \<Rightarrow> acct \<Rightarrow> int" where
  "wallet_balance ws ps (Payable u c) = (case t_find wallet_key (u, c) ws of None \<Rightarrow> 0 | Some w \<Rightarrow> w_available w)"
| "wallet_balance ws ps (Held u c) = (case t_find wallet_key (u, c) ws of None \<Rightarrow> 0 | Some w \<Rightarrow> w_escrow w)"
| "wallet_balance ws ps (Fees c) = (case t_find pw_currency c ps of None \<Rightarrow> 0 | Some p \<Rightarrow> pw_revenue p)"

definition wallet_money :: "db \<Rightarrow> acct \<Rightarrow> int" where
  "wallet_money s = wallet_balance (wallets s) (platform_wallets s)"

definition wallet_ok :: "wallet_row \<Rightarrow> bool" where
  "wallet_ok w \<longleftrightarrow> w_user w \<noteq> [] \<and> length (w_currency w) = 3 \<and> 0 \<le> w_available w \<and> 0 \<le> w_escrow w"

definition wallets_ok :: "db \<Rightarrow> bool" where
  "wallets_ok s \<longleftrightarrow> distinct (map wallet_key (wallets s)) \<and> list_all wallet_ok (wallets s) \<and>
     distinct (map pw_currency (platform_wallets s)) \<and>
     list_all (\<lambda>p. length (pw_currency p) = 3 \<and> 0 \<le> pw_revenue p) (platform_wallets s)"

definition users_ok :: "db \<Rightarrow> bool" where
  "users_ok s \<longleftrightarrow> list_all (\<lambda>u. u_id u \<noteq> []) (users s)"

lemma wallet_balance_update:
  assumes "t_find wallet_key (u, c) ws = Some w" "\<And>w. wallet_key (f w) = wallet_key w"
  shows "wallet_balance (t_upd wallet_key (u, c) f ws) ps a = wallet_balance ws ps a +
    acct_delta (Payable u c) (w_available (f w) - w_available w) a +
    acct_delta (Held u c) (w_escrow (f w) - w_escrow w) a"
  using assms by (cases a) (auto simp: t_find_upd acct_delta_def split: option.splits)

lemma wallet_balance_insert:
  assumes "t_find wallet_key (u, c) ws = None"
  shows "wallet_balance (ws @ [\<lparr>w_user = u, w_currency = c, w_available = 0, w_escrow = 0\<rparr>]) ps a =
    wallet_balance ws ps a"
  using assms by (cases a) (auto simp: t_find_append wallet_key_def split: option.splits)

section \<open>Statements\<close>

lemma ensureWallet_Inr:
  assumes "ensureWallet u c s = (Inr wid, s')"
  shows "wid = (u, c)" "\<exists>ws. s' = s\<lparr>wallets := ws\<rparr>" "wallet_money s' a = wallet_money s a"
    "t_find wallet_key wid (wallets s) = Some w \<Longrightarrow> t_find wallet_key wid (wallets s') = Some w"
    "wallets_ok s \<Longrightarrow> users_ok s \<Longrightarrow> length c = 3 \<Longrightarrow> wallets_ok s'"
proof -
  let ?new = "\<lparr>w_user = u, w_currency = c, w_available = 0, w_escrow = 0\<rparr>"
  consider (old) v where "t_find wallet_key (u, c) (wallets s) = Some v" "wid = (u, c)" "s' = s"
    | (new) us where "t_find wallet_key (u, c) (wallets s) = None" "wid = (u, c)"
        "t_find u_id u (users s) = Some us" "s' = s\<lparr>wallets := wallets s @ [?new]\<rparr>"
    using assms by (auto simp: ensureWallet_def split: option.splits)
  note c = this
  show "wid = (u, c)" using c by cases auto
  show "\<exists>ws. s' = s\<lparr>wallets := ws\<rparr>"
    using c by cases (auto intro: exI [of _ "wallets s"])
  show "wallet_money s' a = wallet_money s a"
    using c by cases (auto simp: wallet_money_def wallet_balance_insert)
  show "t_find wallet_key wid (wallets s) = Some w \<Longrightarrow> t_find wallet_key wid (wallets s') = Some w"
    using c by cases auto
  show "wallets_ok s'" if ok: "wallets_ok s" "users_ok s" "length c = 3"
    using c
  proof cases
    case old
    then show ?thesis using ok by simp
  next
    case (new us)
    have "u \<noteq> []" using ok(2) t_find_Some [OF new(3)] by (auto simp: users_ok_def list_all_iff)
    moreover have "(u, c) \<notin> wallet_key ` set (wallets s)" using new(1) by (simp add: t_find_None_iff)
    ultimately show ?thesis
      using ok new(4) by (auto simp: wallets_ok_def wallet_ok_def wallet_key_def)
  qed
qed

lemma updateWallet_Inr:
  assumes "updateWallet (u, c) f s = (Inr y, s')" "t_find wallet_key (u, c) (wallets s) = Some w"
    and key: "\<And>w. w_user (f w) = w_user w" "\<And>w. w_currency (f w) = w_currency w"
  shows "s' = s\<lparr>wallets := t_upd wallet_key (u, c) f (wallets s)\<rparr>"
    and "wallet_money s' a = wallet_money s a +
      acct_delta (Payable u c) (w_available (f w) - w_available w) a + acct_delta (Held u c) (w_escrow (f w) - w_escrow w) a"
    and "wallets_ok s \<Longrightarrow> wallets_ok s'"
proof -
  have k: "wallet_key (f w) = wallet_key w" for w by (simp add: wallet_key_def key)
  from assms(1,2) have nn: "0 \<le> w_available (f w)" "0 \<le> w_escrow (f w)"
    and s': "s' = s\<lparr>wallets := t_upd wallet_key (u, c) f (wallets s)\<rparr>"
    by (auto simp: updateWallet_iff)
  show "s' = s\<lparr>wallets := t_upd wallet_key (u, c) f (wallets s)\<rparr>" by (rule s')
  show "wallet_money s' a = wallet_money s a +
      acct_delta (Payable u c) (w_available (f w) - w_available w) a + acct_delta (Held u c) (w_escrow (f w) - w_escrow w) a"
    by (simp add: s' wallet_money_def wallet_balance_update [OF assms(2) k])
  show "wallets_ok s'" if ok: "wallets_ok s"
  proof -
    have d: "distinct (map wallet_key (wallets s))" using ok by (simp add: wallets_ok_def)
    have "wallet_ok w" using ok t_find_Some [OF assms(2)] by (auto simp: wallets_ok_def list_all_iff)
    then have "wallet_ok (f w)" using nn key by (simp add: wallet_ok_def)
    then show ?thesis
      using ok set_t_upd [OF d assms(2), of f] k
      by (auto simp: wallets_ok_def s' map_key_t_upd list_all_iff)
  qed
qed

section \<open>Money steps\<close>

text \<open>
  A step that books the deltas under the key: in the wallets always, in the ledger when the key is new.
\<close>

definition money_step :: "string \<Rightarrow> (acct \<Rightarrow> int) \<Rightarrow> db \<Rightarrow> db \<Rightarrow> bool" where
  "money_step k d s s' \<longleftrightarrow>
     users s' = users s \<and> uuid_ctr s \<le> uuid_ctr s' \<and>
     (wallets_ok s \<longrightarrow> users_ok s \<longrightarrow> wallets_ok s') \<and>
     (\<forall>a. wallet_money s' a = wallet_money s a + d a) \<and>
     (\<forall>a. acct_valid a \<longrightarrow> ledger_money (ledger_lines s') a =
        ledger_money (ledger_lines s) a + (if k \<in> ledger_keys s then 0 else d a)) \<and>
     ledger_keys s' = insert k (ledger_keys s) \<and>
     (ledger_balanced s \<longrightarrow> ledger_balanced s') \<and> (accounts_ok s \<longrightarrow> accounts_ok s')"

definition books_agree :: "db \<Rightarrow> bool" where
  "books_agree s \<longleftrightarrow> (\<forall>a. acct_valid a \<longrightarrow> wallet_money s a = ledger_money (ledger_lines s) a)"

text \<open>A step that leaves both views alone.\<close>

definition same_money :: "db \<Rightarrow> db \<Rightarrow> bool" where
  "same_money s s' \<longleftrightarrow> users s' = users s \<and> wallets s' = wallets s \<and> platform_wallets s' = platform_wallets s \<and>
     ledger_accounts s' = ledger_accounts s \<and> ledger_entries s' = ledger_entries s \<and> ledger_lines s' = ledger_lines s \<and>
     uuid_ctr s \<le> uuid_ctr s'"

lemma same_money_views:
  assumes "same_money s s'"
  shows "users_ok s' = users_ok s" "wallets_ok s' = wallets_ok s" "wallet_money s' = wallet_money s"
    "ledger_keys s' = ledger_keys s" "ledger_balanced s' = ledger_balanced s" "books_agree s' = books_agree s"
    "accounts_ok s' = accounts_ok s"
proof -
  note eq = assms [unfolded same_money_def]
  show "users_ok s' = users_ok s" "wallets_ok s' = wallets_ok s" "wallet_money s' = wallet_money s"
    "ledger_keys s' = ledger_keys s"
    using eq by (simp_all add: users_ok_def wallets_ok_def wallet_money_def ledger_keys_def)
  then show "ledger_balanced s' = ledger_balanced s" "books_agree s' = books_agree s"
    "accounts_ok s' = accounts_ok s"
    using eq by (simp_all only: ledger_balanced_def books_agree_def accounts_ok_def)
qed

lemma same_money_step:
  "money_step k d s t \<Longrightarrow> same_money t s' \<Longrightarrow> money_step k d s s'"
  "same_money s t \<Longrightarrow> money_step k d t s' \<Longrightarrow> money_step k d s s'"
  using same_money_views [of t s'] same_money_views [of s t]
  by (simp_all add: money_step_def same_money_def)

lemma side_same_money: "side_step s s' \<Longrightarrow> same_money s s'"
  by (simp add: same_money_def side_step_fields)

lemma money_step_agree: "money_step k d s s' \<Longrightarrow> k \<notin> ledger_keys s \<Longrightarrow> books_agree s \<Longrightarrow> books_agree s'"
  by (simp add: money_step_def books_agree_def)

text \<open>Fields a posting does not touch.\<close>

lemma post_frame:
  assumes "postLedgerEntry input s = (Inr r, s')"
  shows "\<exists>accs es ls. s' = s\<lparr>ledger_accounts := accs, ledger_entries := es, ledger_lines := ls\<rparr>"
proof (cases "le_key input \<in> ledger_keys s")
  case True
  with postLedgerEntry_Inr(2) [OF assms] show ?thesis
    by (intro exI [of _ "ledger_accounts s"] exI [of _ "ledger_entries s"] exI [of _ "ledger_lines s"]) simp
next
  case False
  with postLedgerEntry_Inr(3) [OF assms] show ?thesis by blast
qed

lemma money_step_posting:
  assumes w: "users s1 = users s" "uuid_ctr s \<le> uuid_ctr s1"
      "wallets_ok s \<Longrightarrow> users_ok s \<Longrightarrow> wallets_ok s1" "\<And>a. wallet_money s1 a = wallet_money s a + d a"
      "ledger_lines s1 = ledger_lines s" "ledger_entries s1 = ledger_entries s" "ledger_accounts s1 = ledger_accounts s"
    and p: "postLedgerEntry input s1 = (Inr r, s')"
    and k: "le_key input = k" and d: "\<And>a. acct_valid a \<Longrightarrow> entry_delta input (acct_code a) = d a"
    and c: "entry_charted input"
  shows "money_step k d s s'"
proof -
  have ok: "post_ok input s1 = Some s'" using p by (auto simp: post_ok_Some)
  have keys: "ledger_keys s1 = ledger_keys s" by (simp add: ledger_keys_def w)
  have fr: "users s' = users s1" "wallets s' = wallets s1" "platform_wallets s' = platform_wallets s1"
    "uuid_ctr s' = uuid_ctr s1"
    using post_frame [OF p] by auto
  have "ledger_balanced s1 = ledger_balanced s"
    by (simp only: ledger_balanced_def ledger_keys_def w)
  then have bal: "ledger_balanced s \<Longrightarrow> ledger_balanced s'" using post_balanced [OF p] by simp
  have "accounts_ok s1 = accounts_ok s"
    by (simp only: accounts_ok_def w)
  then have acc: "accounts_ok s \<Longrightarrow> accounts_ok s'" using post_accounts [OF p _ c] by simp
  have lm: "ledger_money (ledger_lines s') a =
      ledger_money (ledger_lines s) a + (if k \<in> ledger_keys s then 0 else d a)" if "acct_valid a" for a
    using book.post_known [OF ok] book.post_bal [OF ok, of "acct_code a"] keys k d [OF that] w(5)
    by (auto simp: ledger_money_def)
  have "ledger_keys s' = insert k (ledger_keys s)"
    using book.post_posted [OF ok] keys k by simp
  with w fr bal acc lm show ?thesis
    by (auto simp: money_step_def wallet_money_def wallets_ok_def)
qed

end
