(* ===== verification/Events.thy ===== *)
theory Events
  imports Sample
begin

text \<open>
  The rows the services write beside their own: timeline events
  (\<open>modules/orders/order-events.service.ts\<close>), chat system messages
  (\<open>modules/chat/system-messages.service.ts\<close>) and domain events of the transactional outbox
  (\<open>modules/outbox/outbox.service.ts\<close>). \<open>now\<close> is PostgreSQL's \<open>now()\<close>, the start of the transaction.
\<close>

record event_input =
  ei_order :: uuid
  ei_actor :: "uuid option"
  ei_type :: string
  ei_template :: "string option"
  ei_params :: "TranslateParams option"
  ei_title :: "string option"
  ei_body :: "string option"
  ei_metadata :: "(string \<times> json) list"

definition eventTitle :: "env \<Rightarrow> event_input \<Rightarrow> string" where
  "eventTitle env input = (case ei_title input of
       Some title \<Rightarrow> title
     | None \<Rightarrow> (case ei_template input of
           Some key \<Rightarrow> translate (dicts env) defaultLocale (key @ ''.title'') (ei_params input)
         | None \<Rightarrow> []))"

definition eventBody :: "env \<Rightarrow> event_input \<Rightarrow> string option" where
  "eventBody env input = (case ei_body input of
       Some body \<Rightarrow> Some body
     | None \<Rightarrow> (case ei_template input of
           Some key \<Rightarrow> Some (translate (dicts env) defaultLocale (key @ ''.body'') (ei_params input))
         | None \<Rightarrow> None))"

definition eventMetadata :: "event_input \<Rightarrow> (string \<times> json) list" where
  "eventMetadata input = obj_spread (ei_metadata input)
     ((case ei_template input of Some key \<Rightarrow> [(''templateKey'', JStr key)] | None \<Rightarrow> []) @
      (case ei_params input of Some ps \<Rightarrow> [(''params'', JObj ps)] | None \<Rightarrow> []))"

definition recordOrderEvent :: "env \<Rightarrow> time \<Rightarrow> event_input \<Rightarrow> event_row dbtx" where
  "recordOrderEvent env now input =
     tx_bind (gen_random_uuid env) (\<lambda>eid.
     let row = \<lparr>ev_id = eid, ev_order = ei_order input, ev_actor = ei_actor input, ev_type = ei_type input,
                ev_title = eventTitle env input, ev_body = eventBody env input,
                ev_metadata = JObj (eventMetadata input), ev_created_at = now\<rparr> in
     tx_bind (tx_modify (order_events_update (\<lambda>es. es @ [row]))) (\<lambda>_. tx_return row))"

section \<open>System messages\<close>

definition createSystemMessage ::
  "env \<Rightarrow> uuid \<Rightarrow> string \<Rightarrow> string \<Rightarrow> TranslateParams option \<Rightarrow> (string \<times> json) list \<Rightarrow> message_row dbtx" where
  "createSystemMessage env conversationId type bodyKey params metadata =
     tx_bind (gen_random_uuid env) (\<lambda>mid.
     let row = \<lparr>ms_id = mid, ms_conversation = conversationId, ms_sender = None, ms_kind = ''system'',
                ms_system_type = Some type, ms_body = translate (dicts env) defaultLocale bodyKey params,
                ms_metadata = JObj (obj_spread metadata ((''bodyKey'', JStr bodyKey) #
                  (case params of Some ps \<Rightarrow> [(''params'', JObj ps)] | None \<Rightarrow> [])))\<rparr> in
     tx_bind (tx_modify (messages_update (\<lambda>ms. ms @ [row]))) (\<lambda>_. tx_return row))"

definition getConversationIdForOrder :: "uuid \<Rightarrow> uuid option dbtx" where
  "getConversationIdForOrder orderId =
     tx_gets (\<lambda>s. map_option cv_id (t_find cv_order (Some orderId) (conversations s)))"

definition createOrderSystemMessage ::
  "env \<Rightarrow> uuid \<Rightarrow> string \<Rightarrow> string \<Rightarrow> TranslateParams option \<Rightarrow> (string \<times> json) list \<Rightarrow>
   message_row option dbtx" where
  "createOrderSystemMessage env orderId type bodyKey params metadata =
     tx_bind (getConversationIdForOrder orderId) (\<lambda>conversationId.
     case conversationId of
       None \<Rightarrow> tx_return None
     | Some c \<Rightarrow> tx_bind (createSystemMessage env c type bodyKey params metadata)
         (\<lambda>m. tx_return (Some m)))"

section \<open>The outbox producer\<close>

record outbox_input =
  oi_key :: string
  oi_type :: string
  oi_aggregate_type :: string
  oi_aggregate_id :: string
  oi_payload :: json

definition domainEventTypes :: "string list" where
  "domainEventTypes = [''order.created'', ''order.paid'', ''order.canceled'', ''order.started'',
     ''order.delivered'', ''order.completed'', ''order.refunded'', ''review.created'', ''dispute.opened'',
     ''dispute.resolved'', ''message.created'', ''message.moderated'', ''product.blocked'', ''user.banned'',
     ''user.warned'', ''user.muted'', ''storage.delete'']"

text \<open>\<open>insert ... on conflict (event_key) do nothing\<close>, then the existing row.\<close>

definition enqueueDomainEvent :: "env \<Rightarrow> time \<Rightarrow> outbox_input \<Rightarrow> outbox_row dbtx" where
  "enqueueDomainEvent env now input =
     tx_bind (tx_gets (\<lambda>s. t_find ob_key (oi_key input) (domain_outbox s))) (\<lambda>existing.
     case existing of
       Some row \<Rightarrow> tx_return row
     | None \<Rightarrow> tx_bind (gen_random_uuid env) (\<lambda>oid.
         let row = \<lparr>ob_id = oid, ob_key = oi_key input, ob_type = oi_type input,
                    ob_aggregate_type = oi_aggregate_type input, ob_aggregate_id = oi_aggregate_id input,
                    ob_payload = oi_payload input, ob_status = OPending, ob_attempts = 0,
                    ob_available_at = now, ob_locked_at = None, ob_locked_by = None,
                    ob_processed_at = None, ob_last_error = None, ob_created_at = now\<rparr> in
         tx_bind (tx_modify (domain_outbox_update (\<lambda>es. es @ [row]))) (\<lambda>_. tx_return row)))"

section \<open>Lemmas\<close>

lemma side_recordOrderEvent: "side.keeps (recordOrderEvent env now input)"
  unfolding recordOrderEvent_def Let_def
  by (intro side.keeps_intros side_gen_random_uuid; simp add: side_step_def side_core_def)

lemma side_createSystemMessage: "side.keeps (createSystemMessage env c ty key ps md)"
  unfolding createSystemMessage_def Let_def
  by (intro side.keeps_intros side_gen_random_uuid; simp add: side_step_def side_core_def)

lemma side_createOrderSystemMessage: "side.keeps (createOrderSystemMessage env ordId ty key ps md)"
  unfolding createOrderSystemMessage_def getConversationIdForOrder_def
  by (intro side.keeps_intros side_createSystemMessage)

lemma side_enqueueDomainEvent: "side.keeps (enqueueDomainEvent env now input)"
  unfolding enqueueDomainEvent_def Let_def
  by (intro side.keeps_intros side_gen_random_uuid; simp add: side_step_def side_core_def)

lemmas side_intros = side.keeps_intros side_gen_random_uuid side_caches side_recordOrderEvent
  side_createSystemMessage side_createOrderSystemMessage side_enqueueDomainEvent

lemma enqueueDomainEvent_Inr: "\<exists>row s'. enqueueDomainEvent env now input s = (Inr row, s')"
  by (auto simp: enqueueDomainEvent_def tx_defs gen_random_uuid_def Let_def split: option.splits)

text \<open>One outbox row per event key, however often a producer runs.\<close>

lemma enqueue_once:
  "enqueueDomainEvent env now input s = (Inr row, s') \<Longrightarrow> distinct (map ob_key (domain_outbox s)) \<Longrightarrow>
   distinct (map ob_key (domain_outbox s')) \<and>
   t_find ob_key (oi_key input) (domain_outbox s') = Some row \<and> ob_key row = oi_key input"
  by (cases "t_find ob_key (oi_key input) (domain_outbox s)")
    (auto simp: enqueueDomainEvent_def tx_simps Let_def t_find_append t_find_None_iff [symmetric]
      dest: t_find_Some)

lemma enqueue_events: "enqueueDomainEvent env now input s = (r, s') \<Longrightarrow> order_events s' = order_events s"
  by (auto simp: enqueueDomainEvent_def tx_defs gen_random_uuid_def Let_def split: option.splits)

end
