(* ===== verification/OrderTransitions.thy ===== *)
theory OrderTransitions
  imports Events
begin

text \<open>
  The order lifecycle: the transition graph of \<open>modules/orders/order-transitions.ts\<close> and the only
  writer of an order's status, \<open>transitionOrder\<close> of \<open>modules/orders/order-transition.service.ts\<close>, with
  its actors, its reason policies, its timeline event and its outbox event.
\<close>

section \<open>The graph\<close>

fun ORDER_TRANSITIONS :: "OrderStatus \<Rightarrow> OrderStatus list" where
  "ORDER_TRANSITIONS Pending = [Paid, Delivered, Canceled]"
| "ORDER_TRANSITIONS Paid = [InProgress, Delivered, Disputed, Refunded]"
| "ORDER_TRANSITIONS InProgress = [Delivered, Disputed, Refunded]"
| "ORDER_TRANSITIONS Delivered = [Completed, Disputed, Refunded]"
| "ORDER_TRANSITIONS Disputed = [Completed, Refunded]"
| "ORDER_TRANSITIONS Completed = []"
| "ORDER_TRANSITIONS Refunded = []"
| "ORDER_TRANSITIONS Canceled = []"

definition canTransitionOrder :: "OrderStatus \<Rightarrow> OrderStatus \<Rightarrow> bool" where
  "canTransitionOrder from to \<longleftrightarrow> to \<in> set (ORDER_TRANSITIONS from)"

definition assertOrderTransition :: "OrderStatus \<Rightarrow> OrderStatus \<Rightarrow> unit result" where
  "assertOrderTransition from to =
     (if canTransitionOrder from to then Inr ()
      else Inl (JsError (''Order cannot transition from '' @ orderStatusName from @ '' to '' @ orderStatusName to)))"

section \<open>Actors and reasons\<close>

datatype TransitionRole =
    RoleBuyer | RoleSeller | RoleParticipant | RoleAdmin
  | RolePaymentProvider | RoleAutoRelease | RoleTestPayment | RoleSystem

fun transitionRoleName :: "TransitionRole \<Rightarrow> string" where
  "transitionRoleName RoleBuyer = ''buyer''"
| "transitionRoleName RoleSeller = ''seller''"
| "transitionRoleName RoleParticipant = ''participant''"
| "transitionRoleName RoleAdmin = ''admin''"
| "transitionRoleName RolePaymentProvider = ''payment_provider''"
| "transitionRoleName RoleAutoRelease = ''auto_release''"
| "transitionRoleName RoleTestPayment = ''test_payment''"
| "transitionRoleName RoleSystem = ''system''"

text \<open>The two arms of the union: a user with a user role, a service with a service role.\<close>

datatype OrderTransitionActor = User (actor_id: uuid) (actor_role: TransitionRole)
  | Service (actor_id: string) (actor_role: TransitionRole)

fun actor_json :: "OrderTransitionActor \<Rightarrow> json" where
  "actor_json (User i r) = JObj [(''kind'', JStr ''user''), (''id'', JStr i), (''role'', JStr (transitionRoleName r))]"
| "actor_json (Service i r) = JObj [(''kind'', JStr ''service''), (''id'', JStr i), (''role'', JStr (transitionRoleName r))]"

datatype OrderTransitionReason =
    PaymentCaptured | TestPaymentFailed | SellerStarted | SellerDelivered | BuyerConfirmed | AutoReleased
  | DisputeOpened | DisputeReleased | DisputeRefunded | ServiceReleased | ServiceRefunded

fun reasonName :: "OrderTransitionReason \<Rightarrow> string" where
  "reasonName PaymentCaptured = ''payment_captured''"
| "reasonName TestPaymentFailed = ''test_payment_failed''"
| "reasonName SellerStarted = ''seller_started''"
| "reasonName SellerDelivered = ''seller_delivered''"
| "reasonName BuyerConfirmed = ''buyer_confirmed''"
| "reasonName AutoReleased = ''auto_released''"
| "reasonName DisputeOpened = ''dispute_opened''"
| "reasonName DisputeReleased = ''dispute_released''"
| "reasonName DisputeRefunded = ''dispute_refunded''"
| "reasonName ServiceReleased = ''service_released''"
| "reasonName ServiceRefunded = ''service_refunded''"

record TransitionOrderInput =
  ti_order :: uuid
  ti_to :: OrderStatus
  ti_actor :: OrderTransitionActor
  ti_reason :: OrderTransitionReason
  ti_expected :: "OrderStatus list option"
  ti_metadata :: "(string \<times> json) list"

definition selectOrderForUpdate :: "uuid \<Rightarrow> order_row dbtx" where
  "selectOrderForUpdate orderId =
     tx_bind (tx_gets (\<lambda>s. t_find o_id orderId (orders s))) (\<lambda>r. tx_some r (notFound ''Order not found''))"

fun REASON_POLICIES :: "OrderTransitionReason \<Rightarrow> OrderStatus list \<times> TransitionRole list" where
  "REASON_POLICIES PaymentCaptured = ([Paid, Delivered], [RoleBuyer, RoleAdmin, RolePaymentProvider, RoleTestPayment])"
| "REASON_POLICIES TestPaymentFailed = ([Canceled], [RoleTestPayment])"
| "REASON_POLICIES SellerStarted = ([InProgress], [RoleSeller])"
| "REASON_POLICIES SellerDelivered = ([Delivered], [RoleSeller])"
| "REASON_POLICIES BuyerConfirmed = ([Completed], [RoleBuyer])"
| "REASON_POLICIES AutoReleased = ([Completed], [RoleAutoRelease])"
| "REASON_POLICIES DisputeOpened = ([Disputed], [RoleParticipant])"
| "REASON_POLICIES DisputeReleased = ([Completed], [RoleAdmin])"
| "REASON_POLICIES DisputeRefunded = ([Refunded], [RoleAdmin])"
| "REASON_POLICIES ServiceReleased = ([Completed], [RoleSystem])"
| "REASON_POLICIES ServiceRefunded = ([Refunded], [RoleSystem])"

section \<open>Event descriptors\<close>

definition metadataString :: "(string \<times> json) list \<Rightarrow> string \<Rightarrow> bool \<Rightarrow> string option result" where
  "metadataString metadata key required = (case map_of metadata key of
       Some (JStr (c # cs)) \<Rightarrow> Inr (Some (c # cs))
     | _ \<Rightarrow> if required then Inl (JsError (''Order transition metadata.'' @ key @ '' is required''))
           else Inr None)"

fun json_is_string :: "json \<Rightarrow> bool" where
  "json_is_string (JStr _) = True"
| "json_is_string _ = False"

definition systemMessageIds :: "(string \<times> json) list \<Rightarrow> json result" where
  "systemMessageIds metadata = (case map_of metadata ''systemMessageIds'' of
       None \<Rightarrow> Inr (JArr [])
     | Some v \<Rightarrow> (case v of
           JArr xs \<Rightarrow> if list_all json_is_string xs then Inr (JArr xs)
             else Inl (JsError ''Order transition metadata.systemMessageIds must be a string array'')
         | _ \<Rightarrow> Inl (JsError ''Order transition metadata.systemMessageIds must be a string array'')))"

record OrderEventDescriptor =
  od_type :: string
  od_template :: string
  od_body :: "string option"
  od_metadata :: "(string \<times> json) list"

definition plainDescriptor :: "string \<Rightarrow> string \<Rightarrow> OrderEventDescriptor" where
  "plainDescriptor type key = \<lparr>od_type = type, od_template = key, od_body = None, od_metadata = []\<rparr>"

definition eventDescriptor :: "TransitionOrderInput \<Rightarrow> OrderEventDescriptor result" where
  "eventDescriptor input = (let metadata = ti_metadata input in
     case ti_reason input of
       PaymentCaptured \<Rightarrow> r_bind (metadataString metadata ''provider'' False) (\<lambda>provider.
         Inr \<lparr>od_type = ''paid'', od_template = ''orderEvents.paid'', od_body = None,
              od_metadata = (case provider of Some p \<Rightarrow> [(''provider'', JStr p)] | None \<Rightarrow> [])\<rparr>)
     | TestPaymentFailed \<Rightarrow> Inr (plainDescriptor ''canceled'' ''orderEvents.paymentFailed'')
     | SellerStarted \<Rightarrow> Inr (plainDescriptor ''started'' ''orderEvents.started'')
     | SellerDelivered \<Rightarrow> Inr (plainDescriptor ''delivered'' ''orderEvents.delivered'')
     | BuyerConfirmed \<Rightarrow> Inr (plainDescriptor ''completed'' ''orderEvents.completed'')
     | ServiceReleased \<Rightarrow> Inr (plainDescriptor ''completed'' ''orderEvents.completed'')
     | AutoReleased \<Rightarrow> Inr (plainDescriptor ''auto_released'' ''orderEvents.autoReleased'')
     | DisputeOpened \<Rightarrow> r_bind (metadataString metadata ''disputeReason'' True) (\<lambda>body.
         Inr \<lparr>od_type = ''disputed'', od_template = ''orderEvents.disputed'', od_body = body, od_metadata = []\<rparr>)
     | DisputeReleased \<Rightarrow> Inr (plainDescriptor ''completed'' ''orderEvents.completed'')
     | DisputeRefunded \<Rightarrow> Inr (plainDescriptor ''refunded'' ''orderEvents.refunded'')
     | ServiceRefunded \<Rightarrow> Inr (plainDescriptor ''refunded'' ''orderEvents.refunded''))"

definition orderOutbox :: "string \<Rightarrow> order_row \<Rightarrow> (string \<times> json) list \<Rightarrow> outbox_input" where
  "orderOutbox type order payload =
     \<lparr>oi_key = type @ '':'' @ o_id order, oi_type = type, oi_aggregate_type = ''order'',
      oi_aggregate_id = o_id order, oi_payload = JObj payload\<rparr>"

definition completionSource :: "OrderTransitionReason \<Rightarrow> string" where
  "completionSource reason = (if reason = BuyerConfirmed then ''buyer_confirmed''
     else if reason = AutoReleased then ''auto''
     else if reason = DisputeReleased then ''dispute'' else ''service'')"

definition outboxInput :: "order_row \<Rightarrow> TransitionOrderInput \<Rightarrow> outbox_input result" where
  "outboxInput order input = r_bind (systemMessageIds (ti_metadata input)) (\<lambda>ids.
     let metadata = ti_metadata input;
         basePayload = [(''orderId'', JStr (o_id order)), (''buyerId'', JStr (o_buyer order)),
           (''sellerId'', JStr (o_seller order)), (''productId'', JStr (o_product order)),
           (''systemMessageIds'', ids)];
         completed = Inr (orderOutbox ''order.completed'' order (basePayload @
           [(''source'', JStr (completionSource (ti_reason input))),
            (''actorId'', case ti_actor input of User i _ \<Rightarrow> JStr i | Service _ _ \<Rightarrow> JNull)])) in
     case ti_reason input of
       PaymentCaptured \<Rightarrow> Inr (orderOutbox ''order.paid'' order basePayload)
     | TestPaymentFailed \<Rightarrow> Inr (orderOutbox ''order.canceled'' order basePayload)
     | SellerStarted \<Rightarrow> Inr (orderOutbox ''order.started'' order basePayload)
     | SellerDelivered \<Rightarrow> Inr (orderOutbox ''order.delivered'' order basePayload)
     | BuyerConfirmed \<Rightarrow> completed
     | AutoReleased \<Rightarrow> completed
     | DisputeReleased \<Rightarrow> completed
     | ServiceReleased \<Rightarrow> completed
     | DisputeOpened \<Rightarrow> r_bind (metadataString metadata ''disputeId'' True) (\<lambda>d.
         let disputeId = (case d of Some x \<Rightarrow> x | None \<Rightarrow> []) in
         Inr \<lparr>oi_key = ''dispute.opened:'' @ disputeId, oi_type = ''dispute.opened'',
              oi_aggregate_type = ''dispute'', oi_aggregate_id = disputeId,
              oi_payload = JObj (basePayload @ [(''disputeId'', JStr disputeId)])\<rparr>)
     | DisputeRefunded \<Rightarrow> Inr (orderOutbox ''order.refunded'' order basePayload)
     | ServiceRefunded \<Rightarrow> Inr (orderOutbox ''order.refunded'' order basePayload))"

section \<open>The transition\<close>

definition transitionActorId :: "OrderTransitionActor \<Rightarrow> uuid option" where
  "transitionActorId actor = (case actor of
       User i _ \<Rightarrow> Some i
     | Service i r \<Rightarrow> if r = RoleTestPayment then Some i else None)"

definition assertActorPermission ::
  "order_row \<Rightarrow> OrderTransitionActor \<Rightarrow> OrderTransitionReason \<Rightarrow> OrderStatus \<Rightarrow> unit dbtx" where
  "assertActorPermission order actor reason to =
     tx_bind (tx_guard (to \<in> set (fst (REASON_POLICIES reason)) \<and>
         actor_role actor \<in> set (snd (REASON_POLICIES reason)))
       (forbidden ''This actor cannot perform the requested order transition'')) (\<lambda>_.
     tx_bind (tx_guard (\<not> (actor_role actor = RoleBuyer \<and> actor_id actor \<noteq> o_buyer order))
       (forbidden ''Only the buyer can perform this order transition'')) (\<lambda>_.
     tx_bind (tx_guard (\<not> (actor_role actor = RoleSeller \<and> actor_id actor \<noteq> o_seller order))
       (forbidden ''Only the seller can perform this order transition'')) (\<lambda>_.
     tx_bind (tx_guard (\<not> (actor_role actor = RoleParticipant \<and> actor_id actor \<noteq> o_buyer order \<and>
         actor_id actor \<noteq> o_seller order))
       (forbidden ''Only an order participant can perform this transition'')) (\<lambda>_.
     tx_bind (tx_guard (\<not> (actor_role actor = RoleTestPayment \<and> actor_id actor \<noteq> o_buyer order))
       (forbidden ''Only the buyer can simulate payment for this order'')) (\<lambda>_.
     tx_when (actor_role actor = RoleAdmin)
       (tx_bind (tx_gets (\<lambda>s. t_find u_id (actor_id actor) (users s))) (\<lambda>user.
          tx_guard (map_option u_role user = Some RAdmin)
            (forbidden ''Only an admin can perform this order transition''))))))))"

definition transition_json :: "TransitionOrderInput \<Rightarrow> (string \<times> json) list" where
  "transition_json input = [(''to'', JStr (orderStatusName (ti_to input))),
     (''reason'', JStr (reasonName (ti_reason input))), (''actor'', actor_json (ti_actor input))]"

definition recordsTransition :: "uuid \<Rightarrow> string \<Rightarrow> TransitionOrderInput \<Rightarrow> event_row \<Rightarrow> bool" where
  "recordsTransition orderId type input e \<longleftrightarrow> ev_order e = orderId \<and> ev_type e = type \<and>
     (case json_member ''transition'' (ev_metadata e) of
        None \<Rightarrow> False
      | Some t \<Rightarrow> json_contains t (JObj (transition_json input)))"

definition isIdempotentRepeat :: "order_row \<Rightarrow> TransitionOrderInput \<Rightarrow> bool dbtx" where
  "isIdempotentRepeat order input =
     (if o_status order \<noteq> ti_to input then tx_return False
      else tx_bind (tx_lift (eventDescriptor input)) (\<lambda>event.
        tx_gets (\<lambda>s. list_ex (recordsTransition (o_id order) (od_type event) input) (order_events s))))"

text \<open>\<open>make_interval(hours => n)\<close> in milliseconds.\<close>

definition hours :: "int \<Rightarrow> time" where
  "hours n = n * 3600000"

text \<open>The \<open>update orders set status = ...\<close> of \<open>transitionOrder\<close>, as a change of the row.\<close>

definition applyTransition :: "env \<Rightarrow> time \<Rightarrow> OrderStatus \<Rightarrow> order_row \<Rightarrow> order_row" where
  "applyTransition env now to order = order\<lparr>
     o_status := to,
     o_paid_at := (if o_status order = Pending \<and> to \<in> {Paid, Delivered} then Some now else o_paid_at order),
     o_delivered_at := (if to = Delivered then Some now else o_delivered_at order),
     o_completed_at := (if to \<in> {Completed, Refunded} then Some now else o_completed_at order),
     o_auto_release_at := (if to = Delivered then Some (now + hours (AUTO_RELEASE_HOURS env))
                           else o_auto_release_at order),
     o_updated_at := now\<rparr>"

definition transition_event :: "order_row \<Rightarrow> TransitionOrderInput \<Rightarrow> OrderEventDescriptor \<Rightarrow> event_input" where
  "transition_event order input descriptor =
     \<lparr>ei_order = o_id order, ei_actor = transitionActorId (ti_actor input), ei_type = od_type descriptor,
      ei_template = Some (od_template descriptor), ei_params = None, ei_title = None,
      ei_body = od_body descriptor,
      ei_metadata = obj_put ''transition'' (JObj ((''from'', JStr (orderStatusName (o_status order))) #
        transition_json input)) (od_metadata descriptor)\<rparr>"

definition cannotTransition :: "OrderStatus \<Rightarrow> OrderStatus \<Rightarrow> err" where
  "cannotTransition from to =
     badRequest (''Order cannot transition from '' @ orderStatusName from @ '' to '' @ orderStatusName to)"

text \<open>The checks and writes of \<open>transitionOrder\<close> after the repeat test.\<close>

definition performTransition :: "env \<Rightarrow> time \<Rightarrow> TransitionOrderInput \<Rightarrow> order_row \<Rightarrow> order_row dbtx" where
  "performTransition env now input order =
     tx_bind (tx_guard (case ti_expected input of None \<Rightarrow> True | Some from \<Rightarrow> o_status order \<in> set from)
       (cannotTransition (o_status order) (ti_to input))) (\<lambda>_.
     tx_bind (tx_guard (assertOrderTransition (o_status order) (ti_to input) = Inr ())
       (cannotTransition (o_status order) (ti_to input))) (\<lambda>_.
     tx_bind (assertActorPermission order (ti_actor input) (ti_reason input) (ti_to input)) (\<lambda>_.
     tx_bind (tx_modify (orders_update (t_upd o_id (o_id order) (applyTransition env now (ti_to input))))) (\<lambda>_.
     let nextOrder = applyTransition env now (ti_to input) order in
     tx_bind (tx_lift (eventDescriptor input)) (\<lambda>descriptor.
     tx_bind (recordOrderEvent env now (transition_event order input descriptor)) (\<lambda>_.
     tx_bind (tx_lift (outboxInput nextOrder input)) (\<lambda>ob.
     tx_bind (enqueueDomainEvent env now ob) (\<lambda>_.
     tx_return nextOrder))))))))"

definition transitionOrder :: "env \<Rightarrow> time \<Rightarrow> TransitionOrderInput \<Rightarrow> order_row dbtx" where
  "transitionOrder env now input =
     tx_bind (selectOrderForUpdate (ti_order input)) (\<lambda>order.
     tx_bind (isIdempotentRepeat order input) (\<lambda>repeated.
     if repeated then tx_return order else performTransition env now input order))"

section \<open>Lifecycles\<close>

text \<open>
  A lifecycle whose every transition raises a rank: its runs are no longer than the rank allows and
  never return to a status.
\<close>

locale lifecycle =
  fixes can :: "'st \<Rightarrow> 'st \<Rightarrow> bool"
    and rank :: "'st \<Rightarrow> nat"
    and bound :: nat
  assumes rank_less: "can x y \<Longrightarrow> rank x < rank y"
    and rank_bound: "rank x \<le> bound"
begin

lemma run_rank: "(can ^^ n) x y \<Longrightarrow> rank x + n \<le> rank y"
proof (induction n arbitrary: y)
  case 0
  then show ?case by simp
next
  case (Suc n)
  then obtain z where "(can ^^ n) x z" and "can z y" by auto
  with Suc.IH rank_less [of z y] show ?case by fastforce
qed

lemma run_bound: "(can ^^ n) x y \<Longrightarrow> n \<le> bound - rank x"
  using run_rank [of n x y] rank_bound [of y] by simp

lemma no_return: "can\<^sup>+\<^sup>+ x y \<Longrightarrow> x \<noteq> y"
proof -
  assume "can\<^sup>+\<^sup>+ x y"
  then have "rank x < rank y" by (induction rule: tranclp_induct) (auto dest: rank_less)
  then show "x \<noteq> y" by auto
qed

end

fun status_rank :: "OrderStatus \<Rightarrow> nat" where
  "status_rank Pending = 0"
| "status_rank Paid = 1"
| "status_rank InProgress = 2"
| "status_rank Delivered = 3"
| "status_rank Disputed = 4"
| "status_rank Completed = 5"
| "status_rank Refunded = 5"
| "status_rank Canceled = 5"

definition terminal :: "OrderStatus \<Rightarrow> bool" where
  "terminal st \<longleftrightarrow> st \<in> {Completed, Refunded, Canceled}"

text \<open>The statuses of an order whose amount is held in escrow.\<close>

definition holding :: "OrderStatus \<Rightarrow> bool" where
  "holding st \<longleftrightarrow> st \<in> {Paid, InProgress, Delivered, Disputed}"

interpretation order_lc: lifecycle canTransitionOrder status_rank 5
proof
  fix x y
  show "status_rank x \<le> 5" by (cases x) simp_all
  show "canTransitionOrder x y \<Longrightarrow> status_rank x < status_rank y"
    by (cases x) (auto simp: canTransitionOrder_def)
qed

lemma terminal_iff_stuck: "terminal st \<longleftrightarrow> (\<nexists>st'. canTransitionOrder st st')"
proof (cases st)
qed (auto simp: terminal_def canTransitionOrder_def intro: exI [of _ Paid] exI [of _ Refunded])

lemma can_reach_terminal: "\<exists>n t. (canTransitionOrder ^^ n) st t \<and> terminal t"
proof (cases "terminal st")
  case True
  then show ?thesis by (intro exI [of _ 0] exI [of _ st]) simp
next
  case False
  then have "\<exists>t. canTransitionOrder st t \<and> terminal t"
    by (cases st) (auto simp: terminal_def canTransitionOrder_def)
  then show ?thesis by (metis relpowp_1)
qed

lemma canTransition_holding:
  "canTransitionOrder from to \<Longrightarrow> holding from \<Longrightarrow> holding to \<or> to = Completed \<or> to = Refunded"
  by (cases "from") (auto simp: canTransitionOrder_def holding_def)

section \<open>What a transition does\<close>

lemma assertOrderTransition_iff [simp]: "assertOrderTransition x y = Inr u \<longleftrightarrow> canTransitionOrder x y"
  by (auto simp: assertOrderTransition_def)

lemma applyTransition_fields [simp]:
  "o_id (applyTransition env now to ord) = o_id ord"
  "o_buyer (applyTransition env now to ord) = o_buyer ord"
  "o_seller (applyTransition env now to ord) = o_seller ord"
  "o_product (applyTransition env now to ord) = o_product ord"
  "o_quantity (applyTransition env now to ord) = o_quantity ord"
  "o_amount (applyTransition env now to ord) = o_amount ord"
  "o_fee (applyTransition env now to ord) = o_fee ord"
  "o_currency (applyTransition env now to ord) = o_currency ord"
  "o_status (applyTransition env now to ord) = to"
  "o_payment_provider (applyTransition env now to ord) = o_payment_provider ord"
  "o_payment_reference (applyTransition env now to ord) = o_payment_reference ord"
  by (simp_all add: applyTransition_def)

lemma selectOrderForUpdate_iff [tx_simps]:
  "selectOrderForUpdate i s = (Inr ord, s') \<longleftrightarrow> t_find o_id i (orders s) = Some ord \<and> s' = s"
  by (auto simp: selectOrderForUpdate_def tx_simps)

text \<open>Who may perform a transition: the reason names the role, and the role names the person.\<close>

definition actorAllowed :: "db \<Rightarrow> order_row \<Rightarrow> OrderTransitionActor \<Rightarrow> OrderTransitionReason \<Rightarrow> OrderStatus \<Rightarrow> bool" where
  "actorAllowed s order actor reason to \<longleftrightarrow>
     to \<in> set (fst (REASON_POLICIES reason)) \<and> actor_role actor \<in> set (snd (REASON_POLICIES reason)) \<and>
     (case actor_role actor of
        RoleBuyer \<Rightarrow> actor_id actor = o_buyer order
      | RoleTestPayment \<Rightarrow> actor_id actor = o_buyer order
      | RoleSeller \<Rightarrow> actor_id actor = o_seller order
      | RoleParticipant \<Rightarrow> actor_id actor \<in> {o_buyer order, o_seller order}
      | RoleAdmin \<Rightarrow> (\<exists>u. t_find u_id (actor_id actor) (users s) = Some u \<and> u_role u = RAdmin)
      | _ \<Rightarrow> True)"

lemma assertActorPermission_iff [tx_simps]:
  "assertActorPermission ord actor reason to s = (Inr y, s') \<longleftrightarrow> actorAllowed s ord actor reason to \<and> s' = s"
  by (cases "actor_role actor") (auto simp: assertActorPermission_def actorAllowed_def tx_simps)

lemma isIdempotentRepeat_state: "isIdempotentRepeat ord input s = (r, s') \<Longrightarrow> s' = s"
  by (auto simp: isIdempotentRepeat_def tx_defs split: if_splits sum.splits)

lemma isIdempotentRepeat_True:
  "isIdempotentRepeat ord input s = (Inr True, s') \<Longrightarrow> o_status ord = ti_to input"
  by (auto simp: isIdempotentRepeat_def tx_defs split: if_splits)

lemma isIdempotentRepeat_iff:
  "isIdempotentRepeat ord input s = (Inr b, s') \<longleftrightarrow> s' = s \<and>
   (if o_status ord \<noteq> ti_to input then \<not> b
    else \<exists>d. eventDescriptor input = Inr d \<and>
      b = (\<exists>e\<in>set (order_events s). recordsTransition (o_id ord) (od_type d) input e))"
  by (auto simp: isIdempotentRepeat_def tx_simps list_ex_iff)

text \<open>
  The two ways \<open>transitionOrder\<close> returns: it recognises its own earlier run and changes nothing, or it
  moves one order along the graph and otherwise only appends side rows.
\<close>

definition order_moved :: "env \<Rightarrow> time \<Rightarrow> TransitionOrderInput \<Rightarrow> order_row \<Rightarrow> db \<Rightarrow> db \<Rightarrow> bool" where
  "order_moved env now input ord s s' \<longleftrightarrow>
     canTransitionOrder (o_status ord) (ti_to input) \<and>
     (\<forall>from. ti_expected input = Some from \<longrightarrow> o_status ord \<in> set from) \<and>
     actorAllowed s ord (ti_actor input) (ti_reason input) (ti_to input) \<and>
     side_step (orders_update (t_upd o_id (o_id ord) (applyTransition env now (ti_to input))) s) s'"

lemma performTransition_moved:
  assumes "performTransition env now input ord s = (Inr res, s')"
  shows "order_moved env now input ord s s'" and "res = applyTransition env now (ti_to input) ord"
proof -
  from assms obtain d s1 row ob row' where
    *: "(\<forall>from. ti_expected input = Some from \<longrightarrow> o_status ord \<in> set from)"
      "canTransitionOrder (o_status ord) (ti_to input)"
      "actorAllowed s ord (ti_actor input) (ti_reason input) (ti_to input)"
    and res: "res = applyTransition env now (ti_to input) ord"
    and ev: "recordOrderEvent env now (transition_event ord input d)
        (orders_update (t_upd o_id (o_id ord) (applyTransition env now (ti_to input))) s) = (Inr row, s1)"
    and ob: "enqueueDomainEvent env now ob s1 = (Inr row', s')"
    unfolding performTransition_def Let_def
    by (auto simp: tx_simps split: option.splits)
  from side.moves_trans [OF side.keepsD [OF side_recordOrderEvent ev] side.keepsD [OF side_enqueueDomainEvent ob]] *
  show "order_moved env now input ord s s'" by (auto simp: order_moved_def)
  show "res = applyTransition env now (ti_to input) ord" by (rule res)
qed

lemma transitionOrder_cases:
  assumes "transitionOrder env now input s = (Inr res, s')"
  obtains (repeated) "t_find o_id (ti_order input) (orders s) = Some res" "s' = s" "o_status res = ti_to input"
  | (moved) ord where "t_find o_id (ti_order input) (orders s) = Some ord"
      "order_moved env now input ord s s'" "res = applyTransition env now (ti_to input) ord"
proof -
  from assms obtain ord b where ord: "t_find o_id (ti_order input) (orders s) = Some ord"
    and b: "isIdempotentRepeat ord input s = (Inr b, s)"
    and k: "(if b then tx_return ord else performTransition env now input ord) s = (Inr res, s')"
    unfolding transitionOrder_def by (auto simp: tx_simps dest: isIdempotentRepeat_state)
  show thesis
  proof (cases b)
    case True
    with ord b k show thesis by (auto simp: tx_simps intro: repeated dest: isIdempotentRepeat_True)
  next
    case False
    with k show thesis by (intro moved [OF ord]) (auto dest: performTransition_moved)
  qed
qed

lemma order_moved_find:
  assumes "order_moved env now input ord s s'" "t_find o_id (ti_order input) (orders s) = Some ord"
  shows "t_find o_id i (orders s') =
    (if i = ti_order input then Some (applyTransition env now (ti_to input) ord) else t_find o_id i (orders s))"
proof -
  have "o_id ord = ti_order input" using t_find_Some [OF assms(2)] by simp
  with assms show ?thesis
    by (auto simp: order_moved_def t_find_upd dest!: side_step_fields(3))
qed

lemma recordOrderEvent_iff:
  "recordOrderEvent env now input s = (Inr row, s') \<longleftrightarrow>
   row = \<lparr>ev_id = gen_uuid env (uuid_ctr s), ev_order = ei_order input, ev_actor = ei_actor input,
          ev_type = ei_type input, ev_title = eventTitle env input, ev_body = eventBody env input,
          ev_metadata = JObj (eventMetadata input), ev_created_at = now\<rparr> \<and>
   s' = s\<lparr>uuid_ctr := Suc (uuid_ctr s), order_events := order_events s @ [row]\<rparr>"
  by (auto simp: recordOrderEvent_def tx_simps Let_def)

lemma json_contains_actor: "json_contains (actor_json a) (actor_json a)"
  by (cases a) simp_all

lemma transition_json_contains:
  "json_contains (JObj ((''from'', v) # transition_json input)) (JObj (transition_json input))"
  using json_contains_actor [of "ti_actor input"] by (simp add: transition_json_def)

lemma transition_event_transition:
  "json_member ''transition'' (JObj (eventMetadata (transition_event ord input d))) =
   Some (JObj ((''from'', JStr (orderStatusName (o_status ord))) # transition_json input))"
  by (simp add: eventMetadata_def transition_event_def obj_spread_def map_of_obj_put)

lemma transition_event_records:
  assumes "recordOrderEvent env now (transition_event ord input d) s = (Inr row, s')"
  shows "row \<in> set (order_events s') \<and> recordsTransition (o_id ord) (od_type d) input row"
proof -
  have md: "ev_metadata row = JObj (eventMetadata (transition_event ord input d))"
    and mem: "row \<in> set (order_events s')" and "ev_order row = o_id ord" "ev_type row = od_type d"
    using assms by (auto simp: recordOrderEvent_iff transition_event_def)
  then show ?thesis
    unfolding recordsTransition_def md transition_event_transition
    using transition_json_contains by simp
qed

text \<open>A transition that moved an order leaves the trace its repeat is recognised by.\<close>

lemma performTransition_recorded:
  assumes "performTransition env now input ord s = (Inr res, s')"
  shows "\<exists>d. eventDescriptor input = Inr d \<and>
    (\<exists>e\<in>set (order_events s'). recordsTransition (o_id ord) (od_type d) input e)"
proof -
  from assms obtain d s0 s1 row ob row' where d: "eventDescriptor input = Inr d"
    and ev: "recordOrderEvent env now (transition_event ord input d) s0 = (Inr row, s1)"
    and ob: "enqueueDomainEvent env now ob s1 = (Inr row', s')"
    unfolding performTransition_def Let_def by (auto simp: tx_simps)
  from transition_event_records [OF ev] enqueue_events [OF ob] d show ?thesis by auto
qed

lemma repeat_recognised:
  "t_find o_id (ti_order input) (orders s) = Some ord \<Longrightarrow> o_status ord = ti_to input \<Longrightarrow>
   eventDescriptor input = Inr d \<Longrightarrow> e \<in> set (order_events s) \<Longrightarrow>
   recordsTransition (o_id ord) (od_type d) input e \<Longrightarrow>
   transitionOrder env now input s = (Inr ord, s)"
  by (auto simp: transitionOrder_def tx_simps isIdempotentRepeat_iff intro!: exI [of _ True])

section \<open>Properties\<close>

text \<open>
  An order lifecycle always ends and never loops: a run of legal transitions has at most five steps
  and does not revisit a status, an order is stuck exactly in completed, refunded and canceled, and
  from every status a terminal one can be reached.
\<close>

theorem lifecycle_bounded:
  "((canTransitionOrder ^^ n) st st' \<longrightarrow> n \<le> 5) \<and>
   (canTransitionOrder\<^sup>+\<^sup>+ st st' \<longrightarrow> st \<noteq> st') \<and>
   (st \<in> {Completed, Refunded, Canceled} \<longleftrightarrow> (\<nexists>t. canTransitionOrder st t)) \<and>
   (\<exists>m t. (canTransitionOrder ^^ m) st t \<and> t \<in> {Completed, Refunded, Canceled})"
proof -
  have "(canTransitionOrder ^^ n) st st' \<Longrightarrow> n \<le> 5"
    using order_lc.run_bound [of n st st'] by simp
  moreover have "canTransitionOrder\<^sup>+\<^sup>+ st st' \<Longrightarrow> st \<noteq> st'" by (rule order_lc.no_return)
  moreover have "st \<in> {Completed, Refunded, Canceled} \<longleftrightarrow> (\<nexists>t. canTransitionOrder st t)"
    using terminal_iff_stuck [of st] by (simp only: terminal_def)
  moreover have "\<exists>m t. (canTransitionOrder ^^ m) st t \<and> t \<in> {Completed, Refunded, Canceled}"
    using can_reach_terminal [of st] by (simp only: terminal_def)
  ultimately show ?thesis by blast
qed

lemma longest_lifecycle: "(canTransitionOrder ^^ 5) Pending Completed"
proof -
  have "canTransitionOrder Pending Paid" "canTransitionOrder Paid InProgress"
    "canTransitionOrder InProgress Delivered" "canTransitionOrder Delivered Disputed"
    "canTransitionOrder Disputed Completed" by (simp_all add: canTransitionOrder_def)
  then show ?thesis by (simp add: numeral_eq_Suc relcompp_apply) blast
qed

theorem lifecycle_bounded_witness:
  "(canTransitionOrder ^^ 5) Pending Completed \<and> (5 :: nat) \<le> 5 \<and> Pending \<noteq> Completed"
proof -
  have "canTransitionOrder\<^sup>+\<^sup>+ Pending Completed"
    using longest_lifecycle by (meson relpowp_imp_rtranclp rtranclpD OrderStatus.distinct)
  with longest_lifecycle lifecycle_bounded [of 5 Pending Completed] show ?thesis by blast
qed

text \<open>
  C16: whenever \<open>transitionOrder\<close> returns, either it recognised its own earlier run and left the state as it
  was, or the requested edge is in the graph, the status was one the caller expected, the actor holds a role
  the reason allows and is the person that role names, exactly that order's row changed, and no money table
  changed.
\<close>

theorem transition_authorised:
  assumes "transitionOrder env now input s = (Inr res, s')"
  shows "\<exists>ord. t_find o_id (ti_order input) (orders s) = Some ord \<and>
    (s' = s \<and> res = ord \<and> o_status ord = ti_to input \<or>
     canTransitionOrder (o_status ord) (ti_to input) \<and>
     (case ti_expected input of None \<Rightarrow> True | Some from \<Rightarrow> o_status ord \<in> set from) \<and>
     actorAllowed s ord (ti_actor input) (ti_reason input) (ti_to input) \<and>
     (\<forall>i. t_find o_id i (orders s') =
        (if i = ti_order input then Some (applyTransition env now (ti_to input) ord) else t_find o_id i (orders s))) \<and>
     wallets s' = wallets s \<and> platform_wallets s' = platform_wallets s \<and>
     ledger_entries s' = ledger_entries s \<and> ledger_lines s' = ledger_lines s)"
  using assms
proof (cases rule: transitionOrder_cases)
  case repeated
  then show ?thesis by blast
next
  case (moved ord)
  then show ?thesis
    using order_moved_find [OF moved(2,1)] side_step_fields
    by (auto simp: order_moved_def split: option.split intro!: exI [of _ ord])
qed

definition pay0 :: TransitionOrderInput where
  "pay0 = \<lparr>ti_order = ''o1'', ti_to = Paid, ti_actor = User ''buyer'' RoleBuyer, ti_reason = PaymentCaptured,
     ti_expected = Some [Pending], ti_metadata = []\<rparr>"

lemma pay0_runs: "\<exists>res s'. transitionOrder env0 7 pay0 db0 = (Inr res, s')"
  by (rule tx_returns) code_simp

theorem transition_authorised_witness:
  "\<exists>res s'. transitionOrder env0 7 pay0 db0 = (Inr res, s') \<and> wallets s' = wallets db0"
proof -
  obtain res s' where r: "transitionOrder env0 7 pay0 db0 = (Inr res, s')" using pay0_runs by blast
  from transition_authorised [OF r] have "wallets s' = wallets db0" by auto
  with r show ?thesis by blast
qed

text \<open>
  Repeating a transition with the same input, at any later time, is a no-op: it returns the same order
  and changes nothing, so a retried request neither writes a second timeline event nor a second outbox row.
\<close>

theorem transition_idempotent:
  assumes "transitionOrder env now input s = (Inr res, s')"
  shows "transitionOrder env now' input s' = (Inr res, s')"
proof -
  from assms obtain ord b where ord: "t_find o_id (ti_order input) (orders s) = Some ord"
    and b: "isIdempotentRepeat ord input s = (Inr b, s)"
    and k: "(if b then tx_return ord else performTransition env now input ord) s = (Inr res, s')"
    unfolding transitionOrder_def by (auto simp: tx_simps dest: isIdempotentRepeat_state)
  show ?thesis
  proof (cases b)
    case True
    with k ord b have "res = ord" "s' = s" by (auto simp: tx_simps)
    with ord b True show ?thesis by (simp add: transitionOrder_def tx_defs selectOrderForUpdate_def)
  next
    case False
    with k have p: "performTransition env now input ord s = (Inr res, s')" by simp
    from performTransition_moved [OF p] order_moved_find [OF _ ord]
    have "t_find o_id (ti_order input) (orders s') = Some res" "o_status res = ti_to input" "o_id res = o_id ord"
      by auto
    with performTransition_recorded [OF p] show ?thesis by (metis repeat_recognised)
  qed
qed

theorem transition_idempotent_witness:
  "\<exists>res s'. transitionOrder env0 7 pay0 db0 = (Inr res, s') \<and> transitionOrder env0 9 pay0 s' = (Inr res, s')"
proof -
  obtain res s' where r: "transitionOrder env0 7 pay0 db0 = (Inr res, s')" using pay0_runs by blast
  with transition_idempotent [OF r] show ?thesis by blast
qed

end
