(* ===== verification/Escrow.thy ===== *)
theory Escrow
  imports Balances OrderTransitions
begin

text \<open>
  Escrow: capturing a payment into the seller's escrow, releasing it to the seller and refunding it to
  the buyer (\<open>modules/orders/ledger.service.ts\<close>), with the payment providers of
  \<open>modules/payments/payment.providers.ts\<close>. The configuration's fee applies at capture and is stored with
  the order. The cache of the state holds the order and wallet read caches; the catalogue caches that
  \<open>invalidateProductCaches\<close> clears are not part of it.
\<close>

section \<open>Payment providers\<close>

datatype PaymentProviderName = Mock | Stripe | Liqpay | Fondy | Monobank | ManualTransfer | Wayforpay

fun providerName :: "PaymentProviderName \<Rightarrow> string" where
  "providerName Mock = ''mock''"
| "providerName Stripe = ''stripe''"
| "providerName Liqpay = ''liqpay''"
| "providerName Fondy = ''fondy''"
| "providerName Monobank = ''monobank''"
| "providerName ManualTransfer = ''manual''"
| "providerName Wayforpay = ''wayforpay''"

record PaymentResult =
  pr_provider :: string
  pr_reference :: string

record CaptureInput =
  ci_order :: uuid
  ci_amount :: int
  ci_currency :: string
  ci_key :: string
  ci_reference :: "string option"

text \<open>The in-memory map of a simulated provider outlives the transaction that filled it.\<close>

definition simulatedCapture :: "env \<Rightarrow> PaymentProviderName \<Rightarrow> CaptureInput \<Rightarrow> PaymentResult dbtx" where
  "simulatedCapture env name input = (\<lambda>s.
     case map_of (captured s) (providerName name, ci_key input) of
       Some reference \<Rightarrow> (Inr \<lparr>pr_provider = providerName name, pr_reference = reference\<rparr>, s)
     | None \<Rightarrow>
         let reference = providerName name @ ''_'' @ ci_order input @ ''_'' @ gen_nanoid env (length (captured s)) in
         (Inr \<lparr>pr_provider = providerName name, pr_reference = reference\<rparr>,
          s\<lparr>captured := ((providerName name, ci_key input), reference) # captured s\<rparr>))"

definition confirmedCapture :: "PaymentProviderName \<Rightarrow> string \<Rightarrow> CaptureInput \<Rightarrow> PaymentResult dbtx" where
  "confirmedCapture name label input = (case ci_reference input of
       Some (c # cs) \<Rightarrow> tx_return \<lparr>pr_provider = providerName name, pr_reference = c # cs\<rparr>
     | _ \<Rightarrow> tx_throw (JsError (label @ '' capture requires a confirmed externalReference from the payment webhook'')))"

definition manualCapture :: "CaptureInput \<Rightarrow> PaymentResult dbtx" where
  "manualCapture input = tx_return \<lparr>pr_provider = ''manual'', pr_reference = (case ci_reference input of
       Some (c # cs) \<Rightarrow> c # cs | _ \<Rightarrow> ''manual:'' @ ci_order input)\<rparr>"

fun getPaymentProvider :: "env \<Rightarrow> PaymentProviderName \<Rightarrow> CaptureInput \<Rightarrow> PaymentResult dbtx" where
  "getPaymentProvider env Mock = simulatedCapture env Mock"
| "getPaymentProvider env Stripe = simulatedCapture env Stripe"
| "getPaymentProvider env Liqpay = confirmedCapture Liqpay ''LiqPay''"
| "getPaymentProvider env Fondy = simulatedCapture env Fondy"
| "getPaymentProvider env Monobank = confirmedCapture Monobank ''Monobank''"
| "getPaymentProvider env ManualTransfer = manualCapture"
| "getPaymentProvider env Wayforpay = confirmedCapture Wayforpay ''WayForPay''"

section \<open>Checked balances\<close>

definition feeFor :: "env \<Rightarrow> int \<Rightarrow> int result" where
  "feeFor env amountCents = cents_fee amountCents (PLATFORM_FEE_BPS env)"

fun rangeError :: "string \<Rightarrow> err \<Rightarrow> err" where
  "rangeError message (MoneyRangeError _) = badRequest message"
| "rangeError message e = e"

definition checkedBalanceAddition :: "int \<Rightarrow> int \<Rightarrow> string \<Rightarrow> int result" where
  "checkedBalanceAddition currentCents addedCents balanceName = (case cents_add currentCents addedCents of
       Inl e \<Rightarrow> Inl (rangeError (balanceName @ '' exceeds the supported money range'') e)
     | Inr v \<Rightarrow> Inr v)"

definition checkedBalanceSubtraction :: "int \<Rightarrow> int \<Rightarrow> string \<Rightarrow> int result" where
  "checkedBalanceSubtraction currentCents subtractedCents insufficientMessage =
     (if currentCents < subtractedCents then Inl (badRequest insufficientMessage)
      else case cents_sub currentCents subtractedCents of
          Inl e \<Rightarrow> Inl (rangeError ''Balance exceeds the supported money range'' e)
        | Inr v \<Rightarrow> Inr v)"

section \<open>Capture\<close>

definition truthy :: "string option \<Rightarrow> bool" where
  "truthy v \<longleftrightarrow> (case v of Some (_ # _) \<Rightarrow> True | _ \<Rightarrow> False)"

text \<open>The money half of the capture: the order is pending and the product row is locked.\<close>

definition captureMoney ::
  "env \<Rightarrow> order_row \<Rightarrow> PaymentProviderName \<Rightarrow> string option \<Rightarrow> (int \<times> PaymentResult) dbtx" where
  "captureMoney env order provider externalReference =
     tx_bind (ensureWallet (o_seller order) (o_currency order)) (\<lambda>sellerWalletId.
     tx_bind (ensureWallet (o_buyer order) (o_currency order)) (\<lambda>buyerWalletId.
     tx_bind (selectWallet sellerWalletId) (\<lambda>sellerWallet.
     tx_bind (tx_lift (assertPostgresBigintRange (o_amount order))) (\<lambda>amountCents.
     tx_bind (tx_lift (checkedBalanceAddition (w_escrow sellerWallet) amountCents ''Seller escrow balance'')) (\<lambda>nextEscrowCents.
     tx_bind (tx_lift (feeFor env amountCents)) (\<lambda>feeCents.
     tx_bind (tx_modify (products_update (t_upd p_id (o_product order)
       (\<lambda>p. p\<lparr>p_stock := p_stock p - o_quantity order\<rparr>)))) (\<lambda>_.
     tx_bind (getPaymentProvider env provider
       \<lparr>ci_order = o_id order, ci_amount = amountCents, ci_currency = o_currency order,
        ci_key = ''payment:'' @ o_id order, ci_reference = externalReference\<rparr>) (\<lambda>payment.
     tx_bind (updateWallet sellerWalletId (\<lambda>w. w\<lparr>w_escrow := nextEscrowCents\<rparr>)) (\<lambda>_.
     let metadata = JObj [(''provider'', JStr (pr_provider payment)), (''reference'', JStr (pr_reference payment))] in
     tx_bind (insertTransaction env (o_buyer order) (Some (o_id order)) ''payment_capture'' ''neutral'' amountCents
       (o_currency order) ''posted'' metadata) (\<lambda>_.
     tx_bind (insertTransaction env (o_seller order) (Some (o_id order)) ''escrow_hold'' ''credit'' amountCents
       (o_currency order) ''posted'' metadata) (\<lambda>_.
     tx_bind (recordPaymentCaptureLedger (o_id order) (o_seller order) amountCents (o_currency order)
       (pr_provider payment) (pr_reference payment)) (\<lambda>_.
     tx_return (feeCents, payment)))))))))))))"

text \<open>The non-lifecycle columns the capture writes on the order.\<close>

definition capturedOrder :: "int \<Rightarrow> PaymentResult \<Rightarrow> string option \<Rightarrow> order_row \<Rightarrow> order_row" where
  "capturedOrder feeCents payment note order = order\<lparr>o_fee := feeCents,
     o_payment_provider := Some (pr_provider payment), o_payment_reference := Some (pr_reference payment),
     o_delivery_note := (case note of Some n \<Rightarrow> Some n | None \<Rightarrow> o_delivery_note order)\<rparr>"

definition lockEscrowTx ::
  "env \<Rightarrow> time \<Rightarrow> uuid \<Rightarrow> uuid \<Rightarrow> PaymentProviderName \<Rightarrow> string option \<Rightarrow> OrderTransitionActor option \<Rightarrow>
   order_row dbtx" where
  "lockEscrowTx env now orderId buyerId provider externalReference actorOption =
     tx_bind (selectOrderForUpdate orderId) (\<lambda>order.
     tx_bind (tx_guard (o_buyer order = buyerId) (forbidden ''Only the buyer can pay this order'')) (\<lambda>_.
     tx_bind (tx_guard (o_status order = Pending) (badRequest ''Only pending orders can be paid'')) (\<lambda>_.
     tx_bind (tx_gets (\<lambda>s. t_find p_id (o_product order) (products s))) (\<lambda>productRow.
     tx_bind (tx_guard (map_option p_status productRow = Some ProdActive)
       (badRequest ''Product is no longer available'')) (\<lambda>_.
     tx_bind (tx_some productRow (badRequest ''Product is no longer available'')) (\<lambda>product.
     tx_bind (tx_guard (\<not> p_stock product < o_quantity order) (badRequest ''Not enough stock'')) (\<lambda>_.
     tx_bind (captureMoney env order provider externalReference) (\<lambda>(feeCents, payment).
     let isInstant = (p_delivery_type product = Instant \<and> truthy (p_delivery_template product)) in
     tx_bind (tx_modify (orders_update (t_upd o_id (o_id order) (capturedOrder feeCents payment
       (if isInstant then p_delivery_template product else None))))) (\<lambda>_.
     tx_bind (createOrderSystemMessage env (o_id order) ''payment_received'' ''system.paymentReceived'' None []) (\<lambda>message.
     transitionOrder env now
       \<lparr>ti_order = o_id order, ti_to = (if isInstant then Delivered else Paid),
        ti_actor = (case actorOption of
            Some a \<Rightarrow> a
          | None \<Rightarrow> if provider = Mock then Service (o_buyer order) RoleTestPayment
                   else User (o_buyer order) RoleBuyer),
        ti_reason = PaymentCaptured, ti_expected = Some [Pending],
        ti_metadata = [(''provider'', JStr (pr_provider payment)),
          (''systemMessageIds'', json_strings (case message of Some m \<Rightarrow> [ms_id m] | None \<Rightarrow> []))]\<rparr>))))))))))"

definition lockEscrow ::
  "env \<Rightarrow> (nat \<Rightarrow> string option) \<Rightarrow> time \<Rightarrow> uuid \<Rightarrow> uuid \<Rightarrow> PaymentProviderName \<Rightarrow> string option \<Rightarrow>
   OrderTransitionActor option \<Rightarrow> order_row dbtx" where
  "lockEscrow env faults now orderId buyerId provider externalReference actorOption =
     tx_bind (inSerializableTx 1 faults
       (lockEscrowTx env now orderId buyerId provider externalReference actorOption)) (\<lambda>order.
     tx_bind (invalidateOrderParticipantReadCaches env (o_id order) (o_buyer order) (o_seller order) True True) (\<lambda>_.
     tx_return order))"

section \<open>Release\<close>

datatype ReleaseSource = SrcBuyerConfirmed | SrcAuto | SrcDispute | SrcService

record ReleaseEscrowOptions =
  ro_admin :: "uuid option"
  ro_source :: "ReleaseSource option"
  ro_actor :: "uuid option"

text \<open>The second argument of \<open>releaseEscrow\<close>: missing, an admin id, or an options object.\<close>

datatype ReleaseArg = NoArg | AdminArg uuid | OptionsArg ReleaseEscrowOptions

fun releaseOptions :: "ReleaseArg \<Rightarrow> ReleaseEscrowOptions" where
  "releaseOptions NoArg = \<lparr>ro_admin = None, ro_source = None, ro_actor = None\<rparr>"
| "releaseOptions (AdminArg a) = \<lparr>ro_admin = Some a, ro_source = Some SrcDispute, ro_actor = None\<rparr>"
| "releaseOptions (OptionsArg opts) = opts"

definition releaseSource :: "ReleaseEscrowOptions \<Rightarrow> ReleaseSource" where
  "releaseSource opts = (case ro_source opts of
       Some src \<Rightarrow> src
     | None \<Rightarrow> if truthy (ro_admin opts) then SrcDispute else SrcService)"

definition releaseTransition ::
  "ReleaseEscrowOptions \<Rightarrow> order_row \<Rightarrow> OrderTransitionActor \<times> OrderTransitionReason \<times> OrderStatus list" where
  "releaseTransition opts order = (case releaseSource opts of
       SrcBuyerConfirmed \<Rightarrow>
         (User (case ro_actor opts of Some a \<Rightarrow> a | None \<Rightarrow> o_buyer order) RoleBuyer, BuyerConfirmed, [Delivered])
     | SrcAuto \<Rightarrow> (Service ''auto-release-worker'' RoleAutoRelease, AutoReleased, [Delivered])
     | SrcDispute \<Rightarrow>
         (User (case ro_admin opts of Some a \<Rightarrow> a | None \<Rightarrow> []) RoleAdmin, DisputeReleased, [Disputed])
     | SrcService \<Rightarrow> (Service ''escrow-service'' RoleSystem, ServiceReleased, [Delivered, Disputed]))"

text \<open>The revenue the platform wallet will hold, when there is a fee to credit.\<close>

definition nextRevenue :: "order_row \<Rightarrow> int \<Rightarrow> int option dbtx" where
  "nextRevenue order feeCents =
     (if 0 < feeCents then
        tx_bind (tx_gets (\<lambda>s. t_find pw_currency (o_currency order) (platform_wallets s))) (\<lambda>row.
        tx_bind (tx_some row (JsError (''Platform wallet is missing for '' @ o_currency order))) (\<lambda>platformWallet.
        tx_bind (tx_lift (checkedBalanceAddition (pw_revenue platformWallet) feeCents ''Platform revenue balance''))
          (\<lambda>next. tx_return (Some next))))
      else tx_return None)"

text \<open>Crediting the fee, when there is one.\<close>

definition creditFee :: "string \<Rightarrow> int option \<Rightarrow> unit dbtx" where
  "creditFee c next = (case next of
       None \<Rightarrow> tx_return ()
     | Some r \<Rightarrow> tx_modify (platform_wallets_update (t_upd pw_currency c (\<lambda>p. p\<lparr>pw_revenue := r\<rparr>))))"

text \<open>The money half of the release, after the order was moved to completed.\<close>

definition releaseMoney :: "env \<Rightarrow> order_row \<Rightarrow> uuid option \<Rightarrow> unit dbtx" where
  "releaseMoney env order adminId =
     tx_bind (ensureWallet (o_seller order) (o_currency order)) (\<lambda>sellerWalletId.
     tx_bind (selectWallet sellerWalletId) (\<lambda>sellerWallet.
     tx_bind (tx_lift (assertPostgresBigintRange (o_amount order))) (\<lambda>amountCents.
     tx_bind (tx_lift (assertPostgresBigintRange (o_fee order))) (\<lambda>feeCents.
     tx_bind (tx_guard (\<not> amountCents < feeCents) (badRequest ''Platform fee exceeds the order amount'')) (\<lambda>_.
     tx_bind (tx_lift (cents_sub amountCents feeCents)) (\<lambda>netCents.
     tx_bind (tx_lift (checkedBalanceSubtraction (w_escrow sellerWallet) amountCents
       ''Escrow balance is insufficient'')) (\<lambda>nextEscrowCents.
     tx_bind (tx_lift (checkedBalanceAddition (w_available sellerWallet) netCents
       ''Seller available balance'')) (\<lambda>nextAvailableCents.
     tx_bind (nextRevenue order feeCents) (\<lambda>nextRevenueCents.
     tx_bind (updateWallet sellerWalletId
       (\<lambda>w. w\<lparr>w_escrow := nextEscrowCents, w_available := nextAvailableCents\<rparr>)) (\<lambda>_.
     tx_bind (creditFee (o_currency order) nextRevenueCents) (\<lambda>_.
     let metadata = JObj [(''adminId'', json_of_option adminId)] in
     tx_bind (insertTransaction env (o_seller order) (Some (o_id order)) ''escrow_release'' ''credit'' netCents
       (o_currency order) ''posted'' metadata) (\<lambda>_.
     tx_bind (insertTransaction env (o_seller order) (Some (o_id order)) ''platform_fee'' ''debit'' feeCents
       (o_currency order) ''posted'' metadata) (\<lambda>_.
     tx_bind (recordEscrowReleaseLedger (o_id order) (o_seller order) amountCents feeCents (o_currency order)
       adminId) (\<lambda>_.
     tx_modify (products_update (t_upd p_id (o_product order)
       (\<lambda>p. p\<lparr>p_sales_count := p_sales_count p + o_quantity order\<rparr>)))))))))))))))))"

definition releaseMessage :: "env \<Rightarrow> uuid \<Rightarrow> ReleaseEscrowOptions \<Rightarrow> message_row option dbtx" where
  "releaseMessage env orderId opts =
     (if releaseSource opts \<in> {SrcBuyerConfirmed, SrcAuto}
      then createOrderSystemMessage env orderId ''escrow_released''
        (if releaseSource opts = SrcBuyerConfirmed then ''system.escrowReleased'' else ''system.fundsReleased'') None []
      else tx_return None)"

definition releaseEscrowTx :: "env \<Rightarrow> time \<Rightarrow> uuid \<Rightarrow> ReleaseEscrowOptions \<Rightarrow> order_row dbtx" where
  "releaseEscrowTx env now orderId opts =
     tx_bind (selectOrderForUpdate orderId) (\<lambda>order.
     tx_bind (tx_guard (canTransitionOrder (o_status order) Completed)
       (badRequest ''Only delivered or disputed orders can be released'')) (\<lambda>_.
     tx_bind (releaseMessage env orderId opts) (\<lambda>message.
     let (actor, reason, expectedFrom) = releaseTransition opts order in
     tx_bind (transitionOrder env now
       \<lparr>ti_order = orderId, ti_to = Completed, ti_actor = actor, ti_reason = reason,
        ti_expected = Some expectedFrom,
        ti_metadata = [(''systemMessageIds'', json_strings (case message of Some m \<Rightarrow> [ms_id m] | None \<Rightarrow> []))]\<rparr>)
       (\<lambda>updated.
     tx_bind (releaseMoney env order (ro_admin opts)) (\<lambda>_.
     tx_return updated)))))"

definition releaseEscrow :: "env \<Rightarrow> (nat \<Rightarrow> string option) \<Rightarrow> time \<Rightarrow> uuid \<Rightarrow> ReleaseArg \<Rightarrow> order_row dbtx" where
  "releaseEscrow env faults now orderId arg =
     tx_bind (inSerializableTx 3 faults (releaseEscrowTx env now orderId (releaseOptions arg))) (\<lambda>updated.
     tx_bind (invalidateOrderParticipantReadCaches env (o_id updated) (o_buyer updated) (o_seller updated) False True) (\<lambda>_.
     tx_return updated))"

section \<open>Refund\<close>

definition refundMoney :: "env \<Rightarrow> order_row \<Rightarrow> uuid option \<Rightarrow> unit dbtx" where
  "refundMoney env order adminId =
     tx_bind (ensureWallet (o_seller order) (o_currency order)) (\<lambda>sellerWalletId.
     tx_bind (ensureWallet (o_buyer order) (o_currency order)) (\<lambda>buyerWalletId.
     tx_bind (selectWallet sellerWalletId) (\<lambda>sellerWallet.
     tx_bind (selectWallet buyerWalletId) (\<lambda>buyerWallet.
     tx_bind (tx_lift (assertPostgresBigintRange (o_amount order))) (\<lambda>amountCents.
     tx_bind (tx_lift (checkedBalanceSubtraction (w_escrow sellerWallet) amountCents
       ''Escrow balance is insufficient'')) (\<lambda>nextEscrowCents.
     tx_bind (tx_lift (checkedBalanceAddition (w_available buyerWallet) amountCents
       ''Buyer available balance'')) (\<lambda>nextBuyerAvailableCents.
     tx_bind (updateWallet sellerWalletId (\<lambda>w. w\<lparr>w_escrow := nextEscrowCents\<rparr>)) (\<lambda>_.
     tx_bind (updateWallet buyerWalletId (\<lambda>w. w\<lparr>w_available := nextBuyerAvailableCents\<rparr>)) (\<lambda>_.
     let metadata = JObj [(''adminId'', json_of_option adminId)] in
     tx_bind (insertTransaction env (o_seller order) (Some (o_id order)) ''refund'' ''debit'' amountCents
       (o_currency order) ''posted'' metadata) (\<lambda>_.
     tx_bind (insertTransaction env (o_buyer order) (Some (o_id order)) ''refund'' ''credit'' amountCents
       (o_currency order) ''posted'' metadata) (\<lambda>_.
     recordRefundLedger (o_id order) (o_seller order) (o_buyer order) amountCents (o_currency order) adminId)))))))))))"

definition refundTransition :: "uuid \<Rightarrow> uuid option \<Rightarrow> TransitionOrderInput" where
  "refundTransition orderId adminId =
     \<lparr>ti_order = orderId, ti_to = Refunded,
      ti_actor = (if truthy adminId then User (the adminId) RoleAdmin else Service ''escrow-service'' RoleSystem),
      ti_reason = (if truthy adminId then DisputeRefunded else ServiceRefunded),
      ti_expected = Some (if truthy adminId then [Disputed] else [Paid, InProgress, Delivered, Disputed]),
      ti_metadata = []\<rparr>"

definition refundEscrowTx :: "env \<Rightarrow> time \<Rightarrow> uuid \<Rightarrow> uuid option \<Rightarrow> order_row dbtx" where
  "refundEscrowTx env now orderId adminId =
     tx_bind (selectOrderForUpdate orderId) (\<lambda>order.
     tx_bind (tx_guard (canTransitionOrder (o_status order) Refunded)
       (badRequest ''Only escrowed orders can be refunded'')) (\<lambda>_.
     tx_bind (transitionOrder env now (refundTransition orderId adminId)) (\<lambda>updated.
     tx_bind (refundMoney env order adminId) (\<lambda>_.
     tx_return updated))))"

definition refundEscrow :: "env \<Rightarrow> (nat \<Rightarrow> string option) \<Rightarrow> time \<Rightarrow> uuid \<Rightarrow> uuid option \<Rightarrow> order_row dbtx" where
  "refundEscrow env faults now orderId adminId =
     tx_bind (inSerializableTx 3 faults (refundEscrowTx env now orderId adminId)) (\<lambda>updated.
     tx_bind (invalidateOrderParticipantReadCaches env (o_id updated) (o_buyer updated) (o_seller updated) True True) (\<lambda>_.
     tx_return updated))"

section \<open>Payment providers as one interface\<close>

text \<open>
  What the capture relies on: a provider touches nothing but its own memory, signs its results, and
  answers a repeated capture with the result it gave before.
\<close>

locale payment_provider =
  fixes capture :: "CaptureInput \<Rightarrow> PaymentResult dbtx"
    and name :: string
  assumes capture_frame: "capture i s = (r, s') \<Longrightarrow> \<exists>cap. s' = s\<lparr>captured := cap\<rparr>"
    and capture_name: "capture i s = (Inr pay, s') \<Longrightarrow> pr_provider pay = name"
    and capture_repeat: "capture i s = (Inr pay, s') \<Longrightarrow> captured t = captured s' \<Longrightarrow> capture i t = (Inr pay, t)"
begin

lemma capture_after_rollback:
  "capture i s = (Inr pay, s') \<Longrightarrow> capture i (rollback s0 s') = (Inr pay, rollback s0 s')"
  by (rule capture_repeat) auto

end

interpretation provider: payment_provider "getPaymentProvider env p" "providerName p"
proof
  fix i s r s' pay t
  note defs = simulatedCapture_def confirmedCapture_def manualCapture_def
  show "getPaymentProvider env p i s = (r, s') \<Longrightarrow> \<exists>cap. s' = s\<lparr>captured := cap\<rparr>"
    by (cases p) (auto simp: defs tx_defs Let_def split: option.splits list.splits
        intro: exI [of _ "captured s"])
  show "getPaymentProvider env p i s = (Inr pay, s') \<Longrightarrow> pr_provider pay = providerName p"
    by (cases p) (auto simp: defs tx_defs Let_def split: option.splits list.splits)
  show "getPaymentProvider env p i s = (Inr pay, s') \<Longrightarrow> captured t = captured s' \<Longrightarrow>
      getPaymentProvider env p i t = (Inr pay, t)"
    by (cases p) (auto simp: defs tx_defs Let_def split: option.splits list.splits)
qed

section \<open>The money moved by each operation\<close>

lemma checkedBalanceAddition_Inr [simp]:
  "checkedBalanceAddition a b n = Inr v \<longleftrightarrow> cents_add a b = Inr v"
  by (cases "cents_add a b") (simp_all add: checkedBalanceAddition_def del: cents_add_Inr_iff)

lemma checkedBalanceSubtraction_Inr [simp]:
  "checkedBalanceSubtraction a b n = Inr v \<longleftrightarrow> b \<le> a \<and> cents_sub a b = Inr v"
  by (cases "cents_sub a b") (auto simp: checkedBalanceSubtraction_def simp del: cents_sub_Inr_iff)

definition capture_key :: "uuid \<Rightarrow> string" where
  "capture_key i = ''order:'' @ i @ '':payment_capture''"

definition release_key :: "uuid \<Rightarrow> string" where
  "release_key i = ''order:'' @ i @ '':escrow_release''"

definition refund_key :: "uuid \<Rightarrow> string" where
  "refund_key i = ''order:'' @ i @ '':refund''"

lemma entry_keys:
  "le_key (payment_capture_entry i sl amt c p r) = capture_key i"
  "le_key (escrow_release_entry i sl amt fee net c adm) = release_key i"
  "le_key (refund_entry i sl b amt c adm) = refund_key i"
  by (simp_all add: capture_key_def release_key_def refund_key_def payment_capture_entry_def
      escrow_release_entry_def refund_entry_def)

definition order_valid :: "order_row \<Rightarrow> bool" where
  "order_valid ord \<longleftrightarrow> o_seller ord \<noteq> [] \<and> o_buyer ord \<noteq> [] \<and> length (o_currency ord) = 3 \<and>
     0 < o_amount ord \<and> in_bigint_range (o_amount ord) \<and> 0 < o_quantity ord \<and>
     0 \<le> o_fee ord \<and> o_fee ord \<le> o_amount ord"

text \<open>What no money operation changes of a product.\<close>

definition product_tag :: "product_row \<Rightarrow> uuid \<times> string" where
  "product_tag p = (p_id p, p_currency p)"

text \<open>The tables outside money, stock and lifecycle, kept by a money half.\<close>

definition same_rest :: "db \<Rightarrow> db \<Rightarrow> bool" where
  "same_rest s s' \<longleftrightarrow> orders s' = orders s \<and> wallet_topups s' = wallet_topups s \<and> payouts s' = payouts s \<and>
     disputes s' = disputes s \<and> map product_tag (products s') = map product_tag (products s)"

text \<open>
  The books after a capture: unless its entry was there already, the seller's escrow account is
  credited and the provider's clearing account debited with the amount, and no other account moves.
\<close>

definition capture_booked :: "order_row \<Rightarrow> db \<Rightarrow> db \<Rightarrow> bool" where
  "capture_booked ord s s' \<longleftrightarrow> (\<forall>x. account_balance (ledger_lines s') x = account_balance (ledger_lines s) x +
     (if capture_key (o_id ord) \<in> ledger_keys s then 0
      else if x = sellerEscrow (o_currency ord) (o_seller ord) then o_amount ord
      else if x = providerClearing (o_currency ord) then - o_amount ord else 0))"

lemma captureMoney_Inr:
  assumes run: "captureMoney env ord p ext s = (Inr (fee, pay), s')" and v: "order_valid ord"
  shows "money_step (capture_key (o_id ord)) (acct_delta (Held (o_seller ord) (o_currency ord)) (o_amount ord)) s s'"
    and "cents_fee (o_amount ord) (PLATFORM_FEE_BPS env) = Inr fee"
    and "same_rest s s'" and "pr_provider pay = providerName p"
    and "products s' = t_upd p_id (o_product ord) (\<lambda>q. q\<lparr>p_stock := p_stock q - o_quantity ord\<rparr>) (products s)"
    and "capture_booked ord s s'"
proof -
  let ?sw = "(o_seller ord, o_currency ord)"
  let ?pu = "products_update (t_upd p_id (o_product ord) (\<lambda>q. q\<lparr>p_stock := p_stock q - o_quantity ord\<rparr>))"
  from run obtain i1 i2 s1 s2 s4 s5 s6 s7 w y r ci t1 t2 where
    e1: "ensureWallet (o_seller ord) (o_currency ord) s = (Inr i1, s1)"
    and e2: "ensureWallet (o_buyer ord) (o_currency ord) s1 = (Inr i2, s2)"
    and w: "t_find wallet_key i1 (wallets s2) = Some w"
    and fee: "feeFor env (o_amount ord) = Inr fee"
    and cap: "getPaymentProvider env p ci (?pu s2) = (Inr pay, s4)"
    and u: "updateWallet i1 (\<lambda>x. x\<lparr>w_escrow := w_escrow w + o_amount ord\<rparr>) s4 = (Inr y, s5)"
    and s7: "s7 = s5\<lparr>uuid_ctr := Suc (Suc (uuid_ctr s5)), transactions := transactions s5 @ [t1, t2]\<rparr>"
    and post: "postLedgerEntry (payment_capture_entry (o_id ord) (o_seller ord) (o_amount ord) (o_currency ord)
        (pr_provider pay) (pr_reference pay)) s7 = (Inr r, s')"
    unfolding captureMoney_def recordPaymentCaptureLedger_def
    by (auto simp: tx_simps Let_def)
  note E1 = ensureWallet_Inr [OF e1] note E2 = ensureWallet_Inr [OF e2]
  from E1(1) have i1: "i1 = ?sw" .
  obtain ws1 where s1: "s1 = s\<lparr>wallets := ws1\<rparr>" using E1(2) by blast
  obtain ws2 where s2: "s2 = s1\<lparr>wallets := ws2\<rparr>" using E2(2) by blast
  obtain cs where s4: "s4 = (?pu s2)\<lparr>captured := cs\<rparr>" using provider.capture_frame [OF cap] by blast
  have w4: "t_find wallet_key ?sw (wallets s4) = Some w" using w i1 by (simp add: s4)
  note U = updateWallet_Inr [OF u [unfolded i1] w4]
  have wm: "wallet_money s7 a = wallet_money s a + acct_delta (Held (o_seller ord) (o_currency ord)) (o_amount ord) a" for a
    using U(2) [of a] E1(3) [of a] E2(3) [of a] by (simp add: s7 s4 wallet_money_def acct_delta_def)
  have ok: "wallets_ok s7" if "wallets_ok s" "users_ok s"
  proof -
    have "wallets_ok s1" using E1(5) that v by (simp add: order_valid_def)
    then have "wallets_ok s2" using E2(5) that v by (simp add: order_valid_def users_ok_def s1)
    then have "wallets_ok s4" by (simp add: wallets_ok_def s4)
    then have "wallets_ok s5" by (rule U(3) [rotated -1]) simp_all
    then show ?thesis by (simp add: wallets_ok_def s7)
  qed
  have s5: "s5 = s4\<lparr>wallets := t_upd wallet_key ?sw (\<lambda>x. x\<lparr>w_escrow := w_escrow w + o_amount ord\<rparr>) (wallets s4)\<rparr>"
    by (rule U(1)) simp_all
  show "money_step (capture_key (o_id ord)) (acct_delta (Held (o_seller ord) (o_currency ord)) (o_amount ord)) s s'"
    by (rule money_step_posting [OF _ _ ok wm _ _ _ post])
      (use v in \<open>simp_all add: s7 s5 s4 s2 s1 entry_keys order_valid_def delta_payment_capture entries_charted\<close>)
  show "cents_fee (o_amount ord) (PLATFORM_FEE_BPS env) = Inr fee" using fee by (simp add: feeFor_def)
  show "pr_provider pay = providerName p" by (rule provider.capture_name [OF cap])
  show "products s' = t_upd p_id (o_product ord) (\<lambda>q. q\<lparr>p_stock := p_stock q - o_quantity ord\<rparr>) (products s)"
    and "same_rest s s'"
    using post_frame [OF post] by (auto simp: same_rest_def s7 s5 s4 s2 s1 map_t_upd product_tag_def)
  show "capture_booked ord s s'"
    using post_balance [OF post] v
    by (simp add: capture_booked_def order_valid_def entry_delta_capture entry_keys ledger_keys_def s7 s5 s4 s2 s1)
qed

definition release_delta :: "order_row \<Rightarrow> acct \<Rightarrow> int" where
  "release_delta ord a = acct_delta (Held (o_seller ord) (o_currency ord)) (- o_amount ord) a +
     acct_delta (Payable (o_seller ord) (o_currency ord)) (o_amount ord - o_fee ord) a +
     acct_delta (Fees (o_currency ord)) (o_fee ord) a"

definition refund_delta :: "order_row \<Rightarrow> acct \<Rightarrow> int" where
  "refund_delta ord a = acct_delta (Held (o_seller ord) (o_currency ord)) (- o_amount ord) a +
     acct_delta (Payable (o_buyer ord) (o_currency ord)) (o_amount ord) a"

lemma nextRevenue_Inr:
  "nextRevenue ord fee s = (Inr next, s') \<longleftrightarrow> s' = s \<and>
   (if 0 < fee then \<exists>p. t_find pw_currency (o_currency ord) (platform_wallets s) = Some p \<and>
       cents_add (pw_revenue p) fee = Inr (pw_revenue p + fee) \<and> next = Some (pw_revenue p + fee)
    else next = None)"
  by (auto simp: nextRevenue_def tx_simps)

lemma creditFee_Inr:
  assumes "creditFee c next s = (Inr y, s')" "0 \<le> fee"
    and n: "if 0 < fee then \<exists>p. t_find pw_currency c (platform_wallets s) = Some p \<and> next = Some (pw_revenue p + fee)
      else next = None"
  shows "\<exists>ps. s' = s\<lparr>platform_wallets := ps\<rparr>" "wallet_money s' a = wallet_money s a + acct_delta (Fees c) fee a"
    "wallets_ok s \<Longrightarrow> wallets_ok s'"
proof -
  have "(\<exists>ps. s' = s\<lparr>platform_wallets := ps\<rparr>) \<and> wallet_money s' a = wallet_money s a + acct_delta (Fees c) fee a \<and>
    (wallets_ok s \<longrightarrow> wallets_ok s')"
  proof (cases "0 < fee")
    case False
    with assms have "s' = s" "fee = 0" by (auto simp: creditFee_def tx_simps)
    then show ?thesis by (auto simp: acct_delta_def intro: exI [of _ "platform_wallets s"])
  next
    case True
    with n obtain p where p: "t_find pw_currency c (platform_wallets s) = Some p" "next = Some (pw_revenue p + fee)"
      by auto
    let ?f = "\<lambda>q. q\<lparr>pw_revenue := pw_revenue p + fee\<rparr>"
    have s': "s' = s\<lparr>platform_wallets := t_upd pw_currency c ?f (platform_wallets s)\<rparr>"
      using assms(1) p by (auto simp: creditFee_def tx_simps)
    have "wallet_money s' a = wallet_money s a + acct_delta (Fees c) fee a"
      using p(1) by (cases a) (auto simp: s' wallet_money_def t_find_upd acct_delta_def split: option.splits)
    moreover have "wallets_ok s'" if ok: "wallets_ok s"
    proof -
      have d: "distinct (map pw_currency (platform_wallets s))" using ok by (simp add: wallets_ok_def)
      have "length (pw_currency p) = 3 \<and> 0 \<le> pw_revenue p" using ok t_find_Some [OF p(1)] by (auto simp: wallets_ok_def list_all_iff)
      then show ?thesis
        using ok True set_t_upd [OF d p(1), of ?f] by (auto simp: wallets_ok_def s' map_key_t_upd list_all_iff)
    qed
    ultimately show ?thesis using s' by blast
  qed
  then show "\<exists>ps. s' = s\<lparr>platform_wallets := ps\<rparr>" "wallet_money s' a = wallet_money s a + acct_delta (Fees c) fee a"
    "wallets_ok s \<Longrightarrow> wallets_ok s'" by blast+
qed

lemma releaseMoney_Inr:
  assumes run: "releaseMoney env ord adm s = (Inr y, s')" and v: "order_valid ord"
  shows "money_step (release_key (o_id ord)) (release_delta ord) s s'" and "same_rest s s'"
    and "o_amount ord \<le> wallet_money s (Held (o_seller ord) (o_currency ord))"
proof -
  let ?u = "o_seller ord" and ?c = "o_currency ord"
  let ?f = "\<lambda>x w. x\<lparr>w_escrow := w_escrow w - o_amount ord, w_available := w_available w + (o_amount ord - o_fee ord)\<rparr>"
  from run obtain i1 s1 w s2 s3 s4 s5 nx y1 y2 r t1 t2 where
    e1: "ensureWallet ?u ?c s = (Inr i1, s1)"
    and w: "t_find wallet_key i1 (wallets s1) = Some w" and le: "o_amount ord \<le> w_escrow w"
    and nx: "nextRevenue ord (o_fee ord) s1 = (Inr nx, s1)"
    and u: "updateWallet i1 (\<lambda>x. ?f x w) s1 = (Inr y1, s2)"
    and cf: "creditFee ?c nx s2 = (Inr y2, s3)"
    and s4: "s4 = s3\<lparr>uuid_ctr := Suc (Suc (uuid_ctr s3)), transactions := transactions s3 @ [t1, t2]\<rparr>"
    and post: "postLedgerEntry (escrow_release_entry (o_id ord) ?u (o_amount ord) (o_fee ord)
        (o_amount ord - o_fee ord) ?c adm) s4 = (Inr r, s5)"
    and s': "s' = products_update (t_upd p_id (o_product ord)
        (\<lambda>q. q\<lparr>p_sales_count := p_sales_count q + o_quantity ord\<rparr>)) s5"
    unfolding releaseMoney_def recordEscrowReleaseLedger_def
    by (auto simp: tx_simps Let_def nextRevenue_Inr)
  note E1 = ensureWallet_Inr [OF e1]
  from E1(1) have i1: "i1 = (?u, ?c)" .
  obtain ws1 where s1: "s1 = s\<lparr>wallets := ws1\<rparr>" using E1(2) by blast
  note U = updateWallet_Inr [OF u [unfolded i1] w [unfolded i1]]
  have s2: "s2 = s1\<lparr>wallets := t_upd wallet_key (?u, ?c) (\<lambda>x. ?f x w) (wallets s1)\<rparr>"
    by (rule U(1)) simp_all
  have fee: "0 \<le> o_fee ord" "o_fee ord \<le> o_amount ord" using v by (simp_all add: order_valid_def)
  have n: "if 0 < o_fee ord then \<exists>p. t_find pw_currency ?c (platform_wallets s2) = Some p \<and>
      nx = Some (pw_revenue p + o_fee ord) else nx = None"
    using nx by (auto simp: nextRevenue_Inr s2 split: if_splits)
  note C = creditFee_Inr [OF cf fee(1) n]
  obtain ps where s3: "s3 = s2\<lparr>platform_wallets := ps\<rparr>" using C(1) by blast
  have wm: "wallet_money s4 a = wallet_money s a + release_delta ord a" for a
    using U(2) [of a] E1(3) [of a] C(2) [of a]
    by (auto simp: s4 wallet_money_def acct_delta_def release_delta_def)
  have ok: "wallets_ok s4" if "wallets_ok s" "users_ok s"
  proof -
    have "wallets_ok s1" using E1(5) that v by (simp add: order_valid_def)
    then have "wallets_ok s2" by (rule U(3) [rotated -1]) simp_all
    then have "wallets_ok s3" by (rule C(3))
    then show ?thesis by (simp add: wallets_ok_def s4)
  qed
  have "money_step (release_key (o_id ord)) (release_delta ord) s s5"
    by (rule money_step_posting [OF _ _ ok wm _ _ _ post])
      (use v fee in \<open>simp_all add: s4 s3 s2 s1 entry_keys order_valid_def release_delta_def delta_escrow_release entries_charted\<close>)
  then show "money_step (release_key (o_id ord)) (release_delta ord) s s'"
    by (rule same_money_step(1)) (simp add: same_money_def s')
  show "same_rest s s'"
    using post_frame [OF post] by (auto simp: same_rest_def s' s4 s3 s2 s1 map_t_upd product_tag_def)
  show "o_amount ord \<le> wallet_money s (Held ?u ?c)"
    using le w E1(3) [of "Held ?u ?c"] by (simp add: wallet_money_def i1)
qed

lemma refundMoney_Inr:
  assumes run: "refundMoney env ord adm s = (Inr y, s')" and v: "order_valid ord"
  shows "money_step (refund_key (o_id ord)) (refund_delta ord) s s'" and "same_rest s s'"
    and "products s' = products s"
    and "o_amount ord \<le> wallet_money s (Held (o_seller ord) (o_currency ord))"
proof -
  let ?u = "o_seller ord" and ?b = "o_buyer ord" and ?c = "o_currency ord"
  from run obtain i1 i2 s1 s2 w bw s3 s4 s5 y1 y2 r t1 t2 where
    e1: "ensureWallet ?u ?c s = (Inr i1, s1)" and e2: "ensureWallet ?b ?c s1 = (Inr i2, s2)"
    and w: "t_find wallet_key i1 (wallets s2) = Some w" and le: "o_amount ord \<le> w_escrow w"
    and bw: "t_find wallet_key i2 (wallets s2) = Some bw"
    and u: "updateWallet i1 (\<lambda>x. x\<lparr>w_escrow := w_escrow w - o_amount ord\<rparr>) s2 = (Inr y1, s3)"
    and ub: "updateWallet i2 (\<lambda>x. x\<lparr>w_available := w_available bw + o_amount ord\<rparr>) s3 = (Inr y2, s4)"
    and s5: "s5 = s4\<lparr>uuid_ctr := Suc (Suc (uuid_ctr s4)), transactions := transactions s4 @ [t1, t2]\<rparr>"
    and post: "postLedgerEntry (refund_entry (o_id ord) ?u ?b (o_amount ord) ?c adm) s5 = (Inr r, s')"
    unfolding refundMoney_def recordRefundLedger_def by (auto simp: tx_simps Let_def)
  note E1 = ensureWallet_Inr [OF e1] note E2 = ensureWallet_Inr [OF e2]
  from E1(1) E2(1) have i1: "i1 = (?u, ?c)" and i2: "i2 = (?b, ?c)" .
  obtain ws1 where s1: "s1 = s\<lparr>wallets := ws1\<rparr>" using E1(2) by blast
  obtain ws2 where s2: "s2 = s1\<lparr>wallets := ws2\<rparr>" using E2(2) by blast
  note U = updateWallet_Inr [OF u [unfolded i1] w [unfolded i1]]
  have s3: "s3 = s2\<lparr>wallets := t_upd wallet_key (?u, ?c) (\<lambda>x. x\<lparr>w_escrow := w_escrow w - o_amount ord\<rparr>) (wallets s2)\<rparr>"
    by (rule U(1)) simp_all
  obtain bw' where bw': "t_find wallet_key (?b, ?c) (wallets s3) = Some bw'" "w_available bw' = w_available bw"
    using bw w i1 i2 by (cases "?b = ?u") (auto simp: s3 t_find_upd wallet_key_def)
  note V = updateWallet_Inr [OF ub [unfolded i2] bw'(1)]
  have s4: "s4 = s3\<lparr>wallets := t_upd wallet_key (?b, ?c) (\<lambda>x. x\<lparr>w_available := w_available bw + o_amount ord\<rparr>) (wallets s3)\<rparr>"
    by (rule V(1)) simp_all
  have wm: "wallet_money s5 a = wallet_money s a + refund_delta ord a" for a
    using U(2) [of a] V(2) [of a] E1(3) [of a] E2(3) [of a] bw'(2)
    by (auto simp: s5 wallet_money_def acct_delta_def refund_delta_def)
  have ok: "wallets_ok s5" if "wallets_ok s" "users_ok s"
  proof -
    have "wallets_ok s1" using E1(5) that v by (simp add: order_valid_def)
    then have "wallets_ok s2" using E2(5) that v by (simp add: order_valid_def users_ok_def s1)
    then have "wallets_ok s3" by (rule U(3) [rotated -1]) simp_all
    then have "wallets_ok s4" by (rule V(3) [rotated -1]) simp_all
    then show ?thesis by (simp add: wallets_ok_def s5)
  qed
  show "money_step (refund_key (o_id ord)) (refund_delta ord) s s'"
    by (rule money_step_posting [OF _ _ ok wm _ _ _ post])
      (use v in \<open>simp_all add: s5 s4 s3 s2 s1 entry_keys order_valid_def refund_delta_def delta_refund entries_charted\<close>)
  show "same_rest s s'" "products s' = products s"
    using post_frame [OF post] by (auto simp: same_rest_def s5 s4 s3 s2 s1)
  show "o_amount ord \<le> wallet_money s (Held ?u ?c)"
    using le w E1(3) [of "Held ?u ?c"] E2(3) [of "Held ?u ?c"] by (simp add: wallet_money_def i1)
qed

section \<open>The operations\<close>

text \<open>One order row replaced, its parties and its price kept.\<close>

definition order_changed :: "order_row \<Rightarrow> order_row \<Rightarrow> db \<Rightarrow> db \<Rightarrow> bool" where
  "order_changed ord res s s' \<longleftrightarrow>
     t_find o_id (o_id ord) (orders s) = Some ord \<and> map o_id (orders s') = map o_id (orders s) \<and>
     (\<forall>i. t_find o_id i (orders s') = (if i = o_id ord then Some res else t_find o_id i (orders s))) \<and>
     o_id res = o_id ord \<and> o_buyer res = o_buyer ord \<and> o_seller res = o_seller ord \<and>
     o_product res = o_product ord \<and> o_quantity res = o_quantity ord \<and>
     o_amount res = o_amount ord \<and> o_currency res = o_currency ord"

lemma order_changed_rows:
  "order_changed ord res s s' \<Longrightarrow> distinct (map o_id (orders s)) \<Longrightarrow>
   orders s' = t_upd o_id (o_id ord) (\<lambda>r. if o_id r = o_id ord then res else r) (orders s)"
  by (rule t_eqI [where key = o_id]) (auto simp: order_changed_def map_key_t_upd t_find_upd)

lemma order_changed_sum:
  assumes "order_changed ord res s s'" "distinct (map o_id (orders s))"
  shows "t_sum g (orders s') = t_sum g (orders s) - g ord + g res"
  using order_changed_rows [OF assms] t_sum_upd [OF assms(2), of "o_id ord" ord g "\<lambda>r. if o_id r = o_id ord then res else r"] assms(1)
  by (simp add: order_changed_def)

definition escrow_step :: "string \<Rightarrow> (acct \<Rightarrow> int) \<Rightarrow> order_row \<Rightarrow> order_row \<Rightarrow> db \<Rightarrow> db \<Rightarrow> bool" where
  "escrow_step k d ord res s s' \<longleftrightarrow> money_step k d s s' \<and> order_changed ord res s s' \<and>
     wallet_topups s' = wallet_topups s \<and> payouts s' = payouts s \<and> disputes s' = disputes s \<and>
     map product_tag (products s') = map product_tag (products s)"

lemma order_moved_same_money: "order_moved env now input ord s s' \<Longrightarrow> same_money s s'"
  by (auto simp: order_moved_def same_money_def dest: side_step_fields)

lemma order_moved_changed:
  assumes "order_moved env now input ord s s'" "t_find o_id (ti_order input) (orders s) = Some ord"
  shows "order_changed ord (applyTransition env now (ti_to input) ord) s s'"
    and "wallet_topups s' = wallet_topups s" "payouts s' = payouts s" "disputes s' = disputes s"
    "products s' = products s"
proof -
  have i: "o_id ord = ti_order input" using t_find_Some [OF assms(2)] by simp
  have side: "side_step (orders_update (t_upd o_id (o_id ord) (applyTransition env now (ti_to input))) s) s'"
    using assms(1) by (simp add: order_moved_def)
  from side_step_fields [OF side] show "wallet_topups s' = wallet_topups s" "payouts s' = payouts s"
    "disputes s' = disputes s" "products s' = products s" by simp_all
  show "order_changed ord (applyTransition env now (ti_to input) ord) s s'"
    using side_step_fields(3) [OF side] assms(2) order_moved_find [OF assms] i
    by (auto simp: order_changed_def map_key_t_upd)
qed

lemma transition_moves:
  assumes "transitionOrder env now input s = (Inr res, s')"
    "t_find o_id (ti_order input) (orders s) = Some ord" "o_status ord \<noteq> ti_to input"
  shows "order_moved env now input ord s s'" "res = applyTransition env now (ti_to input) ord"
  using assms by (auto elim!: transitionOrder_cases)

lemma side_releaseMessage: "side.keeps (releaseMessage env i opts)"
  unfolding releaseMessage_def by (intro side_intros)

lemma releaseEscrowTx_Inr:
  assumes run: "releaseEscrowTx env now i opts s = (Inr res, s')"
    and v: "\<And>ord. t_find o_id i (orders s) = Some ord \<Longrightarrow> order_valid ord"
  obtains ord where "o_id ord = i" "o_status ord \<in> set (snd (snd (releaseTransition opts ord)))"
    "actorAllowed s ord (fst (releaseTransition opts ord)) (fst (snd (releaseTransition opts ord))) Completed"
    "res = applyTransition env now Completed ord"
    "escrow_step (release_key i) (release_delta ord) ord res s s'"
    "o_amount ord \<le> wallet_money s (Held (o_seller ord) (o_currency ord))"
proof -
  from run obtain ord m s1 s2 inp y where ord: "t_find o_id i (orders s) = Some ord"
    and can: "canTransitionOrder (o_status ord) Completed"
    and msg: "releaseMessage env i opts s = (Inr m, s1)"
    and inp: "ti_order inp = i" "ti_to inp = Completed" "ti_actor inp = fst (releaseTransition opts ord)"
        "ti_reason inp = fst (snd (releaseTransition opts ord))"
        "ti_expected inp = Some (snd (snd (releaseTransition opts ord)))"
    and tr: "transitionOrder env now inp s1 = (Inr res, s2)"
    and mon: "releaseMoney env ord (ro_admin opts) s2 = (Inr y, s')"
    unfolding releaseEscrowTx_def by (force simp: tx_simps case_prod_beta Let_def)
  have side: "side_step s s1" by (rule side.keepsD [OF side_releaseMessage msg])
  have oi: "o_id ord = i" using t_find_Some [OF ord] by simp
  have ord1: "t_find o_id (ti_order inp) (orders s1) = Some ord" using ord inp side_step_fields(3) [OF side] by simp
  have ne: "o_status ord \<noteq> ti_to inp" using can inp by (auto simp: canTransitionOrder_def)
  note M = transition_moves [OF tr ord1 ne]
  note R = releaseMoney_Inr [OF mon v [OF ord]]
  note C = order_moved_changed [OF M(1) ord1]
  have "same_money s s2"
    using side_same_money [OF side] order_moved_same_money [OF M(1)] by (auto simp: same_money_def)
  from same_money_step(2) [OF this R(1)] have "money_step (release_key i) (release_delta ord) s s'" by (simp add: oi)
  moreover have "order_changed ord res s s'"
    using C(1) M(2) R(2) inp(2) side_step_fields(3) [OF side] by (auto simp: order_changed_def same_rest_def)
  ultimately have "escrow_step (release_key i) (release_delta ord) ord res s s'"
    using C R(2) side_step_fields [OF side] by (simp add: escrow_step_def same_rest_def)
  moreover have "wallet_money s2 = wallet_money s" using \<open>same_money s s2\<close> same_money_views by blast
  moreover have "actorAllowed s ord (fst (releaseTransition opts ord)) (fst (snd (releaseTransition opts ord))) Completed"
    using M(1) inp side_step_fields(1) [OF side] by (auto simp: order_moved_def actorAllowed_def split: TransitionRole.splits)
  moreover have "o_status ord \<in> set (snd (snd (releaseTransition opts ord)))"
    using M(1) inp by (auto simp: order_moved_def)
  ultimately show thesis using M(2) inp R(3) oi by (intro that) auto
qed

end
