(* ===== verification/EscrowOps.thy ===== *)
theory EscrowOps
  imports Escrow
begin

text \<open>
  The three escrow operations as a caller sees them, through the serializable transaction and the cache
  invalidation: what they did when they return, and that a failure leaves every table as it was.
\<close>

lemma refundEscrowTx_Inr:
  assumes run: "refundEscrowTx env now i adm s = (Inr res, s')"
    and v: "\<And>ord. t_find o_id i (orders s) = Some ord \<Longrightarrow> order_valid ord"
  obtains ord where "o_id ord = i" "o_status ord \<in> set (the (ti_expected (refundTransition i adm)))"
    "actorAllowed s ord (ti_actor (refundTransition i adm)) (ti_reason (refundTransition i adm)) Refunded"
    "res = applyTransition env now Refunded ord"
    "escrow_step (refund_key i) (refund_delta ord) ord res s s'" "products s' = products s"
    "o_amount ord \<le> wallet_money s (Held (o_seller ord) (o_currency ord))"
proof -
  from run obtain ord s2 y where ord: "t_find o_id i (orders s) = Some ord"
    and can: "canTransitionOrder (o_status ord) Refunded"
    and tr: "transitionOrder env now (refundTransition i adm) s = (Inr res, s2)"
    and mon: "refundMoney env ord adm s2 = (Inr y, s')"
    unfolding refundEscrowTx_def by (force simp: tx_simps)
  have inp: "ti_order (refundTransition i adm) = i" "ti_to (refundTransition i adm) = Refunded"
    by (simp_all add: refundTransition_def)
  have oi: "o_id ord = i" using t_find_Some [OF ord] by simp
  have ord1: "t_find o_id (ti_order (refundTransition i adm)) (orders s) = Some ord" using ord inp by simp
  have ne: "o_status ord \<noteq> ti_to (refundTransition i adm)" using can inp by (auto simp: canTransitionOrder_def)
  note M = transition_moves [OF tr ord1 ne]
  note R = refundMoney_Inr [OF mon v [OF ord]]
  note C = order_moved_changed [OF M(1) ord1]
  have sm: "same_money s s2" by (rule order_moved_same_money [OF M(1)])
  from same_money_step(2) [OF sm R(1)] have "money_step (refund_key i) (refund_delta ord) s s'" by (simp add: oi)
  moreover have "order_changed ord res s s'"
    using C(1) M(2) R(2) inp(2) by (auto simp: order_changed_def same_rest_def)
  ultimately have "escrow_step (refund_key i) (refund_delta ord) ord res s s'"
    using C R(2) by (simp add: escrow_step_def same_rest_def)
  moreover have "wallet_money s2 = wallet_money s" using sm same_money_views by blast
  moreover have "o_status ord \<in> set (the (ti_expected (refundTransition i adm)))"
    using M(1) by (auto simp: order_moved_def refundTransition_def)
  ultimately show thesis using M inp R(3,4) C(5) oi by (intro that) (auto simp: order_moved_def)
qed

lemma capturedOrder_fields [simp]:
  "o_id (capturedOrder fee pay nt ord) = o_id ord" "o_buyer (capturedOrder fee pay nt ord) = o_buyer ord"
  "o_seller (capturedOrder fee pay nt ord) = o_seller ord" "o_product (capturedOrder fee pay nt ord) = o_product ord"
  "o_quantity (capturedOrder fee pay nt ord) = o_quantity ord" "o_amount (capturedOrder fee pay nt ord) = o_amount ord"
  "o_currency (capturedOrder fee pay nt ord) = o_currency ord" "o_status (capturedOrder fee pay nt ord) = o_status ord"
  "o_fee (capturedOrder fee pay nt ord) = fee"
  "o_payment_reference (capturedOrder fee pay nt ord) = Some (pr_reference pay)"
  by (simp_all add: capturedOrder_def)

definition deliversInstantly :: "product_row \<Rightarrow> bool" where
  "deliversInstantly p \<longleftrightarrow> p_delivery_type p = Instant \<and> truthy (p_delivery_template p)"

lemma lockEscrowTx_Inr:
  assumes run: "lockEscrowTx env now i b p ext act s = (Inr res, s')"
    and v: "\<And>ord. t_find o_id i (orders s) = Some ord \<Longrightarrow> order_valid ord"
  obtains ord pr where "o_id ord = i" "o_buyer ord = b" "o_status ord = Pending"
    "t_find p_id (o_product ord) (products s) = Some pr" "p_status pr = ProdActive" "o_quantity ord \<le> p_stock pr"
    "o_status res = (if deliversInstantly pr then Delivered else Paid)"
    "cents_fee (o_amount ord) (PLATFORM_FEE_BPS env) = Inr (o_fee res)"
    "products s' = t_upd p_id (o_product ord) (\<lambda>q. q\<lparr>p_stock := p_stock q - o_quantity ord\<rparr>) (products s)"
    "escrow_step (capture_key i) (acct_delta (Held (o_seller ord) (o_currency ord)) (o_amount ord)) ord res s s'"
    "capture_booked ord s s'"
proof -
  from run obtain ord pr fee pay nt s1 s2 s3 m inp where ord: "t_find o_id i (orders s) = Some ord"
    and g: "o_buyer ord = b" "o_status ord = Pending" "t_find p_id (o_product ord) (products s) = Some pr"
      "p_status pr = ProdActive" "o_quantity ord \<le> p_stock pr"
    and mon: "captureMoney env ord p ext s = (Inr (fee, pay), s1)"
    and s2: "s2 = orders_update (t_upd o_id (o_id ord) (capturedOrder fee pay nt)) s1"
    and msg: "createOrderSystemMessage env (o_id ord) ''payment_received'' ''system.paymentReceived'' None [] s2 = (Inr m, s3)"
    and inp: "ti_order inp = o_id ord" "ti_to inp = (if deliversInstantly pr then Delivered else Paid)"
    and tr: "transitionOrder env now inp s3 = (Inr res, s')"
    unfolding lockEscrowTx_def by (force simp: tx_simps case_prod_beta Let_def deliversInstantly_def not_less)
  note Cap = captureMoney_Inr [OF mon v [OF ord]]
  note side = side.keepsD [OF side_createOrderSystemMessage msg]
  have oi: "o_id ord = i" using t_find_Some [OF ord] by simp
  let ?co = "capturedOrder fee pay nt ord"
  have "orders s1 = orders s" using Cap(3) by (simp add: same_rest_def)
  then have f3: "t_find o_id j (orders s3) = (if j = i then Some ?co else t_find o_id j (orders s))"
    and k3: "map o_id (orders s3) = map o_id (orders s)" for j
    using side_step_fields(3) [OF side] ord oi by (auto simp: s2 t_find_upd map_key_t_upd)
  have ord1: "t_find o_id (ti_order inp) (orders s3) = Some ?co" using f3 inp oi by simp
  have ne: "o_status ?co \<noteq> ti_to inp" using g inp by simp
  note M = transition_moves [OF tr ord1 ne]
  note C = order_moved_changed [OF M(1) ord1]
  have res: "res = applyTransition env now (ti_to inp) ?co" by (rule M(2))
  have "same_money s1 s'"
    using side_same_money [OF side] order_moved_same_money [OF M(1)] by (auto simp: same_money_def s2)
  from same_money_step(1) [OF Cap(1) this] oi
  have "money_step (capture_key i) (acct_delta (Held (o_seller ord) (o_currency ord)) (o_amount ord)) s s'" by simp
  moreover have "order_changed ord res s s'"
    using C(1) f3 k3 ord oi by (auto simp: order_changed_def res)
  moreover have pr: "products s' = t_upd p_id (o_product ord) (\<lambda>q. q\<lparr>p_stock := p_stock q - o_quantity ord\<rparr>) (products s)"
    using C(5) side_step_fields(2) [OF side] Cap(5) by (simp add: s2)
  ultimately have "escrow_step (capture_key i) (acct_delta (Held (o_seller ord) (o_currency ord)) (o_amount ord)) ord res s s'"
    using C Cap(3) side_step_fields [OF side] by (simp add: escrow_step_def same_rest_def s2)
  moreover have "ledger_lines s' = ledger_lines s1"
    using \<open>same_money s1 s'\<close> by (simp add: same_money_def)
  then have "capture_booked ord s s'" using Cap(6) by (simp add: capture_booked_def)
  ultimately show thesis using g oi Cap(2) pr inp by (intro that) (simp_all add: res)
qed

section \<open>Through the transaction\<close>

lemma rollback_same_money: "same_money s (rollback s t)"
  by (simp add: same_money_def)

lemma escrow_step_lift:
  assumes "escrow_step k d ord res (rollback s t) s1" "side_step s1 s'"
  shows "escrow_step k d ord res s s'"
proof -
  have "money_step k d s s'"
    using assms same_money_step rollback_same_money side_same_money by (meson escrow_step_def)
  with assms(1) side_step_fields [OF assms(2)] show ?thesis
    by (simp add: escrow_step_def order_changed_def)
qed

lemma invalidate_side:
  "invalidateOrderParticipantReadCaches env i b sl x y s = (r, s') \<Longrightarrow> side_step s s'"
  by (rule side.keepsD [OF side_caches(3)])

lemma invalidate_returns: "\<exists>s'. invalidateOrderParticipantReadCaches env i b sl x y s = (Inr (), s')"
  by (simp add: invalidateOrderParticipantReadCaches_def cacheDel_def cacheDelPrefixes_def tx_defs)

lemma rollback_actorAllowed [simp]: "actorAllowed (rollback s t) = actorAllowed s"
  by (intro ext) (simp add: actorAllowed_def split: TransitionRole.split)

lemma rollback_wallet_money [simp]: "wallet_money (rollback s t) = wallet_money s"
  by (simp add: wallet_money_def)

lemma lockEscrow_Inr:
  assumes run: "lockEscrow env faults now i b p ext act s = (Inr res, s')"
    and v: "\<And>ord. t_find o_id i (orders s) = Some ord \<Longrightarrow> order_valid ord"
  obtains ord pr where "o_id ord = i" "o_buyer ord = b" "o_status ord = Pending"
    "t_find p_id (o_product ord) (products s) = Some pr" "p_status pr = ProdActive" "o_quantity ord \<le> p_stock pr"
    "o_status res = (if deliversInstantly pr then Delivered else Paid)"
    "cents_fee (o_amount ord) (PLATFORM_FEE_BPS env) = Inr (o_fee res)"
    "products s' = t_upd p_id (o_product ord) (\<lambda>q. q\<lparr>p_stock := p_stock q - o_quantity ord\<rparr>) (products s)"
    "escrow_step (capture_key i) (acct_delta (Held (o_seller ord) (o_currency ord)) (o_amount ord)) ord res s s'"
    "capture_booked ord s s'"
proof -
  from run obtain s1 where tx: "inSerializableTx 1 faults (lockEscrowTx env now i b p ext act) s = (Inr res, s1)"
    and side: "side_step s1 s'" by (auto simp: lockEscrow_def tx_simps dest: invalidate_side)
  from serial.run_ok [OF tx] obtain t where t: "lockEscrowTx env now i b p ext act (rollback s t) = (Inr res, s1)" ..
  have lift: "capture_booked ord (rollback s t) s1 \<Longrightarrow> capture_booked ord s s'" for ord
    using side_same_money [OF side] by (simp add: capture_booked_def same_money_def ledger_keys_def)
  show thesis
    by (rule lockEscrowTx_Inr [OF t])
      (use v side_step_fields(2) [OF side] in \<open>auto intro!: that dest: escrow_step_lift [OF _ side] lift\<close>)
qed

lemma releaseEscrow_Inr:
  assumes run: "releaseEscrow env faults now i arg s = (Inr res, s')"
    and v: "\<And>ord. t_find o_id i (orders s) = Some ord \<Longrightarrow> order_valid ord"
  obtains ord where "o_id ord = i" "o_status ord \<in> set (snd (snd (releaseTransition (releaseOptions arg) ord)))"
    "actorAllowed s ord (fst (releaseTransition (releaseOptions arg) ord))
       (fst (snd (releaseTransition (releaseOptions arg) ord))) Completed"
    "res = applyTransition env now Completed ord"
    "escrow_step (release_key i) (release_delta ord) ord res s s'"
    "o_amount ord \<le> wallet_money s (Held (o_seller ord) (o_currency ord))"
proof -
  from run obtain s1 where tx: "inSerializableTx 3 faults (releaseEscrowTx env now i (releaseOptions arg)) s = (Inr res, s1)"
    and side: "side_step s1 s'" by (auto simp: releaseEscrow_def tx_simps dest: invalidate_side)
  from serial.run_ok [OF tx] obtain t where
    t: "releaseEscrowTx env now i (releaseOptions arg) (rollback s t) = (Inr res, s1)" ..
  show thesis
    by (rule releaseEscrowTx_Inr [OF t])
      (use v in \<open>auto intro!: that dest: escrow_step_lift [OF _ side]\<close>)
qed

lemma refundEscrow_Inr:
  assumes run: "refundEscrow env faults now i adm s = (Inr res, s')"
    and v: "\<And>ord. t_find o_id i (orders s) = Some ord \<Longrightarrow> order_valid ord"
  obtains ord where "o_id ord = i" "o_status ord \<in> set (the (ti_expected (refundTransition i adm)))"
    "actorAllowed s ord (ti_actor (refundTransition i adm)) (ti_reason (refundTransition i adm)) Refunded"
    "res = applyTransition env now Refunded ord"
    "escrow_step (refund_key i) (refund_delta ord) ord res s s'" "products s' = products s"
    "o_amount ord \<le> wallet_money s (Held (o_seller ord) (o_currency ord))"
proof -
  from run obtain s1 where tx: "inSerializableTx 3 faults (refundEscrowTx env now i adm) s = (Inr res, s1)"
    and side: "side_step s1 s'" by (auto simp: refundEscrow_def tx_simps dest: invalidate_side)
  from serial.run_ok [OF tx] obtain t where t: "refundEscrowTx env now i adm (rollback s t) = (Inr res, s1)" ..
  show thesis
    by (rule refundEscrowTx_Inr [OF t])
      (use v side_step_fields(2) [OF side] in \<open>auto intro!: that dest: escrow_step_lift [OF _ side]\<close>)
qed

text \<open>Failures.\<close>

lemma tx_then_caches_error:
  assumes "tx_bind (inSerializableTx n faults fn) (\<lambda>ord. tx_bind
      (invalidateOrderParticipantReadCaches env (o_id ord) (o_buyer ord) (o_seller ord) x y) (\<lambda>_. tx_return ord)) s
    = (Inl e, s')"
  shows "\<exists>t. s' = rollback s t"
proof -
  obtain r s1 where tx: "inSerializableTx n faults fn s = (r, s1)" by fastforce
  show ?thesis
  proof (cases r)
    case (Inl e')
    with assms tx have "s' = s1" by (simp add: tx_bind_def)
    with tx Inl serial.run_error show ?thesis by blast
  next
    case (Inr ord)
    with assms tx invalidate_returns [of env "o_id ord" "o_buyer ord" "o_seller ord" x y s1] show ?thesis
      by (auto simp: tx_bind_def tx_return_def)
  qed
qed

section \<open>Settled once\<close>

lemma guard_error: "tx_bind (selectOrderForUpdate i) (\<lambda>ord. tx_bind (tx_guard (P ord) e) (k ord)) s = (r, s') \<Longrightarrow>
   t_find o_id i (orders s) = Some ord \<Longrightarrow> \<not> P ord \<Longrightarrow> r = Inl e"
  by (auto simp: selectOrderForUpdate_def tx_defs)

lemma settled_fails:
  assumes "t_find o_id i (orders s) = Some ord" "terminal (o_status ord)"
  shows "isl (fst (releaseEscrow env faults now i arg s))" "isl (fst (refundEscrow env faults now i adm s))"
    "isl (fst (lockEscrow env faults now i b p ext act s))"
proof -
  have stuck: "\<not> canTransitionOrder (o_status ord) st" for st
    using assms(2) terminal_iff_stuck by blast
  have *: "isl (fst (tx_bind (inSerializableTx n faults fn) k s))"
    if "\<And>t x s'. fn (rollback s t) \<noteq> (Inr x, s')" for n and fn :: "order_row dbtx" and k :: "order_row \<Rightarrow> order_row dbtx"
    using that serial.run_ok [of n faults fn s]
    by (cases "inSerializableTx n faults fn s"; cases "fst (inSerializableTx n faults fn s)")
      (auto simp: tx_bind_def)
  show "isl (fst (releaseEscrow env faults now i arg s))" unfolding releaseEscrow_def
    by (rule *) (use assms(1) stuck in \<open>auto simp: releaseEscrowTx_def tx_simps\<close>)
  show "isl (fst (refundEscrow env faults now i adm s))" unfolding refundEscrow_def
    by (rule *) (use assms(1) stuck in \<open>auto simp: refundEscrowTx_def tx_simps\<close>)
  show "isl (fst (lockEscrow env faults now i b p ext act s))" unfolding lockEscrow_def
    by (rule *) (use assms in \<open>auto simp: lockEscrowTx_def tx_simps terminal_def\<close>)
qed

lemma terminal_settled [simp]: "terminal Completed" "terminal Refunded" "terminal Canceled"
  by (simp_all add: terminal_def)

text \<open>What a release or a refund leaves: the order in a terminal status.\<close>

lemma settlement_terminal:
  assumes run: "releaseEscrow env faults now i arg s = (Inr res, s') \<or> refundEscrow env faults now i adm s = (Inr res, s')"
    and v: "\<And>ord. t_find o_id i (orders s) = Some ord \<Longrightarrow> order_valid ord"
  shows "t_find o_id i (orders s') = Some res" "terminal (o_status res)"
proof -
  have "t_find o_id i (orders s') = Some res \<and> terminal (o_status res)"
    using run
  proof
    assume r: "releaseEscrow env faults now i arg s = (Inr res, s')"
    show ?thesis by (rule releaseEscrow_Inr [OF r v]) (auto simp: escrow_step_def order_changed_def)
  next
    assume r: "refundEscrow env faults now i adm s = (Inr res, s')"
    show ?thesis by (rule refundEscrow_Inr [OF r v]) (auto simp: escrow_step_def order_changed_def)
  qed
  then show "t_find o_id i (orders s') = Some res" "terminal (o_status res)" by blast+
qed

section \<open>Properties\<close>

text \<open>
  C4: when \<open>lockEscrow\<close> returns, the order was pending and the caller is its buyer; the seller's escrow
  balance grew by the order amount and no other wallet balance moved; the ledger holds the capture's entry, and
  unless it was there before (no reachable state has it for a pending order), the seller's escrow account was
  credited and the provider clearing account debited with the amount, and no other account moved; the fee stored
  is the floor of the configured
  share; the product was active with enough stock and lost exactly the ordered quantity; the order is now paid,
  or delivered when the product delivers instantly.
\<close>

theorem capture_effect:
  assumes run: "lockEscrow env faults now i b p ext act s = (Inr res, s')"
    and ord: "t_find o_id i (orders s) = Some ord" and v: "order_valid ord"
  shows "o_status ord = Pending \<and> o_buyer ord = b \<and> t_find o_id i (orders s') = Some res \<and>
    o_fee res = (o_amount ord * PLATFORM_FEE_BPS env) div 10000 \<and>
    (\<forall>a. wallet_money s' a = wallet_money s a +
       (if a = Held (o_seller ord) (o_currency ord) then o_amount ord else 0)) \<and>
    capture_key i \<in> ledger_keys s' \<and>
    (\<forall>x. account_balance (ledger_lines s') x = account_balance (ledger_lines s) x +
       (if capture_key i \<in> ledger_keys s then 0
        else if x = sellerEscrow (o_currency ord) (o_seller ord) then o_amount ord
        else if x = providerClearing (o_currency ord) then - o_amount ord else 0)) \<and>
    (\<exists>pr. t_find p_id (o_product ord) (products s) = Some pr \<and> p_status pr = ProdActive \<and>
       o_quantity ord \<le> p_stock pr \<and>
       t_find p_id (o_product ord) (products s') = Some (pr\<lparr>p_stock := p_stock pr - o_quantity ord\<rparr>) \<and>
       o_status res = (if p_delivery_type pr = Instant \<and> truthy (p_delivery_template pr) then Delivered else Paid))"
proof -
  have v': "\<And>x. t_find o_id i (orders s) = Some x \<Longrightarrow> order_valid x" using ord v by simp
  show ?thesis
  proof (rule lockEscrow_Inr [OF run v'], goal_cases)
    case (2 x pr)
    then have x: "x = ord" using ord by (auto simp: escrow_step_def order_changed_def)
    have "\<exists>pr. t_find p_id (o_product ord) (products s) = Some pr \<and> p_status pr = ProdActive \<and> o_quantity ord \<le> p_stock pr \<and>
        t_find p_id (o_product ord) (products s') = Some (pr\<lparr>p_stock := p_stock pr - o_quantity ord\<rparr>) \<and>
        o_status res = (if p_delivery_type pr = Instant \<and> truthy (p_delivery_template pr) then Delivered else Paid)"
      using 2(4-7,9) x by (intro exI [of _ pr]) (simp add: deliversInstantly_def t_find_upd)
    moreover have "o_fee res = (o_amount ord * PLATFORM_FEE_BPS env) div 10000" using 2(8) x by (auto dest: cents_fee_Inr)
    moreover have "capture_booked ord s s'" using 2(11) x by simp
    ultimately show ?case
      using 2(1-3,10) x
      by (simp add: escrow_step_def order_changed_def money_step_def acct_delta_def capture_booked_def)
  qed
qed

text \<open>
  C5: when \<open>releaseEscrow\<close> returns, the order was delivered or disputed and is completed; the seller's escrow
  fell by the amount, the seller's available balance rose by the amount less the stored fee, the platform's
  revenue rose by that fee, and no other balance moved, so the release creates and destroys no money.
\<close>

theorem release_effect:
  assumes run: "releaseEscrow env faults now i arg s = (Inr res, s')"
    and ord: "t_find o_id i (orders s) = Some ord" and v: "order_valid ord"
  shows "o_status ord \<in> {Delivered, Disputed} \<and> o_status res = Completed \<and> t_find o_id i (orders s') = Some res \<and>
    wallet_money s' (Held (o_seller ord) (o_currency ord)) =
      wallet_money s (Held (o_seller ord) (o_currency ord)) - o_amount ord \<and>
    wallet_money s' (Payable (o_seller ord) (o_currency ord)) =
      wallet_money s (Payable (o_seller ord) (o_currency ord)) + (o_amount ord - o_fee ord) \<and>
    wallet_money s' (Fees (o_currency ord)) = wallet_money s (Fees (o_currency ord)) + o_fee ord \<and>
    (\<forall>a. a \<notin> {Held (o_seller ord) (o_currency ord), Payable (o_seller ord) (o_currency ord), Fees (o_currency ord)} \<longrightarrow>
       wallet_money s' a = wallet_money s a)"
proof -
  have v': "\<And>x. t_find o_id i (orders s) = Some x \<Longrightarrow> order_valid x" using ord v by simp
  show ?thesis
  proof (rule releaseEscrow_Inr [OF run v'], goal_cases)
    case (2 x)
    then have x: "x = ord" using ord by (auto simp: escrow_step_def order_changed_def)
    have "o_status ord \<in> {Delivered, Disputed}"
      using 2(2) x by (auto simp: releaseTransition_def split: ReleaseSource.splits)
    with 2 x show ?case
      by (auto simp: escrow_step_def order_changed_def money_step_def release_delta_def acct_delta_def)
  qed
qed

text \<open>
  C6: when \<open>refundEscrow\<close> returns, the order was in escrow and is refunded; the seller's escrow fell by the
  amount, the buyer's available balance rose by the full amount (no fee is kept), and no other balance moved.
\<close>

theorem refund_effect:
  assumes run: "refundEscrow env faults now i adm s = (Inr res, s')"
    and ord: "t_find o_id i (orders s) = Some ord" and v: "order_valid ord"
  shows "o_status ord \<in> {Paid, InProgress, Delivered, Disputed} \<and> o_status res = Refunded \<and>
    t_find o_id i (orders s') = Some res \<and>
    wallet_money s' (Held (o_seller ord) (o_currency ord)) =
      wallet_money s (Held (o_seller ord) (o_currency ord)) - o_amount ord \<and>
    wallet_money s' (Payable (o_buyer ord) (o_currency ord)) =
      wallet_money s (Payable (o_buyer ord) (o_currency ord)) + o_amount ord \<and>
    (\<forall>a. a \<notin> {Held (o_seller ord) (o_currency ord), Payable (o_buyer ord) (o_currency ord)} \<longrightarrow>
       wallet_money s' a = wallet_money s a)"
proof -
  have v': "\<And>x. t_find o_id i (orders s) = Some x \<Longrightarrow> order_valid x" using ord v by simp
  show ?thesis
  proof (rule refundEscrow_Inr [OF run v'], goal_cases)
    case (2 x)
    then have x: "x = ord" using ord by (auto simp: escrow_step_def order_changed_def)
    have "o_status ord \<in> {Paid, InProgress, Delivered, Disputed}"
      using 2(2) x by (auto simp: refundTransition_def split: if_splits)
    with 2 x show ?case
      by (auto simp: escrow_step_def order_changed_def money_step_def refund_delta_def acct_delta_def)
  qed
qed

text \<open>
  C8: a failed escrow operation is atomic: when capture, release or refund throws, whatever the point of
  failure or the number of retries, every table of the database is as it was; only the read cache and the
  memory of the simulated payment providers may differ. (A commit that took effect but whose reply was lost is not
  modelled.)
\<close>

theorem escrow_failure_atomic:
  assumes "op \<in> {lockEscrow env faults now i b p ext act, releaseEscrow env faults now i arg,
    refundEscrow env faults now i adm}"
    and "op s = (Inl e, s')"
  shows "s' = s\<lparr>cache := cache s', captured := captured s'\<rparr>"
proof -
  have "\<exists>t. s' = rollback s t"
    using assms unfolding lockEscrow_def releaseEscrow_def refundEscrow_def
    by (auto dest: tx_then_caches_error)
  then show ?thesis by (auto simp: rollback_def)
qed

text \<open>
  Only currencies with a platform wallet row can be settled in the seller's favour: a release of an order
  that carries a fee in a currency without such a row always throws, so its escrow can only be refunded.
\<close>

theorem release_needs_platform_wallet:
  assumes "t_find o_id i (orders s) = Some ord" "0 < o_fee ord"
    and "t_find pw_currency (o_currency ord) (platform_wallets s) = None"
  shows "isl (fst (releaseEscrow env faults now i arg s))"
proof (rule ccontr)
  assume "\<not> isl (fst (releaseEscrow env faults now i arg s))"
  from tx_returns [OF this] obtain res s' where "releaseEscrow env faults now i arg s = (Inr res, s')" by blast
  then obtain s1 where "inSerializableTx 3 faults (releaseEscrowTx env now i (releaseOptions arg)) s = (Inr res, s1)"
    by (auto simp: releaseEscrow_def tx_simps)
  from serial.run_ok [OF this] obtain t where
    "releaseEscrowTx env now i (releaseOptions arg) (rollback s t) = (Inr res, s1)" by blast
  then obtain m s2 inp s3 y where
    msg: "releaseMessage env i (releaseOptions arg) (rollback s t) = (Inr m, s2)"
    and tr: "transitionOrder env now inp s2 = (Inr res, s3)"
    and mon: "releaseMoney env ord (ro_admin (releaseOptions arg)) s3 = (Inr y, s1)"
    using assms(1) unfolding releaseEscrowTx_def by (force simp: tx_simps case_prod_beta Let_def)
  have "platform_wallets s2 = platform_wallets s"
    using side_step_fields(5) [OF side.keepsD [OF side_releaseMessage msg]] by simp
  moreover have "platform_wallets s3 = platform_wallets s2"
    using tr by (cases rule: transitionOrder_cases) (auto simp: order_moved_def dest: side_step_fields(5))
  ultimately have "t_find pw_currency (o_currency ord) (platform_wallets s3) = None" using assms(3) by simp
  then have "\<And>v. nextRevenue ord (o_fee ord) v \<noteq> (Inr nx, v') \<or> platform_wallets v \<noteq> platform_wallets s3" for nx v'
    using assms(2) by (auto simp: nextRevenue_Inr)
  moreover have "\<exists>v nx v'. nextRevenue ord (o_fee ord) v = (Inr nx, v') \<and> platform_wallets v = platform_wallets s3"
    using mon ensureWallet_Inr(2) unfolding releaseMoney_def by (fastforce simp: tx_simps Let_def)
  ultimately show False by blast
qed

section \<open>Witnesses\<close>

definition no_faults :: "nat \<Rightarrow> string option" where
  "no_faults i = None"

definition paid0 :: "order_row result \<times> db" where
  "paid0 = lockEscrow env0 no_faults 7 ''o1'' ''buyer'' ManualTransfer (Some ''ref'') None db0"

definition delivered0 :: db where
  "delivered0 = orders_update (t_upd o_id ''o1'' (\<lambda>r. r\<lparr>o_status := Delivered\<rparr>)) (snd paid0)"

definition released0 :: "order_row result \<times> db" where
  "released0 = releaseEscrow env0 no_faults 9 ''o1''
     (OptionsArg \<lparr>ro_admin = None, ro_source = Some SrcBuyerConfirmed, ro_actor = Some ''buyer''\<rparr>) delivered0"

definition refunded0 :: "order_row result \<times> db" where
  "refunded0 = refundEscrow env0 no_faults 9 ''o1'' None delivered0"

lemma paid0_runs: "\<not> isl (fst paid0)" by code_simp
lemma released0_runs: "\<not> isl (fst released0)" by code_simp
lemma refunded0_runs: "\<not> isl (fst refunded0)" by code_simp

lemma order0_found: "t_find o_id ''o1'' (orders db0) = Some order0" by code_simp

lemma order0_valid: "order_valid order0" by code_simp

definition order1 :: order_row where
  "order1 = the (t_find o_id ''o1'' (orders delivered0))"

lemma order1_found: "t_find o_id ''o1'' (orders delivered0) = Some order1" by code_simp
lemma order1_valid: "order_valid order1" by code_simp
lemma order1_fields: "o_seller order1 = ''seller''" "o_buyer order1 = ''buyer''" "o_currency order1 = ''USD''"
    "o_amount order1 = 1000" "o_fee order1 = 50"
  by code_simp+

theorem capture_effect_witness:
  "\<exists>res s'. paid0 = (Inr res, s') \<and> o_fee res = 50 \<and>
     wallet_money s' (Held ''seller'' ''USD'') = wallet_money db0 (Held ''seller'' ''USD'') + 1000 \<and>
     account_balance (ledger_lines s') ''asset:provider-clearing:USD'' =
       account_balance (ledger_lines db0) ''asset:provider-clearing:USD'' - 1000"
proof -
  obtain res s' where r: "paid0 = (Inr res, s')" using tx_returns [OF paid0_runs] by blast
  have "capture_key ''o1'' \<notin> ledger_keys db0" by code_simp
  moreover have "''asset:provider-clearing:USD'' = providerClearing ''USD''" by code_simp
  moreover have "providerClearing ''USD'' \<noteq> sellerEscrow ''USD'' ''seller''" by code_simp
  ultimately show ?thesis
    using capture_effect [OF r [unfolded paid0_def] order0_found order0_valid] r
    by (intro exI [of _ res] exI [of _ s']) (simp add: order0_def env0_def)
qed

theorem release_effect_witness:
  "\<exists>res s'. released0 = (Inr res, s') \<and>
     wallet_money s' (Payable ''seller'' ''USD'') = wallet_money delivered0 (Payable ''seller'' ''USD'') + 950 \<and>
     wallet_money s' (Fees ''USD'') = wallet_money delivered0 (Fees ''USD'') + 50"
proof -
  obtain res s' where r: "released0 = (Inr res, s')" using tx_returns [OF released0_runs] by blast
  from release_effect [OF r [unfolded released0_def] order1_found order1_valid] r show ?thesis
    by (intro exI [of _ res] exI [of _ s']) (simp add: order1_fields)
qed

theorem refund_effect_witness:
  "\<exists>res s'. refunded0 = (Inr res, s') \<and>
     wallet_money s' (Payable ''buyer'' ''USD'') = wallet_money delivered0 (Payable ''buyer'' ''USD'') + 1000"
proof -
  obtain res s' where r: "refunded0 = (Inr res, s')" using tx_returns [OF refunded0_runs] by blast
  from refund_effect [OF r [unfolded refunded0_def] order1_found order1_valid] r show ?thesis
    by (intro exI [of _ res] exI [of _ s']) (simp add: order1_fields)
qed

theorem escrow_failure_atomic_witness:
  "\<exists>e s'. releaseEscrow env0 no_faults 9 ''o1'' NoArg db0 = (Inl e, s') \<and> orders s' = orders db0 \<and> wallets s' = wallets db0"
proof -
  have "isl (fst (releaseEscrow env0 no_faults 9 ''o1'' NoArg db0))" by code_simp
  then obtain e s' where r: "releaseEscrow env0 no_faults 9 ''o1'' NoArg db0 = (Inl e, s')"
    by (cases "releaseEscrow env0 no_faults 9 ''o1'' NoArg db0"; cases "fst (releaseEscrow env0 no_faults 9 ''o1'' NoArg db0)") auto
  have "s' = db0\<lparr>cache := cache s', captured := captured s'\<rparr>"
    by (rule escrow_failure_atomic [where op = "releaseEscrow env0 no_faults 9 ''o1'' NoArg", OF _ r]) blast
  from arg_cong [OF this, of orders] arg_cong [OF this, of wallets] r show ?thesis by simp
qed

definition eur0 :: db where
  "eur0 = orders_update (t_upd o_id ''o1'' (\<lambda>r. r\<lparr>o_currency := ''EUR''\<rparr>)) delivered0"

theorem release_needs_platform_wallet_witness:
  "isl (fst (releaseEscrow env0 no_faults 9 ''o1'' NoArg eur0)) \<and> \<not> isl (fst (releaseEscrow env0 no_faults 9 ''o1'' NoArg delivered0))"
proof -
  have "t_find o_id ''o1'' (orders eur0) = Some (order1\<lparr>o_currency := ''EUR''\<rparr>)" by code_simp
  moreover have "0 < o_fee (order1\<lparr>o_currency := ''EUR''\<rparr>)" by (simp add: order1_fields)
  moreover have "t_find pw_currency (o_currency (order1\<lparr>o_currency := ''EUR''\<rparr>)) (platform_wallets eur0) = None" by code_simp
  ultimately have "isl (fst (releaseEscrow env0 no_faults 9 ''o1'' NoArg eur0))"
    by (rule release_needs_platform_wallet)
  moreover have "\<not> isl (fst (releaseEscrow env0 no_faults 9 ''o1'' NoArg delivered0))" by code_simp
  ultimately show ?thesis by blast
qed

end
