(* ===== verification/Disputes.thy ===== *)
theory Disputes
  imports EscrowOps "HOL-Library.Product_Lexorder" "HOL-Library.List_Lexorder" "HOL-Library.Char_ord"
begin

text \<open>
  Disputes: opening one (\<open>modules/disputes/disputes.routes.ts\<close>) and the resolution state machine of
  \<open>modules/disputes/dispute-resolution.service.ts\<close>. A resolution is three transactions, each committed on its
  own: the claim, the escrow operation and the finalisation; between them the process may crash, and the
  recovery job takes the claim up again. \<open>now\<close> is the time of the call.
\<close>

section \<open>Checks\<close>

definition STALE_RESOLUTION_MS :: int where
  "STALE_RESOLUTION_MS = 15 * 60 * 1000"

definition LAST_ERROR_MAX_LENGTH :: nat where
  "LAST_ERROR_MAX_LENGTH = 1000"

definition terminalDecision :: "OrderStatus \<Rightarrow> DisputeDecision option" where
  "terminalDecision st = (if st = Refunded then Some Refund else if st = Completed then Some Release else None)"

definition sanitizedError :: "env \<Rightarrow> err \<Rightarrow> string" where
  "sanitizedError env e = take LAST_ERROR_MAX_LENGTH (error_message env e)"

definition assertDecisionMatches :: "DisputeDecision option \<Rightarrow> DisputeDecision \<Rightarrow> unit result" where
  "assertDecisionMatches persisted requested = (case persisted of
       Some p \<Rightarrow> if p \<noteq> requested
         then Inl (conflict (''Dispute resolution is already claimed for '' @ decisionName p)) else Inr ()
     | None \<Rightarrow> Inr ())"

definition assertOperationMatches :: "uuid option \<Rightarrow> uuid option \<Rightarrow> unit result" where
  "assertOperationMatches persisted expected =
     (if truthy expected \<and> persisted \<noteq> expected then Inl (conflict ''Dispute resolution operation changed'')
      else Inr ())"

definition selectResolutionForUpdate :: "uuid \<Rightarrow> (dispute_row \<times> order_row) dbtx" where
  "selectResolutionForUpdate disputeId =
     tx_bind (tx_gets (\<lambda>s. case t_find d_id disputeId (disputes s) of
         None \<Rightarrow> None
       | Some d \<Rightarrow> (case t_find o_id (d_order d) (orders s) of None \<Rightarrow> None | Some ord \<Rightarrow> Some (d, ord)))) (\<lambda>row.
     tx_some row (notFound ''Dispute not found''))"

definition assertOrderCanContinue :: "OrderStatus \<Rightarrow> DisputeDecision \<Rightarrow> unit result" where
  "assertOrderCanContinue st decision = (case terminalDecision st of
       Some applied \<Rightarrow> if applied \<noteq> decision
         then Inl (conflict (''Order already has the opposite resolution: '' @ decisionName applied)) else Inr ()
     | None \<Rightarrow> if st \<noteq> Disputed
         then Inl (conflict (''Order cannot be resolved from status '' @ orderStatusName st)) else Inr ())"

section \<open>The claim\<close>

record ResolutionClaim =
  rc_row :: dispute_row
  rc_order :: order_row
  rc_execute :: bool
  rc_resolved :: bool

definition updateDispute :: "uuid \<Rightarrow> (dispute_row \<Rightarrow> dispute_row) \<Rightarrow> unit dbtx" where
  "updateDispute i f = tx_modify (disputes_update (t_upd d_id i f))"

text \<open>The three claiming updates: a first claim, a retry after a failure, taking over a stale claim.\<close>

definition firstClaim :: "time \<Rightarrow> DisputeDecision \<Rightarrow> uuid \<Rightarrow> uuid \<Rightarrow> string \<Rightarrow> dispute_row \<Rightarrow> dispute_row" where
  "firstClaim now decision operationId adminId adminNote d = d\<lparr>d_status := DResolving, d_decision := Some decision,
     d_operation := Some operationId, d_admin := Some adminId, d_admin_note := Some adminNote,
     d_started_at := Some now, d_attempts := 1, d_last_error := None\<rparr>"

definition retryClaim :: "time \<Rightarrow> dispute_row \<Rightarrow> dispute_row" where
  "retryClaim now d = d\<lparr>d_status := DResolving, d_started_at := Some now, d_attempts := Suc (d_attempts d),
     d_last_error := None\<rparr>"

definition reclaim :: "time \<Rightarrow> dispute_row \<Rightarrow> dispute_row" where
  "reclaim now d = d\<lparr>d_started_at := Some now, d_attempts := Suc (d_attempts d), d_last_error := None\<rparr>"

definition claimWith :: "uuid \<Rightarrow> (dispute_row \<Rightarrow> dispute_row) \<Rightarrow> dispute_row \<Rightarrow> order_row \<Rightarrow> ResolutionClaim dbtx" where
  "claimWith disputeId f d ord =
     tx_bind (updateDispute disputeId f) (\<lambda>_.
     tx_return \<lparr>rc_row = f d, rc_order = ord, rc_execute = (terminalDecision (o_status ord) = None), rc_resolved = False\<rparr>)"

definition isStale :: "time \<Rightarrow> dispute_row \<Rightarrow> bool" where
  "isStale now d \<longleftrightarrow> (case d_started_at d of Some t \<Rightarrow> t | None \<Rightarrow> 0) \<le> now - STALE_RESOLUTION_MS"

text \<open>The branches on the dispute's status, after the checks.\<close>

definition claimByStatus ::
  "env \<Rightarrow> time \<Rightarrow> uuid \<Rightarrow> DisputeDecision \<Rightarrow> uuid \<Rightarrow> string \<Rightarrow> bool \<Rightarrow> dispute_row \<Rightarrow> order_row \<Rightarrow> ResolutionClaim dbtx" where
  "claimByStatus env now disputeId decision adminId adminNote allowStale d ord = (case d_status d of
       DResolved \<Rightarrow> tx_return \<lparr>rc_row = d, rc_order = ord, rc_execute = False, rc_resolved = True\<rparr>
     | DOpen \<Rightarrow> tx_bind (gen_random_uuid env) (\<lambda>operationId.
         claimWith disputeId (firstClaim now decision operationId adminId adminNote) d ord)
     | DResolutionFailed \<Rightarrow> claimWith disputeId (retryClaim now) d ord
     | DResolving \<Rightarrow>
         if terminalDecision (o_status ord) = Some decision
         then tx_return \<lparr>rc_row = d, rc_order = ord, rc_execute = False, rc_resolved = False\<rparr>
         else tx_bind (tx_guard (allowStale \<and> isStale now d)
             (conflict ''Dispute resolution is already in progress'')) (\<lambda>_.
           claimWith disputeId (reclaim now) d ord))"

definition claimResolution ::
  "env \<Rightarrow> time \<Rightarrow> uuid \<Rightarrow> DisputeDecision \<Rightarrow> uuid \<Rightarrow> string \<Rightarrow> uuid option \<Rightarrow> bool \<Rightarrow> ResolutionClaim dbtx" where
  "claimResolution env now disputeId decision adminId adminNote expectedOperationId allowStale = inTx (
     tx_bind (selectResolutionForUpdate disputeId) (\<lambda>row.
     tx_bind (tx_lift (assertDecisionMatches (d_decision (fst row)) decision)) (\<lambda>_.
     tx_bind (tx_lift (assertOperationMatches (d_operation (fst row)) expectedOperationId)) (\<lambda>_.
     tx_bind (tx_lift (assertOrderCanContinue (o_status (snd row)) decision)) (\<lambda>_.
     claimByStatus env now disputeId decision adminId adminNote allowStale (fst row) (snd row))))))"

section \<open>Finalisation\<close>

definition resolvedDispute :: "time \<Rightarrow> dispute_row \<Rightarrow> dispute_row" where
  "resolvedDispute now d = d\<lparr>d_status := DResolved, d_resolution := d_decision d,
     d_resolved_at := (case d_resolved_at d of Some t \<Rightarrow> Some t | None \<Rightarrow> Some now), d_last_error := None\<rparr>"

definition resolutionRecords ::
  "env \<Rightarrow> time \<Rightarrow> dispute_row \<Rightarrow> order_row \<Rightarrow> DisputeDecision \<Rightarrow> uuid \<Rightarrow> outbox_row dbtx" where
  "resolutionRecords env now resolved ord decision operationId =
     (let metadata = [(''decision'', JStr (decisionName decision)), (''operationId'', JStr operationId)] in
     tx_bind (recordOrderEvent env now
       \<lparr>ei_order = d_order resolved, ei_actor = d_admin resolved, ei_type = ''dispute_resolved'',
        ei_template = Some ''orderEvents.disputeResolved'', ei_params = None, ei_title = None,
        ei_body = d_admin_note resolved, ei_metadata = metadata\<rparr>) (\<lambda>_.
     tx_bind (createOrderSystemMessage env (d_order resolved) ''dispute_resolved'' ''system.disputeResolved''
       (Some [(''note'', JStr (case d_admin_note resolved of Some n \<Rightarrow> n | None \<Rightarrow> []))]) metadata) (\<lambda>resolutionMessage.
     tx_bind (createOrderSystemMessage env (d_order resolved)
       (if decision = Refund then ''refunded'' else ''escrow_released'')
       (if decision = Refund then ''system.refunded'' else ''system.fundsReleased'') None []) (\<lambda>outcomeMessage.
     enqueueDomainEvent env now
       \<lparr>oi_key = ''dispute.resolved:'' @ d_id resolved @ '':'' @ operationId, oi_type = ''dispute.resolved'',
        oi_aggregate_type = ''dispute'', oi_aggregate_id = d_id resolved,
        oi_payload = JObj [(''disputeId'', JStr (d_id resolved)), (''orderId'', JStr (d_order resolved)),
          (''buyerId'', JStr (o_buyer ord)), (''sellerId'', JStr (o_seller ord)),
          (''decision'', JStr (decisionName decision)),
          (''systemMessageIds'', json_strings (map ms_id (List.map_filter (\<lambda>m. m) [resolutionMessage, outcomeMessage])))]\<rparr>))))"

definition finalizeRow ::
  "env \<Rightarrow> time \<Rightarrow> uuid \<Rightarrow> DisputeDecision \<Rightarrow> uuid \<Rightarrow> dispute_row \<Rightarrow> order_row \<Rightarrow> (dispute_row \<times> order_row \<times> bool) option dbtx" where
  "finalizeRow env now disputeId decision operationId d ord =
     (if d_status d = DResolved then tx_return (Some (d, ord, False))
      else if terminalDecision (o_status ord) \<noteq> Some decision then tx_return None
      else
        tx_bind (updateDispute disputeId (resolvedDispute now)) (\<lambda>_.
        tx_bind (resolutionRecords env now (resolvedDispute now d) ord decision operationId) (\<lambda>_.
        tx_return (Some (resolvedDispute now d, ord, True)))))"

definition finalizeTx ::
  "env \<Rightarrow> time \<Rightarrow> uuid \<Rightarrow> DisputeDecision \<Rightarrow> uuid \<Rightarrow> (dispute_row \<times> order_row \<times> bool) option dbtx" where
  "finalizeTx env now disputeId decision operationId =
     tx_bind (selectResolutionForUpdate disputeId) (\<lambda>row.
     tx_bind (tx_lift (assertDecisionMatches (d_decision (fst row)) decision)) (\<lambda>_.
     tx_bind (tx_lift (assertOperationMatches (d_operation (fst row)) (Some operationId))) (\<lambda>_.
     finalizeRow env now disputeId decision operationId (fst row) (snd row))))"

definition evictFinalized :: "env \<Rightarrow> (dispute_row \<times> order_row \<times> bool) option \<Rightarrow> unit dbtx" where
  "evictFinalized env finalized = (case finalized of
       Some (d, ord, newly) \<Rightarrow> tx_when newly
         (invalidateOrderParticipantReadCaches env (d_order d) (o_buyer ord) (o_seller ord) False False)
     | None \<Rightarrow> tx_return ())"

definition finalizeIfApplied ::
  "env \<Rightarrow> time \<Rightarrow> uuid \<Rightarrow> DisputeDecision \<Rightarrow> uuid \<Rightarrow> (dispute_row \<times> order_row \<times> bool) option dbtx" where
  "finalizeIfApplied env now disputeId decision operationId =
     tx_bind (inTx (finalizeTx env now disputeId decision operationId)) (\<lambda>finalized.
     tx_bind (evictFinalized env finalized) (\<lambda>_.
     tx_return finalized))"

definition markResolutionFailed :: "env \<Rightarrow> uuid \<Rightarrow> uuid \<Rightarrow> err \<Rightarrow> unit dbtx" where
  "markResolutionFailed env disputeId operationId e =
     updateDispute disputeId (\<lambda>d. if d_operation d = Some operationId \<and> d_status d = DResolving
       then d\<lparr>d_status := DResolutionFailed, d_last_error := Some (sanitizedError env e)\<rparr> else d)"

section \<open>The resolution\<close>

record DisputeResolutionResult =
  rr_dispute :: dispute_row
  rr_order :: "order_row option"
  rr_newly :: bool
  rr_executed :: bool
  rr_operation :: uuid

definition runEscrow ::
  "env \<Rightarrow> (nat \<Rightarrow> string option) \<Rightarrow> time \<Rightarrow> DisputeDecision \<Rightarrow> uuid \<Rightarrow> uuid \<Rightarrow> order_row dbtx" where
  "runEscrow env faults now decision orderId adminId = (case decision of
       Refund \<Rightarrow> refundEscrow env faults now orderId (Some adminId)
     | Release \<Rightarrow> releaseEscrow env faults now orderId
         (OptionsArg \<lparr>ro_admin = Some adminId, ro_source = Some SrcDispute, ro_actor = None\<rparr>))"

text \<open>After the escrow step, or without one: the dispute is finalised or marked failed.\<close>

definition finishResolution ::
  "env \<Rightarrow> time \<Rightarrow> uuid \<Rightarrow> DisputeDecision \<Rightarrow> uuid \<Rightarrow> order_row option \<Rightarrow> bool \<Rightarrow> DisputeResolutionResult dbtx" where
  "finishResolution env now disputeId decision operationId order escrowExecuted =
     tx_bind (finalizeIfApplied env now disputeId decision operationId) (\<lambda>finalized.
     case finalized of
       None \<Rightarrow>
         (let e = conflict ''Escrow operation did not reach the expected terminal order status'' in
          tx_bind (markResolutionFailed env disputeId operationId e) (\<lambda>_. tx_throw e))
     | Some (d, ord, newly) \<Rightarrow>
         tx_return \<lparr>rr_dispute = d, rr_order = order, rr_newly = newly, rr_executed = escrowExecuted,
                    rr_operation = operationId\<rparr>)"

text \<open>The \<open>catch\<close> of the escrow step: another worker may have applied the decision already.\<close>

definition escrowFailed ::
  "env \<Rightarrow> time \<Rightarrow> uuid \<Rightarrow> DisputeDecision \<Rightarrow> uuid \<Rightarrow> err \<Rightarrow> DisputeResolutionResult dbtx" where
  "escrowFailed env now disputeId decision operationId e =
     tx_bind (finalizeIfApplied env now disputeId decision operationId) (\<lambda>applied.
     case applied of
       Some (d, ord, newly) \<Rightarrow>
         tx_return \<lparr>rr_dispute = d, rr_order = None, rr_newly = newly, rr_executed = False, rr_operation = operationId\<rparr>
     | None \<Rightarrow> tx_bind (markResolutionFailed env disputeId operationId e) (\<lambda>_. tx_throw e))"

definition resolveDisputeResolution ::
  "env \<Rightarrow> (nat \<Rightarrow> string option) \<Rightarrow> time \<Rightarrow> uuid \<Rightarrow> DisputeDecision \<Rightarrow> uuid \<Rightarrow> string \<Rightarrow> uuid option \<Rightarrow> bool \<Rightarrow>
   DisputeResolutionResult dbtx" where
  "resolveDisputeResolution env faults now disputeId decision adminId adminNote expectedOperationId allowStale =
     tx_bind (claimResolution env now disputeId decision adminId adminNote expectedOperationId allowStale) (\<lambda>claim.
     tx_bind (tx_guard (truthy (d_operation (rc_row claim)))
       (JsError ''Claimed dispute is missing a resolution operation ID'')) (\<lambda>_.
     let operationId = the (d_operation (rc_row claim)) in
     if rc_resolved claim then
       tx_return \<lparr>rr_dispute = rc_row claim, rr_order = None, rr_newly = False, rr_executed = False,
                  rr_operation = operationId\<rparr>
     else if rc_execute claim then
       (\<lambda>s. case runEscrow env faults now decision (d_order (rc_row claim))
               (case d_admin (rc_row claim) of Some a \<Rightarrow> a | None \<Rightarrow> adminId) s of
            (Inr order, s') \<Rightarrow> finishResolution env now disputeId decision operationId (Some order) True s'
          | (Inl e, s') \<Rightarrow> escrowFailed env now disputeId decision operationId e s')
     else finishResolution env now disputeId decision operationId None False))"

section \<open>Recovery\<close>

definition staleDisputes :: "time \<Rightarrow> uuid option \<Rightarrow> db \<Rightarrow> uuid list" where
  "staleDisputes now disputeId s =
     map d_id (take 25 (sort_key (\<lambda>d. (case d_started_at d of Some t \<Rightarrow> t | None \<Rightarrow> 0, d_id d))
       (filter (\<lambda>d. d_status d = DResolving \<and>
          (case d_started_at d of Some t \<Rightarrow> t \<le> now - STALE_RESOLUTION_MS | None \<Rightarrow> False) \<and>
          (case disputeId of None \<Rightarrow> True | Some i \<Rightarrow> d_id d = i)) (disputes s))))"

definition recoverOne ::
  "env \<Rightarrow> (nat \<Rightarrow> string option) \<Rightarrow> time \<Rightarrow> uuid \<Rightarrow> DisputeResolutionResult list dbtx" where
  "recoverOne env faults now disputeId = (\<lambda>s.
     case t_find d_id disputeId (disputes s) of
       None \<Rightarrow> (Inr [], s)
     | Some d \<Rightarrow>
         if d_status d \<noteq> DResolving then (Inr [], s)
         else (case (d_decision d, d_operation d, d_admin d) of
             (Some decision, Some (c # cs), Some (a # as)) \<Rightarrow>
               (case resolveDisputeResolution env faults now disputeId decision (a # as)
                       (case d_admin_note d of Some n \<Rightarrow> n | None \<Rightarrow> ''Recovered stale dispute resolution'')
                       (Some (c # cs)) True s of
                  (Inr r, s') \<Rightarrow> (Inr [r], s')
                | (Inl _, s') \<Rightarrow> (Inr [], s'))
           | _ \<Rightarrow> (Inr [], s)))"

fun recoverEach ::
  "env \<Rightarrow> (nat \<Rightarrow> string option) \<Rightarrow> time \<Rightarrow> uuid list \<Rightarrow> DisputeResolutionResult list dbtx" where
  "recoverEach env faults now [] = tx_return []"
| "recoverEach env faults now (i # is) =
     tx_bind (recoverOne env faults now i) (\<lambda>r.
     tx_bind (recoverEach env faults now is) (\<lambda>rs. tx_return (r @ rs)))"

definition recoverStaleDisputeResolutions ::
  "env \<Rightarrow> (nat \<Rightarrow> string option) \<Rightarrow> time \<Rightarrow> uuid option \<Rightarrow> DisputeResolutionResult list dbtx" where
  "recoverStaleDisputeResolutions env faults now disputeId =
     tx_bind (tx_gets (staleDisputes now disputeId)) (\<lambda>stale. recoverEach env faults now stale)"

section \<open>Opening a dispute\<close>

definition openSchema :: "string \<Rightarrow> string result" where
  "openSchema reason = (if 10 \<le> length reason \<and> length reason \<le> 3000 then Inr reason else Inl (ZodError ''openSchema''))"

record OpenDisputeResult =
  or_dispute :: dispute_row
  or_repeated :: bool
  or_suggested :: bool
  or_order :: order_row

definition newDispute :: "time \<Rightarrow> uuid \<Rightarrow> uuid \<Rightarrow> uuid \<Rightarrow> string \<Rightarrow> dispute_row" where
  "newDispute now did orderId userId reason =
     \<lparr>d_id = did, d_order = orderId, d_opened_by = userId, d_reason = reason, d_status = DOpen, d_resolution = None,
      d_decision = None, d_operation = None, d_started_at = None, d_attempts = 0, d_last_error = None,
      d_admin = None, d_admin_note = None, d_created_at = now, d_resolved_at = None\<rparr>"

definition openDisputeTx :: "env \<Rightarrow> time \<Rightarrow> uuid \<Rightarrow> uuid \<Rightarrow> string \<Rightarrow> OpenDisputeResult dbtx" where
  "openDisputeTx env now userId orderId reason =
     tx_bind (selectOrderForUpdate orderId) (\<lambda>order.
     tx_bind (tx_guard (\<not> (o_buyer order \<noteq> userId \<and> o_seller order \<noteq> userId)) (forbidden ''Forbidden'')) (\<lambda>_.
     let isRepeat = (o_status order = Disputed) in
     tx_bind (tx_guard (\<not> (\<not> isRepeat \<and> \<not> canTransitionOrder (o_status order) Disputed))
       (badRequest ''Only active escrowed orders can be disputed'')) (\<lambda>_.
     if isRepeat then
       tx_bind (tx_gets (\<lambda>s. t_find d_order orderId (disputes s))) (\<lambda>existing.
       tx_bind (tx_some existing (badRequest ''Dispute state is inconsistent'')) (\<lambda>d.
       tx_return \<lparr>or_dispute = d, or_repeated = True,
         or_suggested = (d_opened_by d \<noteq> userId \<or> d_reason d \<noteq> reason), or_order = order\<rparr>))
     else
       tx_bind (gen_random_uuid env) (\<lambda>did.
       let d = newDispute now did orderId userId reason in
       tx_bind (tx_gets (\<lambda>s. t_find d_order orderId (disputes s) = None)) (\<lambda>free.
       tx_bind (tx_guard free (PgError ''23505'')) (\<lambda>_.
       tx_bind (tx_modify (disputes_update (\<lambda>ds. ds @ [d]))) (\<lambda>_.
       tx_bind (createOrderSystemMessage env orderId ''dispute_opened'' ''system.disputeOpened''
         (Some [(''reason'', JStr reason)]) []) (\<lambda>message.
       tx_bind (transitionOrder env now
         \<lparr>ti_order = orderId, ti_to = Disputed, ti_actor = User userId RoleParticipant, ti_reason = DisputeOpened,
          ti_expected = Some [Paid, InProgress, Delivered],
          ti_metadata = [(''disputeId'', JStr did), (''disputeReason'', JStr reason),
            (''systemMessageIds'', json_strings (case message of Some m \<Rightarrow> [ms_id m] | None \<Rightarrow> []))]\<rparr>) (\<lambda>_.
       tx_return \<lparr>or_dispute = d, or_repeated = False, or_suggested = False, or_order = order\<rparr>)))))))))"

definition openDispute :: "env \<Rightarrow> time \<Rightarrow> uuid \<Rightarrow> uuid \<Rightarrow> string \<Rightarrow> OpenDisputeResult dbtx" where
  "openDispute env now userId orderId reason =
     tx_bind (tx_lift (openSchema reason)) (\<lambda>reason.
     tx_bind (inTx (openDisputeTx env now userId orderId reason)) (\<lambda>res.
     if or_repeated res then tx_return res
     else tx_bind (invalidateOrderParticipantReadCaches env orderId (o_buyer (or_order res)) (o_seller (or_order res))
            False False) (\<lambda>_. tx_return res)))"

end
