(* ===== verification/DisputeOps.thy ===== *)
theory DisputeOps
  imports Disputes
begin

text \<open>
  The dispute resolution protocol: what each of its transactions leaves behind, that a resolution moves the
  money once and in the direction decided, and that a crash between its transactions is repaired.
\<close>

section \<open>The transactions\<close>

text \<open>The state check of the \<open>disputes\<close> table, and what a resolved dispute says about its order.\<close>

definition dispute_ok :: "db \<Rightarrow> dispute_row \<Rightarrow> bool" where
  "dispute_ok s d \<longleftrightarrow>
     (d_status d \<noteq> DOpen \<longrightarrow> d_decision d \<noteq> None \<and> truthy (d_operation d)) \<and>
     (d_status d = DOpen \<longrightarrow> d_decision d = None \<and> d_operation d = None) \<and>
     (d_status d = DResolved \<longrightarrow> d_resolution d = d_decision d \<and>
        (\<exists>ord. t_find o_id (d_order d) (orders s) = Some ord \<and> terminalDecision (o_status ord) = d_decision d))"

lemma selectResolution_iff [tx_simps]:
  "selectResolutionForUpdate i s = (Inr row, s') \<longleftrightarrow> s' = s \<and>
     t_find d_id i (disputes s) = Some (fst row) \<and> t_find o_id (d_order (fst row)) (orders s) = Some (snd row)"
  by (cases row) (auto simp: selectResolutionForUpdate_def tx_simps split: option.splits)

lemma assertDecisionMatches_Inr [simp]:
  "assertDecisionMatches p r = Inr u \<longleftrightarrow> p = None \<or> p = Some r"
  by (cases p) (auto simp: assertDecisionMatches_def)

lemma assertOperationMatches_Inr [simp]:
  "assertOperationMatches p e = Inr u \<longleftrightarrow> (truthy e \<longrightarrow> p = e)"
  by (auto simp: assertOperationMatches_def)

lemma assertOrderCanContinue_Inr [simp]:
  "assertOrderCanContinue st dec = Inr u \<longleftrightarrow> terminalDecision st = Some dec \<or> st = Disputed"
  by (auto simp: assertOrderCanContinue_def terminalDecision_def)

definition dispute_changed :: "uuid \<Rightarrow> (dispute_row \<Rightarrow> dispute_row) \<Rightarrow> db \<Rightarrow> db \<Rightarrow> bool" where
  "dispute_changed i f s s' \<longleftrightarrow> (\<forall>d. d_id (f d) = d_id d) \<and>
     (\<exists>n. uuid_ctr s \<le> n \<and> s' = s\<lparr>uuid_ctr := n, disputes := t_upd d_id i f (disputes s)\<rparr>)"

lemma t_upd_id: "t_upd key k (\<lambda>r. r) rows = rows"
  by (induction rows) auto

lemma claimResolution_Inr:
  assumes run: "claimResolution env now i dec adm note ex st s = (Inr c, s')"
    and ids: "\<And>n. gen_uuid env n \<noteq> []"
    and ok: "\<And>d. t_find d_id i (disputes s) = Some d \<Longrightarrow> dispute_ok s d"
  obtains (resolved) d where "s' = s" "rc_resolved c" "rc_row c = d" "t_find d_id i (disputes s) = Some d"
      "d_status d = DResolved" "d_decision d = Some dec" "truthy (d_operation d)"
  | (claimed) d f where "\<not> rc_resolved c" "t_find d_id i (disputes s) = Some d" "rc_row c = f d"
      "t_find o_id (d_order d) (orders s) = Some (rc_order c)" "dispute_changed i f s s'"
      "d_status (f d) = DResolving" "d_decision (f d) = Some dec" "truthy (d_operation (f d))" "d_order (f d) = d_order d"
      "d_resolved_at (f d) = d_resolved_at d"
      "terminalDecision (o_status (rc_order c)) = Some dec \<or> o_status (rc_order c) = Disputed"
      "rc_execute c = (o_status (rc_order c) = Disputed)" "d_status d \<noteq> DResolved"
      "d_status d = DResolving \<Longrightarrow> d_operation (f d) = d_operation d \<and> d_admin (f d) = d_admin d"
proof -
  from run obtain d ord where d: "t_find d_id i (disputes s) = Some d" and ord: "t_find o_id (d_order d) (orders s) = Some ord"
    and dec: "d_decision d = None \<or> d_decision d = Some dec"
    and can: "terminalDecision (o_status ord) = Some dec \<or> o_status ord = Disputed"
    and k: "claimByStatus env now i dec adm note st d ord s = (Inr c, s')"
    unfolding claimResolution_def inTx_iff by (auto simp: tx_simps)
  have o: "dispute_ok s d" by (rule ok [OF d])
  have td: "(terminalDecision (o_status ord) = None) = (o_status ord = Disputed)"
    using can by (auto simp: terminalDecision_def split: if_splits)
  note cw = claimByStatus_def claimWith_def updateDispute_def
  show thesis
  proof (cases "d_status d")
    case DOpen
    let ?f = "firstClaim now dec (gen_uuid env (uuid_ctr s)) adm note"
    from k DOpen have "s' = s\<lparr>uuid_ctr := Suc (uuid_ctr s), disputes := t_upd d_id i ?f (disputes s)\<rparr>"
      and c: "c = \<lparr>rc_row = ?f d, rc_order = ord, rc_execute = (terminalDecision (o_status ord) = None), rc_resolved = False\<rparr>"
      by (auto simp: cw tx_simps)
    then have "dispute_changed i ?f s s'" by (auto simp: dispute_changed_def firstClaim_def intro!: exI [of _ "Suc (uuid_ctr s)"])
    moreover have "truthy (d_operation (?f d))"
      using ids [of "uuid_ctr s"] by (cases "gen_uuid env (uuid_ctr s)") (simp_all add: truthy_def firstClaim_def)
    ultimately show thesis
      using d ord c can td DOpen by (intro claimed [of d ?f]) (auto simp: firstClaim_def)
  next
    case DResolving
    show thesis
    proof (cases "terminalDecision (o_status ord) = Some dec")
      case True
      with k DResolving have s': "s' = s" and c: "c = \<lparr>rc_row = d, rc_order = ord, rc_execute = False, rc_resolved = False\<rparr>"
        by (auto simp: cw tx_simps)
      have "dispute_changed i (\<lambda>d. d) s s'" by (auto simp: dispute_changed_def s' t_upd_id intro!: exI [of _ "uuid_ctr s"])
      then show thesis using d ord c can td DResolving o dec True
        by (intro claimed [of d "\<lambda>d. d"]) (auto simp: dispute_ok_def)
    next
      case False
      with k DResolving have s': "s' = s\<lparr>disputes := t_upd d_id i (reclaim now) (disputes s)\<rparr>"
        and c: "c = \<lparr>rc_row = reclaim now d, rc_order = ord, rc_execute = (terminalDecision (o_status ord) = None), rc_resolved = False\<rparr>"
        by (auto simp: cw tx_simps)
      have "dispute_changed i (reclaim now) s s'"
        by (auto simp: dispute_changed_def s' reclaim_def intro!: exI [of _ "uuid_ctr s"])
      then show thesis using d ord c can td DResolving o dec
        by (intro claimed [of d "reclaim now"]) (auto simp: dispute_ok_def reclaim_def)
    qed
  next
    case DResolved
    with k o d dec show thesis by (intro resolved [of d]) (auto simp: cw tx_simps dispute_ok_def)
  next
    case DResolutionFailed
    with k have s': "s' = s\<lparr>disputes := t_upd d_id i (retryClaim now) (disputes s)\<rparr>"
      and c: "c = \<lparr>rc_row = retryClaim now d, rc_order = ord, rc_execute = (terminalDecision (o_status ord) = None), rc_resolved = False\<rparr>"
      by (auto simp: cw tx_simps)
    have "dispute_changed i (retryClaim now) s s'"
      by (auto simp: dispute_changed_def s' retryClaim_def intro!: exI [of _ "uuid_ctr s"])
    then show thesis using d ord c can td DResolutionFailed o dec
      by (intro claimed [of d "retryClaim now"]) (auto simp: dispute_ok_def retryClaim_def)
  qed
qed

lemma side_resolutionRecords: "side.keeps (resolutionRecords env now d ord dec opn)"
  unfolding resolutionRecords_def Let_def by (intro side_intros)

lemma finalizeIfApplied_Inr:
  assumes run: "finalizeIfApplied env now i dec opn s = (Inr r, s')"
  obtains (already) d ord where "r = Some (d, ord, False)" "s' = s" "d_status d = DResolved"
      "t_find d_id i (disputes s) = Some d" "t_find o_id (d_order d) (orders s) = Some ord" "d_decision d \<in> {None, Some dec}"
  | (pending) "r = None" "s' = s" "\<exists>d ord. t_find d_id i (disputes s) = Some d \<and>
      t_find o_id (d_order d) (orders s) = Some ord \<and> terminalDecision (o_status ord) \<noteq> Some dec"
  | (applied) d ord where "r = Some (resolvedDispute now d, ord, True)"
      "t_find d_id i (disputes s) = Some d" "t_find o_id (d_order d) (orders s) = Some ord" "d_decision d \<in> {None, Some dec}"
      "terminalDecision (o_status ord) = Some dec"
      "side_step (disputes_update (t_upd d_id i (resolvedDispute now)) s) s'"
proof -
  from run obtain s1 y0 where tx: "finalizeTx env now i dec opn s = (Inr r, s1)"
    and k: "evictFinalized env r s1 = (Inr y0, s')"
    unfolding finalizeIfApplied_def by (auto simp: tx_simps)
  from tx obtain d ord where d: "t_find d_id i (disputes s) = Some d" and ord: "t_find o_id (d_order d) (orders s) = Some ord"
    and dec: "d_decision d \<in> {None, Some dec}"
    and k2: "finalizeRow env now i dec opn d ord s = (Inr r, s1)"
    unfolding finalizeTx_def by (auto simp: tx_simps)
  note defs = finalizeRow_def evictFinalized_def
  show thesis
  proof (cases "d_status d = DResolved")
    case True
    with k2 have "r = Some (d, ord, False)" "s1 = s" by (auto simp: defs tx_simps)
    with k True d ord dec show thesis by (intro already [of d ord]) (auto simp: defs tx_simps)
  next
    case False
    show thesis
    proof (cases "terminalDecision (o_status ord) = Some dec")
      case False
      with \<open>d_status d \<noteq> DResolved\<close> k2 have "r = None" "s1 = s" by (auto simp: defs tx_simps)
      with k d ord False show thesis by (intro pending) (auto simp: defs tx_simps)
    next
      case True
      with \<open>d_status d \<noteq> DResolved\<close> k2 obtain y where r: "r = Some (resolvedDispute now d, ord, True)"
        and rec: "resolutionRecords env now (resolvedDispute now d) ord dec opn
          (disputes_update (t_upd d_id i (resolvedDispute now)) s) = (Inr y, s1)"
        by (auto simp: defs tx_simps updateDispute_def)
      from k r have "side_step s1 s'" by (auto simp: defs tx_simps dest: invalidate_side)
      with side.keepsD [OF side_resolutionRecords rec] have "side_step (disputes_update (t_upd d_id i (resolvedDispute now)) s) s'"
        by (rule side.moves_trans)
      with r d ord dec True show thesis by (intro applied) auto
    qed
  qed
qed

section \<open>The protocol\<close>

fun decision_delta :: "DisputeDecision \<Rightarrow> order_row \<Rightarrow> acct \<Rightarrow> int" where
  "decision_delta Refund ord = refund_delta ord"
| "decision_delta Release ord = release_delta ord"

fun decision_key :: "DisputeDecision \<Rightarrow> uuid \<Rightarrow> string" where
  "decision_key Refund i = refund_key i"
| "decision_key Release i = release_key i"

lemma runEscrow_Inr:
  assumes run: "runEscrow env faults now dec i adm s = (Inr res, s')"
    and v: "\<And>ord. t_find o_id i (orders s) = Some ord \<Longrightarrow> order_valid ord"
  obtains ord where "o_id ord = i" "escrow_step (decision_key dec i) (decision_delta dec ord) ord res s s'"
    "terminalDecision (o_status res) = Some dec"
proof (cases dec)
  case Refund
  with run have r: "refundEscrow env faults now i (Some adm) s = (Inr res, s')" by (simp add: runEscrow_def)
  show thesis
    by (rule refundEscrow_Inr [OF r v]) (auto simp: Refund terminalDecision_def intro: that)
next
  case Release
  with run have r: "releaseEscrow env faults now i
      (OptionsArg \<lparr>ro_admin = Some adm, ro_source = Some SrcDispute, ro_actor = None\<rparr>) s = (Inr res, s')"
    by (simp add: runEscrow_def)
  show thesis
    by (rule releaseEscrow_Inr [OF r v]) (auto simp: Release terminalDecision_def intro: that)
qed

lemma resolvedDispute_fields [simp]:
  "d_id (resolvedDispute now d) = d_id d" "d_order (resolvedDispute now d) = d_order d"
  "d_status (resolvedDispute now d) = DResolved" "d_resolution (resolvedDispute now d) = d_decision d"
  "d_decision (resolvedDispute now d) = d_decision d" "d_operation (resolvedDispute now d) = d_operation d"
  by (simp_all add: resolvedDispute_def)

text \<open>The finishing step on a claimed dispute whose order carries the decision.\<close>

lemma finishResolution_Inr:
  assumes run: "finishResolution env now i dec opn o' ex s = (Inr r, s')"
    and d: "t_find d_id i (disputes s) = Some d" "d_status d = DResolving" "d_decision d = Some dec"
  obtains ord where "t_find o_id (d_order d) (orders s) = Some ord" "terminalDecision (o_status ord) = Some dec"
    "rr_dispute r = resolvedDispute now d" "rr_newly r" "rr_executed r = ex"
    "side_step (disputes_update (t_upd d_id i (resolvedDispute now)) s) s'"
proof -
  from run obtain fin s1 where fin: "finalizeIfApplied env now i dec opn s = (Inr fin, s1)"
    and k: "(case fin of None \<Rightarrow>
         (let e = conflict ''Escrow operation did not reach the expected terminal order status'' in
          tx_bind (markResolutionFailed env i opn e) (\<lambda>_. tx_throw e))
     | Some (d, ord, newly) \<Rightarrow>
         tx_return \<lparr>rr_dispute = d, rr_order = o', rr_newly = newly, rr_executed = ex, rr_operation = opn\<rparr>) s1 = (Inr r, s')"
    unfolding finishResolution_def by (subst (asm) tx_bind_iff) blast
  from fin show thesis
  proof (cases rule: finalizeIfApplied_Inr)
    case (already d' ord)
    with d show thesis by simp
  next
    case pending
    with k show thesis by (simp add: tx_simps Let_def)
  next
    case (applied d' ord)
    with k d show thesis by (intro that [of ord]) (auto simp: tx_simps)
  qed
qed

lemma escrowFailed_Inr:
  assumes run: "escrowFailed env now i dec opn e s = (Inr r, s')"
    and d: "t_find d_id i (disputes s) = Some d" "d_status d = DResolving" "t_find o_id (d_order d) (orders s) = Some ord"
      "terminalDecision (o_status ord) \<noteq> Some dec"
  shows False
proof -
  from run obtain fin s1 where fin: "finalizeIfApplied env now i dec opn s = (Inr fin, s1)"
    and k: "(case fin of
       Some (d, ord, newly) \<Rightarrow>
         tx_return \<lparr>rr_dispute = d, rr_order = None, rr_newly = newly, rr_executed = False, rr_operation = opn\<rparr>
     | None \<Rightarrow> tx_bind (markResolutionFailed env i opn e) (\<lambda>_. tx_throw e)) s1 = (Inr r, s')"
    unfolding escrowFailed_def by (subst (asm) tx_bind_iff) blast
  from fin show False
  proof (cases rule: finalizeIfApplied_Inr)
    case pending
    with k show False by (simp add: tx_simps)
  qed (use d in auto)
qed

lemma runEscrow_error: "runEscrow env faults now dec i adm s = (Inl e, s') \<Longrightarrow> \<exists>t. s' = rollback s t"
  unfolding runEscrow_def lockEscrow_def releaseEscrow_def refundEscrow_def
  by (cases dec) (auto dest: tx_then_caches_error)

text \<open>
  A returning resolution: it found the dispute resolved, or it applied the decision (moving the money
  itself when the order was still disputed) and resolved it.
\<close>

lemma resolve_Inr:
  assumes run: "resolveDisputeResolution env faults now i dec adm note ex st s = (Inr r, s')"
    and ids: "\<And>n. gen_uuid env n \<noteq> []"
    and ok: "\<And>d. t_find d_id i (disputes s) = Some d \<Longrightarrow> dispute_ok s d"
    and v: "\<And>j ord. t_find o_id j (orders s) = Some ord \<Longrightarrow> order_valid ord"
  obtains (resolved) d where "s' = s" "rr_dispute r = d" "\<not> rr_newly r" "\<not> rr_executed r"
      "t_find d_id i (disputes s) = Some d" "d_status d = DResolved" "d_decision d = Some dec"
  | (applied) d ord ord' where "t_find d_id i (disputes s) = Some d" "t_find o_id (d_order d) (orders s) = Some ord"
      "t_find d_id i (disputes s') = Some (rr_dispute r)" "rr_newly r"
      "d_order (rr_dispute r) = d_order d" "d_status (rr_dispute r) = DResolved" "d_resolution (rr_dispute r) = Some dec"
      "d_decision (rr_dispute r) = Some dec" "d_status d \<noteq> DResolved"
      "t_find o_id (d_order d) (orders s') = Some ord'" "terminalDecision (o_status ord') = Some dec"
      "\<forall>a. wallet_money s' a = wallet_money s a + (if rr_executed r then decision_delta dec ord a else 0)"
      "rr_executed r \<longleftrightarrow> o_status ord = Disputed"
proof -
  from run obtain c s1 where cl: "claimResolution env now i dec adm note ex st s = (Inr c, s1)"
    and op: "truthy (d_operation (rc_row c))"
    and k: "(let operationId = the (d_operation (rc_row c)) in
     if rc_resolved c then
       tx_return \<lparr>rr_dispute = rc_row c, rr_order = None, rr_newly = False, rr_executed = False, rr_operation = operationId\<rparr>
     else if rc_execute c then
       (\<lambda>s. case runEscrow env faults now dec (d_order (rc_row c)) (case d_admin (rc_row c) of Some a \<Rightarrow> a | None \<Rightarrow> adm) s of
            (Inr order, s') \<Rightarrow> finishResolution env now i dec operationId (Some order) True s'
          | (Inl e, s') \<Rightarrow> escrowFailed env now i dec operationId e s')
     else finishResolution env now i dec operationId None False) s1 = (Inr r, s')"
    unfolding resolveDisputeResolution_def by (subst (asm) tx_bind_iff) (auto simp: tx_bind_iff tx_guard_iff)
  from cl ids ok show thesis
  proof (rule claimResolution_Inr, goal_cases)
    case (1 d')
    then show ?case .
  next
    case (2 d)
    with k show ?case by (intro resolved [of d]) (auto simp: tx_simps Let_def)
  next
    case (3 d f)
    note C = 3
    let ?opn = "the (d_operation (f d))"
    obtain n where s1: "s1 = s\<lparr>uuid_ctr := n, disputes := t_upd d_id i f (disputes s)\<rparr>" "uuid_ctr s \<le> n"
      and fid: "\<And>d. d_id (f d) = d_id d"
      using C(5) by (auto simp: dispute_changed_def)
    have d1: "t_find d_id i (disputes s1) = Some (f d)" using C(2) fid by (simp add: s1 t_find_upd)
    have ord1: "t_find o_id (d_order (f d)) (orders s1) = Some (rc_order c)" using C(4,9) by (simp add: s1)
    have nres: "d_status d \<noteq> DResolved" by (rule C(13))
    have wm1: "wallet_money s1 = wallet_money s" by (simp add: s1 wallet_money_def)
    show ?case
    proof (cases "rc_execute c")
      case False
      with k C(1,3) have fin: "finishResolution env now i dec ?opn None False s1 = (Inr r, s')" by (simp add: Let_def)
      from fin d1 C(6,7) show ?thesis
      proof (rule finishResolution_Inr)
        fix ord
        assume A: "t_find o_id (d_order (f d)) (orders s1) = Some ord" "terminalDecision (o_status ord) = Some dec"
          "rr_dispute r = resolvedDispute now (f d)" "rr_newly r" "rr_executed r = False"
          "side_step (disputes_update (t_upd d_id i (resolvedDispute now)) s1) s'"
        note side = side_step_fields [OF A(6)]
        show ?thesis
          using A C(2,4,7,9,12) False side d1 nres wm1
          by (intro applied [of d "rc_order c" ord]) (auto simp: s1 t_find_upd fid wallet_money_def)
      qed
    next
      case True
      obtain rr s2 where e: "runEscrow env faults now dec (d_order (f d)) (case d_admin (f d) of Some a \<Rightarrow> a | None \<Rightarrow> adm) s1 = (rr, s2)"
        by fastforce
      show ?thesis
      proof (cases rr)
        case (Inl err)
        with k C(1,3) True e have esf: "escrowFailed env now i dec ?opn err s2 = (Inr r, s')" by (simp add: Let_def)
        obtain t where s2: "s2 = rollback s1 t" using runEscrow_error e Inl by blast
        have "terminalDecision (o_status (rc_order c)) \<noteq> Some dec" using C(12) True by (simp add: terminalDecision_def)
        then have False using escrowFailed_Inr [OF esf, of "f d" "rc_order c"] d1 ord1 C(6) by (simp add: s2)
        then show ?thesis ..
      next
        case (Inr o')
        with k C(1,3) True e have fin: "finishResolution env now i dec ?opn (Some o') True s2 = (Inr r, s')" by (simp add: Let_def)
        have v1: "\<And>x. t_find o_id (d_order (f d)) (orders s1) = Some x \<Longrightarrow> order_valid x" using v by (simp add: s1)
        obtain ord where es: "o_id ord = d_order (f d)" "escrow_step (decision_key dec (d_order (f d))) (decision_delta dec ord) ord o' s1 s2"
          "terminalDecision (o_status o') = Some dec"
          using runEscrow_Inr [OF e [unfolded Inr] v1] by blast
        have oeq: "ord = rc_order c" using es ord1 by (auto simp: escrow_step_def order_changed_def)
        have d2: "t_find d_id i (disputes s2) = Some (f d)" using d1 es(2) by (simp add: escrow_step_def)
        have ord2: "t_find o_id (d_order (f d)) (orders s2) = Some o'" using es by (auto simp: escrow_step_def order_changed_def)
        have wm2: "\<forall>a. wallet_money s2 a = wallet_money s a + decision_delta dec ord a"
          using es(2) wm1 by (simp add: escrow_step_def money_step_def)
        from fin d2 C(6,7) show ?thesis
        proof (rule finishResolution_Inr)
          fix ord3
          assume A: "t_find o_id (d_order (f d)) (orders s2) = Some ord3" "terminalDecision (o_status ord3) = Some dec"
            "rr_dispute r = resolvedDispute now (f d)" "rr_newly r" "rr_executed r = True"
            "side_step (disputes_update (t_upd d_id i (resolvedDispute now)) s2) s'"
          note side = side_step_fields [OF A(6)]
          have "wallet_money s' = wallet_money s2" using side by (simp add: wallet_money_def)
          with wm2 A C(2,4,7,9,12) True side d2 nres ord2 oeq show ?thesis
            by (intro applied [of d "rc_order c" o']) (auto simp: t_find_upd)
        qed
      qed
    qed
  qed
qed

section \<open>Progress after a crash\<close>

definition tx_total :: "('s, 'a) tx \<Rightarrow> bool" where
  "tx_total m \<longleftrightarrow> (\<forall>s. \<exists>x s'. m s = (Inr x, s'))"

lemma tx_total_bind: "tx_total m \<Longrightarrow> (\<And>x. tx_total (f x)) \<Longrightarrow> tx_total (tx_bind m f)"
  unfolding tx_total_def tx_bind_iff by meson

lemma tx_total_basic:
  "tx_total (tx_return x)" "tx_total (tx_gets g)" "tx_total (tx_modify h)" "tx_total (gen_random_uuid env)"
  by (simp_all add: tx_total_def tx_return_def tx_gets_def tx_modify_def gen_random_uuid_def)

lemma tx_total_case_option:
  "tx_total m \<Longrightarrow> (\<And>x. tx_total (n x)) \<Longrightarrow> tx_total (case v of None \<Rightarrow> m | Some x \<Rightarrow> n x)"
  by (cases v) auto

lemma tx_total_when: "tx_total m \<Longrightarrow> tx_total (tx_when b m)"
  by (simp add: tx_when_def tx_total_basic)

lemma records_total: "tx_total (resolutionRecords env now d ord dec opn)"
  unfolding resolutionRecords_def recordOrderEvent_def createOrderSystemMessage_def getConversationIdForOrder_def
    createSystemMessage_def enqueueDomainEvent_def Let_def
  by (intro tx_total_bind tx_total_basic tx_total_case_option)

lemma invalidate_total: "tx_total (invalidateOrderParticipantReadCaches env i b sl x y)"
  unfolding tx_total_def using invalidate_returns by blast

lemma finalize_progress:
  assumes d: "t_find d_id i (disputes s) = Some d" "d_status d = DResolving" "d_decision d = Some dec" "d_operation d = Some opn"
    and ord: "t_find o_id (d_order d) (orders s) = Some ord" "terminalDecision (o_status ord) = Some dec"
  shows "\<exists>s'. finalizeIfApplied env now i dec opn s = (Inr (Some (resolvedDispute now d, ord, True)), s')"
proof -
  let ?s = "disputes_update (t_upd d_id i (resolvedDispute now)) s"
  obtain y s1 where rec: "resolutionRecords env now (resolvedDispute now d) ord dec opn ?s = (Inr y, s1)"
    using records_total unfolding tx_total_def by blast
  obtain s2 where inv: "invalidateOrderParticipantReadCaches env (d_order d) (o_buyer ord) (o_seller ord) False False s1 = (Inr (), s2)"
    using invalidate_returns by blast
  have "finalizeTx env now i dec opn s = (Inr (Some (resolvedDispute now d, ord, True)), s1)"
    using d ord rec unfolding finalizeTx_def finalizeRow_def updateDispute_def by (auto simp: tx_simps)
  then show ?thesis using inv
    by (auto simp: finalizeIfApplied_def evictFinalized_def tx_simps)
qed

section \<open>Properties\<close>

text \<open>
  When a resolution returns, the dispute is resolved with the decision asked for, its order carries that
  decision (refunded or completed), and the money moved exactly as the decision says if this call executed the
  escrow operation and not at all otherwise; it executes the operation only for an order still disputed.
\<close>

theorem resolution_outcome:
  assumes run: "resolveDisputeResolution env faults now i dec adm note ex st s = (Inr r, s')"
    and ids: "\<And>n. gen_uuid env n \<noteq> []"
    and ok: "\<And>d. t_find d_id i (disputes s) = Some d \<Longrightarrow> dispute_ok s d"
    and v: "\<And>j ord. t_find o_id j (orders s) = Some ord \<Longrightarrow> order_valid ord"
  shows "\<exists>ord ord'. t_find d_id i (disputes s') = Some (rr_dispute r) \<and> d_status (rr_dispute r) = DResolved \<and>
    d_resolution (rr_dispute r) = Some dec \<and>
    t_find o_id (d_order (rr_dispute r)) (orders s) = Some ord \<and>
    t_find o_id (d_order (rr_dispute r)) (orders s') = Some ord' \<and>
    o_status ord' = (case dec of Refund \<Rightarrow> Refunded | Release \<Rightarrow> Completed) \<and>
    (rr_executed r \<longrightarrow> o_status ord = Disputed) \<and>
    (\<forall>a. wallet_money s' a = wallet_money s a + (if rr_executed r then decision_delta dec ord a else 0))"
proof -
  have td: "terminalDecision x = Some dec \<Longrightarrow> x = (case dec of Refund \<Rightarrow> Refunded | Release \<Rightarrow> Completed)" for x
    by (cases dec) (auto simp: terminalDecision_def split: if_splits)
  show ?thesis
  proof (rule resolve_Inr [OF run ids ok v], goal_cases)
    case (3 d)
    then obtain x where "t_find o_id (d_order d) (orders s) = Some x" "terminalDecision (o_status x) = Some dec" "d_resolution d = Some dec"
      using ok by (auto simp: dispute_ok_def)
    with 3 td [of "o_status x"] show ?case by (intro exI [of _ x]) auto
  next
    case (4 d x x')
    with td [of "o_status x'"] show ?case by (intro exI [of _ x] exI [of _ x']) auto
  qed
qed

text \<open>
  C18: a resolution is final: after one returned, a second one returns only for the same decision, and then it
  reports the dispute as already resolved, executes no escrow operation and changes nothing at all.
\<close>

theorem resolution_final:
  assumes first: "resolveDisputeResolution env faults now i dec adm note ex st s = (Inr r, s')"
    and second: "resolveDisputeResolution env faults' now' i dec' adm' note' ex' st' s' = (Inr r', s'')"
    and ids: "\<And>n. gen_uuid env n \<noteq> []"
    and ok: "\<And>d. t_find d_id i (disputes s) = Some d \<Longrightarrow> dispute_ok s d"
    and v: "\<And>j ord. t_find o_id j (orders s) = Some ord \<Longrightarrow> order_valid ord"
  shows "dec' = dec \<and> \<not> rr_newly r' \<and> \<not> rr_executed r' \<and> rr_dispute r' = rr_dispute r \<and> s'' = s'"
proof -
  have st: "\<exists>d. t_find d_id i (disputes s') = Some d \<and> d_status d = DResolved \<and> d_decision d = Some dec \<and> rr_dispute r = d"
    by (rule resolve_Inr [OF first ids ok v]) auto
  then obtain d where d: "t_find d_id i (disputes s') = Some d" "d_status d = DResolved" "d_decision d = Some dec" "rr_dispute r = d"
    by blast
  from second obtain c s1 where cl: "claimResolution env now' i dec' adm' note' ex' st' s' = (Inr c, s1)"
    unfolding resolveDisputeResolution_def by (auto simp: tx_bind_iff)
  with d have c: "dec' = dec" "s1 = s'" "rc_resolved c" "rc_row c = d"
    by (auto simp: claimResolution_def inTx_iff tx_simps claimByStatus_def)
  from second cl c have "r' = \<lparr>rr_dispute = d, rr_order = None, rr_newly = False, rr_executed = False,
      rr_operation = the (d_operation d)\<rparr> \<and> s'' = s'"
    unfolding resolveDisputeResolution_def by (auto simp: tx_bind_iff tx_simps Let_def)
  with c d show ?thesis by simp
qed

text \<open>
  C19: a crash after the escrow operation committed loses nothing: on any state where the dispute is claimed and
  its order already carries the claimed decision, taking the claim up again returns, resolves the dispute, executes
  no second escrow operation and moves no money.
\<close>

theorem crash_recovery_progress:
  assumes d: "t_find d_id i (disputes s) = Some d" "d_status d = DResolving" "d_decision d = Some dec"
      "d_operation d = Some (c # cs)"
    and ord: "t_find o_id (d_order d) (orders s) = Some ord"
      "o_status ord = (case dec of Refund \<Rightarrow> Refunded | Release \<Rightarrow> Completed)"
  shows "\<exists>r s'. resolveDisputeResolution env faults now i dec adm note (Some (c # cs)) True s = (Inr r, s') \<and>
    rr_newly r \<and> \<not> rr_executed r \<and> d_status (rr_dispute r) = DResolved \<and> d_resolution (rr_dispute r) = Some dec \<and>
    wallet_money s' = wallet_money s \<and> ledger_lines s' = ledger_lines s \<and> orders s' = orders s"
proof -
  have td: "terminalDecision (o_status ord) = Some dec" using ord(2) by (cases dec) (simp_all add: terminalDecision_def)
  obtain s1 where fin: "finalizeIfApplied env now i dec (c # cs) s = (Inr (Some (resolvedDispute now d, ord, True)), s1)"
    using finalize_progress [OF d ord(1) td] by blast
  let ?claim = "\<lparr>rc_row = d, rc_order = ord, rc_execute = False, rc_resolved = False\<rparr>"
  have cl: "claimResolution env now i dec adm note (Some (c # cs)) True s = (Inr ?claim, s)"
    using d ord(1) td by (auto simp: claimResolution_def inTx_iff tx_simps claimByStatus_def)
  let ?r = "\<lparr>rr_dispute = resolvedDispute now d, rr_order = None, rr_newly = True, rr_executed = False, rr_operation = c # cs\<rparr>"
  have "resolveDisputeResolution env faults now i dec adm note (Some (c # cs)) True s = (Inr ?r, s1)"
    unfolding resolveDisputeResolution_def tx_bind_iff
    using cl fin d by (auto simp: tx_simps truthy_def Let_def finishResolution_def intro!: exI [of _ ?claim])
  moreover have "side_step (disputes_update (t_upd d_id i (resolvedDispute now)) s) s1"
    using fin by (cases rule: finalizeIfApplied_Inr) auto
  note side = side_step_fields [OF this]
  moreover have "wallet_money s1 = wallet_money s" using side by (simp add: wallet_money_def)
  ultimately show ?thesis using d by (intro exI [of _ ?r] exI [of _ s1]) simp
qed

text \<open>
  A dispute is opened once per order: when the route returns, the caller is the buyer or the seller, the order
  is disputed and has a dispute row, no other order changed and no money moved; if the order was already
  disputed nothing changed at all, and otherwise the order was paid, in progress or delivered and exactly one
  dispute row was added.
\<close>

theorem dispute_open_once:
  assumes run: "openDispute env now u i reason s = (Inr res, s')" and ord: "t_find o_id i (orders s) = Some ord"
  shows "u \<in> {o_buyer ord, o_seller ord} \<and> wallet_money s' = wallet_money s \<and>
    (if o_status ord = Disputed
     then s' = s \<and> or_repeated res \<and> t_find d_order i (disputes s) = Some (or_dispute res)
     else o_status ord \<in> {Paid, InProgress, Delivered} \<and> \<not> or_repeated res \<and>
       t_find d_order i (disputes s) = None \<and> disputes s' = disputes s @ [or_dispute res] \<and>
       d_order (or_dispute res) = i \<and> d_status (or_dispute res) = DOpen \<and>
       (\<forall>j. t_find o_id j (orders s') = (if j = i then Some (applyTransition env now Disputed ord) else t_find o_id j (orders s))))"
proof -
  from run obtain s1 where tx: "openDisputeTx env now u i reason s = (Inr res, s1)"
    and k: "(if or_repeated res then tx_return res
      else tx_bind (invalidateOrderParticipantReadCaches env i (o_buyer (or_order res)) (o_seller (or_order res))
            False False) (\<lambda>_. tx_return res)) s1 = (Inr res, s')"
    unfolding openDispute_def by (auto simp: tx_simps openSchema_def split: if_splits)
  show ?thesis
  proof (cases "o_status ord = Disputed")
    case True
    with tx ord have "u \<in> {o_buyer ord, o_seller ord} \<and> s1 = s \<and> or_repeated res \<and> t_find d_order i (disputes s) = Some (or_dispute res)"
      unfolding openDisputeTx_def by (auto simp: tx_simps Let_def)
    with k True show ?thesis by (auto simp: tx_simps)
  next
    case False
    let ?d = "newDispute now (gen_uuid env (uuid_ctr s)) i u reason"
    let ?s2 = "disputes_update (\<lambda>ds. ds @ [?d]) (s\<lparr>uuid_ctr := Suc (uuid_ctr s)\<rparr>)"
    from tx ord False obtain m s3 inp y where A: "u \<in> {o_buyer ord, o_seller ord}" "canTransitionOrder (o_status ord) Disputed"
        "t_find d_order i (disputes s) = None"
      and msg: "createOrderSystemMessage env i ''dispute_opened'' ''system.disputeOpened'' (Some [(''reason'', JStr reason)]) [] ?s2 = (Inr m, s3)"
      and inp: "ti_order inp = i" "ti_to inp = Disputed"
      and tr: "transitionOrder env now inp s3 = (Inr y, s1)"
      and res: "res = \<lparr>or_dispute = ?d, or_repeated = False, or_suggested = False, or_order = ord\<rparr>"
      unfolding openDisputeTx_def by (force simp: tx_simps Let_def)
    note side = side_step_fields [OF side.keepsD [OF side_createOrderSystemMessage msg]]
    have ord3: "t_find o_id (ti_order inp) (orders s3) = Some ord" using ord inp side by simp
    have mv: "order_moved env now inp ord s3 s1" by (rule transition_moves [OF tr ord3]) (use False inp in simp)
    note C = order_moved_changed [OF mv ord3]
    have st: "o_status ord \<in> {Paid, InProgress, Delivered}" using A(2) by (cases "o_status ord") (auto simp: canTransitionOrder_def)
    have "side_step s1 s'" using k res by (auto simp: tx_simps dest: invalidate_side)
    note side' = side_step_fields [OF this]
    have "wallet_money s' = wallet_money s"
      using side side' order_moved_same_money [OF mv] by (simp add: wallet_money_def same_money_def)
    moreover have "disputes s' = disputes s @ [?d]" using side side' C(4) by simp
    moreover have "o_id ord = i" using t_find_Some [OF ord] by simp
    ultimately show ?thesis
      using A st False res side side' C(1) inp by (auto simp: newDispute_def order_changed_def)
  qed
qed

section \<open>Witnesses\<close>

definition disputed0 :: db where
  "disputed0 = db0\<lparr>orders := [order0\<lparr>o_status := Disputed\<rparr>],
     wallets := [\<lparr>w_user = ''seller'', w_currency = ''USD'', w_available = 0, w_escrow = 1000\<rparr>],
     disputes := [newDispute 3 ''d1'' ''o1'' ''buyer'' ''not as described'']\<rparr>"

definition crashed0 :: db where
  "crashed0 = disputed0\<lparr>orders := [order0\<lparr>o_status := Refunded\<rparr>],
     disputes := [firstClaim 5 Refund ''op1'' ''admin'' ''note'' (newDispute 3 ''d1'' ''o1'' ''buyer'' ''not as described'')]\<rparr>"

definition resolved0 :: "DisputeResolutionResult result \<times> db" where
  "resolved0 = resolveDisputeResolution env0 no_faults 9 ''d1'' Refund ''admin'' ''refund the buyer'' None True disputed0"

lemma env0_ids: "gen_uuid env0 n \<noteq> []" by (simp add: env0_def)

lemma resolved0_runs: "\<not> isl (fst resolved0)" by code_simp

lemma disputed0_ok: "t_find d_id ''d1'' (disputes disputed0) = Some d \<Longrightarrow> dispute_ok disputed0 d"
  by (auto simp: disputed0_def newDispute_def dispute_ok_def)

lemma disputed0_valid: "t_find o_id j (orders disputed0) = Some x \<Longrightarrow> order_valid x"
  using order0_valid by (auto simp: disputed0_def order_valid_def split: if_splits)

theorem resolution_outcome_witness:
  "\<exists>r s'. resolved0 = (Inr r, s') \<and> d_resolution (rr_dispute r) = Some Refund"
proof -
  obtain r s' where r: "resolved0 = (Inr r, s')" using tx_returns [OF resolved0_runs] by blast
  have "d_resolution (rr_dispute r) = Some Refund"
    using resolution_outcome [OF r [unfolded resolved0_def] env0_ids] disputed0_ok disputed0_valid by blast
  with r show ?thesis by blast
qed

theorem resolution_final_witness:
  "\<exists>r s' r' s''. resolved0 = (Inr r, s') \<and>
     resolveDisputeResolution env0 no_faults 11 ''d1'' Refund ''admin'' ''again'' None True s' = (Inr r', s'') \<and> s'' = s'"
proof -
  obtain r s' where r: "resolved0 = (Inr r, s')" using tx_returns [OF resolved0_runs] by blast
  have "\<not> isl (fst (resolveDisputeResolution env0 no_faults 11 ''d1'' Refund ''admin'' ''again'' None True (snd resolved0)))"
    by code_simp
  with r obtain r' s'' where a: "resolveDisputeResolution env0 no_faults 11 ''d1'' Refund ''admin'' ''again'' None True s' = (Inr r', s'')"
    using tx_returns by (metis snd_conv)
  have "s'' = s'"
    using resolution_final [OF r [unfolded resolved0_def] a env0_ids] disputed0_ok disputed0_valid by blast
  with r a show ?thesis by blast
qed

theorem crash_recovery_progress_witness:
  "\<exists>r s'. resolveDisputeResolution env0 no_faults 9 ''d1'' Refund ''admin'' ''note'' (Some ''op1'') True crashed0 = (Inr r, s') \<and>
     d_status (rr_dispute r) = DResolved"
proof -
  let ?d = "firstClaim 5 Refund ''op1'' ''admin'' ''note'' (newDispute 3 ''d1'' ''o1'' ''buyer'' ''not as described'')"
  have "t_find d_id ''d1'' (disputes crashed0) = Some ?d" "d_status ?d = DResolving" "d_decision ?d = Some Refund"
    "d_operation ?d = Some (CHR ''o'' # ''p1'')" "t_find o_id (d_order ?d) (orders crashed0) = Some (order0\<lparr>o_status := Refunded\<rparr>)"
    "o_status (order0\<lparr>o_status := Refunded\<rparr>) = (case Refund of Refund \<Rightarrow> Refunded | Release \<Rightarrow> Completed)"
    by (simp_all add: crashed0_def firstClaim_def newDispute_def order0_def)
  from crash_recovery_progress [OF this, of env0 no_faults 9 "''admin''" "''note''"] show ?thesis by blast
qed

definition opened0 :: "OpenDisputeResult result \<times> db" where
  "opened0 = openDispute env0 4 ''buyer'' ''o1'' ''not as described'' (db0\<lparr>orders := [order0\<lparr>o_status := Delivered\<rparr>]\<rparr>)"

theorem dispute_open_once_witness:
  "\<exists>res s'. opened0 = (Inr res, s') \<and> disputes s' = [or_dispute res]"
proof -
  have "\<not> isl (fst opened0)" by code_simp
  then obtain res s' where r: "opened0 = (Inr res, s')" using tx_returns by blast
  have "t_find o_id ''o1'' (orders (db0\<lparr>orders := [order0\<lparr>o_status := Delivered\<rparr>]\<rparr>)) = Some (order0\<lparr>o_status := Delivered\<rparr>)"
    by (simp add: order0_def)
  from dispute_open_once [OF r [unfolded opened0_def] this] r show ?thesis
    by (intro exI [of _ res] exI [of _ s']) (simp add: db0_def empty_db_def)
qed

end
