(* ===== verification/Notifications.thy ===== *)
theory Notifications
  imports Events
begin

text \<open>
  In-app notifications: the rows \<open>createNotification\<close> and \<open>notifyAdmins\<close> of
  \<open>modules/notifications/notifications.service.ts\<close> write. The websocket push and the email and Telegram
  jobs they also start leave the database alone and are not part of the state.
\<close>

record NotificationInput =
  ni_user :: uuid
  ni_type :: string
  ni_template :: "string option"
  ni_params :: "TranslateParams option"
  ni_title_key :: "string option"
  ni_body_key :: "string option"
  ni_title :: "string option"
  ni_body :: "string option"
  ni_order :: "uuid option"
  ni_product :: "uuid option"
  ni_conversation :: "uuid option"

definition templateNotification :: "uuid \<Rightarrow> string \<Rightarrow> string \<Rightarrow> TranslateParams \<Rightarrow> NotificationInput" where
  "templateNotification userId type key params =
     \<lparr>ni_user = userId, ni_type = type, ni_template = Some key, ni_params = Some params, ni_title_key = None,
      ni_body_key = None, ni_title = None, ni_body = None, ni_order = None, ni_product = None,
      ni_conversation = None\<rparr>"

definition keyOf :: "string option \<Rightarrow> string option \<Rightarrow> string \<Rightarrow> string option" where
  "keyOf explicit template sfx = (case explicit of
       Some k \<Rightarrow> Some k
     | None \<Rightarrow> map_option (\<lambda>t. t @ sfx) template)"

definition notification_of :: "env \<Rightarrow> uuid \<Rightarrow> NotificationInput \<Rightarrow> string option \<Rightarrow> notification_row" where
  "notification_of env nid input eventKey =
     (let titleKey = keyOf (ni_title_key input) (ni_template input) ''.title'';
          bodyKey = keyOf (ni_body_key input) (ni_template input) ''.body'';
          params = (case ni_params input of Some ps \<Rightarrow> ps | None \<Rightarrow> []) in
      \<lparr>nt_id = nid, nt_user = ni_user input, nt_type = ni_type input,
       nt_title = (case ni_title input of
           Some title \<Rightarrow> title
         | None \<Rightarrow> (case titleKey of Some k \<Rightarrow> translate (dicts env) defaultLocale k (Some params) | None \<Rightarrow> [])),
       nt_body = (case ni_body input of
           Some body \<Rightarrow> Some body
         | None \<Rightarrow> map_option (\<lambda>k. translate (dicts env) defaultLocale k (Some params)) bodyKey),
       nt_title_key = titleKey, nt_body_key = bodyKey, nt_params = JObj params,
       nt_order = ni_order input, nt_product = ni_product input, nt_conversation = ni_conversation input,
       nt_event_key = eventKey\<rparr>)"

text \<open>\<open>on conflict (event_key) where event_key is not null do nothing\<close>, then the existing row.\<close>

definition createNotification :: "env \<Rightarrow> NotificationInput \<Rightarrow> string option \<Rightarrow> notification_row dbtx" where
  "createNotification env input eventKey =
     tx_bind (tx_gets (\<lambda>s. case eventKey of
         None \<Rightarrow> None
       | Some k \<Rightarrow> t_find nt_event_key (Some k) (notifications s))) (\<lambda>existing.
     case existing of
       Some row \<Rightarrow> tx_return row
     | None \<Rightarrow>
         tx_bind (gen_random_uuid env) (\<lambda>nid.
         tx_bind (tx_gets (\<lambda>s. t_find u_id (ni_user input) (users s) \<noteq> None)) (\<lambda>fk.
         tx_bind (tx_guard fk (PgError ''23503'')) (\<lambda>_.
         tx_bind (tx_modify (notifications_update (\<lambda>ns. ns @ [notification_of env nid input eventKey]))) (\<lambda>_.
         tx_return (notification_of env nid input eventKey))))))"

fun notifyEach :: "env \<Rightarrow> NotificationInput \<Rightarrow> uuid list \<Rightarrow> unit dbtx" where
  "notifyEach env input [] = tx_return ()"
| "notifyEach env input (u # us) =
     tx_bind (createNotification env (input\<lparr>ni_user := u\<rparr>) None) (\<lambda>_. notifyEach env input us)"

definition notifyAdmins :: "env \<Rightarrow> NotificationInput \<Rightarrow> Role list \<Rightarrow> unit dbtx" where
  "notifyAdmins env input roles =
     tx_bind (tx_gets (\<lambda>s. map u_id (filter (\<lambda>u. list_ex (\<lambda>r. r = u_role u) roles) (users s)))) (\<lambda>admins.
     notifyEach env input admins)"

lemma side_createNotification: "side.keeps (createNotification env input k)"
  unfolding createNotification_def
  by (intro side.keeps_intros side_gen_random_uuid; simp add: side_step_def side_core_def)

lemma side_notifyEach: "side.keeps (notifyEach env input us)"
  by (induction us) (auto intro!: side.keeps_intros side_createNotification)

lemma side_notifyAdmins: "side.keeps (notifyAdmins env input roles)"
  unfolding notifyAdmins_def by (intro side.keeps_intros side_notifyEach)

text \<open>A keyed notification is stored once.\<close>

lemma createNotification_once:
  assumes "createNotification env input (Some k) s = (Inr row, s')" "createNotification env input (Some k) s' = (Inr row', s'')"
  shows "row' = row \<and> s'' = s'"
  using assms
  by (cases "t_find nt_event_key (Some k) (notifications s)")
    (auto simp: createNotification_def tx_simps t_find_append notification_of_def Let_def)

end
