(* ===== verification/Outbox.thy ===== *)
theory Outbox
  imports Notifications TxRetry "HOL-Library.Product_Lexorder" "HOL-Library.List_Lexorder" "HOL-Library.Char_ord"
begin

text \<open>
  The transactional outbox worker, \<open>modules/outbox/outbox.worker.ts\<close>. Each SQL statement is one atomic step
  on the \<open>domain_outbox\<close> table; several workers interleave such steps. The event handler
  (\<open>domain-event.handlers.ts\<close>) is an argument. A batch is processed in the order it was claimed in, one of
  the schedules \<open>mapWithConcurrency\<close> allows.
\<close>

section \<open>Statements\<close>

definition OUTBOX_LAST_ERROR_MAX :: nat where
  "OUTBOX_LAST_ERROR_MAX = 2000"

definition MAX_BACKOFF_MS :: int where
  "MAX_BACKOFF_MS = 24 * 60 * 60 * 1000"

definition outboxErrorMessage :: "env \<Rightarrow> err \<Rightarrow> string" where
  "outboxErrorMessage env e = take OUTBOX_LAST_ERROR_MAX (error_message env e)"

definition backoffMs :: "nat \<Rightarrow> int \<Rightarrow> int" where
  "backoffMs attempts base = min (base * 2 ^ (attempts - 1)) MAX_BACKOFF_MS"

definition lockExpired :: "time \<Rightarrow> int \<Rightarrow> outbox_row \<Rightarrow> bool" where
  "lockExpired now lockTimeoutMs r \<longleftrightarrow> ob_status r = OProcessing \<and>
     (case ob_locked_at r of Some t \<Rightarrow> t < now - lockTimeoutMs | None \<Rightarrow> False)"

definition expireRow :: "time \<Rightarrow> nat \<Rightarrow> int \<Rightarrow> outbox_row \<Rightarrow> outbox_row" where
  "expireRow now maxAttempts lockTimeoutMs r =
     (if lockExpired now lockTimeoutMs r \<and> maxAttempts \<le> ob_attempts r
      then r\<lparr>ob_status := OFailed, ob_locked_at := None, ob_locked_by := None,
             ob_last_error := (case ob_last_error r of Some e \<Rightarrow> Some e
               | None \<Rightarrow> Some ''Worker lock expired after maximum attempts'')\<rparr>
      else r)"

definition claimable :: "time \<Rightarrow> nat \<Rightarrow> int \<Rightarrow> outbox_row \<Rightarrow> bool" where
  "claimable now maxAttempts lockTimeoutMs r \<longleftrightarrow>
     (ob_status r = OPending \<and> ob_available_at r \<le> now \<and> ob_attempts r < maxAttempts) \<or>
     (lockExpired now lockTimeoutMs r \<and> ob_attempts r < maxAttempts)"

definition candidates :: "time \<Rightarrow> nat \<Rightarrow> nat \<Rightarrow> int \<Rightarrow> outbox_row list \<Rightarrow> outbox_row list" where
  "candidates now batchSize maxAttempts lockTimeoutMs rows =
     take batchSize (sort_key (\<lambda>r. (ob_available_at r, ob_created_at r, ob_id r))
       (filter (claimable now maxAttempts lockTimeoutMs) rows))"

definition claimRow :: "time \<Rightarrow> string \<Rightarrow> outbox_row \<Rightarrow> outbox_row" where
  "claimRow now workerId r = r\<lparr>ob_status := OProcessing, ob_attempts := Suc (ob_attempts r),
     ob_locked_at := Some now, ob_locked_by := Some workerId, ob_processed_at := None\<rparr>"

definition updateAll :: "uuid list \<Rightarrow> (outbox_row \<Rightarrow> outbox_row) \<Rightarrow> outbox_row list \<Rightarrow> outbox_row list" where
  "updateAll ids f rows = map (\<lambda>r. if list_ex (\<lambda>i. i = ob_id r) ids then f r else r) rows"

text \<open>The two statements of the claim on the table, and the rows it returns.\<close>

definition claimRows ::
  "time \<Rightarrow> string \<Rightarrow> nat \<Rightarrow> nat \<Rightarrow> int \<Rightarrow> outbox_row list \<Rightarrow> outbox_row list \<times> outbox_row list" where
  "claimRows now workerId batchSize maxAttempts lockTimeoutMs rows =
     (let rows1 = map (expireRow now maxAttempts lockTimeoutMs) rows;
          cs = candidates now batchSize maxAttempts lockTimeoutMs rows1 in
      (map (claimRow now workerId) cs, updateAll (map ob_id cs) (claimRow now workerId) rows1))"

definition claimOutboxBatch :: "time \<Rightarrow> string \<Rightarrow> nat \<Rightarrow> nat \<Rightarrow> int \<Rightarrow> outbox_row list dbtx" where
  "claimOutboxBatch now workerId batchSize maxAttempts lockTimeoutMs = inTx (
     tx_bind (tx_gets (\<lambda>s. claimRows now workerId batchSize maxAttempts lockTimeoutMs (domain_outbox s))) (\<lambda>r.
     tx_bind (tx_modify (domain_outbox_update (\<lambda>_. snd r))) (\<lambda>_.
     tx_return (fst r))))"

text \<open>\<open>where id = $1 and status = 'processing' and locked_by = $2\<close>.\<close>

definition ownedBy :: "uuid \<Rightarrow> string \<Rightarrow> outbox_row \<Rightarrow> bool" where
  "ownedBy i workerId r \<longleftrightarrow> ob_id r = i \<and> ob_status r = OProcessing \<and> ob_locked_by r = Some workerId"

definition updateOwned :: "uuid \<Rightarrow> string \<Rightarrow> (outbox_row \<Rightarrow> outbox_row) \<Rightarrow> outbox_row list \<Rightarrow> outbox_row list" where
  "updateOwned i workerId f rows = map (\<lambda>r. if ownedBy i workerId r then f r else r) rows"

definition processedRow :: "time \<Rightarrow> outbox_row \<Rightarrow> outbox_row" where
  "processedRow now r = r\<lparr>ob_status := OProcessed, ob_locked_at := None, ob_locked_by := None,
     ob_processed_at := Some now, ob_last_error := None\<rparr>"

definition markProcessed :: "time \<Rightarrow> outbox_row \<Rightarrow> string \<Rightarrow> unit dbtx" where
  "markProcessed now event workerId =
     tx_bind (tx_gets (\<lambda>s. list_ex (ownedBy (ob_id event) workerId) (domain_outbox s))) (\<lambda>found.
     tx_bind (tx_modify (domain_outbox_update (updateOwned (ob_id event) workerId (processedRow now)))) (\<lambda>_.
     tx_guard found (JsError (''Outbox lock was lost before event '' @ ob_id event @ '' completed''))))"

definition failedRow :: "env \<Rightarrow> time \<Rightarrow> bool \<Rightarrow> int \<Rightarrow> err \<Rightarrow> outbox_row \<Rightarrow> outbox_row" where
  "failedRow env now isTerminal delay e r = r\<lparr>ob_status := (if isTerminal then OFailed else OPending),
     ob_available_at := (if isTerminal then ob_available_at r else now + delay),
     ob_locked_at := None, ob_locked_by := None, ob_processed_at := None,
     ob_last_error := Some (outboxErrorMessage env e)\<rparr>"

definition markFailed :: "env \<Rightarrow> time \<Rightarrow> outbox_row \<Rightarrow> string \<Rightarrow> err \<Rightarrow> nat \<Rightarrow> int \<Rightarrow> unit dbtx" where
  "markFailed env now event workerId e maxAttempts baseBackoffMs =
     tx_modify (domain_outbox_update (updateOwned (ob_id event) workerId
       (failedRow env now (maxAttempts \<le> ob_attempts event) (backoffMs (ob_attempts event) baseBackoffMs) e)))"

definition heartbeatEvent :: "time \<Rightarrow> uuid \<Rightarrow> string \<Rightarrow> unit dbtx" where
  "heartbeatEvent now eventId workerId =
     tx_modify (domain_outbox_update (updateOwned eventId workerId (\<lambda>r. r\<lparr>ob_locked_at := Some now\<rparr>)))"

section \<open>Processing\<close>

definition processClaimedEvent ::
  "env \<Rightarrow> time \<Rightarrow> (outbox_row \<Rightarrow> unit dbtx) \<Rightarrow> string \<Rightarrow> nat \<Rightarrow> int \<Rightarrow> outbox_row \<Rightarrow> bool dbtx" where
  "processClaimedEvent env now handler workerId maxAttempts baseBackoffMs event =
     tx_catch
       (tx_bind (handler event) (\<lambda>_. tx_bind (markProcessed now event workerId) (\<lambda>_. tx_return True)))
       (\<lambda>e. tx_bind (markFailed env now event workerId e maxAttempts baseBackoffMs) (\<lambda>_. tx_return False))"

fun processEach ::
  "env \<Rightarrow> time \<Rightarrow> (outbox_row \<Rightarrow> unit dbtx) \<Rightarrow> string \<Rightarrow> nat \<Rightarrow> int \<Rightarrow> outbox_row list \<Rightarrow> bool list dbtx" where
  "processEach env now handler workerId maxAttempts baseBackoffMs [] = tx_return []"
| "processEach env now handler workerId maxAttempts baseBackoffMs (e # es) =
     tx_bind (processClaimedEvent env now handler workerId maxAttempts baseBackoffMs e) (\<lambda>r.
     tx_bind (processEach env now handler workerId maxAttempts baseBackoffMs es) (\<lambda>rs. tx_return (r # rs)))"

record ProcessOutboxResult =
  px_claimed :: nat
  px_processed :: nat
  px_failed :: nat

definition processOutboxBatch ::
  "env \<Rightarrow> time \<Rightarrow> (outbox_row \<Rightarrow> unit dbtx) \<Rightarrow> string \<Rightarrow> nat \<Rightarrow> nat \<Rightarrow> int \<Rightarrow> int \<Rightarrow> ProcessOutboxResult dbtx" where
  "processOutboxBatch env now handler workerId batchSize maxAttempts baseBackoffMs lockTimeoutMs =
     tx_bind (claimOutboxBatch now workerId batchSize maxAttempts lockTimeoutMs) (\<lambda>events.
     if events = [] then tx_return \<lparr>px_claimed = 0, px_processed = 0, px_failed = 0\<rparr>
     else tx_bind (processEach env now handler workerId maxAttempts baseBackoffMs events) (\<lambda>results.
       let processed = length (filter (\<lambda>b. b) results) in
       tx_return \<lparr>px_claimed = length events, px_processed = processed, px_failed = length events - processed\<rparr>))"

definition requeueRow :: "time \<Rightarrow> outbox_row \<Rightarrow> outbox_row" where
  "requeueRow now r = r\<lparr>ob_status := OPending, ob_attempts := 0, ob_available_at := now, ob_locked_at := None,
     ob_locked_by := None, ob_processed_at := None, ob_last_error := None\<rparr>"

definition retryCandidates :: "uuid list option \<Rightarrow> nat \<Rightarrow> outbox_row list \<Rightarrow> uuid list" where
  "retryCandidates eventIds limit rows =
     map ob_id (take (min (max limit 1) 500) (sort_key (\<lambda>r. (ob_created_at r, ob_id r))
       (filter (\<lambda>r. ob_status r = OFailed \<and>
          (case eventIds of Some (i # is) \<Rightarrow> list_ex (\<lambda>j. j = ob_id r) (i # is) | _ \<Rightarrow> True)) rows)))"

definition retryFailedOutboxEvents :: "time \<Rightarrow> uuid list option \<Rightarrow> nat option \<Rightarrow> uuid list dbtx" where
  "retryFailedOutboxEvents now eventIds limit = inTx (
     tx_bind (tx_gets (\<lambda>s. retryCandidates eventIds (case limit of Some n \<Rightarrow> n | None \<Rightarrow> 100) (domain_outbox s))) (\<lambda>ids.
     tx_bind (tx_modify (domain_outbox_update (updateAll ids (requeueRow now)))) (\<lambda>_.
     tx_return ids)))"

end
