(* ===== verification/OutboxOps.thy ===== *)
theory OutboxOps
  imports Outbox Sample
begin

text \<open>
  What the outbox promises to producers and handlers: the shape of every reachable table, that a claim takes the
  oldest available events and nothing else, that a worker whose lock was taken over cannot touch the event any
  more, the outcome of one delivery attempt, and that a processed event stays processed.
\<close>

section \<open>Row and table invariants\<close>

text \<open>
  A row is locked exactly while it is being processed, has a processing time exactly when it was processed, and
  was attempted at most \<open>maxAttempts\<close> times.
\<close>

definition row_ok :: "nat \<Rightarrow> outbox_row \<Rightarrow> bool" where
  "row_ok maxAttempts r \<longleftrightarrow>
     (ob_status r = OProcessing \<longleftrightarrow> ob_locked_at r \<noteq> None) \<and> (ob_locked_at r = None \<longleftrightarrow> ob_locked_by r = None) \<and>
     (ob_status r = OProcessed \<longleftrightarrow> ob_processed_at r \<noteq> None) \<and>
     (ob_status r = OProcessing \<longrightarrow> 0 < ob_attempts r) \<and> ob_attempts r \<le> maxAttempts"

definition outbox_ok :: "env \<Rightarrow> nat \<Rightarrow> db \<Rightarrow> bool" where
  "outbox_ok env maxAttempts s \<longleftrightarrow> list_all (row_ok maxAttempts) (domain_outbox s) \<and>
     distinct (map ob_id (domain_outbox s)) \<and> distinct (map ob_key (domain_outbox s)) \<and>
     (\<forall>i\<in>ob_id ` set (domain_outbox s). \<exists>n<uuid_ctr s. i = gen_uuid env n)"

text \<open>The statements on the table, as one row function applied everywhere.\<close>

lemma updateOwned_map: "updateOwned i w f = map (\<lambda>r. if ownedBy i w r then f r else r)"
  by (simp add: updateOwned_def fun_eq_iff)

lemma updateAll_map: "updateAll ids f = map (\<lambda>r. if ob_id r \<in> set ids then f r else r)"
  by (auto simp: updateAll_def fun_eq_iff list_ex_iff)

lemma outbox_update_cong:
  "f (domain_outbox s) = g (domain_outbox s) \<Longrightarrow> domain_outbox_update f s = domain_outbox_update g s"
  by (cases s) simp

lemma outbox_ok_map:
  assumes ok: "outbox_ok env m s"
    and keep: "\<And>r. ob_id (g r) = ob_id r" "\<And>r. ob_key (g r) = ob_key r" "\<And>r. row_ok m r \<Longrightarrow> row_ok m (g r)"
  shows "outbox_ok env m (domain_outbox_update (map g) s)"
proof -
  have "map ob_id (map g xs) = map ob_id xs" "map ob_key (map g xs) = map ob_key xs"
    "ob_id ` g ` set xs = ob_id ` set xs" for xs
    by (induction xs) (auto simp: keep)
  with ok show ?thesis by (auto simp: outbox_ok_def list_all_iff keep(3) simp del: map_map image_image)
qed

lemma t_find_map_row:
  "(\<And>r. ob_id (g r) = ob_id r) \<Longrightarrow> t_find ob_id i (map g rows) = map_option g (t_find ob_id i rows)"
  by (induction rows) auto

lemma t_find_upd_row:
  "ob_id r' = i \<Longrightarrow> t_find ob_id i rows = Some r \<Longrightarrow> t_find ob_id i (t_upd ob_id i (\<lambda>_. r') rows) = Some r'"
  by (induction rows) (auto split: if_splits)

lemma row_ok_steps:
  "row_ok m r \<Longrightarrow> row_ok m (expireRow now m lt r)"
  "row_ok m r \<Longrightarrow> claimable now m lt r \<Longrightarrow> row_ok m (claimRow now w r)"
  "row_ok m r \<Longrightarrow> row_ok m (processedRow now r)"
  "row_ok m r \<Longrightarrow> row_ok m (failedRow env now b d e r)"
  "row_ok m r \<Longrightarrow> ob_status r = OProcessing \<Longrightarrow> row_ok m (r\<lparr>ob_locked_at := Some now\<rparr>)"
  "row_ok m r \<Longrightarrow> row_ok m (requeueRow now r)"
  by (auto simp: row_ok_def expireRow_def claimRow_def claimable_def lockExpired_def processedRow_def failedRow_def
      requeueRow_def)

lemma row_keeps_keys [simp]:
  "ob_id (expireRow now m lt r) = ob_id r" "ob_key (expireRow now m lt r) = ob_key r"
  "ob_id (claimRow now w r) = ob_id r" "ob_key (claimRow now w r) = ob_key r"
  "ob_id (processedRow now r) = ob_id r" "ob_key (processedRow now r) = ob_key r"
  "ob_id (failedRow env now b d e r) = ob_id r" "ob_key (failedRow env now b d e r) = ob_key r"
  "ob_id (requeueRow now r) = ob_id r" "ob_key (requeueRow now r) = ob_key r"
  by (simp_all add: expireRow_def claimRow_def processedRow_def failedRow_def requeueRow_def)

section \<open>Claims\<close>

text \<open>What the claim does to each row: expired rows fail, then the candidates are taken.\<close>

definition claimFun :: "time \<Rightarrow> string \<Rightarrow> nat \<Rightarrow> nat \<Rightarrow> int \<Rightarrow> outbox_row list \<Rightarrow> outbox_row \<Rightarrow> outbox_row" where
  "claimFun now w n m lt rows r =
     (let r1 = expireRow now m lt r in
      if ob_id r \<in> ob_id ` set (candidates now n m lt (map (expireRow now m lt) rows)) then claimRow now w r1 else r1)"

lemma claimRows_map:
  "snd (claimRows now w n m lt rows) = map (claimFun now w n m lt rows) rows"
  by (simp add: claimRows_def Let_def updateAll_map claimFun_def)

lemma claimFun_keys [simp]:
  "ob_id (claimFun now w n m lt rows r) = ob_id r" "ob_key (claimFun now w n m lt rows r) = ob_key r"
  by (simp_all add: claimFun_def Let_def)

lemma claimOutboxBatch_iff:
  "claimOutboxBatch now w n m lt s = (Inr evs, s') \<longleftrightarrow>
   evs = fst (claimRows now w n m lt (domain_outbox s)) \<and>
   s' = domain_outbox_update (map (claimFun now w n m lt (domain_outbox s))) s"
  by (auto simp: claimOutboxBatch_def tx_simps claimRows_map)

lemma candidates_subset: "set (candidates now n m lt rows) \<subseteq> {r \<in> set rows. claimable now m lt r}"
  unfolding candidates_def by (auto dest: in_set_takeD)

lemma distinct_expired:
  "distinct (map ob_id rows) \<Longrightarrow> distinct (map ob_id (map (expireRow now m lt) rows))"
  by (simp add: comp_def)

lemma same_id: "distinct (map ob_id rows) \<Longrightarrow> r \<in> set rows \<Longrightarrow> r' \<in> set rows \<Longrightarrow> ob_id r = ob_id r' \<Longrightarrow> r = r'"
  by (simp add: distinct_map inj_on_def)

lemma candidate_row:
  assumes "distinct (map ob_id rows)" "r \<in> set rows"
    and "ob_id r \<in> ob_id ` set (candidates now n m lt (map (expireRow now m lt) rows))"
  shows "claimable now m lt (expireRow now m lt r)"
proof -
  from assms(3) obtain c where c: "c \<in> set (candidates now n m lt (map (expireRow now m lt) rows))" "ob_id c = ob_id r"
    by auto
  then have "claimable now m lt c" "c \<in> set (map (expireRow now m lt) rows)"
    using candidates_subset [of now n m lt "map (expireRow now m lt) rows"] by auto
  moreover have "c = expireRow now m lt r"
    using same_id [OF distinct_expired [OF assms(1)], of c now m lt "expireRow now m lt r"] calculation(2) assms(2) c(2)
    by auto
  ultimately show ?thesis by simp
qed

lemma claimable_not_expired: "claimable now m lt (expireRow now m lt r) \<Longrightarrow> expireRow now m lt r = r"
  by (auto simp: claimable_def expireRow_def lockExpired_def split: if_splits)

lemma candidate_old:
  assumes "distinct (map ob_id rows)" "c \<in> set (candidates now n m lt (map (expireRow now m lt) rows))"
  shows "c \<in> set rows \<and> claimable now m lt c"
proof -
  from candidates_subset [of now n m lt "map (expireRow now m lt) rows"] assms(2)
  obtain r where r: "r \<in> set rows" "c = expireRow now m lt r" "claimable now m lt c" by auto
  then show ?thesis using claimable_not_expired by metis
qed

lemma outbox_ok_claim:
  assumes "outbox_ok env m s"
  shows "outbox_ok env m (domain_outbox_update (map (claimFun now w n m lt (domain_outbox s))) s)"
proof -
  let ?rows = "domain_outbox s"
  let ?g = "\<lambda>r. if r \<in> set ?rows then claimFun now w n m lt ?rows r else r"
  have d: "distinct (map ob_id ?rows)" using assms by (simp add: outbox_ok_def)
  have "row_ok m (?g r)" if "row_ok m r" for r
    using that candidate_row [OF d, of r now n m lt] row_ok_steps(1) [OF that]
    by (auto simp: claimFun_def Let_def intro: row_ok_steps(2))
  then have "outbox_ok env m (domain_outbox_update (map ?g) s)"
    by (intro outbox_ok_map [OF assms]) auto
  moreover have "map ?g ?rows = map (claimFun now w n m lt ?rows) ?rows" by simp
  ultimately show ?thesis by (simp add: outbox_ok_def)
qed

definition queue_pos :: "outbox_row \<Rightarrow> time \<times> time \<times> uuid" where
  "queue_pos r = (ob_available_at r, ob_created_at r, ob_id r)"

text \<open>The candidates are the first rows of the queue of claimable rows.\<close>

lemma candidates_left:
  assumes "r \<in> set rows" "claimable now m lt r" "r \<notin> set (candidates now n m lt rows)"
  shows "length (candidates now n m lt rows) = n \<and> (\<forall>c\<in>set (candidates now n m lt rows). queue_pos c \<le> queue_pos r)"
proof -
  let ?q = "sort_key queue_pos (filter (claimable now m lt) rows)"
  have cs: "candidates now n m lt rows = take n ?q"
    by (simp add: candidates_def queue_pos_def [abs_def])
  have r: "r \<in> set ?q" "r \<notin> set (take n ?q)" using assms by (simp_all add: cs)
  then have dr: "r \<in> set (drop n ?q)" by (metis Un_iff append_take_drop_id set_append)
  have "sorted (map queue_pos (take n ?q @ drop n ?q))" by simp
  then have "\<forall>c\<in>set (take n ?q). queue_pos c \<le> queue_pos r" using dr unfolding map_append sorted_append by auto
  moreover have "n \<le> length ?q" using dr by (metis drop_all empty_iff list.set(1) nat_le_linear)
  ultimately show ?thesis by (simp add: cs)
qed

lemma queue_pos_claimRow [simp]: "queue_pos (claimRow now w c) = queue_pos c"
  by (simp add: queue_pos_def claimRow_def)

lemma claimable_kept: "claimable now m lt r \<Longrightarrow> expireRow now m lt r = r"
  by (auto simp: expireRow_def claimable_def lockExpired_def)

text \<open>A claimed event, and a claimable one that was left.\<close>

lemma claimed_event:
  assumes run: "claimOutboxBatch now w n m lt s = (Inr evs, s')" and d: "distinct (map ob_id (domain_outbox s))"
    and ev: "ev \<in> set evs"
  obtains r where "r \<in> set (domain_outbox s)" "claimable now m lt r" "ev = claimRow now w r"
    "t_find ob_id (ob_id ev) (domain_outbox s') = Some ev"
proof -
  let ?rows = "domain_outbox s"
  from run have evs: "evs = map (claimRow now w) (candidates now n m lt (map (expireRow now m lt) ?rows))"
    and s': "domain_outbox s' = map (claimFun now w n m lt ?rows) ?rows"
    by (auto simp: claimOutboxBatch_iff claimRows_def Let_def)
  from ev evs obtain r where r: "r \<in> set (candidates now n m lt (map (expireRow now m lt) ?rows))" "ev = claimRow now w r"
    by auto
  from candidate_old [OF d r(1)] have ro: "r \<in> set ?rows" "claimable now m lt r" by auto
  have "claimFun now w n m lt ?rows r = ev" using r claimable_kept [OF ro(2)] by (simp add: claimFun_def)
  then have "t_find ob_id (ob_id ev) (domain_outbox s') = Some ev"
    using t_find_distinct [OF d ro(1)] r(2) by (simp add: s' t_find_map_row)
  with ro r(2) that show thesis by blast
qed

lemma left_event:
  assumes run: "claimOutboxBatch now w n m lt s = (Inr evs, s')"
    and r: "r \<in> set (domain_outbox s)" "claimable now m lt r" and no: "ob_id r \<notin> ob_id ` set evs"
  shows "length evs = n \<and> (\<forall>ev\<in>set evs. queue_pos ev \<le> queue_pos r) \<and> r \<in> set (domain_outbox s')"
proof -
  let ?rows = "domain_outbox s"
  let ?cs = "candidates now n m lt (map (expireRow now m lt) ?rows)"
  from run have evs: "evs = map (claimRow now w) ?cs" and s': "domain_outbox s' = map (claimFun now w n m lt ?rows) ?rows"
    by (auto simp: claimOutboxBatch_iff claimRows_def Let_def)
  have nc: "r \<notin> set ?cs" using no by (auto simp: evs image_iff)
  have "r \<in> set (map (expireRow now m lt) ?rows)" using r(1) claimable_kept [OF r(2)] by (metis image_eqI list.set_map)
  from candidates_left [OF this r(2) nc] have "length evs = n" "\<forall>ev\<in>set evs. queue_pos ev \<le> queue_pos r" by (auto simp: evs)
  moreover have "claimFun now w n m lt ?rows r = r"
    using no claimable_kept [OF r(2)] by (auto simp: claimFun_def evs image_iff)
  then have "r \<in> set (domain_outbox s')" using r(1) by (metis image_eqI list.set_map s')
  ultimately show ?thesis by blast
qed

section \<open>Steps\<close>

text \<open>
  The statements that workers, producers and administrators interleave on the outbox, and everything else the
  process does to the state (\<open>other\<close>: handlers, requests; they may draw ids).
\<close>

inductive outbox_step :: "env \<Rightarrow> nat \<Rightarrow> db \<Rightarrow> db \<Rightarrow> bool" for env m where
  enqueue: "enqueueDomainEvent env now input s = (Inr row, s') \<Longrightarrow> outbox_step env m s s'"
| claim: "claimOutboxBatch now w n m lt s = (Inr evs, s') \<Longrightarrow> outbox_step env m s s'"
| processed: "markProcessed now ev w s = (r, s') \<Longrightarrow> outbox_step env m s s'"
| failed: "markFailed env now ev w e m base s = (Inr u, s') \<Longrightarrow> outbox_step env m s s'"
| beat: "heartbeatEvent now i w s = (Inr u, s') \<Longrightarrow> outbox_step env m s s'"
| requeue: "retryFailedOutboxEvents now ids limit s = (Inr done_ids, s') \<Longrightarrow> outbox_step env m s s'"
| other: "domain_outbox s' = domain_outbox s \<Longrightarrow> uuid_ctr s \<le> uuid_ctr s' \<Longrightarrow> outbox_step env m s s'"

lemma owned_iff:
  "markFailed env now ev w e m base s = (Inr u, s') \<longleftrightarrow>
     s' = domain_outbox_update (updateOwned (ob_id ev) w (failedRow env now (m \<le> ob_attempts ev) (backoffMs (ob_attempts ev) base) e)) s"
  "heartbeatEvent now i w s = (Inr u, s') \<longleftrightarrow>
     s' = domain_outbox_update (updateOwned i w (\<lambda>r. r\<lparr>ob_locked_at := Some now\<rparr>)) s"
  by (auto simp: markFailed_def heartbeatEvent_def tx_simps)

lemma markProcessed_eq:
  "markProcessed now ev w s =
   (if \<exists>r\<in>set (domain_outbox s). ownedBy (ob_id ev) w r then Inr ()
    else Inl (JsError (''Outbox lock was lost before event '' @ ob_id ev @ '' completed'')),
    domain_outbox_update (updateOwned (ob_id ev) w (processedRow now)) s)"
  by (auto simp: markProcessed_def tx_defs list_ex_iff)

lemma retryFailed_iff:
  "retryFailedOutboxEvents now ids limit s = (Inr done_ids, s') \<longleftrightarrow>
   done_ids = retryCandidates ids (case limit of Some n \<Rightarrow> n | None \<Rightarrow> 100) (domain_outbox s) \<and>
   s' = domain_outbox_update (updateAll done_ids (requeueRow now)) s"
  by (auto simp: retryFailedOutboxEvents_def tx_simps)

lemma retryCandidates_failed:
  "i \<in> set (retryCandidates ids n rows) \<Longrightarrow> \<exists>r\<in>set rows. ob_id r = i \<and> ob_status r = OFailed"
  unfolding retryCandidates_def by (auto dest!: in_set_takeD)

text \<open>A new row is the only change a producer makes, and only for a new key.\<close>

lemma enqueue_cases:
  assumes "enqueueDomainEvent env now input s = (Inr row, s')"
  obtains "s' = s" | "t_find ob_key (oi_key input) (domain_outbox s) = None" "ob_id row = gen_uuid env (uuid_ctr s)"
      "ob_key row = oi_key input" "row_ok m row" "domain_outbox s' = domain_outbox s @ [row]"
      "uuid_ctr s' = Suc (uuid_ctr s)"
proof (cases "t_find ob_key (oi_key input) (domain_outbox s)")
  case None
  with assms show ?thesis
    by (intro that(2)) (auto simp: enqueueDomainEvent_def tx_simps Let_def row_ok_def)
next
  case (Some r)
  with assms show ?thesis by (intro that(1)) (simp add: enqueueDomainEvent_def tx_simps)
qed

lemma outbox_ok_enqueue:
  assumes inj: "inj (gen_uuid env)" and ok: "outbox_ok env m s" and run: "enqueueDomainEvent env now input s = (Inr row, s')"
  shows "outbox_ok env m s'"
proof (rule enqueue_cases [OF run, where m = m])
  assume new: "t_find ob_key (oi_key input) (domain_outbox s) = None" "ob_id row = gen_uuid env (uuid_ctr s)"
    "ob_key row = oi_key input" "row_ok m row" "domain_outbox s' = domain_outbox s @ [row]" "uuid_ctr s' = Suc (uuid_ctr s)"
  have "gen_uuid env (uuid_ctr s) \<notin> ob_id ` set (domain_outbox s)"
    using ok inj by (force simp: outbox_ok_def inj_eq)
  with new ok show ?thesis
    by (auto simp: outbox_ok_def t_find_None_iff less_Suc_eq)
qed (use ok in simp)

lemma outbox_ok_step:
  assumes "inj (gen_uuid env)" "outbox_ok env m s" "outbox_step env m s s'"
  shows "outbox_ok env m s'"
  using assms(3)
proof cases
  case (enqueue now input row)
  with assms show ?thesis by (blast intro: outbox_ok_enqueue)
next
  case (claim now w n lt evs)
  with assms show ?thesis by (auto simp: claimOutboxBatch_iff intro: outbox_ok_claim)
next
  case (processed now ev w r)
  with assms show ?thesis
    by (auto simp: markProcessed_eq updateOwned_map intro!: outbox_ok_map row_ok_steps)
next
  case (failed now ev w e base u)
  with assms show ?thesis
    by (auto simp: owned_iff updateOwned_map intro!: outbox_ok_map row_ok_steps)
next
  case (beat now i w u)
  with assms show ?thesis
    by (auto simp: owned_iff updateOwned_map ownedBy_def intro!: outbox_ok_map row_ok_steps)
next
  case (requeue now ids limit done_ids)
  with assms show ?thesis
    by (auto simp: retryFailed_iff updateAll_map intro!: outbox_ok_map row_ok_steps)
next
  case other
  with assms(2) show ?thesis by (auto simp: outbox_ok_def) (meson less_le_trans)
qed

text \<open>A processed row is not touched by any step.\<close>

lemma processed_kept:
  assumes ok: "outbox_ok env m s" and st: "outbox_step env m s s'"
    and r: "r \<in> set (domain_outbox s)" "ob_status r = OProcessed"
  shows "r \<in> set (domain_outbox s')"
  using st
proof cases
  case (enqueue now input row)
  with r show ?thesis by (auto elim: enqueue_cases)
next
  case (claim now w n lt evs)
  let ?rows = "domain_outbox s"
  have "expireRow now m lt r = r" using r(2) by (simp add: expireRow_def lockExpired_def)
  moreover have "\<not> claimable now m lt r" using r(2) by (simp add: claimable_def lockExpired_def)
  ultimately have "claimFun now w n m lt ?rows r = r"
    using candidate_row [of ?rows r now n m lt] ok r(1) by (auto simp: claimFun_def Let_def outbox_ok_def)
  with claim r(1) show ?thesis by (force simp: claimOutboxBatch_iff)
next
  case (processed now ev w res)
  with r show ?thesis by (auto simp: markProcessed_eq updateOwned_map ownedBy_def image_iff intro!: bexI [of _ r])
next
  case (failed now ev w e base u)
  with r show ?thesis by (auto simp: owned_iff updateOwned_map ownedBy_def image_iff intro!: bexI [of _ r])
next
  case (beat now i w u)
  with r show ?thesis by (auto simp: owned_iff updateOwned_map ownedBy_def image_iff intro!: bexI [of _ r])
next
  case (requeue now ids limit done_ids)
  have "ob_id r \<notin> set done_ids"
  proof
    assume "ob_id r \<in> set done_ids"
    with requeue obtain r' where "r' \<in> set (domain_outbox s)" "ob_id r' = ob_id r" "ob_status r' = OFailed"
      using retryCandidates_failed [of "ob_id r" ids _ "domain_outbox s"] by (auto simp: retryFailed_iff)
    with same_id [of "domain_outbox s" r' r] ok r show False by (simp add: outbox_ok_def)
  qed
  with requeue r(1) show ?thesis by (auto simp: retryFailed_iff updateAll_map image_iff intro!: bexI [of _ r])
next
  case other
  with r(1) show ?thesis by simp
qed

text \<open>The outbox of a deployment with a collision-free id supply, from an empty table on.\<close>

definition uuid_supply :: "env \<Rightarrow> bool" where
  "uuid_supply env \<longleftrightarrow> inj (gen_uuid env)"

lemma outbox_ok_empty: "domain_outbox s = [] \<Longrightarrow> outbox_ok env m s"
  by (simp add: outbox_ok_def)

interpretation outbox_sys: transition_system "\<lambda>s. uuid_supply env \<and> domain_outbox s = []" "outbox_step env m"
  "\<lambda>s. uuid_supply env \<and> outbox_ok env m s"
  by unfold_locales (auto simp: uuid_supply_def intro: outbox_ok_step outbox_ok_empty)

section \<open>Properties\<close>

text \<open>
  C22: the outbox table is well formed in every state that producers, workers, administrators and the rest of the
  system can reach from an empty table: event keys and ids are unique, a row is locked exactly while it is being
  processed, carries a processing time exactly when it was processed, and was attempted at most
  \<open>maxAttempts\<close> times.
\<close>

theorem outbox_reachable_ok:
  assumes "inj (gen_uuid env)" "domain_outbox s0 = []" "(outbox_step env m)\<^sup>*\<^sup>* s0 s"
  shows "outbox_ok env m s"
  using outbox_sys.inv_reachable [of env s0 m s] assms by (simp add: uuid_supply_def)

text \<open>
  C23: a processed event is final: whatever statements follow, in any interleaving, its row stays in the table
  unchanged, so it is never claimed, failed, requeued or processed again.
\<close>

theorem processed_final:
  assumes "(outbox_step env m)\<^sup>*\<^sup>* s s'" "inj (gen_uuid env)" "outbox_ok env m s"
    and "r \<in> set (domain_outbox s)" "ob_status r = OProcessed"
  shows "r \<in> set (domain_outbox s')"
proof -
  from assms(1) have "outbox_ok env m s' \<and> r \<in> set (domain_outbox s')"
    by (induction rule: rtranclp_induct)
      (use assms(2-5) in \<open>auto intro: outbox_ok_step processed_kept\<close>)
  then show ?thesis ..
qed

text \<open>
  A claim takes the front of the queue and nothing else. It returns at most \<open>batchSize\<close> events; each was
  claimable, and is now in the table as being processed by this worker with one attempt more; a claimable event
  it left is not ahead of any it took, and is left only when the batch is full.
\<close>

theorem claim_takes_front:
  assumes run: "claimOutboxBatch now w n m lt s = (Inr evs, s')" and ok: "outbox_ok env m s"
  shows "length evs \<le> n \<and>
    (\<forall>ev\<in>set evs. \<exists>r\<in>set (domain_outbox s). claimable now m lt r \<and> ob_id ev = ob_id r \<and>
       ob_attempts ev = Suc (ob_attempts r) \<and> ob_attempts ev \<le> m \<and> ob_status ev = OProcessing \<and>
       ob_locked_by ev = Some w \<and> ob_locked_at ev = Some now \<and> t_find ob_id (ob_id ev) (domain_outbox s') = Some ev) \<and>
    (\<forall>r\<in>set (domain_outbox s). claimable now m lt r \<longrightarrow> ob_id r \<notin> ob_id ` set evs \<longrightarrow>
       length evs = n \<and> (\<forall>ev\<in>set evs. queue_pos ev \<le> queue_pos r) \<and> r \<in> set (domain_outbox s'))"
proof (intro conjI ballI impI)
  show "length evs \<le> n" using run by (auto simp: claimOutboxBatch_iff claimRows_def Let_def candidates_def)
next
  fix ev assume "ev \<in> set evs"
  with run ok obtain r where "r \<in> set (domain_outbox s)" "claimable now m lt r" "ev = claimRow now w r"
    "t_find ob_id (ob_id ev) (domain_outbox s') = Some ev"
    unfolding outbox_ok_def by (blast elim: claimed_event)
  then show "\<exists>r\<in>set (domain_outbox s). claimable now m lt r \<and> ob_id ev = ob_id r \<and>
       ob_attempts ev = Suc (ob_attempts r) \<and> ob_attempts ev \<le> m \<and> ob_status ev = OProcessing \<and>
       ob_locked_by ev = Some w \<and> ob_locked_at ev = Some now \<and> t_find ob_id (ob_id ev) (domain_outbox s') = Some ev"
    by (auto simp: claimRow_def claimable_def intro!: bexI [of _ r])
qed (use left_event [OF run] in blast)+

text \<open>
  Ownership is exclusive: once a worker has claimed an event, no statement of another worker on that event has
  any effect: recording its success throws and changes nothing, recording its failure and extending its lock
  change nothing.
\<close>

theorem lock_lost_no_effect:
  assumes run: "claimOutboxBatch now w n m lt s = (Inr evs, s')" and ok: "outbox_ok env m s"
    and ev: "ev \<in> set evs" and other: "w' \<noteq> w" "ob_id ev' = ob_id ev"
  shows "isl (fst (markProcessed t ev' w' s')) \<and> snd (markProcessed t ev' w' s') = s' \<and>
    markFailed env t ev' w' e m' base s' = (Inr (), s') \<and> heartbeatEvent t (ob_id ev) w' s' = (Inr (), s')"
proof -
  from run ok ev obtain r where r: "ev = claimRow now w r" "t_find ob_id (ob_id ev) (domain_outbox s') = Some ev"
    unfolding outbox_ok_def by (blast elim: claimed_event)
  have "outbox_ok env m s'" using run ok by (auto simp: claimOutboxBatch_iff intro: outbox_ok_claim)
  then have no: "\<not> ownedBy (ob_id ev) w' x" if "x \<in> set (domain_outbox s')" for x
    using t_find_distinct [of ob_id "domain_outbox s'" x] that r other(1)
    by (auto simp: outbox_ok_def ownedBy_def claimRow_def)
  then have "updateOwned (ob_id ev) w' f (domain_outbox s') = domain_outbox s'" for f
    by (auto simp: updateOwned_def intro: map_idI)
  then show ?thesis using no other(2)
    by (auto simp: markProcessed_eq owned_iff)
qed

text \<open>
  One delivery attempt of a claimed event, whatever the handler does, ends it in the state the handler's outcome
  calls for, provided the worker still owns the row: processed when the handler returned, pending again after the
  backoff when it threw and attempts are left, failed when none are; only that row of the outbox changes.
\<close>

theorem delivery_outcome:
  assumes h: "handler ev s = (res, s1)" and d: "distinct (map ob_id (domain_outbox s1))"
    and r: "t_find ob_id (ob_id ev) (domain_outbox s1) = Some r" "ob_status r = OProcessing" "ob_locked_by r = Some w"
  shows "\<exists>s' r'. processClaimedEvent env now handler w m base ev s = (Inr (\<not> isl res), s') \<and>
    s' = domain_outbox_update (t_upd ob_id (ob_id ev) (\<lambda>_. r')) s1 \<and> ob_id r' = ob_id ev \<and> ob_key r' = ob_key r \<and>
    ob_attempts r' = ob_attempts r \<and> ob_locked_by r' = None \<and>
    ob_status r' = (if \<not> isl res then OProcessed else if ob_attempts ev < m then OPending else OFailed) \<and>
    (ob_status r' = OPending \<longrightarrow> ob_available_at r' = now + backoffMs (ob_attempts ev) base)"
proof -
  have one: "updateOwned (ob_id ev) w f (domain_outbox s1) = t_upd ob_id (ob_id ev) (\<lambda>_. f r) (domain_outbox s1)" for f
    using t_find_distinct [OF d] r by (fastforce simp: updateOwned_def t_upd_def ownedBy_def)
  have ex: "\<exists>x\<in>set (domain_outbox s1). ownedBy (ob_id ev) w x"
    using r t_find_Some [OF r(1)] by (auto simp: ownedBy_def)
  have i: "ob_id r = ob_id ev" using t_find_Some [OF r(1)] by simp
  show ?thesis
  proof (cases res)
    case (Inl e)
    have "markFailed env now ev w e m base s1 = (Inr (), domain_outbox_update (t_upd ob_id (ob_id ev)
        (\<lambda>_. failedRow env now (m \<le> ob_attempts ev) (backoffMs (ob_attempts ev) base) e r)) s1)"
      by (auto simp: owned_iff one intro: outbox_update_cong)
    with h Inl i show ?thesis
      by (auto simp: processClaimedEvent_def tx_catch_def tx_defs failedRow_def)
  next
    case (Inr u)
    have "markProcessed now ev w s1 = (Inr (), domain_outbox_update (t_upd ob_id (ob_id ev) (\<lambda>_. processedRow now r)) s1)"
      using ex by (auto simp: markProcessed_eq one intro: outbox_update_cong)
    with h Inr i show ?thesis
      by (auto simp: processClaimedEvent_def tx_catch_def tx_defs processedRow_def)
  qed
qed

text \<open>
  The retry delay starts at the base delay, doubles with every attempt and never exceeds a day.
\<close>

theorem backoff_doubles:
  assumes "0 < base" "base \<le> MAX_BACKOFF_MS"
  shows "backoffMs 1 base = base \<and> backoffMs (Suc (Suc a)) base = min (2 * backoffMs (Suc a) base) MAX_BACKOFF_MS \<and>
    base \<le> backoffMs a base \<and> backoffMs a base \<le> MAX_BACKOFF_MS"
proof -
  have "base * 1 \<le> base * 2 ^ k" for k :: nat using assms(1) by (intro mult_left_mono) auto
  with assms show ?thesis by (auto simp: backoffMs_def min_def)
qed

section \<open>Witnesses\<close>

definition event0 :: "string \<Rightarrow> outbox_input" where
  "event0 key = \<lparr>oi_key = key, oi_type = ''order.paid'', oi_aggregate_type = ''order'', oi_aggregate_id = ''o1'',
     oi_payload = JObj []\<rparr>"

definition queued0 :: db where
  "queued0 = snd (enqueueDomainEvent env0 1 (event0 ''b'') (snd (enqueueDomainEvent env0 0 (event0 ''a'') empty_db)))"

definition claimed0 :: "outbox_row list result \<times> db" where
  "claimed0 = claimOutboxBatch 10 ''w1'' 1 3 1000 queued0"

lemma queued0_ok: "outbox_ok env0 3 queued0"
proof -
  have ok: "outbox_ok env0 3 empty_db" by (simp add: outbox_ok_def empty_db_def)
  obtain r1 s1 where e1: "enqueueDomainEvent env0 0 (event0 ''a'') empty_db = (Inr r1, s1)" by (metis enqueueDomainEvent_Inr)
  obtain r2 s2 where e2: "enqueueDomainEvent env0 1 (event0 ''b'') s1 = (Inr r2, s2)" by (metis enqueueDomainEvent_Inr)
  show ?thesis
    using outbox_ok_enqueue [OF inj_gen_uuid0 outbox_ok_enqueue [OF inj_gen_uuid0 ok e1] e2] by (simp add: queued0_def e1 e2)
qed

lemma claimed0_runs: "claimOutboxBatch 10 ''w1'' 1 3 1000 queued0 = (Inr [claimRow 10 ''w1'' (hd (domain_outbox queued0))], snd claimed0)"
  by code_simp

lemma queued0_reachable: "(outbox_step env0 3)\<^sup>*\<^sup>* empty_db queued0"
proof -
  obtain r1 s1 where e1: "enqueueDomainEvent env0 0 (event0 ''a'') empty_db = (Inr r1, s1)" by (metis enqueueDomainEvent_Inr)
  obtain r2 s2 where e2: "enqueueDomainEvent env0 1 (event0 ''b'') s1 = (Inr r2, s2)" by (metis enqueueDomainEvent_Inr)
  have "outbox_step env0 3 empty_db s1" "outbox_step env0 3 s1 queued0"
    using e1 e2 by (auto simp: queued0_def intro: outbox_step.enqueue)
  then show ?thesis by (meson converse_rtranclp_into_rtranclp r_into_rtranclp)
qed

theorem outbox_reachable_ok_witness:
  "outbox_ok env0 3 (snd claimed0) \<and> length (domain_outbox (snd claimed0)) = 2"
proof
  have "(outbox_step env0 3)\<^sup>*\<^sup>* empty_db (snd claimed0)"
    using queued0_reachable outbox_step.claim [OF claimed0_runs] by (rule rtranclp.rtrancl_into_rtrancl)
  then show "outbox_ok env0 3 (snd claimed0)"
    by (intro outbox_reachable_ok [OF inj_gen_uuid0, of empty_db]) (simp_all add: empty_db_def)
  show "length (domain_outbox (snd claimed0)) = 2" by code_simp
qed

definition delivered_ev0 :: "bool result \<times> db" where
  "delivered_ev0 = processClaimedEvent env0 20 (\<lambda>_. tx_return ()) ''w1'' 3 1000 (hd (projr (fst claimed0))) (snd claimed0)"

theorem processed_final_witness:
  "hd (domain_outbox (snd delivered_ev0)) \<in> set (domain_outbox (snd delivered_ev0)) \<and>
   ob_status (hd (domain_outbox (snd delivered_ev0))) = OProcessed \<and>
   hd (domain_outbox (snd delivered_ev0)) \<in> set (domain_outbox (snd (claimOutboxBatch 99 ''w2'' 5 3 1000 (snd delivered_ev0))))"
proof -
  let ?s = "snd delivered_ev0"
  have claimed: "outbox_ok env0 3 (snd claimed0)"
    using outbox_ok_step [OF inj_gen_uuid0 queued0_ok outbox_step.claim [OF claimed0_runs]] .
  have "?s = snd (markProcessed 20 (hd (projr (fst claimed0))) ''w1'' (snd claimed0))" by code_simp
  then have "outbox_step env0 3 (snd claimed0) ?s" by (metis outbox_step.processed prod.collapse)
  then have ok: "outbox_ok env0 3 ?s" by (rule outbox_ok_step [OF inj_gen_uuid0 claimed])
  have r: "hd (domain_outbox ?s) \<in> set (domain_outbox ?s)" "ob_status (hd (domain_outbox ?s)) = OProcessed" by code_simp+
  obtain evs where run: "claimOutboxBatch 99 ''w2'' 5 3 1000 ?s = (Inr evs, snd (claimOutboxBatch 99 ''w2'' 5 3 1000 ?s))"
    by (auto simp: claimOutboxBatch_iff claimOutboxBatch_def inTx_def tx_defs claimRows_map)
  from processed_final [OF r_into_rtranclp [of "outbox_step env0 3", OF outbox_step.claim [OF run]] inj_gen_uuid0 ok r] r
  show ?thesis by simp
qed

theorem claim_takes_front_witness:
  "t_find ob_id ''u'' (domain_outbox (snd claimed0)) = Some (hd (projr (fst claimed0))) \<and>
   ob_attempts (hd (projr (fst claimed0))) = 1"
proof -
  have "hd (projr (fst claimed0)) = claimRow 10 ''w1'' (hd (domain_outbox queued0))" by code_simp
  moreover have "ob_id (hd (domain_outbox queued0)) = ''u''" "ob_attempts (hd (domain_outbox queued0)) = 0" by code_simp+
  ultimately show ?thesis using claim_takes_front [OF claimed0_runs queued0_ok] by (auto simp: claimRow_def)
qed

theorem lock_lost_no_effect_witness:
  "isl (fst (markProcessed 20 (hd (projr (fst claimed0))) ''w2'' (snd claimed0)))"
proof -
  have e: "hd (projr (fst claimed0)) = claimRow 10 ''w1'' (hd (domain_outbox queued0))" by code_simp
  show ?thesis
    using lock_lost_no_effect [OF claimed0_runs queued0_ok, of _ "''w2''" "hd (projr (fst claimed0))"] by (simp add: e)
qed

theorem delivery_outcome_witness:
  "\<exists>s' r'. processClaimedEvent env0 20 (\<lambda>_. tx_throw (JsError ''down'')) ''w1'' 3 1000 (hd (projr (fst claimed0))) (snd claimed0)
      = (Inr False, s') \<and> t_find ob_id ''u'' (domain_outbox s') = Some r' \<and> ob_status r' = OPending \<and> ob_available_at r' = 1020"
proof -
  let ?ev = "hd (projr (fst claimed0))"
  have i: "ob_id ?ev = ''u''" "ob_attempts ?ev = 1" by code_simp+
  have d: "distinct (map ob_id (domain_outbox (snd claimed0)))" by code_simp
  have r: "t_find ob_id (ob_id ?ev) (domain_outbox (snd claimed0)) = Some ?ev" "ob_status ?ev = OProcessing"
    "ob_locked_by ?ev = Some ''w1''" by code_simp+
  have h: "(\<lambda>_. tx_throw (JsError ''down'')) ?ev (snd claimed0) = (Inl (JsError ''down''), snd claimed0)"
    by (simp add: tx_defs)
  have b: "backoffMs (Suc 0) 1000 = 1000" by (simp add: backoffMs_def MAX_BACKOFF_MS_def)
  from delivery_outcome [of "\<lambda>_. tx_throw (JsError ''down'')", OF h d r, of env0 20 3 1000] obtain s' r' where
    "processClaimedEvent env0 20 (\<lambda>_. tx_throw (JsError ''down'')) ''w1'' 3 1000 ?ev (snd claimed0) = (Inr False, s')"
    "s' = domain_outbox_update (t_upd ob_id ''u'' (\<lambda>_. r')) (snd claimed0)" "ob_id r' = ''u''" "ob_status r' = OPending"
    "ob_available_at r' = 1020"
    by (auto simp: i b)
  moreover from this r(1) have "t_find ob_id ''u'' (domain_outbox s') = Some r'"
    by (simp add: i t_find_upd_row)
  ultimately show ?thesis by blast
qed

theorem backoff_doubles_witness: "backoffMs 1 2000 = 2000 \<and> backoffMs 3 2000 = min (2 * backoffMs 2 2000) MAX_BACKOFF_MS"
  using backoff_doubles [of 2000 1] by (simp add: MAX_BACKOFF_MS_def numeral_eq_Suc)

end
