(* ===== verification/Idempotency.thy ===== *)
theory Idempotency
  imports Outbox Sample "HOL-Library.Multiset"
begin

text \<open>
  Request idempotency, \<open>modules/idempotency/idempotency.service.ts\<close>: the canonical form and hash of a request
  body, and the transaction that runs a request once per (user, scope, key) and replays its stored response. The
  digest \<open>sha256\<close> and the callback \<open>execute\<close> are arguments.
\<close>

section \<open>Request hash\<close>

lemma size_member: "(k, v) \<in> set fs \<Longrightarrow> size v < size (JObj fs)"
  by (induction fs) auto

text \<open>
  \<open>Object.keys(record).sort()\<close> orders by code units, which on byte characters is the lexical order. A JSON value
  has no \<open>undefined\<close> members, and its keys are taken not to be array indices, which JavaScript enumerates first.
\<close>

function canonicalize :: "json \<Rightarrow> json" where
  "canonicalize (JArr xs) = JArr (map canonicalize xs)"
| "canonicalize (JObj fs) = JObj (map (\<lambda>kv. (fst kv, canonicalize (snd kv))) (sort_key fst fs))"
| "canonicalize JNull = JNull"
| "canonicalize (JBool b) = JBool b"
| "canonicalize (JNum n) = JNum n"
| "canonicalize (JStr x) = JStr x"
  by pat_completeness auto
termination
proof (relation "measure size")
  fix xs :: "json list" and x assume "x \<in> set xs"
  then show "(x, JArr xs) \<in> measure size" by (induction xs) auto
next
  fix fs :: "(string \<times> json) list" and kv assume "kv \<in> set (sort_key fst fs)"
  then show "(snd kv, JObj fs) \<in> measure size" using size_member [of "fst kv" "snd kv" fs] by simp
qed simp

definition hashIdempotencyPayload :: "(string \<Rightarrow> string) \<Rightarrow> json \<Rightarrow> string" where
  "hashIdempotencyPayload sha256 payload = sha256 (stringify (canonicalize payload))"

section \<open>The idempotent transaction\<close>

definition DEFAULT_TTL_MS :: int where
  "DEFAULT_TTL_MS = 24 * 60 * 60 * 1000"

definition EXPIRED_CLEANUP_BATCH_SIZE :: nat where
  "EXPIRED_CLEANUP_BATCH_SIZE = 100"

text \<open>A body of \<open>None\<close> is a value \<open>JSON.stringify\<close> has no text for.\<close>

record IdempotentResponse =
  rs_status :: nat
  rs_body :: "json option"
  rs_resource :: "uuid option"

record IdempotentTransactionResult = IdempotentResponse +
  rs_replayed :: bool

definition normalizeResponseBody :: "json option \<Rightarrow> json result" where
  "normalizeResponseBody body = (case body of
     None \<Rightarrow> Inl (JsError ''Idempotent response body must be JSON serializable'') | Some j \<Rightarrow> Inr j)"

definition idem_key :: "idem_row \<Rightarrow> uuid \<times> string \<times> uuid" where
  "idem_key r = (ik_user r, ik_scope r, ik_key r)"

definition expiredIds :: "time \<Rightarrow> idem_row list \<Rightarrow> uuid list" where
  "expiredIds now rows = map ik_id (take EXPIRED_CLEANUP_BATCH_SIZE
     (sort_key ik_expires_at (filter (\<lambda>r. ik_expires_at r \<le> now) rows)))"

definition cleanupRows :: "time \<Rightarrow> uuid \<times> string \<times> uuid \<Rightarrow> idem_row list \<Rightarrow> idem_row list" where
  "cleanupRows now k rows =
     (let rows1 = filter (\<lambda>r. \<not> (idem_key r = k \<and> ik_expires_at r \<le> now)) rows;
          ids = expiredIds now rows1 in
      filter (\<lambda>r. \<not> list_ex (\<lambda>i. i = ik_id r) ids) rows1)"

definition cleanupExpiredKeys :: "time \<Rightarrow> uuid \<times> string \<times> uuid \<Rightarrow> unit dbtx" where
  "cleanupExpiredKeys now k = tx_modify (idempotency_keys_update (cleanupRows now k))"

text \<open>The constraints of the table on a claim: scope, hash format, expiry, and the reference to the user.\<close>

definition hex_char :: "char \<Rightarrow> bool" where
  "hex_char c \<longleftrightarrow> is_digit c \<or> ((97::nat) \<le> of_char c \<and> of_char c \<le> (102::nat))"

definition btrim :: "string \<Rightarrow> string" where
  "btrim x = rev (dropWhile (\<lambda>c. c = CHR '' '') (rev (dropWhile (\<lambda>c. c = CHR '' '') x)))"

definition claim_check :: "time \<Rightarrow> idem_row \<Rightarrow> bool" where
  "claim_check now r \<longleftrightarrow> 1 \<le> length (btrim (ik_scope r)) \<and> length (btrim (ik_scope r)) \<le> 100 \<and>
     length (ik_hash r) = 64 \<and> list_all hex_char (ik_hash r) \<and> now < ik_expires_at r"

definition claimKey :: "env \<Rightarrow> time \<Rightarrow> uuid \<times> string \<times> uuid \<Rightarrow> string \<Rightarrow> int option \<Rightarrow> uuid dbtx" where
  "claimKey env now k hash ttl =
     tx_bind (gen_random_uuid env) (\<lambda>rid.
     let row = \<lparr>ik_id = rid, ik_user = fst k, ik_scope = fst (snd k), ik_key = snd (snd k), ik_hash = hash,
                ik_status = IProcessing, ik_response_status = None, ik_response_body = None, ik_resource = None,
                ik_expires_at = now + (case ttl of Some t \<Rightarrow> t | None \<Rightarrow> DEFAULT_TTL_MS)\<rparr> in
     tx_bind (tx_guard (claim_check now row) (PgError ''23514'')) (\<lambda>_.
     tx_bind (tx_gets (\<lambda>s. t_find u_id (fst k) (users s) \<noteq> None)) (\<lambda>fk.
     tx_bind (tx_guard fk (PgError ''23503'')) (\<lambda>_.
     tx_bind (tx_modify (idempotency_keys_update (\<lambda>rows. rows @ [row]))) (\<lambda>_.
     tx_return rid)))))"

text \<open>A stored JSON \<open>null\<close> is read back as \<open>null\<close>, like an absent body.\<close>

definition replayRow :: "idem_row \<Rightarrow> string \<Rightarrow> IdempotentTransactionResult result" where
  "replayRow row hash =
     (if ik_hash row \<noteq> hash then
        Inl (ApiError 409 ''This idempotency key was already used with a different request'' ''idempotency_key_reused'')
      else case (ik_status row, ik_response_status row, ik_response_body row) of
        (ICompleted, Some st, Some j) \<Rightarrow>
          if j = JNull then
            Inl (ApiError 409 ''A request with this idempotency key is still processing'' ''idempotency_in_progress'')
          else Inr \<lparr>rs_status = st, rs_body = Some j, rs_resource = ik_resource row, rs_replayed = True\<rparr>
      | _ \<Rightarrow> Inl (ApiError 409 ''A request with this idempotency key is still processing'' ''idempotency_in_progress''))"

definition completedRow :: "nat \<Rightarrow> json \<Rightarrow> uuid option \<Rightarrow> idem_row \<Rightarrow> idem_row" where
  "completedRow st body res r = r\<lparr>ik_status := ICompleted, ik_response_status := Some st,
     ik_response_body := Some body, ik_resource := res\<rparr>"

definition completeKey :: "uuid \<Rightarrow> IdempotentResponse \<Rightarrow> IdempotentTransactionResult dbtx" where
  "completeKey rid executed =
     tx_bind (tx_lift (normalizeResponseBody (rs_body executed))) (\<lambda>body.
     tx_bind (tx_gets (\<lambda>s. filter (\<lambda>r. ik_id r = rid \<and> ik_status r = IProcessing) (idempotency_keys s))) (\<lambda>hit.
     tx_bind (tx_guard (hit = [] \<or> 100 \<le> rs_status executed \<and> rs_status executed \<le> 599) (PgError ''23514'')) (\<lambda>_.
     tx_bind (tx_modify (idempotency_keys_update (map (\<lambda>r. if ik_id r = rid \<and> ik_status r = IProcessing
         then completedRow (rs_status executed) body (rs_resource executed) r else r)))) (\<lambda>_.
     tx_bind (tx_guard (length hit = 1) (JsError ''Idempotency result could not be completed'')) (\<lambda>_.
     tx_return \<lparr>rs_status = rs_status executed, rs_body = Some body, rs_resource = rs_resource executed,
       rs_replayed = False\<rparr>)))))"

definition runIdempotentTransaction ::
  "env \<Rightarrow> time \<Rightarrow> uuid \<times> string \<times> uuid \<Rightarrow> string \<Rightarrow> int option \<Rightarrow> IdempotentResponse dbtx \<Rightarrow>
   IdempotentTransactionResult dbtx" where
  "runIdempotentTransaction env now k hash ttl execute = inTx (
     tx_bind (cleanupExpiredKeys now k) (\<lambda>_.
     tx_bind (tx_gets (\<lambda>s. t_find idem_key k (idempotency_keys s))) (\<lambda>existing.
     case existing of
       Some row \<Rightarrow> tx_lift (replayRow row hash)
     | None \<Rightarrow> tx_bind (claimKey env now k hash ttl) (\<lambda>rid. tx_bind execute (completeKey rid)))))"

section \<open>Lemmas on the hash\<close>

text \<open>The same JSON data with the members of objects written in another order, at any depth.\<close>

inductive same_data :: "json \<Rightarrow> json \<Rightarrow> bool" where
  same: "same_data j j"
| arr: "list_all2 same_data xs ys \<Longrightarrow> same_data (JArr xs) (JArr ys)"
| obj: "distinct (map fst fs) \<Longrightarrow> mset gs = mset fs \<Longrightarrow>
    list_all2 (\<lambda>x y. fst x = fst y \<and> same_data (snd x) (snd y)) gs hs \<Longrightarrow> same_data (JObj fs) (JObj hs)"

definition on_member :: "(json \<Rightarrow> json) \<Rightarrow> string \<times> json \<Rightarrow> string \<times> json" where
  "on_member h kv = (fst kv, h (snd kv))"

lemma insort_on_member:
  "insort_key fst (on_member h x) (map (on_member h) xs) = map (on_member h) (insort_key fst x xs)"
  by (induction xs) (auto simp: on_member_def)

lemma sort_on_member: "sort_key fst (map (on_member h) xs) = map (on_member h) (sort_key fst xs)"
  by (induction xs) (auto simp: insort_on_member)

lemma canonicalize_JObj: "canonicalize (JObj fs) = JObj (sort_key fst (map (on_member canonicalize) fs))"
  by (simp add: sort_on_member) (simp add: on_member_def [abs_def])

lemma sort_members_perm:
  assumes "distinct (map fst fs)" "mset gs = mset fs"
  shows "sort_key fst gs = sort_key fst fs"
proof (rule sort_key_inj_key_eq)
  show "inj_on fst (set gs)" using assms by (metis distinct_map mset_eq_setD)
qed (simp_all add: assms(2))

lemma canonicalize_same: "same_data j j' \<Longrightarrow> canonicalize j = canonicalize j'"
proof (induction rule: same_data.induct)
  case (arr xs ys)
  then show ?case by (simp add: list_all2_conv_all_nth list_eq_iff_nth_eq)
next
  case (obj fs gs hs)
  have "map (on_member canonicalize) gs = map (on_member canonicalize) hs"
    using obj(3) by (simp add: list_all2_conv_all_nth list_eq_iff_nth_eq on_member_def)
  moreover have "canonicalize (JObj fs) = canonicalize (JObj gs)"
    using sort_members_perm [OF obj(1,2)] by simp
  ultimately show ?case by (simp only: canonicalize_JObj)
qed simp

section \<open>Lemmas on the transaction\<close>

definition idem_ok :: "env \<Rightarrow> db \<Rightarrow> bool" where
  "idem_ok env s \<longleftrightarrow> distinct (map idem_key (idempotency_keys s)) \<and> distinct (map ik_id (idempotency_keys s)) \<and>
     (\<forall>i\<in>ik_id ` set (idempotency_keys s). \<exists>n<uuid_ctr s. i = gen_uuid env n)"

lemma cleanupRows_filter: "\<exists>P. cleanupRows now k rows = filter P rows"
  by (auto simp: cleanupRows_def Let_def)

lemma cleanup_distinct:
  "distinct (map f rows) \<Longrightarrow> distinct (map f (cleanupRows now k rows))"
  "set (cleanupRows now k rows) \<subseteq> set rows"
  using cleanupRows_filter [of now k rows] by (auto simp: distinct_map_filter)

lemma cleanup_keeps:
  assumes "distinct (map ik_id rows)" "r \<in> set rows" "now < ik_expires_at r"
  shows "r \<in> set (cleanupRows now k rows)"
proof -
  have "ik_id r \<notin> set (expiredIds now (filter P rows))" for P
  proof
    assume "ik_id r \<in> set (expiredIds now (filter P rows))"
    then obtain r' where "r' \<in> set rows" "ik_id r' = ik_id r" "ik_expires_at r' \<le> now"
      by (auto simp: expiredIds_def dest!: in_set_takeD)
    with assms show False by (metis distinct_map inj_on_def not_less)
  qed
  with assms(2,3) show ?thesis by (auto simp: cleanupRows_def Let_def list_ex_iff)
qed

text \<open>A first run leaves its completed row in the table.\<close>

lemma first_run:
  assumes inj: "inj (gen_uuid env)" and ok: "idem_ok env s"
    and keeps: "\<And>t r t'. execute t = (r, t') \<Longrightarrow> idempotency_keys t' = idempotency_keys t"
    and run: "runIdempotentTransaction env now k hash ttl execute s = (Inr res, s')" and first: "\<not> rs_replayed res"
  obtains row where "row \<in> set (idempotency_keys s')" "idem_key row = k" "ik_hash row = hash" "ik_status row = ICompleted"
    "ik_response_status row = Some (rs_status res)" "ik_response_body row = rs_body res" "rs_body res \<noteq> None"
    "ik_resource row = rs_resource res" "ik_expires_at row = now + (case ttl of Some t \<Rightarrow> t | None \<Rightarrow> DEFAULT_TTL_MS)"
    "distinct (map idem_key (idempotency_keys s'))" "distinct (map ik_id (idempotency_keys s'))"
proof -
  let ?rows = "cleanupRows now k (idempotency_keys s)"
  from run first obtain rid s1 ex s2 where none: "t_find idem_key k ?rows = None"
    and cl: "claimKey env now k hash ttl (idempotency_keys_update (cleanupRows now k) s) = (Inr rid, s1)"
    and ex: "execute s1 = (Inr ex, s2)" and co: "completeKey rid ex s2 = (Inr res, s')"
    by (auto simp: runIdempotentTransaction_def cleanupExpiredKeys_def tx_simps replayRow_def
        split: option.splits if_splits IdemStatus.splits json.splits)
  define row where "row = \<lparr>ik_id = rid, ik_user = fst k, ik_scope = fst (snd k), ik_key = snd (snd k), ik_hash = hash,
    ik_status = IProcessing, ik_response_status = None, ik_response_body = None, ik_resource = None,
    ik_expires_at = now + (case ttl of Some t \<Rightarrow> t | None \<Rightarrow> DEFAULT_TTL_MS)\<rparr>"
  from cl have rid: "rid = gen_uuid env (uuid_ctr s)" and s1: "idempotency_keys s1 = ?rows @ [row]"
    by (auto simp: claimKey_def tx_simps Let_def row_def)
  have fresh: "rid \<notin> ik_id ` set ?rows"
    using ok inj cleanup_distinct(2) [of now k "idempotency_keys s"] rid by (force simp: idem_ok_def inj_eq)
  have id: "ik_id row = rid" "idem_key row = k" by (simp_all add: row_def idem_key_def)
  from co obtain body where body: "rs_body ex = Some body" and
    res: "res = \<lparr>rs_status = rs_status ex, rs_body = Some body, rs_resource = rs_resource ex, rs_replayed = False\<rparr>"
    and s': "idempotency_keys s' = map (\<lambda>r. if ik_id r = rid \<and> ik_status r = IProcessing
         then completedRow (rs_status ex) body (rs_resource ex) r else r) (?rows @ [row])"
    by (auto simp: completeKey_def normalizeResponseBody_def tx_simps keeps [OF ex] s1 split: option.splits)
  have eq: "idempotency_keys s' = ?rows @ [completedRow (rs_status ex) body (rs_resource ex) row]"
    using fresh by (auto simp: s' id row_def intro!: map_idI)
  show thesis
  proof (rule that [of "completedRow (rs_status ex) body (rs_resource ex) row"])
    show "distinct (map idem_key (idempotency_keys s'))"
      using cleanup_distinct(1) [of idem_key "idempotency_keys s" now k] ok none id
      by (auto simp: eq idem_ok_def t_find_None_iff completedRow_def idem_key_def)
    show "distinct (map ik_id (idempotency_keys s'))"
      using cleanup_distinct(1) [of ik_id "idempotency_keys s" now k] ok fresh id
      by (auto simp: eq idem_ok_def completedRow_def)
  qed (use id in \<open>auto simp: eq completedRow_def res row_def idem_key_def\<close>)
qed

lemma replay_runs:
  assumes "row \<in> set (idempotency_keys s)" "idem_key row = k" "now < ik_expires_at row"
    "distinct (map idem_key (idempotency_keys s))" "distinct (map ik_id (idempotency_keys s))"
  shows "runIdempotentTransaction env now k hash ttl execute s =
    (case replayRow row hash of
       Inr res \<Rightarrow> (Inr res, idempotency_keys_update (cleanupRows now k) s)
     | Inl e \<Rightarrow> (Inl e, rollback s (idempotency_keys_update (cleanupRows now k) s)))"
proof -
  have "row \<in> set (cleanupRows now k (idempotency_keys s))" by (rule cleanup_keeps [OF assms(5,1,3)])
  then have "t_find idem_key k (cleanupRows now k (idempotency_keys s)) = Some row"
    using t_find_distinct [OF cleanup_distinct(1) [OF assms(4)]] assms(2) by blast
  then show ?thesis
    by (auto simp: runIdempotentTransaction_def cleanupExpiredKeys_def inTx_def tx_defs split: sum.splits)
qed

section \<open>Properties\<close>

text \<open>
  The request hash depends only on the data: two bodies that differ in the order of object members, at any
  depth, have the same hash, whatever the digest.
\<close>

theorem hash_ignores_member_order:
  assumes "same_data payload payload'"
  shows "hashIdempotencyPayload sha256 payload = hashIdempotencyPayload sha256 payload'"
  using canonicalize_same [OF assms] by (simp add: hashIdempotencyPayload_def)

text \<open>
  C24: a request runs once per key. After a first run returned a response with a body that is not null, any later request
  with the same key, until the record expires, does not execute: with the same hash it returns the stored response, marked as a
  replay, and with another hash it is refused with a conflict; the only table it touches is its own.
\<close>

theorem request_replayed:
  assumes "inj (gen_uuid env)" "idem_ok env s"
    and "\<And>t r t'. execute t = (r, t') \<Longrightarrow> idempotency_keys t' = idempotency_keys t"
    and "runIdempotentTransaction env now k hash ttl execute s = (Inr res, s')" "\<not> rs_replayed res"
    and "rs_body res \<noteq> Some JNull" "now' < now + (case ttl of Some t \<Rightarrow> t | None \<Rightarrow> DEFAULT_TTL_MS)"
  shows "runIdempotentTransaction env' now' k hash' ttl' execute' s' =
    (if hash' = hash
     then (Inr (res\<lparr>rs_replayed := True\<rparr>), idempotency_keys_update (cleanupRows now' k) s')
     else (Inl (ApiError 409 ''This idempotency key was already used with a different request'' ''idempotency_key_reused''),
       s'))"
proof (rule first_run [OF assms(1-5)])
  fix row assume row: "row \<in> set (idempotency_keys s')" "idem_key row = k" "ik_hash row = hash" "ik_status row = ICompleted"
    "ik_response_status row = Some (rs_status res)" "ik_response_body row = rs_body res" "rs_body res \<noteq> None"
    "ik_resource row = rs_resource res" "ik_expires_at row = now + (case ttl of Some t \<Rightarrow> t | None \<Rightarrow> DEFAULT_TTL_MS)"
    "distinct (map idem_key (idempotency_keys s'))" "distinct (map ik_id (idempotency_keys s'))"
  have "replayRow row hash' = (if hash' = hash then Inr (res\<lparr>rs_replayed := True\<rparr>)
    else Inl (ApiError 409 ''This idempotency key was already used with a different request'' ''idempotency_key_reused''))"
    using row(3-8) assms(6) by (auto simp: replayRow_def)
  then show ?thesis
    using replay_runs [OF row(1,2) _ row(10,11), of now' env' hash' ttl' execute'] assms(7) row(9)
    by (simp add: rollback_def)
qed

section \<open>Witnesses\<close>

theorem hash_ignores_member_order_witness:
  "hashIdempotencyPayload (\<lambda>x. x) (JObj [(''q'', JNum 1), (''p'', JArr [JObj [(''b'', JNull), (''a'', JBool True)]])]) =
   hashIdempotencyPayload (\<lambda>x. x) (JObj [(''p'', JArr [JObj [(''a'', JBool True), (''b'', JNull)]]), (''q'', JNum 1)])"
proof (rule hash_ignores_member_order, rule same_data.obj)
  have "same_data (JObj [(''b'', JNull), (''a'', JBool True)]) (JObj [(''a'', JBool True), (''b'', JNull)])"
    by (rule same_data.obj [where gs = "[(''a'', JBool True), (''b'', JNull)]"]) (auto intro: same_data.same)
  then show "list_all2 (\<lambda>x y. fst x = fst y \<and> same_data (snd x) (snd y))
     [(''p'', JArr [JObj [(''b'', JNull), (''a'', JBool True)]]), (''q'', JNum 1)]
     [(''p'', JArr [JObj [(''a'', JBool True), (''b'', JNull)]]), (''q'', JNum 1)]"
    by (auto intro: same_data.intros)
qed auto

definition response0 :: IdempotentResponse where
  "response0 = \<lparr>rs_status = 201, rs_body = Some (JObj [(''order'', JStr ''o1'')]), rs_resource = Some ''o1''\<rparr>"

definition hash0 :: string where
  "hash0 = replicate 64 (CHR ''a'')"

definition run0 :: "IdempotentTransactionResult result \<times> db" where
  "run0 = runIdempotentTransaction env0 5 (''buyer'', ''orders.create'', ''k1'') hash0 None (tx_return response0) db0"

theorem request_replayed_witness:
  "runIdempotentTransaction env0 9 (''buyer'', ''orders.create'', ''k1'') hash0 None (tx_throw (JsError ''not run'')) (snd run0) =
   (Inr \<lparr>rs_status = 201, rs_body = Some (JObj [(''order'', JStr ''o1'')]), rs_resource = Some ''o1'', rs_replayed = True\<rparr>,
    idempotency_keys_update (cleanupRows 9 (''buyer'', ''orders.create'', ''k1'')) (snd run0))"
proof -
  let ?res = "\<lparr>rs_status = 201, rs_body = Some (JObj [(''order'', JStr ''o1'')]), rs_resource = Some ''o1'', rs_replayed = False\<rparr>"
  have "fst run0 = Inr ?res" by code_simp
  then have run: "runIdempotentTransaction env0 5 (''buyer'', ''orders.create'', ''k1'') hash0 None (tx_return response0) db0 =
      (Inr ?res, snd run0)"
    by (simp add: run0_def prod_eq_iff)
  have "idem_ok env0 db0" by (simp add: idem_ok_def db0_def empty_db_def)
  from request_replayed [OF inj_gen_uuid0 this _ run, of 9 env0 hash0 None "tx_throw (JsError ''not run'')"]
  show ?thesis by (simp add: tx_return_def DEFAULT_TTL_MS_def)
qed

end
