(* ===== verification/Orders.thy ===== *)
theory Orders
  imports EscrowOps Idempotency
begin

text \<open>
  The order routes, \<open>modules/orders/orders.routes.ts\<close> with the response shapes of \<open>orders.dto.ts\<close>, the order chat
  of \<open>modules/chat/chat.service.ts\<close>, and the sweeps that release delivered orders
  (\<open>modules/orders/auto-release.job.ts\<close>, \<open>modules/jobs/queue.ts\<close>). Ids of the path are taken as already parsed;
  \<open>isoTime\<close> is \<open>Date.toISOString\<close>.
\<close>

section \<open>Responses\<close>

definition toNullableIsoString :: "(time \<Rightarrow> string) \<Rightarrow> time option \<Rightarrow> json" where
  "toNullableIsoString isoTime v = (case v of None \<Rightarrow> JNull | Some t \<Rightarrow> JStr (isoTime t))"

definition mapOrderMutationDto :: "(time \<Rightarrow> string) \<Rightarrow> order_row \<Rightarrow> json result" where
  "mapOrderMutationDto isoTime row =
     r_bind (bigintToMoneyCents (BigInt (o_amount row))) (\<lambda>amountCents.
     r_bind (bigintToMoneyCents (BigInt (o_fee row))) (\<lambda>feeCents.
     Inr (JObj [(''id'', JStr (o_id row)), (''status'', JStr (orderStatusName (o_status row))),
       (''buyerId'', JStr (o_buyer row)), (''sellerId'', JStr (o_seller row)), (''productId'', JStr (o_product row)),
       (''quantity'', JNum (o_quantity row)), (''amountCents'', JStr amountCents), (''feeCents'', JStr feeCents),
       (''currency'', JStr (o_currency row)), (''deliveryNote'', json_of_option (o_delivery_note row)),
       (''autoReleaseAt'', toNullableIsoString isoTime (o_auto_release_at row)),
       (''paidAt'', toNullableIsoString isoTime (o_paid_at row)),
       (''deliveredAt'', toNullableIsoString isoTime (o_delivered_at row)),
       (''completedAt'', toNullableIsoString isoTime (o_completed_at row)),
       (''createdAt'', JStr (isoTime (o_created_at row))), (''updatedAt'', JStr (isoTime (o_updated_at row)))])))"

section \<open>Creation\<close>

definition createOrderSchema :: "int option \<Rightarrow> int result" where
  "createOrderSchema quantity = (case quantity of
       None \<Rightarrow> Inr 1
     | Some q \<Rightarrow> if 1 \<le> q \<and> q \<le> 100 then Inr q else Inl (ZodError ''createOrderSchema''))"

text \<open>\<open>on conflict do nothing\<close> is reached only when another transaction inserted the conversation in between.\<close>

definition getOrCreateOrderConversation :: "env \<Rightarrow> uuid \<Rightarrow> uuid \<Rightarrow> uuid \<Rightarrow> uuid \<Rightarrow> uuid dbtx" where
  "getOrCreateOrderConversation env buyerId sellerId productId orderId =
     tx_bind (tx_guard (buyerId \<noteq> sellerId) (badRequest ''You cannot message yourself'')) (\<lambda>_.
     tx_bind (getConversationIdForOrder orderId) (\<lambda>existing.
     case existing of
       Some c \<Rightarrow> tx_return c
     | None \<Rightarrow> tx_bind (gen_random_uuid env) (\<lambda>cid.
         tx_bind (tx_modify (conversations_update (\<lambda>cs. cs @ [\<lparr>cv_id = cid, cv_buyer = buyerId, cv_seller = sellerId,
           cv_product = Some productId, cv_order = Some orderId\<rparr>]))) (\<lambda>_.
         tx_return cid))))"

definition newOrder :: "time \<Rightarrow> uuid \<Rightarrow> uuid \<Rightarrow> product_row \<Rightarrow> int \<Rightarrow> int \<Rightarrow> order_row" where
  "newOrder now oid buyerId p quantity amount =
     \<lparr>o_id = oid, o_buyer = buyerId, o_seller = p_seller p, o_product = p_id p, o_quantity = quantity,
      o_amount = amount, o_fee = 0, o_currency = p_currency p, o_status = Pending, o_payment_provider = None,
      o_payment_reference = None, o_delivery_note = None, o_auto_release_at = None, o_paid_at = None,
      o_delivered_at = None, o_completed_at = None, o_created_at = now, o_updated_at = now\<rparr>"

text \<open>The insert with the table's checks on quantity and amount and its reference to the buyer.\<close>

definition insertOrder :: "env \<Rightarrow> time \<Rightarrow> uuid \<Rightarrow> product_row \<Rightarrow> int \<Rightarrow> int \<Rightarrow> order_row dbtx" where
  "insertOrder env now buyerId p quantity amount =
     tx_bind (gen_random_uuid env) (\<lambda>oid.
     tx_bind (tx_guard (0 < quantity \<and> 0 < amount) (PgError ''23514'')) (\<lambda>_.
     tx_bind (tx_gets (\<lambda>s. t_find u_id buyerId (users s) \<noteq> None)) (\<lambda>fk.
     tx_bind (tx_guard fk (PgError ''23503'')) (\<lambda>_.
     tx_bind (tx_modify (orders_update (\<lambda>os. os @ [newOrder now oid buyerId p quantity amount]))) (\<lambda>_.
     tx_return (newOrder now oid buyerId p quantity amount))))))"

text \<open>\<open>products p join users u on u.id = p.seller_id\<close>: no row when the seller is gone.\<close>

definition selectListing :: "uuid \<Rightarrow> db \<Rightarrow> (product_row \<times> bool) option" where
  "selectListing productId s = (case t_find p_id productId (products s) of
       None \<Rightarrow> None
     | Some p \<Rightarrow> map_option (\<lambda>u. (p, u_banned u)) (t_find u_id (p_seller p) (users s)))"

definition orderRecords :: "env \<Rightarrow> time \<Rightarrow> uuid \<Rightarrow> order_row \<Rightarrow> uuid dbtx" where
  "orderRecords env now userId order =
     tx_bind (getOrCreateOrderConversation env userId (o_seller order) (o_product order) (o_id order)) (\<lambda>conversationId.
     tx_bind (createSystemMessage env conversationId ''order_created'' ''system.orderCreated'' None []) (\<lambda>message.
     tx_bind (recordOrderEvent env now \<lparr>ei_order = o_id order, ei_actor = Some userId, ei_type = ''created'',
        ei_template = Some ''orderEvents.created'', ei_params = None, ei_title = None, ei_body = None, ei_metadata = []\<rparr>) (\<lambda>_.
     tx_bind (enqueueDomainEvent env now (orderOutbox ''order.created'' order
        [(''orderId'', JStr (o_id order)), (''buyerId'', JStr (o_buyer order)), (''sellerId'', JStr (o_seller order)),
         (''productId'', JStr (o_product order)), (''conversationId'', JStr conversationId),
         (''systemMessageIds'', json_strings [ms_id message])])) (\<lambda>_.
     tx_return conversationId))))"

definition createOrderTx ::
  "env \<Rightarrow> (time \<Rightarrow> string) \<Rightarrow> time \<Rightarrow> uuid \<Rightarrow> uuid \<Rightarrow> int \<Rightarrow> IdempotentResponse dbtx" where
  "createOrderTx env isoTime now userId productId quantity =
     tx_bind (tx_gets (selectListing productId)) (\<lambda>found.
     tx_bind (tx_some found (notFound ''Product is unavailable'')) (\<lambda>(product, banned).
     tx_bind (tx_guard (\<not> (p_status product \<noteq> ProdActive \<or> banned)) (notFound ''Product is unavailable'')) (\<lambda>_.
     tx_bind (tx_guard (p_seller product \<noteq> userId) (badRequest ''You cannot buy your own listing'')) (\<lambda>_.
     tx_bind (tx_guard (\<not> p_stock product < quantity) (badRequest ''Not enough stock'')) (\<lambda>_.
     let amount = p_price product * quantity in
     tx_bind (tx_guard (\<not> POSTGRES_BIGINT_MAX < amount) (badRequest ''Order amount is too large'')) (\<lambda>_.
     tx_bind (insertOrder env now userId product quantity amount) (\<lambda>order.
     tx_bind (orderRecords env now userId order) (\<lambda>conversationId.
     tx_bind (tx_lift (mapOrderMutationDto isoTime order)) (\<lambda>dto.
     tx_return \<lparr>rs_status = 201, rs_body = Some (JObj [(''order'', dto), (''conversationId'', JStr conversationId)]),
       rs_resource = Some (o_id order)\<rparr>)))))))))"

text \<open>\<open>result.body.order.<field>\<close>.\<close>

definition orderField :: "json option \<Rightarrow> string \<Rightarrow> string" where
  "orderField body f = (case Option.bind (Option.bind body (json_member ''order'')) (json_member f) of
     Some (JStr x) \<Rightarrow> x | _ \<Rightarrow> [])"

definition createOrder ::
  "env \<Rightarrow> (time \<Rightarrow> string) \<Rightarrow> (string \<Rightarrow> string) \<Rightarrow> time \<Rightarrow> uuid \<Rightarrow> uuid option \<Rightarrow> uuid \<Rightarrow> int option \<Rightarrow>
   IdempotentTransactionResult dbtx" where
  "createOrder env isoTime sha256 now userId parsedKey productId qty =
     tx_bind (tx_lift (createOrderSchema qty)) (\<lambda>quantity.
     tx_bind (tx_some parsedKey (ApiError 400 ''A valid Idempotency-Key UUID header is required'' ''idempotency_key_invalid'')) (\<lambda>key.
     tx_bind (runIdempotentTransaction env now (userId, ''orders.create'', key)
       (hashIdempotencyPayload sha256 (JObj [(''productId'', JStr productId), (''quantity'', JNum quantity)])) None
       (createOrderTx env isoTime now userId productId quantity)) (\<lambda>result.
     tx_bind (tx_when (\<not> rs_replayed result)
       (invalidateOrderParticipantReadCaches env (orderField (rs_body result) ''id'') (orderField (rs_body result) ''buyerId'')
         (orderField (rs_body result) ''sellerId'') False False)) (\<lambda>_.
     tx_return result))))"

section \<open>Seller actions\<close>

definition sellerTransition :: "uuid \<Rightarrow> uuid \<Rightarrow> OrderStatus \<Rightarrow> OrderTransitionReason \<Rightarrow> OrderStatus list \<Rightarrow>
    message_row option \<Rightarrow> TransitionOrderInput" where
  "sellerTransition orderId userId to reason expected message =
     \<lparr>ti_order = orderId, ti_to = to, ti_actor = User userId RoleSeller, ti_reason = reason, ti_expected = Some expected,
      ti_metadata = [(''systemMessageIds'', json_strings (case message of Some m \<Rightarrow> [ms_id m] | None \<Rightarrow> []))]\<rparr>"

definition startOrderTx :: "env \<Rightarrow> time \<Rightarrow> uuid \<Rightarrow> uuid \<Rightarrow> order_row dbtx" where
  "startOrderTx env now userId orderId =
     tx_bind (selectOrderForUpdate orderId) (\<lambda>existing.
     tx_bind (tx_guard (\<not> (o_seller existing \<noteq> userId \<or> \<not> canTransitionOrder (o_status existing) InProgress))
       (badRequest ''Only the seller can start a paid order'')) (\<lambda>_.
     tx_bind (createOrderSystemMessage env orderId ''seller_started'' ''system.sellerStarted'' None []) (\<lambda>message.
     transitionOrder env now (sellerTransition orderId userId InProgress SellerStarted [Paid] message))))"

definition startOrder :: "env \<Rightarrow> time \<Rightarrow> uuid \<Rightarrow> uuid \<Rightarrow> order_row dbtx" where
  "startOrder env now userId orderId =
     tx_bind (inTx (startOrderTx env now userId orderId)) (\<lambda>order.
     tx_bind (invalidateOrderParticipantReadCaches env (o_id order) (o_buyer order) (o_seller order) False False) (\<lambda>_.
     tx_return order))"

definition deliverSchema :: "string \<Rightarrow> string result" where
  "deliverSchema note = (if 5 \<le> length note \<and> length note \<le> 5000 then Inr note else Inl (ZodError ''deliverSchema''))"

definition deliverOrderTx :: "env \<Rightarrow> time \<Rightarrow> uuid \<Rightarrow> uuid \<Rightarrow> string \<Rightarrow> order_row dbtx" where
  "deliverOrderTx env now userId orderId note =
     tx_bind (selectOrderForUpdate orderId) (\<lambda>existing.
     tx_bind (tx_guard (\<not> (o_seller existing \<noteq> userId \<or> \<not> canTransitionOrder (o_status existing) Delivered))
       (badRequest ''Only the seller can deliver an active escrowed order'')) (\<lambda>_.
     tx_bind (tx_modify (orders_update (t_upd o_id orderId (\<lambda>r. r\<lparr>o_delivery_note := Some note\<rparr>)))) (\<lambda>_.
     tx_bind (createOrderSystemMessage env orderId ''delivery_sent'' ''system.deliverySent'' None []) (\<lambda>message.
     transitionOrder env now (sellerTransition orderId userId Delivered SellerDelivered [Paid, InProgress] message)))))"

definition deliverOrder :: "env \<Rightarrow> time \<Rightarrow> uuid \<Rightarrow> uuid \<Rightarrow> string \<Rightarrow> order_row dbtx" where
  "deliverOrder env now userId orderId note =
     tx_bind (tx_lift (deliverSchema note)) (\<lambda>note.
     tx_bind (inTx (deliverOrderTx env now userId orderId note)) (\<lambda>order.
     tx_bind (invalidateOrderParticipantReadCaches env (o_id order) (o_buyer order) (o_seller order) False False) (\<lambda>_.
     tx_return order)))"

section \<open>Buyer actions\<close>

definition confirmOrder :: "env \<Rightarrow> (nat \<Rightarrow> string option) \<Rightarrow> time \<Rightarrow> uuid \<Rightarrow> uuid \<Rightarrow> order_row dbtx" where
  "confirmOrder env faults now userId orderId =
     tx_bind (tx_gets (\<lambda>s. t_find o_id orderId (orders s))) (\<lambda>found.
     tx_bind (tx_some found (notFound ''Order not found'')) (\<lambda>order.
     tx_bind (tx_guard (o_buyer order = userId) (forbidden ''Only the buyer can confirm delivery'')) (\<lambda>_.
     tx_bind (tx_guard (o_status order = Delivered) (badRequest ''Only delivered orders can be confirmed'')) (\<lambda>_.
     releaseEscrow env faults now orderId
       (OptionsArg \<lparr>ro_admin = None, ro_source = Some SrcBuyerConfirmed, ro_actor = Some userId\<rparr>)))))"

definition reviewSchema :: "int \<Rightarrow> string option \<Rightarrow> unit result" where
  "reviewSchema rating comment =
     (if 1 \<le> rating \<and> rating \<le> 5 \<and> (case comment of Some c \<Rightarrow> length c \<le> 2000 | None \<Rightarrow> True)
      then Inr () else Inl (ZodError ''reviewSchema''))"

definition insertReview :: "env \<Rightarrow> time \<Rightarrow> uuid \<Rightarrow> uuid \<Rightarrow> order_row \<Rightarrow> int \<Rightarrow> string option \<Rightarrow> (review_row \<times> bool) dbtx" where
  "insertReview env now userId orderId order rating comment =
     tx_bind (gen_random_uuid env) (\<lambda>rid.
     let row = \<lparr>rv_id = rid, rv_order = orderId, rv_seller = o_seller order, rv_buyer = o_buyer order,
                rv_rating = rating, rv_comment = comment\<rparr> in
     tx_bind (tx_modify (reviews_update (\<lambda>rs. rs @ [row]))) (\<lambda>_.
     tx_bind (recordOrderEvent env now \<lparr>ei_order = orderId, ei_actor = Some userId, ei_type = ''review_created'',
        ei_template = Some ''orderEvents.reviewCreated'', ei_params = Some [(''rating'', JNum rating)], ei_title = None,
        ei_body = None, ei_metadata = []\<rparr>) (\<lambda>_.
     tx_bind (enqueueDomainEvent env now
        \<lparr>oi_key = ''review.created:'' @ rid, oi_type = ''review.created'', oi_aggregate_type = ''review'', oi_aggregate_id = rid,
         oi_payload = JObj [(''reviewId'', JStr rid), (''orderId'', JStr orderId), (''sellerId'', JStr (o_seller order)),
           (''rating'', JNum rating)]\<rparr>) (\<lambda>_.
     tx_return (row, True)))))"

definition reviewOrder :: "env \<Rightarrow> time \<Rightarrow> uuid \<Rightarrow> uuid \<Rightarrow> int \<Rightarrow> string option \<Rightarrow> (review_row \<times> bool) dbtx" where
  "reviewOrder env now userId orderId rating comment =
     tx_bind (tx_lift (reviewSchema rating comment)) (\<lambda>_. inTx (
     tx_bind (selectOrderForUpdate orderId) (\<lambda>order.
     tx_bind (tx_guard (o_buyer order = userId) (forbidden ''Only the buyer can review this order'')) (\<lambda>_.
     tx_bind (tx_gets (\<lambda>s. t_find rv_order orderId (reviews s))) (\<lambda>existing.
     case existing of
       Some review \<Rightarrow>
         tx_bind (tx_guard (rv_rating review = rating \<and> rv_comment review = comment)
           (ApiError 409 ''This order already has a different review'' ''review_already_exists'')) (\<lambda>_.
         tx_return (review, False))
     | None \<Rightarrow>
         tx_bind (tx_guard (o_status order = Completed) (badRequest ''Reviews are allowed only after completed orders'')) (\<lambda>_.
         insertReview env now userId orderId order rating comment))))))"

section \<open>Automatic release\<close>

text \<open>
  Both sweeps select the due orders and release them one after another; a failed release is logged and skipped.
  \<open>faults\<close> gives the serialization failures each release meets.
\<close>

definition isDue :: "time \<Rightarrow> order_row \<Rightarrow> bool" where
  "isDue now r \<longleftrightarrow> o_status r = Delivered \<and> (case o_auto_release_at r of Some t \<Rightarrow> t \<le> now | None \<Rightarrow> False)"

definition dueOrders :: "time \<Rightarrow> db \<Rightarrow> uuid list" where
  "dueOrders now s = map o_id (take 25 (sort_key (\<lambda>r. case o_auto_release_at r of Some t \<Rightarrow> t | None \<Rightarrow> 0)
     (filter (isDue now) (orders s))))"

definition releaseOne :: "env \<Rightarrow> (uuid \<Rightarrow> nat \<Rightarrow> string option) \<Rightarrow> time \<Rightarrow> uuid \<Rightarrow> unit dbtx" where
  "releaseOne env faults now orderId =
     tx_catch (tx_bind (releaseEscrow env (faults orderId) now orderId
         (OptionsArg \<lparr>ro_admin = None, ro_source = Some SrcAuto, ro_actor = None\<rparr>)) (\<lambda>_. tx_return ()))
       (\<lambda>_. tx_return ())"

fun releaseEach :: "env \<Rightarrow> (uuid \<Rightarrow> nat \<Rightarrow> string option) \<Rightarrow> time \<Rightarrow> uuid list \<Rightarrow> unit dbtx" where
  "releaseEach env faults now [] = tx_return ()"
| "releaseEach env faults now (i # is) = tx_bind (releaseOne env faults now i) (\<lambda>_. releaseEach env faults now is)"

text \<open>The process runs one sweep at a time (\<open>running\<close>).\<close>

definition runAutoReleaseSweep :: "env \<Rightarrow> (uuid \<Rightarrow> nat \<Rightarrow> string option) \<Rightarrow> time \<Rightarrow> unit dbtx" where
  "runAutoReleaseSweep env faults now =
     tx_bind (tx_gets (dueOrders now)) (\<lambda>due. releaseEach env faults now due)"

definition processEscrowRelease :: "env \<Rightarrow> (uuid \<Rightarrow> nat \<Rightarrow> string option) \<Rightarrow> time \<Rightarrow> uuid option \<Rightarrow> unit dbtx" where
  "processEscrowRelease env faults now orderId =
     tx_bind (tx_gets (\<lambda>s. case orderId of
         Some i \<Rightarrow> map o_id (filter (\<lambda>r. o_id r = i \<and> o_status r = Delivered) (orders s))
       | None \<Rightarrow> dueOrders now s)) (\<lambda>due. releaseEach env faults now due)"

end
