(* ===== verification/OrdersOps.thy ===== *)
theory OrdersOps
  imports Orders
begin

text \<open>
  What the order routes and the release sweeps do to orders and money: creation adds one pending order and moves
  nothing, seller actions move one order along the graph, a review is written once, and a sweep completes only
  delivered orders that are due.
\<close>

section \<open>Steps without money\<close>

lemma side_step_orders_update: "side_step s t \<Longrightarrow> side_step (orders_update f s) (orders_update f t)"
proof -
  have "side_core (orders_update f x) = orders_update f (side_core x)" for x
    by (cases x) (simp add: side_core_def)
  then show "side_step s t \<Longrightarrow> side_step (orders_update f s) (orders_update f t)" by (simp add: side_step_def)
qed

text \<open>One order replaced, everything else of the core tables kept.\<close>

definition lifecycle_step :: "order_row \<Rightarrow> order_row \<Rightarrow> db \<Rightarrow> db \<Rightarrow> bool" where
  "lifecycle_step ord res s s' \<longleftrightarrow> order_changed ord res s s' \<and> same_money s s' \<and>
     wallet_topups s' = wallet_topups s \<and> payouts s' = payouts s \<and> disputes s' = disputes s \<and> products s' = products s"

lemma lifecycle_step_sides:
  assumes "side_step s s1" "lifecycle_step ord res s1 s2" "side_step s2 s'"
  shows "lifecycle_step ord res s s'"
  using assms(2) side_step_fields [OF assms(1)] side_step_fields [OF assms(3)]
  by (auto simp: lifecycle_step_def order_changed_def same_money_def)

lemma moved_lifecycle_step:
  assumes "transitionOrder env now inp s = (Inr res, s')" "t_find o_id (ti_order inp) (orders s) = Some ord"
    "o_status ord \<noteq> ti_to inp"
  shows "lifecycle_step ord res s s'" "res = applyTransition env now (ti_to inp) ord"
    "ti_expected inp = Some sts \<Longrightarrow> o_status ord \<in> set sts" "canTransitionOrder (o_status ord) (ti_to inp)"
proof -
  note M = transition_moves [OF assms]
  show "lifecycle_step ord res s s'"
    using order_moved_changed [OF M(1) assms(2)] order_moved_same_money [OF M(1)] M(2) by (simp add: lifecycle_step_def)
  show "res = applyTransition env now (ti_to inp) ord" by (rule M(2))
  show "o_status ord \<in> set sts" if "ti_expected inp = Some sts" using M(1) that by (simp add: order_moved_def)
  show "canTransitionOrder (o_status ord) (ti_to inp)" using M(1) by (simp add: order_moved_def)
qed

lemma startOrder_Inr:
  assumes "startOrder env now u i s = (Inr res, s')"
  obtains ord where "o_id ord = i" "o_seller ord = u" "o_status ord = Paid"
    "res = applyTransition env now InProgress ord" "lifecycle_step ord res s s'"
proof -
  from assms obtain ord m s1 s2 where ord: "t_find o_id i (orders s) = Some ord" and u: "o_seller ord = u"
    and can: "canTransitionOrder (o_status ord) InProgress"
    and msg: "createOrderSystemMessage env i ''seller_started'' ''system.sellerStarted'' None [] s = (Inr m, s1)"
    and tr: "transitionOrder env now (sellerTransition i u InProgress SellerStarted [Paid] m) s1 = (Inr res, s2)"
    and inv: "side_step s2 s'"
    by (auto simp: startOrder_def startOrderTx_def tx_simps dest: invalidate_side)
  have side: "side_step s s1" by (rule side.keepsD [OF side_createOrderSystemMessage msg])
  note M = moved_lifecycle_step [OF tr, of ord]
  have f: "t_find o_id i (orders s1) = Some ord" "o_status ord \<noteq> InProgress"
    using ord can side_step_fields(3) [OF side] by (auto simp: canTransitionOrder_def)
  show thesis
    using M f lifecycle_step_sides [OF side _ inv] t_find_Some [OF ord] u
    by (intro that [of ord]) (auto simp: sellerTransition_def)
qed

lemma deliverOrder_Inr:
  assumes "deliverOrder env now u i note0 s = (Inr res, s')"
  obtains ord where "o_id ord = i" "o_seller ord = u" "o_status ord \<in> {Paid, InProgress}"
    "res = applyTransition env now Delivered (ord\<lparr>o_delivery_note := Some note0\<rparr>)" "lifecycle_step ord res s s'"
proof -
  let ?up = "orders_update (t_upd o_id i (\<lambda>r. r\<lparr>o_delivery_note := Some note0\<rparr>))"
  from assms obtain ord m s1 s2 where ord: "t_find o_id i (orders s) = Some ord" and u: "o_seller ord = u"
    and can: "canTransitionOrder (o_status ord) Delivered"
    and msg: "createOrderSystemMessage env i ''delivery_sent'' ''system.deliverySent'' None [] (?up s) = (Inr m, s1)"
    and tr: "transitionOrder env now (sellerTransition i u Delivered SellerDelivered [Paid, InProgress] m) s1 = (Inr res, s2)"
    and inv: "side_step s2 s'"
    by (auto simp: deliverOrder_def deliverOrderTx_def deliverSchema_def tx_simps split: if_splits dest: invalidate_side)
  let ?ord = "ord\<lparr>o_delivery_note := Some note0\<rparr>"
  have side: "side_step (?up s) s1" by (rule side.keepsD [OF side_createOrderSystemMessage msg])
  have i: "o_id ord = i" using t_find_Some [OF ord] by simp
  note M = moved_lifecycle_step [OF tr, of ?ord]
  have f: "t_find o_id i (orders s1) = Some ?ord" "o_status ord \<noteq> Delivered"
    using ord can side_step_fields(3) [OF side] by (auto simp: canTransitionOrder_def t_find_upd)
  from M f lifecycle_step_sides [OF side _ inv] have ls: "lifecycle_step ?ord res (?up s) s'"
    and res: "res = applyTransition env now Delivered ?ord" and st: "o_status ord \<in> {Paid, InProgress}"
    by (auto simp: sellerTransition_def)
  have "order_changed ord res s s'"
    using ls ord i by (auto simp: lifecycle_step_def order_changed_def t_find_upd map_key_t_upd split: if_splits)
  with ls have "lifecycle_step ord res s s'" by (auto simp: lifecycle_step_def same_money_def)
  with i u st res show thesis by (intro that [of ord])
qed

section \<open>Creation\<close>

lemma side_idempotency:
  "side.keeps (cleanupExpiredKeys now k)" "side.keeps (claimKey env now k hash ttl)" "side.keeps (completeKey rid ex)"
  unfolding cleanupExpiredKeys_def claimKey_def completeKey_def Let_def
  by (intro side_intros; simp add: side_step_def side_core_def)+

lemma run_idempotent_cases:
  assumes "runIdempotentTransaction env now k hash ttl execute s = (Inr res, s')"
  obtains (replay) "rs_replayed res" "side_step s s'"
  | (executed) s1 ex s2 where "side_step s s1" "execute s1 = (Inr ex, s2)" "side_step s2 s'" "\<not> rs_replayed res"
      "rs_resource res = rs_resource ex" "rs_body res = rs_body ex"
proof -
  let ?s0 = "idempotency_keys_update (cleanupRows now k) s"
  have c: "side_step s ?s0" by (simp add: side_step_def side_core_def)
  show thesis
  proof (cases "t_find idem_key k (idempotency_keys ?s0)")
    case None
    with assms obtain rid s1 ex s2 where cl: "claimKey env now k hash ttl ?s0 = (Inr rid, s1)"
      and ex: "execute s1 = (Inr ex, s2)" and co: "completeKey rid ex s2 = (Inr res, s')"
      by (auto simp: runIdempotentTransaction_def cleanupExpiredKeys_def tx_simps)
    have "side_step s s1" using side.moves_trans [OF c side.keepsD [OF side_idempotency(2) cl]] .
    moreover have "side_step s2 s'" by (rule side.keepsD [OF side_idempotency(3) co])
    moreover have "\<not> rs_replayed res \<and> rs_resource res = rs_resource ex \<and> rs_body res = rs_body ex"
      using co by (auto simp: completeKey_def normalizeResponseBody_def tx_simps split: option.splits)
    ultimately show thesis using ex executed by blast
  next
    case (Some row)
    with assms have "rs_replayed res" "s' = ?s0"
      by (auto simp: runIdempotentTransaction_def cleanupExpiredKeys_def tx_simps replayRow_def
          split: if_splits IdemStatus.splits option.splits)
    with c replay show thesis by blast
  qed
qed

lemma side_orderRecords: "side.keeps (orderRecords env now u ord)"
  unfolding orderRecords_def getOrCreateOrderConversation_def getConversationIdForOrder_def
  by (intro side_intros; simp add: side_step_def side_core_def)

lemma newOrder_id: "o_id (newOrder now oid u p q a) = oid"
  by (simp add: newOrder_def)

text \<open>The listing an order was created from, and the order.\<close>

definition order_created :: "env \<Rightarrow> time \<Rightarrow> uuid \<Rightarrow> uuid \<Rightarrow> int \<Rightarrow> order_row \<Rightarrow> db \<Rightarrow> db \<Rightarrow> bool" where
  "order_created env now u pid q ord s s' \<longleftrightarrow>
     (\<exists>p n. t_find p_id pid (products s) = Some p \<and> p_status p = ProdActive \<and> p_seller p \<noteq> u \<and> q \<le> p_stock p \<and>
        (\<exists>us\<in>set (users s). u_id us = p_seller p \<and> \<not> u_banned us) \<and> (\<exists>us\<in>set (users s). u_id us = u) \<and>
        0 < q \<and> 0 < p_price p * q \<and> p_price p * q \<le> POSTGRES_BIGINT_MAX \<and>
        ord = newOrder now (gen_uuid env n) u p q (p_price p * q) \<and> uuid_ctr s \<le> n \<and> n < uuid_ctr s') \<and>
     side_step (orders_update (\<lambda>os. os @ [ord]) s) s'"

lemma order_created_sides:
  assumes a: "side_step s t" and c: "order_created env now u pid q ord t t'" and b: "side_step t' s'"
  shows "order_created env now u pid q ord s s'"
proof -
  from c obtain p n where "t_find p_id pid (products t) = Some p" "p_status p = ProdActive" "p_seller p \<noteq> u" "q \<le> p_stock p"
    "\<exists>us\<in>set (users t). u_id us = p_seller p \<and> \<not> u_banned us" "\<exists>us\<in>set (users t). u_id us = u" "0 < q" "0 < p_price p * q"
    "p_price p * q \<le> POSTGRES_BIGINT_MAX" "ord = newOrder now (gen_uuid env n) u p q (p_price p * q)"
    "uuid_ctr t \<le> n" "n < uuid_ctr t'"
    unfolding order_created_def by blast
  moreover have "side_step (orders_update (\<lambda>os. os @ [ord]) s) s'"
    using c side_step_orders_update [OF a] b unfolding order_created_def by (blast intro: side.moves_trans)
  moreover have "uuid_ctr s \<le> n" "n < uuid_ctr s'"
    using calculation(11,12) side_step_fields(14) [OF a] side_step_fields(14) [OF b] by simp_all
  ultimately show ?thesis
    using side_step_fields(1,2) [OF a] unfolding order_created_def by (intro conjI exI [of _ p] exI [of _ n]) simp_all
qed

lemma createOrderTx_Inr:
  assumes "createOrderTx env isot now u pid q s = (Inr ex, s')"
  obtains ord where "order_created env now u pid q ord s s'" "rs_resource ex = Some (o_id ord)"
proof -
  let ?n = "uuid_ctr s"
  from assms obtain p us bs c s1 where p: "t_find p_id pid (products s) = Some p" "p_status p = ProdActive"
      "p_seller p \<noteq> u" "q \<le> p_stock p" and us: "t_find u_id (p_seller p) (users s) = Some us" "\<not> u_banned us"
    and bs: "t_find u_id u (users s) = Some bs"
    and a: "p_price p * q \<le> POSTGRES_BIGINT_MAX" "0 < q" "0 < p_price p * q"
    and rec: "orderRecords env now u (newOrder now (gen_uuid env ?n) u p q (p_price p * q))
        (orders_update (\<lambda>os. os @ [newOrder now (gen_uuid env ?n) u p q (p_price p * q)]) (s\<lparr>uuid_ctr := Suc ?n\<rparr>)) = (Inr c, s')"
    and ex: "rs_resource ex = Some (gen_uuid env ?n)"
    by (auto simp: createOrderTx_def selectListing_def insertOrder_def tx_simps Let_def not_less newOrder_id split: option.splits)
  let ?o = "newOrder now (gen_uuid env ?n) u p q (p_price p * q)"
  note R = side.keepsD [OF side_orderRecords rec]
  have "uuid_ctr s < uuid_ctr s'" using side_step_fields(14) [OF R] by simp
  moreover have "side_step (orders_update (\<lambda>os. os @ [?o]) s) s'"
    by (rule side.moves_trans [OF side_step_orders_update R]) (simp add: side_step_def side_core_def)
  ultimately have "order_created env now u pid q ?o s s'"
    using p us a t_find_Some [OF us(1)] t_find_Some [OF bs] by (auto simp: order_created_def)
  with ex show thesis by (intro that [of ?o]) (simp_all add: newOrder_id)
qed

lemma createOrder_Inr:
  assumes "createOrder env isot sha now u key pid q s = (Inr res, s')"
  obtains (replay) "rs_replayed res" "side_step s s'"
  | (created) ord qty where "\<not> rs_replayed res" "createOrderSchema q = Inr qty" "order_created env now u pid qty ord s s'"
      "rs_resource res = Some (o_id ord)"
proof -
  from assms obtain qty k s1 where q: "createOrderSchema q = Inr qty"
    and run: "runIdempotentTransaction env now (u, ''orders.create'', k)
       (hashIdempotencyPayload sha (JObj [(''productId'', JStr pid), (''quantity'', JNum qty)])) None
       (createOrderTx env isot now u pid qty) s = (Inr res, s1)"
    and inv: "side_step s1 s'"
    by (auto simp: createOrder_def tx_simps side.moves_refl split: if_splits dest: invalidate_side)
  from run show thesis
  proof (cases rule: run_idempotent_cases)
    case replay
    with inv that(1) show ?thesis by (blast intro: side.moves_trans)
  next
    case (executed t ex t')
    obtain ord where o: "order_created env now u pid qty ord t t'" "rs_resource ex = Some (o_id ord)"
      using executed(2) by (rule createOrderTx_Inr)
    from order_created_sides [OF executed(1) o(1) side.moves_trans [OF executed(3) inv]]
    have "order_created env now u pid qty ord s s'" .
    with executed o(2) q show ?thesis by (intro that(2)) auto
  qed
qed

section \<open>Sweeps\<close>

definition orders_valid :: "db \<Rightarrow> bool" where
  "orders_valid s \<longleftrightarrow> (\<forall>i ord. t_find o_id i (orders s) = Some ord \<longrightarrow> order_valid ord)"

text \<open>Every order is as before, or was delivered, listed and is now completed.\<close>

definition swept :: "env \<Rightarrow> time \<Rightarrow> uuid set \<Rightarrow> db \<Rightarrow> db \<Rightarrow> bool" where
  "swept env now ids s s' \<longleftrightarrow> (\<forall>i. t_find o_id i (orders s') = t_find o_id i (orders s) \<or>
     i \<in> ids \<and> (\<exists>ord. t_find o_id i (orders s) = Some ord \<and> o_status ord = Delivered \<and>
       t_find o_id i (orders s') = Some (applyTransition env now Completed ord)))"

lemma releaseEscrow_error: "releaseEscrow env faults now i arg s = (Inl e, s') \<Longrightarrow> \<exists>t. s' = rollback s t"
  unfolding releaseEscrow_def by (rule tx_then_caches_error)

lemma releaseOne_swept:
  assumes v: "orders_valid s" and run: "releaseOne env faults now i s = (r, s')"
  shows "r = Inr () \<and> swept env now {i} s s' \<and> orders_valid s'"
proof -
  let ?arg = "OptionsArg \<lparr>ro_admin = None, ro_source = Some SrcAuto, ro_actor = None\<rparr>"
  obtain q s1 where q: "releaseEscrow env (faults i) now i ?arg s = (q, s1)" by fastforce
  have r: "r = Inr ()" "s' = s1"
    using run q by (auto simp: releaseOne_def tx_catch_def tx_bind_def tx_return_def split: sum.splits)
  show ?thesis
  proof (cases q)
    case (Inl e)
    then obtain t where "s1 = rollback s t" using q releaseEscrow_error by blast
    with r v show ?thesis by (simp add: swept_def orders_valid_def)
  next
    case (Inr res)
    obtain ord where o: "o_id ord = i" "o_status ord = Delivered" "res = applyTransition env now Completed ord"
      "order_changed ord res s s1"
      by (rule releaseEscrow_Inr [OF q [unfolded Inr]])
        (use v in \<open>auto simp: orders_valid_def releaseTransition_def releaseSource_def escrow_step_def\<close>)
    then have f: "t_find o_id i (orders s) = Some ord"
      "t_find o_id j (orders s1) = (if j = i then Some res else t_find o_id j (orders s))" for j
      by (auto simp: order_changed_def)
    then have "swept env now {i} s s'" using o r by (simp add: swept_def)
    moreover have "order_valid res" using v f(1) o(3) by (simp add: orders_valid_def order_valid_def)
    then have "orders_valid s'" using v f(2) r by (auto simp: orders_valid_def split: if_splits)
    ultimately show ?thesis using r by simp
  qed
qed

lemma swept_trans: "swept env now A s t \<Longrightarrow> swept env now B t u \<Longrightarrow> swept env now (A \<union> B) s u"
  unfolding swept_def by (metis (no_types, lifting) Un_iff applyTransition_fields(9) OrderStatus.distinct option.inject)

lemma releaseEach_swept:
  "orders_valid s \<Longrightarrow> releaseEach env faults now ids s = (r, s') \<Longrightarrow>
   r = Inr () \<and> swept env now (set ids) s s' \<and> orders_valid s'"
proof (induction ids arbitrary: s)
  case Nil
  then show ?case by (simp add: tx_return_def swept_def)
next
  case (Cons i ids)
  obtain q s1 where q: "releaseOne env faults now i s = (q, s1)" by fastforce
  from releaseOne_swept [OF Cons.prems(1) q] have o: "q = Inr ()" "swept env now {i} s s1" "orders_valid s1" by auto
  with q Cons.prems(2) have "releaseEach env faults now ids s1 = (r, s')" by (simp add: tx_bind_def)
  from Cons.IH [OF o(3) this] swept_trans [OF o(2)] show ?case by (metis insert_is_Un list.simps(15))
qed

lemma dueOrders_due:
  "i \<in> set (dueOrders now s) \<Longrightarrow> \<exists>ord\<in>set (orders s). o_id ord = i \<and> isDue now ord"
  unfolding dueOrders_def by (auto dest!: in_set_takeD)

section \<open>Properties\<close>

text \<open>
  C26: creating an order runs once per request key and moves no money: a replay changes no core table; otherwise one
  order is added, pending, for the price of the listing times the quantity, bought from another user's active
  listing with enough stock, under an id that no table had before; every other order and every balance is as it was.
\<close>

theorem order_creation:
  assumes run: "createOrder env isot sha now u key pid q s = (Inr res, s')"
  shows "same_money s s' \<and> products s' = products s \<and>
    (if rs_replayed res then orders s' = orders s
     else \<exists>ord p. orders s' = orders s @ [ord] \<and> rs_resource res = Some (o_id ord) \<and>
       (\<exists>n\<ge>uuid_ctr s. o_id ord = gen_uuid env n) \<and> o_status ord = Pending \<and> o_buyer ord = u \<and>
       t_find p_id pid (products s) = Some p \<and> p_status p = ProdActive \<and> o_seller ord = p_seller p \<and>
       p_seller p \<noteq> u \<and> o_amount ord = p_price p * o_quantity ord \<and> o_currency ord = p_currency p \<and>
       1 \<le> o_quantity ord \<and> o_quantity ord \<le> 100 \<and> o_quantity ord \<le> p_stock p \<and>
       0 < o_amount ord \<and> o_amount ord \<le> POSTGRES_BIGINT_MAX)"
  using run
proof (cases rule: createOrder_Inr)
  case replay
  then show ?thesis by (simp add: side_same_money side_step_fields)
next
  case (created ord qty)
  then obtain p n where c: "t_find p_id pid (products s) = Some p" "p_status p = ProdActive" "p_seller p \<noteq> u"
      "qty \<le> p_stock p" "0 < p_price p * qty" "p_price p * qty \<le> POSTGRES_BIGINT_MAX"
      "ord = newOrder now (gen_uuid env n) u p qty (p_price p * qty)" "uuid_ctr s \<le> n"
    and side: "side_step (orders_update (\<lambda>os. os @ [ord]) s) s'"
    unfolding order_created_def by blast
  have "1 \<le> qty" "qty \<le> 100"
    using created(2) by (auto simp: createOrderSchema_def split: option.splits if_splits)
  moreover have "same_money s s'" using side_step_fields [OF side] by (simp add: same_money_def)
  moreover have "orders s' = orders s @ [ord]" "products s' = products s" using side_step_fields(2,3) [OF side] by simp_all
  ultimately show ?thesis
    using created(1,4) c by (auto simp: newOrder_def intro!: exI [of _ p])
qed

text \<open>
  The automatic release never fails as a whole and touches nothing but due orders: it always returns, and an
  order that changed was delivered with its release time passed and is now completed.
\<close>

theorem sweep_releases_due_only:
  assumes v: "orders_valid s" and d: "distinct (map o_id (orders s))"
    and run: "runAutoReleaseSweep env faults now s = (r, s')"
  shows "r = Inr () \<and> (\<forall>i. t_find o_id i (orders s') = t_find o_id i (orders s) \<or>
    (\<exists>ord. t_find o_id i (orders s) = Some ord \<and> isDue now ord \<and>
       t_find o_id i (orders s') = Some (applyTransition env now Completed ord)))"
proof -
  have "releaseEach env faults now (dueOrders now s) s = (r, s')"
    using run by (simp add: runAutoReleaseSweep_def tx_bind_def tx_gets_def)
  from releaseEach_swept [OF v this] have r: "r = Inr ()" and sw: "swept env now (set (dueOrders now s)) s s'" by auto
  have "isDue now ord" if "i \<in> set (dueOrders now s)" "t_find o_id i (orders s) = Some ord" for i ord
    using dueOrders_due [OF that(1)] t_find_distinct [OF d] that(2) by fastforce
  with r sw show ?thesis unfolding swept_def by blast
qed

text \<open>
  An order has at most one review, written by its buyer after completion: when the review route returns, the
  caller is the buyer; a new review is stored only for a completed order that had none; sending the same review
  again returns the stored one and changes nothing, and a different one is refused.
\<close>

theorem review_once:
  assumes run: "reviewOrder env now u i rating comment s = (Inr (r, created), s')"
    and ord: "t_find o_id i (orders s) = Some ord"
  shows "o_buyer ord = u \<and> side_step s s' \<and> t_find rv_order i (reviews s') = Some r \<and>
    (if created then o_status ord = Completed \<and> t_find rv_order i (reviews s) = None \<and> reviews s' = reviews s @ [r] \<and>
       rv_rating r = rating \<and> 1 \<le> rating \<and> rating \<le> 5 else s' = s) \<and>
    reviewOrder env' now' u i rating comment s' = (Inr (r, False), s') \<and>
    (rating' \<noteq> rating \<longrightarrow> isl (fst (reviewOrder env' now' u i rating' comment' s')))"
proof -
  let ?new = "insertReview env now u i ord rating comment"
  have sn: "side.keeps ?new"
    unfolding insertReview_def Let_def by (intro side_intros; simp add: side_step_def side_core_def)
  from run ord have sch: "reviewSchema rating comment = Inr ()" and b: "o_buyer ord = u"
    by (auto simp: reviewOrder_def tx_simps)
  have k: "if t_find rv_order i (reviews s) = None then o_status ord = Completed \<and> ?new s = (Inr (r, created), s')
     else t_find rv_order i (reviews s) = Some r \<and> rv_rating r = rating \<and> rv_comment r = comment \<and> \<not> created \<and> s' = s"
    using run ord by (auto simp: reviewOrder_def tx_simps split: option.splits)
  have side: "side_step s s'"
    using k side.keepsD [OF sn] side.moves_refl by (auto split: if_splits)
  have new: "created \<and> reviews s' = reviews s @ [r] \<and> rv_order r = i \<and> rv_rating r = rating \<and> rv_comment r = comment"
    if "?new s = (Inr (r, created), s')"
    using that by (auto simp: insertReview_def tx_simps Let_def recordOrderEvent_def enqueueDomainEvent_def
        split: option.splits)
  have found: "t_find rv_order i (reviews s') = Some r" "rv_rating r = rating" "rv_comment r = comment"
    using k new by (auto simp: t_find_append split: if_splits)
  have ord': "t_find o_id i (orders s') = Some ord" using ord side_step_fields(3) [OF side] by simp
  have "reviewOrder env' now' u i rating comment s' = (Inr (r, False), s')"
    using ord' b found sch by (auto simp: reviewOrder_def tx_simps)
  moreover have "isl (fst (reviewOrder env' now' u i rating' comment' s'))" if "rating' \<noteq> rating"
    using ord' b found that
    by (auto simp: reviewOrder_def tx_defs inTx_def selectOrderForUpdate_def split: sum.splits)
  moreover have "1 \<le> rating \<and> rating \<le> 5" using sch by (simp add: reviewSchema_def split: if_splits)
  ultimately show ?thesis using b side found(1) k new by (auto split: if_splits)
qed

section \<open>Witnesses\<close>

definition created0 :: "IdempotentTransactionResult result \<times> db" where
  "created0 = createOrder env0 (\<lambda>_. ''t'') (\<lambda>_. hash0) 5 ''buyer'' (Some ''k1'') ''p1'' (Some 2) db0"

lemma created0_runs:
  "\<exists>res. createOrder env0 (\<lambda>_. ''t'') (\<lambda>_. hash0) 5 ''buyer'' (Some ''k1'') ''p1'' (Some 2) db0 = (Inr res, snd created0) \<and>
     \<not> rs_replayed res"
proof -
  have "\<not> isl (fst created0)" "\<not> rs_replayed (projr (fst created0))" by code_simp+
  then show ?thesis by (cases created0; cases "fst created0") (auto simp: created0_def)
qed

theorem order_creation_witness:
  "same_money db0 (snd created0) \<and> (\<exists>ord. orders (snd created0) = orders db0 @ [ord] \<and> o_status ord = Pending)"
proof -
  from created0_runs obtain res where r:
    "createOrder env0 (\<lambda>_. ''t'') (\<lambda>_. hash0) 5 ''buyer'' (Some ''k1'') ''p1'' (Some 2) db0 = (Inr res, snd created0)"
    "\<not> rs_replayed res" by blast
  from order_creation [OF r(1)] r(2) show ?thesis by auto
qed

definition shipped0 :: db where
  "shipped0 = snd (deliverOrder env0 8 ''seller'' ''o1'' ''enjoy it'' (snd paid0))"

lemma shipped0_order: "orders shipped0 = [hd (orders shipped0)]" "order_valid (hd (orders shipped0))"
  "isDue (10 ^ 9) (hd (orders shipped0))"
  by code_simp+

lemma shipped0_valid: "orders_valid shipped0" "distinct (map o_id (orders shipped0))"
proof -
  show "distinct (map o_id (orders shipped0))" by (subst shipped0_order(1)) simp
  show "orders_valid shipped0"
    unfolding orders_valid_def by (subst shipped0_order(1)) (use shipped0_order(2) in auto)
qed

theorem sweep_releases_due_only_witness:
  "fst (runAutoReleaseSweep env0 (\<lambda>_. no_faults) (10 ^ 9) shipped0) = Inr () \<and>
   o_status (hd (orders (snd (runAutoReleaseSweep env0 (\<lambda>_. no_faults) (10 ^ 9) shipped0)))) = Completed"
proof
  show "fst (runAutoReleaseSweep env0 (\<lambda>_. no_faults) (10 ^ 9) shipped0) = Inr ()"
    using sweep_releases_due_only [OF shipped0_valid, of env0 "\<lambda>_. no_faults" "10 ^ 9"] by (metis prod.collapse)
  show "o_status (hd (orders (snd (runAutoReleaseSweep env0 (\<lambda>_. no_faults) (10 ^ 9) shipped0)))) = Completed" by code_simp
qed

definition completed0 :: db where
  "completed0 = orders_update (map (\<lambda>r. r\<lparr>o_status := Completed\<rparr>)) db0"

definition reviewed0 :: "(review_row \<times> bool) result \<times> db" where
  "reviewed0 = reviewOrder env0 5 ''buyer'' ''o1'' 5 None completed0"

theorem review_once_witness:
  "\<exists>r s'. reviewOrder env0 5 ''buyer'' ''o1'' 5 None completed0 = (Inr (r, True), s') \<and>
     reviewOrder env0 9 ''buyer'' ''o1'' 5 None s' = (Inr (r, False), s') \<and>
     isl (fst (reviewOrder env0 9 ''buyer'' ''o1'' 1 None s'))"
proof -
  have "\<not> isl (fst reviewed0)" "snd (projr (fst reviewed0))" by code_simp+
  then obtain r s' where run: "reviewOrder env0 5 ''buyer'' ''o1'' 5 None completed0 = (Inr (r, True), s')"
    by (cases reviewed0; cases "fst reviewed0") (auto simp: reviewed0_def)
  have "t_find o_id ''o1'' (orders completed0) = Some (order0\<lparr>o_status := Completed\<rparr>)" by code_simp
  from review_once [OF run this, of env0 9 1 None] run show ?thesis by auto
qed

end
