(* ===== verification/Wallet.thy ===== *)
theory Wallet
  imports Balances Notifications
begin

text \<open>
  Wallet top-ups, withdrawals, payouts and manual adjustments: \<open>modules/users/wallet.service.ts\<close>, the
  payout providers of \<open>modules/payments/payout.providers.ts\<close> and the withdrawal route of
  \<open>modules/users/users.routes.ts\<close>.
\<close>

section \<open>Checked balances\<close>

definition checkedWalletAddition :: "int \<Rightarrow> int \<Rightarrow> int result" where
  "checkedWalletAddition currentCents addedCents = (case cents_add currentCents addedCents of
       Inl (MoneyRangeError _) \<Rightarrow> Inl (badRequest ''Wallet balance exceeds the supported money range'')
     | r \<Rightarrow> r)"

definition checkedWalletSubtraction :: "int \<Rightarrow> int \<Rightarrow> int result" where
  "checkedWalletSubtraction currentCents subtractedCents = (case cents_sub currentCents subtractedCents of
       Inl (MoneyRangeError _) \<Rightarrow> Inl (badRequest ''Wallet balance exceeds the supported money range'')
     | r \<Rightarrow> r)"

section \<open>Top-ups\<close>

text \<open>One \<open>insert\<close> outside a transaction, under \<open>check (amount_cents > 0)\<close> and the user's foreign key.\<close>

definition createWalletTopup :: "env \<Rightarrow> uuid \<Rightarrow> int \<Rightarrow> string \<Rightarrow> topup_row dbtx" where
  "createWalletTopup env userId amountCents currency =
     tx_bind (tx_lift (assertPostgresBigintRange amountCents)) (\<lambda>canonicalAmount.
     tx_bind (tx_guard (0 < canonicalAmount) (PgError ''23514'')) (\<lambda>_.
     tx_bind (tx_gets (\<lambda>s. t_find u_id userId (users s) \<noteq> None)) (\<lambda>fk.
     tx_bind (tx_guard fk (PgError ''23503'')) (\<lambda>_.
     tx_bind (gen_random_uuid env) (\<lambda>tid.
     let row = \<lparr>tp_id = tid, tp_user = userId, tp_amount = canonicalAmount, tp_currency = currency,
                tp_status = TPending, tp_provider = None, tp_reference = None, tp_completed_at = None\<rparr> in
     tx_bind (tx_modify (wallet_topups_update (\<lambda>ts. ts @ [row]))) (\<lambda>_.
     tx_return row))))))"

definition completedTopup :: "time \<Rightarrow> string \<Rightarrow> string \<Rightarrow> topup_row \<Rightarrow> topup_row" where
  "completedTopup now provider reference topup = topup\<lparr>tp_status := TCompleted, tp_provider := Some provider,
     tp_reference := Some reference, tp_completed_at := Some now\<rparr>"

definition creditTopup :: "env \<Rightarrow> time \<Rightarrow> string \<Rightarrow> string \<Rightarrow> topup_row \<Rightarrow> topup_row dbtx" where
  "creditTopup env now provider reference topup =
     tx_bind (ensureWallet (tp_user topup) (tp_currency topup)) (\<lambda>walletId.
     tx_bind (selectWallet walletId) (\<lambda>wallet.
     tx_bind (tx_lift (assertPostgresBigintRange (tp_amount topup))) (\<lambda>amountCents.
     tx_bind (tx_lift (checkedWalletAddition (w_available wallet) amountCents)) (\<lambda>nextAvailableCents.
     tx_bind (updateWallet walletId (\<lambda>w. w\<lparr>w_available := nextAvailableCents\<rparr>)) (\<lambda>_.
     tx_bind (insertTransaction env (tp_user topup) None ''wallet_credit'' ''credit'' (tp_amount topup)
       (tp_currency topup) ''posted''
       (JObj [(''provider'', JStr provider), (''reference'', JStr reference)])) (\<lambda>_.
     tx_bind (recordWalletTopupLedger (tp_user topup) amountCents (tp_currency topup) provider reference
       (tp_id topup)) (\<lambda>_.
     tx_bind (tx_modify (wallet_topups_update (t_upd tp_id (tp_id topup) (completedTopup now provider reference)))) (\<lambda>_.
     tx_bind (cacheDel env [walletCacheKey (tp_user topup)]) (\<lambda>_.
     tx_return (completedTopup now provider reference topup))))))))))"

definition completeWalletTopup ::
  "env \<Rightarrow> (nat \<Rightarrow> string option) \<Rightarrow> time \<Rightarrow> uuid \<Rightarrow> string \<Rightarrow> string \<Rightarrow> topup_row dbtx" where
  "completeWalletTopup env faults now topupId provider reference =
     inSerializableTx 3 faults
       (tx_bind (tx_gets (\<lambda>s. t_find tp_id topupId (wallet_topups s))) (\<lambda>row.
        tx_bind (tx_some row (notFound ''Wallet topup not found'')) (\<lambda>topup.
        if tp_status topup \<noteq> TPending then tx_return topup
        else creditTopup env now provider reference topup)))"

section \<open>Withdrawals\<close>

record PayoutDestination =
  pd_method :: string
  pd_account :: string
  pd_holder :: string
  pd_bank :: "string option"

definition destination_json :: "PayoutDestination \<Rightarrow> json" where
  "destination_json d = JObj ([(''method'', JStr (pd_method d)), (''accountNumber'', JStr (pd_account d)),
     (''holderName'', JStr (pd_holder d))] @
     (case pd_bank d of Some b \<Rightarrow> [(''bankName'', JStr b)] | None \<Rightarrow> []))"

definition withdrawalTx :: "env \<Rightarrow> uuid \<Rightarrow> int \<Rightarrow> string \<Rightarrow> PayoutDestination \<Rightarrow> payout_row dbtx" where
  "withdrawalTx env userId amount currency destination =
     tx_bind (ensureWallet userId currency) (\<lambda>walletId.
     tx_bind (selectWallet walletId) (\<lambda>wallet.
     tx_bind (tx_guard (\<not> w_available wallet < amount) (badRequest ''Insufficient balance'')) (\<lambda>_.
     tx_bind (tx_lift (checkedWalletSubtraction (w_available wallet) amount)) (\<lambda>nextAvailableCents.
     tx_bind (updateWallet walletId (\<lambda>w. w\<lparr>w_available := nextAvailableCents\<rparr>)) (\<lambda>_.
     tx_bind (insertTransaction env userId None ''wallet_debit'' ''debit'' amount currency ''pending''
       (JObj [(''destination'', destination_json destination)])) (\<lambda>txId.
     tx_bind (recordWalletWithdrawalLedger txId userId amount currency) (\<lambda>_.
     tx_bind (gen_random_uuid env) (\<lambda>pid.
     let row = \<lparr>po_id = pid, po_user = userId, po_transaction = txId, po_amount = amount,
                po_currency = currency, po_provider = ''manual'', po_destination = destination_json destination,
                po_status = POPending, po_reference = None, po_admin_note = None, po_processed_by = None,
                po_processed_at = None\<rparr> in
     tx_bind (tx_modify (payouts_update (\<lambda>ps. ps @ [row]))) (\<lambda>_.
     tx_bind (cacheDel env [walletCacheKey userId]) (\<lambda>_.
     tx_return row))))))))))"

definition amountParams :: "int \<Rightarrow> string \<Rightarrow> TranslateParams result" where
  "amountParams amount currency = r_bind (centsToDecimalString (BigInt amount)) (\<lambda>a.
     Inr [(''amount'', JStr a), (''currency'', JStr currency)])"

definition requestWithdrawal ::
  "env \<Rightarrow> (nat \<Rightarrow> string option) \<Rightarrow> uuid \<Rightarrow> int \<Rightarrow> string \<Rightarrow> PayoutDestination \<Rightarrow> payout_row dbtx" where
  "requestWithdrawal env faults userId amountCents currency destination =
     tx_bind (tx_lift (assertPostgresBigintRange amountCents)) (\<lambda>canonicalAmount.
     tx_bind (tx_guard (\<not> canonicalAmount \<le> 0) (badRequest ''Withdrawal amount must be positive'')) (\<lambda>_.
     tx_bind (inSerializableTx 3 faults (withdrawalTx env userId canonicalAmount currency destination)) (\<lambda>payout.
     tx_bind (tx_lift (amountParams canonicalAmount currency)) (\<lambda>params.
     tx_bind (createNotification env
       (templateNotification userId ''payout_requested'' ''notifications.payoutRequested'' params) None) (\<lambda>_.
     tx_bind (notifyAdmins env
       (templateNotification [] ''payout_pending_admin'' ''notifications.payoutPendingAdmin'' params) [RAdmin]) (\<lambda>_.
     tx_return payout))))))"

text \<open>The Zod schema of the withdrawal route, then the handler.\<close>

definition withdrawSchema :: "string option \<Rightarrow> PayoutDestination \<Rightarrow> string result" where
  "withdrawSchema currency d = (let c = (case currency of Some x \<Rightarrow> x | None \<Rightarrow> ''UAH'') in
     if length c = 3 \<and> pd_method d \<in> {''card'', ''iban''} \<and> 4 \<le> length (pd_account d) \<and> length (pd_account d) \<le> 64 \<and>
        2 \<le> length (pd_holder d) \<and> length (pd_holder d) \<le> 120 \<and>
        (case pd_bank d of Some b \<Rightarrow> length b \<le> 120 | None \<Rightarrow> True)
     then Inr c else Inl (ZodError ''withdrawSchema''))"

definition withdrawRoute ::
  "env \<Rightarrow> (nat \<Rightarrow> string option) \<Rightarrow> uuid \<Rightarrow> string \<Rightarrow> string option \<Rightarrow> PayoutDestination \<Rightarrow> payout_row dbtx" where
  "withdrawRoute env faults userId amount currency destination =
     tx_bind (tx_lift (withdrawSchema currency destination)) (\<lambda>c.
     tx_bind (tx_lift (moneyToCents amount)) (\<lambda>amountCents.
     tx_bind (tx_lift (parseMoneyCents amountCents)) (\<lambda>cents.
     tx_bind (tx_guard (\<not> cents < 100) (badRequest ''Minimum withdrawal amount is 1.00'')) (\<lambda>_.
     requestWithdrawal env faults userId cents (toUpperCase c) destination))))"

section \<open>Manual adjustments\<close>

definition manualAdjustmentTx ::
  "env \<Rightarrow> uuid \<Rightarrow> int \<Rightarrow> int \<Rightarrow> string \<Rightarrow> string \<Rightarrow> uuid \<Rightarrow> uuid dbtx" where
  "manualAdjustmentTx env userId signedAmount magnitude currency reason adminId =
     tx_bind (ensureWallet userId currency) (\<lambda>walletId.
     tx_bind (selectWallet walletId) (\<lambda>wallet.
     tx_bind (tx_guard (\<not> (signedAmount < 0 \<and> w_available wallet < magnitude))
       (badRequest ''Insufficient balance for a negative adjustment'')) (\<lambda>_.
     tx_bind (tx_lift (checkedWalletAddition (w_available wallet) signedAmount)) (\<lambda>nextAvailableCents.
     tx_bind (updateWallet walletId (\<lambda>w. w\<lparr>w_available := nextAvailableCents\<rparr>)) (\<lambda>_.
     tx_bind (tx_gets (\<lambda>s. gen_nanoid env (uuid_ctr s))) (\<lambda>adjustmentId.
     tx_bind (insertTransaction env userId None ''manual_adjustment''
       (if 0 \<le> signedAmount then ''credit'' else ''debit'') magnitude currency ''posted''
       (JObj [(''adminId'', JStr adminId), (''reason'', JStr reason)])) (\<lambda>txId.
     tx_bind (recordManualAdjustmentLedger adjustmentId userId signedAmount currency adminId reason) (\<lambda>_.
     tx_bind (cacheDel env [walletCacheKey userId]) (\<lambda>_.
     tx_return txId)))))))))"

definition postManualAdjustment ::
  "env \<Rightarrow> (nat \<Rightarrow> string option) \<Rightarrow> uuid \<Rightarrow> int \<Rightarrow> string \<Rightarrow> string \<Rightarrow> uuid \<Rightarrow> uuid dbtx" where
  "postManualAdjustment env faults userId amountCents currency reason adminId =
     tx_bind (tx_lift (assertPostgresBigintRange amountCents)) (\<lambda>signedAmount.
     tx_bind (tx_guard (signedAmount \<noteq> 0) (badRequest ''Adjustment amount cannot be zero'')) (\<lambda>_.
     tx_bind (tx_lift (case cents_abs signedAmount of
         Inl (MoneyRangeError _) \<Rightarrow> Inl (badRequest ''Adjustment amount magnitude exceeds the supported money range'')
       | r \<Rightarrow> r)) (\<lambda>magnitude.
     inSerializableTx 3 faults (manualAdjustmentTx env userId signedAmount magnitude currency reason adminId))))"

section \<open>Payouts\<close>

definition payoutProvider :: "string \<Rightarrow> string \<Rightarrow> string result" where
  "payoutProvider name adminReference =
     (if name = ''manual'' then
        (if adminReference = [] then Inl (JsError ''Manual payout requires an admin-supplied bank transaction reference'')
         else Inr adminReference)
      else if name = ''liqpay'' then Inl (JsError ''LiqPay payout integration is not implemented yet'')
      else Inl (JsError ''Cannot read properties of undefined''))"

text \<open>
  \<open>completePayout\<close> runs its two statements on the pool, each in a transaction of its own: the row lock of the
  first is gone before the second runs. They are two steps here, so that other work can come between them.
\<close>

definition completePayoutCheck :: "uuid \<Rightarrow> string \<Rightarrow> string dbtx" where
  "completePayoutCheck payoutId adminReference =
     tx_bind (tx_gets (\<lambda>s. t_find po_id payoutId (payouts s))) (\<lambda>row.
     tx_bind (tx_some row (notFound ''Payout not found'')) (\<lambda>payout.
     tx_bind (tx_guard (po_status payout = POPending) (badRequest ''Only pending payouts can be completed'')) (\<lambda>_.
     tx_lift (payoutProvider (po_provider payout) adminReference))))"

definition completePayoutWrite :: "env \<Rightarrow> time \<Rightarrow> uuid \<Rightarrow> uuid \<Rightarrow> string \<Rightarrow> payout_row dbtx" where
  "completePayoutWrite env now payoutId adminId reference =
     (let f = (\<lambda>p. p\<lparr>po_status := POPaid, po_reference := Some reference, po_processed_by := Some adminId,
                     po_processed_at := Some now\<rparr>) in
      tx_bind (tx_modify (payouts_update (t_upd po_id payoutId f))) (\<lambda>_.
      tx_bind (tx_gets (\<lambda>s. t_find po_id payoutId (payouts s))) (\<lambda>row.
      tx_bind (tx_some row (JsError ''Cannot read properties of undefined'')) (\<lambda>paid.
      tx_bind (tx_lift (amountParams (po_amount paid) (po_currency paid))) (\<lambda>params.
      tx_bind (createNotification env
        (templateNotification (po_user paid) ''payout_approved'' ''notifications.payoutApproved'' params) None) (\<lambda>_.
      tx_return paid))))))"

definition completePayout :: "env \<Rightarrow> time \<Rightarrow> uuid \<Rightarrow> uuid \<Rightarrow> string \<Rightarrow> payout_row dbtx" where
  "completePayout env now payoutId adminId adminReference =
     tx_bind (completePayoutCheck payoutId adminReference) (\<lambda>reference.
     completePayoutWrite env now payoutId adminId reference)"

definition rejectedPayout :: "time \<Rightarrow> uuid \<Rightarrow> string \<Rightarrow> payout_row \<Rightarrow> payout_row" where
  "rejectedPayout now adminId reason payout = payout\<lparr>po_status := PORejected, po_admin_note := Some reason,
     po_processed_by := Some adminId, po_processed_at := Some now\<rparr>"

definition rejectPayoutTx :: "env \<Rightarrow> time \<Rightarrow> uuid \<Rightarrow> uuid \<Rightarrow> string \<Rightarrow> payout_row dbtx" where
  "rejectPayoutTx env now payoutId adminId reason =
     tx_bind (tx_gets (\<lambda>s. t_find po_id payoutId (payouts s))) (\<lambda>row.
     tx_bind (tx_some row (notFound ''Payout not found'')) (\<lambda>payout.
     tx_bind (tx_guard (po_status payout = POPending) (badRequest ''Only pending payouts can be rejected'')) (\<lambda>_.
     tx_bind (ensureWallet (po_user payout) (po_currency payout)) (\<lambda>walletId.
     tx_bind (selectWallet walletId) (\<lambda>wallet.
     tx_bind (tx_lift (assertPostgresBigintRange (po_amount payout))) (\<lambda>payoutAmountCents.
     tx_bind (tx_lift (checkedWalletAddition (w_available wallet) payoutAmountCents)) (\<lambda>nextAvailableCents.
     tx_bind (updateWallet walletId (\<lambda>w. w\<lparr>w_available := nextAvailableCents\<rparr>)) (\<lambda>_.
     tx_bind (insertTransaction env (po_user payout) None ''wallet_credit'' ''credit'' (po_amount payout)
       (po_currency payout) ''posted''
       (JObj [(''kind'', JStr ''payout_rejected''), (''payoutId'', JStr payoutId), (''reason'', JStr reason)])) (\<lambda>_.
     tx_bind (recordWalletWithdrawalReversalLedger (po_transaction payout) (po_user payout) payoutAmountCents
       (po_currency payout)) (\<lambda>_.
     tx_bind (tx_modify (payouts_update (t_upd po_id payoutId (rejectedPayout now adminId reason)))) (\<lambda>_.
     tx_bind (cacheDel env [walletCacheKey (po_user payout)]) (\<lambda>_.
     tx_return (rejectedPayout now adminId reason payout)))))))))))))"

definition rejectPayout ::
  "env \<Rightarrow> (nat \<Rightarrow> string option) \<Rightarrow> time \<Rightarrow> uuid \<Rightarrow> uuid \<Rightarrow> string \<Rightarrow> payout_row dbtx" where
  "rejectPayout env faults now payoutId adminId reason =
     tx_bind (inSerializableTx 3 faults (rejectPayoutTx env now payoutId adminId reason)) (\<lambda>rejected.
     tx_bind (tx_lift (amountParams (po_amount rejected) (po_currency rejected))) (\<lambda>params.
     tx_bind (createNotification env
       (templateNotification (po_user rejected) ''payout_rejected'' ''notifications.payoutRejected''
         (params @ [(''reason'', JStr reason)])) None) (\<lambda>_.
     tx_return rejected)))"

end
