(* ===== verification/WalletOps.thy ===== *)
theory WalletOps
  imports Wallet
begin

text \<open>
  What the wallet operations do to the two views of the money and to the top-up and payout tables, and
  the properties that follow.
\<close>

lemma checkedWalletAddition_Inr [simp]: "checkedWalletAddition a b = Inr v \<longleftrightarrow> cents_add a b = Inr v"
  by (cases "cents_add a b") (auto simp: checkedWalletAddition_def simp del: cents_add_Inr_iff split: err.splits)

lemma checkedWalletSubtraction_Inr [simp]: "checkedWalletSubtraction a b = Inr v \<longleftrightarrow> cents_sub a b = Inr v"
  by (cases "cents_sub a b") (auto simp: checkedWalletSubtraction_def simp del: cents_sub_Inr_iff split: err.splits)

text \<open>The tables a wallet posting leaves alone.\<close>

definition wallet_frame :: "db \<Rightarrow> db \<Rightarrow> bool" where
  "wallet_frame s s' \<longleftrightarrow> orders s' = orders s \<and> products s' = products s \<and> disputes s' = disputes s \<and>
     platform_wallets s' = platform_wallets s"

text \<open>The shared shape: one wallet changed and one two-line entry booked under the key.\<close>

lemma wallet_posting:
  assumes e: "ensureWallet u c s = (Inr wid, s1)" and w: "t_find wallet_key wid (wallets s1) = Some w"
    and up: "updateWallet wid (\<lambda>x. x\<lparr>w_available := w_available w + d\<rparr>) s1 = (Inr y, s2)"
    and s3: "s3 = s2\<lparr>uuid_ctr := n, transactions := ts\<rparr>" "uuid_ctr s2 \<le> n"
    and p: "postLedgerEntry (wallet_entry k md toUser u amt c) s3 = (Inr r, s4)"
    and d: "d = (if toUser then amt else - amt)" and v: "u \<noteq> []" "length c = 3"
  shows "money_step k (acct_delta (Payable u c) d) s s4" and "wallet_frame s s4"
    and "wallet_topups s4 = wallet_topups s" "payouts s4 = payouts s" "uuid_ctr s4 = n" "uuid_ctr s2 = uuid_ctr s"
    and "wallet_money s (Payable u c) = w_available w"
proof -
  note E = ensureWallet_Inr [OF e]
  from E(1) have i: "wid = (u, c)" .
  obtain ws where s1: "s1 = s\<lparr>wallets := ws\<rparr>" using E(2) by blast
  note U = updateWallet_Inr [OF up [unfolded i] w [unfolded i]]
  have s2: "s2 = s1\<lparr>wallets := t_upd wallet_key (u, c) (\<lambda>x. x\<lparr>w_available := w_available w + d\<rparr>) (wallets s1)\<rparr>"
    by (rule U(1)) simp_all
  have wm: "wallet_money s3 a = wallet_money s a + acct_delta (Payable u c) d a" for a
    using U(2) [of a] E(3) [of a] by (simp add: s3 wallet_money_def acct_delta_def)
  have ok: "wallets_ok s3" if "wallets_ok s" "users_ok s"
  proof -
    have "wallets_ok s1" using E(5) that v by simp
    then have "wallets_ok s2" by (rule U(3) [rotated -1]) simp_all
    then show ?thesis by (simp add: wallets_ok_def s3)
  qed
  have key: "le_key (wallet_entry k md toUser u amt c) = k" by (simp add: wallet_entry_def Let_def)
  show "money_step k (acct_delta (Payable u c) d) s s4"
    by (rule money_step_posting [OF _ _ ok wm _ _ _ p key])
      (use v s3(2) in \<open>simp_all add: s3(1) s2 s1 delta_wallet entries_charted d\<close>)
  show "uuid_ctr s2 = uuid_ctr s" by (simp add: s2 s1)
  show "wallet_frame s s4" "wallet_topups s4 = wallet_topups s" "payouts s4 = payouts s" "uuid_ctr s4 = n"
    using post_frame [OF p] by (auto simp: wallet_frame_def s3 s2 s1)
  show "wallet_money s (Payable u c) = w_available w"
    using E(3) [of "Payable u c"] w by (simp add: wallet_money_def i)
qed

definition topup_key :: "uuid \<Rightarrow> string" where
  "topup_key i = ''wallet_topup:'' @ i"

definition withdrawal_key :: "uuid \<Rightarrow> string" where
  "withdrawal_key i = ''wallet_withdrawal:'' @ i"

definition reversal_key :: "uuid \<Rightarrow> string" where
  "reversal_key i = ''wallet_withdrawal_reversal:'' @ i"

lemma cacheDel_money: "cacheDel env ks s = (Inr y, s') \<Longrightarrow> side_step s s'"
  by (rule side.keepsD [OF side_caches(1)])

lemma creditTopup_Inr:
  assumes run: "creditTopup env now prov ref tp s = (Inr res, s')"
    and v: "tp_user tp \<noteq> []" "length (tp_currency tp) = 3"
  shows "money_step (topup_key (tp_id tp)) (acct_delta (Payable (tp_user tp) (tp_currency tp)) (tp_amount tp)) s s'"
    and "wallet_frame s s'" "payouts s' = payouts s"
    and "wallet_topups s' = t_upd tp_id (tp_id tp) (completedTopup now prov ref) (wallet_topups s)"
    and "res = completedTopup now prov ref tp"
proof -
  from run obtain wid s1 w y s2 s3 t1 r s4 y' where
    e: "ensureWallet (tp_user tp) (tp_currency tp) s = (Inr wid, s1)"
    and w: "t_find wallet_key wid (wallets s1) = Some w"
    and u: "updateWallet wid (\<lambda>x. x\<lparr>w_available := w_available w + tp_amount tp\<rparr>) s1 = (Inr y, s2)"
    and s3: "s3 = s2\<lparr>uuid_ctr := Suc (uuid_ctr s2), transactions := transactions s2 @ [t1]\<rparr>"
    and p: "postLedgerEntry (wallet_entry (topup_key (tp_id tp)) [(''provider'', JStr prov), (''reference'', JStr ref),
        (''kind'', JStr ''wallet_topup'')] True (tp_user tp) (tp_amount tp) (tp_currency tp)) s3 = (Inr r, s4)"
    and c: "cacheDel env [walletCacheKey (tp_user tp)]
        (wallet_topups_update (t_upd tp_id (tp_id tp) (completedTopup now prov ref)) s4) = (Inr y', s')"
    and res: "res = completedTopup now prov ref tp"
    unfolding creditTopup_def recordWalletTopupLedger_def topup_key_def by (auto simp: tx_simps)
  note W = wallet_posting [OF e w u s3 _ p _ v, simplified]
  note side = cacheDel_money [OF c]
  let ?t = "wallet_topups_update (t_upd tp_id (tp_id tp) (completedTopup now prov ref)) s4"
  have "same_money s4 ?t" by (simp add: same_money_def)
  then have "money_step (topup_key (tp_id tp)) (acct_delta (Payable (tp_user tp) (tp_currency tp)) (tp_amount tp)) s ?t"
    using same_money_step(1) [OF W(1)] by simp
  then show "money_step (topup_key (tp_id tp)) (acct_delta (Payable (tp_user tp) (tp_currency tp)) (tp_amount tp)) s s'"
    using same_money_step(1) side_same_money [OF side] by blast
  show "wallet_frame s s'" "payouts s' = payouts s"
    "wallet_topups s' = t_upd tp_id (tp_id tp) (completedTopup now prov ref) (wallet_topups s)"
    using W side_step_fields [OF side] by (simp_all add: wallet_frame_def)
  show "res = completedTopup now prov ref tp" by (rule res)
qed

lemma withdrawalTx_Inr:
  assumes run: "withdrawalTx env u amt c dest s = (Inr row, s')" and v: "u \<noteq> []" "length c = 3"
  shows "money_step (withdrawal_key (po_transaction row)) (acct_delta (Payable u c) (- amt)) s s'"
    and "wallet_frame s s'" "wallet_topups s' = wallet_topups s" "payouts s' = payouts s @ [row]"
    and "po_transaction row = gen_uuid env (uuid_ctr s)" "po_id row = gen_uuid env (Suc (uuid_ctr s))"
    and "po_user row = u" "po_amount row = amt" "po_currency row = c" "po_status row = POPending" "po_provider row = ''manual''"
    and "Suc (Suc (uuid_ctr s)) \<le> uuid_ctr s'"
    and "0 \<le> amt" "amt \<le> wallet_money s (Payable u c)"
proof -
  from run obtain wid s1 w y s2 s3 t1 r s4 y' where
    e: "ensureWallet u c s = (Inr wid, s1)"
    and w: "t_find wallet_key wid (wallets s1) = Some w" and le: "amt \<le> w_available w" "0 \<le> amt"
    and up: "updateWallet wid (\<lambda>x. x\<lparr>w_available := w_available w - amt\<rparr>) s1 = (Inr y, s2)"
    and s3: "s3 = s2\<lparr>uuid_ctr := Suc (uuid_ctr s2), transactions := transactions s2 @ [t1]\<rparr>"
    and p: "postLedgerEntry (wallet_entry (withdrawal_key (gen_uuid env (uuid_ctr s2)))
        [(''kind'', JStr ''wallet_withdrawal'')] False u amt c) s3 = (Inr r, s4)"
    and row: "row = \<lparr>po_id = gen_uuid env (uuid_ctr s4), po_user = u, po_transaction = gen_uuid env (uuid_ctr s2),
                po_amount = amt, po_currency = c, po_provider = ''manual'', po_destination = destination_json dest,
                po_status = POPending, po_reference = None, po_admin_note = None, po_processed_by = None,
                po_processed_at = None\<rparr>"
    and cd: "cacheDel env [walletCacheKey u] (payouts_update (\<lambda>ps. ps @ [row]) (s4\<lparr>uuid_ctr := Suc (uuid_ctr s4)\<rparr>)) = (Inr y', s')"
    unfolding withdrawalTx_def recordWalletWithdrawalLedger_def withdrawal_key_def
    by (auto simp: tx_simps Let_def not_less)
  have up': "updateWallet wid (\<lambda>x. x\<lparr>w_available := w_available w + - amt\<rparr>) s1 = (Inr y, s2)" using up by simp
  note W = wallet_posting [OF e w up' s3 _ p _ v, simplified]
  note side = cacheDel_money [OF cd]
  let ?t = "payouts_update (\<lambda>ps. ps @ [row]) (s4\<lparr>uuid_ctr := Suc (uuid_ctr s4)\<rparr>)"
  have "same_money s4 ?t" by (simp add: same_money_def)
  then have "money_step (withdrawal_key (po_transaction row)) (acct_delta (Payable u c) (- amt)) s ?t"
    using same_money_step(1) [OF W(1)] by (simp add: row)
  then show "money_step (withdrawal_key (po_transaction row)) (acct_delta (Payable u c) (- amt)) s s'"
    using same_money_step(1) side_same_money [OF side] by blast
  show "wallet_frame s s'" "wallet_topups s' = wallet_topups s" "payouts s' = payouts s @ [row]"
    using W side_step_fields [OF side] by (simp_all add: wallet_frame_def)
  show "po_transaction row = gen_uuid env (uuid_ctr s)" "po_id row = gen_uuid env (Suc (uuid_ctr s))"
    using W(5,6) by (simp_all add: row)
  show "po_user row = u" "po_amount row = amt" "po_currency row = c" "po_status row = POPending" "po_provider row = ''manual''"
    by (simp_all add: row)
  show "Suc (Suc (uuid_ctr s)) \<le> uuid_ctr s'" using W(5,6) side_step_fields(14) [OF side] by simp
  show "amt \<le> wallet_money s (Payable u c)" "0 \<le> amt" using le W(7) by simp_all
qed

lemma rejectPayoutTx_Inr:
  assumes run: "rejectPayoutTx env now i adm reason s = (Inr res, s')"
    and v: "\<And>po. t_find po_id i (payouts s) = Some po \<Longrightarrow> po_user po \<noteq> [] \<and> length (po_currency po) = 3"
  obtains po where "t_find po_id i (payouts s) = Some po" "po_status po = POPending"
    "res = rejectedPayout now adm reason po"
    "money_step (reversal_key (po_transaction po)) (acct_delta (Payable (po_user po) (po_currency po)) (po_amount po)) s s'"
    "wallet_frame s s'" "wallet_topups s' = wallet_topups s"
    "payouts s' = t_upd po_id i (rejectedPayout now adm reason) (payouts s)"
proof -
  from run obtain po wid s1 w y s2 s3 t1 r s4 y' where
    po: "t_find po_id i (payouts s) = Some po" "po_status po = POPending"
    and e: "ensureWallet (po_user po) (po_currency po) s = (Inr wid, s1)"
    and w: "t_find wallet_key wid (wallets s1) = Some w"
    and up: "updateWallet wid (\<lambda>x. x\<lparr>w_available := w_available w + po_amount po\<rparr>) s1 = (Inr y, s2)"
    and s3: "s3 = s2\<lparr>uuid_ctr := Suc (uuid_ctr s2), transactions := transactions s2 @ [t1]\<rparr>"
    and p: "postLedgerEntry (wallet_entry (reversal_key (po_transaction po))
        [(''kind'', JStr ''wallet_withdrawal_reversal'')] True (po_user po) (po_amount po) (po_currency po)) s3 = (Inr r, s4)"
    and cd: "cacheDel env [walletCacheKey (po_user po)]
        (payouts_update (t_upd po_id i (rejectedPayout now adm reason)) s4) = (Inr y', s')"
    and res: "res = rejectedPayout now adm reason po"
    unfolding rejectPayoutTx_def recordWalletWithdrawalReversalLedger_def reversal_key_def by (auto simp: tx_simps)
  have v': "po_user po \<noteq> []" "length (po_currency po) = 3" using v [OF po(1)] by simp_all
  note W = wallet_posting [OF e w up s3 _ p _ v', simplified]
  note side = cacheDel_money [OF cd]
  let ?t = "payouts_update (t_upd po_id i (rejectedPayout now adm reason)) s4"
  have "same_money s4 ?t" by (simp add: same_money_def)
  then have "money_step (reversal_key (po_transaction po)) (acct_delta (Payable (po_user po) (po_currency po)) (po_amount po)) s ?t"
    using same_money_step(1) [OF W(1)] by simp
  then have "money_step (reversal_key (po_transaction po)) (acct_delta (Payable (po_user po) (po_currency po)) (po_amount po)) s s'"
    using same_money_step(1) side_same_money [OF side] by blast
  then show thesis using po res W side_step_fields [OF side] by (intro that) (simp_all add: wallet_frame_def)
qed

section \<open>Through the transaction\<close>

lemma money_step_rollback: "money_step k d (rollback s t) s' \<Longrightarrow> money_step k d s s'"
  by (rule same_money_step(2) [of s "rollback s t"]) (simp_all add: same_money_def)

lemma completedTopup_id [simp]: "tp_id (completedTopup now prov ref tp) = tp_id tp"
  "tp_status (completedTopup now prov ref tp) = TCompleted" "tp_user (completedTopup now prov ref tp) = tp_user tp"
  "tp_currency (completedTopup now prov ref tp) = tp_currency tp" "tp_amount (completedTopup now prov ref tp) = tp_amount tp"
  by (simp_all add: completedTopup_def)

lemma rejectedPayout_fields [simp]: "po_id (rejectedPayout now adm reason po) = po_id po"
  "po_status (rejectedPayout now adm reason po) = PORejected" "po_user (rejectedPayout now adm reason po) = po_user po"
  "po_currency (rejectedPayout now adm reason po) = po_currency po" "po_amount (rejectedPayout now adm reason po) = po_amount po"
  "po_transaction (rejectedPayout now adm reason po) = po_transaction po"
  by (simp_all add: rejectedPayout_def)

lemma completeWalletTopup_Inr:
  assumes run: "completeWalletTopup env faults now i prov ref s = (Inr res, s')"
    and v: "\<And>tp. t_find tp_id i (wallet_topups s) = Some tp \<Longrightarrow> tp_user tp \<noteq> [] \<and> length (tp_currency tp) = 3"
  obtains (already) t where "t_find tp_id i (wallet_topups s) = Some res" "tp_status res \<noteq> TPending" "s' = rollback s t"
  | (credited) tp where "t_find tp_id i (wallet_topups s) = Some tp" "tp_status tp = TPending"
      "res = completedTopup now prov ref tp"
      "money_step (topup_key i) (acct_delta (Payable (tp_user tp) (tp_currency tp)) (tp_amount tp)) s s'"
      "wallet_frame s s'" "payouts s' = payouts s"
      "wallet_topups s' = t_upd tp_id i (completedTopup now prov ref) (wallet_topups s)"
proof -
  from serial.run_ok [OF run [unfolded completeWalletTopup_def]] obtain t tp where
    tp: "t_find tp_id i (wallet_topups s) = Some tp"
    and k: "(if tp_status tp \<noteq> TPending then tx_return tp else creditTopup env now prov ref tp) (rollback s t) = (Inr res, s')"
    by (auto simp: tx_simps)
  have i: "tp_id tp = i" using t_find_Some [OF tp] by simp
  show thesis
  proof (cases "tp_status tp = TPending")
    case False
    with k tp show thesis by (intro already) (auto simp: tx_simps)
  next
    case True
    with k have "creditTopup env now prov ref tp (rollback s t) = (Inr res, s')" by simp
    note C = creditTopup_Inr [OF this v [OF tp, THEN conjunct1] v [OF tp, THEN conjunct2]]
    from C money_step_rollback [OF C(1)] True tp i show thesis by (intro credited) (simp_all add: wallet_frame_def)
  qed
qed

lemma requestWithdrawal_Inr:
  assumes run: "requestWithdrawal env faults u amt c dest s = (Inr row, s')" and v: "u \<noteq> []" "length c = 3"
  shows "money_step (withdrawal_key (po_transaction row)) (acct_delta (Payable u c) (- amt)) s s'"
    and "wallet_frame s s'" "wallet_topups s' = wallet_topups s" "payouts s' = payouts s @ [row]"
    and "po_transaction row = gen_uuid env (uuid_ctr s)" "po_id row = gen_uuid env (Suc (uuid_ctr s))"
    and "po_user row = u" "po_amount row = amt" "po_currency row = c" "po_status row = POPending" "po_provider row = ''manual''"
    and "Suc (Suc (uuid_ctr s)) \<le> uuid_ctr s'"
    and "0 < amt" "amt \<le> wallet_money s (Payable u c)"
proof -
  from run obtain s1 s2 ni nj y1 y2 where amt: "0 < amt"
    and tx: "inSerializableTx 3 faults (withdrawalTx env u amt c dest) s = (Inr row, s1)"
    and n1: "createNotification env ni None s1 = (Inr y1, s2)" and n2: "notifyAdmins env nj [RAdmin] s2 = (Inr y2, s')"
    unfolding requestWithdrawal_def by (auto simp: tx_simps not_le)
  have n: "side_step s1 s'"
    using side.moves_trans [OF side.keepsD [OF side_createNotification n1] side.keepsD [OF side_notifyAdmins n2]] .
  from serial.run_ok [OF tx] obtain t where "withdrawalTx env u amt c dest (rollback s t) = (Inr row, s1)"
    by blast
  note W = withdrawalTx_Inr [OF this v]
  note side = side_step_fields [OF n]
  show "money_step (withdrawal_key (po_transaction row)) (acct_delta (Payable u c) (- amt)) s s'"
    using money_step_rollback [OF W(1)] same_money_step(1) side_same_money n by blast
  show "wallet_frame s s'" "wallet_topups s' = wallet_topups s" "payouts s' = payouts s @ [row]"
    "po_transaction row = gen_uuid env (uuid_ctr s)" "po_id row = gen_uuid env (Suc (uuid_ctr s))"
    "po_user row = u" "po_amount row = amt" "po_currency row = c" "po_status row = POPending" "po_provider row = ''manual''"
    "Suc (Suc (uuid_ctr s)) \<le> uuid_ctr s'" "0 < amt" "amt \<le> wallet_money s (Payable u c)"
    using W side amt by (simp_all add: wallet_frame_def wallet_money_def)
qed

lemma rejectPayout_Inr:
  assumes run: "rejectPayout env faults now i adm reason s = (Inr res, s')"
    and v: "\<And>po. t_find po_id i (payouts s) = Some po \<Longrightarrow> po_user po \<noteq> [] \<and> length (po_currency po) = 3"
  obtains po where "t_find po_id i (payouts s) = Some po" "po_status po = POPending"
    "res = rejectedPayout now adm reason po"
    "money_step (reversal_key (po_transaction po)) (acct_delta (Payable (po_user po) (po_currency po)) (po_amount po)) s s'"
    "wallet_frame s s'" "wallet_topups s' = wallet_topups s"
    "payouts s' = t_upd po_id i (rejectedPayout now adm reason) (payouts s)"
proof -
  from run obtain s1 ps y where
    tx: "inSerializableTx 3 faults (rejectPayoutTx env now i adm reason) s = (Inr res, s1)"
    and n: "createNotification env ps None s1 = (Inr y, s')"
    unfolding rejectPayout_def by (auto simp: tx_simps)
  note side = side.keepsD [OF side_createNotification n]
  from serial.run_ok [OF tx] obtain t where t: "rejectPayoutTx env now i adm reason (rollback s t) = (Inr res, s1)" ..
  show thesis
  proof (rule rejectPayoutTx_Inr [OF t], goal_cases)
    case (1 po)
    then show ?case using v by simp
  next
    case (2 po)
    have "money_step (reversal_key (po_transaction po)) (acct_delta (Payable (po_user po) (po_currency po)) (po_amount po)) s s'"
      using money_step_rollback [OF 2(4)] same_money_step(1) side_same_money [OF side] by blast
    with 2 side_step_fields [OF side] show ?case by (intro that) (simp_all add: wallet_frame_def)
  qed
qed

section \<open>Properties\<close>


text \<open>
  A withdrawal never overdraws: when \<open>requestWithdrawal\<close> returns, the amount was positive and covered by
  the available balance, that balance fell by exactly the amount and no other balance moved, and one pending
  payout of that amount was added, under a transaction id drawn for it.
\<close>

theorem withdrawal_covered:
  assumes "requestWithdrawal env faults u amt c dest s = (Inr row, s')" "u \<noteq> []" "length c = 3"
  shows "0 < amt \<and> amt \<le> wallet_money s (Payable u c) \<and>
    (\<forall>a. wallet_money s' a = wallet_money s a - (if a = Payable u c then amt else 0)) \<and>
    payouts s' = payouts s @ [row] \<and> po_user row = u \<and> po_amount row = amt \<and> po_currency row = c \<and>
    po_status row = POPending \<and> po_transaction row = gen_uuid env (uuid_ctr s)"
  using requestWithdrawal_Inr [OF assms] by (auto simp: money_step_def acct_delta_def)

text \<open>
  Rejecting a withdrawal undoes it: a withdrawal followed by the rejection of its payout leaves every wallet
  balance where it was, and, as both entries are booked under fresh keys, every ledger account as well.
\<close>

theorem withdrawal_reject_roundtrip:
  assumes w: "requestWithdrawal env faults u amt c dest s = (Inr row, s1)" and v: "u \<noteq> []" "length c = 3"
    and r: "rejectPayout env faults' now (po_id row) adm reason s1 = (Inr res, s2)"
    and fresh: "gen_uuid env (Suc (uuid_ctr s)) \<notin> po_id ` set (payouts s)"
      "withdrawal_key (gen_uuid env (uuid_ctr s)) \<notin> ledger_keys s" "reversal_key (gen_uuid env (uuid_ctr s)) \<notin> ledger_keys s"
  shows "wallet_money s2 a = wallet_money s a \<and>
    (acct_valid a \<longrightarrow> ledger_money (ledger_lines s2) a = ledger_money (ledger_lines s) a) \<and> po_status res = PORejected"
proof -
  note W = requestWithdrawal_Inr [OF w v]
  have "t_find po_id (po_id row) (payouts s) = None" using fresh(1) W(6) by (simp add: t_find_None_iff)
  then have po: "t_find po_id (po_id row) (payouts s1) = Some row" by (simp add: W(4) t_find_append)
  have v1: "\<And>x. t_find po_id (po_id row) (payouts s1) = Some x \<Longrightarrow> po_user x \<noteq> [] \<and> length (po_currency x) = 3"
    using po v W by simp
  have keys: "ledger_keys s1 = insert (withdrawal_key (gen_uuid env (uuid_ctr s))) (ledger_keys s)"
    using W(1,5) by (simp add: money_step_def)
  show ?thesis
  proof (rule rejectPayout_Inr [OF r v1], goal_cases)
    case (2 p)
    then have p: "p = row" using po by simp
    have "reversal_key (po_transaction p) \<notin> ledger_keys s1"
      using fresh(3) keys W(5) p by (auto simp: reversal_key_def withdrawal_key_def)
    then show ?case
      using 2 p W(1,5,7,8,9) fresh(2) by (auto simp: money_step_def acct_delta_def)
  qed
qed

text \<open>
  A payout is decided once when requests run one after the other: after a payout was rejected or completed,
  completing and rejecting it both throw.
\<close>

theorem payout_decided_once:
  assumes po: "t_find po_id i (payouts s) = Some po" "po_user po \<noteq> []" "length (po_currency po) = 3"
    and run: "rejectPayout env faults now i adm reason s = (Inr res, s') \<or> completePayout env now i adm ref s = (Inr res, s')"
  shows "isl (fst (rejectPayout env faults' now' i adm' reason' s')) \<and> isl (fst (completePayout env now' i adm' ref' s'))"
proof -
  have v: "\<And>x. t_find po_id i (payouts s) = Some x \<Longrightarrow> po_user x \<noteq> [] \<and> length (po_currency x) = 3"
    using po by simp
  have "\<exists>q. t_find po_id i (payouts s') = Some q \<and> po_status q \<noteq> POPending"
    using run
  proof
    assume r: "rejectPayout env faults now i adm reason s = (Inr res, s')"
    show ?thesis by (rule rejectPayout_Inr [OF r v]) (auto simp: t_find_upd)
  next
    assume "completePayout env now i adm ref s = (Inr res, s')"
    then obtain x y ps where
      n: "createNotification env ps None (payouts_update (t_upd po_id i (\<lambda>p. p\<lparr>po_status := POPaid,
        po_reference := Some x, po_processed_by := Some adm, po_processed_at := Some now\<rparr>)) s) = (Inr y, s')"
      unfolding completePayout_def completePayoutWrite_def completePayoutCheck_def
      by (auto simp: tx_simps Let_def)
    from side_step_fields(11) [OF side.keepsD [OF side_createNotification n]] po(1) show ?thesis
      by (auto simp: t_find_upd)
  qed
  then obtain q where q: "t_find po_id i (payouts s') = Some q" "po_status q \<noteq> POPending" by blast
  have "isl (fst (completePayout env now' i adm' ref' s'))"
    using q by (simp add: completePayout_def completePayoutCheck_def tx_defs)
  moreover have "isl (fst (rejectPayout env faults' now' i adm' reason' s'))"
  proof (rule ccontr)
    assume "\<not> isl (fst (rejectPayout env faults' now' i adm' reason' s'))"
    from tx_returns [OF this] obtain x z where "rejectPayout env faults' now' i adm' reason' s' = (Inr x, z)" by blast
    then obtain z1 where "inSerializableTx 3 faults' (rejectPayoutTx env now' i adm' reason') s' = (Inr x, z1)"
      by (auto simp: rejectPayout_def tx_simps)
    from serial.run_ok [OF this] q show False by (auto simp: rejectPayoutTx_def tx_simps)
  qed
  ultimately show ?thesis by blast
qed

text \<open>
  C21: the check and the write of \<open>completePayout\<close> can be separated by a rejection: if the check passed before
  another admin's rejection committed, the write still marks the payout paid although its amount went back to
  the wallet, so the user is credited and paid for the same withdrawal.
\<close>

theorem payout_complete_races_reject:
  assumes chk: "completePayoutCheck i ref s = (Inr outcome, s)"
    and rej: "rejectPayout env faults now i adm reason s = (Inr res, s1)"
    and po: "t_find po_id i (payouts s) = Some po" "po_user po \<noteq> []" "length (po_currency po) = 3"
    and wr: "completePayoutWrite env now' i adm' outcome s1 = (Inr paid, s2)"
  shows "t_find po_id i (payouts s2) = Some paid \<and> po_status paid = POPaid \<and> po_amount paid = po_amount po \<and>
    wallet_money s2 (Payable (po_user po) (po_currency po)) =
      wallet_money s (Payable (po_user po) (po_currency po)) + po_amount po"
proof -
  have v: "\<And>x. t_find po_id i (payouts s) = Some x \<Longrightarrow> po_user x \<noteq> [] \<and> length (po_currency x) = 3"
    using po by simp
  show ?thesis
  proof (rule rejectPayout_Inr [OF rej v], goal_cases)
    case (2 p)
    then have p: "p = po" using po by simp
    let ?f = "\<lambda>p. p\<lparr>po_status := POPaid, po_reference := Some outcome, po_processed_by := Some adm', po_processed_at := Some now'\<rparr>"
    from wr obtain y ps where paid: "t_find po_id i (payouts (payouts_update (t_upd po_id i ?f) s1)) = Some paid"
      and n: "createNotification env ps None (payouts_update (t_upd po_id i ?f) s1) = (Inr y, s2)"
      by (auto simp: completePayoutWrite_def tx_simps Let_def)
    note side = side_step_fields [OF side.keepsD [OF side_createNotification n]]
    have "wallet_money s1 (Payable (po_user po) (po_currency po)) =
        wallet_money s (Payable (po_user po) (po_currency po)) + po_amount po"
      using 2(4) by (simp add: money_step_def acct_delta_def p)
    moreover have "wallet_money s2 = wallet_money s1" using side by (simp add: wallet_money_def)
    ultimately show ?case using 2 p paid side by (auto simp: t_find_upd)
  qed
qed

text \<open>
  No manual adjustment can succeed: whatever the arguments and the state, \<open>postManualAdjustment\<close> throws and
  leaves every table as it was, because the transaction type it inserts is not among those the
  \<open>transactions\<close> table admits.
\<close>

theorem manual_adjustment_fails:
  "\<exists>e t. postManualAdjustment env faults u amt c reason adm s = (Inl e, rollback s t)"
proof -
  obtain r s' where R: "postManualAdjustment env faults u amt c reason adm s = (r, s')" by fastforce
  have no: "manualAdjustmentTx env u sa m c reason adm z \<noteq> (Inr x, z')" for sa m z x z'
    by (auto simp: manualAdjustmentTx_def tx_simps TRANSACTION_TYPES_def)
  show ?thesis
  proof (cases r)
    case (Inr x)
    with R obtain sa m where "inSerializableTx 3 faults (manualAdjustmentTx env u sa m c reason adm) s = (Inr x, s')"
      by (auto simp: postManualAdjustment_def tx_simps)
    from serial.run_ok [OF this] no show ?thesis by blast
  next
    case (Inl e)
    with R consider "s' = s"
      | sa m where "inSerializableTx 3 faults (manualAdjustmentTx env u sa m c reason adm) s = (Inl e, s')"
      by (auto simp: postManualAdjustment_def tx_errs tx_simps)
    then have "\<exists>t. s' = rollback s t"
    proof cases
      case 1
      then show ?thesis by (intro exI [of _ s]) simp
    next
      case 2
      then show ?thesis by (rule serial.run_error)
    qed
    with R Inl show ?thesis by blast
  qed
qed

section \<open>Witnesses\<close>

definition dbw :: db where
  "dbw = db0\<lparr>wallets := [\<lparr>w_user = ''seller'', w_currency = ''UAH'', w_available = 5000, w_escrow = 0\<rparr>],
     wallet_topups := [\<lparr>tp_id = ''t1'', tp_user = ''seller'', tp_amount = 700, tp_currency = ''UAH'',
       tp_status = TPending, tp_provider = None, tp_reference = None, tp_completed_at = None\<rparr>]\<rparr>"

definition calm :: "nat \<Rightarrow> string option" where
  "calm i = None"

definition dest0 :: PayoutDestination where
  "dest0 = \<lparr>pd_method = ''iban'', pd_account = ''UA123'', pd_holder = ''Seller'', pd_bank = None\<rparr>"

definition topup0 :: "topup_row result \<times> db" where
  "topup0 = completeWalletTopup env0 calm 5 ''t1'' ''liqpay'' ''r1'' dbw"

definition withdrawn0 :: "payout_row result \<times> db" where
  "withdrawn0 = requestWithdrawal env0 calm ''seller'' 1500 ''UAH'' dest0 dbw"

definition payout0 :: uuid where
  "payout0 = po_id (projr (fst withdrawn0))"

definition rejected0 :: "payout_row result \<times> db" where
  "rejected0 = rejectPayout env0 calm 6 payout0 ''admin'' ''bad iban'' (snd withdrawn0)"

definition raced0 :: "payout_row result \<times> db" where
  "raced0 = completePayoutWrite env0 7 payout0 ''admin'' ''bank-1'' (snd rejected0)"

lemma wallet_samples_run: "\<not> isl (fst topup0)" "\<not> isl (fst withdrawn0)" "\<not> isl (fst rejected0)" "\<not> isl (fst raced0)"
  by code_simp+

lemma topup0_row:
  "t_find tp_id ''t1'' (wallet_topups dbw) = Some (hd (wallet_topups dbw))" "tp_user (hd (wallet_topups dbw)) = ''seller''"
  "tp_currency (hd (wallet_topups dbw)) = ''UAH''" "tp_amount (hd (wallet_topups dbw)) = 700"
  "tp_status (hd (wallet_topups dbw)) = TPending"
  by code_simp+


theorem withdrawal_covered_witness:
  "\<exists>row s'. withdrawn0 = (Inr row, s') \<and>
     wallet_money s' (Payable ''seller'' ''UAH'') = wallet_money dbw (Payable ''seller'' ''UAH'') - 1500"
proof -
  obtain row s' where r: "withdrawn0 = (Inr row, s')" using tx_returns [OF wallet_samples_run(2)] by blast
  from withdrawal_covered [OF r [unfolded withdrawn0_def]] r show ?thesis
    by (intro exI [of _ row] exI [of _ s']) simp
qed

theorem withdrawal_reject_roundtrip_witness:
  "\<exists>res s2. rejected0 = (Inr res, s2) \<and> wallet_money s2 (Payable ''seller'' ''UAH'') = wallet_money dbw (Payable ''seller'' ''UAH'')"
proof -
  obtain row s1 where w: "withdrawn0 = (Inr row, s1)" using tx_returns [OF wallet_samples_run(2)] by blast
  obtain res s2 where r: "rejected0 = (Inr res, s2)" using tx_returns [OF wallet_samples_run(3)] by blast
  have r': "rejectPayout env0 calm 6 (po_id row) ''admin'' ''bad iban'' s1 = (Inr res, s2)"
    using r unfolding rejected0_def payout0_def w by simp
  have "gen_uuid env0 (Suc (uuid_ctr dbw)) \<notin> po_id ` set (payouts dbw)"
    "withdrawal_key (gen_uuid env0 (uuid_ctr dbw)) \<notin> ledger_keys dbw"
    "reversal_key (gen_uuid env0 (uuid_ctr dbw)) \<notin> ledger_keys dbw"
    by (simp_all add: dbw_def db0_def empty_db_def ledger_keys_def)
  from withdrawal_reject_roundtrip [OF w [unfolded withdrawn0_def] _ _ r' this] r show ?thesis
    by (intro exI [of _ res] exI [of _ s2]) simp
qed

lemma payout0_row:
  "\<exists>po. t_find po_id payout0 (payouts (snd withdrawn0)) = Some po \<and> po_user po = ''seller'' \<and> po_currency po = ''UAH'' \<and>
     po_amount po = 1500"
proof -
  have "case t_find po_id payout0 (payouts (snd withdrawn0)) of None \<Rightarrow> False
    | Some po \<Rightarrow> po_user po = ''seller'' \<and> po_currency po = ''UAH'' \<and> po_amount po = 1500" by code_simp
  then show ?thesis by (auto split: option.splits)
qed

theorem payout_decided_once_witness:
  "\<exists>res s2. rejected0 = (Inr res, s2) \<and> isl (fst (completePayout env0 8 payout0 ''admin'' ''bank-1'' s2))"
proof -
  obtain po where po: "t_find po_id payout0 (payouts (snd withdrawn0)) = Some po" "po_user po = ''seller''"
    "po_currency po = ''UAH''" using payout0_row by blast
  obtain res s2 where r: "rejected0 = (Inr res, s2)" using tx_returns [OF wallet_samples_run(3)] by blast
  have "isl (fst (completePayout env0 8 payout0 ''admin'' ''bank-1'' s2))"
    using payout_decided_once [OF po(1) _ _ disjI1 [OF r [unfolded rejected0_def]]] po by simp
  with r show ?thesis by blast
qed

theorem payout_complete_races_reject_witness:
  "\<exists>paid s2. raced0 = (Inr paid, s2) \<and> po_status paid = POPaid \<and>
     wallet_money s2 (Payable ''seller'' ''UAH'') = wallet_money (snd withdrawn0) (Payable ''seller'' ''UAH'') + 1500"
proof -
  obtain po where po: "t_find po_id payout0 (payouts (snd withdrawn0)) = Some po" "po_user po = ''seller''"
    "po_currency po = ''UAH''" "po_amount po = 1500" using payout0_row by blast
  have chk: "completePayoutCheck payout0 ''bank-1'' (snd withdrawn0) = (Inr ''bank-1'', snd withdrawn0)"
  proof -
    have "fst (completePayoutCheck payout0 ''bank-1'' (snd withdrawn0)) = Inr ''bank-1''" by code_simp
    moreover have "snd (completePayoutCheck payout0 ''bank-1'' z) = z" for z
      by (simp add: completePayoutCheck_def tx_defs split: option.splits sum.splits)
    ultimately show ?thesis by (metis prod.collapse)
  qed
  obtain res s1 where r: "rejected0 = (Inr res, s1)" using tx_returns [OF wallet_samples_run(3)] by blast
  obtain paid s2 where w: "raced0 = (Inr paid, s2)" using tx_returns [OF wallet_samples_run(4)] by blast
  have w': "completePayoutWrite env0 7 payout0 ''admin'' ''bank-1'' s1 = (Inr paid, s2)" using w unfolding raced0_def r by simp
  from payout_complete_races_reject [OF chk r [unfolded rejected0_def] po(1) _ _ w'] po w show ?thesis
    by (intro exI [of _ paid] exI [of _ s2]) simp
qed

end
