(* ===== verification/Payments.thy ===== *)
theory Payments
  imports OrdersOps WalletOps
begin

text \<open>
  How payments reach the escrow: the pay route, checkouts and provider callbacks of
  \<open>modules/payments/payments.routes.ts\<close> with the request side of \<open>liqpay.service.ts\<close>, \<open>monobank.service.ts\<close> and
  \<open>wayforpay.service.ts\<close>, the test payments of \<open>test-payments.service.ts\<close>, and the admin's confirmation of a bank
  transfer in \<open>modules/admin/admin-ops.routes.ts\<close>. The digests, base64, the JSON parser of a callback body and the
  HTTP calls to the providers are arguments. A handler's value is the HTTP status it answers with.
\<close>

section \<open>Configuration\<close>

record payment_config =
  LIQPAY_PUBLIC_KEY :: "string option"
  LIQPAY_PRIVATE_KEY :: "string option"
  LIQPAY_SERVER_URL :: string
  MONOBANK_TOKEN :: "string option"
  WAYFORPAY_MERCHANT_ACCOUNT :: "string option"
  WAYFORPAY_MERCHANT_SECRET_KEY :: "string option"
  MANUAL_PAYMENT_CARD_NUMBER :: "string option"
  MANUAL_PAYMENT_RECEIVER_NAME :: "string option"
  NODE_ENV_test :: bool
  ENABLE_TEST_PAYMENTS :: bool
  FRONTEND_URL :: string

section \<open>LiqPay\<close>

definition SUCCESS_STATUSES :: "string list" where
  "SUCCESS_STATUSES = [''success'', ''sandbox'']"

definition CHECKOUT_ACTION_URL :: string where
  "CHECKOUT_ACTION_URL = ''https://www.liqpay.ua/api/3/checkout''"

definition liqpayConfig :: "payment_config \<Rightarrow> (string \<times> string) result" where
  "liqpayConfig cfg = (case (LIQPAY_PUBLIC_KEY cfg, LIQPAY_PRIVATE_KEY cfg) of
       (Some (a # as), Some (b # bs)) \<Rightarrow> Inr (a # as, b # bs)
     | _ \<Rightarrow> Inl (badRequest ''LiqPay is not configured on this server''))"

definition liqpaySign :: "(string \<Rightarrow> string) \<Rightarrow> string \<Rightarrow> string \<Rightarrow> string" where
  "liqpaySign sha1 privateKey data = sha1 (privateKey @ data @ privateKey)"

record LiqpayCheckoutRequest =
  lq_data :: string
  lq_signature :: string
  lq_actionUrl :: string

definition buildLiqpayCheckout ::
  "(string \<Rightarrow> string) \<Rightarrow> (string \<Rightarrow> string) \<Rightarrow> payment_config \<Rightarrow> uuid \<Rightarrow> int \<Rightarrow> string \<Rightarrow> string \<Rightarrow> string \<Rightarrow>
   LiqpayCheckoutRequest result" where
  "buildLiqpayCheckout sha1 base64 cfg orderId amount currency description resultUrl =
     r_bind (liqpayConfig cfg) (\<lambda>(publicKey, privateKey).
     r_bind (centsToDecimalString (BigInt amount)) (\<lambda>decimal.
     let payload = JObj [(''version'', JNum 3), (''public_key'', JStr publicKey), (''action'', JStr ''pay''),
           (''amount'', JStr decimal), (''currency'', JStr currency), (''description'', JStr description),
           (''order_id'', JStr orderId), (''result_url'', JStr resultUrl), (''server_url'', JStr (LIQPAY_SERVER_URL cfg)),
           (''language'', JStr ''uk'')];
         data = base64 (stringify payload) in
     Inr \<lparr>lq_data = data, lq_signature = liqpaySign sha1 privateKey data, lq_actionUrl = CHECKOUT_ACTION_URL\<rparr>))"

definition verifyLiqpaySignature :: "(string \<Rightarrow> string) \<Rightarrow> payment_config \<Rightarrow> string \<Rightarrow> string \<Rightarrow> bool result" where
  "verifyLiqpaySignature sha1 cfg data signature =
     r_bind (liqpayConfig cfg) (\<lambda>(publicKey, privateKey).
     let expected = liqpaySign sha1 privateKey data in
     Inr (length expected = length signature \<and> expected = signature))"

text \<open>The fields of the payload the callback reads.\<close>

record LiqpayCallbackPayload =
  lp_order_id :: string
  lp_status :: string
  lp_payment_id :: "string option"

definition isLiqpaySuccessStatus :: "string \<Rightarrow> bool" where
  "isLiqpaySuccessStatus status \<longleftrightarrow> list_ex (\<lambda>x. x = status) SUCCESS_STATUSES"

section \<open>Monobank and WayForPay\<close>

definition monobankConfig :: "payment_config \<Rightarrow> string result" where
  "monobankConfig cfg = (case MONOBANK_TOKEN cfg of
       Some (c # cs) \<Rightarrow> Inr (c # cs) | _ \<Rightarrow> Inl (badRequest ''Monobank is not configured on this server''))"

definition currencyCode :: "string \<Rightarrow> int result" where
  "currencyCode currency = (case map_of [(''UAH'', 980), (''USD'', 840), (''EUR'', 978)] (toUpperCase currency) of
       Some code \<Rightarrow> Inr code
     | None \<Rightarrow> Inl (badRequest (''Unsupported currency for Monobank: '' @ currency)))"

record MonobankInvoiceStatus =
  mb_invoiceId :: string
  mb_status :: string
  mb_reference :: "string option"

text \<open>The body of \<open>invoice/create\<close> and the lookup \<open>invoice/status\<close> of a configured server.\<close>

definition monobankInvoiceAmount :: "payment_config \<Rightarrow> int \<Rightarrow> string \<Rightarrow> (js_number \<times> int) result" where
  "monobankInvoiceAmount cfg amount currency =
     r_bind (monobankConfig cfg) (\<lambda>_.
     r_bind (moneyCentsToProviderInteger (int_dec amount)) (\<lambda>n.
     r_bind (currencyCode currency) (\<lambda>ccy. Inr (n, ccy))))"

definition getMonobankInvoiceStatus ::
  "(string \<Rightarrow> MonobankInvoiceStatus result) \<Rightarrow> payment_config \<Rightarrow> string \<Rightarrow> MonobankInvoiceStatus result" where
  "getMonobankInvoiceStatus fetch cfg invoiceId = r_bind (monobankConfig cfg) (\<lambda>_. fetch invoiceId)"

definition isMonobankSuccessStatus :: "string \<Rightarrow> bool" where
  "isMonobankSuccessStatus status \<longleftrightarrow> status = ''success''"

definition wayforpayConfig :: "payment_config \<Rightarrow> (string \<times> string) result" where
  "wayforpayConfig cfg = (case (WAYFORPAY_MERCHANT_ACCOUNT cfg, WAYFORPAY_MERCHANT_SECRET_KEY cfg) of
       (Some (a # as), Some (b # bs)) \<Rightarrow> Inr (js_trim (a # as), js_trim (b # bs))
     | _ \<Rightarrow> Inl (badRequest ''WayForPay is not configured on this server''))"

definition getWayforpayStatus ::
  "(string \<Rightarrow> string option result) \<Rightarrow> payment_config \<Rightarrow> string \<Rightarrow> string option result" where
  "getWayforpayStatus fetch cfg orderReference = r_bind (wayforpayConfig cfg) (\<lambda>_. fetch orderReference)"

definition isWayforpaySuccessStatus :: "string option \<Rightarrow> bool" where
  "isWayforpaySuccessStatus status \<longleftrightarrow> status = Some ''Approved''"

section \<open>Recording a confirmed payment\<close>

definition isTerminalWebhookOutcome :: "err \<Rightarrow> bool" where
  "isTerminalWebhookOutcome e = (case e of ApiError status _ _ \<Rightarrow> 400 \<le> status \<and> status < 500 | _ \<Rightarrow> False)"

definition persistConfirmedWebhookOutcome :: "'a dbtx \<Rightarrow> 'a option dbtx" where
  "persistConfirmedWebhookOutcome operation =
     tx_catch (tx_bind operation (\<lambda>result. tx_return (Some result)))
       (\<lambda>e. if isTerminalWebhookOutcome e then tx_return None
            else tx_throw (serviceUnavailable ''Payment confirmation is temporarily unavailable''))"

text \<open>The part the three callbacks share: settle the order, else the top-up, that the reference names.\<close>

definition settleConfirmed ::
  "env \<Rightarrow> (nat \<Rightarrow> string option) \<Rightarrow> time \<Rightarrow> PaymentProviderName \<Rightarrow> uuid \<Rightarrow> string \<Rightarrow> unit dbtx" where
  "settleConfirmed env faults now provider subject reference =
     tx_bind (tx_gets (\<lambda>s. t_find o_id subject (orders s))) (\<lambda>orderRow.
     case orderRow of
       Some order \<Rightarrow>
         tx_bind (persistConfirmedWebhookOutcome (lockEscrow env faults now (o_id order) (o_buyer order) provider
           (Some reference) (Some (Service (providerName provider) RolePaymentProvider)))) (\<lambda>_. tx_return ())
     | None \<Rightarrow>
         tx_bind (tx_gets (\<lambda>s. t_find tp_id subject (wallet_topups s))) (\<lambda>topupRow.
         case topupRow of
           Some topup \<Rightarrow>
             tx_bind (persistConfirmedWebhookOutcome
               (completeWalletTopup env faults now subject (providerName provider) reference)) (\<lambda>_. tx_return ())
         | None \<Rightarrow> tx_return ()))"

definition liqpayCallback ::
  "(string \<Rightarrow> string) \<Rightarrow> (string \<Rightarrow> LiqpayCallbackPayload result) \<Rightarrow> payment_config \<Rightarrow> env \<Rightarrow> (nat \<Rightarrow> string option) \<Rightarrow>
   time \<Rightarrow> (string \<times> string) option \<Rightarrow> nat dbtx" where
  "liqpayCallback sha1 decode cfg env faults now body = (case body of
       None \<Rightarrow> tx_return 400
     | Some (data, signature) \<Rightarrow>
         tx_bind (tx_lift (verifyLiqpaySignature sha1 cfg data signature)) (\<lambda>verified.
         if \<not> verified then tx_return 400
         else tx_bind (tx_lift (decode data)) (\<lambda>callback.
           if \<not> isLiqpaySuccessStatus (lp_status callback) then tx_return 200
           else tx_bind (settleConfirmed env faults now Liqpay (lp_order_id callback)
             (case lp_payment_id callback of Some p \<Rightarrow> p | None \<Rightarrow> lp_order_id callback)) (\<lambda>_. tx_return 200))))"

definition monobankCallback ::
  "(string \<Rightarrow> MonobankInvoiceStatus result) \<Rightarrow> payment_config \<Rightarrow> env \<Rightarrow> (nat \<Rightarrow> string option) \<Rightarrow> time \<Rightarrow> string option \<Rightarrow>
   nat dbtx" where
  "monobankCallback fetch cfg env faults now body = (case body of
       None \<Rightarrow> tx_return 400
     | Some invoiceId \<Rightarrow>
         tx_bind (tx_lift (getMonobankInvoiceStatus fetch cfg invoiceId)) (\<lambda>invoice.
         if \<not> isMonobankSuccessStatus (mb_status invoice) \<or> \<not> truthy (mb_reference invoice) then tx_return 200
         else tx_bind (settleConfirmed env faults now Monobank (the (mb_reference invoice)) (mb_invoiceId invoice))
           (\<lambda>_. tx_return 200)))"

definition wayforpayCallback ::
  "(string \<Rightarrow> string option result) \<Rightarrow> payment_config \<Rightarrow> env \<Rightarrow> (nat \<Rightarrow> string option) \<Rightarrow> time \<Rightarrow> string option \<Rightarrow>
   nat dbtx" where
  "wayforpayCallback fetch cfg env faults now body = (case body of
       None \<Rightarrow> tx_return 400
     | Some orderReference \<Rightarrow>
         tx_bind (tx_lift (getWayforpayStatus fetch cfg orderReference)) (\<lambda>status.
         tx_bind (tx_when (isWayforpaySuccessStatus status)
           (settleConfirmed env faults now Wayforpay orderReference orderReference)) (\<lambda>_.
         tx_bind (tx_lift (wayforpayConfig cfg)) (\<lambda>_. tx_return 200))))"

section \<open>Routes\<close>

definition SIMULATED_PROVIDERS :: "PaymentProviderName list" where
  "SIMULATED_PROVIDERS = [Mock, Stripe, Fondy]"

definition paySchema :: "env \<Rightarrow> PaymentProviderName \<Rightarrow> PaymentProviderName result" where
  "paySchema env provider =
     (if provider \<in> set [Mock, Stripe, Liqpay, Fondy, Monobank] \<and>
         \<not> (NODE_ENV_production env \<and> provider \<in> set SIMULATED_PROVIDERS)
      then Inr provider else Inl (ZodError ''This payment provider is not available''))"

definition payRoute ::
  "env \<Rightarrow> (nat \<Rightarrow> string option) \<Rightarrow> time \<Rightarrow> uuid \<Rightarrow> uuid \<Rightarrow> PaymentProviderName \<Rightarrow> order_row dbtx" where
  "payRoute env faults now userId orderId provider =
     tx_bind (tx_lift (paySchema env provider)) (\<lambda>p. lockEscrow env faults now orderId userId p None None)"

text \<open>The checks before a hosted checkout is created.\<close>

definition payableOrder :: "uuid \<Rightarrow> uuid \<Rightarrow> order_row dbtx" where
  "payableOrder orderId userId =
     tx_bind (tx_gets (\<lambda>s. case t_find o_id orderId (orders s) of
         Some ord \<Rightarrow> if t_find p_id (o_product ord) (products s) = None then None else Some ord
       | None \<Rightarrow> None)) (\<lambda>found.
     tx_bind (tx_some found (notFound ''Order not found'')) (\<lambda>order.
     tx_bind (tx_guard (o_buyer order = userId) (forbidden ''Only the buyer can pay this order'')) (\<lambda>_.
     tx_bind (tx_guard (o_status order = Pending) (badRequest ''Only pending orders can be paid'')) (\<lambda>_.
     tx_return order))))"

definition liqpayOrderCheckout ::
  "(string \<Rightarrow> string) \<Rightarrow> (string \<Rightarrow> string) \<Rightarrow> payment_config \<Rightarrow> uuid \<Rightarrow> uuid \<Rightarrow> string \<Rightarrow> LiqpayCheckoutRequest dbtx" where
  "liqpayOrderCheckout sha1 base64 cfg userId orderId productTitle =
     tx_bind (payableOrder orderId userId) (\<lambda>order.
     tx_lift (buildLiqpayCheckout sha1 base64 cfg (o_id order) (o_amount order) (o_currency order)
       (''SKRYNIA: '' @ productTitle) (FRONTEND_URL cfg @ ''/orders/'' @ o_id order @ ''?liqpay=return'')))"

text \<open>A wallet top-up checkout: at least 1.00 and acceptable to the provider, then a pending top-up in hryvnia.\<close>

definition topupAmount :: "string \<Rightarrow> int result" where
  "topupAmount amount = r_bind (moneyToCents amount) (\<lambda>cents. r_bind (parseMoneyCents cents) (\<lambda>v.
     if v < 100 then Inl (badRequest ''Minimum top-up amount is 1.00'') else Inr v))"

definition liqpayTopupCheckout ::
  "(string \<Rightarrow> string) \<Rightarrow> (string \<Rightarrow> string) \<Rightarrow> payment_config \<Rightarrow> env \<Rightarrow> uuid \<Rightarrow> string \<Rightarrow> string \<Rightarrow>
   (topup_row \<times> LiqpayCheckoutRequest) dbtx" where
  "liqpayTopupCheckout sha1 base64 cfg env userId amount description =
     tx_bind (tx_lift (topupAmount amount)) (\<lambda>cents.
     tx_bind (createWalletTopup env userId cents ''UAH'') (\<lambda>topup.
     tx_bind (tx_lift (buildLiqpayCheckout sha1 base64 cfg (tp_id topup) cents ''UAH'' description
       (FRONTEND_URL cfg @ ''/wallet?liqpay=return''))) (\<lambda>checkout.
     tx_return (topup, checkout))))"

definition monobankTopupCheckout :: "payment_config \<Rightarrow> env \<Rightarrow> uuid \<Rightarrow> string \<Rightarrow> topup_row dbtx" where
  "monobankTopupCheckout cfg env userId amount =
     tx_bind (tx_lift (topupAmount amount)) (\<lambda>cents.
     tx_bind (tx_lift (moneyCentsToProviderInteger (int_dec cents))) (\<lambda>_.
     tx_bind (createWalletTopup env userId cents ''UAH'') (\<lambda>topup.
     tx_bind (tx_lift (monobankInvoiceAmount cfg cents ''UAH'')) (\<lambda>_.
     tx_return topup))))"

section \<open>Manual transfers and test payments\<close>

definition confirmPayment ::
  "env \<Rightarrow> (nat \<Rightarrow> string option) \<Rightarrow> time \<Rightarrow> uuid \<Rightarrow> uuid \<Rightarrow> string option \<Rightarrow> order_row dbtx" where
  "confirmPayment env faults now adminId orderId reference =
     tx_bind (tx_gets (\<lambda>s. t_find o_id orderId (orders s))) (\<lambda>found.
     tx_bind (tx_some found (notFound ''Order not found'')) (\<lambda>order.
     tx_catch (lockEscrow env faults now orderId (o_buyer order) ManualTransfer reference (Some (User adminId RoleAdmin)))
       (\<lambda>_. tx_throw (badRequest ''Could not confirm this order's payment''))))"

definition testPaymentsEnabled :: "payment_config \<Rightarrow> bool" where
  "testPaymentsEnabled cfg \<longleftrightarrow> NODE_ENV_test cfg \<and> ENABLE_TEST_PAYMENTS cfg"

definition assertTestPaymentsEnabled :: "payment_config \<Rightarrow> unit dbtx" where
  "assertTestPaymentsEnabled cfg = tx_guard (testPaymentsEnabled cfg) (forbidden ''Test payments are disabled on this server'')"

definition loadOwnOrder :: "uuid \<Rightarrow> uuid \<Rightarrow> order_row dbtx" where
  "loadOwnOrder orderId buyerId =
     tx_bind (tx_gets (\<lambda>s. t_find o_id orderId (orders s))) (\<lambda>found.
     tx_bind (tx_some found (notFound ''Order not found'')) (\<lambda>order.
     tx_bind (tx_guard (o_buyer order = buyerId) (forbidden ''Only the buyer can simulate payment for this order'')) (\<lambda>_.
     tx_return order)))"

definition simulateTestPaymentSuccess ::
  "env \<Rightarrow> (nat \<Rightarrow> string option) \<Rightarrow> time \<Rightarrow> uuid \<Rightarrow> uuid \<Rightarrow> order_row dbtx" where
  "simulateTestPaymentSuccess env faults now orderId buyerId =
     tx_bind (loadOwnOrder orderId buyerId) (\<lambda>_.
     lockEscrow env faults now orderId buyerId Mock None (Some (Service buyerId RoleTestPayment)))"

definition failTestPaymentTx :: "env \<Rightarrow> time \<Rightarrow> uuid \<Rightarrow> uuid \<Rightarrow> order_row dbtx" where
  "failTestPaymentTx env now orderId buyerId =
     tx_bind (selectOrderForUpdate orderId) (\<lambda>order.
     tx_bind (tx_guard (o_buyer order = buyerId) (forbidden ''Only the buyer can simulate payment for this order'')) (\<lambda>_.
     tx_bind (tx_guard (o_status order = Pending) (badRequest ''Only a pending order's payment can be simulated as failed'')) (\<lambda>_.
     transitionOrder env now \<lparr>ti_order = orderId, ti_to = Canceled, ti_actor = Service buyerId RoleTestPayment,
       ti_reason = TestPaymentFailed, ti_expected = Some [Pending], ti_metadata = []\<rparr>)))"

definition simulateTestPaymentFailure :: "env \<Rightarrow> time \<Rightarrow> uuid \<Rightarrow> uuid \<Rightarrow> order_row dbtx" where
  "simulateTestPaymentFailure env now orderId buyerId =
     tx_bind (inTx (failTestPaymentTx env now orderId buyerId)) (\<lambda>updated.
     tx_bind (invalidateOrderParticipantReadCaches env (o_id updated) (o_buyer updated) (o_seller updated) False False) (\<lambda>_.
     tx_return updated))"

definition simulateTestPaymentWaitAccept :: "uuid \<Rightarrow> uuid \<Rightarrow> order_row dbtx" where
  "simulateTestPaymentWaitAccept orderId buyerId =
     tx_bind (loadOwnOrder orderId buyerId) (\<lambda>order.
     tx_bind (tx_guard (o_status order = Pending) (badRequest ''Order is no longer awaiting payment confirmation'')) (\<lambda>_.
     tx_return order))"

text \<open>The three test routes, behind the gate.\<close>

definition testSuccessRoute ::
  "payment_config \<Rightarrow> env \<Rightarrow> (nat \<Rightarrow> string option) \<Rightarrow> time \<Rightarrow> uuid \<Rightarrow> uuid \<Rightarrow> order_row dbtx" where
  "testSuccessRoute cfg env faults now userId orderId =
     tx_bind (assertTestPaymentsEnabled cfg) (\<lambda>_. simulateTestPaymentSuccess env faults now orderId userId)"

definition testFailureRoute :: "payment_config \<Rightarrow> env \<Rightarrow> time \<Rightarrow> uuid \<Rightarrow> uuid \<Rightarrow> order_row dbtx" where
  "testFailureRoute cfg env now userId orderId =
     tx_bind (assertTestPaymentsEnabled cfg) (\<lambda>_. simulateTestPaymentFailure env now orderId userId)"

definition testWaitAcceptRoute :: "payment_config \<Rightarrow> uuid \<Rightarrow> uuid \<Rightarrow> order_row dbtx" where
  "testWaitAcceptRoute cfg userId orderId =
     tx_bind (assertTestPaymentsEnabled cfg) (\<lambda>_. simulateTestPaymentWaitAccept orderId userId)"

end
