(* ===== verification/PaymentsOps.thy ===== *)
theory PaymentsOps
  imports Payments
begin

text \<open>
  What the payment callbacks may do: money moves only for a callback that verifies and reports success, by the amount
  of the order or top-up it names; every other call, and every call for an order that cannot be paid, leaves the tables
  alone.
\<close>

section \<open>Lemmas\<close>

lemma lockEscrow_error: "lockEscrow env faults now i b p ext act s = (Inl e, s') \<Longrightarrow> \<exists>t. s' = rollback s t"
  unfolding lockEscrow_def by (rule tx_then_caches_error)

lemma completeWalletTopup_error: "completeWalletTopup env faults now i p ref s = (Inl e, s') \<Longrightarrow> \<exists>t. s' = rollback s t"
  unfolding completeWalletTopup_def by (rule serial.run_error)

lemma persist_cases:
  assumes "persistConfirmedWebhookOutcome m s = (Inr r, s')"
  obtains (captured) x where "r = Some x" "m s = (Inr x, s')"
  | (terminal) e where "r = None" "m s = (Inl e, s')" "isTerminalWebhookOutcome e"
  using assms
  by (cases "m s"; cases "fst (m s)")
    (auto simp: persistConfirmedWebhookOutcome_def tx_catch_def tx_defs split: if_splits)

definition topups_valid :: "db \<Rightarrow> bool" where
  "topups_valid s \<longleftrightarrow> (\<forall>i tp. t_find tp_id i (wallet_topups s) = Some tp \<longrightarrow> tp_user tp \<noteq> [] \<and> length (tp_currency tp) = 3)"

text \<open>The payment a settled reference stands for.\<close>

definition settled :: "uuid \<Rightarrow> db \<Rightarrow> db \<Rightarrow> bool" where
  "settled i s s' \<longleftrightarrow>
     (\<exists>ord res. o_id ord = i \<and> o_status ord = Pending \<and>
        escrow_step (capture_key i) (acct_delta (Held (o_seller ord) (o_currency ord)) (o_amount ord)) ord res s s') \<or>
     (\<exists>tp. t_find tp_id i (wallet_topups s) = Some tp \<and> tp_status tp = TPending \<and> orders s' = orders s \<and>
        money_step (topup_key i) (acct_delta (Payable (tp_user tp) (tp_currency tp)) (tp_amount tp)) s s')"

lemma settleConfirmed_Inr:
  assumes run: "settleConfirmed env faults now p i ref s = (Inr u, s')" and v: "orders_valid s" "topups_valid s"
  shows "(\<exists>t. s' = rollback s t) \<or> settled i s s'"
proof (cases "t_find o_id i (orders s)")
  case (Some ord)
  let ?m = "lockEscrow env faults now (o_id ord) (o_buyer ord) p (Some ref) (Some (Service (providerName p) RolePaymentProvider))"
  have i: "o_id ord = i" using t_find_Some [OF Some] by simp
  from run Some obtain r where "persistConfirmedWebhookOutcome ?m s = (Inr r, s')"
    by (auto simp: settleConfirmed_def tx_simps)
  then show ?thesis
  proof (cases rule: persist_cases)
    case (captured res)
    from captured(2) show ?thesis
      by (rule lockEscrow_Inr) (use v(1) i in \<open>auto simp: orders_valid_def settled_def\<close>)
  next
    case terminal
    with lockEscrow_error show ?thesis by blast
  qed
next
  case None
  show ?thesis
  proof (cases "t_find tp_id i (wallet_topups s)")
    case (Some tp)
    with run None obtain r where "persistConfirmedWebhookOutcome (completeWalletTopup env faults now i (providerName p) ref) s = (Inr r, s')"
      by (auto simp: settleConfirmed_def tx_simps)
    then show ?thesis
    proof (cases rule: persist_cases)
      case (captured res)
      from captured(2) show ?thesis
        by (rule completeWalletTopup_Inr) (use v(2) in \<open>auto simp: topups_valid_def settled_def wallet_frame_def\<close>)
    next
      case terminal
      with completeWalletTopup_error show ?thesis by blast
    qed
  next
    case 2: None
    with run None have "s' = s" by (simp add: settleConfirmed_def tx_simps)
    then show ?thesis by (metis rollback_self)
  qed
qed

text \<open>Orders a payment can be captured for.\<close>

definition payable :: "db \<Rightarrow> order_row \<Rightarrow> bool" where
  "payable s ord \<longleftrightarrow> o_status ord = Pending \<and>
     (\<exists>p. t_find p_id (o_product ord) (products s) = Some p \<and> p_status p = ProdActive \<and> o_quantity ord \<le> p_stock p)"

lemma lockEscrow_unpayable:
  assumes ord: "t_find o_id i (orders s) = Some ord" and un: "\<not> payable s ord"
  shows "\<exists>e. lockEscrow env faults now i (o_buyer ord) p ext act s = (Inl e, s) \<and>
    isTerminalWebhookOutcome e = (faults 1 = None)"
proof -
  have sel: "selectOrderForUpdate i s = (Inr ord, s)" using ord by (simp add: tx_simps)
  consider "o_status ord \<noteq> Pending" | "o_status ord = Pending" "t_find p_id (o_product ord) (products s) = None"
    | pr where "o_status ord = Pending" "t_find p_id (o_product ord) (products s) = Some pr" "p_status pr \<noteq> ProdActive"
    | pr where "o_status ord = Pending" "t_find p_id (o_product ord) (products s) = Some pr" "p_status pr = ProdActive" "p_stock pr < o_quantity ord"
    using un by (cases "t_find p_id (o_product ord) (products s)") (auto simp: payable_def not_le)
  then obtain m where "lockEscrowTx env now i (o_buyer ord) p ext act s = (Inl (badRequest m), s)"
  proof cases
    case 1
    with sel show thesis by (intro that) (simp add: lockEscrowTx_def tx_bind_def tx_guard_def tx_throw_def tx_return_def)
  next
    case 2
    with sel show thesis
      by (intro that [of "''Product is no longer available''"]) (simp add: lockEscrowTx_def tx_bind_def tx_guard_def tx_throw_def tx_return_def tx_gets_def)
  next
    case 3
    with sel show thesis
      by (intro that [of "''Product is no longer available''"]) (simp add: lockEscrowTx_def tx_bind_def tx_guard_def tx_throw_def tx_return_def tx_gets_def tx_some_def)
  next
    case 4
    with sel show thesis
      by (intro that) (simp add: lockEscrowTx_def tx_bind_def tx_guard_def tx_throw_def tx_return_def tx_gets_def tx_some_def)
  qed
  then show ?thesis
    by (cases "faults 1")
      (auto simp: lockEscrow_def inSerializableTx_def serializableLoop.simps attemptTx_def inTx_def
        retryableTxCode_def badRequest_def tx_bind_def isTerminalWebhookOutcome_def)
qed

definition webhook_answer :: "(nat \<Rightarrow> string option) \<Rightarrow> 'a \<Rightarrow> 'a result" where
  "webhook_answer faults x = (if faults 1 = None then Inr x
     else Inl (serviceUnavailable ''Payment confirmation is temporarily unavailable''))"

lemma settle_unpayable:
  assumes "t_find o_id i (orders s) = Some ord" "\<not> payable s ord"
  shows "settleConfirmed env faults now p i ref s = (webhook_answer faults (), s)"
proof -
  have "o_id ord = i" using t_find_Some [OF assms(1)] by simp
  with lockEscrow_unpayable [OF assms, of env faults now p "Some ref" "Some (Service (providerName p) RolePaymentProvider)"] assms(1)
  show ?thesis
    by (auto simp: settleConfirmed_def persistConfirmedWebhookOutcome_def tx_catch_def tx_defs webhook_answer_def)
qed

section \<open>Properties\<close>

text \<open>
  C27: a LiqPay callback moves money only when it is genuine: if the handler answers and the tables differ afterwards,
  the signature was the merchant's signature of the data, the payload reports success, and the change is the capture
  of the pending order, or the credit of the pending top-up, that the payload names, by exactly its amount. Otherwise
  every table is as it was.
\<close>

theorem liqpay_callback_genuine:
  assumes run: "liqpayCallback sha1 decode cfg env faults now (Some (data, sig)) s = (Inr st, s')"
    and v: "orders_valid s" "topups_valid s"
  shows "(\<exists>t. s' = rollback s t) \<or>
    (\<exists>pub priv cb. st = 200 \<and> liqpayConfig cfg = Inr (pub, priv) \<and> sig = liqpaySign sha1 priv data \<and>
       decode data = Inr cb \<and> isLiqpaySuccessStatus (lp_status cb) \<and> settled (lp_order_id cb) s s')"
proof (cases "\<exists>t. s' = rollback s t")
  case False
  then have "s' \<noteq> s" by (metis rollback_self)
  with run obtain pub priv cb u where c: "liqpayConfig cfg = Inr (pub, priv)" "sig = liqpaySign sha1 priv data"
      "decode data = Inr cb" "isLiqpaySuccessStatus (lp_status cb)" "st = 200"
    and set: "settleConfirmed env faults now Liqpay (lp_order_id cb)
        (case lp_payment_id cb of Some p \<Rightarrow> p | None \<Rightarrow> lp_order_id cb) s = (Inr u, s')"
    by (auto simp: liqpayCallback_def verifyLiqpaySignature_def tx_simps Let_def split: if_splits)
  from settleConfirmed_Inr [OF set v] False c show ?thesis by blast
qed simp

text \<open>
  C28: a confirmed payment for an order that cannot be paid, because it was paid or closed already or because its
  product is no longer active or has run out of stock, is recorded nowhere, whichever of the three providers reports
  it: the callback acknowledges it with 200, or answers 503 (so that the provider tries again) when the server aborted
  the only attempt of the capture with a serialization failure. So a redelivered callback is harmless, and a payment
  that lost the race for the last item leaves no trace in the database either.
\<close>

theorem unpayable_payment_acknowledged:
  assumes "t_find o_id i (orders s) = Some ord" "\<not> payable s ord"
    and answer: "answer = (if faults 1 = None then Inr 200
      else Inl (serviceUnavailable ''Payment confirmation is temporarily unavailable''))"
  shows "(verifyLiqpaySignature sha1 cfg data sig = Inr True \<and> decode data = Inr cb \<and> isLiqpaySuccessStatus (lp_status cb) \<and>
      lp_order_id cb = i \<longrightarrow> liqpayCallback sha1 decode cfg env faults now (Some (data, sig)) s = (answer, s)) \<and>
    (getMonobankInvoiceStatus fetch cfg invoiceId = Inr mb \<and> isMonobankSuccessStatus (mb_status mb) \<and> mb_reference mb = Some i \<and>
      (i \<noteq> [] \<or> faults 1 = None) \<longrightarrow> monobankCallback fetch cfg env faults now (Some invoiceId) s = (answer, s)) \<and>
    (getWayforpayStatus wfetch cfg i = Inr st \<and> isWayforpaySuccessStatus st \<longrightarrow>
      wayforpayCallback wfetch cfg env faults now (Some i) s = (answer, s))"
proof -
  have "settleConfirmed env faults now p i ref s = (if faults 1 = None then Inr () else
      Inl (serviceUnavailable ''Payment confirmation is temporarily unavailable''), s)" for p ref
    using settle_unpayable [OF assms(1,2)] by (simp add: webhook_answer_def)
  then show ?thesis
    by (auto simp: answer liqpayCallback_def monobankCallback_def wayforpayCallback_def getWayforpayStatus_def r_bind_def
        truthy_def tx_defs split: sum.splits list.splits)
qed

section \<open>Witnesses\<close>

definition config0 :: payment_config where
  "config0 = \<lparr>LIQPAY_PUBLIC_KEY = Some ''pub'', LIQPAY_PRIVATE_KEY = Some ''key'', LIQPAY_SERVER_URL = [],
     MONOBANK_TOKEN = None, WAYFORPAY_MERCHANT_ACCOUNT = None, WAYFORPAY_MERCHANT_SECRET_KEY = None,
     MANUAL_PAYMENT_CARD_NUMBER = None, MANUAL_PAYMENT_RECEIVER_NAME = None, NODE_ENV_test = False,
     ENABLE_TEST_PAYMENTS = False, FRONTEND_URL = []\<rparr>"

definition decode0 :: "string \<Rightarrow> LiqpayCallbackPayload result" where
  "decode0 x = Inr \<lparr>lp_order_id = x, lp_status = ''success'', lp_payment_id = Some ''77''\<rparr>"

definition callback0 :: "nat result \<times> db" where
  "callback0 = liqpayCallback (\<lambda>x. x) decode0 config0 env0 no_faults 5 (Some (''o1'', ''keyo1key'')) db0"

lemma db0_valid: "orders_valid db0" "topups_valid db0"
proof -
  have "orders db0 = [order0]" "wallet_topups db0 = []" by code_simp+
  then show "orders_valid db0" "topups_valid db0" using order0_valid by (auto simp: orders_valid_def topups_valid_def)
qed

theorem liqpay_callback_genuine_witness:
  "settled ''o1'' db0 (snd callback0) \<and> fst callback0 = Inr 200"
proof
  show ok: "fst callback0 = Inr 200" by code_simp
  have run: "liqpayCallback (\<lambda>x. x) decode0 config0 env0 no_faults 5 (Some (''o1'', ''keyo1key'')) db0 = (Inr 200, snd callback0)"
    using ok by (simp add: callback0_def prod_eq_iff)
  have "length (ledger_entries (snd callback0)) \<noteq> length (ledger_entries db0)" by code_simp
  then have "\<not> (\<exists>t. snd callback0 = rollback db0 t)" by (metis rollback_fields(8))
  with liqpay_callback_genuine [OF run db0_valid] show "settled ''o1'' db0 (snd callback0)"
    by (auto simp: decode0_def)
qed

definition soldout0 :: db where
  "soldout0 = products_update (map (\<lambda>p. p\<lparr>p_stock := 0\<rparr>)) db0"

theorem unpayable_payment_acknowledged_witness:
  "liqpayCallback (\<lambda>x. x) decode0 config0 env0 no_faults 5 (Some (''o1'', ''keyo1key'')) soldout0 = (Inr 200, soldout0) \<and>
   o_status order0 = Pending"
proof -
  have ord: "t_find o_id ''o1'' (orders soldout0) = Some order0" by code_simp
  have st: "o_status order0 = Pending" by code_simp
  have "products soldout0 = [product0\<lparr>p_stock := 0\<rparr>]" "o_quantity order0 = 1" by code_simp+
  then have un: "\<not> payable soldout0 order0" by (auto simp: payable_def split: if_splits)
  have v: "verifyLiqpaySignature (\<lambda>x. x) config0 ''o1'' ''keyo1key'' = Inr True" by code_simp
  have answer: "Inr (200 :: nat) = (if no_faults 1 = None then Inr 200
      else Inl (serviceUnavailable ''Payment confirmation is temporarily unavailable''))"
    by (simp add: no_faults_def)
  from unpayable_payment_acknowledged [where faults = no_faults and decode = decode0, OF ord un answer,
      of "\<lambda>x. x" config0 "''o1''" "''keyo1key''" "projr (decode0 ''o1'')" env0 5] v st show ?thesis
    by (auto simp: decode0_def isLiqpaySuccessStatus_def SUCCESS_STATUSES_def)
qed

end
