(* ===== verification/Reconciliation.thy ===== *)
theory Reconciliation
  imports Balances Notifications Idempotency "HOL-Library.List_Lexorder" "HOL-Library.Char_ord"
begin

text \<open>
  The reconciliation of wallets and ledger, \<open>modules/admin/reconciliation.service.ts\<close>, with the job that runs it every
  day (\<open>modules/jobs/queue.ts\<close>). PostgreSQL hands the sums back as numeric strings; a sum outside the bigint range is
  an error. The id, metadata and time of a snapshot are not stored here.
\<close>

section \<open>The query\<close>

record ReconciliationRow =
  rn_currency :: string
  rn_wallet_available :: MoneyCentsInput
  rn_wallet_escrow :: MoneyCentsInput
  rn_ledger_payable :: MoneyCentsInput
  rn_ledger_escrow :: MoneyCentsInput
  rn_platform_revenue :: MoneyCentsInput
  rn_ledger_revenue :: MoneyCentsInput
  rn_provider_clearing :: MoneyCentsInput

definition currencies :: "db \<Rightarrow> string list" where
  "currencies s = sort (remdups (map w_currency (wallets s) @ map pw_currency (platform_wallets s) @
     map ac_currency (ledger_accounts s)))"

definition walletTotal :: "(wallet_row \<Rightarrow> int) \<Rightarrow> string \<Rightarrow> db \<Rightarrow> int" where
  "walletTotal column c s = t_sum (\<lambda>w. if w_currency w = c then column w else 0) (wallets s)"

definition platformTotal :: "string \<Rightarrow> db \<Rightarrow> int" where
  "platformTotal c s = t_sum (\<lambda>p. if pw_currency p = c then pw_revenue p else 0) (platform_wallets s)"

text \<open>\<open>sum(case when la.code like 'pre%' then ll.credit_cents - ll.debit_cents else 0 end)\<close> over the accounts of a currency.\<close>

definition ledgerTotal :: "string \<Rightarrow> string \<Rightarrow> db \<Rightarrow> int" where
  "ledgerTotal pre c s = t_sum (\<lambda>a. if ac_currency a = c \<and> prefix pre (ac_code a)
     then account_balance (ledger_lines s) (ac_code a) else 0) (ledger_accounts s)"

definition pgNumeric :: "int \<Rightarrow> MoneyCentsInput" where
  "pgNumeric v = Str (int_dec v)"

definition reconciliationRow :: "db \<Rightarrow> string \<Rightarrow> ReconciliationRow" where
  "reconciliationRow s c = \<lparr>rn_currency = c,
     rn_wallet_available = pgNumeric (walletTotal w_available c s),
     rn_wallet_escrow = pgNumeric (walletTotal w_escrow c s),
     rn_ledger_payable = pgNumeric (ledgerTotal ''liability:user-payable:'' c s),
     rn_ledger_escrow = pgNumeric (ledgerTotal ''liability:seller-escrow:'' c s),
     rn_platform_revenue = pgNumeric (platformTotal c s),
     rn_ledger_revenue = pgNumeric (ledgerTotal ''revenue:platform-fee:'' c s),
     rn_provider_clearing = pgNumeric (- ledgerTotal ''asset:provider-clearing:'' c s)\<rparr>"

section \<open>The snapshots\<close>

definition toCents :: "MoneyCentsInput option \<Rightarrow> int result" where
  "toCents value = r_bind (bigintToMoneyCents (case value of Some v \<Rightarrow> v | None \<Rightarrow> Num (JsInt 0))) parseMoneyCents"

definition bigint_abs :: "int \<Rightarrow> int" where
  "bigint_abs v = (if v < 0 then - v else v)"

definition reconciliationDifference :: "int \<Rightarrow> int \<Rightarrow> int \<Rightarrow> int \<Rightarrow> int \<Rightarrow> int \<Rightarrow> int" where
  "reconciliationDifference walletAvailable ledgerPayable walletEscrow ledgerEscrow revenue ledgerRevenue =
     bigint_abs (walletAvailable - ledgerPayable) + bigint_abs (walletEscrow - ledgerEscrow) +
     bigint_abs (revenue - ledgerRevenue)"

text \<open>The values of one insert; each is rendered by \<open>bigintToMoneyCents\<close>, which only the difference can fail.\<close>

definition snapshotOf :: "ReconciliationRow \<Rightarrow> snapshot_row result" where
  "snapshotOf row =
     r_bind (toCents (Some (rn_wallet_available row))) (\<lambda>walletAvailable.
     r_bind (toCents (Some (rn_wallet_escrow row))) (\<lambda>walletEscrow.
     r_bind (toCents (Some (rn_ledger_payable row))) (\<lambda>ledgerPayable.
     r_bind (toCents (Some (rn_ledger_escrow row))) (\<lambda>ledgerEscrow.
     r_bind (toCents (Some (rn_platform_revenue row))) (\<lambda>revenue.
     r_bind (toCents (Some (rn_ledger_revenue row))) (\<lambda>ledgerRevenue.
     r_bind (toCents (Some (rn_provider_clearing row))) (\<lambda>providerClearing.
     let difference = reconciliationDifference walletAvailable ledgerPayable walletEscrow ledgerEscrow revenue ledgerRevenue in
     r_bind (bigintToMoneyCents (BigInt difference)) (\<lambda>_.
     Inr \<lparr>sn_currency = rn_currency row, sn_wallet_available = walletAvailable, sn_wallet_escrow = walletEscrow,
       sn_ledger_payable = ledgerPayable, sn_ledger_escrow = ledgerEscrow, sn_platform_revenue = revenue,
       sn_ledger_revenue = ledgerRevenue, sn_provider_clearing = providerClearing, sn_difference = difference,
       sn_status = (if difference = 0 then ''balanced'' else ''mismatch'')\<rparr>))))))))"

fun insertSnapshots :: "ReconciliationRow list \<Rightarrow> snapshot_row list dbtx" where
  "insertSnapshots [] = tx_return []"
| "insertSnapshots (row # rows) =
     tx_bind (tx_lift (snapshotOf row)) (\<lambda>snapshot.
     tx_bind (tx_modify (snapshots_update (\<lambda>ss. ss @ [snapshot]))) (\<lambda>_.
     tx_bind (insertSnapshots rows) (\<lambda>rest. tx_return (snapshot # rest))))"

definition createReconciliationSnapshot :: "snapshot_row list dbtx" where
  "createReconciliationSnapshot =
     tx_bind (tx_gets (\<lambda>s. map (reconciliationRow s) (currencies s))) insertSnapshots"

fun join_with :: "string \<Rightarrow> string list \<Rightarrow> string" where
  "join_with sep [] = []"
| "join_with sep [x] = x"
| "join_with sep (x # y # xs) = x @ sep @ join_with sep (y # xs)"

definition processReconciliationDaily :: "env \<Rightarrow> unit dbtx" where
  "processReconciliationDaily env =
     tx_bind createReconciliationSnapshot (\<lambda>snapshots.
     let mismatches = filter (\<lambda>x. sn_status x = ''mismatch'') snapshots in
     if mismatches = [] then tx_return ()
     else notifyAdmins env (templateNotification [] ''reconciliation_mismatch'' ''notifications.reconciliationMismatch''
       [(''summary'', JStr (join_with '', '' (map (\<lambda>x. sn_currency x @ '': '' @ int_dec (sn_difference x)) mismatches)))])
       [RAdmin])"

section \<open>Totals\<close>

lemma t_sum_distinct: "distinct xs \<Longrightarrow> t_sum f xs = (\<Sum>x\<in>set xs. f x)"
  by (simp add: t_sum_def sum_list_distinct_conv_sum_set)

lemma toCents_numeric: "toCents (Some (pgNumeric v)) = assertPostgresBigintRange v"
  by (auto simp: toCents_def pgNumeric_def bigintToMoneyCents_def parse_int_dec r_bind_def split: sum.splits)

lemma account_balance_absent: "code \<notin> ln_account ` set ls \<Longrightarrow> account_balance ls code = 0"
  by (auto simp: account_balance_def intro!: t_sum_zero)

text \<open>The ledger total over a family of accounts the prefix picks out.\<close>

lemma ledgerTotal_family:
  assumes ok: "accounts_ok s" and fin: "finite V" and inj: "inj_on (\<lambda>v. acct_code (mk v)) V"
    and pick: "\<And>x. x \<in> set (ledger_accounts s) \<Longrightarrow>
      ac_currency x = c \<and> prefix pre (ac_code x) \<longleftrightarrow> ac_code x \<in> (\<lambda>v. acct_code (mk v)) ` V"
  shows "ledgerTotal pre c s = (\<Sum>v\<in>V. ledger_money (ledger_lines s) (mk v))"
proof -
  let ?C = "(\<lambda>v. acct_code (mk v)) ` V" and ?A = "set (ledger_accounts s)"
  let ?b = "account_balance (ledger_lines s)"
  have d: "distinct (ledger_accounts s)" "inj_on ac_code ?A"
    using ok by (auto simp: accounts_ok_def distinct_map)
  have "ledgerTotal pre c s = (\<Sum>x\<in>?A. if ac_code x \<in> ?C then ?b (ac_code x) else 0)"
    unfolding ledgerTotal_def t_sum_distinct [OF d(1)] by (intro sum.cong refl) (use pick in auto)
  also have "\<dots> = (\<Sum>k\<in>ac_code ` ?A. if k \<in> ?C then ?b k else 0)"
    by (simp add: sum.reindex [OF d(2)])
  also have "\<dots> = (\<Sum>k\<in>?C. ?b k)"
  proof (rule sum.mono_neutral_cong)
    show "?b k = 0" if "k \<in> ?C - ac_code ` ?A" for k
      using that ok by (intro account_balance_absent) (force simp: accounts_ok_def)
  qed (use fin in auto)
  also have "\<dots> = (\<Sum>v\<in>V. ledger_money (ledger_lines s) (mk v))"
    by (simp add: sum.reindex [OF inj] ledger_money_def)
  finally show ?thesis .
qed

lemma walletTotal_family:
  assumes ok: "wallets_ok s" and fin: "finite V" and V: "w_user ` {w \<in> set (wallets s). w_currency w = c} \<subseteq> V"
  shows "walletTotal w_available c s = (\<Sum>u\<in>V. wallet_money s (Payable u c))"
    and "walletTotal w_escrow c s = (\<Sum>u\<in>V. wallet_money s (Held u c))"
proof -
  let ?W = "{w \<in> set (wallets s). w_currency w = c}"
  have d: "distinct (map wallet_key (wallets s))" using ok by (simp add: wallets_ok_def)
  then have "distinct (wallets s)" and inj: "inj_on w_user ?W"
    by (auto simp: distinct_map inj_on_def wallet_key_def)
  have total: "walletTotal f c s = (\<Sum>u\<in>V. case t_find wallet_key (u, c) (wallets s) of None \<Rightarrow> 0 | Some w \<Rightarrow> f w)" for f
  proof -
    let ?g = "\<lambda>u. case t_find wallet_key (u, c) (wallets s) of None \<Rightarrow> 0 | Some w \<Rightarrow> f w"
    have g: "?g (w_user w) = f w" if "w \<in> ?W" for w
      using t_find_distinct [OF d, of w] that by (auto simp: wallet_key_def)
    have "walletTotal f c s = (\<Sum>w\<in>?W. f w)"
      unfolding walletTotal_def t_sum_distinct [OF \<open>distinct (wallets s)\<close>] by (rule sum.inter_filter [symmetric]) simp
    also have "\<dots> = (\<Sum>u\<in>w_user ` ?W. ?g u)" by (simp add: sum.reindex [OF inj] g)
    also have "\<dots> = (\<Sum>u\<in>V. ?g u)"
    proof (rule sum.mono_neutral_left [OF fin V], rule ballI)
      fix u assume u: "u \<in> V - w_user ` ?W"
      then have "t_find wallet_key (u, c) (wallets s) = None" by (auto simp: t_find_None_iff wallet_key_def)
      then show "?g u = 0" by simp
    qed
    finally show ?thesis .
  qed
  show "walletTotal w_available c s = (\<Sum>u\<in>V. wallet_money s (Payable u c))"
    "walletTotal w_escrow c s = (\<Sum>u\<in>V. wallet_money s (Held u c))"
    by (simp_all add: total wallet_money_def)
qed

section \<open>Agreement\<close>

lemma prefix_account_codes:
  "prefix ''liability:user-payable:'' (userPayable c u)" "prefix ''liability:seller-escrow:'' (sellerEscrow c u)"
  "prefix ''revenue:platform-fee:'' (platformRevenue c)"
  by (auto simp: account_codes accountCode_def split: option.splits list.splits)

lemma chart_prefix:
  assumes "chart_code c code"
  shows "prefix ''liability:user-payable:'' code \<Longrightarrow> \<exists>u. acct_valid (Payable u c) \<and> code = userPayable c u"
    and "prefix ''liability:seller-escrow:'' code \<Longrightarrow> \<exists>u. acct_valid (Held u c) \<and> code = sellerEscrow c u"
    and "prefix ''revenue:platform-fee:'' code \<Longrightarrow> code = platformRevenue c"
  using assms by (auto simp: chart_code_def account_codes)

text \<open>The users with an account of a kind, and the currency an account code fixes.\<close>

lemma account_currency:
  assumes "accounts_ok s" "x \<in> set (ledger_accounts s)" "acct_valid a" "ac_code x = acct_code a"
    and "\<exists>u. a \<in> {Payable u c, Held u c, Fees c}"
  shows "ac_currency x = c"
proof -
  have "chart_code (ac_currency x) (acct_code a)" using assms(1,2,4) by (auto simp: accounts_ok_def)
  then obtain b where "acct_valid b" "acct_code a = acct_code b" "\<exists>u. b \<in> {Payable u (ac_currency x), Held u (ac_currency x), Fees (ac_currency x)}"
    using clearing_not_acct [OF assms(3)] by (metis chart_code_def)
  then show ?thesis using acct_code_inject [OF assms(3)] assms(5) by auto
qed

lemma kind_code_inject:
  "K = Payable \<or> K = Held \<Longrightarrow> u \<noteq> [] \<Longrightarrow> v \<noteq> [] \<Longrightarrow> length c = 3 \<Longrightarrow>
   acct_code (K u c) = acct_code (K v c) \<longleftrightarrow> u = v"
  using acct_code_inject [of "K u c" "K v c"] by auto

lemma sum_of_key:
  "distinct (map key rows) \<Longrightarrow> t_sum (\<lambda>r. if key r = k then f r else 0) rows =
   (case t_find key k rows of None \<Rightarrow> 0 | Some r \<Rightarrow> f r)"
proof (induction rows)
  case Nil
  then show ?case by (simp add: t_sum_def)
next
  case (Cons a rows)
  show ?case
  proof (cases "key a = k")
    case True
    with Cons.prems have "t_find key k rows = None" by (auto simp: t_find_None_iff)
    with Cons True show ?thesis by (simp add: t_sum_def)
  next
    case False
    with Cons show ?thesis by (simp add: t_sum_def)
  qed
qed

lemma finite_coded: "accounts_ok s \<Longrightarrow> length c = 3 \<Longrightarrow> finite {u. u \<noteq> [] \<and> acct_code (K u c) \<in> ac_code ` set (ledger_accounts s)}"
  if "K = Payable \<or> K = Held"
proof (rule finite_imageD)
  assume "length c = 3"
  then show "inj_on (\<lambda>u. acct_code (K u c)) {u. u \<noteq> [] \<and> acct_code (K u c) \<in> ac_code ` set (ledger_accounts s)}"
    using kind_code_inject [OF that] by (intro inj_onI) blast
qed (auto intro: finite_subset [of _ "ac_code ` set (ledger_accounts s)"])

lemma platformTotal_agrees:
  assumes ok: "accounts_ok s" "wallets_ok s" "books_agree s" and c: "length c = 3"
  shows "platformTotal c s = ledgerTotal ''revenue:platform-fee:'' c s"
proof -
  have d: "distinct (map pw_currency (platform_wallets s))" using ok(2) by (simp add: wallets_ok_def)
  have "platformTotal c s = wallet_money s (Fees c)"
    by (simp add: platformTotal_def wallet_money_def sum_of_key [OF d])
  also have "\<dots> = (\<Sum>_\<in>{()}. ledger_money (ledger_lines s) (Fees c))" using ok(3) c by (simp add: books_agree_def)
  also have "\<dots> = ledgerTotal ''revenue:platform-fee:'' c s"
  proof (rule ledgerTotal_family [OF ok(1), symmetric])
    fix x assume x: "x \<in> set (ledger_accounts s)"
    have "chart_code (ac_currency x) (ac_code x)" using ok(1) x by (auto simp: accounts_ok_def)
    then show "ac_currency x = c \<and> prefix ''revenue:platform-fee:'' (ac_code x) \<longleftrightarrow> ac_code x \<in> (\<lambda>_. acct_code (Fees c)) ` {()}"
      using chart_prefix(3) account_currency [OF ok(1) x, of "Fees c" c] c by (auto simp: prefix_account_codes)
  qed auto
  finally show ?thesis .
qed

lemma totals_agree:
  assumes ok: "accounts_ok s" "wallets_ok s" "books_agree s" and c: "length c = 3"
  shows "walletTotal w_available c s = ledgerTotal ''liability:user-payable:'' c s"
    and "walletTotal w_escrow c s = ledgerTotal ''liability:seller-escrow:'' c s"
    and "platformTotal c s = ledgerTotal ''revenue:platform-fee:'' c s"
proof -
  let ?W = "w_user ` {w \<in> set (wallets s). w_currency w = c}"
  let ?A = "\<lambda>K. {u. u \<noteq> [] \<and> acct_code (K u c) \<in> ac_code ` set (ledger_accounts s)}"
  have W: "finite ?W" "\<forall>u\<in>?W. u \<noteq> []" using ok(2) by (auto simp: wallets_ok_def wallet_ok_def list_all_iff)
  have total: "(\<Sum>u\<in>?W \<union> ?A K. wallet_money s (K u c)) = ledgerTotal pre c s"
    if K: "K = Payable \<or> K = Held" and pre: "\<And>u. prefix pre (acct_code (K u c))"
      "\<And>c' code. chart_code c' code \<Longrightarrow> prefix pre code \<Longrightarrow> \<exists>u. acct_valid (K u c') \<and> code = acct_code (K u c')" for K pre
  proof -
    have valid: "acct_valid (K u c)" if "u \<noteq> []" for u using K that c by auto
    have "ledgerTotal pre c s = (\<Sum>u\<in>?W \<union> ?A K. ledger_money (ledger_lines s) (K u c))"
    proof (rule ledgerTotal_family [OF ok(1)])
      show "finite (?W \<union> ?A K)" using W finite_coded [OF K ok(1) c] by simp
      show "inj_on (\<lambda>u. acct_code (K u c)) (?W \<union> ?A K)"
        using kind_code_inject [OF K _ _ c] W(2) by (intro inj_onI) blast
      fix x assume x: "x \<in> set (ledger_accounts s)"
      show "ac_currency x = c \<and> prefix pre (ac_code x) \<longleftrightarrow> ac_code x \<in> (\<lambda>u. acct_code (K u c)) ` (?W \<union> ?A K)"
      proof
        assume a: "ac_currency x = c \<and> prefix pre (ac_code x)"
        moreover have "chart_code (ac_currency x) (ac_code x)" using ok(1) x by (auto simp: accounts_ok_def)
        ultimately obtain u where "acct_valid (K u c)" "ac_code x = acct_code (K u c)" using pre(2) by blast
        moreover from this x have "acct_code (K u c) \<in> ac_code ` set (ledger_accounts s)" by (metis image_eqI)
        ultimately show "ac_code x \<in> (\<lambda>u. acct_code (K u c)) ` (?W \<union> ?A K)" using K by auto
      next
        assume "ac_code x \<in> (\<lambda>u. acct_code (K u c)) ` (?W \<union> ?A K)"
        then obtain u where "u \<noteq> []" "ac_code x = acct_code (K u c)" using W(2) by blast
        with account_currency [OF ok(1) x valid] K pre(1) show "ac_currency x = c \<and> prefix pre (ac_code x)" by auto
      qed
    qed
    also have "\<dots> = (\<Sum>u\<in>?W \<union> ?A K. wallet_money s (K u c))"
      using ok(3) valid W(2) by (intro sum.cong refl) (auto simp: books_agree_def)
    finally show ?thesis ..
  qed
  have "walletTotal w_available c s = (\<Sum>u\<in>?W \<union> ?A Payable. wallet_money s (Payable u c))"
    using W finite_coded [of Payable, OF _ ok(1) c] by (intro walletTotal_family(1) [OF ok(2)]) auto
  also have "\<dots> = ledgerTotal ''liability:user-payable:'' c s"
    using chart_prefix(1) by (intro total) (simp_all add: prefix_account_codes)
  finally show "walletTotal w_available c s = ledgerTotal ''liability:user-payable:'' c s" .
  have "walletTotal w_escrow c s = (\<Sum>u\<in>?W \<union> ?A Held. wallet_money s (Held u c))"
    using W finite_coded [of Held, OF _ ok(1) c] by (intro walletTotal_family(2) [OF ok(2)]) auto
  also have "\<dots> = ledgerTotal ''liability:seller-escrow:'' c s"
    using chart_prefix(2) by (intro total) (simp_all add: prefix_account_codes)
  finally show "walletTotal w_escrow c s = ledgerTotal ''liability:seller-escrow:'' c s" .
  show "platformTotal c s = ledgerTotal ''revenue:platform-fee:'' c s"
    by (rule platformTotal_agrees [OF ok c])
qed

text \<open>
  Summing the accounts of a currency gives its lines, so the provider clearing account holds exactly what is owed and earned.
\<close>

lemma accounts_total:
  assumes fin: "finite A" and inj: "inj_on ac_code A"
    and l: "\<forall>l\<in>set ls. \<exists>x\<in>A. ac_code x = ln_account l \<and> ac_currency x = ln_currency l"
  shows "(\<Sum>x\<in>A. if ac_currency x = c then account_balance ls (ac_code x) else 0) = currency_sum c ls"
  using l
proof (induction ls)
  case Nil
  then show ?case by (simp add: account_balance_def currency_sum_def cong: if_cong)
next
  case (Cons l ls)
  let ?v = "ln_credit l - ln_debit l"
  obtain x0 where x0: "x0 \<in> A" "ac_code x0 = ln_account l" "ac_currency x0 = ln_currency l" using Cons.prems by auto
  have one: "(if ac_currency x = c then if ln_account l = ac_code x then ?v else 0 else 0) =
      (if x0 = x then if ln_currency l = c then ?v else 0 else 0)" if "x \<in> A" for x
  proof (cases "ln_account l = ac_code x")
    case True
    then have "x0 = x" using inj_onD [OF inj] x0 that by simp
    with x0 True show ?thesis by simp
  next
    case False
    with x0 show ?thesis by auto
  qed
  have "(\<Sum>x\<in>A. if ac_currency x = c then account_balance (l # ls) (ac_code x) else 0) =
    (\<Sum>x\<in>A. (if ac_currency x = c then if ln_account l = ac_code x then ?v else 0 else 0) +
      (if ac_currency x = c then account_balance ls (ac_code x) else 0))"
    by (intro sum.cong refl) (simp add: account_balance_def)
  also have "\<dots> = (\<Sum>x\<in>A. if x0 = x then if ln_currency l = c then ?v else 0 else 0) + currency_sum c ls"
    using Cons by (simp add: sum.distrib one cong: sum.cong)
  also have "\<dots> = currency_sum c (l # ls)" using fin x0(1) by (simp add: currency_sum_def)
  finally show ?case .
qed

lemma one_prefix:
  assumes "chart_code c code"
  shows "(if prefix ''liability:user-payable:'' code then b else 0) + (if prefix ''liability:seller-escrow:'' code then b else 0) +
    (if prefix ''revenue:platform-fee:'' code then b else 0) + (if prefix ''asset:provider-clearing:'' code then b else 0) = (b :: int)"
  using assms by (auto simp: chart_code_def account_codes)

lemma clearing_total:
  assumes ok: "accounts_ok s" "ledger_balanced s"
  shows "- ledgerTotal ''asset:provider-clearing:'' c s = ledgerTotal ''liability:user-payable:'' c s +
    ledgerTotal ''liability:seller-escrow:'' c s + ledgerTotal ''revenue:platform-fee:'' c s"
proof -
  let ?A = "set (ledger_accounts s)" and ?b = "\<lambda>x. account_balance (ledger_lines s) (ac_code x)"
  have d: "distinct (ledger_accounts s)" "inj_on ac_code ?A" using ok(1) by (auto simp: accounts_ok_def distinct_map)
  have total: "ledgerTotal pre c s = (\<Sum>x\<in>?A. if ac_currency x = c then if prefix pre (ac_code x) then ?b x else 0 else 0)" for pre
    unfolding ledgerTotal_def t_sum_distinct [OF d(1)] by (intro sum.cong refl) simp
  have "(\<Sum>x\<in>?A. if ac_currency x = c then ?b x else 0) = 0"
    using accounts_total [OF _ d(2), of "ledger_lines s" c] ok by (simp add: accounts_ok_def ledger_balanced_def)
  moreover have "(\<Sum>x\<in>?A. if ac_currency x = c then ?b x else 0) = ledgerTotal ''liability:user-payable:'' c s +
      ledgerTotal ''liability:seller-escrow:'' c s + ledgerTotal ''revenue:platform-fee:'' c s + ledgerTotal ''asset:provider-clearing:'' c s"
    unfolding total sum.distrib [symmetric]
  proof (rule sum.cong)
    fix x assume x: "x \<in> ?A"
    then have ch: "chart_code (ac_currency x) (ac_code x)" using ok(1) by (auto simp: accounts_ok_def)
    show "(if ac_currency x = c then ?b x else 0) =
      (if ac_currency x = c then if prefix ''liability:user-payable:'' (ac_code x) then ?b x else 0 else 0) +
      (if ac_currency x = c then if prefix ''liability:seller-escrow:'' (ac_code x) then ?b x else 0 else 0) +
      (if ac_currency x = c then if prefix ''revenue:platform-fee:'' (ac_code x) then ?b x else 0 else 0) +
      (if ac_currency x = c then if prefix ''asset:provider-clearing:'' (ac_code x) then ?b x else 0 else 0)"
      using one_prefix [OF ch, of "?b x"] by (cases "ac_currency x = c") simp_all
  qed simp
  ultimately show ?thesis by simp
qed

text \<open>What a run inserts: one snapshot per currency, of the totals before it, and nothing else.\<close>

lemma insertSnapshots_Inr:
  "insertSnapshots rows s = (Inr out, s') \<longleftrightarrow> map snapshotOf rows = map Inr out \<and> s' = s\<lparr>snapshots := snapshots s @ out\<rparr>"
proof (induction rows arbitrary: s out s')
  case Nil
  then show ?case by (auto simp: tx_simps)
next
  case (Cons row rows)
  then show ?case by (cases out) (auto simp: tx_simps)
qed

lemma createReconciliationSnapshot_Inr:
  "createReconciliationSnapshot s = (Inr out, s') \<longleftrightarrow>
   map snapshotOf (map (reconciliationRow s) (currencies s)) = map Inr out \<and> s' = s\<lparr>snapshots := snapshots s @ out\<rparr>"
  by (simp add: createReconciliationSnapshot_def tx_bind_def tx_gets_def insertSnapshots_Inr)

lemma snapshot_exists:
  assumes "list_all in_bigint_range [walletTotal w_available c s, walletTotal w_escrow c s, ledgerTotal ''liability:user-payable:'' c s,
      ledgerTotal ''liability:seller-escrow:'' c s, platformTotal c s, ledgerTotal ''revenue:platform-fee:'' c s,
      - ledgerTotal ''asset:provider-clearing:'' c s]"
    and "in_bigint_range (reconciliationDifference (walletTotal w_available c s) (ledgerTotal ''liability:user-payable:'' c s)
      (walletTotal w_escrow c s) (ledgerTotal ''liability:seller-escrow:'' c s) (platformTotal c s)
      (ledgerTotal ''revenue:platform-fee:'' c s))"
  shows "\<exists>x. snapshotOf (reconciliationRow s c) = Inr x"
  using assms by (simp add: snapshotOf_def reconciliationRow_def toCents_numeric assert_range_eq bigintToMoneyCents_def Let_def r_bind_def)

lemma side_snapshots: "side.keeps createReconciliationSnapshot" "side.keeps (processReconciliationDaily env)"
proof -
  have m: "side_step s (snapshots_update f s)" for s f by (simp add: side_step_def side_core_def)
  have "side.keeps (insertSnapshots rows)" for rows
    by (induction rows) (auto intro!: side.keeps_intros m)
  then show c: "side.keeps createReconciliationSnapshot"
    unfolding createReconciliationSnapshot_def by (intro side.keeps_intros)
  show "side.keeps (processReconciliationDaily env)"
    unfolding processReconciliationDaily_def Let_def by (intro side.keeps_intros c side_notifyAdmins)
qed

lemma currencies_valid: "accounts_ok s \<Longrightarrow> wallets_ok s \<Longrightarrow> c \<in> set (currencies s) \<Longrightarrow> length c = 3"
  by (auto simp: currencies_def accounts_ok_def wallets_ok_def wallet_ok_def list_all_iff)

lemma snapshot_balanced:
  assumes ok: "accounts_ok s" "wallets_ok s" "books_agree s" "ledger_balanced s" and c: "c \<in> set (currencies s)"
    and sn: "snapshotOf (reconciliationRow s c) = Inr x"
  shows "sn_currency x = c \<and> sn_difference x = 0 \<and> sn_status x = ''balanced'' \<and>
    sn_provider_clearing x = sn_wallet_available x + sn_wallet_escrow x + sn_platform_revenue x"
  using sn totals_agree [OF ok(1-3) currencies_valid [OF ok(1,2) c]] clearing_total [OF ok(1,4), of c]
  by (auto simp: snapshotOf_def reconciliationRow_def toCents_numeric reconciliationDifference_def bigint_abs_def Let_def
      r_bind_def assertPostgresBigintRange_def split: sum.splits if_splits)

end
