(* ===== verification/Market.thy ===== *)
theory Market
  imports DisputeOps OutboxOps PaymentsOps Reconciliation
begin

text \<open>
  The invariant of the whole marketplace and the lemmas that each database transaction of the services keeps it: the
  books agree with the wallets, every ledger key belongs to a row whose status shows it was booked, and a seller's escrow
  is the sum of the orders still in escrow.
\<close>

section \<open>The invariant\<close>

definition money_ok :: "db \<Rightarrow> bool" where
  "money_ok s \<longleftrightarrow> users_ok s \<and> wallets_ok s \<and> ledger_balanced s \<and> accounts_ok s \<and> books_agree s"

definition holding :: "OrderStatus \<Rightarrow> bool" where
  "holding st \<longleftrightarrow> st \<in> {Paid, InProgress, Delivered, Disputed}"

definition held_for :: "uuid \<Rightarrow> string \<Rightarrow> order_row \<Rightarrow> int" where
  "held_for u c r = (if o_seller r = u \<and> o_currency r = c \<and> holding (o_status r) then o_amount r else 0)"

definition escrow_covered :: "db \<Rightarrow> bool" where
  "escrow_covered s \<longleftrightarrow> (\<forall>u c. wallet_money s (Held u c) = t_sum (held_for u c) (orders s))"

definition payee_ok :: "uuid \<Rightarrow> string \<Rightarrow> bool" where
  "payee_ok u c \<longleftrightarrow> u \<noteq> [] \<and> length c = 3"

definition rows_ok :: "db \<Rightarrow> bool" where
  "rows_ok s \<longleftrightarrow> distinct (map o_id (orders s)) \<and> distinct (map tp_id (wallet_topups s)) \<and>
     distinct (map po_id (payouts s)) \<and> distinct (map po_transaction (payouts s)) \<and>
     (\<forall>r\<in>set (orders s). order_valid r) \<and> (\<forall>t\<in>set (wallet_topups s). payee_ok (tp_user t) (tp_currency t)) \<and>
     (\<forall>p\<in>set (payouts s). payee_ok (po_user p) (po_currency p)) \<and> (\<forall>p\<in>set (products s). length (p_currency p) = 3)"

text \<open>A booked key belongs to a row that has moved on, so the operation that booked it cannot run again.\<close>

definition keys_ok :: "db \<Rightarrow> bool" where
  "keys_ok s \<longleftrightarrow>
     (\<forall>i. capture_key i \<in> ledger_keys s \<longrightarrow> (\<exists>r. t_find o_id i (orders s) = Some r \<and> o_status r \<notin> {Pending, Canceled})) \<and>
     (\<forall>i. release_key i \<in> ledger_keys s \<longrightarrow> (\<exists>r. t_find o_id i (orders s) = Some r \<and> o_status r = Completed)) \<and>
     (\<forall>i. refund_key i \<in> ledger_keys s \<longrightarrow> (\<exists>r. t_find o_id i (orders s) = Some r \<and> o_status r = Refunded)) \<and>
     (\<forall>i. topup_key i \<in> ledger_keys s \<longrightarrow> (\<exists>t. t_find tp_id i (wallet_topups s) = Some t \<and> tp_status t \<noteq> TPending)) \<and>
     (\<forall>i. withdrawal_key i \<in> ledger_keys s \<longrightarrow> i \<in> po_transaction ` set (payouts s)) \<and>
     (\<forall>i. reversal_key i \<in> ledger_keys s \<longrightarrow> (\<exists>p\<in>set (payouts s). po_transaction p = i \<and> po_status p \<noteq> POPending))"

definition row_ids :: "db \<Rightarrow> uuid set" where
  "row_ids s = o_id ` set (orders s) \<union> tp_id ` set (wallet_topups s) \<union> po_id ` set (payouts s) \<union>
     po_transaction ` set (payouts s)"

definition fresh_ok :: "env \<Rightarrow> db \<Rightarrow> bool" where
  "fresh_ok env s \<longleftrightarrow> (\<forall>n\<ge>uuid_ctr s. gen_uuid env n \<notin> row_ids s)"

definition market_ok :: "env \<Rightarrow> db \<Rightarrow> bool" where
  "market_ok env s \<longleftrightarrow> money_ok s \<and> rows_ok s \<and> keys_ok s \<and> fresh_ok env s \<and> escrow_covered s"

section \<open>Keys\<close>

lemma key_inject [simp]:
  "capture_key i = capture_key j \<longleftrightarrow> i = j" "release_key i = release_key j \<longleftrightarrow> i = j" "refund_key i = refund_key j \<longleftrightarrow> i = j"
  "topup_key i = topup_key j \<longleftrightarrow> i = j" "withdrawal_key i = withdrawal_key j \<longleftrightarrow> i = j" "reversal_key i = reversal_key j \<longleftrightarrow> i = j"
  by (simp_all add: capture_key_def release_key_def refund_key_def topup_key_def withdrawal_key_def reversal_key_def)

lemma key_distinct [simp]:
  "capture_key i \<noteq> release_key j" "capture_key i \<noteq> refund_key j" "release_key i \<noteq> refund_key j"
  "topup_key i \<noteq> withdrawal_key j" "topup_key i \<noteq> reversal_key j" "withdrawal_key i \<noteq> reversal_key j"
proof -
  have "rev (capture_key i) \<noteq> rev (release_key j)" "rev (capture_key i) \<noteq> rev (refund_key j)"
    "rev (release_key i) \<noteq> rev (refund_key j)"
    by (simp_all add: capture_key_def release_key_def refund_key_def del: rev_is_rev_conv)
  then show "capture_key i \<noteq> release_key j" "capture_key i \<noteq> refund_key j" "release_key i \<noteq> refund_key j"
    by auto
  show "topup_key i \<noteq> withdrawal_key j" "topup_key i \<noteq> reversal_key j" "withdrawal_key i \<noteq> reversal_key j"
    by (simp_all add: topup_key_def withdrawal_key_def reversal_key_def)
qed

lemma order_wallet_keys [simp]:
  "capture_key i \<noteq> topup_key j" "capture_key i \<noteq> withdrawal_key j" "capture_key i \<noteq> reversal_key j"
  "release_key i \<noteq> topup_key j" "release_key i \<noteq> withdrawal_key j" "release_key i \<noteq> reversal_key j"
  "refund_key i \<noteq> topup_key j" "refund_key i \<noteq> withdrawal_key j" "refund_key i \<noteq> reversal_key j"
  by (simp_all add: capture_key_def release_key_def refund_key_def topup_key_def withdrawal_key_def reversal_key_def)

lemmas keys_apart = key_distinct key_distinct [symmetric] order_wallet_keys order_wallet_keys [symmetric]

section \<open>Steps that keep the money\<close>

lemma money_ok_step: "money_step k d s s' \<Longrightarrow> k \<notin> ledger_keys s \<Longrightarrow> money_ok s \<Longrightarrow> money_ok s'"
  by (auto simp: money_ok_def dest: money_step_agree) (simp_all add: money_step_def users_ok_def)

lemma money_ok_same: "same_money s s' \<Longrightarrow> money_ok s' = money_ok s"
  by (simp add: money_ok_def same_money_views)

text \<open>A change of the side tables or of the disputes.\<close>

lemma market_ok_frame:
  assumes "market_ok env s" "same_money s s'" "orders s' = orders s" "wallet_topups s' = wallet_topups s"
    "payouts s' = payouts s" "\<forall>p\<in>set (products s'). length (p_currency p) = 3"
  shows "market_ok env s'"
proof -
  have v: "wallet_money s' = wallet_money s" "ledger_keys s' = ledger_keys s" using same_money_views [OF assms(2)] by simp_all
  have ctr: "uuid_ctr s \<le> uuid_ctr s'" using assms(2) by (simp add: same_money_def)
  from assms(1) have "fresh_ok env s" by (simp add: market_ok_def)
  with assms(3-5) ctr have "fresh_ok env s'" by (auto simp: fresh_ok_def row_ids_def)
  moreover from assms(1) have "money_ok s'" using money_ok_same [OF assms(2)] by (simp add: market_ok_def)
  moreover from assms have "rows_ok s'" by (simp add: market_ok_def rows_ok_def)
  moreover from assms v have "keys_ok s'" "escrow_covered s'" by (simp_all add: market_ok_def keys_ok_def escrow_covered_def)
  ultimately show ?thesis by (simp add: market_ok_def)
qed

lemma market_ok_side:
  assumes "side_step s s'" "market_ok env s"
  shows "market_ok env s'"
proof (rule market_ok_frame [OF assms(2) side_same_money [OF assms(1)]])
  show "\<forall>p\<in>set (products s'). length (p_currency p) = 3"
    using assms(2) by (simp add: market_ok_def rows_ok_def side_step_fields(2) [OF assms(1)])
qed (simp_all only: side_step_fields [OF assms(1)])

lemma market_ok_products: "market_ok env s \<Longrightarrow> p \<in> set (products s) \<Longrightarrow> length (p_currency p) = 3"
  by (simp add: market_ok_def rows_ok_def)

lemma market_ok_rollback: "market_ok env (rollback s t) = market_ok env s"
proof
  show "market_ok env s" if "market_ok env (rollback s t)"
    by (rule market_ok_frame [OF that]) (use market_ok_products [OF that] in \<open>simp_all add: same_money_def\<close>)
  show "market_ok env (rollback s t)" if "market_ok env s"
    by (rule market_ok_frame [OF that]) (use market_ok_products [OF that] in \<open>simp_all add: same_money_def\<close>)
qed

lemma market_ok_disputes:
  assumes "market_ok env s"
  shows "market_ok env (disputes_update f s)"
  by (rule market_ok_frame [OF assms]) (use market_ok_products [OF assms] in \<open>simp_all add: same_money_def\<close>)

section \<open>One order changed\<close>

lemma order_changed_set:
  assumes "order_changed ord res s s'" "distinct (map o_id (orders s))"
  shows "set (orders s') \<subseteq> insert res (set (orders s))" "ord \<in> set (orders s)"
    "o_id ` set (orders s') = o_id ` set (orders s)"
proof -
  show "set (orders s') \<subseteq> insert res (set (orders s))"
    using order_changed_rows [OF assms] by (auto simp: t_upd_def)
  show "ord \<in> set (orders s)" using assms(1) by (auto simp: order_changed_def dest: t_find_Some)
  show "o_id ` set (orders s') = o_id ` set (orders s)"
    using assms(1) by (metis list.set_map order_changed_def)
qed

text \<open>
  The legal changes of an order with the key they book: a capture, a release, a refund, or a move that books nothing.
\<close>

inductive booked :: "uuid \<Rightarrow> OrderStatus \<Rightarrow> string option \<Rightarrow> OrderStatus \<Rightarrow> bool" where
  capture: "holding st' \<Longrightarrow> booked i Pending (Some (capture_key i)) st'"
| release: "holding st \<Longrightarrow> booked i st (Some (release_key i)) Completed"
| refund: "holding st \<Longrightarrow> booked i st (Some (refund_key i)) Refunded"
| cancel: "booked i Pending None Canceled"
| quiet: "holding st \<Longrightarrow> holding st' \<Longrightarrow> booked i st None st'"

lemma booked_new:
  assumes "booked (o_id ord) (o_status ord) (Some k) st'" "keys_ok s" "t_find o_id (o_id ord) (orders s) = Some ord"
  shows "k \<notin> ledger_keys s"
  using assms(1)
proof cases
  case capture
  then show ?thesis using assms(2,3) by (auto simp: keys_ok_def)
next
  case release
  then show ?thesis using assms(2,3) by (auto simp: keys_ok_def holding_def)
next
  case refund
  then show ?thesis using assms(2,3) by (auto simp: keys_ok_def holding_def)
qed

lemma booked_keys:
  assumes b: "booked (o_id ord) (o_status ord) ko (o_status res)" and k: "keys_ok s"
    and ch: "order_changed ord res s s'" and same: "wallet_topups s' = wallet_topups s" "payouts s' = payouts s"
    and keys: "ledger_keys s' = set_option ko \<union> ledger_keys s"
  shows "keys_ok s'"
proof -
  have f: "t_find o_id (o_id ord) (orders s) = Some ord"
    "t_find o_id i (orders s') = (if i = o_id ord then Some res else t_find o_id i (orders s))" for i
    using ch by (auto simp: order_changed_def)
  have old: "capture_key (o_id ord) \<in> ledger_keys s \<Longrightarrow> o_status ord \<notin> {Pending, Canceled}"
    "release_key (o_id ord) \<in> ledger_keys s \<Longrightarrow> o_status ord = Completed"
    "refund_key (o_id ord) \<in> ledger_keys s \<Longrightarrow> o_status ord = Refunded"
    using k f(1) by (auto simp: keys_ok_def)
  show ?thesis
    using b k old unfolding keys_ok_def keys f(2) same
    by cases (auto simp: keys_apart holding_def)
qed

lemma booked_held:
  "booked i (o_status ord) ko (o_status res) \<Longrightarrow> o_amount res = o_amount ord \<Longrightarrow> o_seller res = o_seller ord \<Longrightarrow>
   o_currency res = o_currency ord \<Longrightarrow>
   held_for u c res - held_for u c ord =
     acct_delta (Held (o_seller ord) (o_currency ord)) (case ko of None \<Rightarrow> 0
       | Some k \<Rightarrow> if k = capture_key i then o_amount ord else - o_amount ord) (Held u c)"
  by (cases rule: booked.cases, assumption)
    (auto simp: held_for_def acct_delta_def holding_def keys_apart)

text \<open>An order changed as booked: the money by the key's delta, the order's share of the escrow with it.\<close>

lemma order_step_ok:
  assumes ok: "market_ok env s" and ch: "order_changed ord res s s'"
    and b: "booked (o_id ord) (o_status ord) ko (o_status res)" and v: "order_valid res"
    and money: "case ko of None \<Rightarrow> same_money s s' | Some k \<Rightarrow> money_step k d s s'"
    and held: "\<And>k u c. ko = Some k \<Longrightarrow> d (Held u c) = acct_delta (Held (o_seller ord) (o_currency ord))
        (if k = capture_key (o_id ord) then o_amount ord else - o_amount ord) (Held u c)"
    and same: "wallet_topups s' = wallet_topups s" "payouts s' = payouts s"
      "map product_tag (products s') = map product_tag (products s)"
  shows "market_ok env s'"
proof -
  have parts: "money_ok s" "rows_ok s" "keys_ok s" "fresh_ok env s" "escrow_covered s" using ok by (simp_all add: market_ok_def)
  then have d: "distinct (map o_id (orders s))" by (simp add: rows_ok_def)
  note S = order_changed_set [OF ch d]
  have f: "t_find o_id (o_id ord) (orders s) = Some ord" using ch by (simp add: order_changed_def)
  have eq: "o_amount res = o_amount ord" "o_seller res = o_seller ord" "o_currency res = o_currency ord"
    "map o_id (orders s') = map o_id (orders s)"
    using ch by (simp_all add: order_changed_def)
  have cases: "money_ok s' \<and> ledger_keys s' = set_option ko \<union> ledger_keys s \<and> uuid_ctr s \<le> uuid_ctr s' \<and>
      (\<forall>u c. wallet_money s' (Held u c) = wallet_money s (Held u c) + (held_for u c res - held_for u c ord))"
  proof (cases ko)
    case None
    with money have sm: "same_money s s'" by simp
    with parts(1) money_ok_same [OF sm] same_money_views [OF sm] booked_held [OF b eq(1-3)] None show ?thesis
      by (simp add: same_money_def acct_delta_def)
  next
    case (Some k)
    with money have m: "money_step k d s s'" by simp
    have "k \<notin> ledger_keys s" using booked_new [OF _ parts(3) f] b Some by simp
    with money_ok_step [OF m] parts(1) booked_held [OF b eq(1-3)] held Some m show ?thesis
      by (simp add: money_step_def)
  qed
  have prod: "length (p_currency p) = 3" if "p \<in> set (products s')" for p
  proof -
    have "product_tag p \<in> set (map product_tag (products s))" using that same(3) by (metis image_eqI list.set_map)
    with parts(2) show ?thesis by (auto simp: rows_ok_def product_tag_def)
  qed
  have "rows_ok s'" using parts(2) S(1) v eq(4) same prod by (auto simp: rows_ok_def)
  moreover have "keys_ok s'" using booked_keys [OF b parts(3) ch same(1,2)] cases by simp
  moreover have "fresh_ok env s'"
    using parts(4) cases S(3) same by (auto simp: fresh_ok_def row_ids_def)
  moreover have "escrow_covered s'"
    using parts(5) cases order_changed_sum [OF ch d] by (simp add: escrow_covered_def)
  ultimately show ?thesis using cases by (simp add: market_ok_def)
qed

lemma escrow_step_ok:
  assumes ok: "market_ok env s" and st: "escrow_step k d ord res s s'"
    and b: "booked (o_id ord) (o_status ord) (Some k) (o_status res)" and v: "order_valid res"
    and held: "\<And>u c. d (Held u c) = acct_delta (Held (o_seller ord) (o_currency ord))
        (if k = capture_key (o_id ord) then o_amount ord else - o_amount ord) (Held u c)"
  shows "market_ok env s'"
  using st held by (intro order_step_ok [OF ok _ b v, where d = d]) (simp_all add: escrow_step_def)

section \<open>The escrow transactions\<close>

lemma market_ok_order: "market_ok env s \<Longrightarrow> t_find o_id i (orders s) = Some ord \<Longrightarrow> order_valid ord"
  by (auto simp: market_ok_def rows_ok_def dest: t_find_Some)

lemma lockEscrowTx_ok:
  assumes ok: "market_ok env s" and run: "lockEscrowTx env now i b p ext act s = (Inr res, s')"
  shows "market_ok env s'"
proof (rule lockEscrowTx_Inr [OF run market_ok_order [OF ok]], assumption, goal_cases)
  case (1 ord pr)
  have v: "order_valid ord" using 1(10) market_ok_order [OF ok] by (auto simp: escrow_step_def order_changed_def)
  have "order_valid res"
    using v 1(8,10) cents_fee_Inr [OF 1(8)] fee_le_amount [of "o_amount ord" "PLATFORM_FEE_BPS env"]
    by (simp add: order_valid_def escrow_step_def order_changed_def)
  moreover have "booked (o_id ord) (o_status ord) (Some (capture_key i)) (o_status res)"
    using 1(1,3,7) booked.capture [of "o_status res" i] by (auto simp: holding_def)
  ultimately show ?case by (intro escrow_step_ok [OF ok 1(10)]) (simp_all add: 1(1))
qed

lemma releaseEscrowTx_ok:
  assumes ok: "market_ok env s" and run: "releaseEscrowTx env now i opts s = (Inr res, s')"
  shows "market_ok env s'"
proof (rule releaseEscrowTx_Inr [OF run market_ok_order [OF ok]], assumption, goal_cases)
  case (1 ord)
  have v: "order_valid ord" using 1(5) market_ok_order [OF ok] by (auto simp: escrow_step_def order_changed_def)
  then have "order_valid res" by (simp add: 1(4) order_valid_def)
  moreover have "holding (o_status ord)"
    using 1(2) by (auto simp: releaseTransition_def holding_def split: ReleaseSource.splits)
  then have "booked (o_id ord) (o_status ord) (Some (release_key i)) (o_status res)"
    using 1(1) by (auto simp: 1(4) intro: booked.release)
  ultimately show ?case
    by (intro escrow_step_ok [OF ok 1(5)]) (simp_all add: 1(1) release_delta_def acct_delta_def keys_apart)
qed

lemma refundEscrowTx_ok:
  assumes ok: "market_ok env s" and run: "refundEscrowTx env now i adm s = (Inr res, s')"
  shows "market_ok env s'"
proof (rule refundEscrowTx_Inr [OF run market_ok_order [OF ok]], assumption, goal_cases)
  case (1 ord)
  have v: "order_valid ord" using 1(5) market_ok_order [OF ok] by (auto simp: escrow_step_def order_changed_def)
  then have "order_valid res" by (simp add: 1(4) order_valid_def)
  moreover have "holding (o_status ord)"
    using 1(2) by (auto simp: refundTransition_def holding_def split: if_splits)
  then have "booked (o_id ord) (o_status ord) (Some (refund_key i)) (o_status res)"
    using 1(1) by (auto simp: 1(4) intro: booked.refund)
  ultimately show ?case
    by (intro escrow_step_ok [OF ok 1(5)]) (simp_all add: 1(1) refund_delta_def acct_delta_def keys_apart)
qed

section \<open>Lifecycle transactions\<close>

text \<open>Transitions that leave the money where it is.\<close>

definition quiet_input :: "TransitionOrderInput \<Rightarrow> bool" where
  "quiet_input inp \<longleftrightarrow> (\<forall>st i. canTransitionOrder st (ti_to inp) \<longrightarrow>
     (\<forall>from. ti_expected inp = Some from \<longrightarrow> st \<in> set from) \<longrightarrow> booked i st None (ti_to inp))"

lemma lifecycle_step_ok:
  assumes ok: "market_ok env s" and st: "lifecycle_step ord res s s'"
    and b: "booked (o_id ord) (o_status ord) None (o_status res)" and v: "order_valid res"
  shows "market_ok env s'"
  using st by (intro order_step_ok [OF ok _ b v]) (simp_all add: lifecycle_step_def)

lemma transition_ok:
  assumes ok: "market_ok env s" and q: "quiet_input inp" and run: "transitionOrder env now inp s = (Inr res, s')"
  shows "market_ok env s'"
  using run
proof (cases rule: transitionOrder_cases)
  case repeated
  with ok show ?thesis by simp
next
  case (moved ord)
  note C = order_moved_changed [OF moved(2,1)]
  have "lifecycle_step ord res s s'"
    using C moved(3) order_moved_same_money [OF moved(2)] by (simp add: lifecycle_step_def)
  moreover have "booked (o_id ord) (o_status ord) None (o_status res)"
    using q moved(2,3) by (auto simp: quiet_input_def order_moved_def)
  moreover have "order_valid res"
    using market_ok_order [OF ok moved(1)] by (simp add: moved(3) order_valid_def)
  ultimately show ?thesis by (rule lifecycle_step_ok [OF ok])
qed

lemma booked_quiet [simp]:
  "holding st' \<Longrightarrow> booked i st None st' \<longleftrightarrow> holding st" "booked i st None Canceled \<longleftrightarrow> st = Pending"
  by (auto simp: booked.simps holding_def)

lemma quiet_inputs:
  "quiet_input (sellerTransition i u InProgress rs [Paid] m)"
  "quiet_input (sellerTransition i u Delivered rs' [Paid, InProgress] m')"
  by (auto simp: quiet_input_def sellerTransition_def holding_def)

lemma market_ok_note:
  assumes ok: "market_ok env s"
  shows "market_ok env (orders_update (t_upd o_id i (\<lambda>r. r\<lparr>o_delivery_note := n\<rparr>)) s)"
proof -
  let ?f = "\<lambda>r. r\<lparr>o_delivery_note := n\<rparr>" and ?s = "orders_update (t_upd o_id i (\<lambda>r. r\<lparr>o_delivery_note := n\<rparr>)) s"
  have d: "distinct (map o_id (orders s))" using ok by (simp add: market_ok_def rows_ok_def)
  have sm: "same_money s ?s" by (simp add: same_money_def)
  have "t_sum (held_for u c) (t_upd o_id i ?f (orders s)) = t_sum (held_for u c) (orders s)" for u c
    by (rule t_sum_upd_same) (simp add: held_for_def)
  moreover have "map o_id (t_upd o_id i ?f (orders s)) = map o_id (orders s)" by (rule map_t_upd) simp
  from arg_cong [OF this, of set] have "o_id ` set (t_upd o_id i ?f (orders s)) = o_id ` set (orders s)" by simp
  moreover have "\<forall>r\<in>set (t_upd o_id i ?f (orders s)). order_valid r"
    using ok by (auto simp: t_upd_def market_ok_def rows_ok_def order_valid_def)
  ultimately have "rows_ok ?s" "fresh_ok env ?s" "escrow_covered ?s"
    using ok same_money_views(3) [OF sm] d
    by (simp_all add: market_ok_def rows_ok_def fresh_ok_def row_ids_def escrow_covered_def map_key_t_upd)
  moreover have "t_find o_id j (t_upd o_id i ?f (orders s)) = (if j = i then map_option ?f (t_find o_id i (orders s)) else t_find o_id j (orders s))" for j
    by (rule t_find_upd) simp
  then have "keys_ok ?s"
    using ok same_money_views(4) [OF sm] unfolding market_ok_def keys_ok_def by fastforce
  moreover have "money_ok ?s" using ok money_ok_same [OF sm] by (simp add: market_ok_def)
  ultimately show ?thesis by (simp add: market_ok_def)
qed

lemma startOrderTx_ok:
  assumes ok: "market_ok env s" and run: "startOrderTx env now u i s = (Inr res, s')"
  shows "market_ok env s'"
proof -
  from run obtain m s1 where msg: "createOrderSystemMessage env i ''seller_started'' ''system.sellerStarted'' None [] s = (Inr m, s1)"
    and tr: "transitionOrder env now (sellerTransition i u InProgress SellerStarted [Paid] m) s1 = (Inr res, s')"
    by (auto simp: startOrderTx_def tx_simps)
  have "market_ok env s1" by (rule market_ok_side [OF side.keepsD [OF side_createOrderSystemMessage msg] ok])
  from transition_ok [OF this quiet_inputs(1) tr] show ?thesis .
qed

lemma deliverOrderTx_ok:
  assumes ok: "market_ok env s" and run: "deliverOrderTx env now u i n s = (Inr res, s')"
  shows "market_ok env s'"
proof -
  let ?up = "orders_update (t_upd o_id i (\<lambda>r. r\<lparr>o_delivery_note := Some n\<rparr>))"
  from run obtain m s1 where msg: "createOrderSystemMessage env i ''delivery_sent'' ''system.deliverySent'' None [] (?up s) = (Inr m, s1)"
    and tr: "transitionOrder env now (sellerTransition i u Delivered SellerDelivered [Paid, InProgress] m) s1 = (Inr res, s')"
    by (auto simp: deliverOrderTx_def tx_simps)
  have "market_ok env s1"
    by (rule market_ok_side [OF side.keepsD [OF side_createOrderSystemMessage msg] market_ok_note [OF ok]])
  from transition_ok [OF this quiet_inputs(2) tr] show ?thesis .
qed

lemma failTestPaymentTx_ok:
  assumes ok: "market_ok env s" and run: "failTestPaymentTx env now i b s = (Inr res, s')"
  shows "market_ok env s'"
proof -
  from run obtain inp where "ti_to inp = Canceled" "ti_expected inp = Some [Pending]" and tr: "transitionOrder env now inp s = (Inr res, s')"
    by (force simp: failTestPaymentTx_def tx_simps)
  then have "quiet_input inp" by (auto simp: quiet_input_def)
  from transition_ok [OF ok this tr] show ?thesis .
qed

lemma openDisputeTx_ok:
  assumes ok: "market_ok env s" and run: "openDisputeTx env now u i reason s = (Inr res, s')"
  shows "market_ok env s'"
proof -
  from run consider "s' = s"
    | d m s1 x inp where "createOrderSystemMessage env i ''dispute_opened'' ''system.disputeOpened'' (Some [(''reason'', JStr reason)]) []
          (disputes_update (\<lambda>ds. ds @ [d]) (s\<lparr>uuid_ctr := Suc (uuid_ctr s)\<rparr>)) = (Inr m, s1)"
        "transitionOrder env now inp s1 = (Inr x, s')" "ti_to inp = Disputed" "ti_expected inp = Some [Paid, InProgress, Delivered]"
    by (force simp: openDisputeTx_def tx_simps Let_def split: if_splits)
  then show ?thesis
  proof cases
    case 1
    with ok show ?thesis by simp
  next
    case (2 d m s1 x inp)
    have "market_ok env (s\<lparr>uuid_ctr := Suc (uuid_ctr s)\<rparr>)"
      by (rule market_ok_side [OF _ ok]) (simp add: side_step_def side_core_def)
    from market_ok_disputes [OF this] have "market_ok env (disputes_update (\<lambda>ds. ds @ [d]) (s\<lparr>uuid_ctr := Suc (uuid_ctr s)\<rparr>))" .
    then have "market_ok env s1" by (rule market_ok_side [OF side.keepsD [OF side_createOrderSystemMessage 2(1)]])
    moreover have "quiet_input inp" using 2(3,4) by (auto simp: quiet_input_def holding_def)
    ultimately show ?thesis using transition_ok 2(2) by blast
  qed
qed

section \<open>New rows\<close>

text \<open>Ids are drawn in order and never twice.\<close>

definition env_ok :: "env \<Rightarrow> bool" where
  "env_ok env \<longleftrightarrow> inj (gen_uuid env)"

lemma fresh_append:
  assumes "env_ok env" "fresh_ok env s" "row_ids s' \<subseteq> row_ids s \<union> gen_uuid env ` {uuid_ctr s ..< uuid_ctr s'}"
    "uuid_ctr s \<le> uuid_ctr s'"
  shows "fresh_ok env s'"
proof -
  have "gen_uuid env n \<notin> gen_uuid env ` {uuid_ctr s ..< uuid_ctr s'}" if "uuid_ctr s' \<le> n" for n
    using assms(1) that by (auto simp: env_ok_def inj_eq)
  moreover have "gen_uuid env n \<notin> row_ids s" if "uuid_ctr s' \<le> n" for n
    using assms(2,4) that by (simp add: fresh_ok_def)
  ultimately show ?thesis using assms(3) unfolding fresh_ok_def by blast
qed

lemma order_created_ok:
  assumes e: "env_ok env" and ok: "market_ok env s" and c: "order_created env now u pid q ord s s'"
  shows "market_ok env s'"
proof -
  obtain p n where p: "t_find p_id pid (products s) = Some p" "0 < q" "0 < p_price p * q" "p_price p * q \<le> POSTGRES_BIGINT_MAX"
    and us: "\<exists>x\<in>set (users s). u_id x = p_seller p" "\<exists>x\<in>set (users s). u_id x = u"
    and ord: "ord = newOrder now (gen_uuid env n) u p q (p_price p * q)" and n: "uuid_ctr s \<le> n" "n < uuid_ctr s'"
    and side: "side_step (orders_update (\<lambda>os. os @ [ord]) s) s'"
    using c unfolding order_created_def by blast
  note F = side_step_fields [OF side, simplified]
  have parts: "money_ok s" "rows_ok s" "keys_ok s" "fresh_ok env s" "escrow_covered s" using ok by (simp_all add: market_ok_def)
  have sm: "same_money s s'" using F by (simp add: same_money_def)
  have ne: "p_seller p \<noteq> []" "u \<noteq> []" using us parts(1) by (auto simp: money_ok_def users_ok_def list_all_iff)
  have o: "o_id ord = gen_uuid env n" "o_status ord = Pending" by (simp_all add: ord newOrder_def)
  have "length (p_currency p) = 3" using parts(2) t_find_Some [OF p(1)] by (auto simp: rows_ok_def)
  then have v: "order_valid ord"
    using p ne by (simp add: ord newOrder_def order_valid_def in_bigint_range_def POSTGRES_BIGINT_MIN_def)
  have "o_id ord \<notin> row_ids s" using parts(4) n by (auto simp: fresh_ok_def o)
  then have "rows_ok s'" using parts(2) v F by (auto simp: rows_ok_def row_ids_def)
  moreover have "keys_ok s'"
    using parts(3) F same_money_views(4) [OF sm] by (simp add: keys_ok_def t_find_append) fastforce
  moreover have "fresh_ok env s'"
    using n F(14) by (intro fresh_append [OF e parts(4)]) (auto simp: row_ids_def F o)
  moreover have "escrow_covered s'"
    using parts(5) F same_money_views(3) [OF sm] o(2) by (simp add: escrow_covered_def held_for_def holding_def)
  moreover have "money_ok s'" using parts(1) money_ok_same [OF sm] by simp
  ultimately show ?thesis by (simp add: market_ok_def)
qed

lemma createWalletTopup_ok:
  assumes e: "env_ok env" and ok: "market_ok env s" and c: "length cur = 3" and run: "createWalletTopup env u a cur s = (r, s')"
  shows "market_ok env s'"
proof (cases r)
  case (Inl err)
  with run have "s' = s" by (auto simp: createWalletTopup_def tx_errs tx_simps Let_def gen_random_uuid_def)
  with ok show ?thesis by simp
next
  case (Inr row)
  with run obtain us where us: "t_find u_id u (users s) = Some us"
    and row: "tp_id row = gen_uuid env (uuid_ctr s)" "tp_user row = u" "tp_currency row = cur" "tp_status row = TPending"
    and s': "s' = s\<lparr>uuid_ctr := Suc (uuid_ctr s), wallet_topups := wallet_topups s @ [row]\<rparr>"
    by (auto simp: createWalletTopup_def tx_simps Let_def)
  have parts: "money_ok s" "rows_ok s" "keys_ok s" "fresh_ok env s" "escrow_covered s" using ok by (simp_all add: market_ok_def)
  have sm: "same_money s s'" by (simp add: same_money_def s')
  have u: "u \<noteq> []" using parts(1) t_find_Some [OF us] by (auto simp: money_ok_def users_ok_def list_all_iff)
  have "tp_id row \<notin> row_ids s" using parts(4) by (simp add: fresh_ok_def row(1))
  then have "rows_ok s'" using parts(2) u c row by (auto simp: rows_ok_def row_ids_def s' payee_ok_def)
  moreover have "keys_ok s'"
    using parts(3) same_money_views(4) [OF sm] by (simp add: keys_ok_def t_find_append s') fastforce
  moreover have "fresh_ok env s'"
    by (intro fresh_append [OF e parts(4)]) (auto simp: row_ids_def s' row(1))
  moreover have "escrow_covered s'" "money_ok s'"
    using parts(1,5) same_money_views(3) [OF sm] money_ok_same [OF sm] by (simp_all add: escrow_covered_def s')
  ultimately show ?thesis by (simp add: market_ok_def)
qed

section \<open>Wallet transactions\<close>

lemma wallet_step_ok:
  assumes ok: "market_ok env s" and m: "money_step k (acct_delta (Payable u c) v) s s'" and fr: "wallet_frame s s'"
    and new: "k \<notin> ledger_keys s" and rows: "rows_ok s'" "keys_ok s'" "fresh_ok env s'"
  shows "market_ok env s'"
proof -
  have "escrow_covered s'"
    using ok m fr by (simp add: market_ok_def escrow_covered_def money_step_def acct_delta_def wallet_frame_def)
  with ok rows money_ok_step [OF m new] show ?thesis by (simp add: market_ok_def)
qed

lemma creditTopup_ok:
  assumes ok: "market_ok env s" and tp: "t_find tp_id i (wallet_topups s) = Some tp" "tp_status tp = TPending"
    and run: "creditTopup env now prov ref tp s = (Inr res, s')"
  shows "market_ok env s'"
proof -
  have parts: "rows_ok s" "keys_ok s" "fresh_ok env s" using ok by (simp_all add: market_ok_def)
  have i: "tp_id tp = i" "tp \<in> set (wallet_topups s)" using t_find_Some [OF tp(1)] by simp_all
  then have v: "tp_user tp \<noteq> []" "length (tp_currency tp) = 3" using parts(1) by (auto simp: rows_ok_def payee_ok_def)
  note C = creditTopup_Inr [OF run v, unfolded i]
  let ?f = "completedTopup now prov ref"
  have upd: "map tp_id (t_upd tp_id i ?f ts) = map tp_id ts" for ts by (rule map_t_upd) simp
  have find: "t_find tp_id j (wallet_topups s') = (if j = i then Some (?f tp) else t_find tp_id j (wallet_topups s))" for j
    using tp(1) by (simp add: C(4) t_find_upd)
  have keys: "ledger_keys s' = insert (topup_key i) (ledger_keys s)" using C(1) by (simp add: money_step_def)
  have "rows_ok s'"
    using parts(1) C(2,3) upd by (auto simp: rows_ok_def wallet_frame_def C(4)) (auto simp: t_upd_def payee_ok_def)
  moreover have "keys_ok s'"
    using parts(2) C(2,3) unfolding keys_ok_def keys find wallet_frame_def by (auto simp: keys_apart)
  moreover have "fresh_ok env s'"
    using parts(3) C(1-3) arg_cong [OF upd [of "wallet_topups s"], of set]
    by (auto simp: fresh_ok_def row_ids_def wallet_frame_def C(4) money_step_def)
  moreover have "topup_key i \<notin> ledger_keys s" using parts(2) tp by (auto simp: keys_ok_def)
  ultimately show ?thesis by (intro wallet_step_ok [OF ok C(1,2)])
qed

lemma ensureWallet_user:
  "ensureWallet u c s = (Inr wid, s') \<Longrightarrow> money_ok s \<Longrightarrow> u \<noteq> []"
  by (auto simp: ensureWallet_def money_ok_def users_ok_def wallets_ok_def wallet_ok_def wallet_key_def list_all_iff
      split: option.splits dest!: t_find_Some)

lemma withdrawalTx_ok:
  assumes e: "env_ok env" and ok: "market_ok env s" and c: "length c = 3"
    and run: "withdrawalTx env u amt c dest s = (Inr row, s')"
  shows "market_ok env s'"
proof -
  have parts: "money_ok s" "rows_ok s" "keys_ok s" "fresh_ok env s" using ok by (simp_all add: market_ok_def)
  from run obtain wid s1 where "ensureWallet u c s = (Inr wid, s1)" by (auto simp: withdrawalTx_def tx_simps)
  then have u: "u \<noteq> []" using ensureWallet_user parts(1) by blast
  note W = withdrawalTx_Inr [OF run u c]
  have ids: "po_transaction row \<notin> row_ids s" "po_id row \<notin> row_ids s"
    using parts(4) by (auto simp: fresh_ok_def W(5,6))
  have keys: "ledger_keys s' = insert (withdrawal_key (po_transaction row)) (ledger_keys s)"
    using W(1) by (simp add: money_step_def)
  have "withdrawal_key (po_transaction row) \<notin> ledger_keys s"
    using parts(3) ids(1) by (auto simp: keys_ok_def row_ids_def)
  moreover have "rows_ok s'"
    using parts(2) ids u c W(2-4,7,9) by (auto simp: rows_ok_def wallet_frame_def row_ids_def payee_ok_def)
  moreover have "keys_ok s'"
    using parts(3) W(2-4) unfolding keys_ok_def keys wallet_frame_def by (auto simp: keys_apart)
  moreover have "fresh_ok env s'"
    using W(2-6,12) by (intro fresh_append [OF e parts(4)]) (auto simp: row_ids_def wallet_frame_def)
  ultimately show ?thesis by (intro wallet_step_ok [OF ok W(1,2)])
qed

lemma payouts_update_ok:
  assumes f: "\<And>p. po_id (f p) = po_id p" "\<And>p. po_transaction (f p) = po_transaction p" "\<And>p. po_user (f p) = po_user p"
      "\<And>p. po_currency (f p) = po_currency p" "\<And>p. po_status (f p) \<noteq> POPending"
    and p: "payouts s' = t_upd po_id i f (payouts s)"
  shows "map po_id (payouts s') = map po_id (payouts s)" "map po_transaction (payouts s') = map po_transaction (payouts s)"
    and "\<forall>p\<in>set (payouts s). payee_ok (po_user p) (po_currency p) \<Longrightarrow> \<forall>p\<in>set (payouts s'). payee_ok (po_user p) (po_currency p)"
    and "p0 \<in> set (payouts s) \<Longrightarrow> po_status p0 \<noteq> POPending \<Longrightarrow>
      \<exists>p\<in>set (payouts s'). po_transaction p = po_transaction p0 \<and> po_status p \<noteq> POPending"
proof -
  show "map po_id (payouts s') = map po_id (payouts s)" "map po_transaction (payouts s') = map po_transaction (payouts s)"
    unfolding p by (rule map_t_upd, simp add: f)+
  show "\<forall>p\<in>set (payouts s). payee_ok (po_user p) (po_currency p) \<Longrightarrow> \<forall>p\<in>set (payouts s'). payee_ok (po_user p) (po_currency p)"
    by (auto simp: p t_upd_def f)
  show "p0 \<in> set (payouts s) \<Longrightarrow> po_status p0 \<noteq> POPending \<Longrightarrow>
      \<exists>p\<in>set (payouts s'). po_transaction p = po_transaction p0 \<and> po_status p \<noteq> POPending"
    unfolding p t_upd_def set_map
    by (rule bexI [of _ "if po_id p0 = i then f p0 else p0"]) (auto simp: f)
qed

lemma rejectPayoutTx_ok:
  assumes ok: "market_ok env s" and run: "rejectPayoutTx env now i adm reason s = (Inr res, s')"
  shows "market_ok env s'"
proof -
  have parts: "rows_ok s" "keys_ok s" "fresh_ok env s" using ok by (simp_all add: market_ok_def)
  have v: "po_user po \<noteq> [] \<and> length (po_currency po) = 3" if "t_find po_id i (payouts s) = Some po" for po
    using parts(1) t_find_Some [OF that] by (auto simp: rows_ok_def payee_ok_def)
  show ?thesis
  proof (rule rejectPayoutTx_Inr [OF run v], assumption, goal_cases)
    case (1 po)
    let ?f = "rejectedPayout now adm reason"
    have po: "po \<in> set (payouts s)" "po_id po = i" using t_find_Some [OF 1(1)] by simp_all
    note P = payouts_update_ok [OF _ _ _ _ _ 1(7), simplified]
    have mem: "?f po \<in> set (payouts s')" using po by (auto simp: 1(7) t_upd_def)
    have keys: "ledger_keys s' = insert (reversal_key (po_transaction po)) (ledger_keys s)"
      using 1(4) by (simp add: money_step_def)
    have "reversal_key (po_transaction po) \<notin> ledger_keys s"
    proof
      assume "reversal_key (po_transaction po) \<in> ledger_keys s"
      then obtain p where "p \<in> set (payouts s)" "po_transaction p = po_transaction po" "po_status p \<noteq> POPending"
        using parts(2) by (auto simp: keys_ok_def)
      moreover have "inj_on po_transaction (set (payouts s))" using parts(1) by (simp add: rows_ok_def distinct_map)
      ultimately show False using po 1(2) by (auto dest: inj_onD)
    qed
    moreover have "rows_ok s'" using parts(1) 1(5,6) P(1-3) by (simp add: rows_ok_def wallet_frame_def)
    moreover have "keys_ok s'"
    proof -
      have tx: "po_transaction ` set (payouts s') = po_transaction ` set (payouts s)" using arg_cong [OF P(2), of set] by simp
      have "\<exists>p\<in>set (payouts s'). po_transaction p = j \<and> po_status p \<noteq> POPending"
        if "reversal_key j \<in> ledger_keys s \<or> j = po_transaction po" for j
        using that parts(2) P(4) bexI [OF _ mem] by (auto simp: keys_ok_def)
      then show ?thesis using parts(2) 1(5,6) tx unfolding keys_ok_def keys wallet_frame_def by (simp add: keys_apart)
    qed
    moreover have "fresh_ok env s'"
      using parts(3) 1(4-6) arg_cong [OF P(1), of set] arg_cong [OF P(2), of set]
      by (simp add: fresh_ok_def row_ids_def wallet_frame_def money_step_def)
    ultimately show ?case by (intro wallet_step_ok [OF ok 1(4,5)])
  qed
qed

text \<open>A payout marked paid, whatever its status was.\<close>

lemma payout_paid_ok:
  assumes ok: "market_ok env s"
  shows "market_ok env (payouts_update (t_upd po_id i (\<lambda>p. p\<lparr>po_status := POPaid, po_reference := r, po_processed_by := a,
    po_processed_at := t\<rparr>)) s)" (is "market_ok env ?s")
proof -
  have parts: "money_ok s" "rows_ok s" "keys_ok s" "fresh_ok env s" "escrow_covered s" using ok by (simp_all add: market_ok_def)
  have sm: "same_money s ?s" by (simp add: same_money_def)
  note V = same_money_views [OF sm]
  have P: "map po_id (payouts ?s) = map po_id (payouts s)" "map po_transaction (payouts ?s) = map po_transaction (payouts s)"
    "\<forall>p\<in>set (payouts s). payee_ok (po_user p) (po_currency p) \<Longrightarrow> \<forall>p\<in>set (payouts ?s). payee_ok (po_user p) (po_currency p)"
    "p0 \<in> set (payouts s) \<Longrightarrow> po_status p0 \<noteq> POPending \<Longrightarrow>
      \<exists>p\<in>set (payouts ?s). po_transaction p = po_transaction p0 \<and> po_status p \<noteq> POPending" for p0
    by (rule payouts_update_ok; simp)+
  have tx: "po_transaction ` set (payouts ?s) = po_transaction ` set (payouts s)" "po_id ` set (payouts ?s) = po_id ` set (payouts s)"
    using arg_cong [OF P(2), of set] arg_cong [OF P(1), of set] by simp_all
  have "rows_ok ?s" using parts(2) P(1-3) unfolding rows_ok_def by simp
  moreover have "keys_ok ?s"
  proof -
    have "\<exists>p\<in>set (payouts ?s). po_transaction p = j \<and> po_status p \<noteq> POPending" if r: "reversal_key j \<in> ledger_keys s" for j
    proof -
      obtain p0 where "p0 \<in> set (payouts s)" "po_transaction p0 = j" "po_status p0 \<noteq> POPending"
        using r parts(3) unfolding keys_ok_def by blast
      with P(4) show ?thesis by blast
    qed
    moreover have "j \<in> po_transaction ` set (payouts ?s)" if "withdrawal_key j \<in> ledger_keys s" for j
      using that parts(3) unfolding tx(1) keys_ok_def by blast
    ultimately show ?thesis using parts(3) unfolding keys_ok_def V(4) by simp
  qed
  moreover have "fresh_ok env ?s" using parts(4) unfolding fresh_ok_def row_ids_def tx by simp
  moreover have "escrow_covered ?s" "money_ok ?s" using parts(1,5) V(3) money_ok_same [OF sm] by (simp_all add: escrow_covered_def)
  ultimately show ?thesis by (simp add: market_ok_def)
qed

section \<open>Kept by whole operations\<close>

text \<open>
  Outside a transaction an operation may fail after it committed, so the invariant is kept whether an operation returns or
  throws; inside a transaction only a returning callback commits.
\<close>

definition ok_moves :: "env \<Rightarrow> db \<Rightarrow> db \<Rightarrow> bool" where
  "ok_moves env s s' \<longleftrightarrow> (market_ok env s \<longrightarrow> market_ok env s')"

interpretation market: frame "ok_moves env"
  by unfold_locales (auto simp: ok_moves_def)

abbreviation keeps_ok :: "env \<Rightarrow> 'a dbtx \<Rightarrow> bool" where
  "keeps_ok env \<equiv> frame.keeps (ok_moves env)"

lemma keeps_okI: "(\<And>s r s'. market_ok env s \<Longrightarrow> m s = (r, s') \<Longrightarrow> market_ok env s') \<Longrightarrow> keeps_ok env m"
  by (simp add: market.keeps_def ok_moves_def)

lemma keeps_okD: "keeps_ok env m \<Longrightarrow> market_ok env s \<Longrightarrow> m s = (r, s') \<Longrightarrow> market_ok env s'"
  using market.keepsD [of env m s r s'] by (simp add: ok_moves_def)

lemma keeps_ok_side: "side.keeps m \<Longrightarrow> keeps_ok env m"
  by (intro keeps_okI) (blast dest: side.keepsD market_ok_side)

lemma keeps_ok_tx:
  assumes "\<And>s x s'. market_ok env s \<Longrightarrow> fn s = (Inr x, s') \<Longrightarrow> market_ok env s'"
  shows "keeps_ok env (inTx fn)" "keeps_ok env (inSerializableTx n faults fn)"
proof -
  have run: "market_ok env s'"
    if "market_ok env s" "\<exists>t. fn (rollback s t) = (Inr x, s')" for s x s'
    using that assms market_ok_rollback by blast
  show "keeps_ok env (inTx fn)"
  proof (rule keeps_okI)
    fix s r s' assume "market_ok env s" "inTx fn s = (r, s')"
    then show "market_ok env s'"
      using run plain.run_ok [of fn s _ s'] plain.run_error [of fn s _ s'] by (cases r) (auto simp: market_ok_rollback)
  qed
  show "keeps_ok env (inSerializableTx n faults fn)"
  proof (rule keeps_okI)
    fix s r s' assume "market_ok env s" "inSerializableTx n faults fn s = (r, s')"
    then show "market_ok env s'"
      using run serial.run_ok [of n faults fn s _ s'] serial.run_error [of n faults fn s _ s']
      by (cases r) (auto simp: market_ok_rollback)
  qed
qed

end
