(* ===== verification/MarketRuns.thy ===== *)
theory MarketRuns
  imports Market
begin

text \<open>
  The marketplace as a transition system: every request handler, callback, sweep and job of the modelled services is a
  step, in any order and with any arguments, whether it returns or throws. Every reachable state satisfies the invariant
  of theory \<open>Market\<close>.
\<close>

section \<open>Rules\<close>

lemma keeps_ok_inTx: "keeps_ok env fn \<Longrightarrow> keeps_ok env (inTx fn)"
  by (rule keeps_ok_tx(1)) (rule keeps_okD)

lemma keeps_lift_bind: "(\<And>x. r = Inr x \<Longrightarrow> keeps_ok env (f x)) \<Longrightarrow> keeps_ok env (tx_bind (tx_lift r) f)"
  by (cases r) (auto intro!: keeps_okI dest: keeps_okD simp: tx_bind_def tx_lift_def)

lemma keeps_ok_uuid: "keeps_ok env (gen_random_uuid env')"
  by (rule keeps_ok_side [OF side_gen_random_uuid])

lemma keeps_ok_caches: "keeps_ok env (invalidateOrderParticipantReadCaches env' i b sl x y)"
  by (rule keeps_ok_side [OF side_caches(3)])

lemma keeps_ok_select: "keeps_ok env (selectOrderForUpdate i)" "keeps_ok env (selectResolutionForUpdate d)"
  unfolding selectOrderForUpdate_def selectResolutionForUpdate_def by (intro market.keeps_intros)+

lemmas ok_intros = market.keeps_intros keeps_ok_uuid keeps_ok_caches keeps_ok_select

section \<open>Escrow\<close>

lemma keeps_escrow:
  "keeps_ok env (lockEscrow env faults now i b p ext act)" "keeps_ok env (releaseEscrow env faults now i arg)"
  "keeps_ok env (refundEscrow env faults now i adm)"
  unfolding lockEscrow_def releaseEscrow_def refundEscrow_def
  by (intro ok_intros keeps_ok_tx(2); erule (1) lockEscrowTx_ok releaseEscrowTx_ok refundEscrowTx_ok)+

lemma keeps_confirmOrder: "keeps_ok env (confirmOrder env faults now u i)"
  unfolding confirmOrder_def by (intro ok_intros keeps_escrow)

lemma keeps_releaseEach: "keeps_ok env (releaseEach env faults now ids)"
  by (induction ids) (auto simp: releaseOne_def intro!: ok_intros keeps_escrow)

lemma keeps_sweeps:
  "keeps_ok env (runAutoReleaseSweep env faults now)" "keeps_ok env (processEscrowRelease env faults now i)"
  unfolding runAutoReleaseSweep_def processEscrowRelease_def by (intro ok_intros keeps_releaseEach)+

section \<open>Orders\<close>

lemma keeps_lifecycle:
  "keeps_ok env (startOrder env now u i)" "keeps_ok env (deliverOrder env now u i n)"
  "keeps_ok env (simulateTestPaymentFailure env now i b)"
  unfolding startOrder_def deliverOrder_def simulateTestPaymentFailure_def
  by (intro ok_intros keeps_ok_tx(1); erule (1) startOrderTx_ok deliverOrderTx_ok failTestPaymentTx_ok)+

lemma keeps_runIdempotent:
  assumes "\<And>s x s'. market_ok env s \<Longrightarrow> execute s = (Inr x, s') \<Longrightarrow> market_ok env s'"
  shows "keeps_ok env (runIdempotentTransaction env' now k hash ttl execute)"
proof (rule keeps_okI)
  fix s r s' assume ok: "market_ok env s" and run: "runIdempotentTransaction env' now k hash ttl execute s = (r, s')"
  show "market_ok env s'"
  proof (cases r)
    case (Inl e)
    with run obtain t where "s' = rollback s t" unfolding runIdempotentTransaction_def by (auto dest: plain.run_error)
    with ok show ?thesis by (simp add: market_ok_rollback)
  next
    case (Inr res)
    from run [unfolded Inr] show ?thesis
    proof (cases rule: run_idempotent_cases)
      case replay
      with ok show ?thesis using market_ok_side by blast
    next
      case (executed s1 ex s2)
      with ok assms show ?thesis by (meson market_ok_side)
    qed
  qed
qed

lemma keeps_createOrder:
  assumes e: "env_ok env"
  shows "keeps_ok env (createOrder env isot sha now u key pid q)"
proof -
  have "market_ok env s'" if "market_ok env s" "createOrderTx env isot now u pid qty s = (Inr x, s')" for s x s' qty
    using that(2) by (rule createOrderTx_Inr) (rule order_created_ok [OF e that(1)])
  then show ?thesis unfolding createOrder_def by (intro ok_intros keeps_runIdempotent)
qed

lemma keeps_review: "keeps_ok env (reviewOrder env' now u i rating c)"
proof -
  have "side_step s (reviews_update f s)" for s f by (simp add: side_step_def side_core_def)
  then have "side.keeps (insertReview env' now u i ord rating c)" for ord
    unfolding insertReview_def Let_def by (intro side_intros)
  then show ?thesis unfolding reviewOrder_def by (intro ok_intros keeps_ok_inTx keeps_ok_side [of "insertReview env' now u i ord rating c" for ord])
qed

section \<open>Payments\<close>

lemma keeps_topup: "keeps_ok env (completeWalletTopup env faults now i prov ref)"
proof -
  have "market_ok env s'" if ok: "market_ok env s"
    and run: "tx_bind (tx_gets (\<lambda>s. t_find tp_id i (wallet_topups s))) (\<lambda>row.
        tx_bind (tx_some row (notFound ''Wallet topup not found'')) (\<lambda>topup.
        if tp_status topup \<noteq> TPending then tx_return topup else creditTopup env now prov ref topup)) s = (Inr x, s')" for s x s'
    using run ok by (auto simp: tx_simps split: if_splits intro: creditTopup_ok)
  then show ?thesis unfolding completeWalletTopup_def by (intro keeps_ok_tx(2))
qed

lemma keeps_settle: "keeps_ok env (settleConfirmed env faults now p subj ref)"
  unfolding settleConfirmed_def persistConfirmedWebhookOutcome_def by (intro ok_intros keeps_escrow keeps_topup)

lemma keeps_callbacks:
  "keeps_ok env (liqpayCallback sha1 decode cfg env faults now body)"
  "keeps_ok env (monobankCallback fetch cfg env faults now mbody)"
  "keeps_ok env (wayforpayCallback wfetch cfg env faults now wbody)"
proof -
  show "keeps_ok env (liqpayCallback sha1 decode cfg env faults now body)"
    unfolding liqpayCallback_def
    by (cases body) (auto intro!: ok_intros keeps_settle)
  show "keeps_ok env (monobankCallback fetch cfg env faults now mbody)"
    unfolding monobankCallback_def by (intro ok_intros keeps_settle)
  show "keeps_ok env (wayforpayCallback wfetch cfg env faults now wbody)"
    unfolding wayforpayCallback_def by (intro ok_intros keeps_settle)
qed

lemma keeps_payments:
  "keeps_ok env (payRoute env faults now u i p)" "keeps_ok env (confirmPayment env faults now adm i ref)"
  "keeps_ok env (testSuccessRoute cfg env faults now u i)" "keeps_ok env (testFailureRoute cfg env now u i)"
  unfolding payRoute_def confirmPayment_def testSuccessRoute_def testFailureRoute_def simulateTestPaymentSuccess_def
    assertTestPaymentsEnabled_def loadOwnOrder_def
  by (intro ok_intros keeps_escrow keeps_lifecycle)+

lemma keeps_createTopup: "env_ok env \<Longrightarrow> length c = 3 \<Longrightarrow> keeps_ok env (createWalletTopup env u a c)"
  by (intro keeps_okI) (rule createWalletTopup_ok)

lemma keeps_checkouts:
  assumes "env_ok env"
  shows "keeps_ok env (liqpayTopupCheckout sha1 base64 cfg env u amt desc)" "keeps_ok env (monobankTopupCheckout cfg env u amt)"
  unfolding liqpayTopupCheckout_def monobankTopupCheckout_def by (intro ok_intros keeps_createTopup assms; simp)+

section \<open>Withdrawals and payouts\<close>

lemma keeps_withdraw:
  assumes e: "env_ok env"
  shows "keeps_ok env (withdrawRoute env faults u amt c dest)"
proof -
  have req: "keeps_ok env (requestWithdrawal env faults u a cur dest)" if "length cur = 3" for a cur
    unfolding requestWithdrawal_def
    by (intro ok_intros keeps_ok_tx(2) keeps_ok_side [OF side_createNotification] keeps_ok_side [OF side_notifyAdmins])
      (erule (1) withdrawalTx_ok [OF e _ that])
  have len: "withdrawSchema c dest = Inr cur \<Longrightarrow> length (toUpperCase cur) = 3" for cur
    by (auto simp: withdrawSchema_def Let_def split: if_splits)
  show ?thesis unfolding withdrawRoute_def
    by (rule keeps_lift_bind) (intro ok_intros req len)
qed

lemma keeps_payouts:
  "keeps_ok env (rejectPayout env faults now i adm reason)" "keeps_ok env (completePayoutCheck i ref)"
  "keeps_ok env (completePayoutWrite env now i adm ref)"
proof -
  show "keeps_ok env (rejectPayout env faults now i adm reason)" unfolding rejectPayout_def
    by (intro ok_intros keeps_ok_tx(2) keeps_ok_side [OF side_createNotification]) (erule (1) rejectPayoutTx_ok)
  show "keeps_ok env (completePayoutCheck i ref)" unfolding completePayoutCheck_def by (intro ok_intros)
  show "keeps_ok env (completePayoutWrite env now i adm ref)" unfolding completePayoutWrite_def Let_def
    by (intro ok_intros keeps_ok_side [OF side_createNotification]) (simp add: ok_moves_def payout_paid_ok)
qed

lemma keeps_adjustment: "keeps_ok env (postManualAdjustment env faults u amt c reason adm)"
proof -
  have "manualAdjustmentTx env u a m c reason adm s \<noteq> (Inr x, s')" for a m s x s'
    by (auto simp: manualAdjustmentTx_def tx_simps TRANSACTION_TYPES_def)
  then show ?thesis unfolding postManualAdjustment_def by (intro ok_intros keeps_ok_tx(2)) blast
qed

section \<open>Disputes\<close>

lemma keeps_updateDispute: "keeps_ok env (updateDispute i f)"
  unfolding updateDispute_def by (intro ok_intros) (simp add: ok_moves_def market_ok_disputes)

lemma keeps_claim: "keeps_ok env (claimResolution env' now d dec adm nt opn st)"
proof -
  have "keeps_ok env (claimByStatus env' now d dec adm nt st x y)" for x y
    unfolding claimByStatus_def claimWith_def
    by (cases "d_status x") (auto intro!: ok_intros keeps_updateDispute)
  then show ?thesis unfolding claimResolution_def by (intro keeps_ok_inTx ok_intros)
qed

lemma keeps_finalize: "keeps_ok env (finalizeIfApplied env' now d dec opn)"
proof -
  have "keeps_ok env (finalizeTx env' now d dec opn)"
    unfolding finalizeTx_def finalizeRow_def
    by (intro ok_intros keeps_updateDispute keeps_ok_side [OF side_resolutionRecords])
  moreover have "keeps_ok env (evictFinalized env' x)" for x
    unfolding evictFinalized_def by (cases x) (auto intro!: ok_intros)
  ultimately show ?thesis unfolding finalizeIfApplied_def by (intro ok_intros keeps_ok_inTx)
qed

lemma keeps_finish:
  "keeps_ok env (finishResolution env' now d dec opn ord ex)" "keeps_ok env (escrowFailed env' now d dec opn e)"
proof -
  have m: "keeps_ok env (markResolutionFailed env' d opn e)" for e
    unfolding markResolutionFailed_def by (rule keeps_updateDispute)
  show "keeps_ok env (finishResolution env' now d dec opn ord ex)" unfolding finishResolution_def Let_def
    by (rule market.keeps_bind [OF keeps_finalize]) (auto intro!: ok_intros m split: option.split)
  show "keeps_ok env (escrowFailed env' now d dec opn e)" unfolding escrowFailed_def
    by (rule market.keeps_bind [OF keeps_finalize]) (auto intro!: ok_intros m split: option.split)
qed

lemma keeps_resolve: "keeps_ok env (resolveDisputeResolution env faults now d dec adm nt opn st)"
proof -
  have esc: "keeps_ok env (runEscrow env faults now dec i a)" for i a
    unfolding runEscrow_def by (cases dec) (simp_all add: keeps_escrow)
  have "keeps_ok env (\<lambda>s. case runEscrow env faults now dec i a s of
       (Inr order, s') \<Rightarrow> finishResolution env now d dec op' (Some order) True s'
     | (Inl e, s') \<Rightarrow> escrowFailed env now d dec op' e s')" for i a op'
  proof (rule keeps_okI)
    fix s r s' assume ok: "market_ok env s" and run: "(case runEscrow env faults now dec i a s of
       (Inr order, s') \<Rightarrow> finishResolution env now d dec op' (Some order) True s'
     | (Inl e, s') \<Rightarrow> escrowFailed env now d dec op' e s') = (r, s')"
    obtain x t where x: "runEscrow env faults now dec i a s = (x, t)" by fastforce
    have "market_ok env t" by (rule keeps_okD [OF esc ok x])
    with run x show "market_ok env s'" by (cases x) (auto dest: keeps_okD [OF keeps_finish(1)] keeps_okD [OF keeps_finish(2)])
  qed
  then show ?thesis unfolding resolveDisputeResolution_def Let_def
    by (intro ok_intros keeps_claim keeps_finish)
qed

lemma keeps_recover: "keeps_ok env (recoverStaleDisputeResolutions env faults now d)"
proof -
  have one: "keeps_ok env (recoverOne env faults now i)" for i
    by (rule keeps_okI)
      (auto simp: recoverOne_def split: option.splits if_splits list.splits prod.splits sum.splits dest: keeps_okD [OF keeps_resolve])
  have "keeps_ok env (recoverEach env faults now ids)" for ids
    by (induction ids) (auto intro!: ok_intros one)
  then show ?thesis unfolding recoverStaleDisputeResolutions_def by (intro ok_intros)
qed

lemma keeps_openDispute: "keeps_ok env (openDispute env now u i reason)"
  unfolding openDispute_def by (intro ok_intros keeps_ok_tx(1)) (erule (1) openDisputeTx_ok)

section \<open>The transition system\<close>

text \<open>
  The steps of the marketplace. The first group are the requests, callbacks and jobs; \<open>records\<close> covers whatever only
  touches chat, notifications, the outbox, snapshots and the caches, \<open>listings\<close> the sellers' product edits and
  \<open>accounts\<close> registration and bans. \<open>payout_check\<close> and \<open>payout_write\<close> are apart, as other requests may come between.
\<close>

inductive market_step :: "env \<Rightarrow> db \<Rightarrow> db \<Rightarrow> bool" for env where
  create: "createOrder env isot sha now u key pid q s = (r1, s') \<Longrightarrow> market_step env s s'"
| pay: "payRoute env faults now u i p s = (r2, s') \<Longrightarrow> market_step env s s'"
| liqpay: "liqpayCallback sha decode cfg env faults now body s = (r3, s') \<Longrightarrow> market_step env s s'"
| monobank: "monobankCallback fetch cfg env faults now body' s = (r4, s') \<Longrightarrow> market_step env s s'"
| wayforpay: "wayforpayCallback wfetch cfg env faults now body' s = (r5, s') \<Longrightarrow> market_step env s s'"
| manual: "confirmPayment env faults now adm i ref s = (r6, s') \<Longrightarrow> market_step env s s'"
| test_success: "testSuccessRoute cfg env faults now u i s = (r7, s') \<Longrightarrow> market_step env s s'"
| test_failure: "testFailureRoute cfg env now u i s = (r8, s') \<Longrightarrow> market_step env s s'"
| start: "startOrder env now u i s = (r9, s') \<Longrightarrow> market_step env s s'"
| deliver: "deliverOrder env now u i nt s = (r10, s') \<Longrightarrow> market_step env s s'"
| confirm: "confirmOrder env faults now u i s = (r11, s') \<Longrightarrow> market_step env s s'"
| review: "reviewOrder env now u i rating c s = (r12, s') \<Longrightarrow> market_step env s s'"
| sweep: "runAutoReleaseSweep env sfaults now s = (r13, s') \<Longrightarrow> market_step env s s'"
| release_job: "processEscrowRelease env sfaults now oi s = (r14, s') \<Longrightarrow> market_step env s s'"
| open_dispute: "openDispute env now u i reason s = (r15, s') \<Longrightarrow> market_step env s s'"
| resolve: "resolveDisputeResolution env faults now d dec adm nt opn st s = (r16, s') \<Longrightarrow> market_step env s s'"
| recover: "recoverStaleDisputeResolutions env faults now od s = (r17, s') \<Longrightarrow> market_step env s s'"
| liqpay_topup: "liqpayTopupCheckout sha base64 cfg env u amt desc s = (r18, s') \<Longrightarrow> market_step env s s'"
| monobank_topup: "monobankTopupCheckout cfg env u amt s = (r19, s') \<Longrightarrow> market_step env s s'"
| withdraw: "withdrawRoute env faults u amt oc dest s = (r20, s') \<Longrightarrow> market_step env s s'"
| reject: "rejectPayout env faults now i adm reason s = (r21, s') \<Longrightarrow> market_step env s s'"
| payout_check: "completePayoutCheck i ref' s = (r22, s') \<Longrightarrow> market_step env s s'"
| payout_write: "completePayoutWrite env now i adm ref' s = (r23, s') \<Longrightarrow> market_step env s s'"
| adjust: "postManualAdjustment env faults u a c' reason adm s = (r24, s') \<Longrightarrow> market_step env s s'"
| reconcile: "processReconciliationDaily env s = (r25, s') \<Longrightarrow> market_step env s s'"
| records: "side_step s s' \<Longrightarrow> market_step env s s'"
| listings: "\<forall>p\<in>set ps. length (p_currency p) = 3 \<Longrightarrow> market_step env s (s\<lparr>products := ps\<rparr>)"
| accounts: "\<forall>x\<in>set us. u_id x \<noteq> [] \<Longrightarrow> market_step env s (s\<lparr>users := us\<rparr>)"

text \<open>A new installation: no orders and no money, empty platform wallets.\<close>

definition market_init :: "db \<Rightarrow> bool" where
  "market_init s \<longleftrightarrow> orders s = [] \<and> wallets s = [] \<and> ledger_accounts s = [] \<and> ledger_entries s = [] \<and> ledger_lines s = [] \<and>
     wallet_topups s = [] \<and> payouts s = [] \<and> (\<forall>x\<in>set (users s). u_id x \<noteq> []) \<and>
     (\<forall>p\<in>set (products s). length (p_currency p) = 3) \<and>
     distinct (map pw_currency (platform_wallets s)) \<and>
     (\<forall>p\<in>set (platform_wallets s). length (pw_currency p) = 3 \<and> pw_revenue p = 0)"

lemma market_init_ok: "market_init s \<Longrightarrow> market_ok env s"
proof -
  assume i: "market_init s"
  have "wallet_money s a = 0" for a
  proof (cases a)
    case (Fees c)
    then show ?thesis
      using i by (auto simp: market_init_def wallet_money_def split: option.split dest: t_find_Some)
  qed (use i in \<open>simp_all add: market_init_def wallet_money_def\<close>)
  moreover have "ledger_money (ledger_lines s) a = 0" for a
    using i by (simp add: market_init_def ledger_money_def account_balance_def)
  ultimately show ?thesis
    using i by (simp add: market_ok_def money_ok_def rows_ok_def keys_ok_def fresh_ok_def row_ids_def escrow_covered_def
        users_ok_def wallets_ok_def ledger_balanced_def accounts_ok_def books_agree_def ledger_keys_def market_init_def list_all_iff currency_sum_def)
qed

lemma market_ok_users:
  assumes "market_ok env s" "\<forall>x\<in>set us. u_id x \<noteq> []"
  shows "market_ok env (s\<lparr>users := us\<rparr>)" (is "market_ok env ?s")
proof -
  have "wallets_ok ?s = wallets_ok s" "ledger_balanced ?s = ledger_balanced s" "accounts_ok ?s = accounts_ok s"
    "books_agree ?s = books_agree s" "rows_ok ?s = rows_ok s" "keys_ok ?s = keys_ok s" "fresh_ok env ?s = fresh_ok env s"
    "escrow_covered ?s = escrow_covered s"
    by (simp_all add: wallets_ok_def ledger_balanced_def accounts_ok_def books_agree_def rows_ok_def keys_ok_def fresh_ok_def
        row_ids_def escrow_covered_def ledger_keys_def wallet_money_def)
  with assms show ?thesis by (simp add: market_ok_def money_ok_def users_ok_def list_all_iff)
qed

lemma market_ok_listings: "market_ok env s \<Longrightarrow> \<forall>p\<in>set ps. length (p_currency p) = 3 \<Longrightarrow> market_ok env (s\<lparr>products := ps\<rparr>)"
  by (rule market_ok_frame [of env s]) (simp_all add: same_money_def)

lemma market_step_ok:
  assumes e: "env_ok env" and ok: "market_ok env s" and st: "market_step env s s'"
  shows "market_ok env s'"
  using st
proof cases
  case create then show ?thesis using keeps_okD [OF keeps_createOrder [OF e] ok] by blast
next
  case pay then show ?thesis using keeps_okD [OF keeps_payments(1) ok] by blast
next
  case liqpay then show ?thesis using keeps_okD [OF keeps_callbacks(1) ok] by blast
next
  case monobank then show ?thesis using keeps_okD [OF keeps_callbacks(2) ok] by blast
next
  case wayforpay then show ?thesis using keeps_okD [OF keeps_callbacks(3) ok] by blast
next
  case manual then show ?thesis using keeps_okD [OF keeps_payments(2) ok] by blast
next
  case test_success then show ?thesis using keeps_okD [OF keeps_payments(3) ok] by blast
next
  case test_failure then show ?thesis using keeps_okD [OF keeps_payments(4) ok] by blast
next
  case start then show ?thesis using keeps_okD [OF keeps_lifecycle(1) ok] by blast
next
  case deliver then show ?thesis using keeps_okD [OF keeps_lifecycle(2) ok] by blast
next
  case confirm then show ?thesis using keeps_okD [OF keeps_confirmOrder ok] by blast
next
  case review then show ?thesis using keeps_okD [OF keeps_review ok] by blast
next
  case sweep then show ?thesis using keeps_okD [OF keeps_sweeps(1) ok] by blast
next
  case release_job then show ?thesis using keeps_okD [OF keeps_sweeps(2) ok] by blast
next
  case open_dispute then show ?thesis using keeps_okD [OF keeps_openDispute ok] by blast
next
  case resolve then show ?thesis using keeps_okD [OF keeps_resolve ok] by blast
next
  case recover then show ?thesis using keeps_okD [OF keeps_recover ok] by blast
next
  case liqpay_topup then show ?thesis using keeps_okD [OF keeps_checkouts(1) [OF e] ok] by blast
next
  case monobank_topup then show ?thesis using keeps_okD [OF keeps_checkouts(2) [OF e] ok] by blast
next
  case withdraw then show ?thesis using keeps_okD [OF keeps_withdraw [OF e] ok] by blast
next
  case reject then show ?thesis using keeps_okD [OF keeps_payouts(1) ok] by blast
next
  case payout_check then show ?thesis using keeps_okD [OF keeps_payouts(2) ok] by blast
next
  case payout_write then show ?thesis using keeps_okD [OF keeps_payouts(3) ok] by blast
next
  case adjust then show ?thesis using keeps_okD [OF keeps_adjustment ok] by blast
next
  case reconcile then show ?thesis using keeps_okD [OF keeps_ok_side [OF side_snapshots(2)] ok] by blast
next
  case records then show ?thesis using market_ok_side ok by blast
next
  case listings then show ?thesis using market_ok_listings [OF ok] by simp
next
  case accounts then show ?thesis using market_ok_users [OF ok] by simp
qed

interpretation marketplace: transition_system market_init "market_step env" "\<lambda>s. env_ok env \<longrightarrow> market_ok env s"
  by unfold_locales (auto intro: market_init_ok market_step_ok)

lemma reachable_ok: "env_ok env \<Longrightarrow> market_init s \<Longrightarrow> (market_step env)\<^sup>*\<^sup>* s s' \<Longrightarrow> market_ok env s'"
  using marketplace.inv_reachable by blast

end
