(* ===== verification/Settlement.thy ===== *)
theory Settlement
  imports MarketRuns
begin

text \<open>
  A settled order stays settled. The frame \<open>kept\<close> says that an order in a terminal status (completed, refunded,
  canceled) keeps its row and that status; every step of the marketplace is in it, so no later capture, release or
  refund of the order can succeed.
\<close>

definition settled_kept :: "db \<Rightarrow> db \<Rightarrow> bool" where
  "settled_kept s s' \<longleftrightarrow> (\<forall>i r. t_find o_id i (orders s) = Some r \<longrightarrow> terminal (o_status r) \<longrightarrow>
     (\<exists>r'. t_find o_id i (orders s') = Some r' \<and> o_status r' = o_status r))"

interpretation kept: frame settled_kept
proof
  show "settled_kept s s" for s by (simp add: settled_kept_def)
  show "settled_kept s u" if "settled_kept s t" "settled_kept t u" for s t u
    using that unfolding settled_kept_def by metis
qed

lemma settled_kept_orders: "orders s' = orders s \<Longrightarrow> settled_kept s s'"
  by (simp add: settled_kept_def)

lemma kept_side: "side.keeps m \<Longrightarrow> kept.keeps m"
  unfolding side.keeps_def kept.keeps_def by (blast intro: settled_kept_orders side_step_fields(3))

lemma kept_table: "(\<And>s. orders (g s) = orders s) \<Longrightarrow> kept.keeps (tx_modify g)"
  by (rule kept.keeps_modify) (rule settled_kept_orders)

lemma kept_order_columns:
  assumes "\<And>r. o_id (f r) = o_id r" "\<And>r. o_status (f r) = o_status r"
  shows "kept.keeps (tx_modify (orders_update (t_upd o_id i f)))"
  by (rule kept.keeps_modify) (use assms in \<open>simp add: settled_kept_def t_find_upd\<close>)

lemma kept_order_insert: "kept.keeps (tx_modify (orders_update (\<lambda>os. os @ [r])))"
  by (rule kept.keeps_modify) (simp add: settled_kept_def t_find_append)

section \<open>The statements of the services\<close>

lemma kept_provider: "kept.keeps (getPaymentProvider env p i)"
  unfolding kept.keeps_def
proof (intro allI impI)
  fix s r s'
  assume "getPaymentProvider env p i s = (r, s')"
  then obtain cap where "s' = s\<lparr>captured := cap\<rparr>" using provider.capture_frame by blast
  then show "settled_kept s s'" by (simp add: settled_kept_orders)
qed

lemma kept_wallets:
  "kept.keeps (ensureWallet u c)" "kept.keeps (selectWallet wid)" "kept.keeps (updateWallet wid g)"
  "kept.keeps (insertTransaction env u oi ty dir a c st md)"
proof -
  show "kept.keeps (ensureWallet u c)"
    by (auto simp: kept.keeps_def ensureWallet_def intro: settled_kept_orders split: option.splits)
  show "kept.keeps (selectWallet wid)" "kept.keeps (updateWallet wid g)"
    "kept.keeps (insertTransaction env u oi ty dir a c st md)"
    unfolding selectWallet_def updateWallet_def insertTransaction_def
    by (intro kept.keeps_intros kept_table kept_side [OF side_gen_random_uuid]; simp)+
qed

lemma kept_post: "kept.keeps (postLedgerEntry e)"
proof -
  have "kept.keeps (postLines k c ls)" for k c ls
    by (induction ls) (auto simp: ensureLedgerAccount_def intro!: kept.keeps_intros kept_table)
  then show ?thesis
    unfolding postLedgerEntry_def Let_def by (intro kept.keeps_intros kept_table) simp
qed

lemma kept_ledger:
  "kept.keeps (recordPaymentCaptureLedger i sl a c p r)" "kept.keeps (recordEscrowReleaseLedger i sl a fee c adm)"
  "kept.keeps (recordRefundLedger i sl b a c adm)" "kept.keeps (recordWalletTopupLedger u a c p r t)"
  "kept.keeps (recordWalletWithdrawalLedger t u a c)" "kept.keeps (recordWalletWithdrawalReversalLedger t u a c)"
  "kept.keeps (recordManualAdjustmentLedger t u a c adm' rs)"
  unfolding recordPaymentCaptureLedger_def recordEscrowReleaseLedger_def recordRefundLedger_def recordWalletTopupLedger_def
    recordWalletWithdrawalLedger_def recordWalletWithdrawalReversalLedger_def recordManualAdjustmentLedger_def Let_def
  by (intro kept.keeps_intros kept_post)+

lemma kept_sides:
  "kept.keeps (gen_random_uuid env)" "kept.keeps (createOrderSystemMessage env i ty key ps md)"
  "kept.keeps (releaseMessage env i opts)" "kept.keeps (createNotification env input k)"
  "kept.keeps (notifyAdmins env input roles)" "kept.keeps (invalidateOrderParticipantReadCaches env i b sl x y)"
  "kept.keeps (orderRecords env now u ord)" "kept.keeps (resolutionRecords env now d ord dec opn)"
  "kept.keeps (cacheDel env ks)" "kept.keeps (processReconciliationDaily env)"
  by (rule kept_side, rule side_gen_random_uuid side_intros side_releaseMessage side_createNotification side_notifyAdmins
      side_caches side_orderRecords side_resolutionRecords side_snapshots)+

lemma kept_selects: "kept.keeps (selectOrderForUpdate i)" "kept.keeps (selectResolutionForUpdate d)"
  unfolding selectOrderForUpdate_def selectResolutionForUpdate_def by (intro kept.keeps_intros)+

lemma kept_updateDispute: "kept.keeps (updateDispute i f)"
  unfolding updateDispute_def by (rule kept_table) simp

lemmas kept_intros = kept.keeps_intros kept_sides kept_selects kept_wallets kept_ledger kept_provider kept_updateDispute

lemma kept_money:
  "kept.keeps (captureMoney env ord p ext)" "kept.keeps (releaseMoney env ord adm)" "kept.keeps (refundMoney env ord adm)"
  unfolding captureMoney_def releaseMoney_def refundMoney_def nextRevenue_def creditFee_def Let_def
  by (intro kept_intros kept_table; simp)+

section \<open>Transactions\<close>

text \<open>A callback commits only when it returns, so nothing is asked of it when it throws.\<close>

definition settles :: "'a dbtx \<Rightarrow> bool" where
  "settles m \<longleftrightarrow> (\<forall>s x s'. m s = (Inr x, s') \<longrightarrow> settled_kept s s')"

lemma settles_keeps: "kept.keeps m \<Longrightarrow> settles m"
  by (auto simp: settles_def dest: kept.keepsD)

lemma settles_bind: "settles m \<Longrightarrow> (\<And>x. settles (f x)) \<Longrightarrow> settles (tx_bind m f)"
  unfolding settles_def tx_bind_iff by (blast intro: kept.moves_trans)

lemma settles_first: "kept.keeps m \<Longrightarrow> (\<And>x. settles (f x)) \<Longrightarrow> settles (tx_bind m f)"
  by (rule settles_bind, rule settles_keeps)

lemma settles_cases:
  "(b \<Longrightarrow> settles m) \<Longrightarrow> (\<not> b \<Longrightarrow> settles n) \<Longrightarrow> settles (if b then m else n)"
  "(\<And>x y. settles (g x y)) \<Longrightarrow> settles (case p of (x, y) \<Rightarrow> g x y)"
  by (simp_all split: prod.split)

text \<open>A transition never starts from a terminal status.\<close>

lemma settles_transition: "settles (transitionOrder env now input)"
  unfolding settles_def
proof (intro allI impI)
  fix s res s'
  assume run: "transitionOrder env now input s = (Inr res, s')"
  then show "settled_kept s s'"
  proof (cases rule: transitionOrder_cases)
    case repeated
    then show ?thesis by (simp add: settled_kept_orders)
  next
    case (moved ord)
    have "\<not> terminal (o_status ord)" using moved(2) terminal_iff_stuck by (auto simp: order_moved_def)
    then show ?thesis
      using order_moved_find [OF moved(2,1)] moved(1) by (auto simp: settled_kept_def)
  qed
qed

lemma kept_tx:
  assumes "settles fn"
  shows "kept.keeps (inTx fn)" "kept.keeps (inSerializableTx n faults fn)"
proof -
  have run: "settled_kept s s'" if "fn (rollback s t) = (Inr x, s')" for s t x s'
    using assms that by (auto simp: settles_def settled_kept_def)
  have undone: "settled_kept s (rollback s t)" for s t by (simp add: settled_kept_orders)
  show "kept.keeps (inTx fn)" unfolding kept.keeps_def
  proof (intro allI impI)
    fix s r s' assume "inTx fn s = (r, s')"
    then show "settled_kept s s'"
      using plain.run_ok [of fn s _ s'] plain.run_error [of fn s _ s'] run undone by (cases r) blast+
  qed
  show "kept.keeps (inSerializableTx n faults fn)" unfolding kept.keeps_def
  proof (intro allI impI)
    fix s r s' assume "inSerializableTx n faults fn s = (r, s')"
    then show "settled_kept s s'"
      using serial.run_ok [of n faults fn s _ s'] serial.run_error [of n faults fn s _ s'] run undone by (cases r) blast+
  qed
qed

lemmas settles_rules = settles_transition settles_bind [OF settles_transition] settles_cases settles_first

lemma settles_escrow:
  "settles (lockEscrowTx env now i b p ext act)" "settles (releaseEscrowTx env now i opts)" "settles (refundEscrowTx env now i adm)"
  unfolding lockEscrowTx_def releaseEscrowTx_def refundEscrowTx_def Let_def
  by (rule settles_rules kept_order_columns kept_money kept_intros settles_keeps | simp)+

lemma settles_lifecycle:
  "settles (startOrderTx env now u i)" "settles (deliverOrderTx env now u i n)" "settles (failTestPaymentTx env now i b)"
  "settles (openDisputeTx env now u i reason)" "settles (createOrderTx env isot now u pid q)"
  unfolding startOrderTx_def deliverOrderTx_def failTestPaymentTx_def openDisputeTx_def createOrderTx_def insertOrder_def Let_def
  by (rule settles_rules kept_order_columns kept_order_insert kept_intros kept_table settles_keeps | simp)+

lemma settles_wallet:
  "settles (tx_bind (tx_gets (\<lambda>s. t_find tp_id i (wallet_topups s))) (\<lambda>row.
     tx_bind (tx_some row (notFound ''Wallet topup not found'')) (\<lambda>topup.
     if tp_status topup \<noteq> TPending then tx_return topup else creditTopup env now p ref topup)))"
  "settles (withdrawalTx env u a c dest)" "settles (manualAdjustmentTx env u a m c reason adm)"
  "settles (rejectPayoutTx env now pid adm why)"
  unfolding creditTopup_def withdrawalTx_def manualAdjustmentTx_def rejectPayoutTx_def Let_def
  by (intro settles_keeps kept_intros kept_table; simp)+

section \<open>Requests, callbacks and jobs\<close>

lemma kept_escrow:
  "kept.keeps (lockEscrow env faults now i b p ext act)" "kept.keeps (releaseEscrow env faults now i arg)"
  "kept.keeps (refundEscrow env faults now i adm)"
  unfolding lockEscrow_def releaseEscrow_def refundEscrow_def by (intro kept_intros kept_tx settles_escrow)+

lemma kept_releaseEach: "kept.keeps (releaseEach env faults now ids)"
  by (induction ids) (auto simp: releaseOne_def intro!: kept_intros kept_escrow)

lemma kept_orders:
  "kept.keeps (startOrder env now u i)" "kept.keeps (deliverOrder env now u i n)"
  "kept.keeps (confirmOrder env faults now u i)" "kept.keeps (simulateTestPaymentFailure env now i b)"
  "kept.keeps (runAutoReleaseSweep env sfaults now)" "kept.keeps (processEscrowRelease env sfaults now oi)"
  unfolding startOrder_def deliverOrder_def confirmOrder_def simulateTestPaymentFailure_def runAutoReleaseSweep_def processEscrowRelease_def
  by (intro kept_intros kept_tx settles_lifecycle kept_escrow kept_releaseEach)+

lemma kept_createOrder: "kept.keeps (createOrder env isot sha now u key pid q)"
proof -
  have "settles (runIdempotentTransaction env now k hash ttl (createOrderTx env isot now u pid n))" for k hash ttl n
    unfolding settles_def
  proof (intro allI impI)
    fix s x s'
    assume "runIdempotentTransaction env now k hash ttl (createOrderTx env isot now u pid n) s = (Inr x, s')"
    then show "settled_kept s s'"
    proof (cases rule: run_idempotent_cases)
      case replay
      then show ?thesis by (simp add: settled_kept_orders side_step_fields(3))
    next
      case (executed s1 ex s2)
      have "settled_kept s1 s2" using executed(2) settles_lifecycle(5) by (simp add: settles_def)
      then show ?thesis using executed(1,3) by (simp add: settled_kept_def side_step_fields(3))
    qed
  qed
  then have "kept.keeps (inTx (runIdempotentTransaction env now k hash ttl (createOrderTx env isot now u pid n)))" for k hash ttl n
    by (rule kept_tx)
  moreover have "inTx (runIdempotentTransaction env now k hash ttl ex) = runIdempotentTransaction env now k hash ttl ex" for k hash ttl ex
    by (rule ext) (auto simp: runIdempotentTransaction_def inTx_def split: prod.splits sum.splits)
  ultimately have "kept.keeps (runIdempotentTransaction env now k hash ttl (createOrderTx env isot now u pid n))" for k hash ttl n
    by simp
  then show ?thesis unfolding createOrder_def by (intro kept_intros)
qed

lemma kept_review: "kept.keeps (reviewOrder env now u i rating c)"
proof -
  have "side_step s (reviews_update f s)" for s f by (simp add: side_step_def side_core_def)
  then have "side.keeps (insertReview env now u i ord rating c)" for ord
    unfolding insertReview_def Let_def by (intro side_intros)
  then show ?thesis unfolding reviewOrder_def by (intro kept_intros kept_tx settles_keeps kept_side [of "insertReview env now u i ord rating c" for ord])
qed

lemma kept_settle: "kept.keeps (settleConfirmed env faults now p subj ref)"
  unfolding settleConfirmed_def persistConfirmedWebhookOutcome_def completeWalletTopup_def
  by (intro kept_intros kept_escrow kept_tx settles_wallet)

lemma kept_payments:
  "kept.keeps (liqpayCallback sha1 decode cfg env faults now body)" "kept.keeps (monobankCallback fetch cfg env faults now mbody)"
  "kept.keeps (wayforpayCallback wfetch cfg env faults now wbody)" "kept.keeps (payRoute env faults now u i p)"
  "kept.keeps (confirmPayment env faults now adm i ref)" "kept.keeps (testSuccessRoute cfg env faults now u i)"
  "kept.keeps (testFailureRoute cfg env now u i)"
  unfolding liqpayCallback_def monobankCallback_def wayforpayCallback_def payRoute_def confirmPayment_def testSuccessRoute_def
    testFailureRoute_def simulateTestPaymentSuccess_def assertTestPaymentsEnabled_def loadOwnOrder_def
  by (intro kept_intros kept_settle kept_escrow kept_orders; auto intro!: kept_intros kept_settle split: prod.splits)+

lemma kept_wallet:
  "kept.keeps (liqpayTopupCheckout sha1 base64 cfg env u amt desc)" "kept.keeps (monobankTopupCheckout cfg env u amt)"
  "kept.keeps (withdrawRoute env faults u amt oc dest)" "kept.keeps (rejectPayout env faults now i adm reason)"
  "kept.keeps (completePayoutCheck i ref)" "kept.keeps (completePayoutWrite env now i adm ref)"
  "kept.keeps (postManualAdjustment env faults u a c reason adm)"
  unfolding liqpayTopupCheckout_def monobankTopupCheckout_def createWalletTopup_def withdrawRoute_def requestWithdrawal_def
    rejectPayout_def completePayoutCheck_def completePayoutWrite_def postManualAdjustment_def Let_def
  by (intro kept_intros kept_table kept_tx settles_wallet; simp)+

section \<open>Disputes\<close>

lemma kept_claim: "kept.keeps (claimResolution env now d dec adm nt opn st)"
proof -
  have "kept.keeps (claimByStatus env now d dec adm nt st x y)" for x y
    unfolding claimByStatus_def claimWith_def by (cases "d_status x") (auto intro!: kept_intros)
  then show ?thesis unfolding claimResolution_def by (intro kept_tx settles_keeps kept_intros)
qed

lemma kept_finish:
  "kept.keeps (finishResolution env now d dec opn ord ex)" "kept.keeps (escrowFailed env now d dec opn e)"
proof -
  have e: "kept.keeps (evictFinalized env x)" for x
    unfolding evictFinalized_def by (cases x) (auto intro!: kept_intros)
  have f: "kept.keeps (finalizeIfApplied env now d dec opn)"
    unfolding finalizeIfApplied_def finalizeTx_def finalizeRow_def by (intro kept_intros kept_tx settles_keeps e)
  show "kept.keeps (finishResolution env now d dec opn ord ex)" "kept.keeps (escrowFailed env now d dec opn e)"
    unfolding finishResolution_def escrowFailed_def markResolutionFailed_def Let_def
    by (auto intro!: f kept_intros split: option.split)
qed

lemma kept_resolve: "kept.keeps (resolveDisputeResolution env faults now d dec adm nt opn st)"
proof -
  have esc: "kept.keeps (runEscrow env faults now dec i a)" for i a
    unfolding runEscrow_def by (cases dec) (simp_all add: kept_escrow)
  have "kept.keeps (\<lambda>s. case runEscrow env faults now dec i a s of
       (Inr order, s') \<Rightarrow> finishResolution env now d dec op' (Some order) True s'
     | (Inl e, s') \<Rightarrow> escrowFailed env now d dec op' e s')" for i a op'
    unfolding kept.keeps_def
    by (auto split: prod.splits sum.splits dest!: kept.keepsD [OF esc] kept.keepsD [OF kept_finish(1)] kept.keepsD [OF kept_finish(2)]
        intro: kept.moves_trans)
  then show ?thesis unfolding resolveDisputeResolution_def Let_def by (intro kept_intros kept_claim kept_finish)
qed

lemma kept_disputes:
  "kept.keeps (openDispute env now u i reason)" "kept.keeps (recoverStaleDisputeResolutions env faults now od)"
proof -
  show "kept.keeps (openDispute env now u i reason)"
    unfolding openDispute_def by (intro kept_intros kept_tx settles_lifecycle)
  have one: "kept.keeps (recoverOne env faults now i)" for i
    unfolding kept.keeps_def
    by (auto simp: recoverOne_def kept.moves_refl split: option.splits if_splits list.splits prod.splits sum.splits
        dest: kept.keepsD [OF kept_resolve])
  have "kept.keeps (recoverEach env faults now ids)" for ids
    by (induction ids) (auto intro!: kept_intros one)
  then show "kept.keeps (recoverStaleDisputeResolutions env faults now od)"
    unfolding recoverStaleDisputeResolutions_def by (intro kept_intros)
qed

section \<open>Every step\<close>

lemma market_step_kept:
  assumes "market_step env s s'"
  shows "settled_kept s s'"
  using assms
  by cases
    (rule kept.keepsD [rotated], assumption,
      rule kept_createOrder kept_review kept_payments kept_orders kept_wallet kept_disputes kept_resolve kept_sides
    | simp add: settled_kept_orders side_step_fields(3))+

lemma market_steps_kept: "(market_step env)\<^sup>*\<^sup>* s s' \<Longrightarrow> settled_kept s s'"
  by (induction rule: rtranclp_induct) (auto intro: kept.moves_refl kept.moves_trans market_step_kept)

text \<open>
  C7: an escrow is settled at most once: after a release or a refund returned, the order keeps its terminal status in
  every state the marketplace reaches from there, by whatever requests, callbacks, sweeps and jobs, and in each of those
  states every payment, release and refund of the order throws, whoever calls it.
\<close>

theorem settled_once:
  assumes ord: "t_find o_id i (orders s) = Some ord" and v: "order_valid ord"
    and run: "releaseEscrow env faults now i arg s = (Inr res, s') \<or> refundEscrow env faults now i adm s = (Inr res, s')"
    and later: "(market_step env')\<^sup>*\<^sup>* s' s2"
  shows "(\<exists>r. t_find o_id i (orders s2) = Some r \<and> o_status r = o_status res) \<and>
    isl (fst (releaseEscrow env2 faults2 now2 i arg2 s2)) \<and> isl (fst (refundEscrow env2 faults2 now2 i adm2 s2)) \<and>
    isl (fst (lockEscrow env2 faults2 now2 i b p ext act s2))"
proof -
  have "\<And>x. t_find o_id i (orders s) = Some x \<Longrightarrow> order_valid x" using ord v by simp
  note T = settlement_terminal [OF run this]
  obtain r where "t_find o_id i (orders s2) = Some r" "o_status r = o_status res"
    using market_steps_kept [OF later] T unfolding settled_kept_def by blast
  then show ?thesis using T(2) by (auto intro: settled_fails)
qed

theorem settled_once_witness:
  "\<exists>res s'. released0 = (Inr res, s') \<and>
     isl (fst (refundEscrow env0 no_faults 11 ''o1'' None (snd (payRoute env0 no_faults 10 ''buyer'' ''o1'' Mock s'))))"
proof -
  obtain res s' where r: "released0 = (Inr res, s')" using tx_returns [OF released0_runs] by blast
  have "market_step env0 s' (snd (payRoute env0 no_faults 10 ''buyer'' ''o1'' Mock s'))"
    by (rule market_step.pay [OF prod.collapse [symmetric]])
  from settled_once [OF order1_found order1_valid disjI1 [OF r [unfolded released0_def]] r_into_rtranclp [of "market_step env0", OF this]] r
  show ?thesis by blast
qed

end
