(* ===== verification/Totp.thy ===== *)
theory Totp
  imports Prelude "HOL-Library.Word"
begin

text \<open>
  \<open>modules/auth/totp.service.ts\<close>: Base32 secrets, RFC 6238 codes and the window in which the application
  accepts them. The shifts of the JavaScript loops wrap at 32 bits, so \<open>value\<close> is a 32-bit word; a
  \<open>Buffer\<close> is a list of bytes. \<open>hmac key message\<close> is HMAC-SHA1, an argument.
\<close>

unbundle bit_operations_syntax

section \<open>Base32\<close>

definition BASE32_ALPHABET :: string where
  "BASE32_ALPHABET = ''ABCDEFGHIJKLMNOPQRSTUVWXYZ234567''"

definition MAX_BASE32_SECRET_LENGTH :: nat where
  "MAX_BASE32_SECRET_LENGTH = 4096"

definition base32Char :: "32 word \<Rightarrow> char" where
  "base32Char w = BASE32_ALPHABET ! unat (w AND 31)"

text \<open>\<open>BASE32_ALPHABET.indexOf(char)\<close>, for a character of the alphabet.\<close>

definition base32Index :: "char \<Rightarrow> nat" where
  "base32Index c = length (takeWhile (\<lambda>x. x \<noteq> c) BASE32_ALPHABET)"

text \<open>The inner loop \<open>while (bits >= 5)\<close>: the characters written and the bits left.\<close>

fun base32Drain :: "nat \<Rightarrow> 32 word \<Rightarrow> string \<times> nat" where
  "base32Drain bits v =
     (if 5 \<le> bits
      then (base32Char (drop_bit (bits - 5) v) # fst (base32Drain (bits - 5) v), snd (base32Drain (bits - 5) v))
      else ([], bits))"

declare base32Drain.simps [simp del]

fun base32EncodeLoop :: "8 word list \<Rightarrow> nat \<Rightarrow> 32 word \<Rightarrow> string" where
  "base32EncodeLoop [] bits v = (if 0 < bits then [base32Char (push_bit (5 - bits) v)] else [])"
| "base32EncodeLoop (byte # bytes) bits v =
     (let v' = push_bit 8 v OR ucast byte in
      fst (base32Drain (bits + 8) v') @ base32EncodeLoop bytes (snd (base32Drain (bits + 8) v')) v')"

definition base32Encode :: "8 word list \<Rightarrow> string" where
  "base32Encode buffer = base32EncodeLoop buffer 0 0"

fun base32DecodeLoop :: "string \<Rightarrow> nat \<Rightarrow> 32 word \<Rightarrow> 8 word list" where
  "base32DecodeLoop [] bits v = []"
| "base32DecodeLoop (c # cs) bits v =
     (let v' = push_bit 5 v OR of_nat (base32Index c) in
      if 8 \<le> bits + 5 then ucast (drop_bit (bits + 5 - 8) v' AND 255) # base32DecodeLoop cs (bits + 5 - 8) v'
      else base32DecodeLoop cs (bits + 5) v')"

text \<open>\<open>/^[A-Z2-7]+={0,6}$/\<close>.\<close>

definition base32_char :: "char \<Rightarrow> bool" where
  "base32_char c \<longleftrightarrow> c \<in> set BASE32_ALPHABET"

definition BASE32_PATTERN :: "string \<Rightarrow> bool" where
  "BASE32_PATTERN s \<longleftrightarrow> takeWhile base32_char s \<noteq> [] \<and>
     (\<exists>n\<in>set [0..<7]. dropWhile base32_char s = replicate n (CHR ''=''))"

definition notCanonical :: err where
  "notCanonical = JsError ''TOTP secret must be canonical RFC 4648 Base32''"

definition badPadding :: err where
  "badPadding = JsError ''TOTP secret must have valid RFC 4648 Base32 padding''"

definition base32DecodeStrict :: "string \<Rightarrow> 8 word list result" where
  "base32DecodeStrict s =
     (if s = [] \<or> MAX_BASE32_SECRET_LENGTH < length s \<or> \<not> BASE32_PATTERN s then Inl notCanonical
      else let padded = CHR ''='' \<in> set s;
               unpadded = takeWhile (\<lambda>c. c \<noteq> CHR ''='') s in
        if padded \<and> length s mod 8 \<noteq> 0 then Inl badPadding
        else let decoded = base32DecodeLoop unpadded 0 0;
                 canonicalUnpadded = base32Encode decoded in
          if canonicalUnpadded \<noteq> unpadded then Inl notCanonical
          else if padded \<and> canonicalUnpadded @ replicate ((8 - length canonicalUnpadded mod 8) mod 8) (CHR ''='') \<noteq> s
          then Inl badPadding
          else Inr decoded)"

section \<open>Codes\<close>

definition TOTP_ALGORITHM :: string where "TOTP_ALGORITHM = ''sha1''"

definition TOTP_PERIOD_SECONDS :: int where "TOTP_PERIOD_SECONDS = 30"

definition TOTP_DIGITS :: nat where "TOTP_DIGITS = 6"

definition TOTP_ALLOWED_DRIFT_STEPS :: int where "TOTP_ALLOWED_DRIFT_STEPS = 1"

record Rfc6238Parameters =
  rp_algorithm :: string
  rp_period :: int
  rp_digits :: nat

definition APP_TOTP_PARAMETERS :: Rfc6238Parameters where
  "APP_TOTP_PARAMETERS = \<lparr>rp_algorithm = TOTP_ALGORITHM, rp_period = TOTP_PERIOD_SECONDS, rp_digits = TOTP_DIGITS\<rparr>"

definition MAX_SAFE_INT :: int where
  "MAX_SAFE_INT = 2 ^ 53 - 1"

definition safeInteger :: "int \<Rightarrow> bool" where
  "safeInteger n \<longleftrightarrow> \<bar>n\<bar> \<le> MAX_SAFE_INT"

definition assertRfc6238Parameters :: "Rfc6238Parameters \<Rightarrow> unit result" where
  "assertRfc6238Parameters p =
     (if rp_algorithm p \<noteq> TOTP_ALGORITHM then Inl (JsError ''Unsupported TOTP algorithm'')
      else if \<not> safeInteger (rp_period p) \<or> rp_period p < 1
        then Inl (JsError ''TOTP period must be a positive safe integer'')
      else if rp_digits p < 6 \<or> 8 < rp_digits p then Inl (JsError ''TOTP digits must be an integer between 6 and 8'')
      else Inr ())"

definition counterAt :: "time \<Rightarrow> int \<Rightarrow> int result" where
  "counterAt atTimeMs period =
     (if atTimeMs < 0 then Inl (JsError ''TOTP time must be a non-negative finite number'')
      else let counter = atTimeMs div 1000 div period in
        if \<not> safeInteger counter then Inl (JsError ''TOTP counter exceeds the safe integer range'') else Inr counter)"

text \<open>\<open>counterBuffer.writeBigUInt64BE(BigInt(counter))\<close>.\<close>

definition counterBuffer :: "int \<Rightarrow> 8 word list" where
  "counterBuffer counter = map (\<lambda>i. of_int (counter div 256 ^ (7 - i))) [0..<8]"

definition padStart :: "nat \<Rightarrow> char \<Rightarrow> string \<Rightarrow> string" where
  "padStart n c s = replicate (n - length s) c @ s"

definition binCode :: "8 word list \<Rightarrow> 32 word" where
  "binCode hmac =
     (let offset = unat (last hmac AND 15);
          at = (\<lambda>i. ucast (hmac ! (offset + i)) :: 32 word) in
      push_bit 24 (at 0 AND 127) OR push_bit 16 (at 1 AND 255) OR push_bit 8 (at 2 AND 255) OR (at 3 AND 255))"

definition hotpAt :: "(8 word list \<Rightarrow> 8 word list \<Rightarrow> 8 word list) \<Rightarrow> 8 word list \<Rightarrow> int \<Rightarrow> Rfc6238Parameters \<Rightarrow> string result" where
  "hotpAt hmac key counter p =
     (if \<not> safeInteger counter \<or> counter < 0 then Inl (JsError ''TOTP counter must be a non-negative safe integer'')
      else Inr (padStart (rp_digits p) (CHR ''0'')
        (nat_dec (unat (binCode (hmac key (counterBuffer counter))) mod 10 ^ rp_digits p))))"

text \<open>\<open>generateTotpSecret\<close> on the 20 random bytes it draws.\<close>

definition generateTotpSecret :: "8 word list \<Rightarrow> string" where
  "generateTotpSecret random = base32Encode random"

definition generateRfc6238Code ::
  "(8 word list \<Rightarrow> 8 word list \<Rightarrow> 8 word list) \<Rightarrow> string \<Rightarrow> time \<Rightarrow> Rfc6238Parameters \<Rightarrow> string result" where
  "generateRfc6238Code hmac secret atTimeMs p =
     r_bind (assertRfc6238Parameters p) (\<lambda>_.
     r_bind (base32DecodeStrict secret) (\<lambda>key.
     r_bind (counterAt atTimeMs (rp_period p)) (\<lambda>counter.
     hotpAt hmac key counter p)))"

definition generateTotpCode :: "(8 word list \<Rightarrow> 8 word list \<Rightarrow> 8 word list) \<Rightarrow> string \<Rightarrow> time \<Rightarrow> string result" where
  "generateTotpCode hmac secret atTimeMs = generateRfc6238Code hmac secret atTimeMs APP_TOTP_PARAMETERS"

text \<open>
  The loop over the offsets \<open>0, -1, 1\<close>. Every candidate is computed, whether or not one has matched;
  a candidate that cannot be computed throws.
\<close>

fun matchOffsets ::
  "(8 word list \<Rightarrow> 8 word list \<Rightarrow> 8 word list) \<Rightarrow> 8 word list \<Rightarrow> int \<Rightarrow> string \<Rightarrow> int list \<Rightarrow> int option \<Rightarrow> int option result" where
  "matchOffsets hmac key current code [] matched = Inr matched"
| "matchOffsets hmac key current code (offset # offsets) matched =
     (let candidate = current + offset in
      if candidate < 0 then matchOffsets hmac key current code offsets matched
      else r_bind (hotpAt hmac key candidate APP_TOTP_PARAMETERS) (\<lambda>expected.
        matchOffsets hmac key current code offsets
          (if expected = code \<and> matched = None then Some candidate else matched)))"

definition SIX_DIGITS :: "string \<Rightarrow> bool" where
  "SIX_DIGITS s \<longleftrightarrow> length s = 6 \<and> list_all is_digit s"

definition matchTotpCounter ::
  "(8 word list \<Rightarrow> 8 word list \<Rightarrow> 8 word list) \<Rightarrow> string \<Rightarrow> string \<Rightarrow> time \<Rightarrow> int option result" where
  "matchTotpCounter hmac secret code atTimeMs =
     (if \<not> SIX_DIGITS code then Inr None
      else case (base32DecodeStrict secret, counterAt atTimeMs TOTP_PERIOD_SECONDS) of
          (Inr key, Inr current) \<Rightarrow>
            matchOffsets hmac key current code [0, - TOTP_ALLOWED_DRIFT_STEPS, TOTP_ALLOWED_DRIFT_STEPS] None
        | _ \<Rightarrow> Inr None)"

definition verifyTotpCode ::
  "(8 word list \<Rightarrow> 8 word list \<Rightarrow> 8 word list) \<Rightarrow> string \<Rightarrow> string \<Rightarrow> time \<Rightarrow> bool result" where
  "verifyTotpCode hmac secret code atTimeMs =
     r_bind (matchTotpCounter hmac secret code atTimeMs) (\<lambda>m. Inr (m \<noteq> None))"

section \<open>Base32 as bits\<close>

text \<open>The low \<open>n\<close> bits, the most significant first.\<close>

definition lowbits :: "nat \<Rightarrow> 'a :: semiring_bits \<Rightarrow> bool list" where
  "lowbits n w = map (bit w) (rev [0..<n])"

definition octets :: "8 word list \<Rightarrow> bool list" where
  "octets bs = concat (map (lowbits 8) bs)"

definition quintets :: "string \<Rightarrow> bool list" where
  "quintets s = concat (map (\<lambda>c. lowbits 5 (base32Index c)) s)"

lemma length_lowbits [simp]: "length (lowbits n w) = n"
  by (simp add: lowbits_def)

lemma lowbits_add: "lowbits (m + n) w = map (\<lambda>i. bit w (i + n)) (rev [0..<m]) @ lowbits n w"
proof -
  have "[0..<m + n] = [0..<n] @ map (\<lambda>i. i + n) [0..<m]"
    using upt_add_eq_append [of 0 n m] by (simp only: map_add_upt add.commute [of m n] add_0)
  then show ?thesis by (simp add: lowbits_def rev_map comp_def)
qed

lemma lowbits_cong: "(\<And>i. i < n \<Longrightarrow> bit w i = bit w' i) \<Longrightarrow> lowbits n w = lowbits n w'"
  by (simp add: lowbits_def)

lemma lowbits_shift:
  fixes v :: "32 word"
  assumes "n + k \<le> 32" "\<And>i. k \<le> i \<Longrightarrow> \<not> bit b i"
  shows "lowbits (n + k) (push_bit k v OR b) = lowbits n v @ lowbits k b"
proof -
  have hi: "bit (push_bit k v OR b) (i + k) = bit v i" if "i < n" for i
    using that assms(1) assms(2) [of "i + k"] by (simp add: bit_or_iff bit_push_bit_iff)
  have lo: "bit (push_bit k v OR b) i = bit b i" if "i < k" for i
    using that by (simp add: bit_or_iff bit_push_bit_iff)
  have "map (\<lambda>i. bit (push_bit k v OR b) (i + k)) (rev [0..<n]) = lowbits n v"
    unfolding lowbits_def by (rule map_cong) (simp_all add: hi)
  moreover have "lowbits k (push_bit k v OR b) = lowbits k b"
    by (rule lowbits_cong) (rule lo)
  ultimately show ?thesis by (simp add: lowbits_add)
qed

lemma lowbits_split:
  assumes "k \<le> n"
  shows "lowbits n w = lowbits k (drop_bit (n - k) w) @ lowbits (n - k) w"
proof -
  have "lowbits n w = lowbits (k + (n - k)) w" using assms by simp
  then show ?thesis unfolding lowbits_add by (simp add: lowbits_def bit_drop_bit_eq add.commute)
qed

text \<open>Each character of the alphabet has its index, and each index its character.\<close>

lemma length_alphabet: "length BASE32_ALPHABET = 32"
  by (simp add: BASE32_ALPHABET_def)

lemma distinct_alphabet: "distinct BASE32_ALPHABET"
  by (simp add: BASE32_ALPHABET_def)

lemma takeWhile_index: "distinct xs \<Longrightarrow> i < length xs \<Longrightarrow> takeWhile (\<lambda>x. x \<noteq> xs ! i) xs = take i xs"
proof (induction xs arbitrary: i)
  case (Cons x xs)
  then show ?case by (cases i) (auto simp: nth_mem)
qed simp

lemma base32Index_nth: "i < 32 \<Longrightarrow> base32Index (BASE32_ALPHABET ! i) = i"
  using takeWhile_index [OF distinct_alphabet, of i] by (simp add: base32Index_def length_alphabet)

lemma and_31: "unat (w AND 31 :: 32 word) < 32"
proof -
  have "w AND 31 = take_bit 5 w" by (simp add: take_bit_eq_mask mask_eq_exp_minus_1)
  then show ?thesis using take_bit_nat_less_exp [of 5 "unat w"] by (simp add: unsigned_take_bit_eq)
qed

lemma base32Char_index: "base32Index (base32Char w) = unat (w AND 31)"
  by (simp add: base32Char_def base32Index_nth and_31)

lemma base32Char_in: "base32_char (base32Char w)"
  using and_31 [of w] length_alphabet by (simp add: base32Char_def base32_char_def)

lemma lowbits_Char: "lowbits 5 (base32Index (base32Char w)) = lowbits 5 w"
proof -
  have "bit (unat (w AND 31)) i = bit w i" if "i < 5" for i
  proof -
    have "w AND 31 = take_bit 5 w" by (simp add: take_bit_eq_mask mask_eq_exp_minus_1)
    then show ?thesis using that by (simp add: bit_unsigned_iff bit_take_bit_iff)
  qed
  then show ?thesis unfolding base32Char_index by (rule lowbits_cong)
qed

section \<open>The round trip\<close>

lemma drain_bits:
  "bits \<le> 32 \<Longrightarrow> quintets (fst (base32Drain bits v)) @ lowbits (snd (base32Drain bits v)) v = lowbits bits v \<and>
     snd (base32Drain bits v) < 5 \<and> list_all base32_char (fst (base32Drain bits v))"
proof (induction bits v rule: base32Drain.induct)
  case (1 bits v)
  show ?case
  proof (cases "5 \<le> bits")
    case True
    then show ?thesis
      using 1 lowbits_split [OF True, of v]
      by (subst (1 2 3 4) base32Drain.simps) (simp add: quintets_def lowbits_Char base32Char_in)
  next
    case False
    then show ?thesis by (subst (1 2 3 4) base32Drain.simps) (simp add: quintets_def)
  qed
qed

lemma byte_bits: "\<not> bit (ucast (b :: 8 word) :: 32 word) i" if "8 \<le> i"
  using that by (auto simp: bit_ucast_iff dest: bit_imp_le_length)

lemma lowbits_ucast: "lowbits 8 (ucast (b :: 8 word) :: 32 word) = lowbits 8 b"
  by (rule lowbits_cong) (simp add: bit_ucast_iff)

lemma replicate_bits: "lowbits k (0 :: 32 word) = replicate k False"
  by (simp add: lowbits_def list_eq_iff_nth_eq)

lemma encode_bits:
  "bits < 5 \<Longrightarrow> (\<exists>k<5. quintets (base32EncodeLoop bs bits v) = lowbits bits v @ octets bs @ replicate k False) \<and>
     list_all base32_char (base32EncodeLoop bs bits v)"
proof (induction bs arbitrary: bits v)
  case Nil
  have "lowbits 5 (push_bit (5 - bits) v) = lowbits bits v @ replicate (5 - bits) False" if "0 < bits"
    using lowbits_shift [of bits "5 - bits" 0 v] Nil that by (simp add: replicate_bits)
  moreover have "lowbits 0 v = []" by (simp add: lowbits_def)
  ultimately show ?case using Nil
    by (cases "bits = 0") (auto simp: quintets_def octets_def lowbits_Char base32Char_in intro: exI [of _ "5 - bits"])
next
  case (Cons b bs)
  define v' where "v' = push_bit 8 v OR (ucast b :: 32 word)"
  define out left where "out = fst (base32Drain (bits + 8) v')" and "left = snd (base32Drain (bits + 8) v')"
  have d: "quintets out @ lowbits left v' = lowbits (bits + 8) v'" "left < 5" "list_all base32_char out"
    using drain_bits [of "bits + 8" v'] Cons.prems by (simp_all add: out_def left_def)
  have v': "lowbits (bits + 8) v' = lowbits bits v @ lowbits 8 b"
    unfolding v'_def using Cons.prems by (simp add: lowbits_shift byte_bits lowbits_ucast)
  from Cons.IH [OF d(2), of v'] obtain k where k: "k < 5"
    "quintets (base32EncodeLoop bs left v') = lowbits left v' @ octets bs @ replicate k False"
    "list_all base32_char (base32EncodeLoop bs left v')" by blast
  have "base32EncodeLoop (b # bs) bits v = out @ base32EncodeLoop bs left v'"
    by (simp add: Let_def out_def left_def v'_def)
  moreover have "quintets (out @ base32EncodeLoop bs left v') = lowbits bits v @ octets (b # bs) @ replicate k False"
    using d(1) v' k(2) by (simp add: quintets_def octets_def)
  ultimately show ?case using k d(3) by auto
qed

lemma index_bits: "\<not> bit (of_nat (base32Index c) :: 32 word) i" if "base32_char c" "5 \<le> i"
proof -
  from that(1) obtain j where j: "j < 32" "c = BASE32_ALPHABET ! j"
    by (auto simp: base32_char_def in_set_conv_nth length_alphabet)
  have "take_bit 5 (of_nat j :: 32 word) = of_nat j"
    using j(1) by (simp add: take_bit_nat_eq_self flip: of_nat_take_bit)
  then have "bit (of_nat j :: 32 word) i \<Longrightarrow> i < 5" by (metis bit_take_bit_iff)
  then show ?thesis using that(2) j by (auto simp: base32Index_nth)
qed

lemma lowbits_of_nat: "n \<le> 32 \<Longrightarrow> lowbits n (of_nat m :: 32 word) = lowbits n m"
  by (rule lowbits_cong) (simp add: bit_of_nat_iff)

lemma lowbits_255: "lowbits 8 (ucast (w AND 255) :: 8 word) = lowbits 8 (w :: 32 word)"
proof (rule lowbits_cong)
  fix i :: nat
  assume i: "i < 8"
  have "w AND 255 = take_bit 8 w" by (simp add: take_bit_eq_mask mask_eq_exp_minus_1)
  then show "bit (ucast (w AND 255) :: 8 word) i = bit w i" using i by (simp add: bit_ucast_iff bit_take_bit_iff)
qed

lemma decode_bits:
  "bits < 8 \<Longrightarrow> list_all base32_char s \<Longrightarrow>
     \<exists>r. length r < 8 \<and> lowbits bits v @ quintets s = octets (base32DecodeLoop s bits v) @ r"
proof (induction s arbitrary: bits v)
  case Nil
  then show ?case by (simp add: quintets_def octets_def)
next
  case (Cons c s)
  define v' where "v' = push_bit 5 v OR (of_nat (base32Index c) :: 32 word)"
  have v': "lowbits (bits + 5) v' = lowbits bits v @ lowbits 5 (base32Index c)"
    unfolding v'_def using Cons.prems by (simp add: lowbits_shift index_bits lowbits_of_nat)
  show ?case
  proof (cases "8 \<le> bits + 5")
    case True
    have s8: "lowbits (bits + 5) v' = lowbits 8 (drop_bit (bits - 3) v') @ lowbits (bits - 3) v'"
      using lowbits_split [OF True, of v'] by simp
    have "bits - 3 < 8" "list_all base32_char s" using Cons.prems by simp_all
    from Cons.IH [OF this, of v'] obtain r where r: "length r < 8"
      "lowbits (bits - 3) v' @ quintets s = octets (base32DecodeLoop s (bits - 3) v') @ r" by blast
    have "base32DecodeLoop (c # s) bits v = ucast (drop_bit (bits - 3) v' AND 255) # base32DecodeLoop s (bits - 3) v'"
      using True by (simp add: Let_def v'_def)
    moreover have "lowbits bits v @ quintets (c # s) =
        lowbits 8 (drop_bit (bits - 3) v') @ lowbits (bits - 3) v' @ quintets s"
      using v' s8 by (simp add: quintets_def)
    ultimately show ?thesis using r by (auto simp: octets_def lowbits_255)
  next
    case False
    have "bits + 5 < 8" "list_all base32_char s" using Cons.prems False by simp_all
    from Cons.IH [OF this, of v'] show ?thesis using False v' by (simp add: Let_def v'_def [symmetric] quintets_def)
  qed
qed

lemma lowbits_8_inject: "lowbits 8 b = lowbits 8 b' \<Longrightarrow> b = (b' :: 8 word)"
  by (rule bit_word_eqI) (simp add: lowbits_def)

lemma octets_inject:
  "octets xs @ r = octets ys @ r' \<Longrightarrow> length r < 8 \<Longrightarrow> length r' < 8 \<Longrightarrow> xs = ys"
proof (induction xs arbitrary: ys)
  case Nil
  then show ?case by (cases ys) (auto simp: octets_def dest: arg_cong [of _ _ length])
next
  case (Cons x xs)
  show ?case
  proof (cases ys)
    case Nil
    with Cons.prems have "length (octets (x # xs) @ r) < 8" by (simp add: octets_def)
    then show ?thesis by (simp add: octets_def)
  next
    case (Cons y zs)
    with Cons.prems have "lowbits 8 x @ (octets xs @ r) = lowbits 8 y @ (octets zs @ r')" by (simp add: octets_def)
    then have "lowbits 8 x = lowbits 8 y" "octets xs @ r = octets zs @ r'" by simp_all
    then show ?thesis using Cons Cons.IH [of zs] Cons.prems lowbits_8_inject by auto
  qed
qed

lemma decode_encode: "base32DecodeLoop (base32Encode b) 0 0 = b"
proof -
  have z: "lowbits 0 w = []" for w :: "32 word" by (simp add: lowbits_def)
  from encode_bits [of 0 b 0] obtain k where k: "k < 5" "quintets (base32Encode b) = octets b @ replicate k False"
    and a: "list_all base32_char (base32Encode b)" by (auto simp: base32Encode_def z)
  from decode_bits [OF _ a, of 0 0] obtain r where r: "length r < 8"
    "quintets (base32Encode b) = octets (base32DecodeLoop (base32Encode b) 0 0) @ r" by (auto simp: z)
  show ?thesis by (rule octets_inject [of _ r b "replicate k False"]) (use k r in simp_all)
qed

lemma encode_length: "5 * length (base32Encode b) < 8 * length b + 5" "8 * length b \<le> 5 * length (base32Encode b)"
  "list_all base32_char (base32Encode b)"
proof -
  from encode_bits [of 0 b 0] obtain k where k: "k < 5" "quintets (base32Encode b) = octets b @ replicate k False"
    and "list_all base32_char (base32Encode b)" by (auto simp: base32Encode_def lowbits_def)
  then show "list_all base32_char (base32Encode b)" by simp
  have q: "length (quintets s) = 5 * length s" for s by (induction s) (simp_all add: quintets_def)
  have o: "length (octets x) = 8 * length x" for x by (induction x) (simp_all add: octets_def)
  have "5 * length (base32Encode b) = 8 * length b + k" using arg_cong [OF k(2), of length] by (simp add: q o)
  then show "5 * length (base32Encode b) < 8 * length b + 5" "8 * length b \<le> 5 * length (base32Encode b)" using k(1) by simp_all
qed

lemma pad_not_base32: "\<not> base32_char (CHR ''='')"
  by (simp add: base32_char_def BASE32_ALPHABET_def)

lemma no_padding: "list_all base32_char s \<Longrightarrow> CHR ''='' \<notin> set s \<and> takeWhile (\<lambda>c. c \<noteq> CHR ''='') s = s \<and>
    takeWhile base32_char s = s \<and> dropWhile base32_char s = []"
  using pad_not_base32 by (auto simp: list_all_iff takeWhile_eq_all_conv)

lemma decodeStrict_encode:
  assumes b: "b \<noteq> []" "length (base32Encode b) \<le> MAX_BASE32_SECRET_LENGTH"
  shows "base32DecodeStrict (base32Encode b) = Inr b"
proof -
  note L = encode_length [of b]
  have ne: "base32Encode b \<noteq> []" using L(2) b by auto
  have pat: "BASE32_PATTERN (base32Encode b)"
    unfolding BASE32_PATTERN_def using no_padding [OF L(3)] ne by (intro conjI bexI [of _ 0]) (simp_all only: replicate_0 not_False_eq_True, simp)
  moreover have "CHR ''='' \<notin> set (base32Encode b)" "takeWhile (\<lambda>c. c \<noteq> CHR ''='') (base32Encode b) = base32Encode b"
    using no_padding [OF L(3)] by blast+
  ultimately show ?thesis
    using ne pat b(2) by (simp only: base32DecodeStrict_def Let_def decode_encode not_less [symmetric] if_False simp_thms)
qed

text \<open>The padding to a multiple of eight characters.\<close>

definition base32Padding :: "string \<Rightarrow> string" where
  "base32Padding u = replicate ((8 - length u mod 8) mod 8) (CHR ''='')"

lemma decodeStrict_accepts:
  assumes "base32DecodeStrict s = Inr b"
  shows "b \<noteq> []" "length s \<le> MAX_BASE32_SECRET_LENGTH" "s = base32Encode b \<or> s = base32Encode b @ base32Padding (base32Encode b)"
proof -
  let ?u = "takeWhile (\<lambda>c. c \<noteq> CHR ''='') s"
  from assms have p: "BASE32_PATTERN s" and len: "length s \<le> MAX_BASE32_SECRET_LENGTH" and u: "?u = base32Encode b"
    and pad: "CHR ''='' \<in> set s \<longrightarrow> base32Encode b @ base32Padding (base32Encode b) = s"
    unfolding base32DecodeStrict_def Let_def base32Padding_def by (auto split: if_splits)
  show "length s \<le> MAX_BASE32_SECRET_LENGTH" by (rule len)
  obtain c cs where s: "s = c # cs" "base32_char c"
    using p by (cases s) (auto simp: BASE32_PATTERN_def split: if_splits)
  have "c \<noteq> CHR ''=''" using s(2) pad_not_base32 by auto
  then have "?u \<noteq> []" using s(1) by simp
  then show "b \<noteq> []" by (auto simp: u base32Encode_def)
  have "?u = s" if "CHR ''='' \<notin> set s" using that by (auto simp: takeWhile_eq_all_conv)
  then show "s = base32Encode b \<or> s = base32Encode b @ base32Padding (base32Encode b)" using pad u by metis
qed

lemma encode_length_mod: "length (base32Encode b) mod 8 \<noteq> 1"
proof
  assume m: "length (base32Encode b) mod 8 = 1"
  define q where "q = length (base32Encode b) div 8"
  have "length (base32Encode b) = 8 * q + 1" using m mult_div_mod_eq [of 8 "length (base32Encode b)"] by (simp add: q_def)
  then have "40 * q < 8 * length b" "8 * length b \<le> 40 * q + 5" using encode_length(1,2) [of b] by simp_all
  then show False by simp
qed

lemma padded_fields:
  assumes e: "list_all base32_char u" and k: "0 < k"
  shows "takeWhile base32_char (u @ replicate k (CHR ''='')) = u" "dropWhile base32_char (u @ replicate k (CHR ''='')) = replicate k (CHR ''='')"
    "takeWhile (\<lambda>c. c \<noteq> CHR ''='') (u @ replicate k (CHR ''='')) = u" "CHR ''='' \<in> set (u @ replicate k (CHR ''=''))"
proof -
  have a: "\<And>x. x \<in> set u \<Longrightarrow> base32_char x" "\<And>x. x \<in> set u \<Longrightarrow> x \<noteq> CHR ''=''"
    using e no_padding [OF e] by (auto simp: list_all_iff)
  obtain m where m: "k = Suc m" using k by (cases k) auto
  show "takeWhile base32_char (u @ replicate k (CHR ''='')) = u" "dropWhile base32_char (u @ replicate k (CHR ''='')) = replicate k (CHR ''='')"
    "takeWhile (\<lambda>c. c \<noteq> CHR ''='') (u @ replicate k (CHR ''='')) = u" "CHR ''='' \<in> set (u @ replicate k (CHR ''=''))"
    using a pad_not_base32 by (simp_all add: takeWhile_append2 dropWhile_append2 m)
qed

lemma decodeStrict_padded:
  assumes b: "b \<noteq> []" and len: "length (base32Encode b @ base32Padding (base32Encode b)) \<le> MAX_BASE32_SECRET_LENGTH"
    and k: "base32Padding (base32Encode b) \<noteq> []"
  shows "base32DecodeStrict (base32Encode b @ base32Padding (base32Encode b)) = Inr b"
proof -
  let ?u = "base32Encode b" and ?k = "(8 - length (base32Encode b) mod 8) mod 8"
  have p: "base32Padding ?u = replicate ?k (CHR ''='')" by (simp add: base32Padding_def)
  have pos: "0 < ?k" using k by (auto simp: p)
  note F = padded_fields [OF encode_length(3) [of b] pos]
  have ne: "?u \<noteq> []" using encode_length(2) [of b] b by auto
  define m where "m = length ?u mod 8"
  have "m \<noteq> 0" using pos by (cases "m = 0") (simp_all add: m_def)
  then have "2 \<le> m" "m < 8" using encode_length_mod [of b] by (simp_all add: m_def)
  then have "?k < 7" by (simp add: m_def [symmetric])
  then have pat: "BASE32_PATTERN (?u @ replicate ?k (CHR ''=''))"
    unfolding BASE32_PATTERN_def F using ne by (intro conjI bexI [of _ ?k]) simp_all
  have "length ?u + ?k = 8 * (length ?u div 8) + 8"
    using \<open>2 \<le> m\<close> \<open>m < 8\<close> mult_div_mod_eq [of 8 "length ?u"] unfolding m_def [symmetric] by simp
  then have l: "length (?u @ replicate ?k (CHR ''='')) mod 8 = 0" by simp
  show ?thesis
    using ne pat len l F(3,4)
    by (simp only: base32DecodeStrict_def Let_def decode_encode not_less [symmetric] if_False if_True simp_thms p append_is_Nil_conv)
qed

text \<open>
  C29: Base32 secrets survive the round trip, for all the 32-bit wrap-around of the shifts, and have no other spelling:
  \<open>base32DecodeStrict\<close> accepts a text, with some bytes as the result, exactly when there are bytes at all, the text
  has at most 4096 characters, and it is what \<open>base32Encode\<close> writes for those bytes, either bare or followed by the
  padding to a multiple of eight characters. In particular what is written for one to 2560 bytes is read back.
\<close>

theorem base32_roundtrip:
  "(base32DecodeStrict s = Inr b \<longleftrightarrow> b \<noteq> [] \<and> length s \<le> 4096 \<and>
     (s = base32Encode b \<or> s = base32Encode b @ replicate ((8 - length (base32Encode b) mod 8) mod 8) (CHR ''=''))) \<and>
   (b \<noteq> [] \<and> length b \<le> 2560 \<longrightarrow> base32DecodeStrict (base32Encode b) = Inr b)"
proof (intro conjI impI iffI)
  assume "base32DecodeStrict s = Inr b"
  then show "b \<noteq> []" "length s \<le> 4096" "s = base32Encode b \<or> s = base32Encode b @ replicate ((8 - length (base32Encode b) mod 8) mod 8) (CHR ''='')"
    using decodeStrict_accepts by (simp_all add: base32Padding_def MAX_BASE32_SECRET_LENGTH_def)
next
  assume s: "b \<noteq> [] \<and> length s \<le> 4096 \<and>
    (s = base32Encode b \<or> s = base32Encode b @ replicate ((8 - length (base32Encode b) mod 8) mod 8) (CHR ''=''))"
  then consider "s = base32Encode b" | "s = base32Encode b @ base32Padding (base32Encode b)" "base32Padding (base32Encode b) \<noteq> []"
    unfolding base32Padding_def by fastforce
  then show "base32DecodeStrict s = Inr b"
  proof cases
    case 1
    then show ?thesis using s decodeStrict_encode [of b] by (simp add: MAX_BASE32_SECRET_LENGTH_def)
  next
    case 2
    have "length (base32Encode b @ base32Padding (base32Encode b)) \<le> MAX_BASE32_SECRET_LENGTH"
      using s 2(1) by (simp add: MAX_BASE32_SECRET_LENGTH_def)
    with s show ?thesis unfolding 2(1) by (intro decodeStrict_padded 2(2)) simp_all
  qed
next
  assume "b \<noteq> [] \<and> length b \<le> 2560"
  then show "base32DecodeStrict (base32Encode b) = Inr b" using decodeStrict_encode encode_length(1) [of b] by (simp add: MAX_BASE32_SECRET_LENGTH_def)
qed

theorem base32_roundtrip_witness:
  "base32Encode [104, 33] = ''NAQQ'' \<and> base32DecodeStrict ''NAQQ'' = Inr [104, 33] \<and>
   base32DecodeStrict ''NAQQ===='' = Inr [104, 33] \<and> base32DecodeStrict ''NAQQ='' \<noteq> Inr [104, 33]"
proof -
  let ?b = "[104, 33] :: 8 word list"
  have e: "base32Encode ?b = ''NAQQ''"
    by (simp add: base32Encode_def base32Drain.simps base32Char_def BASE32_ALPHABET_def)
  have p: "replicate ((8 - length (base32Encode ?b) mod 8) mod 8) (CHR ''='') = ''====''"
    unfolding e by code_simp
  have "''===='' = replicate 4 (CHR ''='')" "''='' \<noteq> replicate 4 (CHR ''='')" by code_simp+
  then show ?thesis
    using base32_roundtrip [of "''NAQQ''" ?b] base32_roundtrip [of "''NAQQ====''" ?b] base32_roundtrip [of "''NAQQ=''" ?b]
    unfolding p e by simp
qed

section \<open>The window\<close>

lemma hotpAt_Inr: "safeInteger c \<Longrightarrow> 0 \<le> c \<Longrightarrow> hotpAt hmac key c p = Inr (padStart (rp_digits p) (CHR ''0'')
    (nat_dec (unat (binCode (hmac key (counterBuffer c))) mod 10 ^ rp_digits p)))"
  by (simp add: hotpAt_def)

text \<open>The code of a counter under the application's parameters.\<close>

definition appCode :: "(8 word list \<Rightarrow> 8 word list \<Rightarrow> 8 word list) \<Rightarrow> 8 word list \<Rightarrow> int \<Rightarrow> string" where
  "appCode hmac key c = padStart 6 (CHR ''0'') (nat_dec (unat (binCode (hmac key (counterBuffer c))) mod 10 ^ 6))"

lemma hotpAt_app: "safeInteger c \<Longrightarrow> 0 \<le> c \<Longrightarrow> hotpAt hmac key c APP_TOTP_PARAMETERS = Inr (appCode hmac key c)"
  by (simp add: hotpAt_Inr appCode_def APP_TOTP_PARAMETERS_def TOTP_DIGITS_def)

lemma length_nat_dec: "0 < k \<Longrightarrow> n < 10 ^ k \<Longrightarrow> length (nat_dec n) \<le> k"
proof (induction k arbitrary: n)
  case (Suc k)
  show ?case
  proof (cases "n < 10")
    case True
    then show ?thesis by (simp add: nat_dec.simps)
  next
    case False
    then have "n div 10 < 10 ^ k" "0 < k" using Suc.prems by (auto intro: gr0I simp: less_mult_imp_div_less mult.commute)
    from Suc.IH [OF this(2,1)] show ?thesis using False by (subst nat_dec.simps) simp
  qed
qed simp

lemma digits_nat_dec: "list_all is_digit (nat_dec n)"
proof (induction n rule: nat_dec.induct)
  case (1 n)
  have "is_digit (digit_char d)" if "d < 10" for d using that by (simp add: is_digit_def of_char_digit_char)
  then show ?case using 1 by (subst nat_dec.simps) simp
qed

lemma code_shape: "length (padStart k (CHR ''0'') (nat_dec (n mod 10 ^ k))) = k \<and>
    list_all is_digit (padStart k (CHR ''0'') (nat_dec (n mod 10 ^ k)))" if "0 < k"
  using length_nat_dec [OF that, of "n mod 10 ^ k"] digits_nat_dec [of "n mod 10 ^ k"]
  by (simp add: padStart_def list_all_iff) (auto simp: is_digit_def)

text \<open>The three codes around the clock.\<close>

lemma totp_match:
  assumes "base32DecodeStrict secret = Inr key" "0 \<le> now" "now < 2 ^ 53"
  shows "matchTotpCounter hmac secret code now = Inr
      (if \<not> SIX_DIGITS code then None
       else let t = now div 30000 in
         if appCode hmac key t = code then Some t
         else if 1 \<le> t \<and> appCode hmac key (t - 1) = code then Some (t - 1)
         else if appCode hmac key (t + 1) = code then Some (t + 1) else None) \<and>
    (\<exists>c. generateTotpCode hmac secret now = Inr c \<and> matchTotpCounter hmac secret c now = Inr (Some (now div 30000)))"
proof -
  define t where "t = now div 30000"
  have t: "0 \<le> t" "t < 2 ^ 53 div 30000 + 1" using assms(2,3) by (auto simp: t_def pos_imp_zdiv_nonneg_iff intro: zdiv_mono1 le_less_trans)
  have safe: "safeInteger t" "safeInteger (t + 1)" "1 \<le> t \<Longrightarrow> safeInteger (t - 1)"
    using t by (auto simp: safeInteger_def MAX_SAFE_INT_def)
  have c: "counterAt now TOTP_PERIOD_SECONDS = Inr t"
    using assms(2) safe(1) by (simp add: counterAt_def TOTP_PERIOD_SECONDS_def Let_def t_def zdiv_zmult2_eq [symmetric])
  have m: "matchTotpCounter hmac secret code now = Inr
      (if \<not> SIX_DIGITS code then None
       else if appCode hmac key t = code then Some t
         else if 1 \<le> t \<and> appCode hmac key (t - 1) = code then Some (t - 1)
         else if appCode hmac key (t + 1) = code then Some (t + 1) else None)" for code
    using assms(1) c safe t(1) by (auto simp: matchTotpCounter_def TOTP_ALLOWED_DRIFT_STEPS_def hotpAt_app r_bind_def Let_def)
  have "assertRfc6238Parameters APP_TOTP_PARAMETERS = Inr ()" "rp_period APP_TOTP_PARAMETERS = TOTP_PERIOD_SECONDS"
    by (simp_all add: assertRfc6238Parameters_def APP_TOTP_PARAMETERS_def TOTP_DIGITS_def TOTP_PERIOD_SECONDS_def safeInteger_def
        MAX_SAFE_INT_def)
  then have "generateTotpCode hmac secret now = Inr (appCode hmac key t)"
    using assms(1) c safe(1) t(1) by (simp add: generateTotpCode_def generateRfc6238Code_def r_bind_def hotpAt_app)
  moreover have "SIX_DIGITS (appCode hmac key t)" using code_shape [of 6] by (simp add: SIX_DIGITS_def appCode_def)
  ultimately show ?thesis unfolding m by (simp add: Let_def t_def [symmetric])
qed

text \<open>
  What the application accepts as a code. At any time up to 2 to the 53 milliseconds, for a valid secret,
  \<open>matchTotpCounter\<close> returns the current counter when the code is its code, else the previous one, else
  the next one, and nothing otherwise; so a match is at most one step away from the clock, and the code
  generated now always matches now.
\<close>

theorem totp_window:
  assumes "base32DecodeStrict secret = Inr key" "0 \<le> now" "now < 2 ^ 53"
  shows "matchTotpCounter hmac secret code now = Inr
      (if \<not> SIX_DIGITS code then None
       else let t = now div 30000 in
         if appCode hmac key t = code then Some t
         else if 1 \<le> t \<and> appCode hmac key (t - 1) = code then Some (t - 1)
         else if appCode hmac key (t + 1) = code then Some (t + 1) else None) \<and>
    (\<exists>c. generateTotpCode hmac secret now = Inr c \<and> matchTotpCounter hmac secret c now = Inr (Some (now div 30000)))"
  by (rule totp_match [OF assms])

definition hmac0 :: "8 word list \<Rightarrow> 8 word list \<Rightarrow> 8 word list" where
  "hmac0 key message = message @ replicate 12 0"

lemma sample_secret: "base32DecodeStrict ''NAQQ'' = Inr [104, 33]"
proof -
  have "base32Encode [104, 33] = ''NAQQ''"
    by (simp add: base32Encode_def base32Drain.simps base32Char_def BASE32_ALPHABET_def)
  then show ?thesis using decodeStrict_encode [of "[104, 33]"] by (simp add: MAX_BASE32_SECRET_LENGTH_def)
qed

theorem totp_window_witness:
  "\<exists>c. generateTotpCode hmac0 ''NAQQ'' 60000 = Inr c \<and> matchTotpCounter hmac0 ''NAQQ'' c 60000 = Inr (Some 2)"
proof -
  have "(60000 :: int) div 30000 = 2" by simp
  with totp_window [OF sample_secret, of 60000 hmac0 "[]"] show ?thesis by (simp only:) simp
qed

end
