(* ===== verification/Redis.thy ===== *)
theory Redis
  imports Json
begin

text \<open>
  The part of Redis the authentication services use: string, set and sorted-set keys, each with an optional
  expiry, read at the server's clock (milliseconds). A key is a constructor
  with the identifier its name ends in; \<open>str_key_name\<close>, \<open>set_key_name\<close> and \<open>zset_key_name\<close> give the
  name itself, and \<open>str_key_name_inject\<close>, \<open>set_key_name_inject\<close> that names never collide. A stored
  string is kept as what \<open>JSON.parse\<close> makes of it, or as plain text where it is not JSON.
\<close>

section \<open>Stored strings\<close>

datatype stored = Text string | Json json

definition stored_raw :: "stored \<Rightarrow> string" where
  "stored_raw t = (case t of Text s \<Rightarrow> s | Json j \<Rightarrow> stringify j)"

section \<open>Keys\<close>

datatype str_key =
    Session string | SessionRevoked string | SessionFamily string
  | Refresh string | RefreshFamily string | RefreshFamilyFor string
  | RotationReceipt string | LogoutReceipt string | TwoFactorPending string
  | StepUp string | WsTicket string | EmailVerify string | PwdReset string | PwdResetActive uuid
  | EmailVerifyCooldown uuid | EmailVerifyHourly uuid | PhoneVerifyCooldown uuid | PhoneVerifyHourly uuid

datatype set_key =
    UserSessions uuid | UserRefresh uuid | UserRefreshFamilies uuid | RefreshFamilyTokens string

fun str_key_name :: "str_key \<Rightarrow> string" where
  "str_key_name (Session i) = ''session:'' @ i"
| "str_key_name (SessionRevoked i) = ''session_revoked:'' @ i"
| "str_key_name (SessionFamily i) = ''session_family:'' @ i"
| "str_key_name (Refresh i) = ''refresh:'' @ i"
| "str_key_name (RefreshFamily i) = ''refresh_family:'' @ i"
| "str_key_name (RefreshFamilyFor i) = ''refresh_family_for:'' @ i"
| "str_key_name (RotationReceipt i) = ''refresh_rotation_receipt:'' @ i"
| "str_key_name (LogoutReceipt i) = ''logout_receipt:'' @ i"
| "str_key_name (TwoFactorPending i) = ''2fa_pending:'' @ i"
| "str_key_name (StepUp i) = ''step_up:'' @ i"
| "str_key_name (WsTicket i) = ''ws-ticket:'' @ i"
| "str_key_name (EmailVerify i) = ''email_verify:'' @ i"
| "str_key_name (PwdReset i) = ''pwd_reset:'' @ i"
| "str_key_name (PwdResetActive i) = ''pwd_reset_active:'' @ i"
| "str_key_name (EmailVerifyCooldown i) = ''email_verify_cooldown:'' @ i"
| "str_key_name (EmailVerifyHourly i) = ''email_verify_hourly:'' @ i"
| "str_key_name (PhoneVerifyCooldown i) = ''phone_verify_cooldown:'' @ i"
| "str_key_name (PhoneVerifyHourly i) = ''phone_verify_hourly:'' @ i"

fun set_key_name :: "set_key \<Rightarrow> string" where
  "set_key_name (UserSessions i) = ''user_sessions:'' @ i"
| "set_key_name (UserRefresh i) = ''user_refresh:'' @ i"
| "set_key_name (UserRefreshFamilies i) = ''user_refresh_families:'' @ i"
| "set_key_name (RefreshFamilyTokens i) = ''refresh_family_tokens:'' @ i"

definition zset_key_name :: "string \<Rightarrow> string" where
  "zset_key_name i = ''refresh_family_sessions:'' @ i"

lemma str_key_name_inject [simp]: "str_key_name k = str_key_name k' \<longleftrightarrow> k = k'"
  by (cases k; cases k') simp_all

lemma set_key_name_inject [simp]: "set_key_name k = set_key_name k' \<longleftrightarrow> k = k'"
  by (cases k; cases k') simp_all

lemma key_names_disjoint:
  "str_key_name k \<noteq> set_key_name l" "str_key_name k \<noteq> zset_key_name f" "set_key_name l \<noteq> zset_key_name f"
  by (cases k; cases l; simp add: zset_key_name_def)+

section \<open>Keys with an expiry\<close>

type_synonym ('k, 'v) keyspace = "'k \<rightharpoonup> 'v \<times> time option"

definition unexpired :: "time \<Rightarrow> time option \<Rightarrow> bool" where
  "unexpired now e = (case e of None \<Rightarrow> True | Some t \<Rightarrow> now < t)"

text \<open>A key past its expiry reads as absent.\<close>

definition look :: "time \<Rightarrow> ('k, 'v) keyspace \<Rightarrow> 'k \<Rightarrow> 'v option" where
  "look now ks k = (case ks k of None \<Rightarrow> None | Some (v, e) \<Rightarrow> if unexpired now e then Some v else None)"

text \<open>\<open>EX ttl\<close>, in seconds.\<close>

definition expires :: "time \<Rightarrow> int \<Rightarrow> time option" where
  "expires now ttl = Some (now + 1000 * ttl)"

text \<open>A write that leaves the expiry of a live key alone; a key it creates has none.\<close>

definition put :: "time \<Rightarrow> 'k \<Rightarrow> 'v \<Rightarrow> ('k, 'v) keyspace \<Rightarrow> ('k, 'v) keyspace" where
  "put now k v ks = (case look now ks k of
       None \<Rightarrow> ks(k \<mapsto> (v, None))
     | Some _ \<Rightarrow> ks(k \<mapsto> (v, snd (the (ks k)))))"

definition set_ttl :: "time \<Rightarrow> 'k \<Rightarrow> int \<Rightarrow> ('k, 'v) keyspace \<Rightarrow> ('k, 'v) keyspace" where
  "set_ttl now k ttl ks = (case look now ks k of
       None \<Rightarrow> ks
     | Some v \<Rightarrow> ks(k \<mapsto> (v, expires now ttl)))"

lemma look_empty [simp]: "look now Map.empty k = None"
  by (simp add: look_def)

lemma look_Some_iff: "look now ks k = Some v \<longleftrightarrow> (\<exists>e. ks k = Some (v, e) \<and> unexpired now e)"
  by (auto simp: look_def split: option.splits if_splits)

lemma look_upd_other: "k' \<noteq> k \<Longrightarrow> look now (ks(k := x)) k' = look now ks k'"
  by (simp add: look_def)

lemma look_del [simp]: "look now (ks(k := None)) k = None"
  by (simp add: look_def)

lemma unexpired_expires [simp]: "unexpired now (expires now ttl) \<longleftrightarrow> 0 < ttl"
  by (auto simp: unexpired_def expires_def)

lemma unexpired_later: "unexpired now' e \<Longrightarrow> now \<le> now' \<Longrightarrow> unexpired now e"
  by (auto simp: unexpired_def split: option.splits)

lemma look_later: "look now' ks k = Some v \<Longrightarrow> now \<le> now' \<Longrightarrow> look now ks k = Some v"
  by (auto simp: look_Some_iff intro: unexpired_later)

lemma put_other [simp]: "k' \<noteq> k \<Longrightarrow> put now k v ks k' = ks k'"
  by (auto simp: put_def split: option.splits)

lemma set_ttl_other [simp]: "k' \<noteq> k \<Longrightarrow> set_ttl now k ttl ks k' = ks k'"
  by (auto simp: set_ttl_def split: option.splits)

lemma look_put: "look now (put now k v ks) k' = (if k' = k then Some v else look now ks k')"
  by (auto simp: put_def look_def unexpired_def split: option.splits if_splits)

lemma look_set_ttl:
  "0 < ttl \<Longrightarrow> look now (set_ttl now k ttl ks) k' = look now ks k'"
  by (auto simp: set_ttl_def look_def unexpired_expires split: option.splits if_splits)

section \<open>The store and its commands\<close>

record redis =
  rs_str :: "(str_key, stored) keyspace"
  rs_set :: "(set_key, string list) keyspace"
  rs_zset :: "(string, (string \<times> int) list) keyspace"

definition redis_empty :: redis where
  "redis_empty = \<lparr>rs_str = Map.empty, rs_set = Map.empty, rs_zset = Map.empty\<rparr>"

definition GET :: "time \<Rightarrow> str_key \<Rightarrow> redis \<Rightarrow> stored option" where
  "GET now k r = look now (rs_str r) k"

definition SET_EX :: "time \<Rightarrow> str_key \<Rightarrow> stored \<Rightarrow> int \<Rightarrow> redis \<Rightarrow> redis" where
  "SET_EX now k v ttl r = r\<lparr>rs_str := (rs_str r)(k \<mapsto> (v, expires now ttl))\<rparr>"

definition DEL :: "str_key \<Rightarrow> redis \<Rightarrow> redis" where
  "DEL k r = r\<lparr>rs_str := (rs_str r)(k := None)\<rparr>"

definition SMEMBERS :: "time \<Rightarrow> set_key \<Rightarrow> redis \<Rightarrow> string list" where
  "SMEMBERS now k r = (case look now (rs_set r) k of None \<Rightarrow> [] | Some xs \<Rightarrow> xs)"

definition SADD :: "time \<Rightarrow> set_key \<Rightarrow> string \<Rightarrow> redis \<Rightarrow> redis" where
  "SADD now k x r =
     (if x \<in> set (SMEMBERS now k r) then r
      else r\<lparr>rs_set := put now k (SMEMBERS now k r @ [x]) (rs_set r)\<rparr>)"

text \<open>A set that loses its last member is deleted.\<close>

definition SREM :: "time \<Rightarrow> set_key \<Rightarrow> string \<Rightarrow> redis \<Rightarrow> redis" where
  "SREM now k x r =
     (let xs = removeAll x (SMEMBERS now k r) in
      if xs = [] then r\<lparr>rs_set := (rs_set r)(k := None)\<rparr>
      else r\<lparr>rs_set := put now k xs (rs_set r)\<rparr>)"

definition SDEL :: "set_key \<Rightarrow> redis \<Rightarrow> redis" where
  "SDEL k r = r\<lparr>rs_set := (rs_set r)(k := None)\<rparr>"

definition SEXPIRE :: "time \<Rightarrow> set_key \<Rightarrow> int \<Rightarrow> redis \<Rightarrow> redis" where
  "SEXPIRE now k ttl r = r\<lparr>rs_set := set_ttl now k ttl (rs_set r)\<rparr>"

definition ZALL :: "time \<Rightarrow> string \<Rightarrow> redis \<Rightarrow> (string \<times> int) list" where
  "ZALL now k r = (case look now (rs_zset r) k of None \<Rightarrow> [] | Some xs \<Rightarrow> xs)"

definition ZCARD :: "time \<Rightarrow> string \<Rightarrow> redis \<Rightarrow> nat" where
  "ZCARD now k r = length (ZALL now k r)"

definition ZSCORE :: "time \<Rightarrow> string \<Rightarrow> string \<Rightarrow> redis \<Rightarrow> int option" where
  "ZSCORE now k x r = map_of (ZALL now k r) x"

definition ZADD :: "time \<Rightarrow> string \<Rightarrow> int \<Rightarrow> string \<Rightarrow> redis \<Rightarrow> redis" where
  "ZADD now k score x r =
     r\<lparr>rs_zset := put now k (filter (\<lambda>m. fst m \<noteq> x) (ZALL now k r) @ [(x, score)]) (rs_zset r)\<rparr>"

text \<open>\<open>ZRANGEBYSCORE k -inf max\<close>, \<open>ZRANGEBYSCORE k min +inf\<close> and \<open>ZREMRANGEBYSCORE k -inf max\<close>.\<close>

definition ZRANGE_UPTO :: "time \<Rightarrow> string \<Rightarrow> int \<Rightarrow> redis \<Rightarrow> string list" where
  "ZRANGE_UPTO now k score r = map fst (filter (\<lambda>m. snd m \<le> score) (ZALL now k r))"

definition ZRANGE_FROM :: "time \<Rightarrow> string \<Rightarrow> int \<Rightarrow> redis \<Rightarrow> string list" where
  "ZRANGE_FROM now k score r = map fst (filter (\<lambda>m. score \<le> snd m) (ZALL now k r))"

definition ZREM_UPTO :: "time \<Rightarrow> string \<Rightarrow> int \<Rightarrow> redis \<Rightarrow> redis" where
  "ZREM_UPTO now k score r =
     (let xs = filter (\<lambda>m. \<not> snd m \<le> score) (ZALL now k r) in
      if xs = [] then r\<lparr>rs_zset := (rs_zset r)(k := None)\<rparr>
      else r\<lparr>rs_zset := put now k xs (rs_zset r)\<rparr>)"

definition ZDEL :: "string \<Rightarrow> redis \<Rightarrow> redis" where
  "ZDEL k r = r\<lparr>rs_zset := (rs_zset r)(k := None)\<rparr>"

definition ZEXPIRE :: "time \<Rightarrow> string \<Rightarrow> int \<Rightarrow> redis \<Rightarrow> redis" where
  "ZEXPIRE now k ttl r = r\<lparr>rs_zset := set_ttl now k ttl (rs_zset r)\<rparr>"

lemmas redis_cmd_defs = SET_EX_def DEL_def SADD_def SREM_def SDEL_def SEXPIRE_def ZADD_def ZREM_UPTO_def
  ZDEL_def ZEXPIRE_def

text \<open>Each command touches its own kind of key only.\<close>

named_theorems redis_frames

lemma rs_str_frames [simp, redis_frames]:
  "rs_str (SADD now k x r) = rs_str r" "rs_str (SREM now k x r) = rs_str r" "rs_str (SDEL k r) = rs_str r"
  "rs_str (SEXPIRE now k ttl r) = rs_str r" "rs_str (ZADD now z score x r) = rs_str r"
  "rs_str (ZREM_UPTO now z score r) = rs_str r" "rs_str (ZDEL z r) = rs_str r"
  "rs_str (ZEXPIRE now z ttl r) = rs_str r"
  by (simp_all add: redis_cmd_defs Let_def)

lemma rs_set_frames [simp, redis_frames]:
  "rs_set (SET_EX now k v ttl r) = rs_set r" "rs_set (DEL k r) = rs_set r"
  "rs_set (ZADD now z score x r) = rs_set r" "rs_set (ZREM_UPTO now z score r) = rs_set r"
  "rs_set (ZDEL z r) = rs_set r" "rs_set (ZEXPIRE now z ttl r) = rs_set r"
  by (simp_all add: redis_cmd_defs Let_def)

lemma rs_zset_frames [simp, redis_frames]:
  "rs_zset (SET_EX now k v ttl r) = rs_zset r" "rs_zset (DEL k r) = rs_zset r"
  "rs_zset (SADD now s x r) = rs_zset r" "rs_zset (SREM now s x r) = rs_zset r"
  "rs_zset (SDEL s r) = rs_zset r" "rs_zset (SEXPIRE now s ttl r) = rs_zset r"
  by (simp_all add: redis_cmd_defs Let_def)

lemma rs_str_SET_EX [simp]: "rs_str (SET_EX now k v ttl r) = (rs_str r)(k \<mapsto> (v, expires now ttl))"
  by (simp add: SET_EX_def)

lemma rs_str_DEL [simp]: "rs_str (DEL k r) = (rs_str r)(k := None)"
  by (simp add: DEL_def)

lemma rs_set_SDEL [simp]: "rs_set (SDEL k r) = (rs_set r)(k := None)"
  by (simp add: SDEL_def)

lemma GET_cong: "rs_str r = rs_str r' \<Longrightarrow> GET now k r = GET now k r'"
  by (simp add: GET_def)

lemma GET_SET_EX: "0 < ttl \<Longrightarrow> GET now k (SET_EX now k' v ttl r) = (if k = k' then Some v else GET now k r)"
  by (simp add: GET_def look_def)

lemma GET_DEL: "GET now k (DEL k' r) = (if k = k' then None else GET now k r)"
  by (simp add: GET_def look_def)

lemma SMEMBERS_other: "rs_set r k = rs_set r' k \<Longrightarrow> SMEMBERS now k r = SMEMBERS now k r'"
  by (simp add: SMEMBERS_def look_def)

lemma SMEMBERS_update:
  "SMEMBERS now k (r\<lparr>rs_set := (rs_set r)(k' := None)\<rparr>) = (if k = k' then [] else SMEMBERS now k r)"
  "SMEMBERS now k (r\<lparr>rs_set := put now k' xs (rs_set r)\<rparr>) = (if k = k' then xs else SMEMBERS now k r)"
  by (simp_all add: SMEMBERS_def look_put look_upd_other)

lemma SMEMBERS_SREM: "set (SMEMBERS now k (SREM now k' x r)) = set (SMEMBERS now k r) - (if k = k' then {x} else {})"
proof -
  have "set (removeAll x (SMEMBERS now k' r)) = set (SMEMBERS now k' r) - {x}" by simp
  then show ?thesis
    by (cases "removeAll x (SMEMBERS now k' r) = []") (auto simp: SREM_def Let_def SMEMBERS_update)
qed

lemma SMEMBERS_SADD: "set (SMEMBERS now k (SADD now k' x r)) = set (SMEMBERS now k r) \<union> (if k = k' then {x} else {})"
  by (auto simp: SADD_def SMEMBERS_update)

end
