(* ===== verification/Accounts.thy ===== *)
theory Accounts
  imports Redis Enums
begin

text \<open>
  What the authentication services work on: the columns of \<open>users\<close> they read and write, the
  one-time credentials and second factors stored beside them, the Redis store, and the realtime
  events and cookies a request leaves behind. Configuration, the token library, the hashes and the
  random strings are the fields of \<open>auth_env\<close>.
\<close>

section \<open>Configuration and libraries\<close>

text \<open>
  An access token is an opaque value of type \<open>'t\<close>, made and opened by the token library alone:
  \<open>jwt_sign now payload seconds\<close> and \<open>jwt_verify ignoreExpiration now token\<close>. \<open>sha256\<close> is the hex
  digest of a string.
\<close>

record 't auth_env =
  ACCESS_TOKEN_TTL_MIN :: int
  REFRESH_TOKEN_TTL_DAYS :: int
  REFRESH_ROTATION_ENABLED :: bool
  sha256 :: "string \<Rightarrow> string"
  jwt_sign :: "time \<Rightarrow> (string \<times> json) list \<Rightarrow> int \<Rightarrow> 't"
  jwt_verify :: "bool \<Rightarrow> time \<Rightarrow> 't \<Rightarrow> json option"

text \<open>The bounds \<open>config/env.ts\<close> puts on the lifetimes.\<close>

definition auth_env_ok :: "'t auth_env \<Rightarrow> bool" where
  "auth_env_ok env \<longleftrightarrow> 1 \<le> ACCESS_TOKEN_TTL_MIN env \<and> 1 \<le> REFRESH_TOKEN_TTL_DAYS env"

text \<open>
  The documented contract of the token library: a token opens to the payload it was signed with and
  its times of issue and expiry, until it expires or whenever the expiry is to be ignored.
\<close>

definition jwt_ok :: "'t auth_env \<Rightarrow> bool" where
  "jwt_ok env \<longleftrightarrow> (\<forall>ignore now t payload ttl.
     jwt_verify env ignore now (jwt_sign env t payload ttl) =
       (if ignore \<or> now div 1000 < t div 1000 + ttl
        then Some (JObj (payload @ [(''iat'', JNum (t div 1000)), (''exp'', JNum (t div 1000 + ttl))]))
        else None))"

definition access_ttl :: "'t auth_env \<Rightarrow> int" where
  "access_ttl env = ACCESS_TOKEN_TTL_MIN env * 60"

definition refresh_ttl :: "'t auth_env \<Rightarrow> int" where
  "refresh_ttl env = REFRESH_TOKEN_TTL_DAYS env * 24 * 60 * 60"

lemma ttl_pos: "auth_env_ok env \<Longrightarrow> 0 < access_ttl env \<and> 0 < refresh_ttl env"
  by (simp add: auth_env_ok_def access_ttl_def refresh_ttl_def)

section \<open>State\<close>

record user_account =
  ac_id :: uuid
  ac_email :: string
  ac_password_hash :: "string option"
  ac_display_name :: string
  ac_role :: Role
  ac_banned :: bool
  ac_version :: int
  ac_email_verified_at :: "time option"
  ac_telegram :: "string option"
  ac_phone :: "string option"
  ac_phone_verified_at :: "time option"
  ac_two_factor :: bool
  ac_email_generation :: int
  ac_password_generation :: int

definition emailVerified :: "user_account \<Rightarrow> bool" where
  "emailVerified u \<longleftrightarrow> ac_email_verified_at u \<noteq> None \<or> ac_telegram u \<noteq> None"

datatype session_event =
    SessionRevokedEvent string
  | SessionFamilyRevoked string
  | UserSessionsRevoked uuid "string option"
  | UserBanned uuid

record email_change_row =
  ec_id :: uuid
  ec_user :: uuid
  ec_pending_email :: string
  ec_token_hash :: string
  ec_version :: int
  ec_expires_at :: time
  ec_delivered :: bool

record secret_box =
  sb_ciphertext :: string
  sb_iv :: string
  sb_auth_tag :: string
  sb_version :: int

text \<open>
  Check constraints keep the four columns of a secret, and the time of a pending one, null together, so
  each group is one optional value.
\<close>

record method_row =
  tm_user :: uuid
  tm_id :: uuid
  tm_legacy :: "string option"
  tm_confirmed_at :: "time option"
  tm_created_at :: time
  tm_active :: "secret_box option"
  tm_last_counter :: "int option"
  tm_pending :: "(secret_box \<times> time) option"

record backup_code_row =
  bc_id :: uuid
  bc_user :: uuid
  bc_hash :: string
  bc_used_at :: "time option"

record telegram_row =
  ta_user :: uuid
  ta_chat :: "string option"
  ta_token :: "string option"
  ta_connected_at :: "time option"

text \<open>
  \<open>au_redis_up\<close>: a Redis URL is configured and the client is not closing, so that \<open>getRedis()\<close>
  returns it. \<open>au_cleared\<close>: the response tells the browser to drop its cookies.
\<close>

record auth_state =
  au_users :: "user_account list"
  au_redis :: redis
  au_redis_up :: bool
  au_published :: "session_event list"
  au_cleared :: bool
  au_email_changes :: "email_change_row list"
  au_methods :: "method_row list"
  au_backup_codes :: "backup_code_row list"
  au_audit :: "(uuid \<times> string) list"
  au_notified :: "(uuid \<times> string) list"
  au_wallets :: "(uuid \<times> string) list"
  au_telegrams :: "telegram_row list"
  au_events :: "(string \<times> uuid) list"

type_synonym 'a authtx = "(auth_state, 'a) tx"

interpretation accounts: table ac_id au_users au_users_update
  by unfold_locales simp

interpretation email_changes: table ec_id au_email_changes au_email_changes_update
  by unfold_locales simp

interpretation methods: table tm_user au_methods au_methods_update
  by unfold_locales simp

section \<open>Commands sent to Redis\<close>

text \<open>
  A command, a \<open>MULTI\<close> or a script is atomic, but the connection can fail before it reaches the
  server or before its reply comes back.
\<close>

datatype delivery = Replied | LostBefore | LostAfter

definition connection_lost :: err where
  "connection_lost = JsError ''Connection is closed.''"

definition redis_eval :: "delivery \<Rightarrow> (redis \<Rightarrow> 'r \<times> redis) \<Rightarrow> 'r authtx" where
  "redis_eval d f = (\<lambda>s. case d of
       Replied \<Rightarrow> (Inr (fst (f (au_redis s))), s\<lparr>au_redis := snd (f (au_redis s))\<rparr>)
     | LostBefore \<Rightarrow> (Inl connection_lost, s)
     | LostAfter \<Rightarrow> (Inl connection_lost, s\<lparr>au_redis := snd (f (au_redis s))\<rparr>))"

definition redis_do :: "delivery \<Rightarrow> (redis \<Rightarrow> redis) \<Rightarrow> unit authtx" where
  "redis_do d f = redis_eval d (\<lambda>r. ((), f r))"

text \<open>\<open>const redis = getRedis(); if (!redis) throw e\<close>.\<close>

definition requireRedis :: "err \<Rightarrow> unit authtx" where
  "requireRedis e = tx_bind (tx_gets au_redis_up) (\<lambda>up. tx_guard up e)"

definition clearAuthCookies :: "unit authtx" where
  "clearAuthCookies = tx_modify (au_cleared_update (\<lambda>_. True))"

definition publish :: "session_event \<Rightarrow> unit authtx" where
  "publish e = tx_modify (au_published_update (\<lambda>es. es @ [e]))"

text \<open>\<open>select ... from users where id = $1\<close>.\<close>

definition accountById :: "uuid \<Rightarrow> user_account option authtx" where
  "accountById i = tx_gets (\<lambda>s. t_find ac_id i (au_users s))"

lemma requireRedis_iff [tx_simps]: "requireRedis e s = (Inr x, s') \<longleftrightarrow> au_redis_up s \<and> s' = s"
  by (auto simp: requireRedis_def tx_simps)

lemma redis_eval_iff [tx_simps]:
  "redis_eval d f s = (Inr x, s') \<longleftrightarrow>
     d = Replied \<and> x = fst (f (au_redis s)) \<and> s' = s\<lparr>au_redis := snd (f (au_redis s))\<rparr>"
  by (cases d) (auto simp: redis_eval_def)

lemma redis_do_iff [tx_simps]:
  "redis_do d f s = (Inr x, s') \<longleftrightarrow> d = Replied \<and> s' = s\<lparr>au_redis := f (au_redis s)\<rparr>"
  by (auto simp: redis_do_def tx_simps)

lemma publish_iff [tx_simps]:
  "publish e s = (Inr x, s') \<longleftrightarrow> s' = s\<lparr>au_published := au_published s @ [e]\<rparr>"
  by (auto simp: publish_def tx_simps)

lemma clearAuthCookies_iff [tx_simps]: "clearAuthCookies s = (Inr x, s') \<longleftrightarrow> s' = s\<lparr>au_cleared := True\<rparr>"
  by (auto simp: clearAuthCookies_def tx_simps)

lemma accountById_iff [tx_simps]:
  "accountById i s = (Inr x, s') \<longleftrightarrow> x = t_find ac_id i (au_users s) \<and> s' = s"
  by (auto simp: accountById_def tx_simps)

text \<open>A transaction of \<open>inTx\<close> over the tables of this state; Redis keeps what reached it.\<close>

definition auth_rollback :: "auth_state \<Rightarrow> auth_state \<Rightarrow> auth_state" where
  "auth_rollback s s' = s'\<lparr>au_users := au_users s, au_email_changes := au_email_changes s,
     au_methods := au_methods s, au_backup_codes := au_backup_codes s, au_audit := au_audit s, au_wallets := au_wallets s,
     au_telegrams := au_telegrams s, au_events := au_events s\<rparr>"

definition authTx :: "'a authtx \<Rightarrow> 'a authtx" where
  "authTx m = (\<lambda>s. case m s of (Inl e, s') \<Rightarrow> (Inl e, auth_rollback s s') | (Inr x, s') \<Rightarrow> (Inr x, s'))"

lemma authTx_iff [tx_simps]: "authTx m s = (Inr x, s') \<longleftrightarrow> m s = (Inr x, s')"
  by (auto simp: authTx_def split: sum.splits prod.splits)

end
