(* ===== verification/TwoFactorCrypto.thy ===== *)
theory TwoFactorCrypto
  imports Totp Accounts
begin

text \<open>
  \<open>modules/auth/twofa-crypto-core.ts\<close> and \<open>twofa-crypto.service.ts\<close>: authenticator secrets at rest,
  encrypted under the key of their version and bound to their user. The cipher itself is the fields
  \<open>aes_encrypt\<close> and \<open>aes_decrypt\<close> of the library; Base64 and the keyring are written out.
\<close>

section \<open>The library\<close>

text \<open>
  AES-256-GCM: \<open>aes_encrypt key iv aad text\<close> gives ciphertext and tag, \<open>aes_decrypt key iv aad tag
  ciphertext\<close> the text or nothing when the tag does not fit.
\<close>

record cipher =
  aes_encrypt :: "8 word list \<Rightarrow> 8 word list \<Rightarrow> string \<Rightarrow> string \<Rightarrow> 8 word list \<times> 8 word list"
  aes_decrypt :: "8 word list \<Rightarrow> 8 word list \<Rightarrow> string \<Rightarrow> 8 word list \<Rightarrow> 8 word list \<Rightarrow> string option"

definition IV_BYTES :: nat where "IV_BYTES = 12"

definition AUTH_TAG_BYTES :: nat where "AUTH_TAG_BYTES = 16"

definition MAX_ENCODED_CIPHERTEXT_LENGTH :: nat where "MAX_ENCODED_CIPHERTEXT_LENGTH = 8192"

text \<open>
  The contract of GCM for one encryption: the ciphertext is as long as the text (here ASCII), the tag has
  16 bytes, and the text comes back under the associated data it was sealed with and under no other.
\<close>

definition seals :: "cipher \<Rightarrow> 8 word list \<Rightarrow> 8 word list \<Rightarrow> string \<Rightarrow> string \<Rightarrow> bool" where
  "seals c key iv aad txt \<longleftrightarrow>
     length (fst (aes_encrypt c key iv aad txt)) = length txt \<and>
     length (snd (aes_encrypt c key iv aad txt)) = AUTH_TAG_BYTES \<and>
     (\<forall>aad'. aes_decrypt c key iv aad' (snd (aes_encrypt c key iv aad txt)) (fst (aes_encrypt c key iv aad txt)) =
        (if aad' = aad then Some txt else None))"

section \<open>Base64\<close>

definition BASE64_ALPHABET :: string where
  "BASE64_ALPHABET = ''ABCDEFGHIJKLMNOPQRSTUVWXYZabcdefghijklmnopqrstuvwxyz0123456789+/''"

definition b64 :: "nat \<Rightarrow> char" where
  "b64 n = BASE64_ALPHABET ! (n mod 64)"

definition b64_index :: "char \<Rightarrow> nat" where
  "b64_index c = length (takeWhile (\<lambda>x. x \<noteq> c) BASE64_ALPHABET)"

text \<open>\<open>buffer.toString("base64")\<close>.\<close>

fun base64Encode :: "8 word list \<Rightarrow> string" where
  "base64Encode [] = []"
| "base64Encode [a] = [b64 (unat a div 4), b64 (unat a * 16), CHR ''='', CHR ''='']"
| "base64Encode [a, b] = [b64 (unat a div 4), b64 (unat a * 16 + unat b div 16), b64 (unat b * 4), CHR ''='']"
| "base64Encode (a # b # c # bytes) =
     b64 (unat a div 4) # b64 (unat a * 16 + unat b div 16) # b64 (unat b * 4 + unat c div 64) # b64 (unat c) #
     base64Encode bytes"

text \<open>\<open>Buffer.from(value, "base64")\<close> on text of the shape checked before.\<close>

fun base64Decode :: "string \<Rightarrow> 8 word list" where
  "base64Decode (w # x # y # z # s) =
     (let i = b64_index w; j = b64_index x; k = b64_index y; l = b64_index z in
      if y = CHR ''='' then [of_nat (i * 4 + j div 16)]
      else if z = CHR ''='' then [of_nat (i * 4 + j div 16), of_nat (j * 16 + k div 4)]
      else of_nat (i * 4 + j div 16) # of_nat (j * 16 + k div 4) # of_nat (k * 64 + l) # base64Decode s)"
| "base64Decode _ = []"

definition b64_char :: "char \<Rightarrow> bool" where
  "b64_char c \<longleftrightarrow> c \<in> set BASE64_ALPHABET"

text \<open>\<open>/^(?:[A-Za-z0-9+/]{4})*(?:[A-Za-z0-9+/]{2}==|[A-Za-z0-9+/]{3}=)?$/\<close>.\<close>

fun base64Shape :: "string \<Rightarrow> bool" where
  "base64Shape [] = True"
| "base64Shape (w # x # y # z # s) =
     (b64_char w \<and> b64_char x \<and>
      ((b64_char y \<and> b64_char z \<and> base64Shape s) \<or>
       (s = [] \<and> z = CHR ''='' \<and> (b64_char y \<or> y = CHR ''=''))))"
| "base64Shape _ = False"

definition malformed :: "string \<Rightarrow> err" where
  "malformed field = JsError (''Malformed two-factor '' @ field)"

definition decodeBase64Strict :: "string \<Rightarrow> string \<Rightarrow> nat option \<Rightarrow> nat option \<Rightarrow> 8 word list result" where
  "decodeBase64Strict value field exactBytes maxEncodedLength =
     (if value = [] \<or> (case maxEncodedLength of None \<Rightarrow> False | Some m \<Rightarrow> m < length value) \<or> \<not> base64Shape value
      then Inl (malformed field)
      else let decoded = base64Decode value in
        if base64Encode decoded \<noteq> value \<or> (case exactBytes of None \<Rightarrow> False | Some n \<Rightarrow> length decoded \<noteq> n)
        then Inl (malformed field) else Inr decoded)"

section \<open>Keys\<close>

record TwoFactorEncryptionKey =
  ek_hex :: string
  ek_version :: int

record TwoFactorEncryptionConfig =
  ec_key :: TwoFactorEncryptionKey
  ec_previous :: "TwoFactorEncryptionKey list"

definition assertKeyVersion :: "int \<Rightarrow> unit result" where
  "assertKeyVersion version =
     (if \<not> safeInteger version \<or> version < 1
      then Inl (JsError ''TWO_FACTOR_ENCRYPTION_KEY_VERSION must be a positive integer'') else Inr ())"

definition hex_value :: "char \<Rightarrow> nat option" where
  "hex_value c = (let n = of_char c :: nat in
     if 48 \<le> n \<and> n \<le> 57 then Some (n - 48)
     else if 65 \<le> n \<and> n \<le> 70 then Some (n - 55)
     else if 97 \<le> n \<and> n \<le> 102 then Some (n - 87) else None)"

fun hexBytes :: "string \<Rightarrow> 8 word list" where
  "hexBytes (a # b # s) = (case (hex_value a, hex_value b) of
       (Some x, Some y) \<Rightarrow> of_nat (16 * x + y) # hexBytes s
     | _ \<Rightarrow> [])"
| "hexBytes _ = []"

definition encryptionKey :: "TwoFactorEncryptionKey \<Rightarrow> 8 word list result" where
  "encryptionKey entry =
     r_bind (assertKeyVersion (ek_version entry)) (\<lambda>_.
     if length (ek_hex entry) \<noteq> 64 \<or> \<not> list_all (\<lambda>c. hex_value c \<noteq> None) (ek_hex entry)
     then Inl (JsError ''TWO_FACTOR_ENCRYPTION_KEY must be 64 hexadecimal characters'')
     else if length (hexBytes (ek_hex entry)) \<noteq> 32
     then Inl (JsError ''TWO_FACTOR_ENCRYPTION_KEY must decode to exactly 32 bytes'')
     else Inr (hexBytes (ek_hex entry)))"

fun addKeys :: "TwoFactorEncryptionKey list \<Rightarrow> (int \<times> 8 word list) list \<Rightarrow> (int \<times> 8 word list) list result" where
  "addKeys [] keyring = Inr keyring"
| "addKeys (entry # entries) keyring =
     (if map_of keyring (ek_version entry) \<noteq> None
      then Inl (JsError (''Duplicate two-factor encryption key version: '' @ int_dec (ek_version entry)))
      else r_bind (encryptionKey entry) (\<lambda>key. addKeys entries (keyring @ [(ek_version entry, key)])))"

definition encryptionKeyring :: "TwoFactorEncryptionConfig \<Rightarrow> (int \<times> 8 word list) list result" where
  "encryptionKeyring config = addKeys (ec_key config # ec_previous config) []"

definition additionalAuthenticatedData :: "uuid \<Rightarrow> int \<Rightarrow> string result" where
  "additionalAuthenticatedData userId version =
     (if userId = [] then Inl (JsError ''Two-factor secret user id must not be empty'')
      else Inr (''skrynia:2fa:'' @ userId @ '':v'' @ int_dec version))"

section \<open>Encrypting and decrypting\<close>

text \<open>\<open>iv\<close> is the vector \<open>randomBytes(IV_BYTES)\<close> draws.\<close>

definition encryptTwoFactorSecret ::
  "cipher \<Rightarrow> TwoFactorEncryptionConfig \<Rightarrow> 8 word list \<Rightarrow> string \<Rightarrow> uuid \<Rightarrow> secret_box result" where
  "encryptTwoFactorSecret c config iv secret userId =
     r_bind (encryptionKeyring config) (\<lambda>keyring.
     r_bind (case map_of keyring (ek_version (ec_key config)) of
         None \<Rightarrow> Inl (JsError ''Current two-factor encryption key is unavailable'') | Some key \<Rightarrow> Inr key) (\<lambda>currentKey.
     r_bind (additionalAuthenticatedData userId (ek_version (ec_key config))) (\<lambda>aad.
     let encrypted = aes_encrypt c currentKey iv aad secret in
     Inr \<lparr>sb_ciphertext = base64Encode (fst encrypted), sb_iv = base64Encode iv,
       sb_auth_tag = base64Encode (snd encrypted), sb_version = ek_version (ec_key config)\<rparr>)))"

record DecryptedTwoFactorSecret =
  ds_secret :: string
  ds_needs_rotation :: bool

definition decryptTwoFactorSecretForRotation ::
  "cipher \<Rightarrow> TwoFactorEncryptionConfig \<Rightarrow> secret_box \<Rightarrow> uuid \<Rightarrow> DecryptedTwoFactorSecret result" where
  "decryptTwoFactorSecretForRotation c config encrypted userId =
     r_bind (assertKeyVersion (sb_version encrypted)) (\<lambda>_.
     r_bind (encryptionKeyring config) (\<lambda>keyring.
     r_bind (case map_of keyring (sb_version encrypted) of
         None \<Rightarrow> Inl (JsError (''Unsupported two-factor encryption key version: '' @ int_dec (sb_version encrypted)))
       | Some key \<Rightarrow> Inr key) (\<lambda>key.
     r_bind (decodeBase64Strict (sb_iv encrypted) ''IV'' (Some IV_BYTES) None) (\<lambda>iv.
     r_bind (decodeBase64Strict (sb_auth_tag encrypted) ''authentication tag'' (Some AUTH_TAG_BYTES) None) (\<lambda>authTag.
     r_bind (decodeBase64Strict (sb_ciphertext encrypted) ''ciphertext'' None (Some MAX_ENCODED_CIPHERTEXT_LENGTH)) (\<lambda>ciphertext.
     r_bind (additionalAuthenticatedData userId (sb_version encrypted)) (\<lambda>aad.
     case aes_decrypt c key iv aad authTag ciphertext of
       None \<Rightarrow> Inl (JsError ''Unsupported state or unable to authenticate data'')
     | Some secret \<Rightarrow> Inr \<lparr>ds_secret = secret, ds_needs_rotation = sb_version encrypted \<noteq> ek_version (ec_key config)\<rparr>)))))))"

definition decryptTwoFactorSecret :: "cipher \<Rightarrow> TwoFactorEncryptionConfig \<Rightarrow> secret_box \<Rightarrow> uuid \<Rightarrow> string result" where
  "decryptTwoFactorSecret c config encrypted userId =
     r_bind (decryptTwoFactorSecretForRotation c config encrypted userId) (\<lambda>d. Inr (ds_secret d))"

section \<open>Base64 there and back\<close>

lemma length_b64: "length BASE64_ALPHABET = 64"
  by (simp add: BASE64_ALPHABET_def)

lemma distinct_b64: "distinct BASE64_ALPHABET"
  by (simp add: BASE64_ALPHABET_def)

lemma b64_index_b64 [simp]: "b64_index (b64 n) = n mod 64"
  using takeWhile_index [OF distinct_b64, of "n mod 64"] by (simp add: b64_index_def b64_def length_b64)

lemma b64_char_b64 [simp]: "b64_char (b64 n)"
  using length_b64 by (simp add: b64_def b64_char_def)

lemma b64_not_pad [simp]: "b64 n \<noteq> CHR ''=''" "\<not> b64_char (CHR ''='')"
proof -
  show "\<not> b64_char (CHR ''='')" by (simp add: b64_char_def BASE64_ALPHABET_def)
  then show "b64 n \<noteq> CHR ''=''" using b64_char_b64 [of n] by metis
qed

lemma sextets:
  fixes a b c :: nat
  assumes "a < 256" "b < 256" "c < 256"
  shows "a div 4 mod 64 * 4 + a * 16 mod 64 div 16 = a"
    "a div 4 mod 64 * 4 + (a * 16 + b div 16) mod 64 div 16 = a"
    "(a * 16 + b div 16) mod 64 * 16 + b * 4 mod 64 div 4 = b + 256 * (a mod 4)"
    "(a * 16 + b div 16) mod 64 * 16 + (b * 4 + c div 64) mod 64 div 4 = b + 256 * (a mod 4)"
    "(b * 4 + c div 64) mod 64 * 64 + c mod 64 = c + 256 * (b mod 16)"
proof -
  have m: "a * 16 mod 64 = a mod 4 * 16" "b * 4 mod 64 = b mod 16 * 4"
    using mod_mult_mult2 [of a 16 4] mod_mult_mult2 [of b 4 16] by simp_all
  have x: "(a * 16 + b div 16) mod 64 = a mod 4 * 16 + b div 16"
  proof -
    have "(a * 16 + b div 16) mod 64 = (a mod 4 * 16 + b div 16) mod 64" using m(1) by (metis mod_add_left_eq)
    also have "a mod 4 * 16 + b div 16 < 64" using assms(2) mod_less_divisor [of 4 a] by simp
    ultimately show ?thesis by simp
  qed
  have y: "(b * 4 + c div 64) mod 64 = b mod 16 * 4 + c div 64"
  proof -
    have "(b * 4 + c div 64) mod 64 = (b mod 16 * 4 + c div 64) mod 64" using m(2) by (metis mod_add_left_eq)
    also have "b mod 16 * 4 + c div 64 < 64" using assms(3) mod_less_divisor [of 16 b] by simp
    ultimately show ?thesis by simp
  qed
  have a4: "a div 4 mod 64 = a div 4" "a = a div 4 * 4 + a mod 4" using assms(1) by simp_all
  have b16: "b div 16 div 16 = 0" "b = b div 16 * 16 + b mod 16" "c div 64 div 4 = 0" "c = c div 64 * 64 + c mod 64"
    using assms(2,3) by simp_all
  show "a div 4 mod 64 * 4 + a * 16 mod 64 div 16 = a" using a4 m(1) by simp
  show "a div 4 mod 64 * 4 + (a * 16 + b div 16) mod 64 div 16 = a" unfolding x using a4 assms(2) by simp
  show "(a * 16 + b div 16) mod 64 * 16 + b * 4 mod 64 div 4 = b + 256 * (a mod 4)" unfolding x m(2) using b16(2) by simp
  show "(a * 16 + b div 16) mod 64 * 16 + (b * 4 + c div 64) mod 64 div 4 = b + 256 * (a mod 4)"
    unfolding x y using b16(2) assms(3) by simp
  show "(b * 4 + c div 64) mod 64 * 64 + c mod 64 = c + 256 * (b mod 16)" unfolding y using b16(4) by simp
qed

lemma byte_of: "(of_nat (unat b + 256 * k) :: 8 word) = b"
proof -
  have "(of_nat (256 * k) :: 8 word) = 0" by (simp only: word_of_nat_eq_0_iff) simp
  then show ?thesis by (simp only: of_nat_add) simp
qed

lemma unat_byte: "unat (b :: 8 word) < 256"
  using unsigned_less [of b, where 'a = nat] by simp

lemma byte_sextets:
  fixes a b c :: "8 word"
  shows "(of_nat (unat a div 4 mod 64 * 4 + unat a * 16 mod 64 div 16) :: 8 word) = a"
    "(of_nat (unat a div 4 mod 64 * 4 + (unat a * 16 + unat b div 16) mod 64 div 16) :: 8 word) = a"
    "(of_nat ((unat a * 16 + unat b div 16) mod 64 * 16 + unat b * 4 mod 64 div 4) :: 8 word) = b"
    "(of_nat ((unat a * 16 + unat b div 16) mod 64 * 16 + (unat b * 4 + unat c div 64) mod 64 div 4) :: 8 word) = b"
    "(of_nat ((unat b * 4 + unat c div 64) mod 64 * 64 + unat c mod 64) :: 8 word) = c"
  using sextets [OF unat_byte [of a] unat_byte [of b] unat_byte [of c]] by (simp_all only: byte_of of_nat_unat ucast_id)

lemma base64_roundtrip: "base64Decode (base64Encode bs) = bs \<and> base64Shape (base64Encode bs)"
  by (induction bs rule: base64Encode.induct)
    (simp_all only: base64Encode.simps base64Decode.simps base64Shape.simps Let_def b64_index_b64 b64_char_b64 b64_not_pad
      byte_sextets if_True if_False simp_thms)

lemma length_base64: "length (base64Encode bs) = (length bs + 2) div 3 * 4"
proof (induction bs rule: base64Encode.induct)
  case (4 a b c bytes)
  have "(length bytes + 2 + 3) div 3 = (length bytes + 2) div 3 + 1" by (rule div_add_self2) simp
  moreover have "length (a # b # c # bytes) + 2 = length bytes + 2 + 3" by simp
  ultimately show ?case using 4 by (simp only: base64Encode.simps list.size) simp
qed simp_all

lemma decodeStrict_base64:
  assumes "bs \<noteq> []" "case m of None \<Rightarrow> True | Some k \<Rightarrow> (length bs + 2) div 3 * 4 \<le> k" "n = None \<or> n = Some (length bs)"
  shows "decodeBase64Strict (base64Encode bs) field n m = Inr bs"
proof -
  have "base64Encode bs \<noteq> []" using length_base64 [of bs] assms(1) by (cases bs) auto
  then show ?thesis using base64_roundtrip [of bs] assms(2,3)
    by (auto simp: decodeBase64Strict_def Let_def length_base64 split: option.splits)
qed

section \<open>What a sealed secret opens to\<close>

text \<open>No two users share associated data under one version.\<close>

lemma aad_inject:
  assumes "additionalAuthenticatedData u v = Inr a" "additionalAuthenticatedData u' v = Inr a"
  shows "u = u'"
  using assms by (auto simp: additionalAuthenticatedData_def split: if_splits)

text \<open>
  A secret at rest belongs to one user. What \<open>encryptTwoFactorSecret\<close> sealed for a user,
  \<open>decryptTwoFactorSecretForRotation\<close> opens to the same secret for that user under every later
  configuration that still holds the key of its version, asking for rotation exactly when that version
  is no longer the current one; for any other user it throws.
\<close>

lemma secret_at_rest:
  assumes sealed: "encryptTwoFactorSecret c config iv secret u = Inr box"
    and size: "length iv = IV_BYTES" "secret \<noteq> []" "length secret \<le> 6144"
    and later: "encryptionKeyring config' = Inr ring" "map_of ring (ek_version (ec_key config)) = Some key"
    and gcm: "\<And>aad ring0 key0. encryptionKeyring config = Inr ring0 \<Longrightarrow> map_of ring0 (ek_version (ec_key config)) = Some key0 \<Longrightarrow>
      additionalAuthenticatedData u (ek_version (ec_key config)) = Inr aad \<Longrightarrow> key0 = key \<and> seals c key iv aad secret"
  shows "decryptTwoFactorSecretForRotation c config' box u' =
    (if u' = u then Inr \<lparr>ds_secret = secret, ds_needs_rotation = ek_version (ec_key config) \<noteq> ek_version (ec_key config')\<rparr>
     else if u' = [] then Inl (JsError ''Two-factor secret user id must not be empty'')
     else Inl (JsError ''Unsupported state or unable to authenticate data''))"
proof -
  let ?v = "ek_version (ec_key config)"
  from sealed obtain ring0 key0 aad where r: "encryptionKeyring config = Inr ring0" "map_of ring0 ?v = Some key0"
    "additionalAuthenticatedData u ?v = Inr aad"
    and box: "box = \<lparr>sb_ciphertext = base64Encode (fst (aes_encrypt c key0 iv aad secret)), sb_iv = base64Encode iv,
      sb_auth_tag = base64Encode (snd (aes_encrypt c key0 iv aad secret)), sb_version = ?v\<rparr>"
    by (auto simp: encryptTwoFactorSecret_def r_bind_def Let_def split: sum.splits option.splits)
  from gcm [OF r] have k: "key0 = key" and g: "seals c key iv aad secret" by simp_all
  from r(1) have v: "assertKeyVersion ?v = Inr ()"
    by (auto simp: encryptionKeyring_def encryptionKey_def r_bind_def split: sum.splits)
  have "decodeBase64Strict (sb_iv box) ''IV'' (Some IV_BYTES) None = Inr iv"
    unfolding box using size(1) by (simp add: decodeStrict_base64 IV_BYTES_def flip: length_greater_0_conv)
  moreover have "decodeBase64Strict (sb_auth_tag box) ''authentication tag'' (Some AUTH_TAG_BYTES) None
      = Inr (snd (aes_encrypt c key iv aad secret))"
    unfolding box k using g by (simp add: decodeStrict_base64 seals_def AUTH_TAG_BYTES_def flip: length_greater_0_conv)
  moreover have "decodeBase64Strict (sb_ciphertext box) ''ciphertext'' None (Some MAX_ENCODED_CIPHERTEXT_LENGTH)
      = Inr (fst (aes_encrypt c key iv aad secret))"
  proof -
    have "(length secret + 2) div 3 * 4 \<le> 8192" using div_le_mono [of "length secret + 2" 6146 3] size(3) by simp
    then show ?thesis unfolding box k using g size(2)
      by (simp add: decodeStrict_base64 seals_def MAX_ENCODED_CIPHERTEXT_LENGTH_def flip: length_greater_0_conv)
  qed
  ultimately have d: "decryptTwoFactorSecretForRotation c config' box u' =
      r_bind (additionalAuthenticatedData u' ?v) (\<lambda>aad'.
        case aes_decrypt c key iv aad' (snd (aes_encrypt c key iv aad secret)) (fst (aes_encrypt c key iv aad secret)) of
          None \<Rightarrow> Inl (JsError ''Unsupported state or unable to authenticate data'')
        | Some t \<Rightarrow> Inr \<lparr>ds_secret = t, ds_needs_rotation = ?v \<noteq> ek_version (ec_key config')\<rparr>)"
    using later v unfolding decryptTwoFactorSecretForRotation_def r_bind_def box
    by (simp split: sum.split option.split)
  show ?thesis
  proof (cases "additionalAuthenticatedData u' ?v")
    case (Inl e)
    then show ?thesis using r(3) unfolding d by (auto simp: r_bind_def additionalAuthenticatedData_def split: if_splits)
  next
    case (Inr aad')
    then have "aad' = aad \<longleftrightarrow> u' = u" using r(3) aad_inject by auto
    moreover have "u' \<noteq> []" using Inr by (auto simp: additionalAuthenticatedData_def)
    ultimately show ?thesis unfolding d using g Inr by (simp add: r_bind_def seals_def)
  qed
qed

definition cipher0 :: cipher where
  "cipher0 = \<lparr>aes_encrypt = (\<lambda>key iv aad txt. (map (\<lambda>ch. of_nat (of_char ch)) txt, replicate 16 7)),
     aes_decrypt = (\<lambda>key iv aad tag ciphertext. if aad = ''skrynia:2fa:u1:v1'' then Some (map (\<lambda>b. char_of (unat b)) ciphertext) else None)\<rparr>"

definition key_entry0 :: "int \<Rightarrow> TwoFactorEncryptionKey" where
  "key_entry0 v = \<lparr>ek_hex = replicate 64 (CHR ''a''), ek_version = v\<rparr>"

definition iv0 :: "8 word list" where
  "iv0 = replicate 12 1"

definition sealed0 :: "secret_box result" where
  "sealed0 = encryptTwoFactorSecret cipher0 \<lparr>ec_key = key_entry0 1, ec_previous = []\<rparr> iv0 ''NAQQ'' ''u1''"

lemma key_entry0: "\<exists>key. \<forall>v. 1 \<le> v \<and> v \<le> 9 \<longrightarrow> encryptionKey (key_entry0 v) = Inr key"
proof -
  have "hexBytes (replicate 64 (CHR ''a'')) = replicate 32 170"
    by (simp add: eval_nat_numeral hex_value_def)
  then show ?thesis
    by (intro exI [of _ "replicate 32 170"])
      (simp add: encryptionKey_def key_entry0_def assertKeyVersion_def safeInteger_def MAX_SAFE_INT_def r_bind_def list_all_iff hex_value_def)
qed

lemma sealed_sample:
  "\<exists>box. sealed0 = Inr box \<and> sb_ciphertext box \<noteq> [] \<and> sb_iv box \<noteq> [] \<and> sb_auth_tag box \<noteq> [] \<and>
     decryptTwoFactorSecretForRotation cipher0 \<lparr>ec_key = key_entry0 1, ec_previous = []\<rparr> box ''u1'' =
       Inr \<lparr>ds_secret = ''NAQQ'', ds_needs_rotation = False\<rparr> \<and>
     decryptTwoFactorSecretForRotation cipher0 \<lparr>ec_key = key_entry0 2, ec_previous = [key_entry0 1]\<rparr> box ''u1'' =
       Inr \<lparr>ds_secret = ''NAQQ'', ds_needs_rotation = True\<rparr> \<and>
     decryptTwoFactorSecretForRotation cipher0 \<lparr>ec_key = key_entry0 2, ec_previous = [key_entry0 1]\<rparr> box ''u2'' =
       Inl (JsError ''Unsupported state or unable to authenticate data'')"
proof -
  obtain key where key: "encryptionKey (key_entry0 1) = Inr key" "encryptionKey (key_entry0 2) = Inr key"
    using key_entry0 by fastforce
  have v: "ek_version (key_entry0 n) = n" for n by (simp add: key_entry0_def)
  have one: "encryptionKeyring \<lparr>ec_key = key_entry0 1, ec_previous = []\<rparr> = Inr [(1, key)]"
    and two: "encryptionKeyring \<lparr>ec_key = key_entry0 2, ec_previous = [key_entry0 1]\<rparr> = Inr [(2, key), (1, key)]"
    by (simp_all add: encryptionKeyring_def key v r_bind_def)
  have aad: "additionalAuthenticatedData ''u1'' 1 = Inr ''skrynia:2fa:u1:v1''"
  proof -
    have "int_dec 1 = ''1''" by code_simp
    then show ?thesis by (simp add: additionalAuthenticatedData_def)
  qed
  have seal: "seals cipher0 key iv0 ''skrynia:2fa:u1:v1'' ''NAQQ''"
    by (simp add: seals_def cipher0_def AUTH_TAG_BYTES_def) code_simp
  let ?c1 = "\<lparr>ec_key = key_entry0 1, ec_previous = []\<rparr>" and ?c2 = "\<lparr>ec_key = key_entry0 2, ec_previous = [key_entry0 1]\<rparr>"
  have full: "base64Encode bs \<noteq> []" if "bs \<noteq> []" for bs using that by (cases bs rule: base64Encode.cases) simp_all
  obtain box where box: "sealed0 = Inr box" and parts: "sb_ciphertext box \<noteq> []" "sb_iv box \<noteq> []" "sb_auth_tag box \<noteq> []"
    by (simp add: sealed0_def encryptTwoFactorSecret_def one v r_bind_def aad Let_def full cipher0_def iv0_def)
  have opened: "decryptTwoFactorSecretForRotation cipher0 c box u =
      (if u = ''u1'' then Inr \<lparr>ds_secret = ''NAQQ'', ds_needs_rotation = ek_version (ec_key ?c1) \<noteq> ek_version (ec_key c)\<rparr>
       else if u = [] then Inl (JsError ''Two-factor secret user id must not be empty'')
       else Inl (JsError ''Unsupported state or unable to authenticate data''))"
    if ring: "encryptionKeyring c = Inr ring" "map_of ring 1 = Some key" for u c ring
  proof (rule secret_at_rest [OF box [unfolded sealed0_def] _ _ _ ring(1)])
    show "map_of ring (ek_version (ec_key ?c1)) = Some key" using ring(2) by (simp add: v)
    fix aad ring0 key0
    assume "encryptionKeyring ?c1 = Inr ring0" "map_of ring0 (ek_version (ec_key ?c1)) = Some key0"
      "additionalAuthenticatedData ''u1'' (ek_version (ec_key ?c1)) = Inr aad"
    then show "key0 = key \<and> seals cipher0 key iv0 aad ''NAQQ''" using one aad seal by (auto simp: v)
  qed (simp_all add: iv0_def IV_BYTES_def)
  show ?thesis
    using box parts opened [OF one, of "''u1''"] opened [OF two, of "''u1''"] opened [OF two, of "''u2''"]
    by (intro exI [of _ box]) (simp add: v)
qed

end
