(* ===== verification/Sessions.thy ===== *)
theory Sessions
  imports Accounts
begin

text \<open>
  \<open>modules/auth/session.service.ts\<close> and \<open>common/middleware/auth.ts\<close>: issuing a session, rotating its
  refresh token, fencing it at logout, and the check every authenticated request passes. The three
  Lua scripts are functions on the store; Redis runs each of them atomically.
\<close>

section \<open>Constants and records\<close>

definition REFRESH_FAMILY_ALIAS_TTL_SECONDS :: int where
  "REFRESH_FAMILY_ALIAS_TTL_SECONDS = 5 * 60"

definition REFRESH_ROTATION_RECEIPT_TTL_SECONDS :: int where
  "REFRESH_ROTATION_RECEIPT_TTL_SECONDS = 5 * 60"

definition LOGOUT_RECEIPT_TTL_SECONDS :: int where
  "LOGOUT_RECEIPT_TTL_SECONDS = 8 * 24 * 60 * 60"

definition MAX_REFRESH_FAMILY_SESSIONS :: nat where
  "MAX_REFRESH_FAMILY_SESSIONS = 512"

record RefreshRecord =
  rr_user :: uuid
  rr_version :: int
  rr_family :: "string option"

record LogoutAccessIdentity =
  lai_user :: uuid
  lai_session :: string
  lai_family :: "string option"
  lai_may_revoke_family :: bool

record 't SessionCredentials =
  sc_access_token :: 't
  sc_refresh_token :: string
  sc_csrf_token :: string
  sc_jti :: string
  sc_version :: int
  sc_family :: string
  sc_refresh_hash :: string

text \<open>The random strings one issue draws: \<open>nanoid()\<close>, \<open>nanoid(32)\<close> and 32 random bytes.\<close>

record fresh_ids =
  fr_jti :: string
  fr_csrf :: string
  fr_refresh :: string

definition refreshRecord :: "uuid \<Rightarrow> int \<Rightarrow> string \<Rightarrow> stored" where
  "refreshRecord u v f = Json (JObj [(''u'', JStr u), (''v'', JNum v), (''f'', JStr f)])"

definition familyRecord :: "string \<Rightarrow> uuid \<Rightarrow> stored" where
  "familyRecord st u = Json (JObj [(''s'', JStr st), (''u'', JStr u)])"

definition nonempty :: "json option \<Rightarrow> string option" where
  "nonempty v = (case v of Some (JStr s) \<Rightarrow> if s = [] then None else Some s | _ \<Rightarrow> None)"

text \<open>A legacy record is the bare user id and counts as version 1.\<close>

definition parseRefreshRecord :: "stored \<Rightarrow> RefreshRecord option" where
  "parseRefreshRecord value = (case value of
       Json j \<Rightarrow> (case json_member ''u'' j of
           Some (JStr u) \<Rightarrow> Some \<lparr>rr_user = u,
             rr_version = (case json_member ''v'' j of Some (JNum v) \<Rightarrow> v | _ \<Rightarrow> 1),
             rr_family = nonempty (json_member ''f'' j)\<rparr>
         | _ \<Rightarrow> None)
     | Text s \<Rightarrow> if s = [] then None else Some \<lparr>rr_user = s, rr_version = 1, rr_family = None\<rparr>)"

definition parseAccessSessionForLogout :: "'t auth_env \<Rightarrow> time \<Rightarrow> 't option \<Rightarrow> LogoutAccessIdentity option" where
  "parseAccessSessionForLogout env now token = (case token of
       None \<Rightarrow> None
     | Some t \<Rightarrow> (case jwt_verify env True now t of
           None \<Rightarrow> None
         | Some payload \<Rightarrow> (case (json_member ''sub'' payload, json_member ''jti'' payload,
                                json_member ''purpose'' payload) of
               (Some (JStr sub), Some (JStr jti), None) \<Rightarrow> Some
                 \<lparr>lai_user = sub, lai_session = jti, lai_family = nonempty (json_member ''fid'' payload),
                  lai_may_revoke_family =
                    (case json_member ''exp'' payload of Some (JNum e) \<Rightarrow> now < 1000 * e | _ \<Rightarrow> False)\<rparr>
             | _ \<Rightarrow> None)))"

definition bumpSessionVersion :: "uuid \<Rightarrow> int authtx" where
  "bumpSessionVersion userId =
     tx_bind (tx_modify (au_users_update (t_upd ac_id userId (\<lambda>u. u\<lparr>ac_version := ac_version u + 1\<rparr>)))) (\<lambda>_.
     tx_bind (accountById userId) (\<lambda>row.
     tx_bind (tx_some row (unauthorized ''Account is unavailable'')) (\<lambda>u.
     tx_return (ac_version u))))"

section \<open>The rotation script\<close>

record rotate_args =
  ra_old_hash :: string
  ra_expected :: stored
  ra_user :: uuid
  ra_active :: stored
  ra_new_record :: stored
  ra_family :: string
  ra_jti :: string
  ra_new_hash :: string
  ra_access_ttl :: int
  ra_refresh_ttl :: int
  ra_now :: int
  ra_expires_at :: int
  ra_rotate :: bool
  ra_receipt_ttl :: int
  ra_previous :: string
  ra_alias_ttl :: int
  ra_max_sessions :: nat

definition familyActive :: "uuid \<Rightarrow> stored \<Rightarrow> bool" where
  "familyActive u raw = (case raw of
       Json j \<Rightarrow> json_member ''s'' j = Some (JStr ''active'') \<and> json_member ''u'' j = Some (JStr u)
     | Text _ \<Rightarrow> False)"

definition rotateRetry :: "rotate_args \<Rightarrow> time \<Rightarrow> redis \<Rightarrow> nat" where
  "rotateRetry a now r =
     (if GET now (RotationReceipt (ra_old_hash a)) r \<noteq> Some (Text (ra_new_hash a)) then 0
      else case GET now (RefreshFamily (ra_family a)) r of
          None \<Rightarrow> 0
        | Some raw \<Rightarrow>
            if \<not> familyActive (ra_user a) raw then 0
            else if GET now (Refresh (ra_new_hash a)) r \<noteq> Some (ra_new_record a) then 0
            else if GET now (Session (ra_jti a)) r \<noteq> Some (Text (ra_user a)) then 0
            else 1)"

definition dropExpiredSessions :: "rotate_args \<Rightarrow> time \<Rightarrow> redis \<Rightarrow> redis" where
  "dropExpiredSessions a now r =
     ZREM_UPTO now (ra_family a) (ra_now a)
       (fold (\<lambda>sessionId. SREM now (UserSessions (ra_user a)) sessionId)
          (ZRANGE_UPTO now (ra_family a) (ra_now a) r) r)"

definition projectedSessions :: "rotate_args \<Rightarrow> time \<Rightarrow> redis \<Rightarrow> nat" where
  "projectedSessions a now r =
     ZCARD now (ra_family a) r
     + (if ZSCORE now (ra_family a) (ra_jti a) r = None then 1 else 0)
     + (if ra_previous a \<noteq> [] \<and> ZSCORE now (ra_family a) (ra_previous a) r = None then 1 else 0)"

definition bridgePrevious :: "rotate_args \<Rightarrow> time \<Rightarrow> redis \<Rightarrow> redis" where
  "bridgePrevious a now r =
     (if ra_previous a = [] then r
      else SET_EX now (SessionFamily (ra_previous a)) (Text (ra_family a)) (ra_access_ttl a)
        (SADD now (UserSessions (ra_user a)) (ra_previous a)
          (ZADD now (ra_family a) (ra_expires_at a) (ra_previous a) r)))"

definition indexRotation :: "rotate_args \<Rightarrow> time \<Rightarrow> redis \<Rightarrow> redis" where
  "indexRotation a now r =
     SEXPIRE now (UserRefreshFamilies (ra_user a)) (ra_refresh_ttl a)
    (SADD now (UserRefreshFamilies (ra_user a)) (ra_family a)
    (SEXPIRE now (UserRefresh (ra_user a)) (ra_refresh_ttl a)
    (SADD now (UserRefresh (ra_user a)) (ra_new_hash a)
    (SEXPIRE now (UserSessions (ra_user a)) (ra_refresh_ttl a)
    (SEXPIRE now (RefreshFamilyTokens (ra_family a)) (ra_refresh_ttl a)
    (SADD now (RefreshFamilyTokens (ra_family a)) (ra_new_hash a)
    (ZEXPIRE now (ra_family a) (ra_refresh_ttl a) r)))))))"

definition writeRotation :: "rotate_args \<Rightarrow> time \<Rightarrow> redis \<Rightarrow> redis" where
  "writeRotation a now r =
     bridgePrevious a now
    (SADD now (UserSessions (ra_user a)) (ra_jti a)
    (ZADD now (ra_family a) (ra_expires_at a) (ra_jti a)
    (SET_EX now (RefreshFamilyFor (ra_old_hash a)) (Text (ra_family a)) (ra_alias_ttl a)
    (SET_EX now (Refresh (ra_new_hash a)) (ra_new_record a) (ra_refresh_ttl a)
    (SET_EX now (Session (ra_jti a)) (Text (ra_user a)) (ra_access_ttl a)
    (SET_EX now (RefreshFamily (ra_family a)) (ra_active a) (ra_refresh_ttl a) r))))))"

definition consumeOld :: "rotate_args \<Rightarrow> time \<Rightarrow> redis \<Rightarrow> redis" where
  "consumeOld a now r =
     (if ra_rotate a
      then SREM now (UserRefresh (ra_user a)) (ra_old_hash a)
             (SREM now (RefreshFamilyTokens (ra_family a)) (ra_old_hash a) (DEL (Refresh (ra_old_hash a)) r))
      else r)"

definition commitRotation :: "rotate_args \<Rightarrow> time \<Rightarrow> redis \<Rightarrow> redis" where
  "commitRotation a now r =
     SET_EX now (RotationReceipt (ra_old_hash a)) (Text (ra_new_hash a)) (ra_receipt_ttl a)
       (consumeOld a now (indexRotation a now (writeRotation a now r)))"

text \<open>\<open>ROTATE_REFRESH_SESSION_SCRIPT\<close>: 0 refused, 1 committed, 2 no room in the family.\<close>

definition rotateScript :: "rotate_args \<Rightarrow> time \<Rightarrow> redis \<Rightarrow> nat \<times> redis" where
  "rotateScript a now r =
     (if GET now (Refresh (ra_old_hash a)) r \<noteq> Some (ra_expected a) then (rotateRetry a now r, r)
      else if (case GET now (RefreshFamily (ra_family a)) r of
                 None \<Rightarrow> False | Some raw \<Rightarrow> \<not> familyActive (ra_user a) raw) then (0, r)
      else let r' = dropExpiredSessions a now r in
        if ra_max_sessions a < projectedSessions a now r' then (2, r')
        else (1, commitRotation a now r'))"

section \<open>The logout scripts\<close>

text \<open>The tables \<open>revokedSessions\<close> and \<open>revokedFamilyIds\<close> of a run of the logout script, in order.\<close>

record logout_run =
  lr_redis :: redis
  lr_sessions :: "string list"
  lr_families :: "string list"

definition decodeObject :: "stored option \<Rightarrow> json option" where
  "decodeObject raw = (case raw of
       Some (Json (JObj ms)) \<Rightarrow> Some (JObj ms)
     | Some (Json (JArr vs)) \<Rightarrow> Some (JArr vs)
     | _ \<Rightarrow> None)"

definition member_string :: "string \<Rightarrow> json option \<Rightarrow> string option" where
  "member_string k v = (case v of
       None \<Rightarrow> None
     | Some j \<Rightarrow> (case json_member k j of Some (JStr s) \<Rightarrow> Some s | _ \<Rightarrow> None))"

definition decodeRefresh :: "stored option \<Rightarrow> string option \<times> string option" where
  "decodeRefresh raw = (case raw of
       None \<Rightarrow> (None, None)
     | Some t \<Rightarrow> (let record = decodeObject raw in
         case member_string ''u'' record of
           Some u \<Rightarrow> (Some u, nonempty (case record of None \<Rightarrow> None | Some j \<Rightarrow> json_member ''f'' j))
         | None \<Rightarrow>
             if record = None \<and> stored_raw t \<noteq> [] then (Some (stored_raw t), None) else (None, None)))"

definition rememberSession :: "int \<Rightarrow> time \<Rightarrow> string \<Rightarrow> logout_run \<Rightarrow> logout_run" where
  "rememberSession ttl now sessionId l =
     (if sessionId \<noteq> [] \<and> sessionId \<notin> set (lr_sessions l)
      then l\<lparr>lr_redis := SET_EX now (SessionRevoked sessionId) (Json (JNum 1)) ttl (lr_redis l),
             lr_sessions := lr_sessions l @ [sessionId]\<rparr>
      else l)"

definition revokeFamilySession :: "int \<Rightarrow> time \<Rightarrow> uuid \<Rightarrow> string \<Rightarrow> logout_run \<Rightarrow> logout_run" where
  "revokeFamilySession ttl now userId sessionId l =
     rememberSession ttl now sessionId
       (l\<lparr>lr_redis := SREM now (UserSessions userId) sessionId (DEL (Session sessionId) (lr_redis l))\<rparr>)"

definition logoutReceipt :: "uuid \<Rightarrow> string \<Rightarrow> stored" where
  "logoutReceipt u f = Json (JObj [(''s'', JStr ''revoked''), (''u'', JStr u), (''f'', JStr f)])"

definition revokeFamilyToken :: "int \<Rightarrow> time \<Rightarrow> uuid \<Rightarrow> string \<Rightarrow> string \<Rightarrow> redis \<Rightarrow> redis" where
  "revokeFamilyToken receiptTtl now userId familyId tokenHash r =
     SREM now (UserRefresh userId) tokenHash
       (DEL (Refresh tokenHash)
         (SET_EX now (LogoutReceipt tokenHash) (logoutReceipt userId familyId) receiptTtl r))"

text \<open>What \<open>revokeFamily\<close> does once it has found the owner \<open>u\<close> of the family.\<close>

definition revokeFamilyTokens :: "int \<Rightarrow> time \<Rightarrow> uuid \<Rightarrow> string \<Rightarrow> redis \<Rightarrow> redis" where
  "revokeFamilyTokens receiptTtl now u familyId r =
     SREM now (UserRefreshFamilies u) familyId
       (SDEL (RefreshFamilyTokens familyId)
         (fold (revokeFamilyToken receiptTtl now u familyId) (SMEMBERS now (RefreshFamilyTokens familyId) r) r))"

definition revokeFamilySessions :: "int \<Rightarrow> time \<Rightarrow> int \<Rightarrow> uuid \<Rightarrow> string \<Rightarrow> logout_run \<Rightarrow> logout_run" where
  "revokeFamilySessions ttl now nowSec u familyId l =
     (let l' = fold (revokeFamilySession ttl now u) (ZRANGE_FROM now familyId nowSec (lr_redis l)) l in
      l'\<lparr>lr_redis := ZDEL familyId (lr_redis l')\<rparr>)"

definition revokeFamilyOf :: "int \<Rightarrow> int \<Rightarrow> time \<Rightarrow> int \<Rightarrow> uuid \<Rightarrow> string \<Rightarrow> logout_run \<Rightarrow> logout_run" where
  "revokeFamilyOf ttl receiptTtl now nowSec u familyId l =
     (let l1 = l\<lparr>lr_redis := SET_EX now (RefreshFamily familyId) (familyRecord ''revoked'' u) ttl (lr_redis l)\<rparr>;
          l2 = revokeFamilySessions ttl now nowSec u familyId l1 in
      l2\<lparr>lr_redis := revokeFamilyTokens receiptTtl now u familyId (lr_redis l2)\<rparr>)"

text \<open>A Lua string that is empty counts as no user.\<close>

definition revokeFamily ::
  "int \<Rightarrow> int \<Rightarrow> time \<Rightarrow> int \<Rightarrow> string \<Rightarrow> string option \<Rightarrow> logout_run \<Rightarrow> string option \<times> logout_run" where
  "revokeFamily ttl receiptTtl now nowSec familyId fallbackUserId l =
     (let owner = member_string ''u'' (decodeObject (GET now (RefreshFamily familyId) (lr_redis l)));
          userId = (case owner of Some u \<Rightarrow> Some u | None \<Rightarrow> fallbackUserId) in
      if familyId = [] then (None, l)
      else if familyId \<in> set (lr_families l) then (userId, l)
      else let l0 = l\<lparr>lr_families := lr_families l @ [familyId]\<rparr> in
        case userId of
          None \<Rightarrow> (None, l0)
        | Some u \<Rightarrow>
            if u = [] then (None, l0)
            else (Some u, revokeFamilyOf ttl receiptTtl now nowSec u familyId l0))"

record logout_args =
  la_session :: string
  la_user :: string
  la_family :: string
  la_refresh_hash :: string
  la_refresh_ttl :: int
  la_now :: int
  la_receipt_ttl :: int

definition first_some :: "'a option \<Rightarrow> 'a option \<Rightarrow> 'a option" where
  "first_some x y = (case x of Some v \<Rightarrow> Some v | None \<Rightarrow> y)"

text \<open>Whose the presented refresh token is, by its record or its receipt, and which family it leads to.\<close>

definition presentedUser :: "string \<Rightarrow> time \<Rightarrow> redis \<Rightarrow> string option" where
  "presentedUser h now r =
     first_some (fst (decodeRefresh (GET now (Refresh h) r)))
       (member_string ''u'' (decodeObject (GET now (LogoutReceipt h) r)))"

definition presentedFamily :: "string \<Rightarrow> time \<Rightarrow> redis \<Rightarrow> string option" where
  "presentedFamily h now r =
     (let receipt = decodeObject (GET now (LogoutReceipt h) r);
          alias = map_option stored_raw (GET now (RefreshFamilyFor h) r);
          receiptFamily = (if member_string ''s'' receipt = Some ''revoked'' then member_string ''f'' receipt else None);
          named = first_some alias (first_some (snd (decodeRefresh (GET now (Refresh h) r))) receiptFamily) in
      case named of Some f \<Rightarrow> Some f | None \<Rightarrow> if presentedUser h now r = None then None else Some h)"

definition revokeRefresh :: "logout_args \<Rightarrow> time \<Rightarrow> logout_run \<Rightarrow> logout_run" where
  "revokeRefresh a now l =
     (let h = la_refresh_hash a;
          user = presentedUser h now (lr_redis l);
          family = presentedFamily h now (lr_redis l);
          p = (case family of
              None \<Rightarrow> (None, l)
            | Some f \<Rightarrow> revokeFamily (la_refresh_ttl a) (la_receipt_ttl a) now (la_now a) f user l);
          r2 = (case (family, fst p) of
              (Some f, Some u) \<Rightarrow> SET_EX now (LogoutReceipt h) (logoutReceipt u f) (la_receipt_ttl a) (lr_redis (snd p))
            | _ \<Rightarrow> lr_redis (snd p));
          r3 = DEL (Refresh h) r2 in
      (snd p)\<lparr>lr_redis := (case user of None \<Rightarrow> r3 | Some u \<Rightarrow> SREM now (UserRefresh u) h r3)\<rparr>)"

definition revokeAccess :: "logout_args \<Rightarrow> time \<Rightarrow> logout_run \<Rightarrow> logout_run" where
  "revokeAccess a now l =
     (let r1 = DEL (Session (la_session a)) (lr_redis l);
          r2 = (if la_user a = [] then r1 else SREM now (UserSessions (la_user a)) (la_session a) r1) in
      rememberSession (la_refresh_ttl a) now (la_session a) (l\<lparr>lr_redis := r2\<rparr>))"

text \<open>\<open>REVOKE_PRESENTED_SESSION_SCRIPT\<close>: the sessions and the families it revoked.\<close>

definition logoutScript :: "logout_args \<Rightarrow> time \<Rightarrow> redis \<Rightarrow> (string list \<times> string list) \<times> redis" where
  "logoutScript a now r =
     (let l0 = \<lparr>lr_redis = r, lr_sessions = [], lr_families = []\<rparr>;
          l1 = (if la_family a = [] then l0
                else snd (revokeFamily (la_refresh_ttl a) (la_receipt_ttl a) now (la_now a) (la_family a)
                       (Some (la_user a)) l0));
          l2 = (if la_refresh_hash a = [] then l1 else revokeRefresh a now l1);
          l3 = (if la_session a = [] then l2 else revokeAccess a now l2) in
      ((lr_sessions l3, lr_families l3), lr_redis l3))"

text \<open>\<open>REVOKE_ALL_USER_SESSIONS_SCRIPT\<close>.\<close>

definition fenceFamily :: "int \<Rightarrow> time \<Rightarrow> uuid \<Rightarrow> string \<Rightarrow> redis \<Rightarrow> redis" where
  "fenceFamily ttl now userId familyId r =
     SDEL (RefreshFamilyTokens familyId)
       (ZDEL familyId (SET_EX now (RefreshFamily familyId) (familyRecord ''revoked'' userId) ttl r))"

definition revokeAllScript :: "uuid \<Rightarrow> string \<Rightarrow> int \<Rightarrow> time \<Rightarrow> redis \<Rightarrow> nat \<times> redis" where
  "revokeAllScript userId exceptJti ttl now r =
     (let r1 = fold (\<lambda>i r. if i = exceptJti then r else DEL (Session i) r) (SMEMBERS now (UserSessions userId) r) r;
          r2 = fold (\<lambda>h. DEL (Refresh h)) (SMEMBERS now (UserRefresh userId) r1) r1 in
      (1, if exceptJti = [] then
            SDEL (UserRefreshFamilies userId) (SDEL (UserRefresh userId) (SDEL (UserSessions userId)
              (fold (fenceFamily ttl now userId) (SMEMBERS now (UserRefreshFamilies userId) r2) r2)))
          else
            SADD now (UserSessions userId) exceptJti
              (SDEL (UserRefresh userId) (SDEL (UserSessions userId) r2))))"

section \<open>Issuing and rotating\<close>

definition prepareSessionCredentials ::
  "'t auth_env \<Rightarrow> time \<Rightarrow> fresh_ids \<Rightarrow> uuid \<Rightarrow> Role \<Rightarrow> int option \<Rightarrow> string option \<Rightarrow> 't SessionCredentials authtx" where
  "prepareSessionCredentials env now ids userId role expectedVersion familyId =
     tx_bind (accountById userId) (\<lambda>row.
     tx_bind (tx_some (map_option ac_version row) (unauthorized ''Account is unavailable'')) (\<lambda>sessionVersion.
     tx_bind (tx_guard (expectedVersion = None \<or> expectedVersion = Some sessionVersion)
         (unauthorized ''Authentication state changed, log in again'')) (\<lambda>_.
     let refreshHash = sha256 env (fr_refresh ids);
         family = (case familyId of Some f \<Rightarrow> f | None \<Rightarrow> refreshHash) in
     tx_return
       \<lparr>sc_access_token = jwt_sign env now
          [(''sub'', JStr userId), (''role'', JStr (roleName role)), (''jti'', JStr (fr_jti ids)),
           (''sv'', JNum sessionVersion), (''fid'', JStr family)] (access_ttl env),
        sc_refresh_token = fr_refresh ids, sc_csrf_token = fr_csrf ids, sc_jti = fr_jti ids,
        sc_version = sessionVersion, sc_family = family, sc_refresh_hash = refreshHash\<rparr>)))"

text \<open>The \<open>MULTI\<close> of \<open>issueSession\<close>.\<close>

definition issueIndex :: "'t auth_env \<Rightarrow> time \<Rightarrow> uuid \<Rightarrow> 't SessionCredentials \<Rightarrow> redis \<Rightarrow> redis" where
  "issueIndex env now userId c r =
     SEXPIRE now (UserRefreshFamilies userId) (refresh_ttl env)
    (SADD now (UserRefreshFamilies userId) (sc_family c)
    (SEXPIRE now (UserRefresh userId) (refresh_ttl env)
    (SADD now (UserRefresh userId) (sc_refresh_hash c)
    (SEXPIRE now (UserSessions userId) (refresh_ttl env)
    (SADD now (UserSessions userId) (sc_jti c)
    (SEXPIRE now (RefreshFamilyTokens (sc_family c)) (refresh_ttl env)
    (SADD now (RefreshFamilyTokens (sc_family c)) (sc_refresh_hash c) r)))))))"

definition issueMulti :: "'t auth_env \<Rightarrow> time \<Rightarrow> uuid \<Rightarrow> 't SessionCredentials \<Rightarrow> redis \<Rightarrow> redis" where
  "issueMulti env now userId c r =
     issueIndex env now userId c
    (ZEXPIRE now (sc_family c) (refresh_ttl env)
    (ZADD now (sc_family c) (now div 1000 + access_ttl env) (sc_jti c)
    (SET_EX now (RefreshFamilyFor (sc_refresh_hash c)) (Text (sc_family c)) REFRESH_FAMILY_ALIAS_TTL_SECONDS
    (SET_EX now (RefreshFamily (sc_family c)) (familyRecord ''active'' userId) (refresh_ttl env)
    (SET_EX now (Refresh (sc_refresh_hash c)) (refreshRecord userId (sc_version c) (sc_family c)) (refresh_ttl env)
    (SET_EX now (Session (sc_jti c)) (Text userId) (access_ttl env) r))))))"

definition sessionsUnavailable :: err where
  "sessionsUnavailable = serviceUnavailable ''Sessions are unavailable right now, try again shortly''"

definition issueSession ::
  "'t auth_env \<Rightarrow> time \<Rightarrow> delivery \<Rightarrow> fresh_ids \<Rightarrow> uuid \<Rightarrow> Role \<Rightarrow> int option \<Rightarrow> 't SessionCredentials authtx" where
  "issueSession env now d ids userId role expectedVersion =
     tx_bind (prepareSessionCredentials env now ids userId role expectedVersion None) (\<lambda>session.
     tx_bind (requireRedis sessionsUnavailable) (\<lambda>_.
     tx_bind (redis_do d (issueMulti env now userId session)) (\<lambda>_.
     tx_return session)))"

record rotate_input =
  ri_user :: uuid
  ri_role :: Role
  ri_version :: int
  ri_family :: string
  ri_old_hash :: string
  ri_expected :: stored

text \<open>Only an access token from before the families needs the bridge from its id to the family.\<close>

definition previousSessionId :: "'t auth_env \<Rightarrow> time \<Rightarrow> 't option \<Rightarrow> uuid \<Rightarrow> string" where
  "previousSessionId env now previous userId = (case parseAccessSessionForLogout env now previous of
       None \<Rightarrow> []
     | Some p \<Rightarrow> if lai_user p = userId \<and> lai_family p = None then lai_session p else [])"

definition rotateArguments ::
  "'t auth_env \<Rightarrow> time \<Rightarrow> rotate_input \<Rightarrow> 't option \<Rightarrow> 't SessionCredentials \<Rightarrow> rotate_args" where
  "rotateArguments env now i previous c =
     \<lparr>ra_old_hash = ri_old_hash i, ra_expected = ri_expected i, ra_user = ri_user i,
      ra_active = familyRecord ''active'' (ri_user i),
      ra_new_record = refreshRecord (ri_user i) (sc_version c) (ri_family i), ra_family = ri_family i,
      ra_jti = sc_jti c, ra_new_hash = sc_refresh_hash c, ra_access_ttl = access_ttl env,
      ra_refresh_ttl = refresh_ttl env, ra_now = now div 1000, ra_expires_at = now div 1000 + access_ttl env,
      ra_rotate = REFRESH_ROTATION_ENABLED env, ra_receipt_ttl = REFRESH_ROTATION_RECEIPT_TTL_SECONDS,
      ra_previous = previousSessionId env now previous (ri_user i),
      ra_alias_ttl = REFRESH_FAMILY_ALIAS_TTL_SECONDS, ra_max_sessions = MAX_REFRESH_FAMILY_SESSIONS\<rparr>"

text \<open>The two attempts: an answer ends the loop, a lost connection goes on to the next attempt.\<close>

fun rotateAttempts :: "delivery list \<Rightarrow> time \<Rightarrow> rotate_args \<Rightarrow> 'c \<Rightarrow> 'c option authtx" where
  "rotateAttempts [] now a c = tx_throw sessionsUnavailable"
| "rotateAttempts (d # ds) now a c = (\<lambda>s.
     case redis_eval d (rotateScript a now) s of
       (Inr n, s') \<Rightarrow>
         if n = 1 then (Inr (Some c), s')
         else if n = 0 then (Inr None, s')
         else (Inl sessionsUnavailable, s')
     | (Inl _, s') \<Rightarrow> rotateAttempts ds now a c s')"

definition rotateRefreshSession ::
  "'t auth_env \<Rightarrow> time \<Rightarrow> delivery \<times> delivery \<Rightarrow> fresh_ids \<Rightarrow> rotate_input \<Rightarrow> 't option \<Rightarrow>
   't SessionCredentials option authtx" where
  "rotateRefreshSession env now ds ids i previous =
     tx_bind (requireRedis sessionsUnavailable) (\<lambda>_.
     tx_bind (prepareSessionCredentials env now ids (ri_user i) (ri_role i) (Some (ri_version i)) (Some (ri_family i)))
       (\<lambda>session.
     rotateAttempts [fst ds, snd ds] now (rotateArguments env now i previous session) session))"

section \<open>Logout\<close>

definition logoutUnconfirmed :: err where
  "logoutUnconfirmed = serviceUnavailable ''Logout could not be confirmed, try again shortly''"

definition logoutArguments ::
  "'t auth_env \<Rightarrow> time \<Rightarrow> LogoutAccessIdentity option \<Rightarrow> string option \<Rightarrow> logout_args" where
  "logoutArguments env now access refreshToken =
     \<lparr>la_session = (case access of None \<Rightarrow> [] | Some i \<Rightarrow> lai_session i),
      la_user = (case access of None \<Rightarrow> [] | Some i \<Rightarrow> lai_user i),
      la_family = (case access of None \<Rightarrow> []
        | Some i \<Rightarrow> if lai_may_revoke_family i then (case lai_family i of None \<Rightarrow> [] | Some f \<Rightarrow> f) else []),
      la_refresh_hash = (case refreshToken of None \<Rightarrow> [] | Some t \<Rightarrow> sha256 env t),
      la_refresh_ttl = refresh_ttl env, la_now = now div 1000, la_receipt_ttl = LOGOUT_RECEIPT_TTL_SECONDS\<rparr>"

text \<open>A realtime publication that fails is logged only, so all events count as published.\<close>

definition revokePresentedSessionCredentials ::
  "'t auth_env \<Rightarrow> time \<Rightarrow> delivery \<Rightarrow> 't option \<Rightarrow> string option \<Rightarrow> unit authtx" where
  "revokePresentedSessionCredentials env now d accessToken refreshToken =
     (let access = parseAccessSessionForLogout env now accessToken in
      if access = None \<and> refreshToken = None then tx_return ()
      else
        tx_bind (requireRedis logoutUnconfirmed) (\<lambda>_.
        tx_bind (tx_catch (redis_eval d (logoutScript (logoutArguments env now access refreshToken) now))
            (\<lambda>_. tx_throw logoutUnconfirmed)) (\<lambda>result.
        tx_modify (au_published_update (\<lambda>es. es @
          map SessionRevokedEvent (remdups (fst result)) @ map SessionFamilyRevoked (remdups (snd result)))))))"

text \<open>\<open>revokeAllUserSessions\<close>: with \<open>strict\<close> a lost Redis command is thrown after the event is published.\<close>

definition revokeAllUserSessions ::
  "'t auth_env \<Rightarrow> time \<Rightarrow> delivery \<Rightarrow> uuid \<Rightarrow> string option \<Rightarrow> bool \<Rightarrow> bool \<Rightarrow> unit authtx" where
  "revokeAllUserSessions env now d userId exceptJti strict publishEvent =
     tx_bind (tx_gets au_redis_up) (\<lambda>up.
     tx_bind (if \<not> up then tx_return None
         else tx_catch
           (tx_bind (redis_eval d (revokeAllScript userId (case exceptJti of None \<Rightarrow> [] | Some j \<Rightarrow> j) (refresh_ttl env) now))
              (\<lambda>_. tx_return None))
           (\<lambda>e. tx_return (Some e))) (\<lambda>redisError.
     tx_bind (tx_when publishEvent (publish (UserSessionsRevoked userId exceptJti))) (\<lambda>_.
     case redisError of
       Some e \<Rightarrow> if strict then tx_throw e else tx_return ()
     | None \<Rightarrow> tx_return ())))"

definition revokeRefreshToken :: "'t auth_env \<Rightarrow> time \<Rightarrow> delivery \<Rightarrow> string option \<Rightarrow> uuid option \<Rightarrow> unit authtx" where
  "revokeRefreshToken env now d token userId =
     tx_bind (tx_gets au_redis_up) (\<lambda>up.
     case token of
       None \<Rightarrow> tx_return ()
     | Some t \<Rightarrow>
         if \<not> up then tx_return ()
         else
           tx_bind (redis_do d (DEL (Refresh (sha256 env t)))) (\<lambda>_.
           case userId of
             None \<Rightarrow> tx_return ()
           | Some u \<Rightarrow> redis_do d (SREM now (UserRefresh u) (sha256 env t))))"

text \<open>The event of \<open>revokeSession\<close> is published even when Redis fails.\<close>

definition revokeSessionMulti :: "'t auth_env \<Rightarrow> time \<Rightarrow> string \<Rightarrow> uuid option \<Rightarrow> redis \<Rightarrow> redis" where
  "revokeSessionMulti env now jti userId r =
     (let r1 = SET_EX now (SessionRevoked jti) (Json (JNum 1)) (refresh_ttl env) (DEL (Session jti) r) in
      case userId of None \<Rightarrow> r1 | Some u \<Rightarrow> SREM now (UserSessions u) jti r1)"

definition revokeSession :: "'t auth_env \<Rightarrow> time \<Rightarrow> delivery \<Rightarrow> string option \<Rightarrow> uuid option \<Rightarrow> unit authtx" where
  "revokeSession env now d jti userId = (case jti of
       None \<Rightarrow> tx_return ()
     | Some j \<Rightarrow>
         tx_bind (tx_gets au_redis_up) (\<lambda>up.
         tx_bind (tx_catch
             (tx_when up (redis_do d (revokeSessionMulti env now j userId)))
             (\<lambda>e. tx_bind (publish (SessionRevokedEvent j)) (\<lambda>_. tx_throw e))) (\<lambda>_.
         publish (SessionRevokedEvent j))))"

section \<open>Two-factor bridge tokens\<close>

definition TWO_FACTOR_PENDING_TTL_MIN :: int where
  "TWO_FACTOR_PENDING_TTL_MIN = 5"

definition authenticationUnavailable :: err where
  "authenticationUnavailable = serviceUnavailable ''Authentication is unavailable right now, try again shortly''"

definition issueTwoFactorPendingToken ::
  "'t auth_env \<Rightarrow> time \<Rightarrow> delivery \<Rightarrow> string \<Rightarrow> uuid \<Rightarrow> int \<Rightarrow> 't authtx" where
  "issueTwoFactorPendingToken env now d jti userId sessionVersion =
     tx_bind (requireRedis authenticationUnavailable) (\<lambda>_.
     tx_bind (redis_do d (SET_EX now (TwoFactorPending jti) (Json (JNum 1)) (TWO_FACTOR_PENDING_TTL_MIN * 60))) (\<lambda>_.
     tx_return (jwt_sign env now
       [(''sub'', JStr userId), (''purpose'', JStr ''2fa_pending''), (''sv'', JNum sessionVersion), (''jti'', JStr jti)]
       (TWO_FACTOR_PENDING_TTL_MIN * 60))))"

record TwoFactorPendingIdentity =
  pi_user :: uuid
  pi_version :: int
  pi_jti :: string

definition verifyTwoFactorPendingToken :: "'t auth_env \<Rightarrow> time \<Rightarrow> 't \<Rightarrow> TwoFactorPendingIdentity result" where
  "verifyTwoFactorPendingToken env now token = (case jwt_verify env False now token of
       None \<Rightarrow> Inl (JsError ''jwt'')
     | Some payload \<Rightarrow>
         (case (json_member ''purpose'' payload = Some (JStr ''2fa_pending''), json_member ''sub'' payload,
                json_member ''sv'' payload, json_member ''jti'' payload) of
            (True, Some (JStr u), Some (JNum v), Some (JStr j)) \<Rightarrow>
              Inr \<lparr>pi_user = u, pi_version = v, pi_jti = j\<rparr>
          | _ \<Rightarrow> Inl (JsError ''Invalid two-factor token'')))"

definition consumeTwoFactorPendingToken :: "time \<Rightarrow> delivery \<Rightarrow> string \<Rightarrow> bool authtx" where
  "consumeTwoFactorPendingToken now d jti =
     tx_bind (requireRedis authenticationUnavailable) (\<lambda>_.
     redis_eval d (\<lambda>r. (GET now (TwoFactorPending jti) r \<noteq> None, DEL (TwoFactorPending jti) r)))"

end
