(* ===== verification/TwoFactor.thy ===== *)
theory TwoFactor
  imports TwoFactorCrypto Sessions I18n Money "HOL-Library.Product_Lexorder" "HOL-Library.List_Lexorder" "HOL-Library.Char_ord"
begin

text \<open>
  \<open>modules/auth/twofa.service.ts\<close> and \<open>password.service.ts\<close>: setting up, confirming, using and removing
  the second factor of an account, with its backup codes and its replay counter. HMAC, the cipher, bcrypt
  and Unicode normalisation are the fields of \<open>tf_lib\<close>; random bytes, salts and row ids are those of
  \<open>tf_fresh\<close>. An optional text that is empty counts as absent.
\<close>

section \<open>Libraries and randomness\<close>

record tf_lib =
  tf_hmac :: "8 word list \<Rightarrow> 8 word list \<Rightarrow> 8 word list"
  tf_cipher :: cipher
  tf_config :: TwoFactorEncryptionConfig
  tf_compare :: "string \<Rightarrow> string \<Rightarrow> bool"
  tf_bcrypt :: "string \<Rightarrow> string \<Rightarrow> string"
  tf_nfc :: "string \<Rightarrow> string"

record tf_fresh =
  ff_iv :: "8 word list"
  ff_migrate_iv :: "uuid \<Rightarrow> 8 word list"
  ff_secret :: "8 word list"
  ff_codes :: "8 word list list"
  ff_salts :: "string list"
  ff_ids :: "uuid list"
  ff_method_id :: uuid

section \<open>Passwords\<close>

definition DUMMY_PASSWORD_HASH :: string where
  "DUMMY_PASSWORD_HASH = ''$2a$12$UUggZaCPu3aaEvAqpV1tjON9nXMGW7Fm2khqieMlSUYvKlECswEx2''"

definition hashPassword :: "tf_lib \<Rightarrow> string \<Rightarrow> string \<Rightarrow> string" where
  "hashPassword lib salt password = tf_bcrypt lib salt (tf_nfc lib password)"

text \<open>A missing hash is compared against the dummy, which no password matches.\<close>

definition verifyPassword :: "tf_lib \<Rightarrow> string \<Rightarrow> string option \<Rightarrow> bool" where
  "verifyPassword lib password passwordHash =
     (let verifier = (case passwordHash of Some h \<Rightarrow> h | None \<Rightarrow> DUMMY_PASSWORD_HASH);
          normalized = tf_nfc lib password;
          normalizedMatch = tf_compare lib normalized verifier in
      if normalized = password then normalizedMatch
      else normalizedMatch \<or> tf_compare lib password verifier)"

section \<open>Rows\<close>

definition BACKUP_CODE_COUNT :: nat where "BACKUP_CODE_COUNT = 10"

definition PENDING_SECRET_TTL_MS :: int where "PENDING_SECRET_TTL_MS = 20 * 60 * 1000"

record TwoFactorReauthentication =
  re_password :: "string option"
  re_totp :: "string option"

definition byte_hex :: "8 word \<Rightarrow> string" where
  "byte_hex b = [hex_digit (unat b div 16), hex_digit (unat b mod 16)]"

definition generateBackupCode :: "8 word list \<Rightarrow> string" where
  "generateBackupCode random =
     (let raw = toUpperCase (concat (map byte_hex random)) in take 4 raw @ ''-'' @ take 4 (drop 4 raw))"

definition complete_box :: "secret_box \<Rightarrow> bool" where
  "complete_box b \<longleftrightarrow> sb_ciphertext b \<noteq> [] \<and> sb_iv b \<noteq> [] \<and> sb_auth_tag b \<noteq> []"

definition activeSecretFromRow :: "method_row option \<Rightarrow> secret_box option" where
  "activeSecretFromRow row = (case row of
       None \<Rightarrow> None
     | Some m \<Rightarrow> (case tm_active m of None \<Rightarrow> None | Some b \<Rightarrow> if complete_box b then Some b else None))"

definition pendingSecretFromRow :: "method_row option \<Rightarrow> (secret_box \<times> time) option" where
  "pendingSecretFromRow row = (case row of
       None \<Rightarrow> None
     | Some m \<Rightarrow> (case tm_pending m of None \<Rightarrow> None | Some (b, t) \<Rightarrow> if complete_box b then Some (b, t) else None))"

definition selectMethod :: "uuid \<Rightarrow> method_row option authtx" where
  "selectMethod userId = tx_gets (\<lambda>s. t_find tm_user userId (au_methods s))"

definition updateMethod :: "uuid \<Rightarrow> (method_row \<Rightarrow> method_row) \<Rightarrow> unit authtx" where
  "updateMethod userId f = tx_modify (au_methods_update (t_upd tm_user userId f))"

definition updateUser :: "uuid \<Rightarrow> (user_account \<Rightarrow> user_account) \<Rightarrow> unit authtx" where
  "updateUser userId f = tx_modify (au_users_update (t_upd ac_id userId f))"

definition selectUserForSecurityAction :: "uuid \<Rightarrow> user_account authtx" where
  "selectUserForSecurityAction userId =
     tx_bind (accountById userId) (\<lambda>row. tx_some row (badRequest ''Account not found''))"

definition recordSecurityAudit :: "uuid \<Rightarrow> string \<Rightarrow> unit authtx" where
  "recordSecurityAudit userId action = tx_modify (au_audit_update (\<lambda>rows. rows @ [(userId, action)]))"

section \<open>Secrets of the previous schema\<close>

fun migrateEach :: "tf_lib \<Rightarrow> tf_fresh \<Rightarrow> method_row list \<Rightarrow> unit authtx" where
  "migrateEach lib fresh [] = tx_return ()"
| "migrateEach lib fresh (row # rows) =
     tx_bind (tx_lift (encryptTwoFactorSecret (tf_cipher lib) (tf_config lib) (ff_migrate_iv fresh (tm_user row))
         (case tm_legacy row of None \<Rightarrow> [] | Some t \<Rightarrow> t) (tm_user row))) (\<lambda>encrypted.
     tx_bind (updateMethod (tm_user row) (\<lambda>m.
         if tm_confirmed_at row \<noteq> None then m\<lparr>tm_legacy := None, tm_active := Some encrypted\<rparr>
         else m\<lparr>tm_legacy := None, tm_pending := Some (encrypted, tm_created_at row)\<rparr>)) (\<lambda>_.
     migrateEach lib fresh rows))"

definition legacyRows :: "uuid option \<Rightarrow> method_row list \<Rightarrow> method_row list" where
  "legacyRows userId rows = take 100 (sort_key (\<lambda>m. (tm_created_at m, tm_id m))
     (filter (\<lambda>m. tm_legacy m \<noteq> None \<and> (case userId of None \<Rightarrow> True | Some u \<Rightarrow> tm_user m = u)) rows))"

definition migrateLegacyBatch :: "tf_lib \<Rightarrow> tf_fresh \<Rightarrow> uuid option \<Rightarrow> nat authtx" where
  "migrateLegacyBatch lib fresh userId = authTx
     (tx_bind (tx_gets (\<lambda>s. legacyRows userId (au_methods s))) (\<lambda>rows.
      tx_bind (migrateEach lib fresh rows) (\<lambda>_.
      tx_return (length rows))))"

text \<open>The \<open>do ... while (true)\<close> loop: a whole table is migrated in batches of 100, one user in one batch.\<close>

fun migrateRounds :: "nat \<Rightarrow> tf_lib \<Rightarrow> tf_fresh \<Rightarrow> uuid option \<Rightarrow> nat \<Rightarrow> nat authtx" where
  "migrateRounds 0 lib fresh userId migrated = tx_throw (JsError ''out of rounds'')"
| "migrateRounds (Suc n) lib fresh userId migrated =
     tx_bind (migrateLegacyBatch lib fresh userId) (\<lambda>batchSize.
     if userId \<noteq> None \<or> batchSize < 100 then tx_return (migrated + batchSize)
     else migrateRounds n lib fresh userId (migrated + batchSize))"

definition migrateLegacyTwoFactorSecrets :: "tf_lib \<Rightarrow> tf_fresh \<Rightarrow> uuid option \<Rightarrow> nat authtx" where
  "migrateLegacyTwoFactorSecrets lib fresh userId =
     (\<lambda>s. migrateRounds (Suc (length (au_methods s))) lib fresh userId 0 s)"

section \<open>Using a code\<close>

definition persistRotatedActiveSecret :: "tf_lib \<Rightarrow> tf_fresh \<Rightarrow> uuid \<Rightarrow> string \<Rightarrow> unit authtx" where
  "persistRotatedActiveSecret lib fresh userId secret =
     tx_bind (tx_lift (encryptTwoFactorSecret (tf_cipher lib) (tf_config lib) (ff_iv fresh) secret userId)) (\<lambda>encrypted.
     updateMethod userId (tm_active_update (\<lambda>_. Some encrypted)))"

text \<open>A stored counter is a non-negative \<open>bigint\<close>; one beyond the safe integers throws.\<close>

definition parseAcceptedCounter :: "int option \<Rightarrow> int option result" where
  "parseAcceptedCounter value = (case value of
       None \<Rightarrow> Inr None
     | Some counter \<Rightarrow>
         if \<not> safeInteger counter \<or> counter < 0 then Inl (JsError ''Stored two-factor replay counter is invalid'')
         else Inr (Some counter))"

definition BACKUP_CODE_PATTERN :: "string \<Rightarrow> bool" where
  "BACKUP_CODE_PATTERN s \<longleftrightarrow> length s = 9 \<and> s ! 4 = CHR ''-'' \<and>
     list_all (\<lambda>c. c \<in> set ''ABCDEF0123456789'') (take 4 s @ drop 5 s)"

definition usableBackupCode :: "uuid \<Rightarrow> backup_code_row \<Rightarrow> bool" where
  "usableBackupCode userId row \<longleftrightarrow> bc_user row = userId \<and> bc_used_at row = None"

fun consumeBackupCode ::
  "tf_lib \<Rightarrow> tf_fresh \<Rightarrow> time \<Rightarrow> uuid \<Rightarrow> DecryptedTwoFactorSecret \<Rightarrow> string \<Rightarrow> backup_code_row list \<Rightarrow> bool authtx" where
  "consumeBackupCode lib fresh now userId decrypted code [] = tx_return False"
| "consumeBackupCode lib fresh now userId decrypted code (row # rows) =
     (if \<not> tf_compare lib code (bc_hash row) then consumeBackupCode lib fresh now userId decrypted code rows
      else
        tx_bind (tx_gets (\<lambda>s. \<exists>r\<in>set (au_backup_codes s). bc_id r = bc_id row \<and> usableBackupCode userId r)) (\<lambda>free.
        if \<not> free then tx_return False
        else
          tx_bind (tx_modify (au_backup_codes_update (map (\<lambda>r.
              if bc_id r = bc_id row \<and> usableBackupCode userId r then r\<lparr>bc_used_at := Some now\<rparr> else r)))) (\<lambda>_.
          tx_bind (tx_when (ds_needs_rotation decrypted) (persistRotatedActiveSecret lib fresh userId (ds_secret decrypted))) (\<lambda>_.
          tx_bind (recordSecurityAudit userId ''two_factor_backup_code_consumed'') (\<lambda>_.
          tx_return True)))))"

definition acceptTotp ::
  "tf_lib \<Rightarrow> tf_fresh \<Rightarrow> uuid \<Rightarrow> method_row option \<Rightarrow> DecryptedTwoFactorSecret \<Rightarrow> int \<Rightarrow> bool authtx" where
  "acceptTotp lib fresh userId row decrypted matchedCounter =
     tx_bind (tx_lift (parseAcceptedCounter (case row of None \<Rightarrow> None | Some m \<Rightarrow> tm_last_counter m))) (\<lambda>lastAccepted.
     if (case lastAccepted of None \<Rightarrow> False | Some l \<Rightarrow> matchedCounter \<le> l) then tx_return False
     else
       tx_bind (tx_gets (\<lambda>s. case t_find tm_user userId (au_methods s) of
           None \<Rightarrow> False
         | Some m \<Rightarrow> (case tm_last_counter m of None \<Rightarrow> True | Some l \<Rightarrow> l < matchedCounter))) (\<lambda>advanced.
       if \<not> advanced then tx_return False
       else
         tx_bind (updateMethod userId (tm_last_counter_update (\<lambda>_. Some matchedCounter))) (\<lambda>_.
         tx_bind (tx_when (ds_needs_rotation decrypted) (persistRotatedActiveSecret lib fresh userId (ds_secret decrypted))) (\<lambda>_.
         tx_bind (recordSecurityAudit userId ''two_factor_totp_accepted'') (\<lambda>_.
         tx_return True)))))"

definition consumeTwoFactorCode :: "tf_lib \<Rightarrow> tf_fresh \<Rightarrow> time \<Rightarrow> uuid \<Rightarrow> string \<Rightarrow> bool authtx" where
  "consumeTwoFactorCode lib fresh now userId code =
     tx_bind (selectMethod userId) (\<lambda>row.
     case activeSecretFromRow row of
       None \<Rightarrow> tx_return False
     | Some encrypted \<Rightarrow>
         tx_bind (tx_lift (decryptTwoFactorSecretForRotation (tf_cipher lib) (tf_config lib) encrypted userId)) (\<lambda>decrypted.
         tx_bind (tx_lift (matchTotpCounter (tf_hmac lib) (ds_secret decrypted) code now)) (\<lambda>matched.
         case matched of
           Some matchedCounter \<Rightarrow> acceptTotp lib fresh userId row decrypted matchedCounter
         | None \<Rightarrow>
             (let normalizedCode = toUpperCase (js_trim code) in
              if \<not> BACKUP_CODE_PATTERN normalizedCode then tx_return False
              else
                tx_bind (tx_gets (\<lambda>s. sort_key bc_id (filter (usableBackupCode userId) (au_backup_codes s)))) (\<lambda>rows.
                consumeBackupCode lib fresh now userId decrypted normalizedCode rows)))))"

definition verifyTwoFactorCode :: "tf_lib \<Rightarrow> tf_fresh \<Rightarrow> time \<Rightarrow> uuid \<Rightarrow> string \<Rightarrow> bool authtx" where
  "verifyTwoFactorCode lib fresh now userId code =
     tx_bind (migrateLegacyTwoFactorSecrets lib fresh (Some userId)) (\<lambda>_.
     authTx (consumeTwoFactorCode lib fresh now userId code))"

section \<open>Changing the second factor\<close>

definition requireReauthentication ::
  "tf_lib \<Rightarrow> tf_fresh \<Rightarrow> time \<Rightarrow> uuid \<Rightarrow> user_account \<Rightarrow> TwoFactorReauthentication \<Rightarrow> unit authtx" where
  "requireReauthentication lib fresh now userId user input =
     (if re_password input = None \<and> re_totp input = None
      then tx_throw (badRequest ''Confirm this action with your current password or authenticator code'')
      else if (case (re_password input, ac_password_hash user) of
          (Some p, Some h) \<Rightarrow> verifyPassword lib p (Some h) | _ \<Rightarrow> False) then tx_return ()
      else case (re_totp input, ac_two_factor user) of
          (Some code, True) \<Rightarrow>
            tx_bind (consumeTwoFactorCode lib fresh now userId code) (\<lambda>ok.
            tx_guard ok (badRequest ''Current password or authenticator code is incorrect''))
        | _ \<Rightarrow> tx_throw (badRequest ''Current password or authenticator code is incorrect''))"

definition createBackupCodes :: "tf_lib \<Rightarrow> tf_fresh \<Rightarrow> uuid \<Rightarrow> string list authtx" where
  "createBackupCodes lib fresh userId =
     (let backupCodes = map generateBackupCode (take BACKUP_CODE_COUNT (ff_codes fresh));
          hashedCodes = map2 (tf_bcrypt lib) (ff_salts fresh) backupCodes in
      tx_bind (tx_modify (au_backup_codes_update (filter (\<lambda>r. bc_user r \<noteq> userId)))) (\<lambda>_.
      tx_bind (tx_modify (au_backup_codes_update (\<lambda>rows. rows @
          map2 (\<lambda>i h. \<lparr>bc_id = i, bc_user = userId, bc_hash = h, bc_used_at = None\<rparr>) (ff_ids fresh) hashedCodes))) (\<lambda>_.
      tx_return backupCodes)))"

text \<open>\<open>insert ... on conflict (user_id) do update\<close> of the pending secret.\<close>

definition storePending :: "tf_fresh \<Rightarrow> time \<Rightarrow> uuid \<Rightarrow> secret_box \<Rightarrow> unit authtx" where
  "storePending fresh now userId encrypted =
     tx_bind (selectMethod userId) (\<lambda>row.
     if row \<noteq> None then updateMethod userId (tm_pending_update (\<lambda>_. Some (encrypted, now)))
     else tx_modify (au_methods_update (\<lambda>rows. rows @ [\<lparr>tm_user = userId, tm_id = ff_method_id fresh, tm_legacy = None,
       tm_confirmed_at = None, tm_created_at = now, tm_active = None, tm_last_counter = None,
       tm_pending = Some (encrypted, now)\<rparr>])))"

text \<open>\<open>encodeURIComponent\<close> and \<open>URLSearchParams.toString\<close>, on ASCII text.\<close>

definition percent :: "char \<Rightarrow> string" where
  "percent c = CHR ''%'' # toUpperCase [hex_digit (of_char c div 16), hex_digit (of_char c mod 16)]"

definition alnum_char :: "char \<Rightarrow> bool" where
  "alnum_char c \<longleftrightarrow> c \<in> set ''ABCDEFGHIJKLMNOPQRSTUVWXYZabcdefghijklmnopqrstuvwxyz0123456789''"

definition encodeURIComponent :: "string \<Rightarrow> string" where
  "encodeURIComponent s = concat (map (\<lambda>c. if alnum_char c \<or> c \<in> set (char_of (39::nat) # ''-_.!~*()'') then [c] else percent c) s)"

definition formEncode :: "string \<Rightarrow> string" where
  "formEncode s = concat (map (\<lambda>c. if c = CHR '' '' then ''+'' else if alnum_char c \<or> c \<in> set ''*-._'' then [c] else percent c) s)"

definition buildOtpauthUri :: "string \<Rightarrow> string \<Rightarrow> string \<Rightarrow> string result" where
  "buildOtpauthUri secret accountLabel issuer =
     r_bind (base32DecodeStrict secret) (\<lambda>_.
     Inr (''otpauth://totp/'' @ encodeURIComponent (issuer @ '':'' @ accountLabel) @ ''?secret='' @ formEncode secret @
       ''&issuer='' @ formEncode issuer @ ''&algorithm=SHA1&digits='' @ nat_dec TOTP_DIGITS @
       ''&period='' @ int_dec TOTP_PERIOD_SECONDS))"

definition setupTwoFactor ::
  "tf_lib \<Rightarrow> tf_fresh \<Rightarrow> time \<Rightarrow> uuid \<Rightarrow> string \<Rightarrow> TwoFactorReauthentication \<Rightarrow> (string \<times> string) authtx" where
  "setupTwoFactor lib fresh now userId accountLabel input =
     tx_bind (migrateLegacyTwoFactorSecrets lib fresh (Some userId)) (\<lambda>_.
     let secret = generateTotpSecret (ff_secret fresh) in
     tx_bind (tx_lift (encryptTwoFactorSecret (tf_cipher lib) (tf_config lib) (ff_iv fresh) secret userId)) (\<lambda>encrypted.
     tx_bind (authTx
       (tx_bind (selectUserForSecurityAction userId) (\<lambda>user.
        tx_bind (tx_when (ac_two_factor user) (requireReauthentication lib fresh now userId user input)) (\<lambda>_.
        storePending fresh now userId encrypted)))) (\<lambda>_.
     tx_bind (tx_lift (buildOtpauthUri secret accountLabel ''SKRYNIA'')) (\<lambda>uri.
     tx_return (secret, uri)))))"

definition notifyUser :: "uuid \<Rightarrow> string \<Rightarrow> unit authtx" where
  "notifyUser userId kind = tx_modify (au_notified_update (\<lambda>ns. ns @ [(userId, kind)]))"

text \<open>The transaction of \<open>confirmTwoFactor\<close>: the backup codes, or \<open>None\<close> when the setup has expired.\<close>

definition confirmTx :: "tf_lib \<Rightarrow> tf_fresh \<Rightarrow> time \<Rightarrow> uuid \<Rightarrow> string \<Rightarrow> string list option authtx" where
  "confirmTx lib fresh now userId code =
     tx_bind (selectUserForSecurityAction userId) (\<lambda>_.
     tx_bind (selectMethod userId) (\<lambda>row.
     tx_bind (tx_some (pendingSecretFromRow row) (badRequest ''Start 2FA setup first'')) (\<lambda>(encrypted, pendingCreatedAt).
     if PENDING_SECRET_TTL_MS < now - pendingCreatedAt then
       tx_bind (updateMethod userId (tm_pending_update (\<lambda>_. None))) (\<lambda>_. tx_return None)
     else
       tx_bind (tx_lift (decryptTwoFactorSecret (tf_cipher lib) (tf_config lib) encrypted userId)) (\<lambda>secret.
       tx_bind (tx_lift (matchTotpCounter (tf_hmac lib) secret code now)) (\<lambda>matched.
       tx_bind (tx_some matched (badRequest ''Invalid code'')) (\<lambda>matchedCounter.
       tx_bind (createBackupCodes lib fresh userId) (\<lambda>backupCodes.
       tx_bind (tx_lift (encryptTwoFactorSecret (tf_cipher lib) (tf_config lib) (ff_iv fresh) secret userId)) (\<lambda>activeSecret.
       tx_bind (updateMethod userId (\<lambda>m. m\<lparr>tm_legacy := None, tm_confirmed_at := Some now, tm_active := Some activeSecret,
           tm_last_counter := Some matchedCounter, tm_pending := None\<rparr>)) (\<lambda>_.
       tx_bind (updateUser userId (ac_two_factor_update (\<lambda>_. True))) (\<lambda>_.
       tx_bind (bumpSessionVersion userId) (\<lambda>_.
       tx_bind (recordSecurityAudit userId ''two_factor_totp_accepted'') (\<lambda>_.
       tx_bind (recordSecurityAudit userId ''two_factor_enabled'') (\<lambda>_.
       tx_return (Some backupCodes)))))))))))))) "

definition confirmTwoFactor :: "tf_lib \<Rightarrow> tf_fresh \<Rightarrow> time \<Rightarrow> uuid \<Rightarrow> string \<Rightarrow> string list authtx" where
  "confirmTwoFactor lib fresh now userId code =
     tx_bind (migrateLegacyTwoFactorSecrets lib fresh (Some userId)) (\<lambda>_.
     tx_bind (authTx (confirmTx lib fresh now userId code)) (\<lambda>result.
     tx_bind (tx_some result (badRequest ''Two-factor setup expired; start setup again'')) (\<lambda>backupCodes.
     tx_bind (notifyUser userId ''two_factor_enabled'') (\<lambda>_.
     tx_return backupCodes))))"

definition regenerateTwoFactorBackupCodes ::
  "tf_lib \<Rightarrow> tf_fresh \<Rightarrow> time \<Rightarrow> uuid \<Rightarrow> TwoFactorReauthentication \<Rightarrow> string list authtx" where
  "regenerateTwoFactorBackupCodes lib fresh now userId input =
     tx_bind (migrateLegacyTwoFactorSecrets lib fresh (Some userId)) (\<lambda>_.
     authTx
       (tx_bind (selectUserForSecurityAction userId) (\<lambda>user.
        tx_bind (tx_guard (ac_two_factor user) (badRequest ''Two-factor authentication is not enabled'')) (\<lambda>_.
        tx_bind (requireReauthentication lib fresh now userId user input) (\<lambda>_.
        tx_bind (selectMethod userId) (\<lambda>row.
        tx_bind (tx_guard (activeSecretFromRow row \<noteq> None) (badRequest ''Two-factor authentication is not configured'')) (\<lambda>_.
        tx_bind (createBackupCodes lib fresh userId) (\<lambda>backupCodes.
        tx_bind (bumpSessionVersion userId) (\<lambda>_.
        tx_bind (recordSecurityAudit userId ''two_factor_backup_codes_regenerated'') (\<lambda>_.
        tx_return backupCodes))))))))))"

definition disableTwoFactor :: "tf_lib \<Rightarrow> tf_fresh \<Rightarrow> time \<Rightarrow> uuid \<Rightarrow> TwoFactorReauthentication \<Rightarrow> unit authtx" where
  "disableTwoFactor lib fresh now userId input =
     tx_bind (migrateLegacyTwoFactorSecrets lib fresh (Some userId)) (\<lambda>_.
     tx_bind (authTx
       (tx_bind (selectUserForSecurityAction userId) (\<lambda>user.
        tx_bind (tx_guard (ac_two_factor user) (badRequest ''Two-factor authentication is not enabled'')) (\<lambda>_.
        tx_bind (requireReauthentication lib fresh now userId user input) (\<lambda>_.
        tx_bind (tx_modify (au_backup_codes_update (filter (\<lambda>r. bc_user r \<noteq> userId)))) (\<lambda>_.
        tx_bind (tx_modify (au_methods_update (filter (\<lambda>m. tm_user m \<noteq> userId)))) (\<lambda>_.
        tx_bind (updateUser userId (ac_two_factor_update (\<lambda>_. False))) (\<lambda>_.
        tx_bind (bumpSessionVersion userId) (\<lambda>_.
        recordSecurityAudit userId ''two_factor_disabled'')))))))))
       (\<lambda>_. notifyUser userId ''two_factor_disabled''))"

end
