(* ===== verification/Tokens.thy ===== *)
theory Tokens
  imports Sessions Totp I18n Money
begin

text \<open>
  \<open>modules/auth/verification.service.ts\<close>: the links that verify an email address and reset a password.
  A link carries a random token; Redis keeps, under its hash, a record of the account state it was
  issued for. The five Lua scripts are functions on the store. The emails themselves are sent by the
  caller: \<open>createAndSendVerificationEmail\<close> returns what is to be sent.
\<close>

section \<open>Constants and records\<close>

definition EMAIL_VERIFY_TTL_SECONDS :: int where "EMAIL_VERIFY_TTL_SECONDS = 24 * 60 * 60"

definition PASSWORD_RESET_TTL_SECONDS :: int where "PASSWORD_RESET_TTL_SECONDS = 60 * 60"

definition RESEND_COOLDOWN_SECONDS :: int where "RESEND_COOLDOWN_SECONDS = 60"

definition RESEND_HOURLY_LIMIT :: int where "RESEND_HOURLY_LIMIT = 5"

definition TOKEN_RECORD_VERSION :: int where "TOKEN_RECORD_VERSION = 1"

definition base64url_char :: "char \<Rightarrow> bool" where
  "base64url_char c \<longleftrightarrow> c \<in> set ''ABCDEFGHIJKLMNOPQRSTUVWXYZabcdefghijklmnopqrstuvwxyz0123456789_-''"

definition RAW_TOKEN_PATTERN :: "string \<Rightarrow> bool" where
  "RAW_TOKEN_PATTERN s \<longleftrightarrow> length s = 43 \<and> list_all base64url_char s"

record EmailVerificationTokenRecord =
  ev_user :: uuid
  ev_email :: string
  ev_generation :: int
  ev_expires :: time

record PasswordResetTokenRecord =
  rt_user :: uuid
  rt_email :: string
  rt_email_generation :: int
  rt_password_generation :: int
  rt_expires :: time

text \<open>\<open>JSON.stringify(record)\<close>, members in the order of the literal.\<close>

definition emailRecordJson :: "EmailVerificationTokenRecord \<Rightarrow> json" where
  "emailRecordJson t = JObj [(''version'', JNum TOKEN_RECORD_VERSION), (''purpose'', JStr ''email_verification''),
     (''userId'', JStr (ev_user t)), (''expectedEmail'', JStr (ev_email t)),
     (''emailGeneration'', JNum (ev_generation t)), (''expiresAt'', JNum (ev_expires t))]"

definition resetRecordJson :: "PasswordResetTokenRecord \<Rightarrow> json" where
  "resetRecordJson t = JObj [(''version'', JNum TOKEN_RECORD_VERSION), (''purpose'', JStr ''password_reset''),
     (''userId'', JStr (rt_user t)), (''expectedEmail'', JStr (rt_email t)),
     (''emailGeneration'', JNum (rt_email_generation t)), (''passwordGeneration'', JNum (rt_password_generation t)),
     (''expiresAt'', JNum (rt_expires t))]"

definition normalizeEmail :: "string \<Rightarrow> string" where
  "normalizeEmail email = toLowerCase (js_trim email)"

definition securityLinksUnavailable :: err where
  "securityLinksUnavailable = serviceUnavailable ''Security links are temporarily unavailable''"

definition invalidEmailVerificationToken :: err where
  "invalidEmailVerificationToken = badRequest ''Verification link is invalid or expired''"

definition invalidPasswordResetToken :: err where
  "invalidPasswordResetToken = badRequest ''Reset link is invalid or expired''"

text \<open>\<open>isPositiveInteger(record[k])\<close>, with the integer.\<close>

definition positiveInteger :: "string \<Rightarrow> json \<Rightarrow> int option" where
  "positiveInteger k j = (case json_member k j of
       Some (JNum n) \<Rightarrow> if safeInteger n \<and> 0 < n then Some n else None
     | _ \<Rightarrow> None)"

definition parseJsonRecord :: "stored \<Rightarrow> json option" where
  "parseJsonRecord raw = (case raw of Json (JObj ms) \<Rightarrow> Some (JObj ms) | _ \<Rightarrow> None)"

definition tokenHeader :: "string \<Rightarrow> json \<Rightarrow> bool" where
  "tokenHeader purpose j \<longleftrightarrow>
     json_member ''version'' j = Some (JNum TOKEN_RECORD_VERSION) \<and> json_member ''purpose'' j = Some (JStr purpose)"

definition parseEmailVerificationRecord :: "stored \<Rightarrow> time \<Rightarrow> EmailVerificationTokenRecord option" where
  "parseEmailVerificationRecord raw now = (case parseJsonRecord raw of
       None \<Rightarrow> None
     | Some j \<Rightarrow> (case (nonempty (json_member ''userId'' j), nonempty (json_member ''expectedEmail'' j),
                       positiveInteger ''emailGeneration'' j, positiveInteger ''expiresAt'' j) of
           (Some u, Some e, Some g, Some x) \<Rightarrow>
             if tokenHeader ''email_verification'' j \<and> normalizeEmail e = e \<and> now < x
             then Some \<lparr>ev_user = u, ev_email = e, ev_generation = g, ev_expires = x\<rparr> else None
         | _ \<Rightarrow> None))"

definition parsePasswordResetRecord :: "stored \<Rightarrow> time \<Rightarrow> PasswordResetTokenRecord option" where
  "parsePasswordResetRecord raw now = (case parseJsonRecord raw of
       None \<Rightarrow> None
     | Some j \<Rightarrow> (case (nonempty (json_member ''userId'' j), nonempty (json_member ''expectedEmail'' j),
                       positiveInteger ''emailGeneration'' j, positiveInteger ''passwordGeneration'' j,
                       positiveInteger ''expiresAt'' j) of
           (Some u, Some e, Some g, Some p, Some x) \<Rightarrow>
             if tokenHeader ''password_reset'' j \<and> normalizeEmail e = e \<and> now < x
             then Some \<lparr>rt_user = u, rt_email = e, rt_email_generation = g, rt_password_generation = p, rt_expires = x\<rparr>
             else None
         | _ \<Rightarrow> None))"

section \<open>The scripts\<close>

text \<open>\<open>type(record[k]) == "number" and record[k] >= 1\<close>; the numbers stored are integers.\<close>

definition atLeastOne :: "string \<Rightarrow> json \<Rightarrow> bool" where
  "atLeastOne k j = (case json_member k j of Some (JNum n) \<Rightarrow> 1 \<le> n | _ \<Rightarrow> False)"

definition luaEmailRecord :: "time \<Rightarrow> stored \<Rightarrow> bool" where
  "luaEmailRecord now raw = (case decodeObject (Some raw) of
       None \<Rightarrow> False
     | Some j \<Rightarrow> tokenHeader ''email_verification'' j \<and> nonempty (json_member ''userId'' j) \<noteq> None \<and>
         nonempty (json_member ''expectedEmail'' j) \<noteq> None \<and> atLeastOne ''emailGeneration'' j \<and>
         (case json_member ''expiresAt'' j of Some (JNum x) \<Rightarrow> now < x | _ \<Rightarrow> False))"

definition consumeEmailScript :: "string \<Rightarrow> time \<Rightarrow> redis \<Rightarrow> stored option \<times> redis" where
  "consumeEmailScript h now r = (case GET now (EmailVerify h) r of
       None \<Rightarrow> (None, r)
     | Some raw \<Rightarrow> (if luaEmailRecord now raw then Some raw else None, DEL (EmailVerify h) r))"

text \<open>\<open>tonumber\<close> of a decimal numeral, the only numbers the key ever holds.\<close>

definition luaNumber :: "string \<Rightarrow> int" where
  "luaNumber s = (if s \<noteq> [] \<and> list_all is_digit s then int (dec_nat s) else 0)"

text \<open>The value of \<open>pwd_reset_active:\<close>: \<open>generation:hash\<close>, or a bare hash from before the generations.\<close>

definition splitActive :: "string \<Rightarrow> int \<times> string" where
  "splitActive v = (case dropWhile (\<lambda>c. c \<noteq> CHR '':'') v of
       [] \<Rightarrow> (0, v)
     | _ # h \<Rightarrow> (luaNumber (takeWhile (\<lambda>c. c \<noteq> CHR '':'') v), h))"

definition activeValue :: "int \<Rightarrow> string \<Rightarrow> string" where
  "activeValue generation h = int_dec generation @ CHR '':'' # h"

definition writeReset :: "string \<Rightarrow> uuid \<Rightarrow> stored \<Rightarrow> int \<Rightarrow> time \<Rightarrow> redis \<Rightarrow> redis" where
  "writeReset h u recd generation now r =
     SET_EX now (PwdResetActive u) (stored.Text (activeValue generation h)) PASSWORD_RESET_TTL_SECONDS
       (SET_EX now (PwdReset h) recd PASSWORD_RESET_TTL_SECONDS r)"

definition issueResetScript :: "string \<Rightarrow> uuid \<Rightarrow> stored \<Rightarrow> int \<Rightarrow> time \<Rightarrow> redis \<Rightarrow> int \<times> redis" where
  "issueResetScript h u recd generation now r =
     (if GET now (PwdReset h) r \<noteq> None then (0, r)
      else case GET now (PwdResetActive u) r of
          None \<Rightarrow> (1, writeReset h u recd generation now r)
        | Some previous \<Rightarrow>
            (if generation \<le> fst (splitActive (stored_raw previous)) then (-1, r)
             else (1, writeReset h u recd generation now (DEL (PwdReset (snd (splitActive (stored_raw previous)))) r))))"

definition hex_or_dash :: "char \<Rightarrow> bool" where
  "hex_or_dash c \<longleftrightarrow> c \<in> set ''0123456789abcdefABCDEF-''"

text \<open>The user, the password generation and the expiry of a record the script takes for well-formed.\<close>

definition luaResetRecord :: "stored \<Rightarrow> (uuid \<times> int \<times> int) option" where
  "luaResetRecord raw = (case decodeObject (Some raw) of
       None \<Rightarrow> None
     | Some j \<Rightarrow> (case (json_member ''userId'' j, json_member ''passwordGeneration'' j, json_member ''expiresAt'' j) of
           (Some (JStr u), Some (JNum p), Some (JNum x)) \<Rightarrow>
             if tokenHeader ''password_reset'' j \<and> length u = 36 \<and> list_all hex_or_dash u \<and>
                nonempty (json_member ''expectedEmail'' j) \<noteq> None \<and> atLeastOne ''emailGeneration'' j \<and> 1 \<le> p
             then Some (u, p, x) else None
         | _ \<Rightarrow> None))"

definition consumeResetScript :: "string \<Rightarrow> time \<Rightarrow> redis \<Rightarrow> stored option \<times> redis" where
  "consumeResetScript h now r = (case GET now (PwdReset h) r of
       None \<Rightarrow> (None, r)
     | Some raw \<Rightarrow> (case luaResetRecord raw of
           None \<Rightarrow> (None, DEL (PwdReset h) r)
         | Some (u, p, x) \<Rightarrow>
             (let active = map_option stored_raw (GET now (PwdResetActive u) r);
                  isActive = (active = Some h \<or> active = Some (activeValue p h)) in
              if x \<le> now then
                (None, if isActive then DEL (PwdResetActive u) (DEL (PwdReset h) r) else DEL (PwdReset h) r)
              else if \<not> isActive then (None, DEL (PwdReset h) r)
              else (Some raw, DEL (PwdResetActive u) (DEL (PwdReset h) r)))))"

definition cancelResetScript :: "string \<Rightarrow> uuid \<Rightarrow> int \<Rightarrow> time \<Rightarrow> redis \<Rightarrow> nat \<times> redis" where
  "cancelResetScript h u generation now r =
     (let r1 = DEL (PwdReset h) r in
      (1, if map_option stored_raw (GET now (PwdResetActive u) r1) = Some (activeValue generation h)
          then DEL (PwdResetActive u) r1 else r1))"

text \<open>\<open>INCR\<close> keeps the expiry of a live key; a key it creates has none, and \<open>TTL\<close> is then negative.\<close>

definition counterValue :: "stored option \<Rightarrow> int" where
  "counterValue v = (case v of Some (Json (JNum n)) \<Rightarrow> n | _ \<Rightarrow> 0)"

definition INCR :: "time \<Rightarrow> str_key \<Rightarrow> redis \<Rightarrow> redis" where
  "INCR now k r = r\<lparr>rs_str := put now k (Json (JNum (counterValue (GET now k r) + 1))) (rs_str r)\<rparr>"

definition EXPIRE :: "time \<Rightarrow> str_key \<Rightarrow> int \<Rightarrow> redis \<Rightarrow> redis" where
  "EXPIRE now k ttl r = r\<lparr>rs_str := set_ttl now k ttl (rs_str r)\<rparr>"

definition hasExpiry :: "time \<Rightarrow> str_key \<Rightarrow> redis \<Rightarrow> bool" where
  "hasExpiry now k r = (case rs_str r k of Some (v, Some e) \<Rightarrow> now < e | _ \<Rightarrow> False)"

definition resendScript :: "uuid \<Rightarrow> time \<Rightarrow> redis \<Rightarrow> nat \<times> redis" where
  "resendScript u now r =
     (if GET now (EmailVerifyCooldown u) r \<noteq> None then (1, r)
      else if RESEND_HOURLY_LIMIT \<le> counterValue (GET now (EmailVerifyHourly u) r) then (2, r)
      else let r1 = INCR now (EmailVerifyHourly u) r;
               r2 = (if hasExpiry now (EmailVerifyHourly u) r1 then r1 else EXPIRE now (EmailVerifyHourly u) (60 * 60) r1) in
        (0, SET_EX now (EmailVerifyCooldown u) (Json (JNum 1)) RESEND_COOLDOWN_SECONDS r2))"

section \<open>Verifying an address\<close>

definition loadEmailVerificationIdentity :: "uuid \<Rightarrow> string option \<Rightarrow> (string \<times> int) authtx" where
  "loadEmailVerificationIdentity userId expectedEmail =
     tx_bind (accountById userId) (\<lambda>row.
     tx_bind (tx_some row (badRequest ''Account is unavailable'')) (\<lambda>user.
     let authoritativeEmail = normalizeEmail (ac_email user) in
     tx_bind (tx_guard (case expectedEmail of None \<Rightarrow> True | Some e \<Rightarrow> normalizeEmail e = authoritativeEmail)
         (badRequest ''Email verification request is stale'')) (\<lambda>_.
     tx_return (authoritativeEmail, ac_email_generation user))))"

text \<open>\<open>SET key value EX ttl NX\<close>: whether it stored.\<close>

definition SET_NX :: "time \<Rightarrow> str_key \<Rightarrow> stored \<Rightarrow> int \<Rightarrow> redis \<Rightarrow> bool \<times> redis" where
  "SET_NX now k v ttl r = (if GET now k r = None then (True, SET_EX now k v ttl r) else (False, r))"

text \<open>The loop draws one token per attempt; a token already taken goes on to the next.\<close>

fun storeFresh :: "('t auth_env) \<Rightarrow> time \<Rightarrow> (string \<Rightarrow> str_key) \<Rightarrow> stored \<Rightarrow> int \<Rightarrow> err \<Rightarrow> (string \<times> delivery) list \<Rightarrow> string authtx" where
  "storeFresh env now key v ttl e [] = tx_throw e"
| "storeFresh env now key v ttl e ((token, d) # rest) =
     tx_bind (tx_catch (redis_eval d (SET_NX now (key (sha256 env token)) v ttl)) (\<lambda>_. tx_throw e)) (\<lambda>stored.
     if stored then tx_return token else storeFresh env now key v ttl e rest)"

definition issueEmailVerificationToken ::
  "'t auth_env \<Rightarrow> time \<Rightarrow> (string \<times> delivery) \<Rightarrow> (string \<times> delivery) \<Rightarrow> uuid \<Rightarrow> string option \<Rightarrow>
   (string \<times> EmailVerificationTokenRecord) authtx" where
  "issueEmailVerificationToken env now t1 t2 userId expectedEmail =
     tx_bind (requireRedis securityLinksUnavailable) (\<lambda>_.
     tx_bind (loadEmailVerificationIdentity userId expectedEmail) (\<lambda>identity.
     let recd = \<lparr>ev_user = userId, ev_email = fst identity, ev_generation = snd identity,
                 ev_expires = now + EMAIL_VERIFY_TTL_SECONDS * 1000\<rparr> in
     tx_bind (storeFresh env now EmailVerify (Json (emailRecordJson recd)) EMAIL_VERIFY_TTL_SECONDS
         securityLinksUnavailable [t1, t2]) (\<lambda>token.
     tx_return (token, recd))))"

definition createEmailVerificationToken ::
  "'t auth_env \<Rightarrow> time \<Rightarrow> (string \<times> delivery) \<Rightarrow> (string \<times> delivery) \<Rightarrow> uuid \<Rightarrow> string option \<Rightarrow> string authtx" where
  "createEmailVerificationToken env now t1 t2 userId expectedEmail =
     tx_bind (issueEmailVerificationToken env now t1 t2 userId expectedEmail) (\<lambda>p. tx_return (fst p))"

definition consumeEmailVerificationToken ::
  "'t auth_env \<Rightarrow> time \<Rightarrow> delivery \<Rightarrow> string \<Rightarrow> EmailVerificationTokenRecord authtx" where
  "consumeEmailVerificationToken env now d token =
     tx_bind (tx_guard (RAW_TOKEN_PATTERN token) invalidEmailVerificationToken) (\<lambda>_.
     tx_bind (requireRedis securityLinksUnavailable) (\<lambda>_.
     tx_bind (tx_catch (redis_eval d (consumeEmailScript (sha256 env token) now)) (\<lambda>_. tx_throw securityLinksUnavailable)) (\<lambda>raw.
     tx_bind (tx_some raw invalidEmailVerificationToken) (\<lambda>raw.
     tx_some (parseEmailVerificationRecord raw now) invalidEmailVerificationToken))))"

section \<open>Resetting a password\<close>

text \<open>
  \<open>update users set password_generation = password_generation + 1 where id = $1 and ($2 is null or
  lower(email) = $2) returning ...\<close>, and the record built from it.
\<close>

definition beginReset :: "time \<Rightarrow> uuid \<Rightarrow> string option \<Rightarrow> PasswordResetTokenRecord authtx" where
  "beginReset now userId expectedEmail =
     tx_bind (accountById userId) (\<lambda>row.
     tx_bind (tx_some (case row of None \<Rightarrow> None | Some u \<Rightarrow>
           if (case map_option normalizeEmail expectedEmail of None \<Rightarrow> True | Some e \<Rightarrow> toLowerCase (ac_email u) = e)
           then Some u else None) (badRequest ''Account is unavailable'')) (\<lambda>user.
     tx_bind (tx_modify (au_users_update (t_upd ac_id userId
         (\<lambda>u. u\<lparr>ac_password_generation := ac_password_generation u + 1\<rparr>)))) (\<lambda>_.
     tx_return \<lparr>rt_user = userId, rt_email = normalizeEmail (ac_email user), rt_email_generation = ac_email_generation user,
       rt_password_generation = ac_password_generation user + 1, rt_expires = now + PASSWORD_RESET_TTL_SECONDS * 1000\<rparr>)))"

text \<open>The account is still as the record says.\<close>

definition stillCurrent :: "PasswordResetTokenRecord \<Rightarrow> user_account option \<Rightarrow> bool" where
  "stillCurrent recd row = (case row of
       None \<Rightarrow> False
     | Some u \<Rightarrow> normalizeEmail (ac_email u) = rt_email recd \<and> ac_email_generation u = rt_email_generation recd \<and>
         ac_password_generation u = rt_password_generation recd)"

text \<open>The second look at the account; when it has changed, the link is taken back.\<close>

definition settleReset :: "time \<Rightarrow> delivery \<Rightarrow> string \<Rightarrow> PasswordResetTokenRecord \<Rightarrow> unit authtx" where
  "settleReset now d h recd =
     tx_bind (accountById (rt_user recd)) (\<lambda>row.
     if stillCurrent recd row then tx_return ()
     else
       tx_bind (redis_eval d (cancelResetScript h (rt_user recd) (rt_password_generation recd) now)) (\<lambda>_.
       tx_throw securityLinksUnavailable))"

fun storeReset ::
  "'t auth_env \<Rightarrow> time \<Rightarrow> PasswordResetTokenRecord \<Rightarrow> (string \<times> delivery \<times> delivery) list \<Rightarrow> string authtx" where
  "storeReset env now recd [] = tx_throw securityLinksUnavailable"
| "storeReset env now recd ((token, d, d') # rest) =
     tx_bind (redis_eval d (issueResetScript (sha256 env token) (rt_user recd) (Json (resetRecordJson recd))
         (rt_password_generation recd) now)) (\<lambda>stored.
     if stored = -1 then tx_throw securityLinksUnavailable
     else if stored \<noteq> 1 then storeReset env now recd rest
     else tx_bind (settleReset now d' (sha256 env token) recd) (\<lambda>_. tx_return token))"

definition issuePasswordResetToken ::
  "'t auth_env \<Rightarrow> time \<Rightarrow> (string \<times> delivery \<times> delivery) \<Rightarrow> (string \<times> delivery \<times> delivery) \<Rightarrow> uuid \<Rightarrow> string option \<Rightarrow>
   (string \<times> string) authtx" where
  "issuePasswordResetToken env now t1 t2 userId expectedEmail =
     tx_bind (requireRedis securityLinksUnavailable) (\<lambda>_.
     tx_bind (beginReset now userId expectedEmail) (\<lambda>recd.
     tx_bind (tx_catch (storeReset env now recd [t1, t2]) (\<lambda>_. tx_throw securityLinksUnavailable)) (\<lambda>token.
     tx_return (token, rt_email recd))))"

definition consumePasswordResetToken :: "'t auth_env \<Rightarrow> time \<Rightarrow> delivery \<Rightarrow> string \<Rightarrow> PasswordResetTokenRecord authtx" where
  "consumePasswordResetToken env now d token =
     tx_bind (tx_guard (RAW_TOKEN_PATTERN token) invalidPasswordResetToken) (\<lambda>_.
     tx_bind (requireRedis securityLinksUnavailable) (\<lambda>_.
     tx_bind (tx_catch (redis_eval d (consumeResetScript (sha256 env token) now)) (\<lambda>_. tx_throw securityLinksUnavailable)) (\<lambda>raw.
     tx_bind (tx_some raw invalidPasswordResetToken) (\<lambda>raw.
     tx_some (parsePasswordResetRecord raw now) invalidPasswordResetToken))))"

section \<open>The limit on verification emails\<close>

definition checkResendRateLimit :: "time \<Rightarrow> delivery \<Rightarrow> uuid \<Rightarrow> unit authtx" where
  "checkResendRateLimit now d userId =
     tx_bind (requireRedis securityLinksUnavailable) (\<lambda>_.
     tx_bind (tx_catch (redis_eval d (resendScript userId now)) (\<lambda>_. tx_throw securityLinksUnavailable)) (\<lambda>result.
     if result = 1 then tx_throw (badRequest ''Please wait a minute before requesting another verification email'')
     else if result = 2 then tx_throw (badRequest ''Too many verification emails requested, try again in an hour'')
     else tx_return ()))"

text \<open>What \<open>sendEmail\<close> is given: the recipient, the template of subject and bodies, and the link.\<close>

record outgoing_email =
  em_to :: string
  em_template :: string
  em_link :: string

definition createAndSendVerificationEmail ::
  "'t auth_env \<Rightarrow> string \<Rightarrow> Locale \<Rightarrow> time \<Rightarrow> (string \<times> delivery) \<Rightarrow> (string \<times> delivery) \<Rightarrow> uuid \<Rightarrow> string \<Rightarrow>
   (string \<times> outgoing_email) authtx" where
  "createAndSendVerificationEmail env frontendUrl loc now t1 t2 userId email =
     tx_bind (issueEmailVerificationToken env now t1 t2 userId (Some email)) (\<lambda>(token, recd).
     let link = frontendUrl @ ''/'' @ localeName loc @ ''/verify-email?token='' @ token in
     tx_return (link, \<lparr>em_to = ev_email recd, em_template = ''email.verify'', em_link = link\<rparr>))"

definition sendPasswordResetEmail :: "string \<Rightarrow> string \<Rightarrow> outgoing_email" where
  "sendPasswordResetEmail email link = \<lparr>em_to = email, em_template = ''email.passwordReset'', em_link = link\<rparr>"

end
