(* ===== verification/StepUp.thy ===== *)
theory StepUp
  imports TwoFactor Tokens
begin

text \<open>
  \<open>modules/auth/step-up.service.ts\<close> and \<open>ws-ticket.service.ts\<close>: the proof of a fresh authentication
  that a sensitive change asks for, and the ticket that carries a session to the WebSocket endpoint.
  Both are random tokens whose record Redis keeps under their hash and gives out once.
\<close>

section \<open>Step-up tokens\<close>

definition STEP_UP_TTL_SECONDS :: int where "STEP_UP_TTL_SECONDS = 5 * 60"

record StepUpRecord =
  su_user :: uuid
  su_session :: string
  su_version :: int
  su_purpose :: string

definition encodeRecord :: "StepUpRecord \<Rightarrow> stored" where
  "encodeRecord t = Json (JObj [(''userId'', JStr (su_user t)), (''sessionId'', JStr (su_session t)),
     (''sessionVersion'', JNum (su_version t)), (''purpose'', JStr (su_purpose t))])"

definition consumeStepUpScript :: "string \<Rightarrow> stored \<Rightarrow> time \<Rightarrow> redis \<Rightarrow> nat \<times> redis" where
  "consumeStepUpScript h expected now r =
     (if GET now (StepUp h) r \<noteq> Some expected then (0, r) else (1, DEL (StepUp h) r))"

definition stepUpUnavailable :: err where
  "stepUpUnavailable = serviceUnavailable ''Additional authentication is temporarily unavailable''"

definition stepUpFailed :: err where
  "stepUpFailed = unauthorized ''Additional authentication failed''"

text \<open>With a second factor the code decides; without one the password does, and without either nothing.\<close>

definition verifyStepUpCredential ::
  "tf_lib \<Rightarrow> tf_fresh \<Rightarrow> time \<Rightarrow> uuid \<Rightarrow> int \<Rightarrow> string option \<Rightarrow> string option \<Rightarrow> unit authtx" where
  "verifyStepUpCredential lib fresh now userId expectedSessionVersion currentPassword code =
     tx_bind (accountById userId) (\<lambda>row.
     tx_bind (tx_some (case row of None \<Rightarrow> None | Some u \<Rightarrow> if ac_version u = expectedSessionVersion then Some u else None)
         (unauthorized ''Authentication state changed, log in again'')) (\<lambda>user.
     if ac_two_factor user then
       (case code of
          None \<Rightarrow> tx_throw stepUpFailed
        | Some c \<Rightarrow> tx_bind (verifyTwoFactorCode lib fresh now userId c) (\<lambda>ok. tx_guard ok stepUpFailed))
     else
       (case (ac_password_hash user, currentPassword) of
          (Some h, Some p) \<Rightarrow> tx_guard (verifyPassword lib p (Some h)) stepUpFailed
        | _ \<Rightarrow> tx_throw stepUpFailed)))"

definition createStepUpToken ::
  "'t auth_env \<Rightarrow> tf_lib \<Rightarrow> tf_fresh \<Rightarrow> time \<Rightarrow> (string \<times> delivery) \<Rightarrow> (string \<times> delivery) \<Rightarrow> StepUpRecord \<Rightarrow>
   string option \<Rightarrow> string option \<Rightarrow> (string \<times> int) authtx" where
  "createStepUpToken env lib fresh now t1 t2 input currentPassword code =
     tx_bind (verifyStepUpCredential lib fresh now (su_user input) (su_version input) currentPassword code) (\<lambda>_.
     tx_bind (requireRedis stepUpUnavailable) (\<lambda>_.
     tx_bind (storeFresh env now StepUp (encodeRecord input) STEP_UP_TTL_SECONDS stepUpUnavailable [t1, t2]) (\<lambda>token.
     tx_return (token, STEP_UP_TTL_SECONDS))))"

definition consumeStepUpToken :: "'t auth_env \<Rightarrow> time \<Rightarrow> delivery \<Rightarrow> StepUpRecord \<Rightarrow> string \<Rightarrow> unit authtx" where
  "consumeStepUpToken env now d input stepUpToken =
     tx_bind (requireRedis stepUpUnavailable) (\<lambda>_.
     tx_bind (tx_catch (redis_eval d (consumeStepUpScript (sha256 env stepUpToken) (encodeRecord input) now))
         (\<lambda>_. tx_throw stepUpUnavailable)) (\<lambda>consumed.
     tx_guard (consumed = 1) (unauthorized ''Step-up token is invalid or expired'')))"

section \<open>WebSocket tickets\<close>

definition TICKET_TTL_SECONDS :: int where "TICKET_TTL_SECONDS = 25"

record WsTicketIdentity =
  wt_user :: uuid
  wt_jti :: string
  wt_family :: "string option"
  wt_version :: int
  wt_verified :: bool

text \<open>A family that is \<open>undefined\<close> is left out of the JSON text.\<close>

definition ticketJson :: "WsTicketIdentity \<Rightarrow> string \<Rightarrow> json" where
  "ticketJson t createdAt = JObj ([(''userId'', JStr (wt_user t)), (''jti'', JStr (wt_jti t))]
     @ (case wt_family t of None \<Rightarrow> [] | Some f \<Rightarrow> [(''familyId'', JStr f)])
     @ [(''sessionVersion'', JNum (wt_version t)), (''emailVerified'', JBool (wt_verified t)),
        (''createdAt'', JStr createdAt)])"

definition realtimeUnavailable :: err where
  "realtimeUnavailable = ApiError 503 ''Realtime is temporarily unavailable'' ''realtime_unavailable''"

definition issueWsTicket ::
  "'t auth_env \<Rightarrow> (time \<Rightarrow> string) \<Rightarrow> time \<Rightarrow> string \<times> delivery \<Rightarrow> WsTicketIdentity \<Rightarrow> (string \<times> int) authtx" where
  "issueWsTicket env isoDate now t identity =
     tx_bind (requireRedis realtimeUnavailable) (\<lambda>_.
     tx_bind (redis_do (snd t) (SET_EX now (WsTicket (sha256 env (fst t))) (Json (ticketJson identity (isoDate now))) TICKET_TTL_SECONDS)) (\<lambda>_.
     tx_return (fst t, TICKET_TTL_SECONDS)))"

text \<open>The parsed record as it is: the code casts it without looking at its members.\<close>

definition consumeWsTicket :: "'t auth_env \<Rightarrow> time \<Rightarrow> delivery \<Rightarrow> string \<Rightarrow> json option authtx" where
  "consumeWsTicket env now d ticket =
     tx_bind (tx_gets au_redis_up) (\<lambda>up.
     if \<not> up \<or> ticket = [] \<or> 128 < length ticket then tx_return None
     else
       tx_bind (redis_eval d (\<lambda>r. (GET now (WsTicket (sha256 env ticket)) r, DEL (WsTicket (sha256 env ticket)) r))) (\<lambda>raw.
       tx_return (case raw of Some (Json j) \<Rightarrow> Some j | _ \<Rightarrow> None)))"

definition wsTicketRoute ::
  "'t auth_env \<Rightarrow> (time \<Rightarrow> string) \<Rightarrow> time \<Rightarrow> string \<times> delivery \<Rightarrow> uuid \<Rightarrow> string option \<Rightarrow> string option \<Rightarrow> int option \<Rightarrow> bool \<Rightarrow>
   (string \<times> int) authtx" where
  "wsTicketRoute env isoDate now t userId sessionId familyId sessionVersion verified =
     issueWsTicket env isoDate now t \<lparr>wt_user = userId, wt_jti = (case sessionId of None \<Rightarrow> [] | Some j \<Rightarrow> j),
       wt_family = familyId, wt_version = (case sessionVersion of None \<Rightarrow> 1 | Some v \<Rightarrow> v), wt_verified = verified\<rparr>"

end
