(* ===== verification/EmailChange.thy ===== *)
theory EmailChange
  imports StepUp
begin

text \<open>
  \<open>modules/auth/email-change.service.ts\<close>: replacing the address of an account. A request needs a step-up
  token, waits for both mails to be delivered, and is confirmed once by the token mailed to the new
  address. \<open>sendEmail\<close> is an argument: whether each mail was sent, or \<open>None\<close> when it threw.
\<close>

section \<open>Requests\<close>

definition EMAIL_CHANGE_TTL_SECONDS :: int where "EMAIL_CHANGE_TTL_SECONDS = 24 * 60 * 60"

record email_change_input =
  ei_user :: uuid
  ei_session :: string
  ei_version :: int
  ei_pending_email :: string
  ei_step_up :: string
  ei_locale :: Locale

definition stripSlashes :: "string \<Rightarrow> string" where
  "stripSlashes s = rev (dropWhile (\<lambda>c. c = CHR ''/'') (rev s))"

definition confirmationUrl :: "string \<Rightarrow> Locale \<Rightarrow> string \<Rightarrow> string" where
  "confirmationUrl frontendUrl loc token =
     stripSlashes frontendUrl @ ''/'' @ localeName loc @ ''/verify-email?purpose=email-change&token='' @ encodeURIComponent token"

definition deliveryMessages :: "string \<Rightarrow> Locale \<Rightarrow> string \<Rightarrow> string \<Rightarrow> string \<Rightarrow> outgoing_email \<times> outgoing_email" where
  "deliveryMessages frontendUrl loc link pendingEmail oldEmail =
     (\<lparr>em_to = pendingEmail, em_template = ''email.emailChangeConfirm'', em_link = link\<rparr>,
      \<lparr>em_to = oldEmail, em_template = ''email.emailChangeAlert'',
       em_link = stripSlashes frontendUrl @ ''/'' @ localeName loc @ ''/settings''\<rparr>)"

text \<open>Another account has the address, in whatever case.\<close>

definition emailTaken :: "string \<Rightarrow> uuid \<Rightarrow> user_account list \<Rightarrow> bool" where
  "emailTaken email userId users \<longleftrightarrow> list_ex (\<lambda>u. toLowerCase (ac_email u) = email \<and> ac_id u \<noteq> userId) users"

text \<open>A request that can no longer be confirmed: past its expiry, or its owner's sessions were ended since.\<close>

definition staleRequest :: "time \<Rightarrow> user_account list \<Rightarrow> email_change_row \<Rightarrow> bool" where
  "staleRequest now users r \<longleftrightarrow> ec_expires_at r \<le> now \<or>
     list_ex (\<lambda>owner. ac_id owner = ec_user r \<and> ac_version owner \<noteq> ec_version r) users"

text \<open>The insert, under the unique constraints on user, token and pending address.\<close>

definition insertRequest :: "email_change_row \<Rightarrow> unit authtx" where
  "insertRequest row =
     tx_bind (tx_gets (\<lambda>s. list_ex (\<lambda>r. ec_user r = ec_user row \<or> ec_token_hash r = ec_token_hash row \<or>
         toLowerCase (ec_pending_email r) = toLowerCase (ec_pending_email row)) (au_email_changes s))) (\<lambda>clash.
     tx_bind (tx_guard (\<not> clash) (PgError ''23505'')) (\<lambda>_.
     tx_modify (au_email_changes_update (\<lambda>rows. rows @ [row]))))"

definition requestTx :: "time \<Rightarrow> uuid \<Rightarrow> uuid \<Rightarrow> int \<Rightarrow> string \<Rightarrow> string \<Rightarrow> time \<Rightarrow> string authtx" where
  "requestTx now i userId version pendingEmail tokenHash expiresAt =
     tx_bind (accountById userId) (\<lambda>row.
     tx_bind (tx_some (case row of None \<Rightarrow> None | Some u \<Rightarrow> if ac_version u = version then Some u else None)
         (unauthorized ''Authentication state changed, log in again'')) (\<lambda>user.
     tx_bind (tx_guard (toLowerCase (ac_email user) \<noteq> pendingEmail)
         (badRequest ''The new email must be different from the current email'')) (\<lambda>_.
     tx_bind (tx_gets (\<lambda>s. emailTaken pendingEmail userId (au_users s))) (\<lambda>taken.
     tx_bind (tx_guard (\<not> taken) (conflict ''Email is already used'')) (\<lambda>_.
     tx_bind (tx_modify (\<lambda>s. au_email_changes_update
         (filter (\<lambda>r. \<not> (ec_pending_email r = pendingEmail \<and> staleRequest now (au_users s) r))) s)) (\<lambda>_.
     tx_bind (tx_modify (au_email_changes_update (filter (\<lambda>r. ec_user r \<noteq> userId)))) (\<lambda>_.
     tx_bind (insertRequest \<lparr>ec_id = i, ec_user = userId, ec_pending_email = pendingEmail, ec_token_hash = tokenHash,
         ec_version = version, ec_expires_at = expiresAt, ec_delivered = False\<rparr>) (\<lambda>_.
     tx_return (ac_email user)))))))))"

text \<open>\<open>isUniqueViolation\<close> turned into a conflict.\<close>

definition uniqueAs :: "string \<Rightarrow> 'a authtx \<Rightarrow> 'a authtx" where
  "uniqueAs message m = tx_catch m (\<lambda>e. tx_throw (if e = PgError ''23505'' then conflict message else e))"

definition dropUndelivered :: "uuid \<Rightarrow> unit authtx" where
  "dropUndelivered i = tx_modify (au_email_changes_update (filter (\<lambda>r. \<not> (ec_id r = i \<and> \<not> ec_delivered r))))"

text \<open>What happens once the mails are out: both sent, or neither outside production.\<close>

definition settleDelivery :: "bool \<Rightarrow> bool option \<Rightarrow> bool option \<Rightarrow> uuid \<Rightarrow> string \<Rightarrow> bool authtx" where
  "settleDelivery production confirmation alert i tokenHash =
     (case (confirmation, alert) of
        (Some c, Some a) \<Rightarrow>
          (let simulated = (\<not> production \<and> \<not> c \<and> \<not> a) in
           if (\<not> c \<or> \<not> a) \<and> \<not> simulated then
             tx_bind (dropUndelivered i) (\<lambda>_. tx_throw (serviceUnavailable ''Email change could not be delivered, try again shortly''))
           else
             tx_bind (tx_gets (\<lambda>s. list_ex (\<lambda>r. ec_id r = i \<and> ec_token_hash r = tokenHash \<and> \<not> ec_delivered r) (au_email_changes s))) (\<lambda>marked.
             tx_bind (tx_modify (au_email_changes_update (map (\<lambda>r.
                 if ec_id r = i \<and> ec_token_hash r = tokenHash \<and> \<not> ec_delivered r then r\<lparr>ec_delivered := True\<rparr> else r)))) (\<lambda>_.
             tx_bind (tx_guard marked (serviceUnavailable ''Email change request was superseded, try again'')) (\<lambda>_.
             tx_return simulated))))
      | _ \<Rightarrow> tx_bind (dropUndelivered i) (\<lambda>_. tx_throw (serviceUnavailable ''Email change could not be delivered, try again shortly'')))"

record email_change_result =
  er_pending_email :: string
  er_expires_at :: time
  er_debug_url :: "string option"

definition requestEmailChange ::
  "'t auth_env \<Rightarrow> string \<Rightarrow> bool \<Rightarrow> time \<Rightarrow> delivery \<Rightarrow> uuid \<Rightarrow> string \<Rightarrow> (outgoing_email \<Rightarrow> bool option) \<Rightarrow>
   email_change_input \<Rightarrow> email_change_result authtx" where
  "requestEmailChange env frontendUrl production now d i token send input =
     tx_bind (consumeStepUpToken env now d \<lparr>su_user = ei_user input, su_session = ei_session input,
         su_version = ei_version input, su_purpose = ''change_email''\<rparr> (ei_step_up input)) (\<lambda>_.
     let pendingEmail = normalizeEmail (ei_pending_email input);
         tokenHash = sha256 env token;
         expiresAt = now + EMAIL_CHANGE_TTL_SECONDS * 1000;
         link = confirmationUrl frontendUrl (ei_locale input) token in
     tx_bind (uniqueAs ''Email already has a pending change''
         (authTx (requestTx now i (ei_user input) (ei_version input) pendingEmail tokenHash expiresAt))) (\<lambda>oldEmail.
     let messages = deliveryMessages frontendUrl (ei_locale input) link pendingEmail oldEmail in
     tx_bind (settleDelivery production (send (fst messages)) (send (snd messages)) i tokenHash) (\<lambda>simulated.
     tx_return \<lparr>er_pending_email = pendingEmail, er_expires_at = expiresAt,
       er_debug_url = (if simulated then Some link else None)\<rparr>)))"

section \<open>Confirming\<close>

definition changeTokenInvalid :: err where
  "changeTokenInvalid = badRequest ''Email change token is invalid or expired''"

definition confirmable :: "time \<Rightarrow> user_account \<Rightarrow> email_change_row \<Rightarrow> bool" where
  "confirmable now user r \<longleftrightarrow> ec_delivered r \<and> now < ec_expires_at r \<and> ec_version r = ac_version user"

definition confirmChangeTx :: "time \<Rightarrow> string \<Rightarrow> (uuid \<times> string) authtx" where
  "confirmChangeTx now tokenHash =
     tx_bind (tx_gets (\<lambda>s. find (\<lambda>r. ec_token_hash r = tokenHash) (au_email_changes s))) (\<lambda>identity.
     tx_bind (tx_some identity changeTokenInvalid) (\<lambda>found.
     tx_bind (accountById (ec_user found)) (\<lambda>row.
     tx_bind (tx_some row changeTokenInvalid) (\<lambda>user.
     tx_bind (tx_gets (\<lambda>s. find (\<lambda>r. ec_token_hash r = tokenHash \<and> ec_user r = ec_user found) (au_email_changes s))) (\<lambda>request.
     tx_bind (tx_some (case request of None \<Rightarrow> None | Some r \<Rightarrow> if confirmable now user r then Some r else None) changeTokenInvalid) (\<lambda>request.
     tx_bind (tx_gets (\<lambda>s. emailTaken (ec_pending_email request) (ec_user request) (au_users s))) (\<lambda>taken.
     tx_bind (tx_guard (\<not> taken) (conflict ''Email is already used'')) (\<lambda>_.
     tx_bind (updateUser (ec_user request) (\<lambda>u. u\<lparr>ac_email := ec_pending_email request, ac_version := ac_version u + 1,
         ac_email_verified_at := Some now, ac_email_generation := ac_email_generation u + 1\<rparr>)) (\<lambda>_.
     tx_bind (tx_gets (\<lambda>s. length (filter (\<lambda>r. ec_user r = ec_user request \<and> ec_token_hash r = tokenHash) (au_email_changes s)))) (\<lambda>consumed.
     tx_bind (tx_modify (au_email_changes_update (filter (\<lambda>r. \<not> (ec_user r = ec_user request \<and> ec_token_hash r = tokenHash))))) (\<lambda>_.
     tx_bind (tx_guard (consumed = 1) changeTokenInvalid) (\<lambda>_.
     tx_return (ec_user request, ec_pending_email request)))))))))))))"

definition confirmEmailChange :: "'t auth_env \<Rightarrow> time \<Rightarrow> delivery \<Rightarrow> string \<Rightarrow> (uuid \<times> string) authtx" where
  "confirmEmailChange env now d token =
     tx_bind (uniqueAs ''Email is already used'' (authTx (confirmChangeTx now (sha256 env token)))) (\<lambda>activated.
     tx_bind (revokeAllUserSessions env now d (fst activated) None False True) (\<lambda>_.
     tx_return activated))"

end
