(* ===== verification/AuthGuard.thy ===== *)
theory AuthGuard
  imports Sessions
begin

text \<open>
  Who gets through: \<open>authenticate\<close> and \<open>authenticateOptional\<close> of \<open>common/middleware/auth.ts\<close>, and the
  session routes of \<open>modules/auth/auth.routes.ts\<close> (\<open>/refresh\<close>, \<open>/logout\<close>, \<open>/logout-all\<close>). A cookie
  that is absent or empty is \<open>None\<close>.
\<close>

section \<open>The authentication middleware\<close>

definition isActiveFamilyRecord :: "stored option \<Rightarrow> string option \<Rightarrow> bool" where
  "isActiveFamilyRecord raw userId = (case (raw, userId) of
       (Some t, Some u) \<Rightarrow> familyActive u t
     | _ \<Rightarrow> False)"

definition verificationUnavailable :: err where
  "verificationUnavailable = serviceUnavailable ''Session verification is temporarily unavailable''"

definition isSessionRevoked ::
  "time \<Rightarrow> delivery \<Rightarrow> string \<Rightarrow> string option \<Rightarrow> string option \<Rightarrow> bool authtx" where
  "isSessionRevoked now d jti familyId userId =
     tx_bind (requireRedis verificationUnavailable) (\<lambda>_.
     tx_bind (tx_catch
         (redis_eval d (\<lambda>r. ((GET now (Session jti) r \<noteq> None, GET now (SessionRevoked jti) r \<noteq> None,
            case familyId of None \<Rightarrow> None | Some f \<Rightarrow> GET now (RefreshFamily f) r), r)))
         (\<lambda>_. tx_throw verificationUnavailable)) (\<lambda>(sessionExists, exactTombstoneExists, family).
     tx_return (\<not> sessionExists \<or> exactTombstoneExists
       \<or> (familyId \<noteq> None \<and> \<not> isActiveFamilyRecord family userId))))"

text \<open>A claim inside a template string; tokens are signed with string ids.\<close>

definition claim_text :: "json option \<Rightarrow> string" where
  "claim_text c = (case c of None \<Rightarrow> ''undefined'' | Some (JStr s) \<Rightarrow> s | Some j \<Rightarrow> stringify j)"

definition claim_string :: "json option \<Rightarrow> string option" where
  "claim_string c = (case c of Some (JStr s) \<Rightarrow> Some s | _ \<Rightarrow> None)"

text \<open>\<open>(payload.sv ?? 1) === row.sessionVersion\<close>.\<close>

definition versionMatches :: "json \<Rightarrow> user_account \<Rightarrow> bool" where
  "versionMatches payload row = (case json_member ''sv'' payload of
       None \<Rightarrow> ac_version row = 1
     | Some JNull \<Rightarrow> ac_version row = 1
     | Some (JNum v) \<Rightarrow> v = ac_version row
     | _ \<Rightarrow> False)"

record auth_context =
  cx_user :: user_account
  cx_session :: string
  cx_family :: "string option"
  cx_version :: int

definition apiUnauthorized :: "string \<Rightarrow> err" where
  "apiUnauthorized message = ApiError 401 message ''unauthorized''"

definition authContext :: "json \<Rightarrow> user_account \<Rightarrow> auth_context" where
  "authContext payload row = \<lparr>cx_user = row, cx_session = claim_text (json_member ''jti'' payload),
     cx_family = nonempty (json_member ''fid'' payload), cx_version = ac_version row\<rparr>"

text \<open>\<open>select ... from users where id = $1\<close> finds nobody for an id that is no string.\<close>

definition accountOfClaim :: "json option \<Rightarrow> user_account option authtx" where
  "accountOfClaim sub = (case claim_string sub of None \<Rightarrow> tx_return None | Some u \<Rightarrow> accountById u)"

definition authenticate :: "'t auth_env \<Rightarrow> time \<Rightarrow> delivery \<Rightarrow> 't option \<Rightarrow> auth_context authtx" where
  "authenticate env now d token =
     tx_bind (tx_some token (apiUnauthorized ''Missing access token'')) (\<lambda>t.
     tx_bind (tx_some (jwt_verify env False now t) (apiUnauthorized ''Invalid access token'')) (\<lambda>payload.
     tx_bind (isSessionRevoked now d (claim_text (json_member ''jti'' payload)) (nonempty (json_member ''fid'' payload))
         (claim_string (json_member ''sub'' payload))) (\<lambda>revoked.
     tx_bind (tx_guard (\<not> revoked) (apiUnauthorized ''Session expired'')) (\<lambda>_.
     tx_bind (accountOfClaim (json_member ''sub'' payload)) (\<lambda>found.
     tx_bind (tx_some found (apiUnauthorized ''Invalid access token'')) (\<lambda>row.
     tx_bind (tx_guard (\<not> ac_banned row) (ApiError 403 ''Account is banned'' ''account_banned'')) (\<lambda>_.
     tx_bind (tx_guard (versionMatches payload row) (apiUnauthorized ''Session expired'')) (\<lambda>_.
     tx_return (authContext payload row)))))))))"

text \<open>The optional variant never throws: whatever fails, the request goes on without a user.\<close>

definition authenticateOptional :: "'t auth_env \<Rightarrow> time \<Rightarrow> delivery \<Rightarrow> 't option \<Rightarrow> auth_context option authtx" where
  "authenticateOptional env now d token = (case token of
       None \<Rightarrow> tx_return None
     | Some t \<Rightarrow> tx_catch
         (tx_bind (tx_some (jwt_verify env False now t) (JsError ''jwt'')) (\<lambda>payload.
          tx_bind (isSessionRevoked now d (claim_text (json_member ''jti'' payload)) (nonempty (json_member ''fid'' payload))
              (claim_string (json_member ''sub'' payload))) (\<lambda>revoked.
          if revoked then tx_return None
          else
            tx_bind (accountOfClaim (json_member ''sub'' payload)) (\<lambda>found.
            tx_return (case found of
                None \<Rightarrow> None
              | Some row \<Rightarrow>
                  if \<not> ac_banned row \<and> versionMatches payload row then Some (authContext payload row) else None)))))
         (\<lambda>_. tx_return None))"

section \<open>Routes\<close>

definition refreshTokenInvalid :: err where
  "refreshTokenInvalid = ApiError 401 ''Refresh token is invalid or expired'' ''refresh_token_invalid''"

text \<open>\<open>clearAuthCookies(res); throw e\<close>.\<close>

definition clearAndThrow :: "err \<Rightarrow> 'a authtx" where
  "clearAndThrow e = tx_bind clearAuthCookies (\<lambda>_. tx_throw e)"

definition guardOrClear :: "bool \<Rightarrow> err \<Rightarrow> unit authtx" where
  "guardOrClear b e = (if b then tx_return () else clearAndThrow e)"

definition someOrClear :: "'a option \<Rightarrow> err \<Rightarrow> 'a authtx" where
  "someOrClear v e = (case v of None \<Rightarrow> clearAndThrow e | Some x \<Rightarrow> tx_return x)"

definition refreshRoute ::
  "'t auth_env \<Rightarrow> time \<Rightarrow> delivery \<Rightarrow> delivery \<times> delivery \<Rightarrow> fresh_ids \<Rightarrow> string option \<Rightarrow> 't option \<Rightarrow>
   (user_account \<times> 't SessionCredentials) authtx" where
  "refreshRoute env now d ds ids refreshToken accessToken =
     tx_bind (tx_some refreshToken (apiUnauthorized ''Missing refresh token'')) (\<lambda>t.
     tx_bind (requireRedis sessionsUnavailable) (\<lambda>_.
     let tokenHash = sha256 env t in
     tx_bind (tx_catch (redis_eval d (\<lambda>r. (GET now (Refresh tokenHash) r, r)))
         (\<lambda>_. tx_throw sessionsUnavailable)) (\<lambda>rawRecord.
     tx_bind (someOrClear (case rawRecord of None \<Rightarrow> None | Some raw \<Rightarrow>
           (case parseRefreshRecord raw of None \<Rightarrow> None | Some record \<Rightarrow> Some (raw, record))) refreshTokenInvalid)
       (\<lambda>(raw, record).
     tx_bind (accountById (rr_user record)) (\<lambda>found.
     tx_bind (someOrClear found (apiUnauthorized ''Account is unavailable'')) (\<lambda>user.
     tx_bind (guardOrClear (\<not> ac_banned user) (forbidden ''Account is banned'')) (\<lambda>_.
     tx_bind (guardOrClear (rr_version record = ac_version user) refreshTokenInvalid) (\<lambda>_.
     tx_bind (rotateRefreshSession env now ds ids
         \<lparr>ri_user = ac_id user, ri_role = ac_role user, ri_version = ac_version user,
          ri_family = (case rr_family record of Some f \<Rightarrow> f | None \<Rightarrow> tokenHash),
          ri_old_hash = tokenHash, ri_expected = raw\<rparr> accessToken) (\<lambda>rotated.
     tx_bind (someOrClear rotated refreshTokenInvalid) (\<lambda>session.
     tx_return (user, session)))))))))))"

definition logoutRoute :: "'t auth_env \<Rightarrow> time \<Rightarrow> delivery \<Rightarrow> 't option \<Rightarrow> string option \<Rightarrow> unit authtx" where
  "logoutRoute env now d accessToken refreshToken =
     tx_bind (revokePresentedSessionCredentials env now d accessToken refreshToken) (\<lambda>_. clearAuthCookies)"

definition logoutAllRoute :: "'t auth_env \<Rightarrow> time \<Rightarrow> delivery \<Rightarrow> uuid \<Rightarrow> unit authtx" where
  "logoutAllRoute env now d userId =
     tx_bind (bumpSessionVersion userId) (\<lambda>_.
     tx_bind (revokeAllUserSessions env now d userId None False True) (\<lambda>_.
     clearAuthCookies))"

section \<open>What they check\<close>

lemma isSessionRevoked_iff [tx_simps]:
  "isSessionRevoked now d jti fid u s = (Inr b, s') \<longleftrightarrow>
     d = Replied \<and> au_redis_up s \<and> s' = s \<and>
     b = (GET now (Session jti) (au_redis s) = None \<or> GET now (SessionRevoked jti) (au_redis s) \<noteq> None \<or>
       (\<exists>f. fid = Some f \<and> \<not> isActiveFamilyRecord (GET now (RefreshFamily f) (au_redis s)) u))"
  by (cases fid) (auto simp: isSessionRevoked_def tx_simps)

definition claimed :: "json option \<Rightarrow> user_account list \<Rightarrow> user_account option" where
  "claimed c us = (case claim_string c of None \<Rightarrow> None | Some u \<Rightarrow> t_find ac_id u us)"

lemma accountOfClaim_iff [tx_simps]: "accountOfClaim c s = (Inr x, s') \<longleftrightarrow> s' = s \<and> x = claimed c (au_users s)"
  by (auto simp: accountOfClaim_def claimed_def tx_simps split: option.splits)

lemma claim_string_Some: "claim_string c = Some u \<longleftrightarrow> c = Some (JStr u)"
  by (auto simp: claim_string_def split: option.splits json.splits)

lemma claimed_Some: "claimed c us = Some row \<longleftrightarrow> (\<exists>u. c = Some (JStr u) \<and> t_find ac_id u us = Some row)"
  by (auto simp: claimed_def claim_string_Some claim_string_def split: option.splits json.splits)

lemma claim_string_JStr: "claim_string (Some (JStr u)) = Some u"
  by (simp add: claim_string_def)

text \<open>Exactly which requests get through.\<close>

lemma authenticate_iff:
  "authenticate env now d token s = (Inr cx, s') \<longleftrightarrow>
     (\<exists>t payload u row. token = Some t \<and> jwt_verify env False now t = Some payload \<and> d = Replied \<and> au_redis_up s \<and>
        GET now (Session (claim_text (json_member ''jti'' payload))) (au_redis s) \<noteq> None \<and>
        GET now (SessionRevoked (claim_text (json_member ''jti'' payload))) (au_redis s) = None \<and>
        (\<forall>f. nonempty (json_member ''fid'' payload) = Some f \<longrightarrow>
           isActiveFamilyRecord (GET now (RefreshFamily f) (au_redis s)) (Some u)) \<and>
        json_member ''sub'' payload = Some (JStr u) \<and> t_find ac_id u (au_users s) = Some row \<and>
        \<not> ac_banned row \<and> versionMatches payload row \<and> cx = authContext payload row \<and> s' = s)"
  unfolding authenticate_def
  by (auto simp: tx_simps eq_commute [of "Some _" "claimed _ _"] claimed_Some claim_string_JStr)

lemma someOrClear_iff [tx_simps]: "someOrClear v e s = (Inr x, s') \<longleftrightarrow> v = Some x \<and> s' = s"
  by (auto simp: someOrClear_def clearAndThrow_def tx_simps split: option.splits)

lemma guardOrClear_iff [tx_simps]: "guardOrClear b e s = (Inr x, s') \<longleftrightarrow> b \<and> s' = s"
  by (auto simp: guardOrClear_def clearAndThrow_def tx_simps)

text \<open>No authentication changes anything.\<close>

interpretation readonly: frame "(=)"
  by unfold_locales auto

lemma readonly_isSessionRevoked: "readonly.keeps (isSessionRevoked now d jti fid u)"
proof -
  have "readonly.keeps (redis_eval d (\<lambda>r. (f r, r)))" for f :: "redis \<Rightarrow> bool \<times> bool \<times> stored option"
    by (cases d) (auto simp: readonly.keeps_def redis_eval_def)
  then show ?thesis
    unfolding isSessionRevoked_def requireRedis_def
    by (intro readonly.keeps_intros) (auto intro: readonly.keeps_intros split: prod.split)
qed

lemma readonly_accountOfClaim: "readonly.keeps (accountOfClaim c)"
  unfolding accountOfClaim_def accountById_def by (auto intro: readonly.keeps_intros split: option.split)

lemma authenticate_state: "authenticate env now d token s = (r, s') \<Longrightarrow> s' = s"
proof -
  have "readonly.keeps (authenticate env now d token)"
    unfolding authenticate_def
    by (intro readonly.keeps_intros readonly_isSessionRevoked readonly_accountOfClaim)
  then show "authenticate env now d token s = (r, s') \<Longrightarrow> s' = s" by (auto dest: readonly.keepsD)
qed

end
