(* ===== verification/AccountRoutes.thy ===== *)
theory AccountRoutes
  imports EmailChange AuthGuard
begin

text \<open>
  The account routes of \<open>modules/auth/auth.routes.ts\<close> and \<open>telegram.service.ts\<close>: registering, logging in
  with a password, a second factor or Telegram, verifying an address and resetting a password. Request
  bodies are as their schemas leave them, so passwords of \<open>newPasswordSchema\<close> arrive normalised. Setting
  the cookies is returning the session.
\<close>

section \<open>Registration and login\<close>

definition accountByEmail :: "string \<Rightarrow> user_account option authtx" where
  "accountByEmail email = tx_gets (\<lambda>s. find (\<lambda>u. ac_email u = email) (au_users s))"

text \<open>The insert, under the primary key and the unique constraint on addresses.\<close>

definition insertAccount :: "user_account \<Rightarrow> unit authtx" where
  "insertAccount row =
     tx_bind (tx_gets (\<lambda>s. list_ex (\<lambda>u. ac_id u = ac_id row \<or> ac_email u = ac_email row) (au_users s))) (\<lambda>clash.
     tx_bind (tx_guard (\<not> clash) (PgError ''23505'')) (\<lambda>_.
     tx_modify (au_users_update (\<lambda>rows. rows @ [row]))))"

text \<open>\<open>insert into wallets(user_id, currency) values ($1, 'UAH') on conflict do nothing\<close>.\<close>

definition insertWallet :: "uuid \<Rightarrow> unit authtx" where
  "insertWallet userId = tx_modify (au_wallets_update (\<lambda>ws. if (userId, ''UAH'') \<in> set ws then ws else ws @ [(userId, ''UAH'')]))"

definition newAccount :: "uuid \<Rightarrow> string \<Rightarrow> string option \<Rightarrow> string \<Rightarrow> string option \<Rightarrow> user_account" where
  "newAccount i email passwordHash displayName telegram =
     \<lparr>ac_id = i, ac_email = email, ac_password_hash = passwordHash, ac_display_name = displayName, ac_role = RUser,
      ac_banned = False, ac_version = 1, ac_email_verified_at = None, ac_telegram = telegram, ac_phone = None, ac_phone_verified_at = None,
      ac_two_factor = False, ac_email_generation = 1, ac_password_generation = 1\<rparr>"

text \<open>The mail failing to be prepared never fails the registration.\<close>

definition registerRoute ::
  "'t auth_env \<Rightarrow> tf_lib \<Rightarrow> string \<Rightarrow> Locale \<Rightarrow> time \<Rightarrow> delivery \<Rightarrow> fresh_ids \<Rightarrow> (string \<times> delivery) \<Rightarrow> (string \<times> delivery) \<Rightarrow>
   uuid \<Rightarrow> string \<Rightarrow> string \<Rightarrow> string \<Rightarrow> string \<Rightarrow> (user_account \<times> 't SessionCredentials \<times> outgoing_email option) authtx" where
  "registerRoute env lib frontendUrl loc now d ids t1 t2 i salt email password displayName =
     (let user = newAccount i (toLowerCase email) (Some (hashPassword lib salt password)) displayName None in
     tx_bind (authTx (tx_bind (insertAccount user) (\<lambda>_. insertWallet i))) (\<lambda>_.
     tx_bind (issueSession env now d ids i RUser None) (\<lambda>session.
     tx_bind (tx_catch
         (tx_bind (createAndSendVerificationEmail env frontendUrl loc now t1 t2 i (ac_email user)) (\<lambda>p. tx_return (Some (snd p))))
         (\<lambda>_. tx_return None)) (\<lambda>mail.
     tx_return (user, session, mail)))))"

datatype 't login_reply =
    TwoFactorRequired 't
  | LoggedIn user_account "'t SessionCredentials"

definition loginRoute ::
  "'t auth_env \<Rightarrow> tf_lib \<Rightarrow> time \<Rightarrow> delivery \<Rightarrow> fresh_ids \<Rightarrow> string \<Rightarrow> string \<Rightarrow> string \<Rightarrow> 't login_reply authtx" where
  "loginRoute env lib now d ids pendingJti email password =
     tx_bind (accountByEmail (toLowerCase email)) (\<lambda>row.
     let hash = (case row of None \<Rightarrow> None | Some u \<Rightarrow> ac_password_hash u);
         passwordMatches = verifyPassword lib password hash in
     tx_bind (tx_some (if hash = None \<or> hash = Some [] \<or> \<not> passwordMatches then None else row) (badRequest ''Invalid email or password'')) (\<lambda>user.
     tx_bind (tx_guard (\<not> ac_banned user) (forbidden ''Account is banned'')) (\<lambda>_.
     if ac_two_factor user then
       tx_bind (issueTwoFactorPendingToken env now d pendingJti (ac_id user) (ac_version user)) (\<lambda>token.
       tx_return (TwoFactorRequired token))
     else
       tx_bind (issueSession env now d ids (ac_id user) (ac_role user) None) (\<lambda>session.
       tx_return (LoggedIn user session)))))"

definition twoFactorExpired :: err where
  "twoFactorExpired = badRequest ''Two-factor session has expired, log in again''"

definition twoFactorVerifyRoute ::
  "'t auth_env \<Rightarrow> tf_lib \<Rightarrow> tf_fresh \<Rightarrow> time \<Rightarrow> delivery \<Rightarrow> delivery \<Rightarrow> fresh_ids \<Rightarrow> 't \<Rightarrow> string \<Rightarrow>
   (user_account \<times> 't SessionCredentials) authtx" where
  "twoFactorVerifyRoute env lib fresh now d d' ids twoFactorToken code =
     tx_bind (tx_some (case verifyTwoFactorPendingToken env now twoFactorToken of Inl _ \<Rightarrow> None | Inr p \<Rightarrow> Some p) twoFactorExpired) (\<lambda>pending.
     tx_bind (accountById (pi_user pending)) (\<lambda>row.
     tx_bind (tx_some row (badRequest ''Account not found'')) (\<lambda>user.
     tx_bind (tx_guard (\<not> ac_banned user) (forbidden ''Account is banned'')) (\<lambda>_.
     tx_bind (tx_guard (ac_version user = pi_version pending) twoFactorExpired) (\<lambda>_.
     tx_bind (verifyTwoFactorCode lib fresh now (pi_user pending) code) (\<lambda>valid.
     tx_bind (tx_guard valid (badRequest ''Invalid two-factor code'')) (\<lambda>_.
     tx_bind (consumeTwoFactorPendingToken now d (pi_jti pending)) (\<lambda>consumed.
     tx_bind (tx_guard consumed twoFactorExpired) (\<lambda>_.
     tx_bind (issueSession env now d' ids (ac_id user) (ac_role user) (Some (pi_version pending))) (\<lambda>session.
     tx_return (user, session)))))))))))"

section \<open>Telegram\<close>

text \<open>The fields of the login widget; \<open>tg_auth_number\<close> is \<open>Number(auth_date)\<close>, \<open>None\<close> when not finite.\<close>

record TelegramAuthPayload =
  tg_id :: string
  tg_first_name :: "string option"
  tg_last_name :: "string option"
  tg_username :: "string option"
  tg_photo_url :: "string option"
  tg_auth_date :: string
  tg_auth_number :: "int option"
  tg_hash :: string

definition MAX_AUTH_AGE_SECONDS :: int where "MAX_AUTH_AGE_SECONDS = 24 * 60 * 60"

fun join_lines :: "string list \<Rightarrow> string" where
  "join_lines [] = []"
| "join_lines [x] = x"
| "join_lines (x # y # xs) = x @ char_of (10 :: nat) # join_lines (y # xs)"

text \<open>The entries but the hash, sorted by key; absent and empty ones are left out.\<close>

definition buildDataCheckString :: "TelegramAuthPayload \<Rightarrow> string" where
  "buildDataCheckString p =
     join_lines (map (\<lambda>(k, v). k @ ''='' @ the v) (filter (\<lambda>(k, v). v \<noteq> None \<and> v \<noteq> Some [])
       [(''auth_date'', Some (tg_auth_date p)), (''first_name'', tg_first_name p), (''id'', Some (tg_id p)),
        (''last_name'', tg_last_name p), (''photo_url'', tg_photo_url p), (''username'', tg_username p)]))"

text \<open>\<open>telegramMac token text\<close>: hex HMAC-SHA256 of the text under the SHA-256 digest of the bot token.\<close>

definition verifyTelegramAuth :: "(string \<Rightarrow> string \<Rightarrow> string) \<Rightarrow> string option \<Rightarrow> time \<Rightarrow> TelegramAuthPayload \<Rightarrow> unit result" where
  "verifyTelegramAuth telegramMac botToken now p =
     (case botToken of
        None \<Rightarrow> Inl (badRequest ''Telegram login is not configured on this server'')
      | Some token \<Rightarrow>
          if telegramMac token (buildDataCheckString p) \<noteq> tg_hash p then Inl (badRequest ''Invalid Telegram login signature'')
          else case tg_auth_number p of
              None \<Rightarrow> Inl (badRequest ''Telegram login data has expired'')
            | Some authDate \<Rightarrow>
                if MAX_AUTH_AGE_SECONDS * 1000 < now - authDate * 1000 \<or> now - authDate * 1000 < - 60000
                then Inl (badRequest ''Telegram login data has expired'') else Inr ())"

text \<open>\<open>insert ... on conflict (telegram_id) do update set display_name\<close>.\<close>

definition upsertTelegram :: "uuid \<Rightarrow> string \<Rightarrow> string \<Rightarrow> user_account authtx" where
  "upsertTelegram i telegramId displayName =
     tx_bind (tx_gets (\<lambda>s. find (\<lambda>u. ac_telegram u = Some telegramId) (au_users s))) (\<lambda>row.
     case row of
       Some u \<Rightarrow>
         tx_bind (updateUser (ac_id u) (ac_display_name_update (\<lambda>_. displayName))) (\<lambda>_.
         tx_return (u\<lparr>ac_display_name := displayName\<rparr>))
     | None \<Rightarrow>
         (let u = newAccount i (''tg_'' @ telegramId @ ''@telegram.local'') None displayName (Some telegramId) in
          tx_bind (insertAccount u) (\<lambda>_. tx_return u)))"

definition telegramRoute ::
  "'t auth_env \<Rightarrow> (string \<Rightarrow> string \<Rightarrow> string) \<Rightarrow> string option \<Rightarrow> time \<Rightarrow> delivery \<Rightarrow> fresh_ids \<Rightarrow> uuid \<Rightarrow> TelegramAuthPayload \<Rightarrow>
   (user_account \<times> 't SessionCredentials) authtx" where
  "telegramRoute env telegramMac botToken now d ids i p =
     tx_bind (tx_lift (verifyTelegramAuth telegramMac botToken now p)) (\<lambda>_.
     let displayName = (case tg_username p of Some n \<Rightarrow> n | None \<Rightarrow> (case tg_first_name p of Some n \<Rightarrow> n | None \<Rightarrow> tg_id p)) in
     tx_bind (authTx
       (tx_bind (upsertTelegram i (tg_id p) displayName) (\<lambda>user.
        tx_bind (insertWallet (ac_id user)) (\<lambda>_. tx_return user)))) (\<lambda>user.
     tx_bind (issueSession env now d ids (ac_id user) (ac_role user) None) (\<lambda>session.
     tx_return (user, session))))"

section \<open>Addresses and passwords\<close>

datatype verify_reply = AlreadyVerified | VerificationSent "string option"

text \<open>\<open>send\<close> is \<open>sendEmail\<close>, \<open>None\<close> when it threw; outside production the mail is not waited for.\<close>

definition verifyEmailRequest ::
  "'t auth_env \<Rightarrow> string \<Rightarrow> bool \<Rightarrow> Locale \<Rightarrow> time \<Rightarrow> delivery \<Rightarrow> (string \<times> delivery) \<Rightarrow> (string \<times> delivery) \<Rightarrow>
   (outgoing_email \<Rightarrow> bool option) \<Rightarrow> uuid \<Rightarrow> verify_reply authtx" where
  "verifyEmailRequest env frontendUrl production loc now d t1 t2 send userId =
     tx_bind (accountById userId) (\<lambda>row.
     tx_bind (tx_some row (badRequest ''Account not found'')) (\<lambda>user.
     if emailVerified user then tx_return AlreadyVerified
     else
       tx_bind (checkResendRateLimit now d userId) (\<lambda>_.
       tx_bind (createAndSendVerificationEmail env frontendUrl loc now t1 t2 userId (ac_email user)) (\<lambda>(link, mail).
       if production then
         tx_bind (tx_guard (send mail = Some True)
           (badRequest ''Could not send the verification email right now, try again later'')) (\<lambda>_.
         tx_return (VerificationSent None))
       else tx_return (VerificationSent (Some link))))))"

definition verifyEmailConfirm :: "'t auth_env \<Rightarrow> time \<Rightarrow> delivery \<Rightarrow> string \<Rightarrow> unit authtx" where
  "verifyEmailConfirm env now d token =
     tx_bind (consumeEmailVerificationToken env now d token) (\<lambda>v.
     tx_bind (accountById (ev_user v)) (\<lambda>row.
     tx_bind (tx_guard (case row of None \<Rightarrow> False | Some u \<Rightarrow>
         toLowerCase (ac_email u) = ev_email v \<and> ac_email_generation u = ev_generation v) invalidEmailVerificationToken) (\<lambda>_.
     updateUser (ev_user v) (\<lambda>u. u\<lparr>ac_email_verified_at :=
       (case ac_email_verified_at u of Some t \<Rightarrow> Some t | None \<Rightarrow> Some now)\<rparr>))))"

text \<open>The answer is the same whether or not the account exists and whatever becomes of the token.\<close>

definition passwordForgot ::
  "'t auth_env \<Rightarrow> string \<Rightarrow> Locale \<Rightarrow> time \<Rightarrow> (string \<times> delivery \<times> delivery) \<Rightarrow> (string \<times> delivery \<times> delivery) \<Rightarrow> string \<Rightarrow>
   outgoing_email option authtx" where
  "passwordForgot env frontendUrl loc now t1 t2 email =
     tx_bind (accountByEmail (toLowerCase email)) (\<lambda>row.
     case row of
       None \<Rightarrow> tx_return None
     | Some user \<Rightarrow> tx_catch
         (tx_bind (issuePasswordResetToken env now t1 t2 (ac_id user) (Some (ac_email user))) (\<lambda>(token, expectedEmail).
          tx_return (Some (sendPasswordResetEmail expectedEmail
            (frontendUrl @ ''/'' @ localeName loc @ ''/reset-password?token='' @ token)))))
         (\<lambda>_. tx_return None))"

definition resetMatches :: "PasswordResetTokenRecord \<Rightarrow> user_account \<Rightarrow> bool" where
  "resetMatches reset u \<longleftrightarrow> ac_password_generation u = rt_password_generation reset \<and>
     ac_email_generation u = rt_email_generation reset \<and> toLowerCase (ac_email u) = rt_email reset"

text \<open>The guarded update: new hash, and both generations raised, in one statement.\<close>

definition applyReset :: "PasswordResetTokenRecord \<Rightarrow> string \<Rightarrow> unit authtx" where
  "applyReset reset passwordHash =
     tx_bind (accountById (rt_user reset)) (\<lambda>row.
     tx_bind (tx_guard (case row of None \<Rightarrow> False | Some u \<Rightarrow> resetMatches reset u) invalidPasswordResetToken) (\<lambda>_.
     updateUser (rt_user reset) (\<lambda>u. u\<lparr>ac_password_hash := Some passwordHash, ac_version := ac_version u + 1,
       ac_password_generation := ac_password_generation u + 1\<rparr>)))"

definition passwordReset :: "'t auth_env \<Rightarrow> tf_lib \<Rightarrow> time \<Rightarrow> delivery \<Rightarrow> delivery \<Rightarrow> string \<Rightarrow> string \<Rightarrow> string \<Rightarrow> unit authtx" where
  "passwordReset env lib now d d' salt token password =
     tx_bind (consumePasswordResetToken env now d token) (\<lambda>reset.
     tx_bind (applyReset reset (hashPassword lib salt password)) (\<lambda>_.
     revokeAllUserSessions env now d' (rt_user reset) None False True))"

end
