(* ===== verification/UserRoutes.thy ===== *)
theory UserRoutes
  imports AccountRoutes
begin

text \<open>
  The security routes of \<open>modules/users/users.routes.ts\<close>, with \<open>phone-verification.service.ts\<close> and
  \<open>telegram-link.service.ts\<close>, and the account route of \<open>modules/admin/admin-users.routes.ts\<close>. A route
  that reads an account and writes it in two statements outside a transaction is two definitions, so
  that other requests can come between. Sending and checking SMS codes are arguments.
\<close>

section \<open>Sessions after a security change\<close>

text \<open>The session id and version that \<open>authenticate\<close> left on the request.\<close>

definition securitySession :: "string option \<Rightarrow> int option \<Rightarrow> (string \<times> int) result" where
  "securitySession sessionId sessionVersion = (case (sessionId, sessionVersion) of
       (Some j, Some v) \<Rightarrow> if j = [] then Inl (unauthorized ''Authenticated session is unavailable'') else Inr (j, v)
     | _ \<Rightarrow> Inl (unauthorized ''Authenticated session is unavailable''))"

definition rotateSecuritySession ::
  "'t auth_env \<Rightarrow> time \<Rightarrow> delivery \<Rightarrow> delivery \<Rightarrow> fresh_ids \<Rightarrow> uuid \<Rightarrow> Role \<Rightarrow> 't SessionCredentials authtx" where
  "rotateSecuritySession env now d d' ids userId role =
     tx_bind (revokeAllUserSessions env now d userId None False True) (\<lambda>_.
     issueSession env now d' ids userId role None)"

section \<open>Passwords and second factors\<close>

text \<open>The generation and the hash the current password was checked against.\<close>

definition passwordCheck :: "tf_lib \<Rightarrow> uuid \<Rightarrow> string \<Rightarrow> (int \<times> string) authtx" where
  "passwordCheck lib userId currentPassword =
     tx_bind (accountById userId) (\<lambda>row.
     tx_bind (tx_some (case row of None \<Rightarrow> None | Some u \<Rightarrow> (case ac_password_hash u of
           None \<Rightarrow> None | Some h \<Rightarrow> if h = [] then None else Some (ac_password_generation u, h)))
         (badRequest ''Password login is not enabled for this account'')) (\<lambda>(generation, hash).
     tx_bind (tx_guard (verifyPassword lib currentPassword (Some hash)) (badRequest ''Current password is incorrect'')) (\<lambda>_.
     tx_return (generation, hash))))"

text \<open>The guarded update, in one statement.\<close>

definition passwordWrite :: "uuid \<Rightarrow> int \<Rightarrow> string \<Rightarrow> string \<Rightarrow> unit authtx" where
  "passwordWrite userId generation hash nextHash =
     tx_bind (accountById userId) (\<lambda>row.
     tx_bind (tx_guard (case row of None \<Rightarrow> False | Some u \<Rightarrow>
         ac_password_generation u = generation \<and> ac_password_hash u = Some hash) (badRequest ''Current password is incorrect'')) (\<lambda>_.
     updateUser userId (\<lambda>u. u\<lparr>ac_password_hash := Some nextHash, ac_version := ac_version u + 1,
       ac_password_generation := ac_password_generation u + 1\<rparr>)))"

definition passwordFinish ::
  "'t auth_env \<Rightarrow> time \<Rightarrow> delivery \<Rightarrow> delivery \<Rightarrow> fresh_ids \<Rightarrow> uuid \<Rightarrow> Role \<Rightarrow> 't SessionCredentials authtx" where
  "passwordFinish env now d d' ids userId role =
     tx_bind (rotateSecuritySession env now d d' ids userId role) (\<lambda>session.
     tx_bind (notifyUser userId ''password_changed'') (\<lambda>_. tx_return session))"

definition changePassword ::
  "'t auth_env \<Rightarrow> tf_lib \<Rightarrow> time \<Rightarrow> delivery \<Rightarrow> delivery \<Rightarrow> fresh_ids \<Rightarrow> string \<Rightarrow> uuid \<Rightarrow> Role \<Rightarrow> string \<Rightarrow> string \<Rightarrow>
   't SessionCredentials authtx" where
  "changePassword env lib now d d' ids salt userId role currentPassword newPassword =
     tx_bind (passwordCheck lib userId currentPassword) (\<lambda>(generation, hash).
     tx_bind (passwordWrite userId generation hash (hashPassword lib salt newPassword)) (\<lambda>_.
     passwordFinish env now d d' ids userId role))"

definition stepUpRoute ::
  "'t auth_env \<Rightarrow> tf_lib \<Rightarrow> tf_fresh \<Rightarrow> time \<Rightarrow> (string \<times> delivery) \<Rightarrow> (string \<times> delivery) \<Rightarrow> uuid \<Rightarrow> string option \<Rightarrow> int option \<Rightarrow>
   string option \<Rightarrow> string option \<Rightarrow> (string \<times> int) authtx" where
  "stepUpRoute env lib fresh now t1 t2 userId sessionId sessionVersion currentPassword code =
     tx_bind (tx_lift (securitySession sessionId sessionVersion)) (\<lambda>(j, v).
     createStepUpToken env lib fresh now t1 t2
       \<lparr>su_user = userId, su_session = j, su_version = v, su_purpose = ''change_email''\<rparr> currentPassword code)"

definition emailChangeRequestRoute ::
  "'t auth_env \<Rightarrow> string \<Rightarrow> bool \<Rightarrow> Locale \<Rightarrow> time \<Rightarrow> delivery \<Rightarrow> uuid \<Rightarrow> string \<Rightarrow> (outgoing_email \<Rightarrow> bool option) \<Rightarrow>
   uuid \<Rightarrow> string option \<Rightarrow> int option \<Rightarrow> string \<Rightarrow> string \<Rightarrow> email_change_result authtx" where
  "emailChangeRequestRoute env frontendUrl production loc now d i token send userId sessionId sessionVersion email stepUp =
     tx_bind (tx_lift (securitySession sessionId sessionVersion)) (\<lambda>(j, v).
     requestEmailChange env frontendUrl production now d i token send
       \<lparr>ei_user = userId, ei_session = j, ei_version = v, ei_pending_email = email, ei_step_up = stepUp, ei_locale = loc\<rparr>)"

definition enableTwoFactorRoute ::
  "'t auth_env \<Rightarrow> tf_lib \<Rightarrow> tf_fresh \<Rightarrow> time \<Rightarrow> delivery \<Rightarrow> delivery \<Rightarrow> fresh_ids \<Rightarrow> uuid \<Rightarrow> Role \<Rightarrow> string \<Rightarrow>
   (string list \<times> 't SessionCredentials) authtx" where
  "enableTwoFactorRoute env lib fresh now d d' ids userId role code =
     tx_bind (confirmTwoFactor lib fresh now userId code) (\<lambda>backupCodes.
     tx_bind (rotateSecuritySession env now d d' ids userId role) (\<lambda>session.
     tx_return (backupCodes, session)))"

definition disableTwoFactorRoute ::
  "'t auth_env \<Rightarrow> tf_lib \<Rightarrow> tf_fresh \<Rightarrow> time \<Rightarrow> delivery \<Rightarrow> delivery \<Rightarrow> fresh_ids \<Rightarrow> uuid \<Rightarrow> Role \<Rightarrow> TwoFactorReauthentication \<Rightarrow>
   't SessionCredentials authtx" where
  "disableTwoFactorRoute env lib fresh now d d' ids userId role input =
     tx_bind (disableTwoFactor lib fresh now userId input) (\<lambda>_.
     rotateSecuritySession env now d d' ids userId role)"

definition regenerateBackupCodesRoute ::
  "'t auth_env \<Rightarrow> tf_lib \<Rightarrow> tf_fresh \<Rightarrow> time \<Rightarrow> delivery \<Rightarrow> delivery \<Rightarrow> fresh_ids \<Rightarrow> uuid \<Rightarrow> Role \<Rightarrow> TwoFactorReauthentication \<Rightarrow>
   (string list \<times> 't SessionCredentials) authtx" where
  "regenerateBackupCodesRoute env lib fresh now d d' ids userId role input =
     tx_bind (regenerateTwoFactorBackupCodes lib fresh now userId input) (\<lambda>backupCodes.
     tx_bind (rotateSecuritySession env now d d' ids userId role) (\<lambda>session.
     tx_return (backupCodes, session)))"

section \<open>Phone numbers\<close>

definition PHONE_RESEND_HOURLY_LIMIT :: int where "PHONE_RESEND_HOURLY_LIMIT = 3"

text \<open>Four commands, each sent on its own.\<close>

definition checkPhoneResendRateLimit :: "time \<Rightarrow> delivery \<Rightarrow> delivery \<Rightarrow> delivery \<Rightarrow> delivery \<Rightarrow> uuid \<Rightarrow> unit authtx" where
  "checkPhoneResendRateLimit now d1 d2 d3 d4 userId =
     tx_bind (tx_gets au_redis_up) (\<lambda>up.
     if \<not> up then tx_return ()
     else
       tx_bind (redis_eval d1 (\<lambda>r. (GET now (PhoneVerifyCooldown userId) r, r))) (\<lambda>onCooldown.
       tx_bind (tx_guard (onCooldown = None) (badRequest ''Please wait a minute before requesting another code'')) (\<lambda>_.
       tx_bind (redis_eval d2 (\<lambda>r. (counterValue (GET now (PhoneVerifyHourly userId) r) + 1, INCR now (PhoneVerifyHourly userId) r))) (\<lambda>count.
       tx_bind (tx_when (count = 1) (redis_do d3 (EXPIRE now (PhoneVerifyHourly userId) (60 * 60)))) (\<lambda>_.
       tx_bind (tx_guard (count \<le> PHONE_RESEND_HOURLY_LIMIT) (badRequest ''Too many codes requested, try again in an hour'')) (\<lambda>_.
       redis_do d4 (SET_EX now (PhoneVerifyCooldown userId) (Json (JNum 1)) RESEND_COOLDOWN_SECONDS)))))))"

text \<open>\<open>smsSend phone\<close>: the provider took the message. The update meets the unique index on phones.\<close>

definition phoneRequest ::
  "(string \<Rightarrow> bool) \<Rightarrow> time \<Rightarrow> delivery \<Rightarrow> delivery \<Rightarrow> delivery \<Rightarrow> delivery \<Rightarrow> uuid \<Rightarrow> string \<Rightarrow> unit authtx" where
  "phoneRequest smsSend now d1 d2 d3 d4 userId phone =
     tx_bind (checkPhoneResendRateLimit now d1 d2 d3 d4 userId) (\<lambda>_.
     tx_bind (tx_gets (\<lambda>s. list_ex (\<lambda>u. ac_phone u = Some phone \<and> ac_id u \<noteq> userId) (au_users s))) (\<lambda>existing.
     tx_bind (tx_guard (\<not> existing) (badRequest ''This phone number is already linked to another account'')) (\<lambda>_.
     tx_bind (tx_guard (smsSend phone) (badRequest ''Could not send the verification code right now, try again later'')) (\<lambda>_.
     updateUser userId (\<lambda>u. u\<lparr>ac_phone := Some phone, ac_phone_verified_at := None\<rparr>)))))"

text \<open>\<open>smsCheck phone code\<close>: the provider approved the code for the number.\<close>

definition phoneConfirmCheck :: "(string \<Rightarrow> string \<Rightarrow> bool) \<Rightarrow> uuid \<Rightarrow> string \<Rightarrow> unit authtx" where
  "phoneConfirmCheck smsCheck userId code =
     tx_bind (accountById userId) (\<lambda>row.
     tx_bind (tx_some (case row of None \<Rightarrow> None | Some u \<Rightarrow> ac_phone u) (badRequest ''Request a code first'')) (\<lambda>phone.
     tx_guard (smsCheck phone code) (badRequest ''Invalid or expired code'')))"

definition phoneConfirmWrite :: "time \<Rightarrow> uuid \<Rightarrow> unit authtx" where
  "phoneConfirmWrite now userId = updateUser userId (ac_phone_verified_at_update (\<lambda>_. Some now))"

section \<open>Telegram notifications\<close>

text \<open>\<open>connectLink\<close> is \<open>buildTelegramConnectLink\<close>: none when no bot is configured.\<close>

definition createTelegramConnectToken :: "(string \<Rightarrow> string option) \<Rightarrow> string \<Rightarrow> uuid \<Rightarrow> (string \<times> string) authtx" where
  "createTelegramConnectToken connectLink token userId =
     tx_bind (tx_gets (\<lambda>s. t_find ta_user userId (au_telegrams s))) (\<lambda>row.
     tx_bind (tx_modify (au_telegrams_update (\<lambda>rows.
         if row \<noteq> None then t_upd ta_user userId (ta_token_update (\<lambda>_. Some token)) rows
         else rows @ [\<lparr>ta_user = userId, ta_chat = None, ta_token = Some token, ta_connected_at = None\<rparr>]))) (\<lambda>_.
     tx_bind (tx_some (connectLink token) (badRequest ''Telegram notifications are not configured on this server'')) (\<lambda>link.
     tx_return (token, link))))"

datatype TelegramConnectOutcome = Connected | AlreadyConnected | InvalidToken

definition consumeTelegramConnectToken :: "time \<Rightarrow> string \<Rightarrow> string \<Rightarrow> TelegramConnectOutcome authtx" where
  "consumeTelegramConnectToken now token chatId =
     tx_bind (tx_gets (\<lambda>s. find (\<lambda>r. ta_token r = Some token) (au_telegrams s))) (\<lambda>row.
     case row of
       None \<Rightarrow> tx_gets (\<lambda>s. if list_ex (\<lambda>r. ta_chat r = Some chatId \<and> ta_connected_at r \<noteq> None) (au_telegrams s)
         then AlreadyConnected else InvalidToken)
     | Some r \<Rightarrow>
         tx_bind (tx_modify (au_telegrams_update (map (\<lambda>x. if ta_token x = Some token
           then x\<lparr>ta_chat := Some chatId, ta_connected_at := Some now, ta_token := None\<rparr> else x)))) (\<lambda>_.
         tx_bind (notifyUser (ta_user r) ''telegram_connected'') (\<lambda>_.
         tx_return Connected)))"

definition getTelegramChatId :: "uuid \<Rightarrow> string option authtx" where
  "getTelegramChatId userId = tx_gets (\<lambda>s. case t_find ta_user userId (au_telegrams s) of
       None \<Rightarrow> None
     | Some r \<Rightarrow> if ta_connected_at r = None then None else ta_chat r)"

definition disconnectTelegram :: "uuid \<Rightarrow> unit authtx" where
  "disconnectTelegram userId =
     tx_bind (tx_modify (au_telegrams_update (filter (\<lambda>r. ta_user r \<noteq> userId)))) (\<lambda>_.
     notifyUser userId ''telegram_disconnected'')"

section \<open>Administration of accounts\<close>

text \<open>\<open>PATCH /admin/users/:id\<close> without the product caches of a seller.\<close>

definition adminUpdateUserTx :: "uuid \<Rightarrow> Role option \<Rightarrow> bool option \<Rightarrow> user_account authtx" where
  "adminUpdateUserTx i role isBanned =
     tx_bind (accountById i) (\<lambda>row.
     tx_bind (tx_some row (notFound ''User not found'')) (\<lambda>existing.
     tx_bind (updateUser i (\<lambda>u. u\<lparr>ac_role := (case role of Some r \<Rightarrow> r | None \<Rightarrow> ac_role u),
         ac_banned := (case isBanned of Some b \<Rightarrow> b | None \<Rightarrow> ac_banned u)\<rparr>)) (\<lambda>_.
     let becameBanned = (isBanned = Some True \<and> \<not> ac_banned existing);
         roleChanged = (role \<noteq> None \<and> role \<noteq> Some (ac_role existing)) in
     tx_bind (tx_when (becameBanned \<or> roleChanged) (tx_bind (bumpSessionVersion i) (\<lambda>_. tx_return ()))) (\<lambda>_.
     tx_bind (tx_when becameBanned (tx_modify (au_events_update (\<lambda>es. es @ [(''user.banned'', i)])))) (\<lambda>_.
     tx_return (existing\<lparr>ac_role := (case role of Some r \<Rightarrow> r | None \<Rightarrow> ac_role existing),
       ac_banned := (case isBanned of Some b \<Rightarrow> b | None \<Rightarrow> ac_banned existing)\<rparr>))))))"

definition adminUpdateUser ::
  "'t auth_env \<Rightarrow> time \<Rightarrow> delivery \<Rightarrow> uuid \<Rightarrow> Role option \<Rightarrow> bool option \<Rightarrow> user_account authtx" where
  "adminUpdateUser env now d i role isBanned =
     tx_bind (authTx (adminUpdateUserTx i role isBanned)) (\<lambda>user.
     tx_bind (tx_when (role \<noteq> None) (revokeAllUserSessions env now d i None False True)) (\<lambda>_.
     tx_return user))"

text \<open>The session part of \<open>handleUserBanned\<close> in \<open>domain-event.handlers.ts\<close>.\<close>

definition handleUserBanned :: "'t auth_env \<Rightarrow> time \<Rightarrow> delivery \<Rightarrow> uuid \<Rightarrow> unit authtx" where
  "handleUserBanned env now d userId =
     tx_bind (revokeAllUserSessions env now d userId None True False) (\<lambda>_.
     publish (UserBanned userId))"

end
