(* ===== verification/SessionIndex.thy ===== *)
theory SessionIndex
  imports Sessions
begin

text \<open>
  What the session service keeps true of its Redis keys. Every live refresh token is a record of its
  owner and family, listed in the family's token set and in its owner's token and family sets, each
  living at least as long; a family is active or revoked. The lemmas show which commands keep the
  index, and what each script does to it.
\<close>

section \<open>The index\<close>

text \<open>
  Who a refresh hash was drawn for, its family and the session version it was drawn under, and the
  hashes whose record was issued or committed.
\<close>

record ghosts =
  gh_owner :: "string \<rightharpoonup> uuid"
  gh_family :: "string \<rightharpoonup> string"
  gh_version :: "string \<rightharpoonup> int"
  gh_created :: "string set"

definition covers :: "(set_key, string list) keyspace \<Rightarrow> set_key \<Rightarrow> string \<Rightarrow> time \<Rightarrow> bool" where
  "covers T k m x \<longleftrightarrow> (\<exists>xs e. T k = Some (xs, e) \<and> m \<in> set xs \<and> (case e of None \<Rightarrow> True | Some y \<Rightarrow> x \<le> y))"

definition refresh_at :: "time \<Rightarrow> redis \<Rightarrow> string \<Rightarrow> stored \<Rightarrow> time option \<Rightarrow> bool" where
  "refresh_at now r h t e \<longleftrightarrow> rs_str r (Refresh h) = Some (t, e) \<and> unexpired now e"

definition family_at :: "time \<Rightarrow> redis \<Rightarrow> string \<Rightarrow> stored \<Rightarrow> time option \<Rightarrow> bool" where
  "family_at now r f t e \<longleftrightarrow> rs_str r (RefreshFamily f) = Some (t, e) \<and> unexpired now e"

definition listed :: "ghosts \<Rightarrow> redis \<Rightarrow> string \<Rightarrow> uuid \<Rightarrow> string \<Rightarrow> time \<Rightarrow> bool" where
  "listed g r h u f x \<longleftrightarrow> gh_owner g h = Some u \<and> gh_family g h = Some f \<and> gh_owner g f = Some u \<and>
     h \<in> gh_created g \<and> covers (rs_set r) (RefreshFamilyTokens f) h x \<and>
     covers (rs_set r) (UserRefresh u) h x \<and> covers (rs_set r) (UserRefreshFamilies u) f x"

text \<open>\<open>X\<close> holds the families a running script has fenced but not yet emptied.\<close>

definition refresh_ok :: "string set \<Rightarrow> int \<Rightarrow> time \<Rightarrow> ghosts \<Rightarrow> redis \<Rightarrow> bool" where
  "refresh_ok X ttl now g r \<longleftrightarrow> (\<forall>h t e. refresh_at now r h t e \<longrightarrow>
     (\<exists>u v f x. t = refreshRecord u v f \<and> e = Some x \<and> x \<le> now + 1000 * ttl \<and> listed g r h u f x \<and>
        (f \<in> X \<or> (\<exists>y. family_at now r f (familyRecord ''active'' u) (Some y) \<and> x \<le> y))))"

definition families_ok :: "int \<Rightarrow> time \<Rightarrow> ghosts \<Rightarrow> redis \<Rightarrow> bool" where
  "families_ok ttl now g r \<longleftrightarrow> (\<forall>f t e. family_at now r f t e \<longrightarrow>
     (\<exists>u. t = familyRecord ''revoked'' u) \<or>
     (\<exists>u x. t = familyRecord ''active'' u \<and> e = Some x \<and> x \<le> now + 1000 * ttl \<and> gh_owner g f = Some u \<and>
        covers (rs_set r) (UserRefreshFamilies u) f x))"

definition owners_ok :: "time \<Rightarrow> ghosts \<Rightarrow> redis \<Rightarrow> bool" where
  "owners_ok now g r \<longleftrightarrow> (\<forall>u. \<forall>f\<in>set (SMEMBERS now (UserRefreshFamilies u) r). gh_owner g f = Some u) \<and>
     (\<forall>f. \<forall>h\<in>set (SMEMBERS now (RefreshFamilyTokens f) r). gh_family g h = Some f)"

definition index_ok :: "string set \<Rightarrow> int \<Rightarrow> time \<Rightarrow> ghosts \<Rightarrow> redis \<Rightarrow> bool" where
  "index_ok X ttl now g r \<longleftrightarrow> refresh_ok X ttl now g r \<and> families_ok ttl now g r \<and> owners_ok now g r"

text \<open>A family with no live refresh token, and one that is over for good.\<close>

definition no_refresh :: "time \<Rightarrow> redis \<Rightarrow> string \<Rightarrow> bool" where
  "no_refresh now r f \<longleftrightarrow> (\<forall>h u v e. \<not> refresh_at now r h (refreshRecord u v f) e)"

definition not_active :: "time \<Rightarrow> redis \<Rightarrow> string \<Rightarrow> bool" where
  "not_active now r f \<longleftrightarrow> (\<forall>u e. \<not> family_at now r f (familyRecord ''active'' u) e)"

definition dead :: "time \<Rightarrow> redis \<Rightarrow> string \<Rightarrow> bool" where
  "dead now r f \<longleftrightarrow> no_refresh now r f \<and> not_active now r f"

lemmas index_defs = refresh_ok_def families_ok_def owners_ok_def index_ok_def listed_def

lemma record_inject [simp]:
  "refreshRecord u v f = refreshRecord u' v' f' \<longleftrightarrow> u = u' \<and> v = v' \<and> f = f'"
  "familyRecord st u = familyRecord st' u' \<longleftrightarrow> st = st' \<and> u = u'"
  "refreshRecord u v f \<noteq> familyRecord st u'"
  by (auto simp: refreshRecord_def familyRecord_def)

lemma refresh_at_GET: "GET now (Refresh h) r = Some t \<longleftrightarrow> (\<exists>e. refresh_at now r h t e)"
  by (simp add: GET_def look_Some_iff refresh_at_def)

lemma family_at_GET: "GET now (RefreshFamily f) r = Some t \<longleftrightarrow> (\<exists>e. family_at now r f t e)"
  by (simp add: GET_def look_Some_iff family_at_def)

lemma covers_member: "covers (rs_set r) k m x \<Longrightarrow> now < x \<Longrightarrow> m \<in> set (SMEMBERS now k r)"
  by (auto simp: covers_def SMEMBERS_def look_def unexpired_def split: option.splits)

section \<open>Commands that leave the index alone\<close>

definition same_index :: "redis \<Rightarrow> redis \<Rightarrow> bool" where
  "same_index r r' \<longleftrightarrow> (\<forall>h. rs_str r (Refresh h) = rs_str r' (Refresh h)) \<and>
     (\<forall>f. rs_str r (RefreshFamily f) = rs_str r' (RefreshFamily f)) \<and>
     (\<forall>k. (\<forall>u. k \<noteq> UserSessions u) \<longrightarrow> rs_set r k = rs_set r' k)"

lemma same_index_refl [simp]: "same_index r r"
  by (simp add: same_index_def)

lemma same_index_trans: "same_index r r' \<Longrightarrow> same_index r' r'' \<Longrightarrow> same_index r r''"
  by (simp add: same_index_def)

lemma same_index_at:
  assumes "same_index r r'"
  shows "refresh_at now r' h t e = refresh_at now r h t e" "family_at now r' f t e = family_at now r f t e"
    "SMEMBERS now (UserRefreshFamilies u) r' = SMEMBERS now (UserRefreshFamilies u) r"
    "SMEMBERS now (UserRefresh u) r' = SMEMBERS now (UserRefresh u) r"
    "SMEMBERS now (RefreshFamilyTokens f) r' = SMEMBERS now (RefreshFamilyTokens f) r"
    "listed g r' h u f x = listed g r h u f x" "covers (rs_set r') (UserRefreshFamilies u) f x = covers (rs_set r) (UserRefreshFamilies u) f x"
  using assms by (simp_all add: same_index_def refresh_at_def family_at_def SMEMBERS_def look_def listed_def covers_def)

lemma same_index_ok: "same_index r r' \<Longrightarrow> index_ok X ttl now g r' = index_ok X ttl now g r"
  by (simp add: index_ok_def refresh_ok_def families_ok_def owners_ok_def same_index_at)

lemma same_index_dead: "same_index r r' \<Longrightarrow> dead now r' f = dead now r f"
  by (simp add: dead_def no_refresh_def not_active_def same_index_at)

definition index_key :: "str_key \<Rightarrow> bool" where
  "index_key k \<longleftrightarrow> (\<exists>h. k = Refresh h) \<or> (\<exists>f. k = RefreshFamily f)"

lemma index_key_simps [simp]:
  "index_key (Refresh h)" "index_key (RefreshFamily f)" "\<not> index_key (Session i)" "\<not> index_key (SessionRevoked i)"
  "\<not> index_key (SessionFamily i)" "\<not> index_key (RefreshFamilyFor h)" "\<not> index_key (RotationReceipt h)"
  "\<not> index_key (LogoutReceipt h)" "\<not> index_key (TwoFactorPending i)"
  by (simp_all add: index_key_def)

lemma SREM_other: "k' \<noteq> k \<Longrightarrow> rs_set (SREM now k x r) k' = rs_set r k'"
  by (simp add: SREM_def Let_def)

lemma SADD_other: "k' \<noteq> k \<Longrightarrow> rs_set (SADD now k x r) k' = rs_set r k'"
  by (simp add: SADD_def)

lemma SEXPIRE_other: "k' \<noteq> k \<Longrightarrow> rs_set (SEXPIRE now k ttl r) k' = rs_set r k'"
  by (simp add: SEXPIRE_def)

lemma same_index_steps:
  "\<not> index_key k \<Longrightarrow> same_index r (SET_EX now k v ttl r)"
  "\<not> index_key k \<Longrightarrow> same_index r (DEL k r)"
  "same_index r (SREM now (UserSessions u) x r)"
  "same_index r (SADD now (UserSessions u) x r)"
  "same_index r (SDEL (UserSessions u) r)"
  "same_index r (SEXPIRE now (UserSessions u) ttl r)"
  "same_index r (ZADD now z score x r)" "same_index r (ZREM_UPTO now z score r)" "same_index r (ZDEL z r)"
  "same_index r (ZEXPIRE now z ttl r)"
  by (auto simp: same_index_def index_key_def SREM_other SADD_other SEXPIRE_other)

lemma same_index_fold: "(\<And>x r. same_index r (F x r)) \<Longrightarrow> same_index r (fold F xs r)"
  by (induction xs arbitrary: r) (auto intro: same_index_trans)

section \<open>Commands that keep the index\<close>

lemma covers_cong: "T' k = T k \<Longrightarrow> covers T' k m x = covers T k m x"
  by (simp add: covers_def)

lemma covers_live:
  assumes "covers (rs_set r) k m x" "now < x"
  obtains xs e where "rs_set r k = Some (xs, e)" "look now (rs_set r) k = Some xs" "SMEMBERS now k r = xs" "m \<in> set xs"
    "case e of None \<Rightarrow> True | Some z \<Rightarrow> x \<le> z"
proof -
  from assms obtain xs e where r: "rs_set r k = Some (xs, e)" and m: "m \<in> set xs" and e: "case e of None \<Rightarrow> True | Some z \<Rightarrow> x \<le> z"
    by (auto simp: covers_def)
  have "unexpired now e" using e assms(2) by (auto simp: unexpired_def split: option.splits)
  then show thesis using that r m e by (simp add: SMEMBERS_def look_def)
qed

lemma covers_SREM:
  assumes c: "covers (rs_set r) k m x" and x: "now < x" and y: "k \<noteq> k' \<or> m \<noteq> y"
  shows "covers (rs_set (SREM now k' y r)) k m x"
proof (cases "k = k'")
  case True
  from c x obtain xs e where r: "rs_set r k = Some (xs, e)" "look now (rs_set r) k = Some xs" "SMEMBERS now k r = xs"
    "m \<in> set xs" "case e of None \<Rightarrow> True | Some z \<Rightarrow> x \<le> z" by (rule covers_live)
  from r(4) y True have m: "m \<in> set (removeAll y xs)" by simp
  then have "removeAll y xs \<noteq> []" by (metis empty_iff list.set(1))
  with m True r show ?thesis by (auto simp: SREM_def Let_def covers_def put_def)
qed (use c in \<open>simp add: covers_def SREM_other\<close>)

lemma covers_SADD:
  assumes c: "covers (rs_set r) k m x" and x: "now < x"
  shows "covers (rs_set (SADD now k' y r)) k m x"
proof (cases "k = k'")
  case True
  from c x obtain xs e where "rs_set r k = Some (xs, e)" "look now (rs_set r) k = Some xs" "SMEMBERS now k r = xs"
    "m \<in> set xs" "case e of None \<Rightarrow> True | Some z \<Rightarrow> x \<le> z" by (rule covers_live)
  with True show ?thesis by (auto simp: SADD_def covers_def put_def)
qed (use c in \<open>simp add: covers_def SADD_other\<close>)

lemma covers_SEXPIRE:
  assumes c: "covers (rs_set r) k m x" and x: "now < x" and t: "x \<le> now + 1000 * ttl"
  shows "covers (rs_set (SEXPIRE now k' ttl r)) k m x"
proof (cases "k = k'")
  case True
  from c x obtain xs e where "rs_set r k = Some (xs, e)" "look now (rs_set r) k = Some xs" "SMEMBERS now k r = xs"
    "m \<in> set xs" "case e of None \<Rightarrow> True | Some z \<Rightarrow> x \<le> z" by (rule covers_live)
  with True t show ?thesis by (auto simp: SEXPIRE_def covers_def set_ttl_def expires_def)
qed (use c in \<open>simp add: covers_def SEXPIRE_other\<close>)

lemma covers_add:
  assumes "x \<le> now + 1000 * ttl"
  shows "covers (rs_set (SEXPIRE now k ttl (SADD now k m r))) k m x"
proof -
  have m: "m \<in> set (SMEMBERS now k (SADD now k m r))" by (simp add: SMEMBERS_SADD)
  then obtain xs where "look now (rs_set (SADD now k m r)) k = Some xs"
    by (cases "look now (rs_set (SADD now k m r)) k") (auto simp: SMEMBERS_def)
  with m assms show ?thesis by (auto simp: SEXPIRE_def set_ttl_def covers_def expires_def SMEMBERS_def)
qed

text \<open>
  A store with the same string keys whose sets list at least what live tokens need; and one from
  which tokens were deleted.
\<close>

lemma index_shrink:
  assumes ok: "index_ok X ttl now g r"
    and refresh: "\<And>h t e. refresh_at now r' h t e \<Longrightarrow> refresh_at now r h t e"
    and family: "\<And>f t e. family_at now r' f t e = family_at now r f t e"
    and tokens: "\<And>h u v f x. refresh_at now r' h (refreshRecord u v f) (Some x) \<Longrightarrow> listed g r h u f x \<Longrightarrow>
       x \<le> now + 1000 * ttl \<Longrightarrow> now < x \<Longrightarrow>
       covers (rs_set r') (RefreshFamilyTokens f) h x \<and> covers (rs_set r') (UserRefresh u) h x \<and>
       covers (rs_set r') (UserRefreshFamilies u) f x"
    and fams: "\<And>f u x. family_at now r' f (familyRecord ''active'' u) (Some x) \<Longrightarrow>
       covers (rs_set r) (UserRefreshFamilies u) f x \<Longrightarrow> gh_owner g f = Some u \<Longrightarrow> x \<le> now + 1000 * ttl \<Longrightarrow> now < x \<Longrightarrow>
       covers (rs_set r') (UserRefreshFamilies u) f x"
    and own: "\<And>u f. f \<in> set (SMEMBERS now (UserRefreshFamilies u) r') \<Longrightarrow> gh_owner g f = Some u"
      "\<And>h f. h \<in> set (SMEMBERS now (RefreshFamilyTokens f) r') \<Longrightarrow> gh_family g h = Some f"
  shows "index_ok X ttl now g r'"
proof -
  have "refresh_ok X ttl now g r'"
    unfolding refresh_ok_def
  proof (intro allI impI)
    fix h t e
    assume a: "refresh_at now r' h t e"
    from ok refresh [OF a] obtain u v f x where t: "t = refreshRecord u v f" "e = Some x" and x: "x \<le> now + 1000 * ttl"
      and l: "listed g r h u f x"
      and f: "f \<in> X \<or> (\<exists>y. family_at now r f (familyRecord ''active'' u) (Some y) \<and> x \<le> y)"
      unfolding index_ok_def refresh_ok_def by metis
    have "now < x" using a t by (simp add: refresh_at_def unexpired_def)
    with tokens [OF a [unfolded t] l x] l have "listed g r' h u f x" by (simp add: listed_def)
    with t x f show "\<exists>u v f x. t = refreshRecord u v f \<and> e = Some x \<and> x \<le> now + 1000 * ttl \<and> listed g r' h u f x \<and>
        (f \<in> X \<or> (\<exists>y. family_at now r' f (familyRecord ''active'' u) (Some y) \<and> x \<le> y))"
      unfolding family by blast
  qed
  moreover have "families_ok ttl now g r'"
    unfolding families_ok_def
  proof (intro allI impI)
    fix f t e
    assume a: "family_at now r' f t e"
    then have a': "family_at now r f t e" by (simp add: family)
    then have n: "now < x" if "e = Some x" for x using that by (simp add: family_at_def unexpired_def)
    from ok a' have "(\<exists>u. t = familyRecord ''revoked'' u) \<or>
      (\<exists>u x. t = familyRecord ''active'' u \<and> e = Some x \<and> x \<le> now + 1000 * ttl \<and> gh_owner g f = Some u \<and>
        covers (rs_set r) (UserRefreshFamilies u) f x)" unfolding index_ok_def families_ok_def by blast
    then show "(\<exists>u. t = familyRecord ''revoked'' u) \<or>
      (\<exists>u x. t = familyRecord ''active'' u \<and> e = Some x \<and> x \<le> now + 1000 * ttl \<and> gh_owner g f = Some u \<and>
        covers (rs_set r') (UserRefreshFamilies u) f x)" using fams a n by blast
  qed
  moreover have "owners_ok now g r'" using own by (simp add: owners_ok_def)
  ultimately show ?thesis by (simp add: index_ok_def)
qed

lemma at_frames [simp]:
  "refresh_at now (SREM now' k y r) h t e = refresh_at now r h t e" "family_at now (SREM now' k y r) f t e = family_at now r f t e"
  "refresh_at now (SADD now' k y r) h t e = refresh_at now r h t e" "family_at now (SADD now' k y r) f t e = family_at now r f t e"
  "refresh_at now (SDEL k r) h t e = refresh_at now r h t e" "family_at now (SDEL k r) f t e = family_at now r f t e"
  "refresh_at now (SEXPIRE now' k ttl r) h t e = refresh_at now r h t e"
  "family_at now (SEXPIRE now' k ttl r) f t e = family_at now r f t e"
  "family_at now (DEL (Refresh h) r) f t e = family_at now r f t e"
  "refresh_at now (DEL (Refresh h') r) h t e \<longleftrightarrow> h \<noteq> h' \<and> refresh_at now r h t e"
  by (auto simp: refresh_at_def family_at_def)

lemma refresh_at_unexpired: "refresh_at now r h t (Some x) \<Longrightarrow> now < x"
  by (simp add: refresh_at_def unexpired_def)

lemma index_tokens:
  assumes "index_ok X ttl now g r" "refresh_at now r h (refreshRecord u v f) (Some x)"
  shows "covers (rs_set r) (RefreshFamilyTokens f) h x" "covers (rs_set r) (UserRefresh u) h x"
    "covers (rs_set r) (UserRefreshFamilies u) f x" "gh_owner g h = Some u" "gh_family g h = Some f" "gh_owner g f = Some u"
    "h \<in> gh_created g" "x \<le> now + 1000 * ttl"
proof -
  from assms obtain u' v' f' x' where a: "refreshRecord u v f = refreshRecord u' v' f'" "Some x = Some x'"
    "x' \<le> now + 1000 * ttl" "listed g r h u' f' x'"
    unfolding index_ok_def refresh_ok_def by metis
  then show "covers (rs_set r) (RefreshFamilyTokens f) h x" "covers (rs_set r) (UserRefresh u) h x"
    "covers (rs_set r) (UserRefreshFamilies u) f x" "gh_owner g h = Some u" "gh_family g h = Some f" "gh_owner g f = Some u"
    "h \<in> gh_created g" "x \<le> now + 1000 * ttl" by (simp_all add: listed_def)
qed

lemma index_record:
  assumes "index_ok X ttl now g r" "refresh_at now r h t e"
  obtains u v f x where "t = refreshRecord u v f" "e = Some x" "refresh_at now r h (refreshRecord u v f) (Some x)"
  using assms unfolding index_ok_def refresh_ok_def by metis

lemma index_family:
  assumes "index_ok X ttl now g r" "refresh_at now r h (refreshRecord u v f) (Some x)" "f \<notin> X"
  obtains y where "family_at now r f (familyRecord ''active'' u) (Some y)" "x \<le> y"
  using assms unfolding index_ok_def refresh_ok_def by (metis option.inject record_inject(1))

lemma index_owner: "index_ok X ttl now g r \<Longrightarrow> f \<in> set (SMEMBERS now (UserRefreshFamilies u) r) \<Longrightarrow> gh_owner g f = Some u"
  by (simp add: index_ok_def owners_ok_def)

lemma index_token_family: "index_ok X ttl now g r \<Longrightarrow> h \<in> set (SMEMBERS now (RefreshFamilyTokens f) r) \<Longrightarrow> gh_family g h = Some f"
  by (simp add: index_ok_def owners_ok_def)

lemma index_listed_member:
  assumes "index_ok X ttl now g r" "refresh_at now r h (refreshRecord u v f) (Some x)"
  shows "h \<in> set (SMEMBERS now (RefreshFamilyTokens f) r)" "h \<in> set (SMEMBERS now (UserRefresh u) r)"
    "f \<in> set (SMEMBERS now (UserRefreshFamilies u) r)"
  using index_tokens(1-3) [OF assms] refresh_at_unexpired [OF assms(2)] by (auto intro: covers_member)

lemma index_active:
  assumes "index_ok X ttl now g r" "family_at now r f (familyRecord ''active'' u) e"
  shows "gh_owner g f = Some u" "f \<in> set (SMEMBERS now (UserRefreshFamilies u) r)"
proof -
  from assms have "(\<exists>u'. familyRecord ''active'' u = familyRecord ''revoked'' u') \<or>
      (\<exists>u' x. familyRecord ''active'' u = familyRecord ''active'' u' \<and> e = Some x \<and> x \<le> now + 1000 * ttl \<and>
        gh_owner g f = Some u' \<and> covers (rs_set r) (UserRefreshFamilies u') f x)"
    unfolding index_ok_def families_ok_def by blast
  then obtain x where x: "e = Some x" "gh_owner g f = Some u" "covers (rs_set r) (UserRefreshFamilies u) f x" by auto
  moreover have "now < x" using assms(2) x(1) by (simp add: family_at_def unexpired_def)
  ultimately show "gh_owner g f = Some u" "f \<in> set (SMEMBERS now (UserRefreshFamilies u) r)"
    by (auto intro: covers_member)
qed

lemma index_DEL_refresh:
  assumes "index_ok X ttl now g r"
  shows "index_ok X ttl now g (DEL (Refresh h') r)"
  using assms
  by (rule index_shrink)
    (auto simp: listed_def SMEMBERS_other [of "DEL (Refresh h') r" _ r] intro: index_owner [OF assms] index_token_family [OF assms])

lemma index_SREM:
  assumes ok: "index_ok X ttl now g r"
    and "\<And>f. k = RefreshFamilyTokens f \<Longrightarrow> (\<forall>t e. \<not> refresh_at now r y t e)"
    and "\<And>u. k = UserRefresh u \<Longrightarrow> (\<forall>t e. \<not> refresh_at now r y t e)"
    and "\<And>u. k = UserRefreshFamilies u \<Longrightarrow> dead now r y"
  shows "index_ok X ttl now g (SREM now k y r)"
  using ok
proof (rule index_shrink)
  fix h u v f x
  assume a: "refresh_at now (SREM now k y r) h (refreshRecord u v f) (Some x)" and l: "listed g r h u f x" and x: "now < x"
  from a have a': "refresh_at now r h (refreshRecord u v f) (Some x)" by simp
  have "k \<noteq> RefreshFamilyTokens f \<or> h \<noteq> y" "k \<noteq> UserRefresh u \<or> h \<noteq> y" "k \<noteq> UserRefreshFamilies u \<or> f \<noteq> y"
    using assms(2-4) a' by (auto simp: dead_def no_refresh_def)
  with l x show "covers (rs_set (SREM now k y r)) (RefreshFamilyTokens f) h x \<and>
      covers (rs_set (SREM now k y r)) (UserRefresh u) h x \<and> covers (rs_set (SREM now k y r)) (UserRefreshFamilies u) f x"
    unfolding listed_def by (metis covers_SREM)
next
  fix f u x
  assume a: "family_at now (SREM now k y r) f (familyRecord ''active'' u) (Some x)" "covers (rs_set r) (UserRefreshFamilies u) f x" "now < x"
  then have "k \<noteq> UserRefreshFamilies u \<or> f \<noteq> y" using assms(4) by (auto simp: dead_def not_active_def)
  with a show "covers (rs_set (SREM now k y r)) (UserRefreshFamilies u) f x" by (metis covers_SREM)
qed (auto simp: SMEMBERS_SREM intro: index_owner [OF ok] index_token_family [OF ok])

lemma SMEMBERS_SDEL: "SMEMBERS now k (SDEL k' r) = (if k = k' then [] else SMEMBERS now k r)"
  by (simp add: SMEMBERS_def look_upd_other)

lemma index_SDEL:
  assumes ok: "index_ok X ttl now g r"
    and "\<And>f. k = RefreshFamilyTokens f \<Longrightarrow> no_refresh now r f"
    and "\<And>u. k = UserRefresh u \<Longrightarrow> (\<forall>h v f e. \<not> refresh_at now r h (refreshRecord u v f) e)"
    and "\<And>u. k = UserRefreshFamilies u \<Longrightarrow> (\<forall>h v f e. \<not> refresh_at now r h (refreshRecord u v f) e) \<and>
       (\<forall>f e. \<not> family_at now r f (familyRecord ''active'' u) e)"
  shows "index_ok X ttl now g (SDEL k r)"
  using ok
proof (rule index_shrink)
  fix h u v f x
  assume a: "refresh_at now (SDEL k r) h (refreshRecord u v f) (Some x)" and l: "listed g r h u f x"
  from a have a': "refresh_at now r h (refreshRecord u v f) (Some x)" by simp
  have "k \<noteq> RefreshFamilyTokens f" "k \<noteq> UserRefresh u" "k \<noteq> UserRefreshFamilies u"
    using assms(2-4) a' by (auto simp: no_refresh_def)
  with l show "covers (rs_set (SDEL k r)) (RefreshFamilyTokens f) h x \<and>
      covers (rs_set (SDEL k r)) (UserRefresh u) h x \<and> covers (rs_set (SDEL k r)) (UserRefreshFamilies u) f x"
    by (auto simp: listed_def covers_def)
next
  fix f u x
  assume a: "family_at now (SDEL k r) f (familyRecord ''active'' u) (Some x)" "covers (rs_set r) (UserRefreshFamilies u) f x"
  then have "k \<noteq> UserRefreshFamilies u" using assms(4) by auto
  with a show "covers (rs_set (SDEL k r)) (UserRefreshFamilies u) f x" by (auto simp: covers_def)
qed (auto simp: SMEMBERS_SDEL intro: index_owner [OF ok] index_token_family [OF ok] split: if_splits)

lemma family_at_SET: "0 < ttl \<Longrightarrow> family_at now (SET_EX now (RefreshFamily f') v ttl r) f t e \<longleftrightarrow>
    (if f = f' then t = v \<and> e = expires now ttl else family_at now r f t e)"
  by (auto simp: family_at_def)

lemma refresh_at_SET: "0 < ttl \<Longrightarrow> refresh_at now (SET_EX now (Refresh h') v ttl r) h t e \<longleftrightarrow>
    (if h = h' then t = v \<and> e = expires now ttl else refresh_at now r h t e)"
  by (auto simp: refresh_at_def)

lemma at_SET_other [simp]:
  "refresh_at now (SET_EX now' (RefreshFamily f') v ttl r) h t e = refresh_at now r h t e"
  "family_at now (SET_EX now' (Refresh h') v ttl r) f t e = family_at now r f t e"
  by (simp_all add: refresh_at_def family_at_def)

text \<open>Fencing a family, and lifting the exemption once no token of it is left.\<close>

lemma index_fence:
  assumes ok: "index_ok X ttl now g r" and ttl: "0 < ttl"
  shows "index_ok (insert f' X) ttl now g (SET_EX now (RefreshFamily f') (familyRecord ''revoked'' w) ttl r)"
proof -
  let ?r = "SET_EX now (RefreshFamily f') (familyRecord ''revoked'' w) ttl r"
  have l: "listed g ?r h u f x = listed g r h u f x" for h u f x by (simp add: listed_def covers_def)
  have "refresh_ok (insert f' X) ttl now g ?r"
    using ok unfolding index_ok_def refresh_ok_def l by (simp add: family_at_SET [OF ttl]) metis
  moreover have "families_ok ttl now g ?r"
    using ok unfolding index_ok_def families_ok_def by (auto simp: family_at_SET [OF ttl] covers_def)
  moreover have "owners_ok now g ?r"
    using ok by (simp add: index_ok_def owners_ok_def SMEMBERS_def)
  ultimately show ?thesis by (simp add: index_ok_def)
qed

lemma index_unfence:
  assumes "index_ok (insert f' X) ttl now g r" "no_refresh now r f'"
  shows "index_ok X ttl now g r"
proof -
  have "refresh_ok X ttl now g r"
    unfolding refresh_ok_def
  proof (intro allI impI)
    fix h t e
    assume a: "refresh_at now r h t e"
    with assms(1) obtain u v f x where b: "t = refreshRecord u v f" "e = Some x" "x \<le> now + 1000 * ttl" "listed g r h u f x"
      "f \<in> insert f' X \<or> (\<exists>y. family_at now r f (familyRecord ''active'' u) (Some y) \<and> x \<le> y)"
      unfolding index_ok_def refresh_ok_def by metis
    moreover have "f \<noteq> f'" using assms(2) a b(1) by (auto simp: no_refresh_def)
    ultimately show "\<exists>u v f x. t = refreshRecord u v f \<and> e = Some x \<and> x \<le> now + 1000 * ttl \<and> listed g r h u f x \<and>
        (f \<in> X \<or> (\<exists>y. family_at now r f (familyRecord ''active'' u) (Some y) \<and> x \<le> y))" by blast
  qed
  with assms(1) show ?thesis by (simp add: index_ok_def)
qed

section \<open>The logout scripts\<close>

text \<open>They only ever delete tokens and end families.\<close>

definition shrinks :: "time \<Rightarrow> redis \<Rightarrow> redis \<Rightarrow> bool" where
  "shrinks now r r' \<longleftrightarrow> (\<forall>h t e. refresh_at now r' h t e \<longrightarrow> refresh_at now r h t e) \<and>
     (\<forall>f u e. family_at now r' f (familyRecord ''active'' u) e \<longrightarrow> family_at now r f (familyRecord ''active'' u) e)"

lemma shrinks_refl: "shrinks now r r"
  by (simp add: shrinks_def)

lemma shrinks_trans: "shrinks now r r' \<Longrightarrow> shrinks now r' r'' \<Longrightarrow> shrinks now r r''"
  unfolding shrinks_def by blast

lemma shrinks_dead: "shrinks now r r' \<Longrightarrow> dead now r f \<Longrightarrow> dead now r' f"
  unfolding shrinks_def dead_def no_refresh_def not_active_def by blast

lemma shrinks_refreshD: "shrinks now r r' \<Longrightarrow> refresh_at now r' h t e \<Longrightarrow> refresh_at now r h t e"
  by (simp add: shrinks_def)

lemma shrinks_no_refresh: "shrinks now r r' \<Longrightarrow> no_refresh now r f \<Longrightarrow> no_refresh now r' f"
  unfolding no_refresh_def by (blast dest: shrinks_refreshD)

lemma shrinks_not_active: "shrinks now r r' \<Longrightarrow> not_active now r f \<Longrightarrow> not_active now r' f"
  unfolding not_active_def shrinks_def by blast

lemma shrinks_same: "same_index r r' \<Longrightarrow> shrinks now r r'"
  by (simp add: shrinks_def same_index_at)

lemma shrinks_steps:
  "shrinks now r (SREM now' k y r)" "shrinks now r (SDEL k r)" "shrinks now r (DEL (Refresh h) r)"
  "0 < ttl \<Longrightarrow> shrinks now r (SET_EX now (RefreshFamily f) (familyRecord ''revoked'' w) ttl r)"
  by (auto simp: shrinks_def family_at_SET)

lemma token_fold_at [simp]:
  "refresh_at now (fold (revokeFamilyToken rt now u f) hs r) h t e \<longleftrightarrow> h \<notin> set hs \<and> refresh_at now r h t e"
  "family_at now (fold (revokeFamilyToken rt now u f) hs r) f' t e = family_at now r f' t e"
  by (induction hs arbitrary: r) (auto simp: revokeFamilyToken_def same_index_at [OF same_index_steps(1)])

lemma index_token_fold:
  "index_ok X ttl now g r \<Longrightarrow> index_ok X ttl now g (fold (revokeFamilyToken rt now u f) hs r)"
proof (induction hs arbitrary: r)
  case (Cons h hs)
  let ?r = "SET_EX now (LogoutReceipt h) (logoutReceipt u f) rt r"
  have "index_ok X ttl now g ?r" using Cons.prems by (simp add: same_index_ok [OF same_index_steps(1)])
  then have "index_ok X ttl now g (DEL (Refresh h) ?r)" by (rule index_DEL_refresh)
  then have "index_ok X ttl now g (SREM now (UserRefresh u) h (DEL (Refresh h) ?r))" by (rule index_SREM) auto
  then show ?case using Cons.IH by (simp add: revokeFamilyToken_def)
qed simp

lemma same_sessions: "same_index (lr_redis l) (lr_redis (revokeFamilySessions ttl now ns u f l))"
proof -
  have s: "same_index (lr_redis l) (lr_redis (fold (revokeFamilySession ttl now u) ids l))" for ids
  proof (induction ids arbitrary: l)
    case (Cons i ids)
    have "same_index (lr_redis l) (SREM now (UserSessions u) i (DEL (Session i) (lr_redis l)))"
      by (rule same_index_trans [OF same_index_steps(2) same_index_steps(3)]) simp
    then have "same_index (lr_redis l) (lr_redis (revokeFamilySession ttl now u i l))"
      by (auto simp: revokeFamilySession_def rememberSession_def elim!: same_index_trans intro: same_index_steps(1))
    with Cons.IH show ?case by (auto intro: same_index_trans)
  qed simp
  show ?thesis
    by (simp add: revokeFamilySessions_def Let_def same_index_trans [OF s same_index_steps(9)])
qed

lemma revokeFamilyTokens_effect:
  assumes ok: "index_ok (insert f X) ttl now g r" and na: "not_active now r f"
  shows "index_ok X ttl now g (revokeFamilyTokens rt now u f r)" "dead now (revokeFamilyTokens rt now u f r) f"
    "shrinks now r (revokeFamilyTokens rt now u f r)"
proof -
  define r1 where "r1 = fold (revokeFamilyToken rt now u f) (SMEMBERS now (RefreshFamilyTokens f) r) r"
  have at1: "refresh_at now r1 h t e \<longleftrightarrow> h \<notin> set (SMEMBERS now (RefreshFamilyTokens f) r) \<and> refresh_at now r h t e"
    "family_at now r1 f' t e = family_at now r f' t e" for h t e f' by (simp_all add: r1_def)
  have ok1: "index_ok (insert f X) ttl now g r1" using ok by (simp add: r1_def index_token_fold)
  have nr: "no_refresh now r1 f"
    unfolding no_refresh_def at1
  proof (intro allI notI, elim conjE)
    fix h v u' e
    assume n: "h \<notin> set (SMEMBERS now (RefreshFamilyTokens f) r)" and a: "refresh_at now r h (refreshRecord u' v f) e"
    from index_record [OF ok a] obtain x where "refresh_at now r h (refreshRecord u' v f) (Some x)" by auto
    from index_listed_member(1) [OF ok this] n show False by simp
  qed
  have d1: "dead now r1 f" using nr na by (simp add: dead_def not_active_def at1)
  have ok2: "index_ok X ttl now g r1" using ok1 nr by (rule index_unfence)
  then have ok3: "index_ok X ttl now g (SDEL (RefreshFamilyTokens f) r1)" by (rule index_SDEL) (use nr in auto)
  have d3: "dead now (SDEL (RefreshFamilyTokens f) r1) f" by (rule shrinks_dead [OF shrinks_steps(2) d1])
  have r: "revokeFamilyTokens rt now u f r = SREM now (UserRefreshFamilies u) f (SDEL (RefreshFamilyTokens f) r1)"
    by (simp add: revokeFamilyTokens_def r1_def)
  show "index_ok X ttl now g (revokeFamilyTokens rt now u f r)"
    unfolding r by (rule index_SREM [OF ok3]) (use d3 in auto)
  show "dead now (revokeFamilyTokens rt now u f r) f" unfolding r by (rule shrinks_dead [OF shrinks_steps(1) d3])
  have "shrinks now r r1" by (simp add: shrinks_def at1)
  then show "shrinks now r (revokeFamilyTokens rt now u f r)"
    unfolding r by (intro shrinks_trans [OF _ shrinks_steps(1)] shrinks_trans [OF _ shrinks_steps(2)])
qed

lemma revokeFamilyOf_effect:
  assumes ok: "index_ok X ttl now g (lr_redis l)" and ttl: "0 < ttl"
  shows "index_ok X ttl now g (lr_redis (revokeFamilyOf ttl rt now ns u f l))"
    "dead now (lr_redis (revokeFamilyOf ttl rt now ns u f l)) f"
    "shrinks now (lr_redis l) (lr_redis (revokeFamilyOf ttl rt now ns u f l))"
proof -
  define l1 where "l1 = l\<lparr>lr_redis := SET_EX now (RefreshFamily f) (familyRecord ''revoked'' u) ttl (lr_redis l)\<rparr>"
  define r2 where "r2 = lr_redis (revokeFamilySessions ttl now ns u f l1)"
  have same: "same_index (lr_redis l1) r2" by (simp add: r2_def same_sessions)
  have ok2: "index_ok (insert f X) ttl now g r2"
    using index_fence [OF ok ttl] by (simp add: same_index_ok [OF same] l1_def)
  have na: "not_active now r2 f"
    by (simp add: not_active_def same_index_at [OF same] l1_def family_at_SET [OF ttl])
  have "shrinks now (lr_redis l) (lr_redis l1)" by (simp add: l1_def shrinks_steps(4) [OF ttl])
  then have sh: "shrinks now (lr_redis l) r2" using shrinks_same [OF same] by (rule shrinks_trans)
  have r: "lr_redis (revokeFamilyOf ttl rt now ns u f l) = revokeFamilyTokens rt now u f r2"
    by (simp add: revokeFamilyOf_def Let_def l1_def r2_def)
  show "index_ok X ttl now g (lr_redis (revokeFamilyOf ttl rt now ns u f l))"
    "dead now (lr_redis (revokeFamilyOf ttl rt now ns u f l)) f"
    unfolding r by (rule revokeFamilyTokens_effect [OF ok2 na])+
  show "shrinks now (lr_redis l) (lr_redis (revokeFamilyOf ttl rt now ns u f l))"
    unfolding r by (rule shrinks_trans [OF sh revokeFamilyTokens_effect(3) [OF ok2 na]])
qed

text \<open>Fencing one family leaves the tokens and the record of every other alone.\<close>

lemma revokeFamilyOf_others:
  assumes ok: "index_ok X ttl now g (lr_redis l)" and ttl: "0 < ttl"
  shows "gh_family g h \<noteq> Some f \<Longrightarrow>
      refresh_at now (lr_redis (revokeFamilyOf ttl rt now ns u f l)) h t e = refresh_at now (lr_redis l) h t e"
    "f' \<noteq> f \<Longrightarrow> family_at now (lr_redis (revokeFamilyOf ttl rt now ns u f l)) f' t e = family_at now (lr_redis l) f' t e"
proof -
  define l1 where "l1 = l\<lparr>lr_redis := SET_EX now (RefreshFamily f) (familyRecord ''revoked'' u) ttl (lr_redis l)\<rparr>"
  define r2 where "r2 = lr_redis (revokeFamilySessions ttl now ns u f l1)"
  have same: "same_index (lr_redis l1) r2" by (simp add: r2_def same_sessions)
  have r: "lr_redis (revokeFamilyOf ttl rt now ns u f l) = revokeFamilyTokens rt now u f r2"
    by (simp add: revokeFamilyOf_def Let_def l1_def r2_def)
  have "index_ok (insert f X) ttl now g r2"
    using index_fence [OF ok ttl] by (simp add: same_index_ok [OF same] l1_def)
  then have m: "h \<notin> set (SMEMBERS now (RefreshFamilyTokens f) r2)" if "gh_family g h \<noteq> Some f"
    using that by (blast dest: index_token_family)
  show "refresh_at now (lr_redis (revokeFamilyOf ttl rt now ns u f l)) h t e = refresh_at now (lr_redis l) h t e"
    if "gh_family g h \<noteq> Some f"
    using m [OF that] unfolding r revokeFamilyTokens_def by (simp add: same_index_at [OF same]) (simp add: l1_def)
  show "family_at now (lr_redis (revokeFamilyOf ttl rt now ns u f l)) f' t e = family_at now (lr_redis l) f' t e" if "f' \<noteq> f"
    using that unfolding r revokeFamilyTokens_def
    by (simp add: same_index_at [OF same]) (simp add: l1_def family_at_SET [OF ttl])
qed

lemma revokeFamily_cases:
  obtains "lr_redis (snd (revokeFamily ttl rt now ns f fb l)) = lr_redis l"
  | u l0 where "snd (revokeFamily ttl rt now ns f fb l) = revokeFamilyOf ttl rt now ns u f l0" "lr_redis l0 = lr_redis l"
proof -
  define w where "w = (case member_string ''u'' (decodeObject (GET now (RefreshFamily f) (lr_redis l))) of
    Some u \<Rightarrow> Some u | None \<Rightarrow> fb)"
  have "revokeFamily ttl rt now ns f fb l =
      (if f = [] then (None, l) else if f \<in> set (lr_families l) then (w, l)
       else case w of None \<Rightarrow> (None, l\<lparr>lr_families := lr_families l @ [f]\<rparr>)
         | Some u \<Rightarrow> if u = [] then (None, l\<lparr>lr_families := lr_families l @ [f]\<rparr>)
             else (Some u, revokeFamilyOf ttl rt now ns u f (l\<lparr>lr_families := lr_families l @ [f]\<rparr>)))"
    by (simp add: revokeFamily_def w_def Let_def)
  then show thesis using that by (cases w) (auto split: if_splits)
qed

lemma revokeFamily_effect:
  assumes ok: "index_ok X ttl now g (lr_redis l)" and ttl: "0 < ttl"
  shows "index_ok X ttl now g (lr_redis (snd (revokeFamily ttl rt now ns f fb l)))"
    "shrinks now (lr_redis l) (lr_redis (snd (revokeFamily ttl rt now ns f fb l)))"
proof -
  have "index_ok X ttl now g (lr_redis (snd (revokeFamily ttl rt now ns f fb l))) \<and>
    shrinks now (lr_redis l) (lr_redis (snd (revokeFamily ttl rt now ns f fb l)))"
  proof (cases rule: revokeFamily_cases [of ttl rt now ns f fb l])
    case 1
    then show ?thesis using ok by (simp add: shrinks_refl)
  next
    case (2 u l0)
    with ok have "index_ok X ttl now g (lr_redis l0)" by simp
    from revokeFamilyOf_effect(1,3) [OF this ttl] 2 show ?thesis by simp
  qed
  then show "index_ok X ttl now g (lr_redis (snd (revokeFamily ttl rt now ns f fb l)))"
    "shrinks now (lr_redis l) (lr_redis (snd (revokeFamily ttl rt now ns f fb l)))" by simp_all
qed

lemma revokeFamily_others:
  assumes ok: "index_ok X ttl now g (lr_redis l)" and ttl: "0 < ttl"
  shows "gh_family g h \<noteq> Some f \<Longrightarrow>
      refresh_at now (lr_redis (snd (revokeFamily ttl rt now ns f fb l))) h t e = refresh_at now (lr_redis l) h t e"
    "f' \<noteq> f \<Longrightarrow> family_at now (lr_redis (snd (revokeFamily ttl rt now ns f fb l))) f' t e = family_at now (lr_redis l) f' t e"
proof -
  have "(gh_family g h \<noteq> Some f \<longrightarrow>
      refresh_at now (lr_redis (snd (revokeFamily ttl rt now ns f fb l))) h t e = refresh_at now (lr_redis l) h t e) \<and>
    (f' \<noteq> f \<longrightarrow> family_at now (lr_redis (snd (revokeFamily ttl rt now ns f fb l))) f' t e = family_at now (lr_redis l) f' t e)"
  proof (cases rule: revokeFamily_cases [of ttl rt now ns f fb l])
    case (2 u l0)
    with ok have "index_ok X ttl now g (lr_redis l0)" by simp
    from revokeFamilyOf_others [OF this ttl] 2 show ?thesis by simp
  qed simp
  then show "gh_family g h \<noteq> Some f \<Longrightarrow>
      refresh_at now (lr_redis (snd (revokeFamily ttl rt now ns f fb l))) h t e = refresh_at now (lr_redis l) h t e"
    "f' \<noteq> f \<Longrightarrow> family_at now (lr_redis (snd (revokeFamily ttl rt now ns f fb l))) f' t e = family_at now (lr_redis l) f' t e"
    by simp_all
qed

text \<open>A family that is active belongs to its owner, whatever user the caller falls back on.\<close>

lemma revokeFamily_fences:
  assumes ok: "index_ok X ttl now g (lr_redis l)" and ttl: "0 < ttl"
    and fam: "family_at now (lr_redis l) f (familyRecord ''active'' u) e" and ne: "f \<noteq> []" "u \<noteq> []"
    and new: "f \<notin> set (lr_families l)"
  shows "dead now (lr_redis (snd (revokeFamily ttl rt now ns f fb l))) f"
proof -
  have "GET now (RefreshFamily f) (lr_redis l) = Some (familyRecord ''active'' u)" using fam by (auto simp: family_at_GET)
  then have "member_string ''u'' (decodeObject (GET now (RefreshFamily f) (lr_redis l))) = Some u"
    by (simp add: familyRecord_def decodeObject_def member_string_def)
  then have "snd (revokeFamily ttl rt now ns f fb l) = revokeFamilyOf ttl rt now ns u f (l\<lparr>lr_families := lr_families l @ [f]\<rparr>)"
    using ne new by (simp add: revokeFamily_def)
  then show ?thesis
    using revokeFamilyOf_effect(2) [OF _ ttl, of X now g "l\<lparr>lr_families := lr_families l @ [f]\<rparr>"] ok by simp
qed

lemma revokeRefresh_after:
  assumes ok: "index_ok X ttl now g (lr_redis l)" and ttl: "0 < la_refresh_ttl a" "la_refresh_ttl a = ttl"
    and fam: "presentedFamily (la_refresh_hash a) now (lr_redis l) = family"
  defines "l1 \<equiv> (case family of None \<Rightarrow> l
      | Some f \<Rightarrow> snd (revokeFamily ttl (la_receipt_ttl a) now (la_now a) f (presentedUser (la_refresh_hash a) now (lr_redis l)) l))"
  shows "index_ok X ttl now g (lr_redis (revokeRefresh a now l))" "shrinks now (lr_redis l1) (lr_redis (revokeRefresh a now l))"
    "shrinks now (lr_redis l) (lr_redis (revokeRefresh a now l))"
proof -
  let ?h = "la_refresh_hash a" and ?u = "presentedUser (la_refresh_hash a) now (lr_redis l)"
  define pr where "pr = (case family of None \<Rightarrow> (None, l)
      | Some f \<Rightarrow> revokeFamily ttl (la_receipt_ttl a) now (la_now a) f ?u l)"
  define r2 where "r2 = (case (family, fst pr) of
      (Some f, Some u) \<Rightarrow> SET_EX now (LogoutReceipt ?h) (logoutReceipt u f) (la_receipt_ttl a) (lr_redis (snd pr))
    | _ \<Rightarrow> lr_redis (snd pr))"
  have l1: "snd pr = l1" by (simp add: pr_def l1_def split: option.split)
  have ok1: "index_ok X ttl now g (lr_redis l1)" and sh1: "shrinks now (lr_redis l) (lr_redis l1)"
    using ok ttl revokeFamily_effect [OF ok] by (auto simp: l1_def shrinks_refl split: option.split)
  have same: "same_index (lr_redis l1) r2"
    unfolding l1 [symmetric] r2_def by (auto split: option.split intro: same_index_steps(1))
  have ok3: "index_ok X ttl now g (DEL (Refresh ?h) r2)"
    by (rule index_DEL_refresh) (use ok1 in \<open>simp add: same_index_ok [OF same]\<close>)
  have sh3: "shrinks now (lr_redis l1) (DEL (Refresh ?h) r2)"
    by (rule shrinks_trans [OF shrinks_same [OF same] shrinks_steps(3)])
  have r: "lr_redis (revokeRefresh a now l) =
      (case ?u of None \<Rightarrow> DEL (Refresh ?h) r2 | Some u \<Rightarrow> SREM now (UserRefresh u) ?h (DEL (Refresh ?h) r2))"
    unfolding revokeRefresh_def Let_def fam r2_def pr_def ttl(2) by (simp split: option.split)
  show "index_ok X ttl now g (lr_redis (revokeRefresh a now l))"
    unfolding r using ok3 by (auto split: option.split intro: index_SREM)
  show a: "shrinks now (lr_redis l1) (lr_redis (revokeRefresh a now l))"
    unfolding r using sh3 by (auto split: option.split intro: shrinks_trans shrinks_steps(1))
  show "shrinks now (lr_redis l) (lr_redis (revokeRefresh a now l))" by (rule shrinks_trans [OF sh1 a])
qed

lemma same_access: "same_index (lr_redis l) (lr_redis (revokeAccess a now l))"
proof -
  let ?r1 = "DEL (Session (la_session a)) (lr_redis l)"
  have "same_index (lr_redis l) ?r1" by (rule same_index_steps(2)) simp
  moreover have "same_index ?r1 (SREM now (UserSessions (la_user a)) (la_session a) ?r1)" by (rule same_index_steps(3))
  ultimately show ?thesis
    by (auto simp: revokeAccess_def rememberSession_def Let_def intro!: same_index_trans [OF _ same_index_steps(1)]
        intro: same_index_trans)
qed

definition logoutAccessPart :: "logout_args \<Rightarrow> time \<Rightarrow> redis \<Rightarrow> logout_run" where
  "logoutAccessPart a now r =
     (let l0 = \<lparr>lr_redis = r, lr_sessions = [], lr_families = []\<rparr> in
      if la_family a = [] then l0
      else snd (revokeFamily (la_refresh_ttl a) (la_receipt_ttl a) now (la_now a) (la_family a) (Some (la_user a)) l0))"

lemma logoutScript_parts:
  "snd (logoutScript a now r) =
     (let l1 = logoutAccessPart a now r;
          l2 = (if la_refresh_hash a = [] then l1 else revokeRefresh a now l1) in
      lr_redis (if la_session a = [] then l2 else revokeAccess a now l2))"
  by (simp add: logoutScript_def logoutAccessPart_def Let_def)

lemma logoutAccessPart_effect:
  assumes "index_ok X ttl now g r" "0 < ttl" "la_refresh_ttl a = ttl"
  shows "index_ok X ttl now g (lr_redis (logoutAccessPart a now r))" "shrinks now r (lr_redis (logoutAccessPart a now r))"
  using assms revokeFamily_effect [of X ttl now g "\<lparr>lr_redis = r, lr_sessions = [], lr_families = []\<rparr>"]
  by (auto simp: logoutAccessPart_def Let_def shrinks_refl)

lemma logoutScript_effect:
  assumes ok: "index_ok X ttl now g r" and ttl: "0 < ttl" "la_refresh_ttl a = ttl"
  shows "index_ok X ttl now g (snd (logoutScript a now r))" "shrinks now r (snd (logoutScript a now r))"
proof -
  let ?l1 = "logoutAccessPart a now r"
  have p: "0 < la_refresh_ttl a" using ttl by simp
  note a = logoutAccessPart_effect [OF ok ttl]
  note b = revokeRefresh_after [OF a(1) p ttl(2) refl]
  let ?l2 = "if la_refresh_hash a = [] then ?l1 else revokeRefresh a now ?l1"
  have ok2: "index_ok X ttl now g (lr_redis ?l2)" using a(1) b(1) by simp
  have sh2: "shrinks now r (lr_redis ?l2)" using a(2) b(3) by (auto intro: shrinks_trans)
  show "index_ok X ttl now g (snd (logoutScript a now r))"
    unfolding logoutScript_parts Let_def using ok2 by (simp add: same_index_ok [OF same_access])
  show "shrinks now r (snd (logoutScript a now r))"
    unfolding logoutScript_parts Let_def
    using sh2 by (auto intro: shrinks_trans [OF _ shrinks_same [OF same_access]])
qed

text \<open>The alias from a consumed token to its family is not theirs to change.\<close>

lemma fold_alias:
  "(\<And>x r. rs_str (F x r) (RefreshFamilyFor h) = rs_str r (RefreshFamilyFor h)) \<Longrightarrow>
   rs_str (fold F xs r) (RefreshFamilyFor h) = rs_str r (RefreshFamilyFor h)"
  by (induction xs arbitrary: r) auto

lemma remember_alias: "rs_str (lr_redis (rememberSession ttl now i l)) (RefreshFamilyFor h) = rs_str (lr_redis l) (RefreshFamilyFor h)"
  by (simp add: rememberSession_def)

lemma revokeFamilyOf_alias:
  "rs_str (lr_redis (revokeFamilyOf ttl rt now ns u f l)) (RefreshFamilyFor h) = rs_str (lr_redis l) (RefreshFamilyFor h)"
proof -
  have "rs_str (lr_redis (fold (revokeFamilySession ttl now u) ids l)) (RefreshFamilyFor h) = rs_str (lr_redis l) (RefreshFamilyFor h)"
    for ids l by (induction ids arbitrary: l) (auto simp: revokeFamilySession_def remember_alias)
  moreover have "rs_str (fold (revokeFamilyToken rt now u f) hs r) (RefreshFamilyFor h) = rs_str r (RefreshFamilyFor h)" for hs r
    by (rule fold_alias) (simp add: revokeFamilyToken_def)
  ultimately show ?thesis by (simp add: revokeFamilyOf_def revokeFamilyTokens_def revokeFamilySessions_def Let_def)
qed

lemma revokeFamily_alias:
  "rs_str (lr_redis (snd (revokeFamily ttl rt now ns f fb l))) (RefreshFamilyFor h) = rs_str (lr_redis l) (RefreshFamilyFor h)"
  by (cases rule: revokeFamily_cases [of ttl rt now ns f fb l]) (simp_all add: revokeFamilyOf_alias)

lemma logoutScript_alias: "rs_str (snd (logoutScript a now r)) (RefreshFamilyFor h) = rs_str r (RefreshFamilyFor h)"
proof -
  have "rs_str (lr_redis (revokeRefresh a now l)) (RefreshFamilyFor h) = rs_str (lr_redis l) (RefreshFamilyFor h)" for l
    by (auto simp: revokeRefresh_def Let_def revokeFamily_alias split: option.split)
  moreover have "rs_str (lr_redis (revokeAccess a now l)) (RefreshFamilyFor h) = rs_str (lr_redis l) (RefreshFamilyFor h)" for l
    by (simp add: revokeAccess_def Let_def remember_alias)
  ultimately show ?thesis by (simp add: logoutScript_parts logoutAccessPart_def Let_def revokeFamily_alias)
qed

lemma session_fold_families:
  "lr_families (fold (revokeFamilySession ttl now u) ids l) = lr_families l"
  by (induction ids arbitrary: l) (simp_all add: revokeFamilySession_def rememberSession_def)

text \<open>
  Logging out with a live refresh token ends its family, also when an access token of the same or
  of another family is presented with it.
\<close>

lemma logoutScript_fences:
  assumes ok: "index_ok {} ttl now g r" and ttl: "0 < ttl" "la_refresh_ttl a = ttl"
    and live: "refresh_at now r (la_refresh_hash a) (refreshRecord u v f) e"
    and ne: "la_refresh_hash a \<noteq> []" "u \<noteq> []" "f \<noteq> []"
    and al: "GET now (RefreshFamilyFor (la_refresh_hash a)) r = None \<or>
      GET now (RefreshFamilyFor (la_refresh_hash a)) r = Some (Text f)"
  shows "dead now (snd (logoutScript a now r)) f"
proof -
  let ?h = "la_refresh_hash a" and ?l1 = "logoutAccessPart a now r"
  have p: "0 < la_refresh_ttl a" using ttl by simp
  note a1 = logoutAccessPart_effect [OF ok ttl]
  from index_record [OF ok live] obtain x where lx: "refresh_at now r ?h (refreshRecord u v f) (Some x)" by auto
  then obtain y where fam: "family_at now r f (familyRecord ''active'' u) (Some y)" by (rule index_family [OF ok]) simp
  have fh: "gh_family g ?h = Some f" by (rule index_tokens(5) [OF ok lx])
  note b = revokeRefresh_after [OF a1(1) p ttl(2) refl]
  have d2: "dead now (lr_redis (revokeRefresh a now ?l1)) f"
  proof (cases "la_family a = f")
    case True
    have "dead now (lr_redis ?l1) f"
      using revokeFamily_fences [of "{}" ttl now g "\<lparr>lr_redis = r, lr_sessions = [], lr_families = []\<rparr>" f u "Some y"] ok ttl fam ne True
      by (simp add: logoutAccessPart_def Let_def)
    with b(3) show ?thesis by (rule shrinks_dead)
  next
    case False
    have o: "refresh_at now (lr_redis ?l1) ?h t e = refresh_at now r ?h t e"
      "family_at now (lr_redis ?l1) f t e = family_at now r f t e" for t e
      using revokeFamily_others [of "{}" ttl now g "\<lparr>lr_redis = r, lr_sessions = [], lr_families = []\<rparr>"] ok ttl fh False
      by (simp_all add: logoutAccessPart_def Let_def)
    have n: "f \<notin> set (lr_families ?l1)" using False
      by (auto simp: logoutAccessPart_def revokeFamily_def revokeFamilyOf_def revokeFamilySessions_def session_fold_families Let_def
          split: option.splits if_splits)
    have g1: "GET now (Refresh ?h) (lr_redis ?l1) = Some (refreshRecord u v f)" using lx o(1) by (auto simp: refresh_at_GET)
    have "GET now (RefreshFamilyFor ?h) (lr_redis ?l1) = GET now (RefreshFamilyFor ?h) r"
      by (simp add: GET_def look_def logoutAccessPart_def Let_def revokeFamily_alias)
    with al g1 ne have "presentedFamily ?h now (lr_redis ?l1) = Some f"
      by (auto simp: presentedFamily_def Let_def first_some_def stored_raw_def decodeRefresh_def refreshRecord_def decodeObject_def
          member_string_def nonempty_def)
    with b(2) have "shrinks now (lr_redis (snd (revokeFamily ttl (la_receipt_ttl a) now (la_now a) f
        (presentedUser ?h now (lr_redis ?l1)) ?l1))) (lr_redis (revokeRefresh a now ?l1))" by simp
    moreover have "dead now (lr_redis (snd (revokeFamily ttl (la_receipt_ttl a) now (la_now a) f
        (presentedUser ?h now (lr_redis ?l1)) ?l1))) f"
      by (rule revokeFamily_fences [OF a1(1) ttl(1), of f u "Some y"]) (use fam o(2) ne n in simp_all)
    ultimately show ?thesis by (rule shrinks_dead)
  qed
  then show ?thesis
    using ne(1) by (auto simp: logoutScript_parts Let_def same_index_dead [OF same_access])
qed

section \<open>Ending every session of a user\<close>

lemma DEL_refresh_fold [simp]:
  "refresh_at now (fold (\<lambda>h. DEL (Refresh h)) hs r) h t e \<longleftrightarrow> h \<notin> set hs \<and> refresh_at now r h t e"
  "family_at now (fold (\<lambda>h. DEL (Refresh h)) hs r) f t e = family_at now r f t e"
  "rs_set (fold (\<lambda>h. DEL (Refresh h)) hs r) = rs_set r"
  by (induction hs arbitrary: r) auto

lemma index_DEL_refresh_fold: "index_ok X ttl now g r \<Longrightarrow> index_ok X ttl now g (fold (\<lambda>h. DEL (Refresh h)) hs r)"
  by (induction hs arbitrary: r) (auto intro: index_DEL_refresh)

lemma fenceFamily_effect:
  assumes ok: "index_ok X ttl now g r" and ttl: "0 < ttl" and nr: "no_refresh now r f"
  shows "index_ok X ttl now g (fenceFamily ttl now u f r)" "not_active now (fenceFamily ttl now u f r) f"
    "shrinks now r (fenceFamily ttl now u f r)"
proof -
  let ?r1 = "SET_EX now (RefreshFamily f) (familyRecord ''revoked'' u) ttl r"
  have same: "same_index ?r1 (ZDEL f ?r1)" by (rule same_index_steps(9))
  have nr1: "no_refresh now ?r1 f" using nr by (simp add: no_refresh_def)
  have "index_ok X ttl now g ?r1" by (rule index_unfence [OF index_fence [OF ok ttl] nr1])
  then have ok2: "index_ok X ttl now g (ZDEL f ?r1)" by (simp add: same_index_ok [OF same])
  show "index_ok X ttl now g (fenceFamily ttl now u f r)"
    unfolding fenceFamily_def by (rule index_SDEL [OF ok2]) (use nr1 in \<open>auto simp: no_refresh_def same_index_at [OF same]\<close>)
  show "not_active now (fenceFamily ttl now u f r) f"
    by (simp add: fenceFamily_def not_active_def same_index_at [OF same] family_at_SET [OF ttl])
  show "shrinks now r (fenceFamily ttl now u f r)"
    unfolding fenceFamily_def
    by (rule shrinks_trans [OF shrinks_trans [OF shrinks_steps(4) [OF ttl] shrinks_same [OF same]] shrinks_steps(2)])
qed

lemma fence_fold_effect:
  assumes "index_ok X ttl now g r" "0 < ttl" "\<forall>f\<in>set fs. no_refresh now r f"
  shows "index_ok X ttl now g (fold (fenceFamily ttl now u) fs r) \<and>
    shrinks now r (fold (fenceFamily ttl now u) fs r) \<and>
    (\<forall>f\<in>set fs. not_active now (fold (fenceFamily ttl now u) fs r) f)"
  using assms
proof (induction fs arbitrary: r)
  case Nil
  then show ?case by (simp add: shrinks_refl)
next
  case (Cons f fs)
  let ?r = "fenceFamily ttl now u f r"
  note a = fenceFamily_effect [OF Cons.prems(1,2), of f u]
  have ok: "index_ok X ttl now g ?r" and na: "not_active now ?r f" and sh: "shrinks now r ?r" using a Cons.prems(3) by auto
  have "\<forall>f\<in>set fs. no_refresh now ?r f" using Cons.prems(3) shrinks_no_refresh [OF sh] by simp
  from Cons.IH [OF ok Cons.prems(2) this] have IH: "index_ok X ttl now g (fold (fenceFamily ttl now u) fs ?r)"
    "shrinks now ?r (fold (fenceFamily ttl now u) fs ?r)" "\<forall>f\<in>set fs. not_active now (fold (fenceFamily ttl now u) fs ?r) f"
    by auto
  moreover have "not_active now (fold (fenceFamily ttl now u) fs ?r) f"
    by (rule shrinks_not_active [OF IH(2) na])
  ultimately show ?case using sh by (auto intro: shrinks_trans)
qed

text \<open>No token of the user is left, and without an exception no family of theirs is active.\<close>

definition user_out :: "time \<Rightarrow> redis \<Rightarrow> uuid \<Rightarrow> bool" where
  "user_out now r u \<longleftrightarrow> (\<forall>h v f e. \<not> refresh_at now r h (refreshRecord u v f) e) \<and>
     (\<forall>f e. \<not> family_at now r f (familyRecord ''active'' u) e)"

lemma revokeAllScript_effect:
  assumes ok: "index_ok {} ttl now g r" and ttl: "0 < ttl"
  shows "index_ok {} ttl now g (snd (revokeAllScript u j ttl now r))" "shrinks now r (snd (revokeAllScript u j ttl now r))"
    "\<not> refresh_at now (snd (revokeAllScript u j ttl now r)) h (refreshRecord u v f) e"
    "j = [] \<Longrightarrow> user_out now (snd (revokeAllScript u j ttl now r)) u"
proof -
  define r1 where "r1 = fold (\<lambda>i r. if i = j then r else DEL (Session i) r) (SMEMBERS now (UserSessions u) r) r"
  define r2 where "r2 = fold (\<lambda>h. DEL (Refresh h)) (SMEMBERS now (UserRefresh u) r1) r1"
  define r3 where "r3 = fold (fenceFamily ttl now u) (SMEMBERS now (UserRefreshFamilies u) r2) r2"
  have same1: "same_index r r1"
    unfolding r1_def by (rule same_index_fold) (simp add: same_index_steps(2))
  have ok1: "index_ok {} ttl now g r1" using ok by (simp add: same_index_ok [OF same1])
  have ok2: "index_ok {} ttl now g r2" by (simp add: r2_def index_DEL_refresh_fold ok1)
  have sh2: "shrinks now r r2"
    by (rule shrinks_trans [OF shrinks_same [OF same1]]) (simp add: r2_def shrinks_def)
  have none: "\<not> refresh_at now r2 h (refreshRecord u v f) e" for h v f e
  proof
    assume a: "refresh_at now r2 h (refreshRecord u v f) e"
    then have b: "h \<notin> set (SMEMBERS now (UserRefresh u) r1)" "refresh_at now r1 h (refreshRecord u v f) e" by (simp_all add: r2_def)
    from index_record [OF ok1 b(2)] obtain x where "refresh_at now r1 h (refreshRecord u v f) (Some x)" by auto
    from index_listed_member(2) [OF ok1 this] b(1) show False by simp
  qed
  have nr: "\<forall>f\<in>set (SMEMBERS now (UserRefreshFamilies u) r2). no_refresh now r2 f"
    unfolding no_refresh_def
  proof (intro ballI allI notI)
    fix f h u' v e
    assume f: "f \<in> set (SMEMBERS now (UserRefreshFamilies u) r2)" and a: "refresh_at now r2 h (refreshRecord u' v f) e"
    from index_record [OF ok2 a] obtain x where "refresh_at now r2 h (refreshRecord u' v f) (Some x)" by auto
    from index_tokens(6) [OF ok2 this] index_owner [OF ok2 f] have "u' = u" by simp
    with a none show False by simp
  qed
  from fence_fold_effect [OF ok2 ttl nr, of u]
  have ok3: "index_ok {} ttl now g r3" and sh3: "shrinks now r2 r3"
    and na3: "\<forall>f\<in>set (SMEMBERS now (UserRefreshFamilies u) r2). not_active now r3 f" by (simp_all add: r3_def)
  have none3: "\<not> refresh_at now r3 h (refreshRecord u v f) e" for h v f e using none shrinks_refreshD [OF sh3] by blast
  have noact: "\<not> family_at now r3 f (familyRecord ''active'' u) e" for f e
  proof
    assume a: "family_at now r3 f (familyRecord ''active'' u) e"
    with sh3 have "family_at now r2 f (familyRecord ''active'' u) e" by (simp add: shrinks_def)
    from index_active(2) [OF ok2 this] na3 a show False by (auto simp: not_active_def)
  qed
  let ?out = "snd (revokeAllScript u j ttl now r)"
  define r4 where "r4 = (if j = [] then r3 else r2)"
  have ok4: "index_ok {} ttl now g r4" "shrinks now r r4" "\<forall>h v f e. \<not> refresh_at now r4 h (refreshRecord u v f) e"
    using ok3 ok2 sh2 none none3 shrinks_trans [OF sh2 sh3] by (auto simp: r4_def)
  define r5 where "r5 = SDEL (UserRefresh u) (SDEL (UserSessions u) r4)"
  have s5: "same_index r4 (SDEL (UserSessions u) r4)" by (rule same_index_steps(5))
  have ok5: "index_ok {} ttl now g r5"
    unfolding r5_def by (rule index_SDEL) (use ok4 in \<open>auto simp: same_index_ok [OF s5]\<close>)
  have at5: "refresh_at now r5 h t e = refresh_at now r4 h t e" "family_at now r5 f t e = family_at now r4 f t e" for h t e f
    by (simp_all add: r5_def)
  have out: "?out = (if j = [] then SDEL (UserRefreshFamilies u) r5 else SADD now (UserSessions u) j r5)"
    by (simp add: revokeAllScript_def Let_def r5_def r4_def r3_def r2_def r1_def)
  have "index_ok {} ttl now g (SDEL (UserRefreshFamilies u) r5)" if "j = []"
    by (rule index_SDEL [OF ok5]) (use ok4(3) noact that in \<open>auto simp: at5 r4_def\<close>)
  moreover have "index_ok {} ttl now g (SADD now (UserSessions u) j r5)"
    using ok5 by (simp add: same_index_ok [OF same_index_steps(4)])
  ultimately show "index_ok {} ttl now g ?out" by (simp add: out)
  show "shrinks now r ?out" using ok4(2) by (auto simp: out shrinks_def at5)
  show "\<not> refresh_at now ?out h (refreshRecord u v f) e" using ok4(3) by (simp add: out at5)
  show "user_out now ?out u" if "j = []"
    unfolding out user_out_def using that ok4(3) noact by (simp add: at5 r4_def)
qed

section \<open>Writing a token\<close>

text \<open>The set commands, entry by entry.\<close>

definition live_entry :: "time \<Rightarrow> ('v \<times> time option) option \<Rightarrow> 'v option" where
  "live_entry now x = (case x of None \<Rightarrow> None | Some (v, e) \<Rightarrow> if unexpired now e then Some v else None)"

definition sadd_entry :: "time \<Rightarrow> string \<Rightarrow> (string list \<times> time option) option \<Rightarrow> (string list \<times> time option) option" where
  "sadd_entry now m x = (case live_entry now x of
       None \<Rightarrow> Some ([m], None)
     | Some xs \<Rightarrow> if m \<in> set xs then x else Some (xs @ [m], snd (the x)))"

definition ttl_entry :: "time \<Rightarrow> int \<Rightarrow> ('v \<times> time option) option \<Rightarrow> ('v \<times> time option) option" where
  "ttl_entry now ttl x = (case live_entry now x of None \<Rightarrow> x | Some v \<Rightarrow> Some (v, expires now ttl))"

lemma look_entry: "look now T k = live_entry now (T k)"
  by (simp add: look_def live_entry_def)

lemma set_pointwise:
  "rs_set (SADD now k m r) k' = (if k' = k then sadd_entry now m (rs_set r k) else rs_set r k')"
  "rs_set (SEXPIRE now k ttl r) k' = (if k' = k then ttl_entry now ttl (rs_set r k) else rs_set r k')"
  by (auto simp: SADD_def SMEMBERS_def put_def sadd_entry_def SEXPIRE_def set_ttl_def ttl_entry_def look_entry split: option.splits)

lemma SMEMBERS_SEXPIRE: "0 < ttl \<Longrightarrow> SMEMBERS now k (SEXPIRE now k' ttl r) = SMEMBERS now k r"
  by (simp add: SMEMBERS_def SEXPIRE_def look_set_ttl)

lemma index_SADD:
  assumes ok: "index_ok X ttl now g r"
    and "\<And>u. k = UserRefreshFamilies u \<Longrightarrow> gh_owner g m = Some u" "\<And>f. k = RefreshFamilyTokens f \<Longrightarrow> gh_family g m = Some f"
  shows "index_ok X ttl now g (SADD now k m r)"
  using ok
  by (rule index_shrink)
    (use assms in \<open>auto simp: SMEMBERS_SADD listed_def intro: covers_SADD index_owner [OF ok] index_token_family [OF ok] split: if_splits\<close>)

lemma index_SEXPIRE:
  assumes ok: "index_ok X ttl now g r" and "0 < ttl"
  shows "index_ok X ttl now g (SEXPIRE now k ttl r)"
  using ok
  by (rule index_shrink)
    (use assms in \<open>auto simp: SMEMBERS_SEXPIRE listed_def intro: covers_SEXPIRE index_owner [OF ok] index_token_family [OF ok]\<close>)

lemma index_SET_family:
  assumes ok: "index_ok {} ttl now g r" and ttl: "0 < ttl" and own: "gh_owner g f = Some u"
    and c: "covers (rs_set r) (UserRefreshFamilies u) f (now + 1000 * ttl)"
  shows "index_ok {} ttl now g (SET_EX now (RefreshFamily f) (familyRecord ''active'' u) ttl r)"
proof -
  let ?r = "SET_EX now (RefreshFamily f) (familyRecord ''active'' u) ttl r"
  have l: "listed g ?r h u f x = listed g r h u f x" for h u f x by (simp add: listed_def covers_def)
  have "refresh_ok {} ttl now g ?r"
    unfolding refresh_ok_def l
  proof (intro allI impI)
    fix h t e
    assume "refresh_at now ?r h t e"
    then have a: "refresh_at now r h t e" by simp
    with ok obtain u' v f' x y where b: "t = refreshRecord u' v f'" "e = Some x" "x \<le> now + 1000 * ttl" "listed g r h u' f' x"
      "family_at now r f' (familyRecord ''active'' u') (Some y)" "x \<le> y"
      unfolding index_ok_def refresh_ok_def by blast
    have "\<exists>y. family_at now ?r f' (familyRecord ''active'' u') (Some y) \<and> x \<le> y"
    proof (cases "f' = f")
      case True
      with b(4) own have "u' = u" by (simp add: listed_def)
      with True b(3) show ?thesis by (auto simp: family_at_SET [OF ttl] expires_def)
    qed (use b in \<open>auto simp: family_at_SET [OF ttl]\<close>)
    with b show "\<exists>u v f x. t = refreshRecord u v f \<and> e = Some x \<and> x \<le> now + 1000 * ttl \<and> listed g r h u f x \<and>
        (f \<in> {} \<or> (\<exists>y. family_at now ?r f (familyRecord ''active'' u) (Some y) \<and> x \<le> y))" by blast
  qed
  moreover have "families_ok ttl now g ?r"
    unfolding families_ok_def
  proof (intro allI impI)
    fix f' t e
    assume a: "family_at now ?r f' t e"
    show "(\<exists>u. t = familyRecord ''revoked'' u) \<or> (\<exists>u x. t = familyRecord ''active'' u \<and> e = Some x \<and> x \<le> now + 1000 * ttl \<and>
        gh_owner g f' = Some u \<and> covers (rs_set ?r) (UserRefreshFamilies u) f' x)"
    proof (cases "f' = f")
      case True
      with a own c show ?thesis by (auto simp: family_at_SET [OF ttl] expires_def)
    next
      case False
      with a have "family_at now r f' t e" by (simp add: family_at_SET [OF ttl])
      with ok show ?thesis unfolding index_ok_def families_ok_def by simp
    qed
  qed
  moreover have "owners_ok now g ?r" using ok by (simp add: index_ok_def owners_ok_def SMEMBERS_def)
  ultimately show ?thesis by (simp add: index_ok_def)
qed

lemma index_SET_refresh:
  assumes ok: "index_ok {} ttl now g r" and ttl: "0 < ttl" and l: "listed g r h u f (now + 1000 * ttl)"
    and fam: "family_at now r f (familyRecord ''active'' u) (expires now ttl)"
  shows "index_ok {} ttl now g (SET_EX now (Refresh h) (refreshRecord u v f) ttl r)"
proof -
  let ?r = "SET_EX now (Refresh h) (refreshRecord u v f) ttl r"
  have l': "listed g ?r h u f x = listed g r h u f x" for h u f x by (simp add: listed_def covers_def)
  have "refresh_ok {} ttl now g ?r"
    unfolding refresh_ok_def l'
  proof (intro allI impI)
    fix h' t e
    assume a: "refresh_at now ?r h' t e"
    show "\<exists>u v f x. t = refreshRecord u v f \<and> e = Some x \<and> x \<le> now + 1000 * ttl \<and> listed g r h' u f x \<and>
        (f \<in> {} \<or> (\<exists>y. family_at now ?r f (familyRecord ''active'' u) (Some y) \<and> x \<le> y))"
    proof (cases "h' = h")
      case True
      with a l fam show ?thesis by (auto simp: refresh_at_SET [OF ttl] expires_def)
    next
      case False
      with a have "refresh_at now r h' t e" by (simp add: refresh_at_SET [OF ttl])
      with ok show ?thesis unfolding index_ok_def refresh_ok_def by simp
    qed
  qed
  moreover have "families_ok ttl now g ?r" using ok by (simp add: index_ok_def families_ok_def)
  moreover have "owners_ok now g ?r" using ok by (simp add: index_ok_def owners_ok_def SMEMBERS_def)
  ultimately show ?thesis by (simp add: index_ok_def)
qed

text \<open>What a new token amounts to for the index.\<close>

definition addToken :: "int \<Rightarrow> time \<Rightarrow> string \<Rightarrow> uuid \<Rightarrow> int \<Rightarrow> string \<Rightarrow> redis \<Rightarrow> redis" where
  "addToken ttl now h u v f r =
     SET_EX now (Refresh h) (refreshRecord u v f) ttl
    (SET_EX now (RefreshFamily f) (familyRecord ''active'' u) ttl
    (SEXPIRE now (UserRefreshFamilies u) ttl (SADD now (UserRefreshFamilies u) f
    (SEXPIRE now (UserRefresh u) ttl (SADD now (UserRefresh u) h
    (SEXPIRE now (RefreshFamilyTokens f) ttl (SADD now (RefreshFamilyTokens f) h r)))))))"

definition knows :: "ghosts \<Rightarrow> string \<Rightarrow> uuid \<Rightarrow> string \<Rightarrow> bool" where
  "knows g h u f \<longleftrightarrow> gh_owner g h = Some u \<and> gh_family g h = Some f \<and> gh_owner g f = Some u \<and> h \<in> gh_created g"

lemma index_addToken:
  assumes ok: "index_ok {} ttl now g r" and ttl: "0 < ttl" and k: "knows g h u f"
  shows "index_ok {} ttl now g (addToken ttl now h u v f r)"
proof -
  define r1 where "r1 = SEXPIRE now (RefreshFamilyTokens f) ttl (SADD now (RefreshFamilyTokens f) h r)"
  define r2 where "r2 = SEXPIRE now (UserRefresh u) ttl (SADD now (UserRefresh u) h r1)"
  define r3 where "r3 = SEXPIRE now (UserRefreshFamilies u) ttl (SADD now (UserRefreshFamilies u) f r2)"
  let ?x = "now + 1000 * ttl"
  have kk: "gh_owner g h = Some u" "gh_family g h = Some f" "gh_owner g f = Some u" "h \<in> gh_created g"
    using k by (simp_all add: knows_def)
  have "index_ok {} ttl now g r1" unfolding r1_def by (intro index_SEXPIRE index_SADD ok ttl) (use kk in auto)
  then have "index_ok {} ttl now g r2" unfolding r2_def by (intro index_SEXPIRE index_SADD ttl) auto
  then have ok3: "index_ok {} ttl now g r3" unfolding r3_def by (intro index_SEXPIRE index_SADD ttl) (use kk in auto)
  have "covers (rs_set r1) (RefreshFamilyTokens f) h ?x" unfolding r1_def by (rule covers_add) simp
  moreover have "covers (rs_set r2) (UserRefresh u) h ?x" unfolding r2_def by (rule covers_add) simp
  moreover have c3: "covers (rs_set r3) (UserRefreshFamilies u) f ?x" unfolding r3_def by (rule covers_add) simp
  ultimately have l: "listed g r3 h u f ?x" using kk
    unfolding listed_def r3_def r2_def by (simp add: covers_def SADD_other SEXPIRE_other)
  have ok4: "index_ok {} ttl now g (SET_EX now (RefreshFamily f) (familyRecord ''active'' u) ttl r3)"
    by (rule index_SET_family [OF ok3 ttl kk(3) c3])
  have "index_ok {} ttl now g (SET_EX now (Refresh h) (refreshRecord u v f) ttl
      (SET_EX now (RefreshFamily f) (familyRecord ''active'' u) ttl r3))"
    by (rule index_SET_refresh [OF ok4 ttl]) (use l in \<open>auto simp: listed_def covers_def family_at_SET [OF ttl]\<close>)
  then show ?thesis by (simp add: addToken_def r3_def r2_def r1_def)
qed

lemma addToken_at:
  "0 < ttl \<Longrightarrow> refresh_at now (addToken ttl now h u v f r) h' t e \<longleftrightarrow>
     (if h' = h then t = refreshRecord u v f \<and> e = expires now ttl else refresh_at now r h' t e)"
  "0 < ttl \<Longrightarrow> family_at now (addToken ttl now h u v f r) f' t e \<longleftrightarrow>
     (if f' = f then t = familyRecord ''active'' u \<and> e = expires now ttl else family_at now r f' t e)"
  by (simp_all add: addToken_def refresh_at_SET family_at_SET)

lemma addToken_dead: "0 < ttl \<Longrightarrow> dead now r f' \<Longrightarrow> f' \<noteq> f \<Longrightarrow> dead now (addToken ttl now h u v f r) f'"
  by (auto simp: dead_def no_refresh_def not_active_def addToken_at)

lemma issueMulti_same:
  "same_index (addToken (refresh_ttl env) now (sc_refresh_hash c) u (sc_version c) (sc_family c) r) (issueMulti env now u c r)"
  by (auto simp: same_index_def addToken_def issueMulti_def issueIndex_def set_pointwise)

text \<open>The rotation before the old token goes.\<close>

lemma rotation_same:
  assumes "ra_new_record a = refreshRecord (ra_user a) v (ra_family a)" "ra_active a = familyRecord ''active'' (ra_user a)"
  shows "same_index (addToken (ra_refresh_ttl a) now (ra_new_hash a) (ra_user a) v (ra_family a) r)
    (indexRotation a now (writeRotation a now r))"
  using assms
  by (auto simp: same_index_def addToken_def indexRotation_def writeRotation_def bridgePrevious_def set_pointwise)

lemma dropExpiredSessions_same: "same_index r (dropExpiredSessions a now r)"
  unfolding dropExpiredSessions_def
  by (rule same_index_trans [OF same_index_fold same_index_steps(8)]) (rule same_index_steps(3))

section \<open>The rotation script\<close>

lemma rotateScript_cases:
  obtains (retry) "GET now (Refresh (ra_old_hash a)) r \<noteq> Some (ra_expected a)" "rotateScript a now r = (rotateRetry a now r, r)"
  | (fenced) raw where "GET now (Refresh (ra_old_hash a)) r = Some (ra_expected a)"
      "GET now (RefreshFamily (ra_family a)) r = Some raw" "\<not> familyActive (ra_user a) raw" "rotateScript a now r = (0, r)"
  | (full) "rotateScript a now r = (2, dropExpiredSessions a now r)"
  | (commit) "GET now (Refresh (ra_old_hash a)) r = Some (ra_expected a)"
      "\<And>raw. GET now (RefreshFamily (ra_family a)) r = Some raw \<Longrightarrow> familyActive (ra_user a) raw"
      "projectedSessions a now (dropExpiredSessions a now r) \<le> ra_max_sessions a"
      "rotateScript a now r = (1, commitRotation a now (dropExpiredSessions a now r))"
proof (cases "GET now (Refresh (ra_old_hash a)) r = Some (ra_expected a)")
  case True
  show thesis
  proof (cases "GET now (RefreshFamily (ra_family a)) r")
    case None
    with True that(3,4) show thesis
      by (cases "ra_max_sessions a < projectedSessions a now (dropExpiredSessions a now r)") (simp_all add: rotateScript_def Let_def)
  next
    case (Some raw)
    show thesis
    proof (cases "familyActive (ra_user a) raw")
      case act: True
      with True Some that(3,4) show thesis
        by (cases "ra_max_sessions a < projectedSessions a now (dropExpiredSessions a now r)") (simp_all add: rotateScript_def Let_def)
    qed (use True Some that(2) in \<open>simp add: rotateScript_def\<close>)
  qed
qed (use that(1) in \<open>simp add: rotateScript_def\<close>)

text \<open>The arguments the service builds for a token of family \<open>f\<close> that user \<open>u\<close> presented.\<close>

definition rotate_args_ok :: "int \<Rightarrow> ghosts \<Rightarrow> rotate_args \<Rightarrow> bool" where
  "rotate_args_ok ttl g a \<longleftrightarrow>
     (\<exists>v. ra_expected a = refreshRecord (ra_user a) v (ra_family a)) \<and>
     (\<exists>v. ra_new_record a = refreshRecord (ra_user a) v (ra_family a)) \<and>
     ra_active a = familyRecord ''active'' (ra_user a) \<and> ra_refresh_ttl a = ttl \<and>
     gh_owner g (ra_new_hash a) = Some (ra_user a) \<and> gh_family g (ra_new_hash a) = Some (ra_family a)"

definition create :: "string \<Rightarrow> ghosts \<Rightarrow> ghosts" where
  "create h g = g\<lparr>gh_created := insert h (gh_created g)\<rparr>"

lemma index_create: "index_ok X ttl now g r \<Longrightarrow> index_ok X ttl now (create h g) r"
  unfolding index_ok_def refresh_ok_def families_ok_def owners_ok_def listed_def create_def by simp blast

lemma commitRotation_effect:
  assumes ok: "index_ok {} ttl now g r" and ttl: "0 < ttl" and a: "rotate_args_ok ttl g a"
    and live: "GET now (Refresh (ra_old_hash a)) r = Some (ra_expected a)"
  defines "r' \<equiv> commitRotation a now (dropExpiredSessions a now r)"
  shows "index_ok {} ttl now (create (ra_new_hash a) g) r'"
    "refresh_at now r' h t e \<Longrightarrow> h = ra_new_hash a \<and> t = ra_new_record a \<or> refresh_at now r h t e"
    "ra_rotate a \<Longrightarrow> \<not> refresh_at now r' (ra_old_hash a) t e"
    "dead now r f \<Longrightarrow> dead now r' f"
proof -
  from a obtain v0 v where args: "ra_expected a = refreshRecord (ra_user a) v0 (ra_family a)"
    "ra_new_record a = refreshRecord (ra_user a) v (ra_family a)"
    "ra_active a = familyRecord ''active'' (ra_user a)" "ra_refresh_ttl a = ttl"
    "gh_owner g (ra_new_hash a) = Some (ra_user a)" "gh_family g (ra_new_hash a) = Some (ra_family a)"
    by (auto simp: rotate_args_ok_def)
  let ?g = "create (ra_new_hash a) g"
  from live args(1) obtain x where old: "refresh_at now r (ra_old_hash a) (refreshRecord (ra_user a) v0 (ra_family a)) (Some x)"
    using index_record [OF ok] by (metis refresh_at_GET)
  then have own: "gh_owner g (ra_family a) = Some (ra_user a)" by (rule index_tokens(6) [OF ok])
  define r1 where "r1 = dropExpiredSessions a now r"
  have s1: "same_index r r1" by (simp add: r1_def dropExpiredSessions_same)
  define r2 where "r2 = indexRotation a now (writeRotation a now r1)"
  define r2' where "r2' = addToken ttl now (ra_new_hash a) (ra_user a) v (ra_family a) r1"
  have s2: "same_index r2' r2" using rotation_same [OF args(2,3), of now r1] by (simp add: r2_def r2'_def args(4))
  have "knows ?g (ra_new_hash a) (ra_user a) (ra_family a)" using args own by (simp add: knows_def create_def)
  moreover have "index_ok {} ttl now ?g r1" using index_create [OF ok] by (simp add: same_index_ok [OF s1])
  ultimately have "index_ok {} ttl now ?g r2'" unfolding r2'_def by (intro index_addToken ttl)
  then have ok2: "index_ok {} ttl now ?g r2" by (simp add: same_index_ok [OF s2])
  define r3 where "r3 = consumeOld a now r2"
  have ok3: "index_ok {} ttl now ?g r3"
  proof (cases "ra_rotate a")
    case True
    have "index_ok {} ttl now ?g (DEL (Refresh (ra_old_hash a)) r2)" by (rule index_DEL_refresh [OF ok2])
    then have "index_ok {} ttl now ?g (SREM now (RefreshFamilyTokens (ra_family a)) (ra_old_hash a) (DEL (Refresh (ra_old_hash a)) r2))"
      by (rule index_SREM) auto
    then show ?thesis using True by (simp add: r3_def consumeOld_def) (rule index_SREM; auto)
  qed (use ok2 in \<open>simp add: r3_def consumeOld_def\<close>)
  have r': "r' = SET_EX now (RotationReceipt (ra_old_hash a)) (Text (ra_new_hash a)) (ra_receipt_ttl a) r3"
    by (simp add: r'_def commitRotation_def r3_def r2_def r1_def)
  have s4: "same_index r3 r'" unfolding r' by (rule same_index_steps(1)) simp
  show "index_ok {} ttl now ?g r'" using ok3 by (simp add: same_index_ok [OF s4])
  have at3: "refresh_at now r' h t e \<longleftrightarrow> (\<not> ra_rotate a \<or> h \<noteq> ra_old_hash a) \<and>
      (if h = ra_new_hash a then t = ra_new_record a \<and> e = expires now ttl else refresh_at now r h t e)" for h t e
    by (auto simp: same_index_at [OF s4] r3_def consumeOld_def same_index_at [OF s2] same_index_at [OF s1] r2'_def
        addToken_at [OF ttl] args(2))
  show "refresh_at now r' h t e \<Longrightarrow> h = ra_new_hash a \<and> t = ra_new_record a \<or> refresh_at now r h t e"
    by (auto simp: at3 split: if_splits)
  show "ra_rotate a \<Longrightarrow> \<not> refresh_at now r' (ra_old_hash a) t e" by (simp add: at3)
  show "dead now r' f" if d: "dead now r f"
  proof -
    have "f \<noteq> ra_family a" using d old by (auto simp: dead_def no_refresh_def)
    moreover have "dead now r1 f" using d by (simp add: same_index_dead [OF s1])
    ultimately have "dead now r2' f" unfolding r2'_def by (intro addToken_dead ttl)
    then have "dead now r2 f" by (simp add: same_index_dead [OF s2])
    moreover have "shrinks now r2 r3"
      by (auto simp: r3_def consumeOld_def shrinks_def)
    ultimately have "dead now r3 f" by (rule shrinks_dead [rotated])
    then show ?thesis by (simp add: same_index_dead [OF s4])
  qed
qed

lemma rotateScript_effect:
  assumes ok: "index_ok {} ttl now g r" and ttl: "0 < ttl" and a: "rotate_args_ok ttl g a"
    and g': "g' = (if fst (rotateScript a now r) = 1 then create (ra_new_hash a) g else g)"
  shows "index_ok {} ttl now g' (snd (rotateScript a now r))" "dead now r f \<Longrightarrow> dead now (snd (rotateScript a now r)) f"
proof -
  have "index_ok {} ttl now g' (snd (rotateScript a now r)) \<and> (dead now r f \<longrightarrow> dead now (snd (rotateScript a now r)) f)"
  proof (cases rule: rotateScript_cases [of now a r])
    case full
    with g' ok show ?thesis
      by (simp add: same_index_ok [OF dropExpiredSessions_same] same_index_dead [OF dropExpiredSessions_same])
  next
    case commit
    with g' commitRotation_effect(1,4) [OF ok ttl a] show ?thesis by simp
  next
    case retry
    with g' ok index_create [OF ok] show ?thesis by simp
  next
    case (fenced raw)
    with g' ok show ?thesis by simp
  qed
  then show "index_ok {} ttl now g' (snd (rotateScript a now r))" "dead now r f \<Longrightarrow> dead now (snd (rotateScript a now r)) f"
    by simp_all
qed

text \<open>A token that is not live answers 1 only to the very rotation that consumed it.\<close>

lemma rotateScript_one:
  assumes "fst (rotateScript a now r) = 1"
  shows "GET now (Refresh (ra_old_hash a)) r = Some (ra_expected a) \<or>
    GET now (RotationReceipt (ra_old_hash a)) r = Some (Text (ra_new_hash a)) \<and>
    GET now (Refresh (ra_new_hash a)) r = Some (ra_new_record a) \<and> snd (rotateScript a now r) = r"
  using assms
  by (cases rule: rotateScript_cases [of now a r]) (auto simp: rotateRetry_def split: if_splits option.splits)

text \<open>A dead family refuses.\<close>

lemma rotateScript_dead:
  assumes a: "rotate_args_ok ttl g a" and d: "dead now r (ra_family a)"
  shows "rotateScript a now r = (0, r)"
proof -
  from a obtain v0 v where args: "ra_expected a = refreshRecord (ra_user a) v0 (ra_family a)"
    "ra_new_record a = refreshRecord (ra_user a) v (ra_family a)" by (auto simp: rotate_args_ok_def)
  have "GET now (Refresh h) r \<noteq> Some (refreshRecord u v (ra_family a))" for h u v
    using d by (simp add: dead_def no_refresh_def refresh_at_GET)
  then show ?thesis by (auto simp: rotateScript_def rotateRetry_def args split: option.split)
qed

text \<open>Time only removes keys.\<close>

lemma index_later:
  assumes ok: "index_ok X ttl now g r" and n: "now \<le> now'"
  shows "index_ok X ttl now' g r" "dead now r f \<Longrightarrow> dead now' r f"
proof -
  have at: "refresh_at now' r h t e \<Longrightarrow> refresh_at now r h t e" "family_at now' r f t e \<Longrightarrow> family_at now r f t e" for h t e f
    using n by (auto simp: refresh_at_def family_at_def intro: unexpired_later)
  have mem: "set (SMEMBERS now' k r) \<subseteq> set (SMEMBERS now k r)" for k
    using look_later [OF _ n, of "rs_set r" k] by (cases "look now' (rs_set r) k") (simp_all add: SMEMBERS_def)
  have "refresh_ok X ttl now' g r"
    unfolding refresh_ok_def
  proof (intro allI impI)
    fix h t e
    assume a: "refresh_at now' r h t e"
    with ok obtain u v f x where b: "t = refreshRecord u v f" "e = Some x" "x \<le> now + 1000 * ttl" "listed g r h u f x"
      "f \<in> X \<or> (\<exists>y. family_at now r f (familyRecord ''active'' u) (Some y) \<and> x \<le> y)"
      using at(1) unfolding index_ok_def refresh_ok_def by blast
    have "now' < x" using a b(2) by (simp add: refresh_at_def unexpired_def)
    then have "f \<in> X \<or> (\<exists>y. family_at now' r f (familyRecord ''active'' u) (Some y) \<and> x \<le> y)"
      using b(5) by (auto simp: family_at_def unexpired_def)
    with b n show "\<exists>u v f x. t = refreshRecord u v f \<and> e = Some x \<and> x \<le> now' + 1000 * ttl \<and> listed g r h u f x \<and>
        (f \<in> X \<or> (\<exists>y. family_at now' r f (familyRecord ''active'' u) (Some y) \<and> x \<le> y))" by fastforce
  qed
  moreover have "families_ok ttl now' g r"
    unfolding families_ok_def
  proof (intro allI impI)
    fix f t e
    assume "family_at now' r f t e"
    then have "family_at now r f t e" by (rule at(2))
    with ok have "(\<exists>u. t = familyRecord ''revoked'' u) \<or> (\<exists>u x. t = familyRecord ''active'' u \<and> e = Some x \<and>
        x \<le> now + 1000 * ttl \<and> gh_owner g f = Some u \<and> covers (rs_set r) (UserRefreshFamilies u) f x)"
      unfolding index_ok_def families_ok_def by blast
    with n show "(\<exists>u. t = familyRecord ''revoked'' u) \<or> (\<exists>u x. t = familyRecord ''active'' u \<and> e = Some x \<and>
        x \<le> now' + 1000 * ttl \<and> gh_owner g f = Some u \<and> covers (rs_set r) (UserRefreshFamilies u) f x)" by fastforce
  qed
  moreover have "owners_ok now' g r" using ok mem unfolding index_ok_def owners_ok_def by blast
  ultimately show "index_ok X ttl now' g r" by (simp add: index_ok_def)
  show "dead now' r f" if "dead now r f" using that at unfolding dead_def no_refresh_def not_active_def by blast
qed

end
