(* ===== verification/SessionRuns.thy ===== *)
theory SessionRuns
  imports SessionIndex AuthGuard
begin

text \<open>
  Every interleaving of the session operations of many requests as a step relation. One rotation is
  two kinds of step, drawing the new credentials and running the script, so that anything can happen
  between what \<open>/refresh\<close> read and the moment its script reaches Redis, and between two attempts.
\<close>

section \<open>Configurations and steps\<close>

text \<open>
  The clock, the state, what is known of each refresh hash ever drawn, and the arguments of each
  rotation begun, by its new hash.
\<close>

record auth_cfg =
  cf_now :: time
  cf_auth :: auth_state
  cf_ghosts :: ghosts
  cf_args :: "string \<rightharpoonup> rotate_args"

definition users_grow :: "user_account list \<Rightarrow> user_account list \<Rightarrow> bool" where
  "users_grow us us' \<longleftrightarrow> (\<forall>i row. t_find ac_id i us = Some row \<longrightarrow>
     (\<exists>row'. t_find ac_id i us' = Some row' \<and> ac_version row \<le> ac_version row'))"

definition session_key :: "str_key \<Rightarrow> bool" where
  "session_key k \<longleftrightarrow> (case k of
       Session _ \<Rightarrow> True | SessionRevoked _ \<Rightarrow> True | SessionFamily _ \<Rightarrow> True | Refresh _ \<Rightarrow> True | RefreshFamily _ \<Rightarrow> True
     | RefreshFamilyFor _ \<Rightarrow> True | RotationReceipt _ \<Rightarrow> True | LogoutReceipt _ \<Rightarrow> True | _ \<Rightarrow> False)"

definition draw :: "string \<Rightarrow> uuid \<Rightarrow> string \<Rightarrow> int \<Rightarrow> ghosts \<Rightarrow> ghosts" where
  "draw h u f v g = g\<lparr>gh_owner := (gh_owner g)(h \<mapsto> u), gh_family := (gh_family g)(h \<mapsto> f),
     gh_version := (gh_version g)(h \<mapsto> v)\<rparr>"

text \<open>
  \<open>issue\<close> and \<open>begin\<close> draw a refresh token whose hash was never drawn before; \<open>begin\<close> is the part of
  \<open>rotateRefreshSession\<close> before its script, for a record that \<open>/refresh\<close> read at some time, and
  \<open>attempt\<close> one run of the script. \<open>other\<close> is everything outside the session service: changes of
  accounts that keep the accounts and do not lower a session version, of other tables and of other
  Redis keys.
\<close>

inductive auth_step :: "'t auth_env \<Rightarrow> auth_cfg \<Rightarrow> auth_cfg \<Rightarrow> bool" for env where
  tick: "cf_now c \<le> n \<Longrightarrow> auth_step env c (c\<lparr>cf_now := n\<rparr>)"
| issue: "h = sha256 env (fr_refresh ids) \<Longrightarrow> gh_owner (cf_ghosts c) h = None \<Longrightarrow>
    issueSession env (cf_now c) d ids u role ver (cf_auth c) = (r, s') \<Longrightarrow>
    t_find ac_id u (au_users (cf_auth c)) = Some row \<Longrightarrow>
    auth_step env c (c\<lparr>cf_auth := s', cf_ghosts := create h (draw h u h (ac_version row) (cf_ghosts c))\<rparr>)"
| start: "h = sha256 env (fr_refresh ids) \<Longrightarrow> gh_owner (cf_ghosts c) h = None \<Longrightarrow>
    ri_expected i = refreshRecord (ri_user i) v0 (ri_family i) \<Longrightarrow>
    gh_owner (cf_ghosts c) (ri_old_hash i) = Some (ri_user i) \<Longrightarrow>
    gh_family (cf_ghosts c) (ri_old_hash i) = Some (ri_family i) \<Longrightarrow>
    prepareSessionCredentials env (cf_now c) ids (ri_user i) (ri_role i) (Some (ri_version i)) (Some (ri_family i)) (cf_auth c)
      = (Inr session, s') \<Longrightarrow>
    auth_step env c (c\<lparr>cf_ghosts := draw h (ri_user i) (ri_family i) (sc_version session) (cf_ghosts c),
      cf_args := (cf_args c)(h \<mapsto> rotateArguments env (cf_now c) i previous session)\<rparr>)"
| attempt: "cf_args c h = Some a \<Longrightarrow>
    redis_eval d (rotateScript a (cf_now c)) (cf_auth c) = (r, s') \<Longrightarrow>
    g' = (if d \<noteq> LostBefore \<and> fst (rotateScript a (cf_now c) (au_redis (cf_auth c))) = 1
      then create h (cf_ghosts c) else cf_ghosts c) \<Longrightarrow>
    auth_step env c (c\<lparr>cf_auth := s', cf_ghosts := g'\<rparr>)"
| logout: "revokePresentedSessionCredentials env (cf_now c) d access refresh (cf_auth c) = (r, s') \<Longrightarrow>
    auth_step env c (c\<lparr>cf_auth := s'\<rparr>)"
| revoke_all: "revokeAllUserSessions env (cf_now c) d u exceptJti strict pub (cf_auth c) = (r, s') \<Longrightarrow>
    auth_step env c (c\<lparr>cf_auth := s'\<rparr>)"
| revoke_one: "revokeSession env (cf_now c) d jti u (cf_auth c) = (r, s') \<Longrightarrow>
    auth_step env c (c\<lparr>cf_auth := s'\<rparr>)"
| revoke_token: "revokeRefreshToken env (cf_now c) d t u (cf_auth c) = (r, s') \<Longrightarrow>
    auth_step env c (c\<lparr>cf_auth := s'\<rparr>)"
| other: "users_grow (au_users (cf_auth c)) (au_users s') \<Longrightarrow>
    (\<And>k. session_key k \<Longrightarrow> rs_str (au_redis s') k = rs_str (au_redis (cf_auth c)) k) \<Longrightarrow>
    rs_set (au_redis s') = rs_set (au_redis (cf_auth c)) \<Longrightarrow>
    rs_zset (au_redis s') = rs_zset (au_redis (cf_auth c)) \<Longrightarrow>
    auth_step env c (c\<lparr>cf_auth := s'\<rparr>)"

definition auth_init :: "auth_cfg \<Rightarrow> bool" where
  "auth_init c \<longleftrightarrow> au_redis (cf_auth c) = redis_empty \<and> cf_args c = Map.empty \<and>
     cf_ghosts c = \<lparr>gh_owner = Map.empty, gh_family = Map.empty, gh_version = Map.empty, gh_created = {}\<rparr>"

section \<open>The invariant\<close>

definition args_ok :: "'t auth_env \<Rightarrow> auth_cfg \<Rightarrow> bool" where
  "args_ok env c \<longleftrightarrow> (\<forall>h a. cf_args c h = Some a \<longrightarrow>
     ra_new_hash a = h \<and> rotate_args_ok (refresh_ttl env) (cf_ghosts c) a \<and>
     ra_rotate a = REFRESH_ROTATION_ENABLED env \<and> ra_max_sessions a = MAX_REFRESH_FAMILY_SESSIONS \<and>
     gh_family (cf_ghosts c) (ra_old_hash a) = Some (ra_family a) \<and>
     ra_new_record a = refreshRecord (ra_user a) (the (gh_version (cf_ghosts c) h)) (ra_family a))"

definition aliases_ok :: "time \<Rightarrow> ghosts \<Rightarrow> redis \<Rightarrow> bool" where
  "aliases_ok now g r \<longleftrightarrow> (\<forall>h t. GET now (RefreshFamilyFor h) r = Some t \<longrightarrow> (\<exists>f. t = Text f \<and> gh_family g h = Some f))"

text \<open>Every token keeps the session version it was drawn under, and no version is ahead of its account.\<close>

definition versions_ok :: "auth_cfg \<Rightarrow> bool" where
  "versions_ok c \<longleftrightarrow>
     (\<forall>h u v f e. refresh_at (cf_now c) (au_redis (cf_auth c)) h (refreshRecord u v f) e \<longrightarrow>
        gh_version (cf_ghosts c) h = Some v) \<and>
     (\<forall>h u. gh_owner (cf_ghosts c) h = Some u \<longrightarrow> (\<exists>v row. gh_version (cf_ghosts c) h = Some v \<and>
        t_find ac_id u (au_users (cf_auth c)) = Some row \<and> v \<le> ac_version row))"

text \<open>With rotation enabled a consumed token is gone, and no two rotations consumed the same one.\<close>

definition successors_ok :: "auth_cfg \<Rightarrow> bool" where
  "successors_ok c \<longleftrightarrow> (\<forall>h a. cf_args c h = Some a \<longrightarrow> h \<in> gh_created (cf_ghosts c) \<longrightarrow>
     ra_old_hash a \<in> gh_created (cf_ghosts c) \<and>
     (ra_rotate a \<longrightarrow> (\<forall>t e. \<not> refresh_at (cf_now c) (au_redis (cf_auth c)) (ra_old_hash a) t e) \<and>
        (\<forall>h' a'. cf_args c h' = Some a' \<longrightarrow> h' \<in> gh_created (cf_ghosts c) \<longrightarrow> ra_old_hash a' = ra_old_hash a \<longrightarrow> h' = h)))"

definition cfg_ok :: "'t auth_env \<Rightarrow> auth_cfg \<Rightarrow> bool" where
  "cfg_ok env c \<longleftrightarrow> index_ok {} (refresh_ttl env) (cf_now c) (cf_ghosts c) (au_redis (cf_auth c)) \<and>
     aliases_ok (cf_now c) (cf_ghosts c) (au_redis (cf_auth c)) \<and> args_ok env c \<and> versions_ok c \<and> successors_ok c \<and>
     gh_created (cf_ghosts c) \<subseteq> dom (gh_owner (cf_ghosts c)) \<and>
     dom (gh_family (cf_ghosts c)) = dom (gh_owner (cf_ghosts c))"

section \<open>What each operation does to the store\<close>

lemma redis_eval_redis:
  "redis_eval d f s = (r, s') \<Longrightarrow>
     s' = s\<lparr>au_redis := (if d = LostBefore then au_redis s else snd (f (au_redis s)))\<rparr>"
  by (cases d) (auto simp: redis_eval_def)

lemma redis_do_redis:
  "redis_do d f s = (r, s') \<Longrightarrow> s' = s\<lparr>au_redis := (if d = LostBefore then au_redis s else f (au_redis s))\<rparr>"
  unfolding redis_do_def by (drule redis_eval_redis) simp

text \<open>Operations that change at most the store, and the store only in one way.\<close>

definition store_only :: "(redis \<Rightarrow> redis \<Rightarrow> bool) \<Rightarrow> auth_state \<Rightarrow> auth_state \<Rightarrow> bool" where
  "store_only R s s' \<longleftrightarrow> au_users s' = au_users s \<and> (au_redis s' = au_redis s \<or> R (au_redis s) (au_redis s'))"

definition keeps_session_keys :: "redis \<Rightarrow> redis \<Rightarrow> bool" where
  "keeps_session_keys r r' \<longleftrightarrow> (\<forall>k. session_key k \<longrightarrow> rs_str r' k = rs_str r k) \<and> rs_set r' = rs_set r \<and> rs_zset r' = rs_zset r"

lemma logout_store:
  assumes "revokePresentedSessionCredentials env now d access refresh s = (r, s')"
  shows "store_only (\<lambda>x y. y = snd (logoutScript (logoutArguments env now
      (parseAccessSessionForLogout env now access) refresh) now x)) s s'"
  using assms
  by (cases d) (auto simp: revokePresentedSessionCredentials_def requireRedis_def redis_eval_def tx_defs tx_catch_def Let_def
      store_only_def split: if_splits)

lemma revoke_all_store:
  assumes "revokeAllUserSessions env now d u exceptJti strict pub s = (r, s')"
  shows "store_only (\<lambda>x y. \<exists>j. y = snd (revokeAllScript u j (refresh_ttl env) now x)) s s'"
  using assms
  by (cases d; cases "au_redis_up s"; cases pub; cases strict)
    (auto simp: revokeAllUserSessions_def redis_eval_def tx_defs tx_catch_def publish_def store_only_def)

lemma revoke_one_store:
  assumes "revokeSession env now d jti u s = (r, s')"
  shows "store_only (\<lambda>x y. \<exists>j. y = revokeSessionMulti env now j u x) s s'"
  using assms
  by (cases d; cases jti)
    (auto simp: revokeSession_def redis_do_def redis_eval_def tx_defs tx_catch_def publish_def store_only_def split: if_splits)

lemma revoke_token_store:
  assumes "revokeRefreshToken env now d t u s = (r, s')"
  shows "store_only (\<lambda>x y. y = DEL (Refresh (sha256 env (the t))) x \<or>
    y = SREM now (UserRefresh (the u)) (sha256 env (the t)) (DEL (Refresh (sha256 env (the t))) x)) s s'"
  using assms unfolding store_only_def
  by (cases d; cases t; cases u)
    (auto simp: revokeRefreshToken_def redis_do_def redis_eval_def tx_defs split: if_splits)

lemma issue_store:
  assumes "issueSession env now d ids u role ver s = (r, s')" "t_find ac_id u (au_users s) = Some row"
  obtains "au_users s' = au_users s" "au_redis s' = au_redis s"
  | c where "au_users s' = au_users s" "au_redis s' = issueMulti env now u c (au_redis s)"
      "sc_refresh_hash c = sha256 env (fr_refresh ids)" "sc_family c = sha256 env (fr_refresh ids)"
      "sc_version c = ac_version row"
  using assms
  by (cases d)
    (auto simp: issueSession_def prepareSessionCredentials_def accountById_def requireRedis_def redis_do_def redis_eval_def tx_defs
      Let_def split: if_splits)

lemma prepare_session:
  assumes "prepareSessionCredentials env now ids u role ver fam s = (Inr c, s')"
  obtains row where "s' = s" "t_find ac_id u (au_users s) = Some row" "ver = None \<or> ver = Some (ac_version row)"
    "sc_version c = ac_version row" "sc_refresh_hash c = sha256 env (fr_refresh ids)" "sc_jti c = fr_jti ids"
    "sc_family c = (case fam of Some f \<Rightarrow> f | None \<Rightarrow> sha256 env (fr_refresh ids))"
  using assms by (auto simp: prepareSessionCredentials_def tx_simps Let_def)

section \<open>Steps keep the invariant\<close>

lemma keeps_session_keys_same:
  "keeps_session_keys r r' \<Longrightarrow> same_index r r'"
  by (simp add: keeps_session_keys_def same_index_def session_key_def)

lemma index_draw:
  assumes ok: "index_ok X ttl now g r" and new: "gh_owner g h = None" "gh_family g h = None"
  shows "index_ok X ttl now (draw h u f v g) r"
proof -
  have o: "gh_owner g k = Some w \<Longrightarrow> gh_owner (draw h u f v g) k = Some w"
    "gh_family g k = Some m \<Longrightarrow> gh_family (draw h u f v g) k = Some m" for k w m
    using new by (auto simp: draw_def)
  have l: "listed g r k w m x \<Longrightarrow> listed (draw h u f v g) r k w m x" for k w m x
    using o by (auto simp: listed_def) (simp add: draw_def)
  have "refresh_ok X ttl now (draw h u f v g) r"
    using ok l unfolding index_ok_def refresh_ok_def by meson
  moreover have "families_ok ttl now (draw h u f v g) r"
    using ok o(1) unfolding index_ok_def families_ok_def by meson
  moreover have "owners_ok now (draw h u f v g) r"
    using ok o unfolding index_ok_def owners_ok_def by blast
  ultimately show ?thesis by (simp add: index_ok_def)
qed

lemma cfg_record_version:
  "cfg_ok env c \<Longrightarrow> refresh_at (cf_now c) (au_redis (cf_auth c)) h (refreshRecord u v f) e \<Longrightarrow>
   gh_version (cf_ghosts c) h = Some v"
  unfolding cfg_ok_def versions_ok_def by blast

lemma cfg_owner_version:
  assumes "cfg_ok env c" "gh_owner (cf_ghosts c) h = Some u"
  obtains v row where "gh_version (cf_ghosts c) h = Some v" "t_find ac_id u (au_users (cf_auth c)) = Some row" "v \<le> ac_version row"
  using assms unfolding cfg_ok_def versions_ok_def by blast

lemma cfg_args:
  assumes "cfg_ok env c" "cf_args c h = Some a"
  shows "ra_new_hash a = h" "rotate_args_ok (refresh_ttl env) (cf_ghosts c) a" "ra_rotate a = REFRESH_ROTATION_ENABLED env"
    "ra_max_sessions a = MAX_REFRESH_FAMILY_SESSIONS" "gh_family (cf_ghosts c) (ra_old_hash a) = Some (ra_family a)"
    "ra_new_record a = refreshRecord (ra_user a) (the (gh_version (cf_ghosts c) h)) (ra_family a)"
    "gh_owner (cf_ghosts c) h = Some (ra_user a)"
  using assms by (auto simp: cfg_ok_def args_ok_def rotate_args_ok_def)

lemma cfg_successor:
  assumes "cfg_ok env c" "cf_args c h = Some a" "h \<in> gh_created (cf_ghosts c)"
  shows "ra_old_hash a \<in> gh_created (cf_ghosts c)"
    "ra_rotate a \<Longrightarrow> \<not> refresh_at (cf_now c) (au_redis (cf_auth c)) (ra_old_hash a) t e"
    "ra_rotate a \<Longrightarrow> cf_args c h' = Some a' \<Longrightarrow> h' \<in> gh_created (cf_ghosts c) \<Longrightarrow> ra_old_hash a' = ra_old_hash a \<Longrightarrow> h' = h"
  using assms unfolding cfg_ok_def successors_ok_def by blast+

lemma args_ok_cong:
  "args_ok env c \<Longrightarrow> cf_args c' = cf_args c \<Longrightarrow> gh_owner (cf_ghosts c') = gh_owner (cf_ghosts c) \<Longrightarrow>
   gh_family (cf_ghosts c') = gh_family (cf_ghosts c) \<Longrightarrow> gh_version (cf_ghosts c') = gh_version (cf_ghosts c) \<Longrightarrow>
   args_ok env c'"
  unfolding args_ok_def rotate_args_ok_def by (simp only:)

lemma cfg_families: "cfg_ok env c \<Longrightarrow> gh_owner (cf_ghosts c) h = None \<longleftrightarrow> gh_family (cf_ghosts c) h = None"
  by (auto simp: cfg_ok_def)

lemma users_grow_refl: "users_grow us us"
  by (auto simp: users_grow_def)

text \<open>Steps that write no token.\<close>

lemma cfg_ok_quiet:
  assumes ok: "cfg_ok env c" and i: "index_ok {} (refresh_ttl env) (cf_now c) (cf_ghosts c) (au_redis s')"
    and sh: "shrinks (cf_now c) (au_redis (cf_auth c)) (au_redis s')"
    and al: "\<And>h. rs_str (au_redis s') (RefreshFamilyFor h) = rs_str (au_redis (cf_auth c)) (RefreshFamilyFor h)"
    and us: "users_grow (au_users (cf_auth c)) (au_users s')"
  shows "cfg_ok env (c\<lparr>cf_auth := s'\<rparr>)"
proof -
  have "aliases_ok (cf_now c) (cf_ghosts c) (au_redis s')"
    using ok al by (simp add: cfg_ok_def aliases_ok_def GET_def look_def)
  moreover have "versions_ok (c\<lparr>cf_auth := s'\<rparr>)"
    unfolding versions_ok_def
  proof (intro conjI allI impI)
    fix h u v f e
    assume "refresh_at (cf_now (c\<lparr>cf_auth := s'\<rparr>)) (au_redis (cf_auth (c\<lparr>cf_auth := s'\<rparr>))) h (refreshRecord u v f) e"
    then have "refresh_at (cf_now c) (au_redis (cf_auth c)) h (refreshRecord u v f) e" using shrinks_refreshD [OF sh] by simp
    from cfg_record_version [OF ok this] show "gh_version (cf_ghosts (c\<lparr>cf_auth := s'\<rparr>)) h = Some v" by simp
  next
    fix h u
    assume "gh_owner (cf_ghosts (c\<lparr>cf_auth := s'\<rparr>)) h = Some u"
    then obtain v row where v: "gh_version (cf_ghosts c) h = Some v" "t_find ac_id u (au_users (cf_auth c)) = Some row" "v \<le> ac_version row"
      using cfg_owner_version [OF ok, of h u] by auto
    with us obtain row' where "t_find ac_id u (au_users s') = Some row'" "ac_version row \<le> ac_version row'"
      unfolding users_grow_def by blast
    with v show "\<exists>v row. gh_version (cf_ghosts (c\<lparr>cf_auth := s'\<rparr>)) h = Some v \<and>
        t_find ac_id u (au_users (cf_auth (c\<lparr>cf_auth := s'\<rparr>))) = Some row \<and> v \<le> ac_version row" by auto
  qed
  moreover have "successors_ok (c\<lparr>cf_auth := s'\<rparr>)"
    using ok shrinks_refreshD [OF sh] unfolding cfg_ok_def successors_ok_def by simp blast
  ultimately show ?thesis using ok i by (simp add: cfg_ok_def args_ok_def)
qed

lemma cfg_ok_later:
  assumes ok: "cfg_ok env c" and n: "cf_now c \<le> n"
  shows "cfg_ok env (c\<lparr>cf_now := n\<rparr>)"
proof -
  have at: "refresh_at n r h t e \<Longrightarrow> refresh_at (cf_now c) r h t e" for r h t e
    using n by (auto simp: refresh_at_def intro: unexpired_later)
  have "aliases_ok n (cf_ghosts c) (au_redis (cf_auth c))"
    using ok n unfolding cfg_ok_def aliases_ok_def GET_def by (blast intro: look_later)
  moreover have "versions_ok (c\<lparr>cf_now := n\<rparr>)"
    using ok at unfolding cfg_ok_def versions_ok_def by simp blast
  moreover have "successors_ok (c\<lparr>cf_now := n\<rparr>)"
    using ok at unfolding cfg_ok_def successors_ok_def by simp blast
  ultimately show ?thesis using ok index_later(1) [OF _ n] by (simp add: cfg_ok_def args_ok_def)
qed

text \<open>A new token, issued or committed.\<close>

lemma cfg_ok_redraw:
  assumes ok: "cfg_ok env c" and h: "gh_owner (cf_ghosts c) h = None"
    and row: "t_find ac_id u (au_users (cf_auth c)) = Some row" "v \<le> ac_version row"
  shows "cfg_ok env (c\<lparr>cf_ghosts := draw h u f v (cf_ghosts c)\<rparr>)"
proof -
  let ?g = "draw h u f v (cf_ghosts c)"
  have fam: "gh_family (cf_ghosts c) h = None" using ok h by (auto simp: cfg_ok_def)
  have i: "index_ok {} (refresh_ttl env) (cf_now c) ?g (au_redis (cf_auth c))"
    using ok h fam by (intro index_draw) (auto simp: cfg_ok_def)
  have o: "gh_owner (cf_ghosts c) k = Some w \<Longrightarrow> k \<noteq> h" "gh_family (cf_ghosts c) k = Some m \<Longrightarrow> k \<noteq> h" for k w m
    using h fam by auto
  have "aliases_ok (cf_now c) ?g (au_redis (cf_auth c))"
    using ok fam unfolding cfg_ok_def aliases_ok_def draw_def by simp force
  moreover have "args_ok env (c\<lparr>cf_ghosts := ?g\<rparr>)"
    unfolding args_ok_def
  proof (intro allI impI)
    fix k a
    assume "cf_args (c\<lparr>cf_ghosts := ?g\<rparr>) k = Some a"
    then have a: "ra_new_hash a = k" "rotate_args_ok (refresh_ttl env) (cf_ghosts c) a" "ra_rotate a = REFRESH_ROTATION_ENABLED env"
      "ra_max_sessions a = MAX_REFRESH_FAMILY_SESSIONS" "gh_family (cf_ghosts c) (ra_old_hash a) = Some (ra_family a)"
      "ra_new_record a = refreshRecord (ra_user a) (the (gh_version (cf_ghosts c) k)) (ra_family a)"
      using ok by (auto simp: cfg_ok_def args_ok_def)
    then have "k \<noteq> h" using h by (auto simp: rotate_args_ok_def)
    moreover from this a have "rotate_args_ok (refresh_ttl env) ?g a" by (auto simp: rotate_args_ok_def draw_def)
    moreover have "ra_old_hash a \<noteq> h" using a(5) fam by auto
    ultimately show "ra_new_hash a = k \<and> rotate_args_ok (refresh_ttl env) (cf_ghosts (c\<lparr>cf_ghosts := ?g\<rparr>)) a \<and>
       ra_rotate a = REFRESH_ROTATION_ENABLED env \<and> ra_max_sessions a = MAX_REFRESH_FAMILY_SESSIONS \<and>
       gh_family (cf_ghosts (c\<lparr>cf_ghosts := ?g\<rparr>)) (ra_old_hash a) = Some (ra_family a) \<and>
       ra_new_record a = refreshRecord (ra_user a) (the (gh_version (cf_ghosts (c\<lparr>cf_ghosts := ?g\<rparr>)) k)) (ra_family a)"
      using a by (simp add: draw_def)
  qed
  moreover have "versions_ok (c\<lparr>cf_ghosts := ?g\<rparr>)"
    unfolding versions_ok_def
  proof (intro conjI allI impI)
    fix k w x m e
    assume "refresh_at (cf_now (c\<lparr>cf_ghosts := ?g\<rparr>)) (au_redis (cf_auth (c\<lparr>cf_ghosts := ?g\<rparr>))) k (refreshRecord w x m) e"
    then have a: "refresh_at (cf_now c) (au_redis (cf_auth c)) k (refreshRecord w x m) e" by simp
    from ok have "index_ok {} (refresh_ttl env) (cf_now c) (cf_ghosts c) (au_redis (cf_auth c))" by (simp add: cfg_ok_def)
    with a have "gh_owner (cf_ghosts c) k = Some w" by (metis index_record index_tokens(4) record_inject(1))
    then have "k \<noteq> h" by (rule o)
    with cfg_record_version [OF ok a] show "gh_version (cf_ghosts (c\<lparr>cf_ghosts := ?g\<rparr>)) k = Some x" by (simp add: draw_def)
  next
    fix k w
    assume "gh_owner (cf_ghosts (c\<lparr>cf_ghosts := ?g\<rparr>)) k = Some w"
    with ok row show "\<exists>v row. gh_version (cf_ghosts (c\<lparr>cf_ghosts := ?g\<rparr>)) k = Some v \<and>
        t_find ac_id w (au_users (cf_auth (c\<lparr>cf_ghosts := ?g\<rparr>))) = Some row \<and> v \<le> ac_version row"
      unfolding cfg_ok_def versions_ok_def draw_def by (auto split: if_splits)
  qed
  moreover have "successors_ok (c\<lparr>cf_ghosts := ?g\<rparr>)"
    using ok unfolding cfg_ok_def successors_ok_def draw_def by simp
  ultimately show ?thesis using ok i by (auto simp: cfg_ok_def) (auto simp: draw_def)
qed

lemma cfg_ok_start:
  assumes ok: "cfg_ok env c" and ttl: "0 < refresh_ttl env" and h: "h = sha256 env (fr_refresh ids)" "gh_owner (cf_ghosts c) h = None"
    and i: "ri_expected i = refreshRecord (ri_user i) v0 (ri_family i)"
      "gh_owner (cf_ghosts c) (ri_old_hash i) = Some (ri_user i)" "gh_family (cf_ghosts c) (ri_old_hash i) = Some (ri_family i)"
    and p: "prepareSessionCredentials env (cf_now c) ids (ri_user i) (ri_role i) (Some (ri_version i)) (Some (ri_family i)) (cf_auth c)
      = (Inr session, s')"
  shows "cfg_ok env (c\<lparr>cf_ghosts := draw h (ri_user i) (ri_family i) (sc_version session) (cf_ghosts c),
      cf_args := (cf_args c)(h \<mapsto> rotateArguments env (cf_now c) i previous session)\<rparr>)"
proof -
  from p obtain row where row: "t_find ac_id (ri_user i) (au_users (cf_auth c)) = Some row" "sc_version session = ac_version row"
    and s: "sc_refresh_hash session = h" by (rule prepare_session) (simp_all add: h(1))
  let ?a = "rotateArguments env (cf_now c) i previous session"
  let ?c1 = "c\<lparr>cf_ghosts := draw h (ri_user i) (ri_family i) (sc_version session) (cf_ghosts c)\<rparr>"
  have ok1: "cfg_ok env ?c1" by (rule cfg_ok_redraw [OF ok h(2) row(1)]) (simp add: row(2))
  have old: "ri_old_hash i \<noteq> h" using h(2) i(2) by auto
  have nc: "h \<notin> gh_created (cf_ghosts c)" using ok h(2) by (auto simp: cfg_ok_def)
  have a: "ra_new_hash ?a = h" "rotate_args_ok (refresh_ttl env) (cf_ghosts ?c1) ?a" "ra_rotate ?a = REFRESH_ROTATION_ENABLED env"
    "ra_max_sessions ?a = MAX_REFRESH_FAMILY_SESSIONS" "gh_family (cf_ghosts ?c1) (ra_old_hash ?a) = Some (ra_family ?a)"
    "ra_new_record ?a = refreshRecord (ra_user ?a) (the (gh_version (cf_ghosts ?c1) h)) (ra_family ?a)"
    using i s old by (auto simp: rotateArguments_def rotate_args_ok_def draw_def)
  have "args_ok env (?c1\<lparr>cf_args := (cf_args ?c1)(h \<mapsto> ?a)\<rparr>)"
    using ok1 a unfolding cfg_ok_def args_ok_def by simp
  moreover have "successors_ok (?c1\<lparr>cf_args := (cf_args ?c1)(h \<mapsto> ?a)\<rparr>)"
    using ok1 nc unfolding cfg_ok_def successors_ok_def by (auto simp: draw_def split: if_splits)
  ultimately have "cfg_ok env (?c1\<lparr>cf_args := (cf_args ?c1)(h \<mapsto> ?a)\<rparr>)"
    using ok1 unfolding cfg_ok_def by (simp add: versions_ok_def)
  then show ?thesis by simp
qed

lemma cfg_ok_issue:
  assumes ok: "cfg_ok env c" and ttl: "0 < refresh_ttl env" and h: "h = sha256 env (fr_refresh ids)" "gh_owner (cf_ghosts c) h = None"
    and i: "issueSession env (cf_now c) d ids u role ver (cf_auth c) = (r, s')"
    and row: "t_find ac_id u (au_users (cf_auth c)) = Some row"
  shows "cfg_ok env (c\<lparr>cf_auth := s', cf_ghosts := create h (draw h u h (ac_version row) (cf_ghosts c))\<rparr>)"
proof -
  let ?c1 = "c\<lparr>cf_ghosts := draw h u h (ac_version row) (cf_ghosts c)\<rparr>" and ?now = "cf_now c"
  let ?g = "create h (cf_ghosts ?c1)"
  have ok1: "cfg_ok env ?c1" by (rule cfg_ok_redraw [OF ok h(2) row]) simp
  have na: "cf_args c k = Some a \<Longrightarrow> k \<noteq> h \<and> ra_old_hash a \<noteq> h" for k a
    using cfg_args(5,7) [OF ok, of k a] h(2) cfg_families [OF ok, of h] by auto
  have idx: "index_ok {} (refresh_ttl env) ?now ?g (au_redis (cf_auth c))"
    using ok1 by (intro index_create) (simp add: cfg_ok_def)
  have args: "args_ok env (c\<lparr>cf_auth := s', cf_ghosts := ?g\<rparr>)"
    by (rule args_ok_cong [of env ?c1]) (use ok1 in \<open>simp_all add: cfg_ok_def create_def\<close>)
  have dom: "gh_created ?g \<subseteq> dom (gh_owner ?g)" "dom (gh_family ?g) = dom (gh_owner ?g)"
    using ok1 by (auto simp: cfg_ok_def create_def) (auto simp: draw_def)
  have succ: "successors_ok (c\<lparr>cf_auth := s', cf_ghosts := ?g\<rparr>)"
    if at: "\<And>k t e. k \<noteq> h \<Longrightarrow> refresh_at ?now (au_redis s') k t e = refresh_at ?now (au_redis (cf_auth c)) k t e"
    unfolding successors_ok_def
  proof (intro allI impI, goal_cases)
    case (1 k a)
    with na [of k a] have k: "cf_args c k = Some a" "k \<in> gh_created (cf_ghosts c)" "k \<noteq> h" "ra_old_hash a \<noteq> h"
      by (auto simp: create_def draw_def)
    note A = cfg_successor [OF ok k(1,2)]
    have "h' \<in> gh_created (cf_ghosts c)" if "cf_args c h' = Some a'" "h' \<in> gh_created ?g" for h' a'
      using na [OF that(1)] that(2) by (auto simp: create_def draw_def)
    then have "\<forall>h' a'. cf_args c h' = Some a' \<longrightarrow> h' \<in> gh_created ?g \<longrightarrow> ra_old_hash a' = ra_old_hash a \<longrightarrow> h' = k" if "ra_rotate a"
      using A(3) [OF that] by blast
    moreover have "\<not> refresh_at ?now (au_redis s') (ra_old_hash a) t e" if "ra_rotate a" for t e
      using A(2) [OF that] by (simp add: at [OF k(4)])
    moreover have "ra_old_hash a \<in> gh_created ?g" using A(1) by (simp add: create_def draw_def)
    ultimately show ?case by simp
  qed
  from i row show ?thesis
  proof (cases rule: issue_store)
    case 1
    then show ?thesis using ok1 idx args dom succ
      by (simp add: cfg_ok_def versions_ok_def aliases_ok_def create_def)
  next
    case (2 cr)
    let ?r = "au_redis (cf_auth c)"
    let ?t = "addToken (refresh_ttl env) ?now h u (ac_version row) h ?r"
    have same: "same_index ?t (au_redis s')"
      using issueMulti_same [of env ?now cr u ?r] 2 h(1) by simp
    have "knows ?g h u h" by (simp add: knows_def create_def draw_def)
    then have "index_ok {} (refresh_ttl env) ?now ?g ?t" by (rule index_addToken [OF idx ttl])
    then have idx2: "index_ok {} (refresh_ttl env) ?now ?g (au_redis s')" by (simp add: same_index_ok [OF same])
    have at: "refresh_at ?now (au_redis s') k t e \<longleftrightarrow>
        (if k = h then t = refreshRecord u (ac_version row) h \<and> e = expires ?now (refresh_ttl env) else refresh_at ?now ?r k t e)" for k t e
      by (simp add: same_index_at [OF same] addToken_at [OF ttl])
    have "aliases_ok ?now ?g (au_redis s')"
      unfolding aliases_ok_def
    proof (intro allI impI)
      fix k t
      assume "GET ?now (RefreshFamilyFor k) (au_redis s') = Some t"
      then have "if k = h then t = Text h else GET ?now (RefreshFamilyFor k) ?r = Some t"
        using 2(2-4) h(1) by (auto simp: issueMulti_def issueIndex_def GET_def look_def split: if_splits)
      moreover have "\<exists>f. t = Text f \<and> gh_family ?g k = Some f" if "GET ?now (RefreshFamilyFor k) ?r = Some t"
      proof -
        have "aliases_ok ?now (cf_ghosts ?c1) ?r" using ok1 by (simp add: cfg_ok_def)
        with that show ?thesis unfolding aliases_ok_def create_def by simp
      qed
      ultimately show "\<exists>f. t = Text f \<and> gh_family ?g k = Some f"
        by (cases "k = h") (simp_all add: create_def draw_def)
    qed
    moreover have "versions_ok (c\<lparr>cf_auth := s', cf_ghosts := ?g\<rparr>)"
      unfolding versions_ok_def
    proof (intro conjI allI impI)
      fix k w v f e
      assume "refresh_at (cf_now (c\<lparr>cf_auth := s', cf_ghosts := ?g\<rparr>)) (au_redis (cf_auth (c\<lparr>cf_auth := s', cf_ghosts := ?g\<rparr>))) k
        (refreshRecord w v f) e"
      then have "if k = h then v = ac_version row else refresh_at ?now ?r k (refreshRecord w v f) e" by (simp add: at split: if_splits)
      then show "gh_version (cf_ghosts (c\<lparr>cf_auth := s', cf_ghosts := ?g\<rparr>)) k = Some v"
        using cfg_record_version [OF ok1, of k w v f e] by (cases "k = h") (simp_all add: create_def draw_def)
    next
      fix k w
      assume "gh_owner (cf_ghosts (c\<lparr>cf_auth := s', cf_ghosts := ?g\<rparr>)) k = Some w"
      then have "gh_owner (cf_ghosts ?c1) k = Some w" by (simp add: create_def)
      then obtain v rw where "gh_version (cf_ghosts ?c1) k = Some v" "t_find ac_id w (au_users (cf_auth ?c1)) = Some rw" "v \<le> ac_version rw"
        by (rule cfg_owner_version [OF ok1])
      then show "\<exists>v row. gh_version (cf_ghosts (c\<lparr>cf_auth := s', cf_ghosts := ?g\<rparr>)) k = Some v \<and>
          t_find ac_id w (au_users (cf_auth (c\<lparr>cf_auth := s', cf_ghosts := ?g\<rparr>))) = Some row \<and> v \<le> ac_version row"
        using 2(1) by (simp add: create_def)
    qed
    ultimately show ?thesis using idx2 args dom succ at by (simp add: cfg_ok_def)
  qed
qed

lemma dropExpired_str: "rs_str (dropExpiredSessions a now r) = rs_str r"
proof -
  have "rs_str (fold (\<lambda>i. SREM now (UserSessions u) i) ids x) = rs_str x" for u ids x
    by (induction ids arbitrary: x) auto
  then show ?thesis by (simp add: dropExpiredSessions_def)
qed

lemma commit_alias:
  "rs_str (commitRotation a now r) (RefreshFamilyFor k) =
     (if k = ra_old_hash a then Some (Text (ra_family a), expires now (ra_alias_ttl a)) else rs_str r (RefreshFamilyFor k))"
  by (simp add: commitRotation_def consumeOld_def indexRotation_def writeRotation_def bridgePrevious_def)

lemma cfg_ok_commit:
  assumes ok: "cfg_ok env c" and ttl: "0 < refresh_ttl env" and a: "cf_args c h = Some a"
    and live: "GET (cf_now c) (Refresh (ra_old_hash a)) (au_redis (cf_auth c)) = Some (ra_expected a)"
    and s': "au_users s' = au_users (cf_auth c)"
      "au_redis s' = commitRotation a (cf_now c) (dropExpiredSessions a (cf_now c) (au_redis (cf_auth c)))"
  shows "cfg_ok env (c\<lparr>cf_auth := s', cf_ghosts := create h (cf_ghosts c)\<rparr>)"
proof -
  let ?now = "cf_now c" and ?r = "au_redis (cf_auth c)" and ?g = "create h (cf_ghosts c)"
  let ?c = "c\<lparr>cf_auth := s', cf_ghosts := ?g\<rparr>"
  note args = cfg_args [OF ok a]
  have idx: "index_ok {} (refresh_ttl env) ?now (cf_ghosts c) ?r" using ok by (simp add: cfg_ok_def)
  note eff = commitRotation_effect [OF idx ttl args(2) live, folded s'(2), unfolded args(1)]
  from live obtain e0 where old: "refresh_at ?now ?r (ra_old_hash a) (ra_expected a) e0" by (auto simp: refresh_at_GET)
  obtain u0 v0 f0 x0 where old': "refresh_at ?now ?r (ra_old_hash a) (refreshRecord u0 v0 f0) (Some x0)"
    by (rule index_record [OF idx old])
  have oldc: "ra_old_hash a \<in> gh_created (cf_ghosts c)" by (rule index_tokens(7) [OF idx old'])
  have al: "aliases_ok ?now ?g (au_redis s')"
    unfolding aliases_ok_def
  proof (intro allI impI)
    fix k t
    assume "GET ?now (RefreshFamilyFor k) (au_redis s') = Some t"
    then have "k = ra_old_hash a \<and> t = Text (ra_family a) \<or> GET ?now (RefreshFamilyFor k) ?r = Some t"
      by (auto simp: s'(2) GET_def look_def commit_alias dropExpired_str split: if_splits)
    moreover have "aliases_ok ?now (cf_ghosts c) ?r" using ok by (simp add: cfg_ok_def)
    ultimately show "\<exists>f. t = Text f \<and> gh_family ?g k = Some f"
      using args(5) unfolding aliases_ok_def create_def by auto
  qed
  have v: "versions_ok ?c"
    unfolding versions_ok_def
  proof (intro conjI allI impI)
    fix k u v f e
    assume "refresh_at (cf_now ?c) (au_redis (cf_auth ?c)) k (refreshRecord u v f) e"
    then have "k = h \<and> refreshRecord u v f = ra_new_record a \<or> refresh_at ?now ?r k (refreshRecord u v f) e"
      using eff(2) by simp
    then show "gh_version (cf_ghosts ?c) k = Some v"
    proof
      assume b: "k = h \<and> refreshRecord u v f = ra_new_record a"
      obtain w row where "gh_version (cf_ghosts c) h = Some w" by (rule cfg_owner_version [OF ok args(7)])
      with b args(6) show ?thesis by (simp add: create_def)
    qed (use cfg_record_version [OF ok, of k u v f e] in \<open>simp add: create_def\<close>)
  next
    fix k u
    assume "gh_owner (cf_ghosts ?c) k = Some u"
    then have "gh_owner (cf_ghosts c) k = Some u" by (simp add: create_def)
    then obtain v row where "gh_version (cf_ghosts c) k = Some v" "t_find ac_id u (au_users (cf_auth c)) = Some row" "v \<le> ac_version row"
      by (rule cfg_owner_version [OF ok])
    then show "\<exists>v row. gh_version (cf_ghosts ?c) k = Some v \<and> t_find ac_id u (au_users (cf_auth ?c)) = Some row \<and> v \<le> ac_version row"
      by (simp add: create_def s'(1))
  qed
  have sc: "successors_ok ?c"
    unfolding successors_ok_def
  proof (intro allI impI, goal_cases)
    case (1 k b)
    then have k: "cf_args c k = Some b" "k = h \<or> k \<in> gh_created (cf_ghosts c)" by (auto simp: create_def)
    have known: "ra_old_hash b \<in> gh_created (cf_ghosts c)"
      using k a oldc cfg_successor(1) [OF ok k(1)] by auto
    have gone: "\<not> refresh_at ?now (au_redis s') (ra_old_hash b) t e" if rot: "ra_rotate b" for t e
    proof
      assume at: "refresh_at ?now (au_redis s') (ra_old_hash b) t e"
      have rota: "ra_rotate a" using rot args(3) cfg_args(3) [OF ok k(1)] by simp
      then have "ra_old_hash b \<noteq> ra_old_hash a" using eff(3) at by metis
      then have kc: "k \<noteq> h" using k(1) a by auto
      then have kc: "k \<in> gh_created (cf_ghosts c)" using k(2) by simp
      have "\<not> refresh_at ?now ?r (ra_old_hash b) t e" by (rule cfg_successor(2) [OF ok k(1) kc rot])
      with eff(2) [OF at] have "ra_old_hash b = h" by simp
      then have "h \<in> gh_created (cf_ghosts c)" using known by simp
      from cfg_successor(2) [OF ok a this rota] old show False by blast
    qed
    have uniq: "k' = k" if rot: "ra_rotate b" and k': "cf_args c k' = Some b'" "k' \<in> gh_created ?g" "ra_old_hash b' = ra_old_hash b" for k' b'
    proof -
      have same: False if "m \<in> gh_created (cf_ghosts c)" "cf_args c m = Some x" "ra_old_hash x = ra_old_hash a" "ra_rotate x" for m x
        using cfg_successor(2) [OF ok that(2,1,4)] that(3) old by simp
      have rota: "ra_rotate x" if "cf_args c m = Some x" for m x using rot cfg_args(3) [OF ok that] cfg_args(3) [OF ok k(1)] by simp
      have "k' = h \<or> k' \<in> gh_created (cf_ghosts c)" using k'(2) by (auto simp: create_def)
      then consider "k' = h" "k = h" | "k' = h" "k \<in> gh_created (cf_ghosts c)" | "k' \<in> gh_created (cf_ghosts c)" "k = h"
        | "k' \<in> gh_created (cf_ghosts c)" "k \<in> gh_created (cf_ghosts c)" using k(2) by blast
      then show ?thesis
      proof cases
        case 2
        with k' a have "ra_old_hash b = ra_old_hash a" by simp
        with same [OF 2(2) k(1)] rot show ?thesis by blast
      next
        case 3
        with k a k' have "ra_old_hash b' = ra_old_hash a" by simp
        with same [OF 3(1) k'(1)] rota [OF k'(1)] show ?thesis by blast
      next
        case 4
        then show ?thesis using cfg_successor(3) [OF ok k(1) 4(2) rot k'(1) 4(1) k'(3)] by simp
      qed simp
    qed
    show ?case
    proof (intro conjI allI impI)
      show "ra_old_hash b \<in> gh_created (cf_ghosts ?c)" using known by (simp add: create_def)
    next
      fix t e
      assume "ra_rotate b"
      then show "\<not> refresh_at (cf_now ?c) (au_redis (cf_auth ?c)) (ra_old_hash b) t e" by (simp add: gone)
    next
      fix k' b'
      assume "ra_rotate b" "cf_args ?c k' = Some b'" "k' \<in> gh_created (cf_ghosts ?c)" "ra_old_hash b' = ra_old_hash b"
      then show "k' = k" using uniq [of k' b'] by simp
    qed
  qed
  have ar: "args_ok env ?c" by (rule args_ok_cong [of env c]) (use ok in \<open>simp_all add: cfg_ok_def create_def\<close>)
  have dom: "gh_created ?g \<subseteq> dom (gh_owner ?g)" "dom (gh_family ?g) = dom (gh_owner ?g)"
    using ok args(7) by (auto simp: cfg_ok_def create_def)
  show ?thesis using eff(1) al v sc ar dom by (simp add: cfg_ok_def)
qed

lemma cfg_ok_attempt:
  assumes ok: "cfg_ok env c" and ttl: "0 < refresh_ttl env" and a: "cf_args c h = Some a"
    and e: "redis_eval d (rotateScript a (cf_now c)) (cf_auth c) = (r, s')"
    and g': "g' = (if d \<noteq> LostBefore \<and> fst (rotateScript a (cf_now c) (au_redis (cf_auth c))) = 1
      then create h (cf_ghosts c) else cf_ghosts c)"
  shows "cfg_ok env (c\<lparr>cf_auth := s', cf_ghosts := g'\<rparr>)"
proof -
  let ?r = "au_redis (cf_auth c)" and ?s = "rotateScript a (cf_now c) (au_redis (cf_auth c))"
  have s': "s' = (cf_auth c)\<lparr>au_redis := (if d = LostBefore then ?r else snd ?s)\<rparr>" using redis_eval_redis [OF e] .
  have idx: "index_ok {} (refresh_ttl env) (cf_now c) (cf_ghosts c) ?r" using ok by (simp add: cfg_ok_def)
  have same: "cfg_ok env (c\<lparr>cf_auth := s', cf_ghosts := g'\<rparr>)" if "s' = cf_auth c" "g' = cf_ghosts c" using that ok by simp
  show ?thesis
  proof (cases "d = LostBefore")
    case True
    then show ?thesis by (intro same) (simp_all add: s' g')
  next
    case d: False
    show ?thesis
    proof (cases rule: rotateScript_cases [of "cf_now c" a ?r])
      case retry
      then have n: "rotateRetry a (cf_now c) ?r = 1 \<Longrightarrow> h \<in> gh_created (cf_ghosts c)"
      proof -
        assume one: "rotateRetry a (cf_now c) ?r = 1"
        then have "GET (cf_now c) (Refresh h) ?r = Some (ra_new_record a)"
          using cfg_args(1) [OF ok a] by (auto simp: rotateRetry_def split: if_splits option.splits)
        then obtain e where "refresh_at (cf_now c) ?r h (ra_new_record a) e" by (auto simp: refresh_at_GET)
        then obtain u v f x where "refresh_at (cf_now c) ?r h (refreshRecord u v f) (Some x)" by (rule index_record [OF idx])
        then show ?thesis by (rule index_tokens(7) [OF idx])
      qed
      then have "g' = cf_ghosts c" using retry g' by (auto simp: create_def insert_absorb)
      then show ?thesis using retry by (intro same) (simp_all add: s')
    next
      case (fenced raw)
      then show ?thesis by (intro same) (simp_all add: s' g')
    next
      case full
      then have g: "g' = cf_ghosts c" and r': "au_redis s' = dropExpiredSessions a (cf_now c) ?r" using g' d by (simp_all add: s')
      have us: "au_users s' = au_users (cf_auth c)" by (simp add: s')
      have "cfg_ok env (c\<lparr>cf_auth := s'\<rparr>)"
        by (rule cfg_ok_quiet [OF ok])
          (use idx in \<open>simp_all add: r' us same_index_ok [OF dropExpiredSessions_same] shrinks_same [OF dropExpiredSessions_same]
            dropExpired_str users_grow_refl\<close>)
      then show ?thesis by (simp add: g)
    next
      case commit
      then have "g' = create h (cf_ghosts c)" using g' d by simp
      then show ?thesis using cfg_ok_commit [OF ok ttl a commit(1), of s'] commit(4) d by (simp add: s')
    qed
  qed
qed

text \<open>The sorted sets only go away as a whole.\<close>

definition zkeeps :: "redis \<Rightarrow> redis \<Rightarrow> bool" where
  "zkeeps r r' \<longleftrightarrow> (\<forall>f. rs_zset r' f = rs_zset r f \<or> rs_zset r' f = None)"

lemma zkeeps_refl: "zkeeps r r"
  by (simp add: zkeeps_def)

lemma zkeeps_trans: "zkeeps r r' \<Longrightarrow> zkeeps r' r'' \<Longrightarrow> zkeeps r r''"
  unfolding zkeeps_def by metis

lemma zset_fold: "(\<And>x r. rs_zset (F x r) = rs_zset r) \<Longrightarrow> rs_zset (fold F xs r) = rs_zset r"
  by (induction xs arbitrary: r) auto

lemma zkeeps_fold: "(\<And>x r. zkeeps r (F x r)) \<Longrightarrow> zkeeps r (fold F xs r)"
  by (induction xs arbitrary: r) (auto intro: zkeeps_refl zkeeps_trans)

lemma revokeFamily_zset: "zkeeps (lr_redis l) (lr_redis (snd (revokeFamily ttl rt now ns f fb l)))"
proof (cases rule: revokeFamily_cases [of ttl rt now ns f fb l])
  case (2 u l0)
  have "rs_zset (lr_redis (fold (revokeFamilySession ttl now u) ids l)) = rs_zset (lr_redis l)" for ids l
    by (induction ids arbitrary: l) (auto simp: revokeFamilySession_def rememberSession_def)
  moreover have "rs_zset (fold (revokeFamilyToken rt now u f) hs r) = rs_zset r" for hs r
    by (rule zset_fold) (simp add: revokeFamilyToken_def)
  ultimately show ?thesis
    using 2 by (auto simp: zkeeps_def revokeFamilyOf_def revokeFamilyTokens_def revokeFamilySessions_def ZDEL_def Let_def)
qed (simp add: zkeeps_refl)

lemma logoutScript_zset: "zkeeps r (snd (logoutScript a now r))"
proof -
  have a: "zkeeps (lr_redis l) (lr_redis (revokeRefresh a now l))" for l
    using revokeFamily_zset [of l] by (auto simp: revokeRefresh_def Let_def zkeeps_def split: option.split)
  have b: "zkeeps (lr_redis l) (lr_redis (revokeAccess a now l))" for l
    by (simp add: revokeAccess_def rememberSession_def Let_def zkeeps_def)
  have c: "zkeeps r (lr_redis (logoutAccessPart a now r))"
    using revokeFamily_zset [of "\<lparr>lr_redis = r, lr_sessions = [], lr_families = []\<rparr>"]
    by (simp add: logoutAccessPart_def Let_def zkeeps_refl)
  show ?thesis using c zkeeps_trans [OF c a] zkeeps_trans [OF c b] zkeeps_trans [OF zkeeps_trans [OF c a] b]
    by (simp add: logoutScript_parts Let_def)
qed

lemma revokeAll_zset: "zkeeps r (snd (revokeAllScript u j ttl now r))"
proof -
  define x where "x = fold (\<lambda>i r. if i = j then r else DEL (Session i) r) (SMEMBERS now (UserSessions u) r) r"
  define y where "y = fold (\<lambda>h. DEL (Refresh h)) (SMEMBERS now (UserRefresh u) x) x"
  define z where "z = fold (fenceFamily ttl now u) (SMEMBERS now (UserRefreshFamilies u) y) y"
  have "rs_zset x = rs_zset r" unfolding x_def by (rule zset_fold) simp
  moreover have "rs_zset y = rs_zset x" unfolding y_def by (rule zset_fold) simp
  moreover have "zkeeps y z" unfolding z_def by (rule zkeeps_fold) (simp add: fenceFamily_def zkeeps_def ZDEL_def)
  moreover have "snd (revokeAllScript u j ttl now r) = (if j = []
      then SDEL (UserRefreshFamilies u) (SDEL (UserRefresh u) (SDEL (UserSessions u) z))
      else SADD now (UserSessions u) j (SDEL (UserRefresh u) (SDEL (UserSessions u) y)))"
    by (simp add: revokeAllScript_def Let_def x_def y_def z_def)
  ultimately show ?thesis by (simp add: zkeeps_def)
qed

text \<open>What the steps that write no token have in common.\<close>

definition quiet :: "'t auth_env \<Rightarrow> auth_cfg \<Rightarrow> auth_state \<Rightarrow> bool" where
  "quiet env c s' \<longleftrightarrow> index_ok {} (refresh_ttl env) (cf_now c) (cf_ghosts c) (au_redis s') \<and>
     shrinks (cf_now c) (au_redis (cf_auth c)) (au_redis s') \<and>
     (\<forall>h. rs_str (au_redis s') (RefreshFamilyFor h) = rs_str (au_redis (cf_auth c)) (RefreshFamilyFor h)) \<and>
     users_grow (au_users (cf_auth c)) (au_users s') \<and> zkeeps (au_redis (cf_auth c)) (au_redis s')"

lemma quiet_store:
  assumes ok: "cfg_ok env c" and so: "store_only R (cf_auth c) s'"
    and R: "\<And>y. R (au_redis (cf_auth c)) y \<Longrightarrow> index_ok {} (refresh_ttl env) (cf_now c) (cf_ghosts c) y \<and>
      shrinks (cf_now c) (au_redis (cf_auth c)) y \<and> (\<forall>h. rs_str y (RefreshFamilyFor h) = rs_str (au_redis (cf_auth c)) (RefreshFamilyFor h)) \<and>
      zkeeps (au_redis (cf_auth c)) y"
  shows "quiet env c s'"
proof -
  have "index_ok {} (refresh_ttl env) (cf_now c) (cf_ghosts c) (au_redis (cf_auth c))" using ok by (simp add: cfg_ok_def)
  with so R show ?thesis by (auto simp: quiet_def store_only_def shrinks_refl users_grow_refl zkeeps_refl)
qed

lemma revokeSessionMulti_same: "same_index r (revokeSessionMulti env now j u r)"
  by (auto simp: revokeSessionMulti_def Let_def split: option.split
      intro!: same_index_trans [OF same_index_steps(2) same_index_steps(1)] same_index_trans [OF _ same_index_steps(3)])

lemma revokeAll_alias: "rs_str (snd (revokeAllScript u j ttl now r)) (RefreshFamilyFor h) = rs_str r (RefreshFamilyFor h)"
proof -
  have "rs_str (fold (fenceFamily ttl now u) fs x) (RefreshFamilyFor h) = rs_str x (RefreshFamilyFor h)" for fs x
    by (rule fold_alias) (simp add: fenceFamily_def)
  moreover have "rs_str (fold (\<lambda>h. DEL (Refresh h)) hs x) (RefreshFamilyFor h) = rs_str x (RefreshFamilyFor h)" for hs x
    by (rule fold_alias) simp
  moreover have "rs_str (fold (\<lambda>i r. if i = k then r else DEL (Session i) r) ids x) (RefreshFamilyFor h) = rs_str x (RefreshFamilyFor h)"
    for ids x k by (rule fold_alias) simp
  ultimately show ?thesis by (simp add: revokeAllScript_def Let_def)
qed

lemma revokeSessionMulti_alias: "rs_str (revokeSessionMulti env now j u r) (RefreshFamilyFor h) = rs_str r (RefreshFamilyFor h)"
  by (simp add: revokeSessionMulti_def Let_def split: option.split)

lemma revokeSessionMulti_zset: "zkeeps r (revokeSessionMulti env now j u r)"
  by (simp add: revokeSessionMulti_def zkeeps_def Let_def split: option.split)

lemma auth_step_cases [consumes 3, case_names tick issue start attempt quiet]:
  assumes env: "auth_env_ok env" and ok: "cfg_ok env c" and step: "auth_step env c c'"
  obtains (tick) n where "c' = c\<lparr>cf_now := n\<rparr>" "cf_now c \<le> n"
  | (issue) h ids d u role ver r s' row where
      "c' = c\<lparr>cf_auth := s', cf_ghosts := create h (draw h u h (ac_version row) (cf_ghosts c))\<rparr>"
      "h = sha256 env (fr_refresh ids)" "gh_owner (cf_ghosts c) h = None"
      "issueSession env (cf_now c) d ids u role ver (cf_auth c) = (r, s')" "t_find ac_id u (au_users (cf_auth c)) = Some row"
  | (start) h ids i v0 session s' previous where
      "c' = c\<lparr>cf_ghosts := draw h (ri_user i) (ri_family i) (sc_version session) (cf_ghosts c),
         cf_args := (cf_args c)(h \<mapsto> rotateArguments env (cf_now c) i previous session)\<rparr>"
      "h = sha256 env (fr_refresh ids)" "gh_owner (cf_ghosts c) h = None"
      "ri_expected i = refreshRecord (ri_user i) v0 (ri_family i)"
      "gh_owner (cf_ghosts c) (ri_old_hash i) = Some (ri_user i)" "gh_family (cf_ghosts c) (ri_old_hash i) = Some (ri_family i)"
      "prepareSessionCredentials env (cf_now c) ids (ri_user i) (ri_role i) (Some (ri_version i)) (Some (ri_family i)) (cf_auth c)
        = (Inr session, s')"
  | (attempt) h a d r s' where
      "c' = c\<lparr>cf_auth := s', cf_ghosts := (if d \<noteq> LostBefore \<and> fst (rotateScript a (cf_now c) (au_redis (cf_auth c))) = 1
         then create h (cf_ghosts c) else cf_ghosts c)\<rparr>"
      "cf_args c h = Some a" "redis_eval d (rotateScript a (cf_now c)) (cf_auth c) = (r, s')"
  | (quiet) s' where "c' = c\<lparr>cf_auth := s'\<rparr>" "quiet env c s'"
proof -
  have ttl: "0 < refresh_ttl env" using ttl_pos [OF env] by simp
  have idx: "index_ok {} (refresh_ttl env) (cf_now c) (cf_ghosts c) (au_redis (cf_auth c))" using ok by (simp add: cfg_ok_def)
  from step show thesis
  proof cases
    case (tick n)
    then show thesis by (rule that(1))
  next
    case (issue h ids d u role ver r s' row)
    then show thesis by (rule that(2))
  next
    case (start h ids i v0 session s' previous)
    then show thesis by (rule that(3))
  next
    case (attempt h a d r s' g')
    then show thesis using that(4) by blast
  next
    case (logout d access refresh r s')
    have "quiet env c s'"
      by (rule quiet_store [OF ok logout_store [OF logout(2)]])
        (use logoutScript_effect [OF idx ttl] in \<open>simp add: logoutScript_alias logoutScript_zset logoutArguments_def\<close>)
    with logout(1) show thesis by (rule that(5))
  next
    case (revoke_all d u exceptJti strict pub r s')
    have "quiet env c s'"
      by (rule quiet_store [OF ok revoke_all_store [OF revoke_all(2)]])
        (use revokeAllScript_effect(1,2) [OF idx ttl] in \<open>auto simp: revokeAll_alias revokeAll_zset\<close>)
    with revoke_all(1) show thesis by (rule that(5))
  next
    case (revoke_one d jti u r s')
    have "quiet env c s'"
      by (rule quiet_store [OF ok revoke_one_store [OF revoke_one(2)]])
        (use idx in \<open>auto simp: same_index_ok [OF revokeSessionMulti_same] shrinks_same [OF revokeSessionMulti_same]
          revokeSessionMulti_alias revokeSessionMulti_zset\<close>)
    with revoke_one(1) show thesis by (rule that(5))
  next
    case (revoke_token d t u r s')
    have "quiet env c s'"
      by (rule quiet_store [OF ok revoke_token_store [OF revoke_token(2)]])
        (use index_DEL_refresh [OF idx] in \<open>auto simp: zkeeps_def intro: index_SREM shrinks_steps(3) shrinks_trans [OF shrinks_steps(3) shrinks_steps(1)]\<close>)
    with revoke_token(1) show thesis by (rule that(5))
  next
    case (other s')
    have "keeps_session_keys (au_redis (cf_auth c)) (au_redis s')" using other by (simp add: keeps_session_keys_def)
    then have same: "same_index (au_redis (cf_auth c)) (au_redis s')" by (rule keeps_session_keys_same)
    have "quiet env c s'"
      using idx other by (simp add: quiet_def same_index_ok [OF same] shrinks_same [OF same] session_key_def zkeeps_def)
    with other(1) show thesis by (rule that(5))
  qed
qed

lemma cfg_ok_step:
  assumes env: "auth_env_ok env" and ok: "cfg_ok env c" and step: "auth_step env c c'"
  shows "cfg_ok env c'"
proof -
  have ttl: "0 < refresh_ttl env" using ttl_pos [OF env] by simp
  from env ok step show ?thesis
  proof (cases rule: auth_step_cases)
    case (tick n)
    then show ?thesis using cfg_ok_later [OF ok] by simp
  next
    case (issue h ids d u role ver r s' row)
    then show ?thesis using cfg_ok_issue [OF ok ttl issue(2-5)] by simp
  next
    case (start h ids i v0 session s' previous)
    then show ?thesis using cfg_ok_start [OF ok ttl start(2-7)] by simp
  next
    case (attempt h a d r s')
    then show ?thesis using cfg_ok_attempt [OF ok ttl attempt(2,3) refl] by simp
  next
    case (quiet s')
    then show ?thesis using cfg_ok_quiet [OF ok, of s'] by (simp add: quiet_def)
  qed
qed

section \<open>What is over stays over\<close>

lemma dead_step:
  assumes env: "auth_env_ok env" and ok: "cfg_ok env c" and step: "auth_step env c c'"
    and d: "dead (cf_now c) (au_redis (cf_auth c)) f" and own: "gh_owner (cf_ghosts c) f = Some w"
  shows "dead (cf_now c') (au_redis (cf_auth c')) f" "gh_owner (cf_ghosts c') f = Some w"
proof -
  have ttl: "0 < refresh_ttl env" using ttl_pos [OF env] by simp
  have idx: "index_ok {} (refresh_ttl env) (cf_now c) (cf_ghosts c) (au_redis (cf_auth c))" using ok by (simp add: cfg_ok_def)
  from env ok step have "dead (cf_now c') (au_redis (cf_auth c')) f \<and> gh_owner (cf_ghosts c') f = Some w"
  proof (cases rule: auth_step_cases)
    case (tick n)
    then show ?thesis using index_later(2) [OF idx tick(2) d] own by simp
  next
    case (issue h ids dl u role ver r s' row)
    have h: "f \<noteq> h" using issue(3) own by auto
    from issue(4,5) have "dead (cf_now c) (au_redis s') f"
    proof (cases rule: issue_store)
      case 1
      then show ?thesis using d by simp
    next
      case (2 cr)
      have "dead (cf_now c) (addToken (refresh_ttl env) (cf_now c) (sc_refresh_hash cr) u (sc_version cr) (sc_family cr) (au_redis (cf_auth c))) f"
        using d h 2(4) issue(2) by (intro addToken_dead ttl) simp_all
      then show ?thesis unfolding 2(2) by (simp add: same_index_dead [OF issueMulti_same])
    qed
    then show ?thesis using issue(1) h own by (simp add: create_def draw_def)
  next
    case (start h ids i v0 session s' previous)
    then have "f \<noteq> h" using own by auto
    then show ?thesis using start(1) d own by (simp add: draw_def)
  next
    case (attempt h a dl r s')
    have "dead (cf_now c) (snd (rotateScript a (cf_now c) (au_redis (cf_auth c)))) f"
      by (rule rotateScript_effect(2) [OF idx ttl cfg_args(2) [OF ok attempt(2)] refl d])
    then show ?thesis using attempt(1) redis_eval_redis [OF attempt(3)] d own by (simp add: create_def)
  next
    case (quiet s')
    then show ?thesis using shrinks_dead [OF _ d] own by (simp add: quiet_def)
  qed
  then show "dead (cf_now c') (au_redis (cf_auth c')) f" "gh_owner (cf_ghosts c') f = Some w" by simp_all
qed

lemma dead_steps:
  assumes env: "auth_env_ok env" and ok: "cfg_ok env c" and steps: "(auth_step env)\<^sup>*\<^sup>* c c'"
    and d: "dead (cf_now c) (au_redis (cf_auth c)) f" and own: "gh_owner (cf_ghosts c) f = Some w"
  shows "cfg_ok env c' \<and> dead (cf_now c') (au_redis (cf_auth c')) f \<and> gh_owner (cf_ghosts c') f = Some w"
  using steps
proof (induction rule: rtranclp_induct)
  case base
  then show ?case using ok d own by simp
next
  case (step y z)
  then show ?case using dead_step [OF env] cfg_ok_step [OF env] by blast
qed

text \<open>What a hash was drawn for never changes, and versions only rise.\<close>

definition extends :: "auth_cfg \<Rightarrow> auth_cfg \<Rightarrow> bool" where
  "extends c c' \<longleftrightarrow> gh_owner (cf_ghosts c) \<subseteq>\<^sub>m gh_owner (cf_ghosts c') \<and> gh_family (cf_ghosts c) \<subseteq>\<^sub>m gh_family (cf_ghosts c') \<and>
     gh_created (cf_ghosts c) \<subseteq> gh_created (cf_ghosts c') \<and> cf_args c \<subseteq>\<^sub>m cf_args c' \<and>
     (\<forall>h u. gh_owner (cf_ghosts c) h = Some u \<longrightarrow> gh_version (cf_ghosts c') h = gh_version (cf_ghosts c) h) \<and>
     users_grow (au_users (cf_auth c)) (au_users (cf_auth c'))"

lemma users_grow_trans: "users_grow us us' \<Longrightarrow> users_grow us' us'' \<Longrightarrow> users_grow us us''"
  unfolding users_grow_def by (meson order_trans)

lemma extends_refl: "extends c c"
  by (simp add: extends_def users_grow_refl)

lemma extends_trans: "extends c c' \<Longrightarrow> extends c' c'' \<Longrightarrow> extends c c''"
  unfolding extends_def by (auto intro: map_le_trans users_grow_trans) (metis domI map_le_def)

lemma map_le_fresh: "m h = None \<Longrightarrow> m \<subseteq>\<^sub>m m(h \<mapsto> x)"
  by (auto simp: map_le_def)

lemma extends_step:
  assumes env: "auth_env_ok env" and ok: "cfg_ok env c" and step: "auth_step env c c'"
  shows "extends c c'"
  using env ok step
proof (cases rule: auth_step_cases)
  case (tick n)
  then show ?thesis by (simp add: extends_def users_grow_refl)
next
  case (issue h ids d u role ver r s' row)
  have us: "au_users s' = au_users (cf_auth c)" using issue(4,5) by (cases rule: issue_store) simp_all
  have "gh_family (cf_ghosts c) h = None" using cfg_families [OF ok] issue(3) by blast
  then show ?thesis using issue(1,3) by (auto simp: extends_def create_def draw_def us users_grow_refl map_le_fresh)
next
  case (start h ids i v0 session s' previous)
  have "gh_family (cf_ghosts c) h = None" using cfg_families [OF ok] start(3) by blast
  moreover have "cf_args c h = None" using cfg_args(7) [OF ok] start(3) by (cases "cf_args c h") auto
  ultimately show ?thesis using start(1,3) by (auto simp: extends_def draw_def users_grow_refl map_le_fresh)
next
  case (attempt h a d r s')
  then show ?thesis using redis_eval_redis [OF attempt(3)] by (auto simp: extends_def create_def users_grow_refl)
next
  case (quiet s')
  then show ?thesis by (simp add: extends_def quiet_def)
qed

lemma extends_steps:
  assumes env: "auth_env_ok env" and ok: "cfg_ok env c" and steps: "(auth_step env)\<^sup>*\<^sup>* c c'"
  shows "cfg_ok env c' \<and> extends c c'"
  using steps
proof (induction rule: rtranclp_induct)
  case base
  then show ?case using ok by (simp add: extends_refl)
next
  case (step y z)
  then show ?case using extends_step [OF env] cfg_ok_step [OF env] extends_trans by blast
qed

lemma cfg_ok_init: "auth_init c \<Longrightarrow> cfg_ok env c"
  by (simp add: auth_init_def cfg_ok_def index_ok_def refresh_ok_def families_ok_def owners_ok_def refresh_at_def family_at_def
      aliases_ok_def args_ok_def versions_ok_def successors_ok_def redis_empty_def GET_def SMEMBERS_def)

text \<open>Hence the invariant holds in every reachable configuration.\<close>

interpretation sessions: transition_system auth_init "auth_step env" "\<lambda>c. auth_env_ok env \<longrightarrow> cfg_ok env c" for env
  by unfold_locales (auto intro: cfg_ok_init cfg_ok_step)

lemma auth_reachable_ok: "auth_env_ok env \<Longrightarrow> auth_init c0 \<Longrightarrow> (auth_step env)\<^sup>*\<^sup>* c0 c \<Longrightarrow> cfg_ok env c"
  using sessions.inv_reachable by blast

end
