(* ===== verification/SessionSample.thy ===== *)
theory SessionSample
  imports SessionRuns
begin

text \<open>
  A concrete configuration: one account, a token library that keeps the payload with its times, and
  the run in which the account logs in and a rotation of its first refresh token is begun.
\<close>

definition env1 :: "(time \<times> (string \<times> json) list \<times> int) auth_env" where
  "env1 = \<lparr>ACCESS_TOKEN_TTL_MIN = 15, REFRESH_TOKEN_TTL_DAYS = 90, REFRESH_ROTATION_ENABLED = True,
     sha256 = (\<lambda>s. CHR ''h'' # s), jwt_sign = (\<lambda>t p ttl. (t, p, ttl)),
     jwt_verify = (\<lambda>ignore now (t, p, ttl). if ignore \<or> now div 1000 < t div 1000 + ttl
       then Some (JObj (p @ [(''iat'', JNum (t div 1000)), (''exp'', JNum (t div 1000 + ttl))])) else None)\<rparr>"

definition user1 :: user_account where
  "user1 = \<lparr>ac_id = ''u1'', ac_email = ''u1@example.com'', ac_password_hash = Some ''pw'', ac_display_name = ''User'',
     ac_role = RUser, ac_banned = False, ac_version = 1, ac_email_verified_at = Some 0, ac_telegram = None,
     ac_phone = None, ac_phone_verified_at = None, ac_two_factor = False, ac_email_generation = 1, ac_password_generation = 1\<rparr>"

definition auth0 :: auth_state where
  "auth0 = \<lparr>au_users = [user1], au_redis = redis_empty, au_redis_up = True, au_published = [], au_cleared = False,
     au_email_changes = [], au_methods = [], au_backup_codes = [], au_audit = [], au_notified = [], au_wallets = [],
     au_telegrams = [], au_events = []\<rparr>"

definition ids1 :: fresh_ids where
  "ids1 = \<lparr>fr_jti = ''j1'', fr_csrf = ''c1'', fr_refresh = ''r1''\<rparr>"

definition ids2 :: fresh_ids where
  "ids2 = \<lparr>fr_jti = ''j2'', fr_csrf = ''c2'', fr_refresh = ''r2''\<rparr>"

definition cfg0 :: auth_cfg where
  "cfg0 = \<lparr>cf_now = 0, cf_auth = auth0,
     cf_ghosts = \<lparr>gh_owner = Map.empty, gh_family = Map.empty, gh_version = Map.empty, gh_created = {}\<rparr>,
     cf_args = Map.empty\<rparr>"

definition login1 :: "(time \<times> (string \<times> json) list \<times> int) SessionCredentials result \<times> auth_state" where
  "login1 = issueSession env1 0 Replied ids1 ''u1'' RUser None auth0"

definition auth1 :: auth_state where
  "auth1 = snd login1"

definition cfg1 :: auth_cfg where
  "cfg1 = cfg0\<lparr>cf_auth := auth1, cf_ghosts := create ''hr1'' (draw ''hr1'' ''u1'' ''hr1'' 1 (cf_ghosts cfg0))\<rparr>"

definition rotate1 :: rotate_input where
  "rotate1 = \<lparr>ri_user = ''u1'', ri_role = RUser, ri_version = 1, ri_family = ''hr1'', ri_old_hash = ''hr1'',
     ri_expected = refreshRecord ''u1'' 1 ''hr1''\<rparr>"

definition prepared1 :: "(time \<times> (string \<times> json) list \<times> int) SessionCredentials result \<times> auth_state" where
  "prepared1 = prepareSessionCredentials env1 0 ids2 ''u1'' RUser (Some 1) (Some ''hr1'') auth1"

definition args1 :: rotate_args where
  "args1 = rotateArguments env1 0 rotate1 None (projr (fst prepared1))"

definition cfg2 :: auth_cfg where
  "cfg2 = cfg1\<lparr>cf_ghosts := draw ''hr2'' ''u1'' ''hr1'' 1 (cf_ghosts cfg1), cf_args := [''hr2'' \<mapsto> args1]\<rparr>"

lemma env1_ok: "auth_env_ok env1" "jwt_ok env1"
  by (simp_all add: auth_env_ok_def jwt_ok_def env1_def)

lemma env1_simps [simp]:
  "access_ttl env1 = 900" "refresh_ttl env1 = 7776000" "REFRESH_ROTATION_ENABLED env1" "sha256 env1 s = CHR ''h'' # s"
  by (simp_all add: env1_def access_ttl_def refresh_ttl_def)

lemma ids_simps [simp]:
  "fr_refresh ids1 = ''r1''" "fr_jti ids1 = ''j1''" "fr_csrf ids1 = ''c1''"
  "fr_refresh ids2 = ''r2''" "fr_jti ids2 = ''j2''" "fr_csrf ids2 = ''c2''"
  by (simp_all add: ids1_def ids2_def)

lemma user1_simps [simp]: "ac_id user1 = ''u1''" "ac_version user1 = 1" "ac_banned user1 = False" "ac_role user1 = RUser"
  by (simp_all add: user1_def)

lemma auth0_simps [simp]: "au_users auth0 = [user1]" "au_redis auth0 = redis_empty" "au_redis_up auth0"
  by (simp_all add: auth0_def)

definition session1 :: "(time \<times> (string \<times> json) list \<times> int) SessionCredentials" where
  "session1 = \<lparr>sc_access_token = (0, [(''sub'', JStr ''u1''), (''role'', JStr (roleName RUser)), (''jti'', JStr ''j1''),
       (''sv'', JNum 1), (''fid'', JStr ''hr1'')], 900),
     sc_refresh_token = ''r1'', sc_csrf_token = ''c1'', sc_jti = ''j1'', sc_version = 1, sc_family = ''hr1'', sc_refresh_hash = ''hr1''\<rparr>"

lemma login1_result: "login1 = (Inr session1, auth0\<lparr>au_redis := issueMulti env1 0 ''u1'' session1 redis_empty\<rparr>)"
  by (simp add: login1_def issueSession_def prepareSessionCredentials_def accountById_def requireRedis_def redis_do_def redis_eval_def
      tx_defs Let_def session1_def) (simp add: env1_def)

lemma auth1_simps [simp]:
  "au_users auth1 = [user1]" "au_redis_up auth1" "au_redis auth1 = issueMulti env1 0 ''u1'' session1 redis_empty"
  "au_published auth1 = []" "au_cleared auth1 = False"
  by (simp_all add: auth1_def login1_result) (simp_all add: auth0_def)

lemma session1_simps [simp]:
  "sc_jti session1 = ''j1''" "sc_version session1 = 1" "sc_family session1 = ''hr1''" "sc_refresh_hash session1 = ''hr1''"
  "sc_access_token session1 = (0, [(''sub'', JStr ''u1''), (''role'', JStr (roleName RUser)), (''jti'', JStr ''j1''),
       (''sv'', JNum 1), (''fid'', JStr ''hr1'')], 900)"
  by (simp_all add: session1_def)

lemma cfg1_simps [simp]: "cf_now cfg1 = 0" "cf_auth cfg1 = auth1" "gh_owner (cf_ghosts cfg1) = [''hr1'' \<mapsto> ''u1'']"
  "gh_family (cf_ghosts cfg1) = [''hr1'' \<mapsto> ''hr1'']"
  by (simp_all add: cfg1_def cfg0_def create_def draw_def)

lemma cfg0_init: "auth_init cfg0"
  by (simp add: auth_init_def cfg0_def)

lemma cfg1_reached: "(auth_step env1)\<^sup>*\<^sup>* cfg0 cfg1"
proof -
  have "auth_step env1 cfg0 (cfg0\<lparr>cf_auth := auth1,
      cf_ghosts := create ''hr1'' (draw ''hr1'' ''u1'' ''hr1'' (ac_version user1) (cf_ghosts cfg0))\<rparr>)"
    by (rule auth_step.issue [where ids = ids1 and d = Replied and role = RUser and ver = None and r = "fst login1"])
      (simp_all add: cfg0_def login1_def [symmetric] auth1_def)
  then show ?thesis by (simp add: cfg1_def r_into_rtranclp)
qed

lemma GET_auth1:
  "GET 0 (Refresh ''hr1'') (au_redis auth1) = Some (refreshRecord ''u1'' 1 ''hr1'')"
  "GET 0 (RefreshFamily ''hr1'') (au_redis auth1) = Some (familyRecord ''active'' ''u1'')"
  by (simp_all add: issueMulti_def issueIndex_def GET_def look_def)

definition session2 :: "(time \<times> (string \<times> json) list \<times> int) SessionCredentials" where
  "session2 = \<lparr>sc_access_token = (0, [(''sub'', JStr ''u1''), (''role'', JStr (roleName RUser)), (''jti'', JStr ''j2''),
       (''sv'', JNum 1), (''fid'', JStr ''hr1'')], 900),
     sc_refresh_token = ''r2'', sc_csrf_token = ''c2'', sc_jti = ''j2'', sc_version = 1, sc_family = ''hr1'', sc_refresh_hash = ''hr2''\<rparr>"

lemma prepared1_result: "prepared1 = (Inr session2, auth1)"
  by (simp add: prepared1_def prepareSessionCredentials_def accountById_def tx_defs Let_def session2_def) (simp add: env1_def)

lemma args1_simps [simp]:
  "ra_old_hash args1 = ''hr1''" "ra_expected args1 = refreshRecord ''u1'' 1 ''hr1''" "ra_user args1 = ''u1''"
  "ra_family args1 = ''hr1''" "ra_new_hash args1 = ''hr2''" "ra_rotate args1" "ra_previous args1 = []" "ra_now args1 = 0"
  "ra_jti args1 = ''j2''" "ra_max_sessions args1 = 512" "ra_active args1 = familyRecord ''active'' ''u1''"
  "ra_refresh_ttl args1 = 7776000" "ra_access_ttl args1 = 900" "ra_receipt_ttl args1 = 300"
  by (simp_all add: args1_def prepared1_result rotateArguments_def rotate1_def session2_def previousSessionId_def
      parseAccessSessionForLogout_def MAX_REFRESH_FAMILY_SESSIONS_def REFRESH_ROTATION_RECEIPT_TTL_SECONDS_def)

lemma cfg2_reached: "(auth_step env1)\<^sup>*\<^sup>* cfg0 cfg2"
proof -
  have "auth_step env1 cfg1 (cfg1\<lparr>cf_ghosts := draw ''hr2'' (ri_user rotate1) (ri_family rotate1) (sc_version session2) (cf_ghosts cfg1),
      cf_args := (cf_args cfg1)(''hr2'' \<mapsto> rotateArguments env1 (cf_now cfg1) rotate1 None session2)\<rparr>)"
    by (rule auth_step.start [where ids = ids2 and ?v0.0 = 1 and s' = auth1])
      (use prepared1_result in \<open>simp_all add: rotate1_def prepared1_def\<close>)
  moreover have "cf_args cfg1 = Map.empty" by (simp add: cfg1_def cfg0_def)
  ultimately have "auth_step env1 cfg1 cfg2"
    by (simp add: cfg2_def args1_def prepared1_result) (simp add: rotate1_def session2_def)
  then show ?thesis using cfg1_reached by (rule rtranclp.rtrancl_into_rtrancl [rotated])
qed

end
