(* ===== verification/SessionSafety.thy ===== *)
theory SessionSafety
  imports SessionSample
begin

text \<open>
  What the session service guarantees in every run: logout ends a family for good, a refresh token is
  exchanged at most once, a raised session version kills everything older, ending every session of a
  user leaves none, an interrupted rotation can be retried, a family never indexes more than
  \<open>MAX_REFRESH_FAMILY_SESSIONS\<close> sessions, and a session just issued opens the door.
\<close>

section \<open>What a successful request proves about the store\<close>

lemma parse_refreshRecord:
  "parseRefreshRecord (refreshRecord u v f) = Some \<lparr>rr_user = u, rr_version = v, rr_family = (if f = [] then None else Some f)\<rparr>"
  by (simp add: parseRefreshRecord_def refreshRecord_def nonempty_def)

lemma refreshRoute_reads:
  assumes "refreshRoute env now d ds ids tok acc s = (Inr x, s')"
  obtains t raw rc row where "tok = Some t" "GET now (Refresh (sha256 env t)) (au_redis s) = Some raw"
    "parseRefreshRecord raw = Some rc" "t_find ac_id (rr_user rc) (au_users s) = Some row"
    "rr_version rc = ac_version row" "\<not> ac_banned row"
  using assms
  by (auto simp: refreshRoute_def tx_simps Let_def split: option.splits) (metis prod.collapse)+

text \<open>In a configuration that satisfies the invariant the record is the hash's own.\<close>

lemma refreshRoute_live:
  assumes ok: "cfg_ok env c" and r: "refreshRoute env (cf_now c) d ds ids (Some t) acc (cf_auth c) = (Inr x, s')"
  obtains u v f row y where
    "refresh_at (cf_now c) (au_redis (cf_auth c)) (sha256 env t) (refreshRecord u v f) (Some y)"
    "gh_owner (cf_ghosts c) (sha256 env t) = Some u" "gh_family (cf_ghosts c) (sha256 env t) = Some f"
    "gh_version (cf_ghosts c) (sha256 env t) = Some v" "t_find ac_id u (au_users (cf_auth c)) = Some row" "v = ac_version row"
proof -
  from r obtain raw rc row where g: "GET (cf_now c) (Refresh (sha256 env t)) (au_redis (cf_auth c)) = Some raw"
    and p: "parseRefreshRecord raw = Some rc" and row: "t_find ac_id (rr_user rc) (au_users (cf_auth c)) = Some row"
    "rr_version rc = ac_version row" by (rule refreshRoute_reads) simp
  have idx: "index_ok {} (refresh_ttl env) (cf_now c) (cf_ghosts c) (au_redis (cf_auth c))" using ok by (simp add: cfg_ok_def)
  from g obtain e where at: "refresh_at (cf_now c) (au_redis (cf_auth c)) (sha256 env t) raw e" by (auto simp: refresh_at_GET)
  obtain u v f y where raw: "raw = refreshRecord u v f"
    and at': "refresh_at (cf_now c) (au_redis (cf_auth c)) (sha256 env t) (refreshRecord u v f) (Some y)"
    by (rule index_record [OF idx at])
  show thesis
    by (rule that [OF at' index_tokens(4,5) [OF idx at'] cfg_record_version [OF ok at']])
      (use row p in \<open>auto simp: raw parse_refreshRecord\<close>)
qed

lemma no_refresh_refused:
  assumes ok: "cfg_ok env c" and n: "no_refresh (cf_now c) (au_redis (cf_auth c)) f"
    and t: "gh_family (cf_ghosts c) (sha256 env t) = Some f"
  shows "refreshRoute env (cf_now c) d ds ids (Some t) acc (cf_auth c) \<noteq> (Inr x, s')"
proof
  assume "refreshRoute env (cf_now c) d ds ids (Some t) acc (cf_auth c) = (Inr x, s')"
  then obtain u v f' y where at: "refresh_at (cf_now c) (au_redis (cf_auth c)) (sha256 env t) (refreshRecord u v f') (Some y)"
    and "gh_family (cf_ghosts c) (sha256 env t) = Some f'" by (rule refreshRoute_live [OF ok])
  with t n show False by (simp add: no_refresh_def)
qed

lemma not_active_refused:
  assumes ok: "cfg_ok env c" and n: "not_active (cf_now c) (au_redis (cf_auth c)) f"
    and p: "jwt_verify env False (cf_now c) tok = Some p" "nonempty (json_member ''fid'' p) = Some f"
  shows "authenticate env (cf_now c) d (Some tok) (cf_auth c) \<noteq> (Inr x, s')"
proof
  assume "authenticate env (cf_now c) d (Some tok) (cf_auth c) = (Inr x, s')"
  with p obtain u where "isActiveFamilyRecord (GET (cf_now c) (RefreshFamily f) (au_redis (cf_auth c))) (Some u)"
    unfolding authenticate_iff by auto
  then obtain raw where raw: "GET (cf_now c) (RefreshFamily f) (au_redis (cf_auth c)) = Some raw" "familyActive u raw"
    by (auto simp: isActiveFamilyRecord_def split: option.splits)
  then obtain e where at: "family_at (cf_now c) (au_redis (cf_auth c)) f raw e" by (auto simp: family_at_GET)
  from ok have "families_ok (refresh_ttl env) (cf_now c) (cf_ghosts c) (au_redis (cf_auth c))" by (simp add: cfg_ok_def index_ok_def)
  with at have "(\<exists>w. raw = familyRecord ''revoked'' w) \<or> (\<exists>w. raw = familyRecord ''active'' w)"
    unfolding families_ok_def by blast
  with raw(2) at n show False by (auto simp: familyActive_def familyRecord_def not_active_def)
qed

section \<open>Logout\<close>

lemma logout_dead:
  assumes env: "auth_env_ok env" and ok: "cfg_ok env c"
    and live: "GET (cf_now c) (Refresh (sha256 env t)) (au_redis (cf_auth c)) = Some (refreshRecord u v f)"
    and ne: "sha256 env t \<noteq> []" "u \<noteq> []" "f \<noteq> []"
    and lo: "revokePresentedSessionCredentials env (cf_now c) d access (Some t) (cf_auth c) = (Inr x, s')"
  shows "dead (cf_now c) (au_redis s') f"
proof -
  let ?a = "logoutArguments env (cf_now c) (parseAccessSessionForLogout env (cf_now c) access) (Some t)"
  have idx: "index_ok {} (refresh_ttl env) (cf_now c) (cf_ghosts c) (au_redis (cf_auth c))" using ok by (simp add: cfg_ok_def)
  have a: "la_refresh_ttl ?a = refresh_ttl env" "la_refresh_hash ?a = sha256 env t" by (simp_all add: logoutArguments_def)
  from live obtain e where at: "refresh_at (cf_now c) (au_redis (cf_auth c)) (sha256 env t) (refreshRecord u v f) e"
    by (auto simp: refresh_at_GET)
  obtain u' v' f' x' where "refreshRecord u v f = refreshRecord u' v' f'"
    "refresh_at (cf_now c) (au_redis (cf_auth c)) (sha256 env t) (refreshRecord u' v' f') (Some x')"
    by (rule index_record [OF idx at])
  then have at': "refresh_at (cf_now c) (au_redis (cf_auth c)) (sha256 env t) (refreshRecord u v f) (Some x')" by simp
  have fam: "gh_family (cf_ghosts c) (sha256 env t) = Some f" by (rule index_tokens(5) [OF idx at'])
  have "aliases_ok (cf_now c) (cf_ghosts c) (au_redis (cf_auth c))" using ok by (simp add: cfg_ok_def)
  with fam have al: "GET (cf_now c) (RefreshFamilyFor (sha256 env t)) (au_redis (cf_auth c)) = None \<or>
      GET (cf_now c) (RefreshFamilyFor (sha256 env t)) (au_redis (cf_auth c)) = Some (Text f)"
    unfolding aliases_ok_def by (metis not_None_eq option.inject)
  have "dead (cf_now c) (snd (logoutScript ?a (cf_now c) (au_redis (cf_auth c)))) f"
    by (rule logoutScript_fences [OF idx _ a(1), of u v f "Some x'"]) (use ttl_pos [OF env] at' ne al a in auto)
  moreover have "au_redis s' = snd (logoutScript ?a (cf_now c) (au_redis (cf_auth c)))"
    using lo by (auto simp: revokePresentedSessionCredentials_def Let_def tx_simps)
  ultimately show ?thesis by simp
qed

text \<open>
  C9: logout fences the refresh family for good. After \<open>/auth/logout\<close> has answered to a browser that
  presented a live refresh token, then in every later state of any interleaving of requests,
  including refreshes that had already read the token and only now run their script, no refresh with
  any token of that family succeeds and no access token issued in it is accepted.
\<close>

theorem logout_ends_family:
  assumes env: "auth_env_ok env" and reach: "auth_init c0" "(auth_step env)\<^sup>*\<^sup>* c0 c"
    and live: "GET (cf_now c) (Refresh (sha256 env t)) (au_redis (cf_auth c)) = Some (refreshRecord u v f)"
    and ne: "sha256 env t \<noteq> []" "u \<noteq> []" "f \<noteq> []"
    and lo: "logoutRoute env (cf_now c) d access (Some t) (cf_auth c) = (Inr (), s')"
    and later: "(auth_step env)\<^sup>*\<^sup>* (c\<lparr>cf_auth := s'\<rparr>) c2"
  shows "(gh_family (cf_ghosts c2) (sha256 env t2) = Some f \<longrightarrow>
      (\<forall>d ds ids acc x s2. refreshRoute env (cf_now c2) d ds ids (Some t2) acc (cf_auth c2) \<noteq> (Inr x, s2))) \<and>
    (\<forall>tok p. jwt_verify env False (cf_now c2) tok = Some p \<longrightarrow> nonempty (json_member ''fid'' p) = Some f \<longrightarrow>
      (\<forall>d x s2. authenticate env (cf_now c2) d (Some tok) (cf_auth c2) \<noteq> (Inr x, s2)))"
proof -
  have ok: "cfg_ok env c" by (rule auth_reachable_ok [OF env reach])
  have idx: "index_ok {} (refresh_ttl env) (cf_now c) (cf_ghosts c) (au_redis (cf_auth c))" using ok by (simp add: cfg_ok_def)
  from lo obtain s1 where r1: "revokePresentedSessionCredentials env (cf_now c) d access (Some t) (cf_auth c) = (Inr (), s1)"
    and s': "s' = s1\<lparr>au_cleared := True\<rparr>" by (auto simp: logoutRoute_def tx_simps)
  have d1: "dead (cf_now c) (au_redis s') f" using logout_dead [OF env ok live ne r1] by (simp add: s')
  have step1: "auth_step env c (c\<lparr>cf_auth := s1\<rparr>)" by (rule auth_step.logout [OF r1])
  have ok1: "cfg_ok env (c\<lparr>cf_auth := s1\<rparr>)" by (rule cfg_ok_step [OF env ok step1])
  have "auth_step env (c\<lparr>cf_auth := s1\<rparr>) ((c\<lparr>cf_auth := s1\<rparr>)\<lparr>cf_auth := s'\<rparr>)"
    by (rule auth_step.other) (simp_all add: s' users_grow_refl)
  then have ok': "cfg_ok env (c\<lparr>cf_auth := s'\<rparr>)" using cfg_ok_step [OF env ok1] by simp
  from live obtain e where "refresh_at (cf_now c) (au_redis (cf_auth c)) (sha256 env t) (refreshRecord u v f) e" by (auto simp: refresh_at_GET)
  then obtain u' v' f' x' where "refreshRecord u v f = refreshRecord u' v' f'"
    "refresh_at (cf_now c) (au_redis (cf_auth c)) (sha256 env t) (refreshRecord u' v' f') (Some x')"
    by (rule index_record [OF idx])
  then have own: "gh_owner (cf_ghosts c) f = Some u" using index_tokens(6) [OF idx] by auto
  have "cfg_ok env c2 \<and> dead (cf_now c2) (au_redis (cf_auth c2)) f \<and> gh_owner (cf_ghosts c2) f = Some u"
    by (rule dead_steps [OF env ok' later]) (use d1 own in simp_all)
  then show ?thesis by (auto simp: dead_def no_refresh_refused not_active_refused)
qed

section \<open>Rotation\<close>

lemma attempt_created:
  assumes env: "auth_env_ok env" and ok: "cfg_ok env c" and a: "cf_args c h = Some a"
    and e: "redis_eval d (rotateScript a (cf_now c)) (cf_auth c) = (Inr 1, s')"
  shows "cfg_ok env (c\<lparr>cf_auth := s', cf_ghosts := create h (cf_ghosts c)\<rparr>)"
    "auth_step env c (c\<lparr>cf_auth := s', cf_ghosts := create h (cf_ghosts c)\<rparr>)"
proof -
  have d: "d = Replied" "fst (rotateScript a (cf_now c) (au_redis (cf_auth c))) = 1" using e by (auto simp: tx_simps)
  then show st: "auth_step env c (c\<lparr>cf_auth := s', cf_ghosts := create h (cf_ghosts c)\<rparr>)"
    by (intro auth_step.attempt [OF a e]) simp
  show "cfg_ok env (c\<lparr>cf_auth := s', cf_ghosts := create h (cf_ghosts c)\<rparr>)" by (rule cfg_ok_step [OF env ok st])
qed

text \<open>
  C10: with rotation enabled a refresh token is exchanged at most once. If the rotation script answers
  1 for one rotation of a token and later, however requests interleave, answers 1 for a rotation of
  the same token, then both are the same rotation (the retry of a lost answer).
\<close>

theorem refresh_exchanged_once:
  assumes env: "auth_env_ok env" and rot: "REFRESH_ROTATION_ENABLED env"
    and reach: "auth_init c0" "(auth_step env)\<^sup>*\<^sup>* c0 c"
    and first: "cf_args c h = Some a" "redis_eval d (rotateScript a (cf_now c)) (cf_auth c) = (Inr 1, s')"
    and later: "(auth_step env)\<^sup>*\<^sup>* (c\<lparr>cf_auth := s', cf_ghosts := create h (cf_ghosts c)\<rparr>) c2"
    and second: "cf_args c2 h2 = Some a2" "redis_eval d2 (rotateScript a2 (cf_now c2)) (cf_auth c2) = (Inr 1, s2)"
      "ra_old_hash a2 = ra_old_hash a"
  shows "h2 = h"
proof -
  have ok: "cfg_ok env c" by (rule auth_reachable_ok [OF env reach])
  note ok1 = attempt_created(1) [OF env ok first]
  from extends_steps [OF env ok1 later] have ok2: "cfg_ok env c2"
    and ext: "extends (c\<lparr>cf_auth := s', cf_ghosts := create h (cf_ghosts c)\<rparr>) c2" by simp_all
  have h2: "cf_args c2 h = Some a" "h \<in> gh_created (cf_ghosts c2)"
    using ext first(1) by (auto simp: extends_def create_def map_le_def dom_def)
  let ?c3 = "c2\<lparr>cf_auth := s2, cf_ghosts := create h2 (cf_ghosts c2)\<rparr>"
  have ok3: "cfg_ok env ?c3" by (rule attempt_created(1) [OF env ok2 second(1,2)])
  have "ra_rotate a" using cfg_args(3) [OF ok first(1)] rot by simp
  then show ?thesis
    using cfg_successor(3) [OF ok3, of h a h2 a2] h2 second(1,3) by (simp add: create_def)
qed

lemma commit_values:
  assumes "0 < ra_refresh_ttl a" "0 < ra_access_ttl a" "0 < ra_receipt_ttl a" "ra_new_hash a \<noteq> ra_old_hash a" "ra_rotate a"
  shows "GET now (Refresh (ra_old_hash a)) (commitRotation a now r) = None"
    "GET now (RotationReceipt (ra_old_hash a)) (commitRotation a now r) = Some (Text (ra_new_hash a))"
    "GET now (RefreshFamily (ra_family a)) (commitRotation a now r) = Some (ra_active a)"
    "GET now (Refresh (ra_new_hash a)) (commitRotation a now r) = Some (ra_new_record a)"
    "GET now (Session (ra_jti a)) (commitRotation a now r) = Some (Text (ra_user a))"
  using assms
  by (simp_all add: GET_def look_def commitRotation_def consumeOld_def indexRotation_def writeRotation_def bridgePrevious_def)

text \<open>Running the script again right after it answered 1 answers 1 and changes nothing.\<close>

lemma rotateScript_again:
  assumes "0 < ra_refresh_ttl a" "0 < ra_access_ttl a" "0 < ra_receipt_ttl a" "ra_new_hash a \<noteq> ra_old_hash a" "ra_rotate a"
    and act: "ra_active a = familyRecord ''active'' (ra_user a)"
    and one: "rotateScript a now r = (1, r')"
  shows "rotateScript a now r' = (1, r')"
proof (cases rule: rotateScript_cases [of now a r])
  case commit
  with one have r': "r' = commitRotation a now (dropExpiredSessions a now r)" by simp
  show ?thesis
    unfolding rotateScript_def rotateRetry_def r'
    using commit_values [OF assms(1-5)] by (simp add: act familyActive_def familyRecord_def)
qed (use one in auto)

text \<open>
  C11: a rotation whose answer is lost can be retried. When the first reply never arrives although the
  script ran, the second attempt returns the same credentials and leaves the same state as a rotation
  whose reply arrived.
\<close>

theorem lost_reply_retried:
  assumes env: "auth_env_ok env" and rot: "REFRESH_ROTATION_ENABLED env"
    and new: "sha256 env (fr_refresh ids) \<noteq> ri_old_hash i"
    and r: "rotateRefreshSession env now (Replied, d2) ids i previous s = (Inr (Some c), s')"
  shows "rotateRefreshSession env now (LostAfter, Replied) ids i previous s = (Inr (Some c), s')"
proof -
  let ?a = "rotateArguments env now i previous c"
  from r have up: "au_redis_up s"
    and p: "prepareSessionCredentials env now ids (ri_user i) (ri_role i) (Some (ri_version i)) (Some (ri_family i)) s = (Inr c, s)"
    and a: "rotateAttempts [Replied, d2] now ?a c s = (Inr (Some c), s')"
    by (auto simp: rotateRefreshSession_def prepareSessionCredentials_def tx_simps Let_def redis_eval_def split: if_splits prod.splits)
  from p have h: "sc_refresh_hash c = sha256 env (fr_refresh ids)" by (rule prepare_session)
  from a obtain r' where one: "rotateScript ?a now (au_redis s) = (1, r')" and s': "s' = s\<lparr>au_redis := r'\<rparr>"
    by (cases "rotateScript ?a now (au_redis s)") (auto simp: redis_eval_def split: if_splits)
  have "rotateScript ?a now r' = (1, r')"
    by (rule rotateScript_again [OF _ _ _ _ _ _ one])
      (use ttl_pos [OF env] rot new h in \<open>simp_all add: rotateArguments_def REFRESH_ROTATION_RECEIPT_TTL_SECONDS_def\<close>)
  then have "rotateAttempts [LostAfter, Replied] now ?a c s = (Inr (Some c), s')"
    by (simp add: redis_eval_def one s')
  then show ?thesis
    using up p by (simp add: rotateRefreshSession_def requireRedis_def tx_defs)
qed

section \<open>Epochs and ending every session\<close>

text \<open>What a raised version does, however it was raised.\<close>

lemma version_raised:
  assumes env: "auth_env_ok env" and ok: "cfg_ok env c" and ok1: "cfg_ok env c1" and ext1: "extends c c1"
    and row: "t_find ac_id u (au_users (cf_auth c)) = Some row" "t_find ac_id u (au_users (cf_auth c1)) = Some row1"
      "ac_version row < ac_version row1"
    and later: "(auth_step env)\<^sup>*\<^sup>* c1 c2"
  shows "gh_owner (cf_ghosts c) (sha256 env t) = Some u \<Longrightarrow>
      refreshRoute env (cf_now c2) d ds ids (Some t) acc (cf_auth c2) \<noteq> (Inr x, s2)"
    and "jwt_verify env False (cf_now c2) tok = Some p \<Longrightarrow> json_member ''sub'' p = Some (JStr u) \<Longrightarrow>
      json_member ''sv'' p = Some (JNum m) \<Longrightarrow> m < ac_version row1 \<Longrightarrow>
      authenticate env (cf_now c2) d (Some tok) (cf_auth c2) \<noteq> (Inr y, s2)"
proof -
  from extends_steps [OF env ok1 later] have ok2: "cfg_ok env c2" and ext: "extends c1 c2" by simp_all
  from ext row(2) obtain row2 where row2: "t_find ac_id u (au_users (cf_auth c2)) = Some row2" "ac_version row1 \<le> ac_version row2"
    unfolding extends_def users_grow_def by fastforce
  show "refreshRoute env (cf_now c2) d ds ids (Some t) acc (cf_auth c2) \<noteq> (Inr x, s2)"
    if o: "gh_owner (cf_ghosts c) (sha256 env t) = Some u"
  proof
    assume "refreshRoute env (cf_now c2) d ds ids (Some t) acc (cf_auth c2) = (Inr x, s2)"
    then obtain w v row3 where a: "gh_owner (cf_ghosts c2) (sha256 env t) = Some w" "gh_version (cf_ghosts c2) (sha256 env t) = Some v"
      "t_find ac_id w (au_users (cf_auth c2)) = Some row3" "v = ac_version row3" by (rule refreshRoute_live [OF ok2])
    have o1: "gh_owner (cf_ghosts c1) (sha256 env t) = Some u" using ext1 o by (auto simp: extends_def map_le_def dom_def)
    then have "w = u" using ext a(1) by (auto simp: extends_def map_le_def dom_def)
    moreover have "gh_version (cf_ghosts c2) (sha256 env t) = gh_version (cf_ghosts c) (sha256 env t)"
      using ext ext1 o o1 by (auto simp: extends_def)
    moreover obtain v0 row0 where "gh_version (cf_ghosts c) (sha256 env t) = Some v0" "t_find ac_id u (au_users (cf_auth c)) = Some row0"
      "v0 \<le> ac_version row0" by (rule cfg_owner_version [OF ok o])
    ultimately show False using a row row2 by simp
  qed
  show "authenticate env (cf_now c2) d (Some tok) (cf_auth c2) \<noteq> (Inr y, s2)"
    if "jwt_verify env False (cf_now c2) tok = Some p" "json_member ''sub'' p = Some (JStr u)" "json_member ''sv'' p = Some (JNum m)"
      "m < ac_version row1"
    using that row2 unfolding authenticate_iff by (auto simp: versionMatches_def)
qed

text \<open>
  A raised session version kills everything older. Once \<open>bumpSessionVersion\<close> has returned \<open>n\<close>
  for a user (a password change or reset, a ban, a changed second factor, a logout everywhere), no
  refresh token drawn for the user before, not even by a rotation still in flight, is ever refreshed
  again, and no access token of the user signed with a version below \<open>n\<close> is ever accepted, whatever
  happened to Redis.
\<close>

theorem old_epoch_refused:
  assumes env: "auth_env_ok env" and reach: "auth_init c0" "(auth_step env)\<^sup>*\<^sup>* c0 c"
    and bump: "bumpSessionVersion u (cf_auth c) = (Inr n, s')"
    and later: "(auth_step env)\<^sup>*\<^sup>* (c\<lparr>cf_auth := s'\<rparr>) c2"
  shows "(gh_owner (cf_ghosts c) (sha256 env t) = Some u \<longrightarrow>
      (\<forall>d ds ids acc x s2. refreshRoute env (cf_now c2) d ds ids (Some t) acc (cf_auth c2) \<noteq> (Inr x, s2))) \<and>
    (\<forall>tok p m. jwt_verify env False (cf_now c2) tok = Some p \<longrightarrow> json_member ''sub'' p = Some (JStr u) \<longrightarrow>
      json_member ''sv'' p = Some (JNum m) \<longrightarrow> m < n \<longrightarrow>
      (\<forall>d x s2. authenticate env (cf_now c2) d (Some tok) (cf_auth c2) \<noteq> (Inr x, s2)))"
proof -
  have ok: "cfg_ok env c" by (rule auth_reachable_ok [OF env reach])
  from bump have s': "s' = (cf_auth c)\<lparr>au_users := t_upd ac_id u (\<lambda>u. u\<lparr>ac_version := ac_version u + 1\<rparr>) (au_users (cf_auth c))\<rparr>"
    by (auto simp: bumpSessionVersion_def tx_simps)
  have find: "t_find ac_id i (au_users s') = (if i = u then map_option (\<lambda>u. u\<lparr>ac_version := ac_version u + 1\<rparr>) (t_find ac_id u (au_users (cf_auth c)))
      else t_find ac_id i (au_users (cf_auth c)))" for i by (simp add: s' t_find_upd)
  from bump obtain row where row: "t_find ac_id u (au_users (cf_auth c)) = Some row" "n = ac_version row + 1"
    using find [of u] by (cases "t_find ac_id u (au_users (cf_auth c))") (auto simp: bumpSessionVersion_def tx_simps s')
  have step: "auth_step env c (c\<lparr>cf_auth := s'\<rparr>)"
    by (rule auth_step.other) (auto simp: users_grow_def find, simp_all add: s')
  then have ext: "extends c (c\<lparr>cf_auth := s'\<rparr>)" and ok1: "cfg_ok env (c\<lparr>cf_auth := s'\<rparr>)"
    using extends_steps [OF env ok] by blast+
  have row1: "t_find ac_id u (au_users (cf_auth (c\<lparr>cf_auth := s'\<rparr>))) = Some (row\<lparr>ac_version := n\<rparr>)" using row by (simp add: find)
  have less: "ac_version row < ac_version (row\<lparr>ac_version := n\<rparr>)" using row(2) by simp
  note V = version_raised [OF env ok ok1 ext row(1) row1 less later]
  then show ?thesis by simp
qed

text \<open>The owner of a family is the owner of its tokens.\<close>

definition coherent :: "auth_cfg \<Rightarrow> bool" where
  "coherent c \<longleftrightarrow> (\<forall>h f. gh_family (cf_ghosts c) h = Some f \<longrightarrow> gh_owner (cf_ghosts c) f = gh_owner (cf_ghosts c) h)"

lemma coherent_step:
  assumes env: "auth_env_ok env" and ok: "cfg_ok env c" and co: "coherent c" and step: "auth_step env c c'"
  shows "coherent c'"
  using env ok step
proof (cases rule: auth_step_cases)
  case (issue h ids d u role ver r s' row)
  have "gh_owner (cf_ghosts c) f = gh_owner (cf_ghosts c) k \<and> f \<noteq> h" if "gh_family (cf_ghosts c) k = Some f" "k \<noteq> h" for k f
    using co that issue(3) cfg_families [OF ok, of k] by (auto simp: coherent_def)
  then show ?thesis unfolding issue(1) coherent_def by (auto simp: create_def draw_def)
next
  case (start h ids i v0 session s' previous)
  have "gh_owner (cf_ghosts c) f = gh_owner (cf_ghosts c) k \<and> f \<noteq> h" if "gh_family (cf_ghosts c) k = Some f" "k \<noteq> h" for k f
    using co that start(3) cfg_families [OF ok, of k] by (auto simp: coherent_def)
  moreover have "gh_owner (cf_ghosts c) (ri_family i) = Some (ri_user i)" using co start(5,6) by (auto simp: coherent_def)
  ultimately show ?thesis unfolding start(1) coherent_def using start(3) by (auto simp: draw_def)
qed (use co in \<open>auto simp: coherent_def create_def\<close>)

lemma coherent_reachable:
  assumes env: "auth_env_ok env" and "auth_init c0" "(auth_step env)\<^sup>*\<^sup>* c0 c"
  shows "coherent c"
  using assms(3,2)
proof (induction rule: rtranclp_induct)
  case base
  then show ?case by (simp add: auth_init_def coherent_def)
next
  case (step y z)
  then show ?case using coherent_step [OF env] auth_reachable_ok [OF env] by blast
qed

text \<open>
  C15: ending every session of a user leaves none. After \<open>revokeAllUserSessions\<close> has reached Redis,
  no refresh token drawn for the user before is ever refreshed again, in any later state, and no
  access token of a family of theirs is ever accepted again: the per-user sets it enumerates miss none.
\<close>

theorem revoke_all_complete:
  assumes env: "auth_env_ok env" and reach: "auth_init c0" "(auth_step env)\<^sup>*\<^sup>* c0 c"
    and up: "au_redis_up (cf_auth c)"
    and rv: "revokeAllUserSessions env (cf_now c) Replied u None strict pub (cf_auth c) = (r, s')"
    and later: "(auth_step env)\<^sup>*\<^sup>* (c\<lparr>cf_auth := s'\<rparr>) c2"
  shows "(gh_owner (cf_ghosts c) (sha256 env t) = Some u \<longrightarrow>
      (\<forall>d ds ids acc x s2. refreshRoute env (cf_now c2) d ds ids (Some t) acc (cf_auth c2) \<noteq> (Inr x, s2))) \<and>
    (\<forall>tok p f. jwt_verify env False (cf_now c2) tok = Some p \<longrightarrow> nonempty (json_member ''fid'' p) = Some f \<longrightarrow>
      gh_owner (cf_ghosts c) f = Some u \<longrightarrow>
      (\<forall>d x s2. authenticate env (cf_now c2) d (Some tok) (cf_auth c2) \<noteq> (Inr x, s2)))"
proof -
  have ok: "cfg_ok env c" and co: "coherent c"
    by (rule auth_reachable_ok [OF env reach], rule coherent_reachable [OF env reach])
  have ttl: "0 < refresh_ttl env" using ttl_pos [OF env] by simp
  have idx: "index_ok {} (refresh_ttl env) (cf_now c) (cf_ghosts c) (au_redis (cf_auth c))" using ok by (simp add: cfg_ok_def)
  let ?r = "snd (revokeAllScript u [] (refresh_ttl env) (cf_now c) (au_redis (cf_auth c)))"
  have s': "au_redis s' = ?r"
    using rv up by (auto simp: revokeAllUserSessions_def redis_eval_def tx_defs tx_catch_def publish_def split: if_splits)
  have idx': "index_ok {} (refresh_ttl env) (cf_now c) (cf_ghosts c) ?r" by (rule revokeAllScript_effect(1) [OF idx ttl])
  have out: "user_out (cf_now c) ?r u" by (rule revokeAllScript_effect(4) [OF idx ttl refl])
  have d: "dead (cf_now c) ?r f" if f: "gh_owner (cf_ghosts c) f = Some u" for f
    unfolding dead_def no_refresh_def not_active_def
  proof (intro conjI allI notI)
    fix h w v e
    assume at: "refresh_at (cf_now c) ?r h (refreshRecord w v f) e"
    obtain w' v' f' x where "refreshRecord w v f = refreshRecord w' v' f'" "refresh_at (cf_now c) ?r h (refreshRecord w' v' f') (Some x)"
      by (rule index_record [OF idx' at])
    then have "gh_owner (cf_ghosts c) f = Some w" using index_tokens(6) [OF idx'] by auto
    with f at out show False by (auto simp: user_out_def)
  next
    fix w e
    assume at: "family_at (cf_now c) ?r f (familyRecord ''active'' w) e"
    then have "gh_owner (cf_ghosts c) f = Some w" by (rule index_active(1) [OF idx'])
    with f at out show False by (auto simp: user_out_def)
  qed
  have step1: "auth_step env c (c\<lparr>cf_auth := s'\<rparr>)" by (rule auth_step.revoke_all [OF rv])
  have ok1: "cfg_ok env (c\<lparr>cf_auth := s'\<rparr>)" by (rule cfg_ok_step [OF env ok step1])
  from extends_steps [OF env ok1 later] have ok2: "cfg_ok env c2" and ext: "extends (c\<lparr>cf_auth := s'\<rparr>) c2" by simp_all
  have d2: "dead (cf_now c2) (au_redis (cf_auth c2)) f" if f: "gh_owner (cf_ghosts c) f = Some u" for f
    using dead_steps [OF env ok1 later, of f u] d [OF f] f s' by simp
  have "refreshRoute env (cf_now c2) d ds ids (Some t) acc (cf_auth c2) \<noteq> (Inr x, s2)"
    if o: "gh_owner (cf_ghosts c) (sha256 env t) = Some u" for d ds ids acc x s2
  proof -
    obtain f where f: "gh_family (cf_ghosts c) (sha256 env t) = Some f" using cfg_families [OF ok, of "sha256 env t"] o by auto
    then have "gh_owner (cf_ghosts c) f = Some u" using co o by (simp add: coherent_def)
    then have n: "no_refresh (cf_now c2) (au_redis (cf_auth c2)) f" using d2 by (simp add: dead_def)
    have "gh_family (cf_ghosts c2) (sha256 env t) = Some f" using ext f by (auto simp: extends_def map_le_def dom_def)
    then show ?thesis by (rule no_refresh_refused [OF ok2 n])
  qed
  moreover have "authenticate env (cf_now c2) d (Some tok) (cf_auth c2) \<noteq> (Inr x, s2)"
    if "jwt_verify env False (cf_now c2) tok = Some p" "nonempty (json_member ''fid'' p) = Some f" "gh_owner (cf_ghosts c) f = Some u"
    for tok p f d x s2
    using not_active_refused [OF ok2 _ that(1,2)] d2 [OF that(3)] by (simp add: dead_def)
  ultimately show ?thesis by blast
qed

section \<open>Bounds, and a session that works\<close>

lemma ZALL_update:
  "ZALL now k (r\<lparr>rs_zset := (rs_zset r)(k' := None)\<rparr>) = (if k = k' then [] else ZALL now k r)"
  "ZALL now k (r\<lparr>rs_zset := put now k' xs (rs_zset r)\<rparr>) = (if k = k' then xs else ZALL now k r)"
  by (simp_all add: ZALL_def look_put look_upd_other)

lemma ZALL_cong: "rs_zset r = rs_zset r' \<Longrightarrow> ZALL now k r = ZALL now k r'"
  by (simp add: ZALL_def)

lemma ZALL_ZADD: "ZALL now k (ZADD now k' score x r) =
    (if k = k' then filter (\<lambda>m. fst m \<noteq> x) (ZALL now k r) @ [(x, score)] else ZALL now k r)"
  by (simp add: ZADD_def ZALL_update)

lemma ZALL_ZREM: "ZALL now k (ZREM_UPTO now k' score r) = (if k = k' then filter (\<lambda>m. \<not> snd m \<le> score) (ZALL now k r) else ZALL now k r)"
  by (auto simp: ZREM_UPTO_def ZALL_update Let_def)

lemma ZALL_ZEXPIRE: "0 < ttl \<Longrightarrow> ZALL now k (ZEXPIRE now k' ttl r) = ZALL now k r"
  by (simp add: ZEXPIRE_def ZALL_def look_set_ttl)

lemma filter_other: "length (filter (\<lambda>m. fst m \<noteq> x) xs) + (if map_of xs x = None then 0 else 1) \<le> length xs"
proof (induction xs)
  case (Cons m xs)
  then show ?case by (cases m) (auto split: if_splits)
qed simp

lemma ZALL_frames [simp]:
  "ZALL now k (SET_EX now' j v ttl r) = ZALL now k r" "ZALL now k (DEL j r) = ZALL now k r"
  "ZALL now k (SADD now' l x r) = ZALL now k r" "ZALL now k (SREM now' l x r) = ZALL now k r"
  "ZALL now k (SDEL l r) = ZALL now k r" "ZALL now k (SEXPIRE now' l ttl r) = ZALL now k r"
  by (simp_all add: ZALL_def)

text \<open>The count the script projects bounds what it writes.\<close>

lemma ZALL_commit:
  assumes "0 < ra_refresh_ttl a"
  shows "ZALL now f (commitRotation a now r) =
    (if f \<noteq> ra_family a then ZALL now f r
     else let xs = filter (\<lambda>m. fst m \<noteq> ra_jti a) (ZALL now f r) @ [(ra_jti a, ra_expires_at a)] in
       if ra_previous a = [] then xs
       else filter (\<lambda>m. fst m \<noteq> ra_previous a) xs @ [(ra_previous a, ra_expires_at a)])"
  using assms
  by (simp add: commitRotation_def consumeOld_def indexRotation_def writeRotation_def bridgePrevious_def ZALL_ZEXPIRE ZALL_ZADD Let_def)

lemma commit_count:
  assumes "0 < ra_refresh_ttl a"
  shows "ZCARD now (ra_family a) (commitRotation a now r) \<le> projectedSessions a now r"
proof -
  let ?xs = "ZALL now (ra_family a) r"
  define ys where "ys = filter (\<lambda>m. fst m \<noteq> ra_jti a) ?xs @ [(ra_jti a, ra_expires_at a)]"
  have a: "length ys \<le> length ?xs + (if map_of ?xs (ra_jti a) = None then 1 else 0)"
    using filter_other [of "ra_jti a" ?xs] by (auto simp: ys_def split: if_splits)
  have b: "length (filter (\<lambda>m. fst m \<noteq> ra_previous a) ys @ [(ra_previous a, ra_expires_at a)]) \<le>
      length ys + (if map_of ?xs (ra_previous a) = None then 1 else 0)"
  proof (cases "map_of ?xs (ra_previous a)")
    case None
    then show ?thesis using length_filter_le [of "\<lambda>m. fst m \<noteq> ra_previous a" ys] by simp
  next
    case (Some v)
    then have "ra_previous a \<in> fst ` set ys" unfolding ys_def by (force dest: map_of_SomeD)
    then have "map_of ys (ra_previous a) \<noteq> None" by (auto simp: map_of_eq_None_iff)
    with filter_other [of "ra_previous a" ys] Some show ?thesis by simp
  qed
  have z: "ZALL now (ra_family a) (commitRotation a now r) = (if ra_previous a = [] then ys
      else filter (\<lambda>m. fst m \<noteq> ra_previous a) ys @ [(ra_previous a, ra_expires_at a)])"
    using assms by (simp add: ZALL_commit Let_def ys_def)
  have p: "projectedSessions a now r = length ?xs + (if map_of ?xs (ra_jti a) = None then 1 else 0)
      + (if ra_previous a \<noteq> [] \<and> map_of ?xs (ra_previous a) = None then 1 else 0)"
    by (simp add: projectedSessions_def ZCARD_def ZSCORE_def)
  show ?thesis using a b unfolding ZCARD_def z p by (cases "ra_previous a = []") simp_all
qed

lemma dropExpired_ZALL:
  "ZALL now f (dropExpiredSessions a now r) \<noteq> [] \<Longrightarrow> ZALL now f r \<noteq> []"
  "ZCARD now f (dropExpiredSessions a now r) \<le> ZCARD now f r"
proof -
  have "rs_zset (fold (SREM now (UserSessions u)) ids x) = rs_zset x" for u ids x
    by (rule zset_fold) simp
  then have z: "ZALL now k (fold (SREM now (UserSessions u)) ids x) = ZALL now k x" for k u ids x by (simp add: ZALL_def)
  show "ZALL now f (dropExpiredSessions a now r) \<noteq> [] \<Longrightarrow> ZALL now f r \<noteq> []"
    "ZCARD now f (dropExpiredSessions a now r) \<le> ZCARD now f r"
    by (auto simp: dropExpiredSessions_def ZALL_ZREM ZCARD_def z split: if_splits)
qed

definition families_small :: "auth_cfg \<Rightarrow> bool" where
  "families_small c \<longleftrightarrow> (\<forall>f. ZCARD (cf_now c) f (au_redis (cf_auth c)) \<le> MAX_REFRESH_FAMILY_SESSIONS \<and>
     (ZALL (cf_now c) f (au_redis (cf_auth c)) \<noteq> [] \<longrightarrow> gh_owner (cf_ghosts c) f \<noteq> None))"

lemma ZALL_later: "now \<le> n \<Longrightarrow> ZALL n f r = ZALL now f r \<or> ZALL n f r = []"
  using look_later [of n "rs_zset r" f _ now] by (cases "look n (rs_zset r) f") (auto simp: ZALL_def)

lemma ZALL_zkeeps: "zkeeps r r' \<Longrightarrow> ZALL now f r' = ZALL now f r \<or> ZALL now f r' = []"
proof -
  assume "zkeeps r r'"
  then have "rs_zset r' f = rs_zset r f \<or> rs_zset r' f = None" by (simp add: zkeeps_def)
  then show ?thesis by (auto simp: ZALL_def look_def)
qed

lemma ZALL_issue:
  assumes "0 < refresh_ttl env"
  shows "ZALL now f (issueMulti env now u c r) =
    (if f = sc_family c then filter (\<lambda>m. fst m \<noteq> sc_jti c) (ZALL now f r) @ [(sc_jti c, now div 1000 + access_ttl env)] else ZALL now f r)"
  using assms by (simp add: issueMulti_def issueIndex_def ZALL_ZEXPIRE ZALL_ZADD)

lemma families_small_step:
  assumes env: "auth_env_ok env" and ok: "cfg_ok env c" and sm: "families_small c" and step: "auth_step env c c'"
  shows "families_small c'"
proof -
  have ttl: "0 < refresh_ttl env" using ttl_pos [OF env] by simp
  from env ok step show ?thesis
  proof (cases rule: auth_step_cases)
    case (tick n)
    show ?thesis unfolding families_small_def
    proof
      fix f
      show "ZCARD (cf_now c') f (au_redis (cf_auth c')) \<le> MAX_REFRESH_FAMILY_SESSIONS \<and>
        (ZALL (cf_now c') f (au_redis (cf_auth c')) \<noteq> [] \<longrightarrow> gh_owner (cf_ghosts c') f \<noteq> None)"
        using ZALL_later [OF tick(2), of f "au_redis (cf_auth c)"] sm by (auto simp: tick(1) families_small_def ZCARD_def)
    qed
  next
    case (issue h ids d u role ver r s' row)
    from issue(4,5) show ?thesis
    proof (cases rule: issue_store)
      case 1
      then show ?thesis using sm by (auto simp: issue(1) families_small_def create_def draw_def)
    next
      case (2 cr)
      have "ZALL (cf_now c) h (au_redis (cf_auth c)) = []" using sm issue(3) by (auto simp: families_small_def)
      then show ?thesis using sm 2 issue(2)
        by (auto simp: issue(1) families_small_def ZCARD_def ZALL_issue [OF ttl] create_def draw_def MAX_REFRESH_FAMILY_SESSIONS_def)
    qed
  next
    case (start h ids i v0 session s' previous)
    then show ?thesis using sm by (auto simp: families_small_def draw_def)
  next
    case (attempt h a d r s')
    let ?r = "au_redis (cf_auth c)" and ?now = "cf_now c"
    have idx: "index_ok {} (refresh_ttl env) ?now (cf_ghosts c) ?r" using ok by (simp add: cfg_ok_def)
    have "ZCARD ?now f (snd (rotateScript a ?now ?r)) \<le> MAX_REFRESH_FAMILY_SESSIONS \<and>
        (ZALL ?now f (snd (rotateScript a ?now ?r)) \<noteq> [] \<longrightarrow> gh_owner (cf_ghosts c) f \<noteq> None)" for f
    proof (cases rule: rotateScript_cases [of ?now a ?r])
      case full
      then show ?thesis using sm dropExpired_ZALL [of ?now f a ?r]
        by (auto simp: families_small_def intro: order_trans)
    next
      case commit
      have rt: "0 < ra_refresh_ttl a" using cfg_args(2) [OF ok attempt(2)] ttl by (auto simp: rotate_args_ok_def)
      have mx: "ra_max_sessions a = MAX_REFRESH_FAMILY_SESSIONS" by (rule cfg_args(4) [OF ok attempt(2)])
      from commit(1) obtain e where at: "refresh_at ?now ?r (ra_old_hash a) (ra_expected a) e" by (auto simp: refresh_at_GET)
      obtain v where "ra_expected a = refreshRecord (ra_user a) v (ra_family a)"
        using cfg_args(2) [OF ok attempt(2)] by (auto simp: rotate_args_ok_def)
      with at obtain x where "refresh_at ?now ?r (ra_old_hash a) (refreshRecord (ra_user a) v (ra_family a)) (Some x)"
        using index_record [OF idx at] by metis
      then have own: "gh_owner (cf_ghosts c) (ra_family a) = Some (ra_user a)" by (rule index_tokens(6) [OF idx])
      show ?thesis
      proof (cases "f = ra_family a")
        case True
        then show ?thesis using commit_count [OF rt, of ?now "dropExpiredSessions a ?now ?r"] commit(3,4) mx own by simp
      next
        case False
        then show ?thesis using sm dropExpired_ZALL [of ?now f a ?r] commit(4)
          by (auto simp: families_small_def ZALL_commit [OF rt] ZCARD_def intro: order_trans)
      qed
    qed (use sm in \<open>auto simp: families_small_def\<close>)
    then show ?thesis using sm redis_eval_redis [OF attempt(3)]
      by (auto simp: attempt(1) families_small_def create_def)
  next
    case (quiet s')
    show ?thesis unfolding families_small_def
    proof
      fix f
      show "ZCARD (cf_now c') f (au_redis (cf_auth c')) \<le> MAX_REFRESH_FAMILY_SESSIONS \<and>
        (ZALL (cf_now c') f (au_redis (cf_auth c')) \<noteq> [] \<longrightarrow> gh_owner (cf_ghosts c') f \<noteq> None)"
        using ZALL_zkeeps [of "au_redis (cf_auth c)" "au_redis s'" "cf_now c" f] quiet(2) sm
        by (auto simp: quiet(1) quiet_def families_small_def ZCARD_def)
    qed
  qed
qed

text \<open>
  A refresh family never indexes more than \<open>MAX_REFRESH_FAMILY_SESSIONS\<close> access sessions: a
  rotation that would exceed the bound is refused before it consumes the presented token, and no live
  session is dropped from the index to make room.
\<close>

theorem family_index_bounded:
  assumes env: "auth_env_ok env" and "auth_init c0" "(auth_step env)\<^sup>*\<^sup>* c0 c"
  shows "ZCARD (cf_now c) f (au_redis (cf_auth c)) \<le> MAX_REFRESH_FAMILY_SESSIONS"
proof -
  have "families_small c"
    using assms(3,2)
  proof (induction rule: rtranclp_induct)
    case base
    then show ?case by (simp add: auth_init_def families_small_def redis_empty_def ZCARD_def ZALL_def)
  next
    case (step y z)
    then show ?case using families_small_step [OF env] auth_reachable_ok [OF env] by blast
  qed
  then show ?thesis by (simp add: families_small_def)
qed

lemma issue_GETs:
  assumes "auth_env_ok env" "now \<le> now'" "now' < now + 1000 * access_ttl env"
  shows "GET now' (Session (sc_jti c)) (issueMulti env now u c r) = Some (Text u)"
    "GET now' (SessionRevoked j) (issueMulti env now u c r) = GET now' (SessionRevoked j) r"
  using assms
  by (simp_all add: issueMulti_def issueIndex_def GET_def look_def unexpired_def expires_def)

lemma issue_GET_family:
  assumes "0 < refresh_ttl env" "now \<le> now'" "now' < now + 1000 * refresh_ttl env"
  shows "GET now' (RefreshFamily (sc_family c)) (issueMulti env now u c r) = Some (familyRecord ''active'' u)"
  using assms by (simp add: issueMulti_def issueIndex_def GET_def look_def unexpired_def expires_def)

text \<open>
  A session just issued works. Until its access token expires, the token that \<open>issueSession\<close>
  returned is accepted by \<open>authenticate\<close>, as the account it was issued for, with the session, family
  and version it was issued under.
\<close>

theorem issued_session_accepted:
  assumes env: "auth_env_ok env" "jwt_ok env"
    and i: "issueSession env now d ids u role ver s = (Inr c, s')"
    and row: "t_find ac_id u (au_users s) = Some row" "\<not> ac_banned row"
    and fresh: "GET now' (SessionRevoked (fr_jti ids)) (au_redis s) = None" "sha256 env (fr_refresh ids) \<noteq> []"
    and time: "now \<le> now'" "now' div 1000 < now div 1000 + access_ttl env" "now' < now + 1000 * refresh_ttl env"
  shows "authenticate env now' Replied (Some (sc_access_token c)) s' =
    (Inr \<lparr>cx_user = row, cx_session = fr_jti ids, cx_family = Some (sha256 env (fr_refresh ids)), cx_version = ac_version row\<rparr>, s')"
proof -
  let ?h = "sha256 env (fr_refresh ids)"
  from i row(1) have c: "c = \<lparr>sc_access_token = jwt_sign env now
        [(''sub'', JStr u), (''role'', JStr (roleName role)), (''jti'', JStr (fr_jti ids)),
         (''sv'', JNum (ac_version row)), (''fid'', JStr ?h)] (access_ttl env),
      sc_refresh_token = fr_refresh ids, sc_csrf_token = fr_csrf ids, sc_jti = fr_jti ids,
      sc_version = ac_version row, sc_family = ?h, sc_refresh_hash = ?h\<rparr>"
    and up: "au_redis_up s" and s': "s' = s\<lparr>au_redis := issueMulti env now u c (au_redis s)\<rparr>"
    by (auto simp: issueSession_def prepareSessionCredentials_def tx_simps Let_def)
  have "now' < now + 1000 * access_ttl env" using time(1,2) by linarith
  note g = issue_GETs [OF env(1) time(1) this, where c = c and u = u and r = "au_redis s"]
    issue_GET_family [OF _ time(1,3), where c = c and u = u and r = "au_redis s"]
  have ttl: "0 < refresh_ttl env" using ttl_pos [OF env(1)] by simp
  let ?p = "JObj ([(''sub'', JStr u), (''role'', JStr (roleName role)), (''jti'', JStr (fr_jti ids)),
         (''sv'', JNum (ac_version row)), (''fid'', JStr ?h)] @ [(''iat'', JNum (now div 1000)), (''exp'', JNum (now div 1000 + access_ttl env))])"
  have v: "jwt_verify env False now' (sc_access_token c) = Some ?p"
    using env(2) time(2) by (simp add: c jwt_ok_def)
  have j: "sc_jti c = fr_jti ids" "sc_family c = ?h" by (simp_all add: c)
  have claims: "claim_text (json_member ''jti'' ?p) = fr_jti ids" "json_member ''sub'' ?p = Some (JStr u)"
    "nonempty (json_member ''fid'' ?p) = Some ?h" "versionMatches ?p row"
    "authContext ?p row = \<lparr>cx_user = row, cx_session = fr_jti ids, cx_family = Some ?h, cx_version = ac_version row\<rparr>"
    using fresh(2) by (simp_all add: claim_text_def nonempty_def versionMatches_def authContext_def)
  have red: "GET now' (Session (fr_jti ids)) (au_redis s') = Some (Text u)" "GET now' (SessionRevoked (fr_jti ids)) (au_redis s') = None"
    "GET now' (RefreshFamily ?h) (au_redis s') = Some (familyRecord ''active'' u)"
    "au_redis_up s'" "t_find ac_id u (au_users s') = Some row"
    using g ttl fresh(1) up row(1) by (simp_all add: s' j)
  show ?thesis
    unfolding authenticate_iff
    using v claims red row(2)
    by (intro exI [of _ "sc_access_token c"] exI [of _ ?p] exI [of _ u] exI [of _ row])
      (simp add: isActiveFamilyRecord_def familyActive_def familyRecord_def)
qed

text \<open>
  The bridge between password and second factor is good once. The token that
  \<open>issueTwoFactorPendingToken\<close> returns verifies to the user and session version it was issued for while
  it lasts, and of two attempts to consume it, whatever their replies, at most one is told true.
\<close>

theorem two_factor_bridge_once:
  assumes env: "jwt_ok env"
    and i: "issueTwoFactorPendingToken env now d j u v s = (Inr tok, s1)"
    and time: "now' div 1000 < now div 1000 + TWO_FACTOR_PENDING_TTL_MIN * 60"
    and c1: "consumeTwoFactorPendingToken n1 d1 j s1 = (Inr True, s2)"
    and c2: "consumeTwoFactorPendingToken n2 d2 j s2 = (Inr b, s3)"
  shows "verifyTwoFactorPendingToken env now' tok = Inr \<lparr>pi_user = u, pi_version = v, pi_jti = j\<rparr> \<and> \<not> b"
proof -
  from i have "tok = jwt_sign env now
      [(''sub'', JStr u), (''purpose'', JStr ''2fa_pending''), (''sv'', JNum v), (''jti'', JStr j)] (TWO_FACTOR_PENDING_TTL_MIN * 60)"
    by (auto simp: issueTwoFactorPendingToken_def tx_simps)
  then have "verifyTwoFactorPendingToken env now' tok = Inr \<lparr>pi_user = u, pi_version = v, pi_jti = j\<rparr>"
    using env time by (simp add: verifyTwoFactorPendingToken_def jwt_ok_def)
  moreover have "\<not> b"
    using c1 c2 by (auto simp: consumeTwoFactorPendingToken_def tx_simps GET_def look_def)
  ultimately show ?thesis by simp
qed

section \<open>The guarantees at work\<close>

definition logout1 :: "unit result \<times> auth_state" where
  "logout1 = logoutRoute env1 0 Replied None (Some ''r1'') auth1"

lemma logout1_returns: "\<exists>s'. logout1 = (Inr (), s')"
  by (simp add: logout1_def logoutRoute_def revokePresentedSessionCredentials_def requireRedis_def redis_eval_def
      clearAuthCookies_def tx_defs tx_catch_def Let_def)

lemma token1_payload: "jwt_verify env1 False 0 (sc_access_token session1) =
    Some (JObj [(''sub'', JStr ''u1''), (''role'', JStr (roleName RUser)), (''jti'', JStr ''j1''), (''sv'', JNum 1),
      (''fid'', JStr ''hr1''), (''iat'', JNum 0), (''exp'', JNum 900)])"
  by (simp add: env1_def)

theorem logout_ends_family_witness:
  "(\<nexists>x s2. refreshRoute env1 0 Replied (Replied, Replied) ids2 (Some ''r1'') None (snd logout1) = (Inr x, s2)) \<and>
   (\<nexists>x s2. authenticate env1 0 Replied (Some (sc_access_token session1)) (snd logout1) = (Inr x, s2))"
proof -
  obtain s' where s': "logout1 = (Inr (), s')" using logout1_returns by blast
  have "gh_family (cf_ghosts (cfg1\<lparr>cf_auth := s'\<rparr>)) (sha256 env1 ''r1'') = Some ''hr1''" by simp
  moreover have "nonempty (json_member ''fid'' (JObj [(''sub'', JStr ''u1''), (''role'', JStr (roleName RUser)), (''jti'', JStr ''j1''),
      (''sv'', JNum 1), (''fid'', JStr ''hr1''), (''iat'', JNum 0), (''exp'', JNum 900)])) = Some ''hr1''" by (simp add: nonempty_def)
  moreover note logout_ends_family [OF env1_ok(1) cfg0_init cfg1_reached, of "''r1''" "''u1''" 1 "''hr1''" Replied None s' "cfg1\<lparr>cf_auth := s'\<rparr>" "''r1''"]
  ultimately show ?thesis
    using GET_auth1(1) s' token1_payload unfolding logout1_def by auto
qed

definition rotated1 :: "nat result \<times> auth_state" where
  "rotated1 = redis_eval Replied (rotateScript args1 0) auth1"

lemma rotated1_result: "rotated1 = (Inr 1, auth1\<lparr>au_redis := commitRotation args1 0 (dropExpiredSessions args1 0 (au_redis auth1))\<rparr>)"
proof -
  have z: "ZALL 0 ''hr1'' (au_redis auth1) = [(''j1'', 900)]"
    by (simp add: ZALL_issue) (simp add: redis_empty_def ZALL_def)
  then have "ZALL 0 ''hr1'' (dropExpiredSessions args1 0 (au_redis auth1)) = [(''j1'', 900)]"
    by (simp add: dropExpiredSessions_def ZRANGE_UPTO_def ZALL_ZREM)
  then have "projectedSessions args1 0 (dropExpiredSessions args1 0 (au_redis auth1)) = 2"
    by (simp add: projectedSessions_def ZCARD_def ZSCORE_def)
  then show ?thesis
    using GET_auth1 by (simp add: rotated1_def redis_eval_def rotateScript_def Let_def familyActive_def familyRecord_def)
qed

lemma rotated1_again: "\<exists>s'. redis_eval Replied (rotateScript args1 0) (snd rotated1) = (Inr 1, s')"
proof -
  have one: "rotateScript args1 0 (au_redis auth1) = (1, au_redis (snd rotated1))"
    using arg_cong [OF rotated1_result, of fst] arg_cong [OF refl [of rotated1], of "\<lambda>p. au_redis (snd p)"]
    by (simp add: rotated1_def redis_eval_def prod_eq_iff)
  have "rotateScript args1 0 (au_redis (snd rotated1)) = (1, au_redis (snd rotated1))"
    by (rule rotateScript_again [OF _ _ _ _ _ _ one]) simp_all
  then show ?thesis by (simp add: redis_eval_def)
qed

theorem refresh_exchanged_once_witness:
  "(\<exists>s2. redis_eval Replied (rotateScript args1 0) (snd rotated1) = (Inr 1, s2)) \<and>
   {h. cf_args cfg2 h = Some args1} = {''hr2''}"
proof -
  obtain s1 where s1: "rotated1 = (Inr 1, s1)" using rotated1_result by blast
  obtain s2 where s2: "redis_eval Replied (rotateScript args1 0) s1 = (Inr 1, s2)" using rotated1_again unfolding s1 snd_conv by blast
  have a: "cf_args cfg2 ''hr2'' = Some args1" and st: "cf_now cfg2 = 0" "cf_auth cfg2 = auth1" by (simp_all add: cfg2_def)
  have "h = ''hr2''" if h: "cf_args cfg2 h = Some args1" for h
    by (rule refresh_exchanged_once [OF env1_ok(1) _ cfg0_init cfg2_reached a, of Replied s1 "cfg2\<lparr>cf_auth := s1,
        cf_ghosts := create ''hr2'' (cf_ghosts cfg2)\<rparr>" h args1 Replied s2])
      (use s1 s2 h st in \<open>simp_all add: rotated1_def\<close>)
  then have "{h. cf_args cfg2 h = Some args1} = {''hr2''}" using a by blast
  with s2 show ?thesis unfolding s1 snd_conv by blast
qed

lemma rotate1_result: "rotateRefreshSession env1 0 (Replied, Replied) ids2 rotate1 None auth1 = (Inr (Some session2), snd rotated1)"
  using prepared1_result rotated1_result
  by (simp add: rotateRefreshSession_def requireRedis_def tx_defs prepared1_def rotate1_def rotated1_def args1_def
      split: prod.splits)

theorem lost_reply_retried_witness:
  "rotateRefreshSession env1 0 (LostAfter, Replied) ids2 rotate1 None auth1 = (Inr (Some session2), snd rotated1)"
  by (rule lost_reply_retried [OF env1_ok(1) _ _ rotate1_result]) (simp_all add: rotate1_def)

definition bumped1 :: "int result \<times> auth_state" where
  "bumped1 = bumpSessionVersion ''u1'' auth1"

lemma bumped1_returns: "\<exists>s'. bumped1 = (Inr 2, s')"
  by (simp add: bumped1_def bumpSessionVersion_def accountById_def tx_defs t_find_upd)

theorem old_epoch_refused_witness:
  "(\<nexists>x s2. refreshRoute env1 0 Replied (Replied, Replied) ids2 (Some ''r1'') None (snd bumped1) = (Inr x, s2)) \<and>
   (\<nexists>x s2. authenticate env1 0 Replied (Some (sc_access_token session1)) (snd bumped1) = (Inr x, s2))"
proof -
  obtain s' where s': "bumped1 = (Inr 2, s')" using bumped1_returns by blast
  have "gh_owner (cf_ghosts cfg1) (sha256 env1 ''r1'') = Some ''u1''" by simp
  moreover note old_epoch_refused [OF env1_ok(1) cfg0_init cfg1_reached, of "''u1''" 2 s' "cfg1\<lparr>cf_auth := s'\<rparr>" "''r1''"]
  ultimately show ?thesis using s' token1_payload unfolding bumped1_def by auto
qed

definition ended1 :: "unit result \<times> auth_state" where
  "ended1 = revokeAllUserSessions env1 0 Replied ''u1'' None True True auth1"

theorem revoke_all_complete_witness:
  "(\<nexists>x s2. refreshRoute env1 0 Replied (Replied, Replied) ids2 (Some ''r1'') None (snd ended1) = (Inr x, s2)) \<and>
   (\<nexists>x s2. authenticate env1 0 Replied (Some (sc_access_token session1)) (snd ended1) = (Inr x, s2))"
proof -
  obtain r s' where s': "ended1 = (r, s')" by (cases ended1) blast
  have "gh_owner (cf_ghosts cfg1) (sha256 env1 ''r1'') = Some ''u1''" "gh_owner (cf_ghosts cfg1) ''hr1'' = Some ''u1''" by simp_all
  moreover have "nonempty (json_member ''fid'' (JObj [(''sub'', JStr ''u1''), (''role'', JStr (roleName RUser)), (''jti'', JStr ''j1''),
      (''sv'', JNum 1), (''fid'', JStr ''hr1''), (''iat'', JNum 0), (''exp'', JNum 900)])) = Some ''hr1''" by (simp add: nonempty_def)
  moreover note revoke_all_complete [OF env1_ok(1) cfg0_init cfg1_reached, of "''u1''" True True r s' "cfg1\<lparr>cf_auth := s'\<rparr>" "''r1''"]
  ultimately show ?thesis using s' token1_payload unfolding ended1_def by auto
qed

theorem family_index_bounded_witness:
  "ZCARD 0 ''hr1'' (au_redis auth1) = 1 \<and> ZCARD 0 ''hr1'' (au_redis auth1) \<le> MAX_REFRESH_FAMILY_SESSIONS"
proof -
  have "ZCARD 0 ''hr1'' (au_redis auth1) = 1" by (simp add: ZCARD_def ZALL_issue) (simp add: redis_empty_def ZALL_def)
  then show ?thesis using family_index_bounded [OF env1_ok(1) cfg0_init cfg1_reached, of "''hr1''"] by simp
qed

theorem issued_session_accepted_witness:
  "authenticate env1 5000 Replied (Some (sc_access_token session1)) auth1 =
    (Inr \<lparr>cx_user = user1, cx_session = ''j1'', cx_family = Some ''hr1'', cx_version = 1\<rparr>, auth1)"
  using issued_session_accepted [OF env1_ok, of 0 Replied ids1 "''u1''" RUser None auth0 session1 auth1 user1 5000]
    login1_result auth1_def
  by (simp add: login1_def t_find_def GET_def redis_empty_def)

definition pending1 :: "(time \<times> (string \<times> json) list \<times> int) result \<times> auth_state" where
  "pending1 = issueTwoFactorPendingToken env1 0 Replied ''p1'' ''u1'' 1 auth0"

lemma pending1_result: "pending1 = (Inr (jwt_sign env1 0
      [(''sub'', JStr ''u1''), (''purpose'', JStr ''2fa_pending''), (''sv'', JNum 1), (''jti'', JStr ''p1'')] 300), snd pending1)" "au_redis_up (snd pending1)"
  "\<exists>s. consumeTwoFactorPendingToken 0 Replied ''p1'' (snd pending1) = (Inr True, s)"
  "\<exists>b s. consumeTwoFactorPendingToken 0 Replied ''p1'' (snd (consumeTwoFactorPendingToken 0 Replied ''p1'' (snd pending1))) = (Inr b, s)"
  by (simp_all only: pending1_def) (simp_all add: issueTwoFactorPendingToken_def consumeTwoFactorPendingToken_def requireRedis_def redis_do_def
      redis_eval_def tx_defs GET_SET_EX TWO_FACTOR_PENDING_TTL_MIN_def)

theorem two_factor_bridge_once_witness:
  "\<exists>tok s1 s2. pending1 = (Inr tok, s1) \<and> consumeTwoFactorPendingToken 0 Replied ''p1'' s1 = (Inr True, s2) \<and>
     verifyTwoFactorPendingToken env1 1000 tok = Inr \<lparr>pi_user = ''u1'', pi_version = 1, pi_jti = ''p1''\<rparr> \<and>
     (\<nexists>s3. consumeTwoFactorPendingToken 0 Replied ''p1'' s2 = (Inr True, s3))"
proof -
  obtain tok s1 where i: "pending1 = (Inr tok, s1)" by (rule that [OF pending1_result(1)])
  obtain s2 where c1: "consumeTwoFactorPendingToken 0 Replied ''p1'' s1 = (Inr True, s2)" using pending1_result(3) unfolding i snd_conv by blast
  obtain b s3 where c2: "consumeTwoFactorPendingToken 0 Replied ''p1'' s2 = (Inr b, s3)" using pending1_result(4) unfolding i c1 snd_conv by blast
  have "verifyTwoFactorPendingToken env1 1000 tok = Inr \<lparr>pi_user = ''u1'', pi_version = 1, pi_jti = ''p1''\<rparr> \<and> \<not> b"
    by (rule two_factor_bridge_once [OF env1_ok(2) i [unfolded pending1_def] _ c1 c2]) (simp add: TWO_FACTOR_PENDING_TTL_MIN_def)
  with i c1 c2 show ?thesis by (intro exI [of _ tok] exI [of _ s1] exI [of _ s2]) simp
qed

end
