(* ===== verification/AccountRuns.thy ===== *)
theory AccountRuns
  imports UserRoutes SessionSafety
begin

text \<open>
  The account services as runs of the step relation of \<open>SessionRuns\<close>: every operation of
  \<open>twofa.service.ts\<close>, \<open>step-up.service.ts\<close>, \<open>email-change.service.ts\<close>, \<open>verification.service.ts\<close> and
  every account route, whether it returns or throws, amounts to steps of that relation, so the session
  properties hold with all of them interleaved. The frame \<open>quiet\<close> collects the operations that leave
  the session keys alone; the frame of a run adds the revocations.
\<close>

section \<open>Operations that leave the session keys alone\<close>

text \<open>Accounts may be added and changed, but no session version falls; Redis changes outside the session keys.\<close>

definition quiet :: "auth_state \<Rightarrow> auth_state \<Rightarrow> bool" where
  "quiet s t \<longleftrightarrow> users_grow (au_users s) (au_users t) \<and> keeps_session_keys (au_redis s) (au_redis t)"

interpretation quiet: frame quiet
  by unfold_locales (auto simp: quiet_def users_grow_refl keeps_session_keys_def intro: users_grow_trans)

lemma users_grow_upd:
  "(\<And>u. ac_id (f u) = ac_id u \<and> ac_version u \<le> ac_version (f u)) \<Longrightarrow> users_grow us (t_upd ac_id i f us)"
  by (auto simp: users_grow_def t_find_upd)

lemma users_grow_add: "users_grow us (us @ [u])"
  by (auto simp: users_grow_def t_find_append)

lemma quiet_redis_eval:
  assumes "\<And>r. keeps_session_keys r (snd (f r))"
  shows "quiet.keeps (redis_eval d f)"
proof -
  have "keeps_session_keys r r" for r by (simp add: keeps_session_keys_def)
  then show ?thesis
    using assms by (auto simp: quiet.keeps_def quiet_def users_grow_refl dest!: redis_eval_redis)
qed

lemma quiet_updateUser:
  "(\<And>u. ac_id (f u) = ac_id u \<and> ac_version u \<le> ac_version (f u)) \<Longrightarrow> quiet.keeps (updateUser i f)"
  unfolding updateUser_def
  by (rule quiet.keeps_modify) (simp add: quiet_def users_grow_upd keeps_session_keys_def)

lemma quiet_table:
  "(\<And>s. au_users (g s) = au_users s \<and> au_redis (g s) = au_redis s) \<Longrightarrow> quiet.keeps (tx_modify g)"
  by (rule quiet.keeps_modify) (simp add: quiet_def users_grow_refl keeps_session_keys_def)

lemma quiet_authTx:
  assumes "quiet.keeps m"
  shows "quiet.keeps (authTx m)"
  unfolding quiet.keeps_def
proof (intro allI impI)
  fix s r s'
  assume r: "authTx m s = (r, s')"
  obtain q t where q: "m s = (q, t)" by fastforce
  have "quiet s t" by (rule quiet.keepsD [OF assms q])
  then show "quiet s s'"
    using r q by (cases q) (auto simp: authTx_def auth_rollback_def quiet_def users_grow_refl)
qed

lemma quiet_case_prod: "(\<And>a b. quiet.keeps (f a b)) \<Longrightarrow> quiet.keeps (case p of (a, b) \<Rightarrow> f a b)"
  by (cases p) simp

lemma quiet_state: "(\<And>x. quiet.keeps (f x)) \<Longrightarrow> quiet.keeps (\<lambda>s. f (g s) s)"
  by (simp add: quiet.keeps_def)

lemmas quiet_intros = quiet.keeps_intros quiet_case_prod quiet_authTx quiet_updateUser quiet_redis_eval

lemma keeps_session_keys_refl [simp]: "keeps_session_keys r r"
  by (simp add: keeps_session_keys_def)

text \<open>Writing another key on top of any store is as good as the store.\<close>

lemma keeps_keys_write [simp]:
  assumes "\<not> session_key k"
  shows "keeps_session_keys r (SET_EX now k v ttl r') = keeps_session_keys r r'"
    "keeps_session_keys r (DEL k r') = keeps_session_keys r r'"
    "keeps_session_keys r (INCR now k r') = keeps_session_keys r r'"
    "keeps_session_keys r (EXPIRE now k ttl r') = keeps_session_keys r r'"
proof -
  have "l \<noteq> k" if "session_key l" for l using assms that by auto
  then show "keeps_session_keys r (SET_EX now k v ttl r') = keeps_session_keys r r'"
    "keeps_session_keys r (DEL k r') = keeps_session_keys r r'"
    "keeps_session_keys r (INCR now k r') = keeps_session_keys r r'"
    "keeps_session_keys r (EXPIRE now k ttl r') = keeps_session_keys r r'"
    by (auto simp: keeps_session_keys_def SET_EX_def DEL_def INCR_def EXPIRE_def)
qed

lemma other_keys [simp]:
  "\<not> session_key (TwoFactorPending x)" "\<not> session_key (StepUp x)" "\<not> session_key (WsTicket x)"
  "\<not> session_key (EmailVerify x)" "\<not> session_key (PwdReset x)" "\<not> session_key (PwdResetActive x)"
  "\<not> session_key (EmailVerifyCooldown x)" "\<not> session_key (EmailVerifyHourly x)"
  "\<not> session_key (PhoneVerifyCooldown x)" "\<not> session_key (PhoneVerifyHourly x)"
  by (simp_all add: session_key_def)

section \<open>The account services are quiet\<close>

lemma quiet_reads:
  "quiet.keeps (requireRedis e)" "quiet.keeps (accountById i)" "quiet.keeps (selectMethod i)"
  "quiet.keeps (selectUserForSecurityAction i)" "quiet.keeps (accountByEmail m)"
  by (simp_all add: requireRedis_def accountById_def selectMethod_def selectUserForSecurityAction_def accountByEmail_def
      quiet.keeps_basic quiet.keeps_bind)

lemma quiet_writes:
  "quiet.keeps (updateMethod i f)" "quiet.keeps (recordSecurityAudit i a)" "quiet.keeps (notifyUser i k)"
  "quiet.keeps (publish e)" "quiet.keeps clearAuthCookies" "quiet.keeps (insertWallet i)" "quiet.keeps (dropUndelivered i)"
  by (simp_all add: updateMethod_def recordSecurityAudit_def notifyUser_def publish_def clearAuthCookies_def insertWallet_def
      dropUndelivered_def quiet_table)

lemma quiet_bump: "quiet.keeps (bumpSessionVersion i)"
  unfolding bumpSessionVersion_def
  by (intro quiet_intros quiet_reads) (simp add: quiet_def users_grow_upd)

lemma quiet_insertAccount: "quiet.keeps (insertAccount row)"
  unfolding insertAccount_def
  by (intro quiet_intros) (simp add: quiet_def users_grow_add)

lemma quiet_migrateEach: "quiet.keeps (migrateEach lib fresh rows)"
  by (induction rows) (auto intro!: quiet_intros quiet_writes)

lemma quiet_migrateRounds: "quiet.keeps (migrateRounds n lib fresh u k)"
  by (induction n arbitrary: k) (auto simp: migrateLegacyBatch_def intro!: quiet_intros quiet_migrateEach)

lemma quiet_migrate: "quiet.keeps (migrateLegacyTwoFactorSecrets lib fresh u)"
  unfolding migrateLegacyTwoFactorSecrets_def
  unfolding quiet.keeps_def using quiet.keepsD [OF quiet_migrateRounds] by blast

lemma quiet_consumeBackupCode: "quiet.keeps (consumeBackupCode lib fresh now u ds code rows)"
  by (induction rows) (auto simp: persistRotatedActiveSecret_def intro!: quiet_intros quiet_writes quiet_table)

lemma quiet_consumeTwoFactorCode: "quiet.keeps (consumeTwoFactorCode lib fresh now u code)"
  unfolding consumeTwoFactorCode_def acceptTotp_def persistRotatedActiveSecret_def Let_def
  by (intro quiet_intros quiet_reads quiet_writes quiet_consumeBackupCode)

lemmas quiet_ops = quiet_reads quiet_writes quiet_bump quiet_insertAccount quiet_migrate quiet_consumeTwoFactorCode

lemma quiet_twofa:
  "quiet.keeps (verifyTwoFactorCode lib fresh now u code)"
  "quiet.keeps (requireReauthentication lib fresh now u row input)"
  "quiet.keeps (createBackupCodes lib fresh u)"
  "quiet.keeps (storePending fresh now u b)"
  unfolding verifyTwoFactorCode_def requireReauthentication_def createBackupCodes_def storePending_def Let_def
  by (intro quiet_intros quiet_ops quiet_table; auto intro!: quiet_intros quiet_ops split: option.splits bool.splits)+

lemma quiet_setup: "quiet.keeps (setupTwoFactor lib fresh now u label input)"
  unfolding setupTwoFactor_def Let_def by (intro quiet_intros quiet_ops quiet_twofa)

lemma quiet_confirmTx: "quiet.keeps (confirmTx lib fresh now u code)"
  unfolding confirmTx_def by (intro quiet_intros quiet_ops quiet_twofa) simp

lemma quiet_two_factor_changes:
  "quiet.keeps (confirmTwoFactor lib fresh now u code)"
  "quiet.keeps (regenerateTwoFactorBackupCodes lib fresh now u input)"
  "quiet.keeps (disableTwoFactor lib fresh now u input)"
  unfolding confirmTwoFactor_def regenerateTwoFactorBackupCodes_def disableTwoFactor_def
  by (intro quiet_intros quiet_ops quiet_twofa quiet_confirmTx quiet_table; simp)+

lemma quiet_storeFresh:
  "(\<And>h. \<not> session_key (key h)) \<Longrightarrow> quiet.keeps (storeFresh env now key v ttl e ts)"
  by (induction ts) (auto simp: SET_NX_def intro!: quiet_intros)

lemma quiet_scripts:
  "keeps_session_keys r (snd (consumeEmailScript h now r))"
  "keeps_session_keys r (snd (consumeResetScript h now r))"
  "keeps_session_keys r (snd (issueResetScript h u v g now r))"
  "keeps_session_keys r (snd (cancelResetScript h u g now r))"
  "keeps_session_keys r (snd (resendScript u now r))"
  "keeps_session_keys r (snd (consumeStepUpScript h v now r))"
  by (auto simp: consumeEmailScript_def consumeResetScript_def issueResetScript_def cancelResetScript_def resendScript_def
      consumeStepUpScript_def writeReset_def Let_def split: option.splits prod.splits if_splits)

lemmas quiet_all = quiet_ops quiet_twofa quiet_setup quiet_two_factor_changes quiet_storeFresh quiet_scripts quiet_table

lemma quiet_tokens:
  "quiet.keeps (issueEmailVerificationToken env now t1 t2 u e)"
  "quiet.keeps (consumeEmailVerificationToken env now d token)"
  "quiet.keeps (consumePasswordResetToken env now d token)"
  "quiet.keeps (checkResendRateLimit now d u)"
  "quiet.keeps (createAndSendVerificationEmail env url loc now t1 t2 u mail)"
  unfolding issueEmailVerificationToken_def loadEmailVerificationIdentity_def consumeEmailVerificationToken_def
    consumePasswordResetToken_def checkResendRateLimit_def createAndSendVerificationEmail_def Let_def
  by (intro quiet_intros quiet_all; simp)+

lemma quiet_storeReset: "quiet.keeps (storeReset env now recd ts)"
  by (induction ts) (auto simp: settleReset_def intro!: quiet_intros quiet_all)

lemma quiet_issueReset: "quiet.keeps (issuePasswordResetToken env now t1 t2 u e)"
  unfolding issuePasswordResetToken_def beginReset_def
  by (intro quiet_intros quiet_all quiet_storeReset) (simp add: quiet_def users_grow_upd)

lemma quiet_step_up:
  "quiet.keeps (createStepUpToken env lib fresh now t1 t2 input pw code)"
  "quiet.keeps (consumeStepUpToken env now d input token)"
  "quiet.keeps (issueWsTicket env isoDate now t identity)"
  "quiet.keeps (consumeWsTicket env now d ticket)"
  unfolding createStepUpToken_def verifyStepUpCredential_def consumeStepUpToken_def issueWsTicket_def consumeWsTicket_def redis_do_def
  by (intro quiet_intros quiet_all; auto intro!: quiet_intros quiet_all split: option.splits)+

lemma quiet_email_change:
  "quiet.keeps (requestEmailChange env url production now d i token send input)"
  "quiet.keeps (authTx (confirmChangeTx now h))"
  unfolding requestEmailChange_def uniqueAs_def requestTx_def insertRequest_def settleDelivery_def confirmChangeTx_def Let_def
  by (intro quiet_intros quiet_all quiet_step_up; auto intro!: quiet_intros quiet_all split: option.splits)+

section \<open>Runs\<close>

text \<open>A state change that steps of the session system can make at a time.\<close>

definition run_to :: "'t auth_env \<Rightarrow> time \<Rightarrow> auth_state \<Rightarrow> auth_state \<Rightarrow> bool" where
  "run_to env now s t \<longleftrightarrow> (\<forall>c. cf_now c = now \<longrightarrow> cf_auth c = s \<longrightarrow> (auth_step env)\<^sup>*\<^sup>* c (c\<lparr>cf_auth := t\<rparr>))"

lemma run_to_refl: "run_to env now s s"
  by (auto simp: run_to_def)

lemma run_to_trans:
  assumes "run_to env now s t" "run_to env now t u"
  shows "run_to env now s u"
  unfolding run_to_def
proof (intro allI impI)
  fix c :: auth_cfg
  assume c: "cf_now c = now" "cf_auth c = s"
  with assms(1) have "(auth_step env)\<^sup>*\<^sup>* c (c\<lparr>cf_auth := t\<rparr>)" by (simp add: run_to_def)
  moreover from c assms(2) have "(auth_step env)\<^sup>*\<^sup>* (c\<lparr>cf_auth := t\<rparr>) ((c\<lparr>cf_auth := t\<rparr>)\<lparr>cf_auth := u\<rparr>)"
    unfolding run_to_def by (metis auth_cfg.select_convs(1,2) auth_cfg.surjective auth_cfg.update_convs(2))
  ultimately show "(auth_step env)\<^sup>*\<^sup>* c (c\<lparr>cf_auth := u\<rparr>)" by simp
qed

interpretation run: frame "run_to env now" for env :: "'t auth_env" and now
  by unfold_locales (auto intro: run_to_refl run_to_trans)

abbreviation run_keeps :: "'t auth_env \<Rightarrow> time \<Rightarrow> 'a authtx \<Rightarrow> bool" where
  "run_keeps env now \<equiv> frame.keeps (run_to env now)"

lemma quiet_run_to: "quiet s t \<Longrightarrow> run_to env now s t"
  unfolding run_to_def quiet_def keeps_session_keys_def by (auto intro!: r_into_rtranclp auth_step.other)

lemma run_quiet: "quiet.keeps m \<Longrightarrow> run_keeps env now m"
  by (simp add: quiet.keeps_def frame.keeps_def [OF run.frame_axioms] quiet_run_to)

lemma run_revoke_all: "run_keeps env now (revokeAllUserSessions env now d u j strict pub)"
  by (auto simp: frame.keeps_def [OF run.frame_axioms] run_to_def intro!: r_into_rtranclp auth_step.revoke_all)

lemma run_logout: "run_keeps env now (revokePresentedSessionCredentials env now d access refresh)"
  by (auto simp: frame.keeps_def [OF run.frame_axioms] run_to_def intro!: r_into_rtranclp auth_step.logout)

text \<open>
  The same with at most one session issued or refreshed, under a refresh hash not drawn before: some
  configuration with the new state is reached, in which at most that hash is newly drawn.
\<close>

definition reaches :: "'t auth_env \<Rightarrow> string \<Rightarrow> auth_cfg \<Rightarrow> auth_state \<Rightarrow> bool" where
  "reaches env h c t \<longleftrightarrow> (\<exists>c'. (auth_step env)\<^sup>*\<^sup>* c c' \<and> cf_auth c' = t \<and> cf_now c' = cf_now c \<and>
     dom (gh_owner (cf_ghosts c')) \<subseteq> insert h (dom (gh_owner (cf_ghosts c))) \<and>
     ran (gh_family (cf_ghosts c')) \<subseteq> insert h (ran (gh_family (cf_ghosts c))))"

definition issue_run :: "'t auth_env \<Rightarrow> time \<Rightarrow> string \<Rightarrow> 'a authtx \<Rightarrow> bool" where
  "issue_run env now h m \<longleftrightarrow> (\<forall>c r s'. cf_now c = now \<longrightarrow> gh_owner (cf_ghosts c) h = None \<longrightarrow> m (cf_auth c) = (r, s') \<longrightarrow>
     reaches env h c s')"

lemma run_toD: "run_to env (cf_now c) (cf_auth c) t \<Longrightarrow> (auth_step env)\<^sup>*\<^sup>* c (c\<lparr>cf_auth := t\<rparr>)"
  by (simp add: run_to_def)

lemma issue_runD:
  "issue_run env (cf_now c) h m \<Longrightarrow> gh_owner (cf_ghosts c) h = None \<Longrightarrow> m (cf_auth c) = (r, s') \<Longrightarrow> reaches env h c s'"
  by (simp add: issue_run_def)

lemma reaches_run:
  assumes "run_to env (cf_now c) (cf_auth c) t"
  shows "reaches env h c t"
  unfolding reaches_def by (rule exI [of _ "c\<lparr>cf_auth := t\<rparr>"]) (use run_toD [OF assms] in auto)

lemma reaches_after:
  assumes "run_to env (cf_now c) (cf_auth c) t" "reaches env h (c\<lparr>cf_auth := t\<rparr>) u"
  shows "reaches env h c u"
  using assms(2) run_toD [OF assms(1)] unfolding reaches_def by (auto intro: rtranclp_trans)

lemma reaches_then:
  assumes "reaches env h c t" "run_to env (cf_now c) t u"
  shows "reaches env h c u"
proof -
  from assms(1) obtain c' where c: "(auth_step env)\<^sup>*\<^sup>* c c'" "cf_auth c' = t" "cf_now c' = cf_now c"
    "dom (gh_owner (cf_ghosts c')) \<subseteq> insert h (dom (gh_owner (cf_ghosts c)))"
    "ran (gh_family (cf_ghosts c')) \<subseteq> insert h (ran (gh_family (cf_ghosts c)))" unfolding reaches_def by blast
  have "(auth_step env)\<^sup>*\<^sup>* c' (c'\<lparr>cf_auth := u\<rparr>)" by (rule run_toD) (use c assms(2) in simp)
  then show ?thesis
    unfolding reaches_def by (intro exI [of _ "c'\<lparr>cf_auth := u\<rparr>"]) (use c in \<open>auto intro: rtranclp_trans\<close>)
qed

lemma issue_run_keeps: "run_keeps env now m \<Longrightarrow> issue_run env now h m"
  unfolding issue_run_def by (auto intro: reaches_run run.keepsD)

lemma issue_run_bind:
  assumes m: "run_keeps env now m" and f: "\<And>x. issue_run env now h (f x)"
  shows "issue_run env now h (tx_bind m f)"
  unfolding issue_run_def
proof (intro allI impI)
  fix c :: auth_cfg and r s'
  assume c: "cf_now c = now" "gh_owner (cf_ghosts c) h = None" "tx_bind m f (cf_auth c) = (r, s')"
  obtain q t where q: "m (cf_auth c) = (q, t)" by fastforce
  have one: "run_to env (cf_now c) (cf_auth c) t" using run.keepsD [OF m q] c(1) by simp
  show "reaches env h c s'"
  proof (cases q)
    case (Inl e)
    then show ?thesis using c(3) q one by (auto simp: tx_bind_def intro: reaches_run)
  next
    case (Inr x)
    then have "f x (cf_auth (c\<lparr>cf_auth := t\<rparr>)) = (r, s')" using c(3) q by (simp add: tx_bind_def)
    then show ?thesis using f [of x] c(1,2) by (intro reaches_after [OF one] issue_runD [of env _ h "f x"]) simp_all
  qed
qed

lemma issue_run_then:
  assumes m: "issue_run env now h m" and f: "\<And>x. run_keeps env now (f x)"
  shows "issue_run env now h (tx_bind m f)"
  unfolding issue_run_def
proof (intro allI impI)
  fix c :: auth_cfg and r s'
  assume c: "cf_now c = now" "gh_owner (cf_ghosts c) h = None" "tx_bind m f (cf_auth c) = (r, s')"
  obtain q t where q: "m (cf_auth c) = (q, t)" by fastforce
  have one: "reaches env h c t" using issue_runD [of env c h m q t] m c(1,2) q by simp
  show "reaches env h c s'"
  proof (cases q)
    case (Inl e)
    then show ?thesis using c(3) q one by (auto simp: tx_bind_def)
  next
    case (Inr x)
    then have "f x t = (r, s')" using c(3) q by (simp add: tx_bind_def)
    then show ?thesis using run.keepsD [OF f] c(1) by (intro reaches_then [OF one]) auto
  qed
qed

lemma issue_run_issue: "issue_run env now (sha256 env (fr_refresh ids)) (issueSession env now d ids u role ver)"
  unfolding issue_run_def
proof (intro allI impI)
  fix c :: auth_cfg and r s'
  let ?h = "sha256 env (fr_refresh ids)"
  assume c: "cf_now c = now" "gh_owner (cf_ghosts c) ?h = None" "issueSession env now d ids u role ver (cf_auth c) = (r, s')"
  show "reaches env ?h c s'"
  proof (cases "t_find ac_id u (au_users (cf_auth c))")
    case None
    then have "s' = cf_auth c"
      using c(3) by (auto simp: issueSession_def prepareSessionCredentials_def accountById_def tx_defs)
    then show ?thesis by (simp add: reaches_run run_to_refl)
  next
    case (Some row)
    let ?c = "c\<lparr>cf_auth := s', cf_ghosts := create ?h (draw ?h u ?h (ac_version row) (cf_ghosts c))\<rparr>"
    have "auth_step env c ?c" by (rule auth_step.issue [OF refl c(2) _ Some]) (use c(1,3) in simp)
    then show ?thesis
      unfolding reaches_def
      by (intro exI [of _ ?c]) (auto simp: create_def draw_def ran_def)
  qed
qed

lemma issue_run_session:
  "sha256 env (fr_refresh ids) = h \<Longrightarrow> (\<And>x. run_keeps env now (f x)) \<Longrightarrow>
   issue_run env now h (tx_bind (issueSession env now d ids u role ver) f)"
  using issue_run_issue by (blast intro: issue_run_then)

lemma issue_run_session_only:
  "sha256 env (fr_refresh ids) = h \<Longrightarrow> issue_run env now h (issueSession env now d ids u role ver)"
  using issue_run_issue by blast

lemma issue_run_quiet:
  "quiet.keeps m \<Longrightarrow> (\<And>x. issue_run env now h (f x)) \<Longrightarrow> issue_run env now h (tx_bind m f)"
  by (intro issue_run_bind run_quiet)

lemma issue_run_still: "quiet.keeps m \<Longrightarrow> issue_run env now h m"
  by (intro issue_run_keeps run_quiet)

lemma issue_run_if: "issue_run env now h m \<Longrightarrow> issue_run env now h n \<Longrightarrow> issue_run env now h (if b then m else n)"
  by simp

section \<open>The routes\<close>

lemma quiet_passwords:
  "quiet.keeps (passwordCheck lib u pw)"
  "quiet.keeps (passwordWrite u generation hash nextHash)"
  "quiet.keeps (applyReset reset hash)"
  unfolding passwordCheck_def passwordWrite_def applyReset_def
  by (intro quiet_intros quiet_all; simp)+

lemma quiet_phone:
  "quiet.keeps (phoneRequest smsSend now d1 d2 d3 d4 u phone)"
  "quiet.keeps (phoneConfirmCheck smsCheck u code)"
  "quiet.keeps (phoneConfirmWrite now u)"
  unfolding phoneRequest_def checkPhoneResendRateLimit_def phoneConfirmCheck_def phoneConfirmWrite_def redis_do_def
  by (intro quiet_intros quiet_all; simp)+

lemma quiet_telegram:
  "quiet.keeps (createTelegramConnectToken connectLink token u)"
  "quiet.keeps (consumeTelegramConnectToken now token chat)"
  "quiet.keeps (disconnectTelegram u)"
  "quiet.keeps (upsertTelegram i t name)"
  unfolding createTelegramConnectToken_def consumeTelegramConnectToken_def disconnectTelegram_def upsertTelegram_def Let_def
  by (intro quiet_intros quiet_all; simp)+

lemma quiet_routes:
  "quiet.keeps (verifyEmailRequest env url production loc now d t1 t2 send u)"
  "quiet.keeps (verifyEmailConfirm env now d token)"
  "quiet.keeps (passwordForgot env url loc now l1 l2 email)"
  "quiet.keeps (wsTicketRoute env isoDate now t1 u sid fid sv verified)"
  "quiet.keeps (stepUpRoute env lib fresh now t1 t2 u sid sv pw code)"
  "quiet.keeps (emailChangeRequestRoute env url production loc now d i token send u sid sv email stepUp)"
  "quiet.keeps (authTx (adminUpdateUserTx u role banned))"
  "quiet.keeps (issueTwoFactorPendingToken env now d jti u v)"
  "quiet.keeps (consumeTwoFactorPendingToken now d jti)"
  unfolding verifyEmailRequest_def verifyEmailConfirm_def passwordForgot_def wsTicketRoute_def stepUpRoute_def
    emailChangeRequestRoute_def adminUpdateUserTx_def issueTwoFactorPendingToken_def consumeTwoFactorPendingToken_def redis_do_def Let_def
  by (intro quiet_intros quiet_all quiet_tokens quiet_issueReset quiet_step_up quiet_email_change; simp)+

lemmas quiet_services = quiet_all quiet_tokens quiet_step_up quiet_email_change quiet_passwords quiet_phone quiet_telegram quiet_routes

lemma run_changes:
  "run_keeps env now (passwordReset env lib now d d' salt token pw)"
  "run_keeps env now (confirmEmailChange env now d token)"
  "run_keeps env now (logoutRoute env now d access refresh)"
  "run_keeps env now (logoutAllRoute env now d u)"
  "run_keeps env now (adminUpdateUser env now d u role banned)"
  "run_keeps env now (handleUserBanned env now d u)"
  unfolding passwordReset_def confirmEmailChange_def logoutRoute_def logoutAllRoute_def adminUpdateUser_def handleUserBanned_def uniqueAs_def
  by (intro run.keeps_bind run.keeps_when run.keeps_catch run.keeps_basic run_revoke_all run_logout run_quiet quiet_services; simp)+

section \<open>Every account request\<close>

text \<open>
  One constructor per route and per statement where a route is interrupted. The index is the refresh
  hash a route draws if it issues a session.
\<close>

inductive account_request :: "'t auth_env \<Rightarrow> time \<Rightarrow> string \<Rightarrow> auth_state \<Rightarrow> auth_state \<Rightarrow> bool" for env now h where
  register: "registerRoute env lib url loc now d ids t1 t2 i salt email pw name s = (r, s') \<Longrightarrow> sha256 env (fr_refresh ids) = h \<Longrightarrow>
    account_request env now h s s'"
| login: "loginRoute env lib now d ids jti email pw s = (r, s') \<Longrightarrow> sha256 env (fr_refresh ids) = h \<Longrightarrow> account_request env now h s s'"
| second_factor: "twoFactorVerifyRoute env lib fresh now d d' ids token code s = (r, s') \<Longrightarrow> sha256 env (fr_refresh ids) = h \<Longrightarrow>
    account_request env now h s s'"
| telegram: "telegramRoute env mac botToken now d ids i payload s = (r, s') \<Longrightarrow> sha256 env (fr_refresh ids) = h \<Longrightarrow>
    account_request env now h s s'"
| verify_request: "verifyEmailRequest env url production loc now d t1 t2 send u s = (r, s') \<Longrightarrow> account_request env now h s s'"
| verify_confirm: "verifyEmailConfirm env now d token s = (r, s') \<Longrightarrow> account_request env now h s s'"
| forgot: "passwordForgot env url loc now l1 l2 email s = (r, s') \<Longrightarrow> account_request env now h s s'"
| reset: "passwordReset env lib now d d' salt token pw s = (r, s') \<Longrightarrow> account_request env now h s s'"
| ticket: "wsTicketRoute env isoDate now t1 u sid fid sv verified s = (r, s') \<Longrightarrow> account_request env now h s s'"
| redeem: "consumeWsTicket env now d token s = (r, s') \<Longrightarrow> account_request env now h s s'"
| logout_request: "logoutRoute env now d access refresh s = (r, s') \<Longrightarrow> account_request env now h s s'"
| logout_all: "logoutAllRoute env now d u s = (r, s') \<Longrightarrow> account_request env now h s s'"
| password_check: "passwordCheck lib u pw s = (r, s') \<Longrightarrow> account_request env now h s s'"
| password_write: "passwordWrite u generation hash nextHash s = (r, s') \<Longrightarrow> account_request env now h s s'"
| password_finish: "passwordFinish env now d d' ids u role s = (r, s') \<Longrightarrow> sha256 env (fr_refresh ids) = h \<Longrightarrow>
    account_request env now h s s'"
| step_up: "stepUpRoute env lib fresh now t1 t2 u sid sv pw' code' s = (r, s') \<Longrightarrow> account_request env now h s s'"
| email_request: "emailChangeRequestRoute env url production loc now d i token send u sid sv email stepUp s = (r, s') \<Longrightarrow>
    account_request env now h s s'"
| email_confirm: "confirmEmailChange env now d token s = (r, s') \<Longrightarrow> account_request env now h s s'"
| setup_factor: "setupTwoFactor lib fresh now u label input s = (r, s') \<Longrightarrow> account_request env now h s s'"
| enable_factor: "enableTwoFactorRoute env lib fresh now d d' ids u role code s = (r, s') \<Longrightarrow> sha256 env (fr_refresh ids) = h \<Longrightarrow>
    account_request env now h s s'"
| disable_factor: "disableTwoFactorRoute env lib fresh now d d' ids u role input s = (r, s') \<Longrightarrow> sha256 env (fr_refresh ids) = h \<Longrightarrow>
    account_request env now h s s'"
| backup_codes: "regenerateBackupCodesRoute env lib fresh now d d' ids u role input s = (r, s') \<Longrightarrow> sha256 env (fr_refresh ids) = h \<Longrightarrow>
    account_request env now h s s'"
| phone_request: "phoneRequest smsSend now d1 d2 d3 d4 u phone s = (r, s') \<Longrightarrow> account_request env now h s s'"
| phone_check: "phoneConfirmCheck smsCheck u code s = (r, s') \<Longrightarrow> account_request env now h s s'"
| phone_write: "phoneConfirmWrite now u s = (r, s') \<Longrightarrow> account_request env now h s s'"
| connect: "createTelegramConnectToken connectLink token u s = (r, s') \<Longrightarrow> account_request env now h s s'"
| connected: "consumeTelegramConnectToken now token chat s = (r, s') \<Longrightarrow> account_request env now h s s'"
| disconnect: "disconnectTelegram u s = (r, s') \<Longrightarrow> account_request env now h s s'"
| admin_update: "adminUpdateUser env now d u role' banned s = (r, s') \<Longrightarrow> account_request env now h s s'"
| banned: "handleUserBanned env now d u s = (r, s') \<Longrightarrow> account_request env now h s s'"

lemma issue_rotate:
  "sha256 env (fr_refresh ids) = h \<Longrightarrow> issue_run env now h (rotateSecuritySession env now d d' ids u role)"
  unfolding rotateSecuritySession_def by (intro issue_run_bind [OF run_revoke_all] issue_run_session_only)

lemma issue_changes:
  assumes "sha256 env (fr_refresh ids) = h"
  shows "issue_run env now h (passwordFinish env now d d' ids u role)"
    "issue_run env now h (enableTwoFactorRoute env lib fresh now d d' ids u role code)"
    "issue_run env now h (disableTwoFactorRoute env lib fresh now d d' ids u role input)"
    "issue_run env now h (regenerateBackupCodesRoute env lib fresh now d d' ids u role input)"
  unfolding passwordFinish_def enableTwoFactorRoute_def disableTwoFactorRoute_def regenerateBackupCodesRoute_def
  by (rule issue_run_then issue_run_quiet issue_rotate assms run_quiet quiet_services quiet_intros)+

lemma issue_logins:
  assumes "sha256 env (fr_refresh ids) = h"
  shows "issue_run env now h (registerRoute env lib url loc now d ids t1 t2 i salt email pw name)"
    "issue_run env now h (loginRoute env lib now d ids jti email pw)"
    "issue_run env now h (twoFactorVerifyRoute env lib fresh now d d' ids token code)"
    "issue_run env now h (telegramRoute env mac botToken now d ids i payload)"
  unfolding registerRoute_def loginRoute_def twoFactorVerifyRoute_def telegramRoute_def Let_def
  by (rule issue_run_session issue_run_if issue_run_quiet issue_run_still assms run_quiet quiet_services quiet_intros)+

lemma issue_runE:
  "m (cf_auth c) = (r, s') \<Longrightarrow> gh_owner (cf_ghosts c) h = None \<Longrightarrow> issue_run env (cf_now c) h m \<Longrightarrow> reaches env h c s'"
  by (rule issue_runD)

lemma account_request_runs:
  assumes "account_request env (cf_now c) h (cf_auth c) s'" "gh_owner (cf_ghosts c) h = None"
  shows "reaches env h c s'"
  using assms
  by (cases rule: account_request.cases)
    (erule issue_runE, assumption,
     ((rule issue_changes issue_logins, assumption) | (rule issue_run_keeps, rule run_changes) | (rule issue_run_still, rule quiet_services)))+

section \<open>Refreshing\<close>

lemma reaches_attempt:
  assumes "cf_args c h = Some a" "redis_eval d (rotateScript a (cf_now c)) (cf_auth c) = (r, s')"
  obtains c' where "auth_step env c c'" "cf_auth c' = s'" "cf_now c' = cf_now c" "cf_args c' = cf_args c"
    "gh_owner (cf_ghosts c') = gh_owner (cf_ghosts c)" "gh_family (cf_ghosts c') = gh_family (cf_ghosts c)"
  by (rule that [OF auth_step.attempt [OF assms refl]]) (simp_all add: create_def)

lemma rotateAttempts_run:
  assumes "rotateAttempts ds (cf_now c) a x (cf_auth c) = (r, s')" "cf_args c h = Some a"
  shows "\<exists>c'. (auth_step env)\<^sup>*\<^sup>* c c' \<and> cf_auth c' = s' \<and> cf_now c' = cf_now c \<and>
    gh_owner (cf_ghosts c') = gh_owner (cf_ghosts c) \<and> gh_family (cf_ghosts c') = gh_family (cf_ghosts c)"
  using assms
proof (induction ds arbitrary: c)
  case Nil
  then show ?case by (auto simp: tx_throw_def intro!: exI [of _ c])
next
  case (Cons d ds)
  obtain q t where q: "redis_eval d (rotateScript a (cf_now c)) (cf_auth c) = (q, t)" by fastforce
  obtain c1 where c1: "auth_step env c c1" "cf_auth c1 = t" "cf_now c1 = cf_now c" "cf_args c1 = cf_args c"
    "gh_owner (cf_ghosts c1) = gh_owner (cf_ghosts c)" "gh_family (cf_ghosts c1) = gh_family (cf_ghosts c)"
    by (rule reaches_attempt [OF Cons.prems(2) q])
  show ?case
  proof (cases q)
    case (Inl e)
    then have "rotateAttempts ds (cf_now c1) a x (cf_auth c1) = (r, s')" using Cons.prems(1) q c1 by simp
    from Cons.IH [OF this] Cons.prems(2) c1 show ?thesis by (auto intro: converse_rtranclp_into_rtranclp)
  next
    case (Inr n)
    then have "s' = t" using Cons.prems(1) q by (auto split: if_splits)
    then show ?thesis using c1 by (intro exI [of _ c1]) auto
  qed
qed

text \<open>A rotation for the record a refresh token has now.\<close>

lemma rotate_reaches:
  assumes ok: "cfg_ok env c" and h: "gh_owner (cf_ghosts c) (sha256 env (fr_refresh ids)) = None"
    and live: "refresh_at (cf_now c) (au_redis (cf_auth c)) h0 (refreshRecord u v f) (Some x)"
    and i: "ri_user i = u" "ri_family i = f" "ri_old_hash i = h0" "ri_expected i = refreshRecord u v f"
    and r: "rotateRefreshSession env (cf_now c) ds ids i acc (cf_auth c) = (r, s')"
  shows "reaches env (sha256 env (fr_refresh ids)) c s'"
proof (cases "au_redis_up (cf_auth c) \<and>
    (\<exists>session. prepareSessionCredentials env (cf_now c) ids (ri_user i) (ri_role i) (Some (ri_version i)) (Some (ri_family i)) (cf_auth c)
      = (Inr session, cf_auth c))")
  case False
  then have "s' = cf_auth c"
    using r by (auto simp: rotateRefreshSession_def requireRedis_def prepareSessionCredentials_def accountById_def tx_defs Let_def
        split: option.splits if_splits)
  then show ?thesis by (simp add: reaches_run run_to_refl)
next
  case True
  let ?h = "sha256 env (fr_refresh ids)"
  from True obtain session where up: "au_redis_up (cf_auth c)" and p: "prepareSessionCredentials env (cf_now c) ids (ri_user i) (ri_role i)
      (Some (ri_version i)) (Some (ri_family i)) (cf_auth c) = (Inr session, cf_auth c)" by blast
  let ?a = "rotateArguments env (cf_now c) i acc session"
  let ?c = "c\<lparr>cf_ghosts := draw ?h (ri_user i) (ri_family i) (sc_version session) (cf_ghosts c), cf_args := (cf_args c)(?h \<mapsto> ?a)\<rparr>"
  have idx: "index_ok {} (refresh_ttl env) (cf_now c) (cf_ghosts c) (au_redis (cf_auth c))" using ok by (simp add: cfg_ok_def)
  note tok = index_tokens(4,5) [OF idx live]
  have start: "auth_step env c ?c"
    by (rule auth_step.start [OF refl h _ _ _ p, of v]) (use i tok in simp_all)
  have "rotateAttempts [fst ds, snd ds] (cf_now ?c) ?a session (cf_auth ?c) = (r, s')"
    using r up p by (simp add: rotateRefreshSession_def requireRedis_def tx_defs)
  from rotateAttempts_run [OF this, of ?h] obtain c' where c': "(auth_step env)\<^sup>*\<^sup>* ?c c'" "cf_auth c' = s'" "cf_now c' = cf_now c"
    "gh_owner (cf_ghosts c') = (gh_owner (cf_ghosts c))(?h \<mapsto> ri_user i)"
    "gh_family (cf_ghosts c') = (gh_family (cf_ghosts c))(?h \<mapsto> ri_family i)" by (auto simp: draw_def)
  have "f \<in> ran (gh_family (cf_ghosts c))" using tok by (auto simp: ran_def)
  then show ?thesis
    unfolding reaches_def using c' start i by (intro exI [of _ c']) (auto simp: ran_def intro: converse_rtranclp_into_rtranclp)
qed

lemma clear_state: "someOrClear v e s = (r, s') \<Longrightarrow> s' = s \<or> v = None \<and> s' = s\<lparr>au_cleared := True\<rparr>"
  "guardOrClear b e s = (r', s') \<Longrightarrow> s' = s \<or> \<not> b \<and> s' = s\<lparr>au_cleared := True\<rparr>"
  by (auto simp: someOrClear_def guardOrClear_def clearAndThrow_def clearAuthCookies_def tx_defs split: option.splits if_splits)

lemma refreshRoute_state:
  assumes "refreshRoute env now d ds ids tok acc s = (r, s')"
  shows "s' = s \<or> s' = s\<lparr>au_cleared := True\<rparr> \<or>
    (\<exists>t raw rc row q u. tok = Some t \<and> GET now (Refresh (sha256 env t)) (au_redis s) = Some raw \<and>
       parseRefreshRecord raw = Some rc \<and> t_find ac_id (rr_user rc) (au_users s) = Some row \<and>
       rotateRefreshSession env now ds ids
         \<lparr>ri_user = ac_id row, ri_role = ac_role row, ri_version = ac_version row,
          ri_family = (case rr_family rc of Some f \<Rightarrow> f | None \<Rightarrow> sha256 env t),
          ri_old_hash = sha256 env t, ri_expected = raw\<rparr> acc s = (q, u) \<and>
       (s' = u \<or> s' = u\<lparr>au_cleared := True\<rparr>))"
  using assms
  by (cases d)
    (auto simp: refreshRoute_def requireRedis_def redis_eval_def accountById_def tx_defs tx_catch_def Let_def someOrClear_def
      guardOrClear_def clearAndThrow_def clearAuthCookies_def split: option.splits if_splits sum.splits prod.splits)

lemma cleared_run: "run_to env now s (s\<lparr>au_cleared := True\<rparr>)"
  by (rule quiet_run_to) (simp add: quiet_def users_grow_refl)

lemma refresh_reaches:
  assumes ok: "cfg_ok env c" and h: "gh_owner (cf_ghosts c) (sha256 env (fr_refresh ids)) = None"
    and ne: "[] \<notin> ran (gh_family (cf_ghosts c))"
    and r: "refreshRoute env (cf_now c) d ds ids tok acc (cf_auth c) = (r, s')"
  shows "reaches env (sha256 env (fr_refresh ids)) c s'"
proof -
  let ?s = "cf_auth c"
  from refreshRoute_state [OF r] consider "s' = ?s \<or> s' = ?s\<lparr>au_cleared := True\<rparr>"
    | t raw rc row q u where "GET (cf_now c) (Refresh (sha256 env t)) (au_redis ?s) = Some raw"
      "parseRefreshRecord raw = Some rc" "t_find ac_id (rr_user rc) (au_users ?s) = Some row"
      "rotateRefreshSession env (cf_now c) ds ids
         \<lparr>ri_user = ac_id row, ri_role = ac_role row, ri_version = ac_version row,
          ri_family = (case rr_family rc of Some f \<Rightarrow> f | None \<Rightarrow> sha256 env t),
          ri_old_hash = sha256 env t, ri_expected = raw\<rparr> acc ?s = (q, u)"
      "s' = u \<or> s' = u\<lparr>au_cleared := True\<rparr>" by blast
  then show ?thesis
  proof cases
    case 1
    then show ?thesis by (auto intro: reaches_run run_to_refl cleared_run)
  next
    case 2
    have idx: "index_ok {} (refresh_ttl env) (cf_now c) (cf_ghosts c) (au_redis ?s)" using ok by (simp add: cfg_ok_def)
    from 2(1) obtain e where "refresh_at (cf_now c) (au_redis ?s) (sha256 env t) raw e" by (auto simp: refresh_at_GET)
    from index_record [OF idx this] obtain w v f x where raw: "raw = refreshRecord w v f"
      and live: "refresh_at (cf_now c) (au_redis ?s) (sha256 env t) (refreshRecord w v f) (Some x)" by metis
    have "f \<noteq> []" using index_tokens(5) [OF idx live] ne by (auto simp: ran_def)
    then have rc: "rc = \<lparr>rr_user = w, rr_version = v, rr_family = Some f\<rparr>" using 2(2) by (simp add: raw parse_refreshRecord)
    then have "ac_id row = w" using t_find_Some [OF 2(3)] by simp
    from rotate_reaches [OF ok h live _ _ _ _ 2(4)] have "reaches env (sha256 env (fr_refresh ids)) c u"
      using rc raw \<open>ac_id row = w\<close> by simp
    with 2(5) show ?thesis by (auto intro: reaches_then cleared_run)
  qed
qed

end
