(* ===== verification/AccountSafety.thy ===== *)
theory AccountSafety
  imports AccountRuns
begin

text \<open>
  What holds of the account services and the sessions together: the service with all its routes refines
  the session system, its refresh records are well-formed, and every change of a password, an
  address, a second factor, a role or a ban ends what was issued before it.
\<close>

section \<open>The service\<close>

text \<open>
  The clock, the state and the refresh hashes used up. A request names the hash it would issue a
  session under; a digest is never empty.
\<close>

type_synonym service = "time \<times> auth_state \<times> string set"

inductive service_step :: "'t auth_env \<Rightarrow> service \<Rightarrow> service \<Rightarrow> bool" for env where
  later: "now \<le> n \<Longrightarrow> service_step env (now, s, D) (n, s, D)"
| request: "account_request env now h s s' \<Longrightarrow> h \<notin> D \<Longrightarrow> h \<noteq> [] \<Longrightarrow> service_step env (now, s, D) (now, s', insert h D)"
| refresh: "refreshRoute env now d ds ids tok acc s = (r, s') \<Longrightarrow> sha256 env (fr_refresh ids) = h \<Longrightarrow> h \<notin> D \<Longrightarrow> h \<noteq> [] \<Longrightarrow>
    service_step env (now, s, D) (now, s', insert h D)"

definition service_init :: "service \<Rightarrow> bool" where
  "service_init x \<longleftrightarrow> au_redis (fst (snd x)) = redis_empty"

text \<open>A reachable configuration of the session system behind a state of the service.\<close>

definition backed :: "'t auth_env \<Rightarrow> service \<Rightarrow> auth_cfg \<Rightarrow> bool" where
  "backed env x c \<longleftrightarrow> (\<exists>c0. auth_init c0 \<and> (auth_step env)\<^sup>*\<^sup>* c0 c) \<and> cf_now c = fst x \<and> cf_auth c = fst (snd x) \<and>
     dom (gh_owner (cf_ghosts c)) \<subseteq> snd (snd x) \<and> [] \<notin> ran (gh_family (cf_ghosts c))"

lemma backed_init:
  assumes "service_init x"
  shows "\<exists>c. backed env x c"
proof -
  let ?c = "\<lparr>cf_now = fst x, cf_auth = fst (snd x),
    cf_ghosts = \<lparr>gh_owner = Map.empty, gh_family = Map.empty, gh_version = Map.empty, gh_created = {}\<rparr>, cf_args = Map.empty\<rparr>"
  have "backed env x ?c" using assms by (auto simp: backed_def service_init_def auth_init_def intro!: exI [of _ ?c])
  then show ?thesis ..
qed

lemma backed_reaches:
  assumes b: "backed env (now, s, D) c" and r: "reaches env h c s'" and h: "h \<noteq> []"
  shows "\<exists>c'. (auth_step env)\<^sup>*\<^sup>* c c' \<and> backed env (now, s', insert h D) c'"
proof -
  from r obtain c' where c': "(auth_step env)\<^sup>*\<^sup>* c c'" "cf_auth c' = s'" "cf_now c' = cf_now c"
    "dom (gh_owner (cf_ghosts c')) \<subseteq> insert h (dom (gh_owner (cf_ghosts c)))"
    "ran (gh_family (cf_ghosts c')) \<subseteq> insert h (ran (gh_family (cf_ghosts c)))" unfolding reaches_def by blast
  have "backed env (now, s', insert h D) c'"
    using b c' h unfolding backed_def by (auto intro: rtranclp_trans)
  with c'(1) show ?thesis by blast
qed

lemma backed_ok: "auth_env_ok env \<Longrightarrow> backed env x c \<Longrightarrow> cfg_ok env c"
  unfolding backed_def by (blast intro: auth_reachable_ok)

text \<open>Each step of the service is matched by steps of the session system.\<close>

lemma backed_step:
  assumes env: "auth_env_ok env" and b: "backed env x c" and step: "service_step env x y"
  shows "\<exists>c'. (auth_step env)\<^sup>*\<^sup>* c c' \<and> backed env y c'"
proof -
  note ok = backed_ok [OF env b]
  from step show ?thesis
  proof cases
    case (later now n s D)
    have "auth_step env c (c\<lparr>cf_now := n\<rparr>)" using b later by (intro auth_step.tick) (simp add: backed_def)
    moreover from this have "backed env y (c\<lparr>cf_now := n\<rparr>)"
      using b later unfolding backed_def by (auto intro: rtranclp.rtrancl_into_rtrancl)
    ultimately show ?thesis by blast
  next
    case (request now h s s' D)
    have "reaches env h c s'"
      using b request by (intro account_request_runs) (auto simp: backed_def)
    then show ?thesis using b request backed_reaches [of env now s D c h s'] by simp
  next
    case (refresh now d ds ids tok acc s r s' h D)
    have "reaches env h c s'"
      using b refresh refresh_reaches [OF ok, of ids d ds tok acc r s'] by (auto simp: backed_def)
    then show ?thesis using b refresh backed_reaches [of env now s D c h s'] by simp
  qed
qed

lemma backed_steps:
  assumes env: "auth_env_ok env" and b: "backed env x c" and steps: "(service_step env)\<^sup>*\<^sup>* x y"
  shows "\<exists>c'. (auth_step env)\<^sup>*\<^sup>* c c' \<and> backed env y c'"
  using steps
proof (induction rule: rtranclp_induct)
  case base
  then show ?case using b by blast
next
  case (step y z)
  then show ?case using backed_step [OF env] by (meson rtranclp_trans)
qed

lemma backed_reachable:
  assumes env: "auth_env_ok env" and "service_init x" "(service_step env)\<^sup>*\<^sup>* x y"
  shows "\<exists>c. backed env y c"
  using backed_init [OF assms(2)] backed_steps [OF env _ assms(3)] by blast

lemma service_ok:
  assumes env: "auth_env_ok env" and "service_init x" "(service_step env)\<^sup>*\<^sup>* x (now, s, D)"
  obtains c where "cfg_ok env c" "cf_now c = now" "cf_auth c = s" "[] \<notin> ran (gh_family (cf_ghosts c))"
proof -
  from backed_reachable [OF assms] obtain c where b: "backed env (now, s, D) c" ..
  with backed_ok [OF env b] show thesis by (intro that) (auto simp: backed_def)
qed

text \<open>
  C14: every refresh record is well-formed. In every reachable state of the service, whatever Redis
  stores under the hash of a refresh token parses to a record that names a family and an existing
  account, with a session version that is never ahead of the account's present one.
\<close>

theorem refresh_records_typed:
  assumes "auth_env_ok env" "service_init x" "(service_step env)\<^sup>*\<^sup>* x (now, s, D)"
    and "GET now (Refresh h) (au_redis s) = Some raw"
  shows "\<exists>rc f row. parseRefreshRecord raw = Some rc \<and> rr_family rc = Some f \<and> f \<noteq> [] \<and>
    t_find ac_id (rr_user rc) (au_users s) = Some row \<and> rr_version rc \<le> ac_version row"
proof -
  from service_ok [OF assms(1-3)] obtain c where c: "cfg_ok env c" "cf_now c = now" "cf_auth c = s" "[] \<notin> ran (gh_family (cf_ghosts c))" .
  then have idx: "index_ok {} (refresh_ttl env) now (cf_ghosts c) (au_redis s)" by (simp add: cfg_ok_def)
  from assms(4) obtain e where "refresh_at now (au_redis s) h raw e" by (auto simp: refresh_at_GET)
  from index_record [OF idx this] obtain u v f y where raw: "raw = refreshRecord u v f"
    and live: "refresh_at now (au_redis s) h (refreshRecord u v f) (Some y)" by metis
  note tok = index_tokens(4,5) [OF idx live]
  have "f \<noteq> []" using tok(2) c(4) by (auto simp: ran_def)
  moreover obtain w row where "gh_version (cf_ghosts c) h = Some w" "t_find ac_id u (au_users s) = Some row" "w \<le> ac_version row"
    using cfg_owner_version [OF c(1) tok(1)] c(3) by metis
  moreover have "gh_version (cf_ghosts c) h = Some v" using cfg_record_version [OF c(1)] live c(2,3) by simp
  ultimately show ?thesis by (simp add: raw parse_refreshRecord)
qed

section \<open>Changes of credentials\<close>

definition growing :: "auth_state \<Rightarrow> auth_state \<Rightarrow> bool" where
  "growing s t \<longleftrightarrow> users_grow (au_users s) (au_users t)"

interpretation growth: frame growing
  by unfold_locales (auto simp: growing_def users_grow_refl intro: users_grow_trans)

lemma growth_quiet: "quiet.keeps m \<Longrightarrow> growth.keeps m"
  by (simp add: quiet.keeps_def growth.keeps_def quiet_def growing_def)

lemma growth_revoke_all: "growth.keeps (revokeAllUserSessions env now d u j strict pub)"
  by (auto simp: growth.keeps_def growing_def store_only_def users_grow_refl dest: revoke_all_store)

text \<open>The account exists afterwards, with a version above the one it had.\<close>

definition raised :: "uuid \<Rightarrow> auth_state \<Rightarrow> auth_state \<Rightarrow> bool" where
  "raised u s t \<longleftrightarrow> (\<exists>row'. t_find ac_id u (au_users t) = Some row' \<and>
     (\<forall>row. t_find ac_id u (au_users s) = Some row \<longrightarrow> ac_version row < ac_version row'))"

lemma raised_before: "growing s t \<Longrightarrow> raised u t t' \<Longrightarrow> raised u s t'"
  unfolding raised_def growing_def users_grow_def by (metis order.strict_trans1)

lemma raised_after: "raised u s t \<Longrightarrow> growing t t' \<Longrightarrow> raised u s t'"
  unfolding raised_def growing_def users_grow_def by (metis order.strict_trans2)

text \<open>A callback that raises the version whenever it returns a value of a given kind.\<close>

definition raises :: "uuid \<Rightarrow> ('a \<Rightarrow> bool) \<Rightarrow> 'a authtx \<Rightarrow> bool" where
  "raises u P m \<longleftrightarrow> (\<forall>s x s'. m s = (Inr x, s') \<longrightarrow> P x \<longrightarrow> raised u s s')"

lemma raisesD: "raises u P m \<Longrightarrow> m s = (Inr x, s') \<Longrightarrow> P x \<Longrightarrow> raised u s s'"
  by (simp add: raises_def)

lemma raises_later: "growth.keeps m \<Longrightarrow> (\<And>x. raises u P (f x)) \<Longrightarrow> raises u P (tx_bind m f)"
  unfolding raises_def tx_bind_iff by (blast intro: raised_before dest: growth.keepsD)

lemma raises_now:
  "raises u Q m \<Longrightarrow> (\<And>x. growth.keeps (f x)) \<Longrightarrow> (\<And>x s y s'. f x s = (Inr y, s') \<Longrightarrow> P y \<Longrightarrow> Q x) \<Longrightarrow> raises u P (tx_bind m f)"
  unfolding raises_def tx_bind_iff by (blast intro: raised_after dest: growth.keepsD)

lemma raises_authTx: "raises u P m \<Longrightarrow> raises u P (authTx m)"
  by (simp add: raises_def authTx_iff)

lemma raises_bump: "raises u (\<lambda>_. True) (bumpSessionVersion u)"
  by (auto simp: raises_def bumpSessionVersion_def tx_simps t_find_upd raised_def)

lemma raises_update:
  "(\<And>r. ac_id (f r) = ac_id r \<and> ac_version r < ac_version (f r)) \<Longrightarrow> updateUser u f s = (Inr x, s') \<Longrightarrow>
   t_find ac_id u (au_users s) \<noteq> None \<Longrightarrow> raised u s s'"
  by (auto simp: updateUser_def tx_simps t_find_upd raised_def)

lemma raises_if: "raises u P m \<Longrightarrow> raises u P n \<Longrightarrow> raises u P (if b then m else n)"
  by simp

lemma raises_return: "\<not> P x \<Longrightarrow> raises u P (tx_return x)"
  by (simp add: raises_def tx_simps)

lemma raises_case_prod: "(\<And>a b. raises u P (f a b)) \<Longrightarrow> raises u P (case p of (a, b) \<Rightarrow> f a b)"
  by (cases p) simp

lemma raises_bump_then:
  "(\<And>x. quiet.keeps (f x)) \<Longrightarrow> raises u P (tx_bind (bumpSessionVersion u) f)"
  by (rule raises_now [OF raises_bump]) (auto intro: growth_quiet)

lemma raises_quiet: "quiet.keeps m \<Longrightarrow> (\<And>x. raises u P (f x)) \<Longrightarrow> raises u P (tx_bind m f)"
  by (intro raises_later growth_quiet)

lemma raises_confirm: "raises u (\<lambda>_. True) (confirmTwoFactor lib fresh now u code)"
proof -
  have "raises u (\<lambda>r. r \<noteq> None) (confirmTx lib fresh now u code)"
    unfolding confirmTx_def
    by (rule raises_bump_then raises_if raises_case_prod raises_quiet raises_return quiet_services quiet_twofa quiet_intros | simp)+
  from raises_authTx [OF this] show ?thesis
    unfolding confirmTwoFactor_def
    by (intro raises_quiet [OF quiet_migrate], rule raises_now)
      (auto intro!: growth_quiet quiet_intros quiet_services simp: tx_simps)
qed

lemma raises_regenerate: "raises u (\<lambda>_. True) (regenerateTwoFactorBackupCodes lib fresh now u input)"
  unfolding regenerateTwoFactorBackupCodes_def
  by (rule raises_bump_then raises_authTx raises_quiet quiet_services quiet_twofa quiet_intros)+

lemma raises_disable: "raises u (\<lambda>_. True) (disableTwoFactor lib fresh now u input)"
  unfolding disableTwoFactor_def
  by (rule raises_quiet, rule quiet_services, rule raises_now, rule raises_authTx)
    (rule raises_bump_then raises_quiet growth_quiet quiet_services quiet_twofa quiet_intros | simp)+

lemma raises_admin:
  assumes "adminUpdateUser env now d u role banned s = (Inr x, s')" "t_find ac_id u (au_users s) = Some row"
    and changed: "banned = Some True \<and> \<not> ac_banned row \<or> role \<noteq> None \<and> role \<noteq> Some (ac_role row)"
  shows "raised u s s'"
proof -
  let ?f = "\<lambda>r. r\<lparr>ac_role := (case role of Some r \<Rightarrow> r | None \<Rightarrow> ac_role r), ac_banned := (case banned of Some b \<Rightarrow> b | None \<Rightarrow> ac_banned r)\<rparr>"
  from assms(1) obtain t y where t: "adminUpdateUserTx u role banned s = (Inr y, t)" and g: "growing t s'"
    by (auto simp: adminUpdateUser_def tx_simps growing_def users_grow_refl dest: growth.keepsD [OF growth_revoke_all] split: if_splits)
  let ?changed = "banned = Some True \<and> \<not> ac_banned row \<or> role \<noteq> None \<and> role \<noteq> Some (ac_role row)"
  let ?rest = "\<lambda>z. tx_bind (tx_when ?changed (tx_bind (bumpSessionVersion u) (\<lambda>_. tx_return ())))
    (\<lambda>_. tx_bind (tx_when (banned = Some True \<and> \<not> ac_banned row) (tx_modify (au_events_update (\<lambda>es. es @ [(''user.banned'', u)]))))
      (\<lambda>_. tx_return (z :: user_account)))"
  have rest: "raises u (\<lambda>_. True) (?rest z)" for z
    unfolding tx_when_def if_P [OF changed]
    by (rule raises_now [OF raises_bump_then]) (auto intro!: growth_quiet quiet_intros quiet_table)
  from t assms(2) obtain t1 z where b: "updateUser u ?f s = (Inr (), t1)" "?rest z t1 = (Inr y, t)"
    unfolding adminUpdateUserTx_def Let_def tx_bind_iff [of "accountById u"] tx_bind_iff [of "tx_some _ _"] tx_bind_iff [of "updateUser _ _"]
    by (auto simp: accountById_iff tx_some_iff)
  have "growing s t1" using growth.keepsD [OF growth_quiet [OF quiet_updateUser] b(1)] by simp
  then show ?thesis using raisesD [OF rest b(2) TrueI] g by (blast intro: raised_before raised_after)
qed

section \<open>Every change of a credential ends what came before\<close>

text \<open>
  The operations after which older sessions must be gone: a reset or changed password, a confirmed
  change of address, a second factor enabled, renewed or removed, a logout everywhere, and a ban or
  another role given by an administrator. The password route is represented by its guarded update,
  which is the moment the new password exists.
\<close>

inductive security_change :: "'t auth_env \<Rightarrow> time \<Rightarrow> uuid \<Rightarrow> auth_state \<Rightarrow> auth_state \<Rightarrow> bool" for env now where
  reset: "passwordReset env lib now d d' salt token pw s = (Inr (), s') \<Longrightarrow>
    fst (consumePasswordResetToken env now d token s) = Inr reset \<Longrightarrow> security_change env now (rt_user reset) s s'"
| password: "passwordWrite u generation hash nextHash s = (Inr (), s') \<Longrightarrow> security_change env now u s s'"
| address: "confirmEmailChange env now d token s = (Inr (u, email), s') \<Longrightarrow> security_change env now u s s'"
| enable: "confirmTwoFactor lib fresh now u code s = (Inr codes, s') \<Longrightarrow> security_change env now u s s'"
| renew: "regenerateTwoFactorBackupCodes lib fresh now u input s = (Inr codes, s') \<Longrightarrow> security_change env now u s s'"
| disable: "disableTwoFactor lib fresh now u input s = (Inr (), s') \<Longrightarrow> security_change env now u s s'"
| everywhere: "logoutAllRoute env now d u s = (Inr (), s') \<Longrightarrow> security_change env now u s s'"
| admin: "adminUpdateUser env now d u role banned s = (Inr row', s') \<Longrightarrow> t_find ac_id u (au_users s) = Some row \<Longrightarrow>
    banned = Some True \<and> \<not> ac_banned row \<or> role \<noteq> None \<and> role \<noteq> Some (ac_role row) \<Longrightarrow> security_change env now u s s'"

lemma raises_password_write: "raises u (\<lambda>_. True) (passwordWrite u generation hash nextHash)"
  unfolding passwordWrite_def raises_def
  by (auto simp: tx_simps split: option.splits dest: raises_update [rotated])

lemma some_if_iff: "(case v of None \<Rightarrow> None | Some r \<Rightarrow> if P r then Some r else None) = Some y \<longleftrightarrow> v = Some y \<and> P y"
  by (auto split: option.splits if_splits)

text \<open>What a confirmed change of address has checked and done.\<close>

lemma confirmChangeTx_returns:
  assumes "confirmChangeTx now h s = (Inr (u, email), t)"
  obtains request user where "request \<in> set (au_email_changes s)" "ec_token_hash request = h" "ec_user request = u"
    "ec_pending_email request = email" "t_find ac_id u (au_users s) = Some user" "confirmable now user request"
    "\<not> emailTaken email u (au_users s)"
    "au_users t = t_upd ac_id u (\<lambda>u. u\<lparr>ac_email := email, ac_version := ac_version u + 1,
         ac_email_verified_at := Some now, ac_email_generation := ac_email_generation u + 1\<rparr>) (au_users s)"
    "au_email_changes t = filter (\<lambda>r. \<not> (ec_user r = u \<and> ec_token_hash r = h)) (au_email_changes s)"
    "au_redis t = au_redis s"
proof -
  from assms obtain found request user where f: "find (\<lambda>r. ec_token_hash r = h) (au_email_changes s) = Some found"
    "t_find ac_id (ec_user found) (au_users s) = Some user"
    "find (\<lambda>r. ec_token_hash r = h \<and> ec_user r = ec_user found) (au_email_changes s) = Some request"
    "confirmable now user request" "\<not> emailTaken (ec_pending_email request) (ec_user request) (au_users s)"
    "u = ec_user request" "email = ec_pending_email request"
    and t: "t = au_email_changes_update (filter (\<lambda>r. \<not> (ec_user r = ec_user request \<and> ec_token_hash r = h)))
      (au_users_update (t_upd ac_id (ec_user request) (\<lambda>u. u\<lparr>ac_email := ec_pending_email request, ac_version := ac_version u + 1,
         ac_email_verified_at := Some now, ac_email_generation := ac_email_generation u + 1\<rparr>)) s)"
    by (auto simp: confirmChangeTx_def tx_simps some_if_iff updateUser_def)
  from f(3) have r: "request \<in> set (au_email_changes s)" "ec_token_hash request = h" "ec_user request = ec_user found"
    by (auto simp: find_Some_iff in_set_conv_nth)
  show thesis by (rule that [OF r(1,2)]) (use f r t in simp_all)
qed

lemma applyReset_raised: "applyReset reset hash s = (Inr (), s') \<Longrightarrow> raised (rt_user reset) s s'"
  unfolding applyReset_def by (auto simp: tx_simps split: option.splits dest: raises_update [rotated])

lemma security_change_raises:
  assumes "security_change env now u s s'"
  shows "raised u s s'"
  using assms
proof cases
  case (reset lib d d' salt token pw recd)
  from reset(2,3) obtain t t2 where c: "consumePasswordResetToken env now d token s = (Inr recd, t)"
      "applyReset recd (hashPassword lib salt pw) t = (Inr (), t2)"
      "revokeAllUserSessions env now d' (rt_user recd) None False True t2 = (Inr (), s')"
    by (auto simp: passwordReset_def tx_bind_iff)
  have "growing s t" using growth.keepsD [OF growth_quiet [OF quiet_tokens(3)] c(1)] .
  moreover have "growing t2 s'" using growth.keepsD [OF growth_revoke_all c(3)] .
  ultimately show ?thesis using applyReset_raised [OF c(2)] reset(1) by (blast intro: raised_before raised_after)
next
  case (address d token email)
  from address obtain t h where c: "confirmChangeTx now h s = (Inr (u, email), t)"
      "revokeAllUserSessions env now d u None False True t = (Inr (), s')"
    by (auto simp: confirmEmailChange_def uniqueAs_def tx_simps)
  have "raised u s t"
    by (rule confirmChangeTx_returns [OF c(1)]) (simp add: raised_def t_find_upd)
  moreover have "growing t s'" using growth.keepsD [OF growth_revoke_all c(2)] .
  ultimately show ?thesis by (blast intro: raised_after)
next
  case (everywhere d)
  then obtain n t t2 where c: "bumpSessionVersion u s = (Inr n, t)" "revokeAllUserSessions env now d u None False True t = (Inr (), t2)"
    "growing t2 s'" by (auto simp: logoutAllRoute_def tx_simps growing_def users_grow_refl)
  have "growing t t2" using growth.keepsD [OF growth_revoke_all c(2)] .
  then show ?thesis using raisesD [OF raises_bump c(1)] c(3) by (blast intro: raised_after)
qed (blast intro: raises_admin dest: raisesD [OF raises_password_write] raisesD [OF raises_confirm] raisesD [OF raises_regenerate] raisesD [OF raises_disable])+

lemma security_change_run: "security_change env now u s s' \<Longrightarrow> run_to env now s s'"
  by (cases rule: security_change.cases, assumption)
    (blast dest: run.keepsD [OF run_changes(1)] run.keepsD [OF run_changes(2)] run.keepsD [OF run_changes(4)]
      run.keepsD [OF run_changes(5)] run.keepsD [OF run_quiet [OF quiet_passwords(2)]]
      run.keepsD [OF run_quiet [OF quiet_two_factor_changes(1)]] run.keepsD [OF run_quiet [OF quiet_two_factor_changes(2)]]
      run.keepsD [OF run_quiet [OF quiet_two_factor_changes(3)]])+

text \<open>
  What a change has ended in every later configuration: the refresh tokens drawn for the user before it,
  and the access tokens signed for a version the account had before it.
\<close>

lemma change_ends:
  assumes env: "auth_env_ok env" and ok: "cfg_ok env c"
    and change: "security_change env (cf_now c) u (cf_auth c) s'"
    and later: "(auth_step env)\<^sup>*\<^sup>* (c\<lparr>cf_auth := s'\<rparr>) c2"
  shows "gh_owner (cf_ghosts c) (sha256 env t) = Some u \<Longrightarrow>
      refreshRoute env (cf_now c2) d ds ids (Some t) acc (cf_auth c2) \<noteq> (Inr x, s2)"
    and "t_find ac_id u (au_users (cf_auth c)) = Some row \<Longrightarrow> jwt_verify env False (cf_now c2) tok = Some p \<Longrightarrow>
      json_member ''sub'' p = Some (JStr u) \<Longrightarrow> json_member ''sv'' p = Some (JNum m) \<Longrightarrow> m \<le> ac_version row \<Longrightarrow>
      authenticate env (cf_now c2) d (Some tok) (cf_auth c2) \<noteq> (Inr y, s2)"
proof -
  have steps: "(auth_step env)\<^sup>*\<^sup>* c (c\<lparr>cf_auth := s'\<rparr>)" by (rule run_toD [OF security_change_run [OF change]])
  from extends_steps [OF env ok steps] have ok1: "cfg_ok env (c\<lparr>cf_auth := s'\<rparr>)" and ext: "extends c (c\<lparr>cf_auth := s'\<rparr>)" by simp_all
  from security_change_raises [OF change] obtain row' where row': "t_find ac_id u (au_users s') = Some row'"
    and less: "\<And>row. t_find ac_id u (au_users (cf_auth c)) = Some row \<Longrightarrow> ac_version row < ac_version row'"
    unfolding raised_def by blast
  have row1: "t_find ac_id u (au_users (cf_auth (c\<lparr>cf_auth := s'\<rparr>))) = Some row'" using row' by simp
  note V = version_raised [OF env ok ok1 ext _ row1 less later]
  show "refreshRoute env (cf_now c2) d ds ids (Some t) acc (cf_auth c2) \<noteq> (Inr x, s2)"
    if o: "gh_owner (cf_ghosts c) (sha256 env t) = Some u"
  proof -
    from o obtain row where "t_find ac_id u (au_users (cf_auth c)) = Some row" using cfg_owner_version [OF ok] by metis
    from V(1) [OF this this o] show ?thesis .
  qed
  show "authenticate env (cf_now c2) d (Some tok) (cf_auth c2) \<noteq> (Inr y, s2)"
    if a: "t_find ac_id u (au_users (cf_auth c)) = Some row" "jwt_verify env False (cf_now c2) tok = Some p"
      "json_member ''sub'' p = Some (JStr u)" "json_member ''sv'' p = Some (JNum m)" "m \<le> ac_version row"
    by (rule V(2) [OF a(1) a(1) a(2-4)]) (use a(5) less [OF a(1)] in simp)
qed

text \<open>
  C12: a changed credential ends every earlier session. After a password was reset or changed, an
  address was changed, a second factor was enabled, renewed or removed, an administrator banned the
  account or changed its role, or the user logged out everywhere, then in every later state, whatever
  became of the commands to Redis: no refresh token drawn for the user before is ever refreshed again,
  not even by a rotation in flight, and no access token of the user is accepted that was signed for
  a session version the account had before.
\<close>

theorem security_change_ends_sessions:
  assumes env: "auth_env_ok env" and reach: "auth_init c0" "(auth_step env)\<^sup>*\<^sup>* c0 c"
    and change: "security_change env (cf_now c) u (cf_auth c) s'"
    and later: "(auth_step env)\<^sup>*\<^sup>* (c\<lparr>cf_auth := s'\<rparr>) c2"
  shows "(gh_owner (cf_ghosts c) (sha256 env t) = Some u \<longrightarrow>
      (\<forall>d ds ids acc x s2. refreshRoute env (cf_now c2) d ds ids (Some t) acc (cf_auth c2) \<noteq> (Inr x, s2))) \<and>
    (\<forall>row tok p m. t_find ac_id u (au_users (cf_auth c)) = Some row \<longrightarrow> jwt_verify env False (cf_now c2) tok = Some p \<longrightarrow>
      json_member ''sub'' p = Some (JStr u) \<longrightarrow> json_member ''sv'' p = Some (JNum m) \<longrightarrow> m \<le> ac_version row \<longrightarrow>
      (\<forall>d x s2. authenticate env (cf_now c2) d (Some tok) (cf_auth c2) \<noteq> (Inr x, s2)))"
  using change_ends [OF env auth_reachable_ok [OF env reach] change later] by blast

section \<open>Changes by the routes of the service\<close>

text \<open>
  The requests after which older sessions must be gone, each a whole request of the service. A second
  factor is enabled, renewed or removed by a route that then revokes the user's sessions and issues one to
  the caller: the change stands as soon as its transaction returned, whatever becomes of the rest.
\<close>

inductive service_change :: "'t auth_env \<Rightarrow> time \<Rightarrow> string \<Rightarrow> uuid \<Rightarrow> auth_state \<Rightarrow> auth_state \<Rightarrow> bool" for env now h where
  reset: "passwordReset env lib now d d' salt token pw s = (Inr (), s') \<Longrightarrow>
    fst (consumePasswordResetToken env now d token s) = Inr reset \<Longrightarrow> service_change env now h (rt_user reset) s s'"
| password: "passwordWrite u generation hash nextHash s = (Inr (), s') \<Longrightarrow> service_change env now h u s s'"
| address: "confirmEmailChange env now d token s = (Inr (u, email), s') \<Longrightarrow> service_change env now h u s s'"
| enable: "enableTwoFactorRoute env lib fresh now d d' ids u role code s = (r, s') \<Longrightarrow> sha256 env (fr_refresh ids) = h \<Longrightarrow>
    fst (confirmTwoFactor lib fresh now u code s) = Inr codes \<Longrightarrow> service_change env now h u s s'"
| renew: "regenerateBackupCodesRoute env lib fresh now d d' ids u role input s = (r, s') \<Longrightarrow> sha256 env (fr_refresh ids) = h \<Longrightarrow>
    fst (regenerateTwoFactorBackupCodes lib fresh now u input s) = Inr codes \<Longrightarrow> service_change env now h u s s'"
| disable: "disableTwoFactorRoute env lib fresh now d d' ids u role input s = (q, s') \<Longrightarrow> sha256 env (fr_refresh ids) = h \<Longrightarrow>
    fst (disableTwoFactor lib fresh now u input s) = Inr () \<Longrightarrow> service_change env now h u s s'"
| everywhere: "logoutAllRoute env now d u s = (Inr (), s') \<Longrightarrow> service_change env now h u s s'"
| admin: "adminUpdateUser env now d u role' banned s = (Inr row', s') \<Longrightarrow> t_find ac_id u (au_users s) = Some row \<Longrightarrow>
    banned = Some True \<and> \<not> ac_banned row \<or> role' \<noteq> None \<and> role' \<noteq> Some (ac_role row) \<Longrightarrow> service_change env now h u s s'"

lemma service_change_request: "service_change env now h u s s' \<Longrightarrow> account_request env now h s s'"
  by (cases rule: service_change.cases, assumption) (blast intro: account_request.intros)+

lemma bind_after: "tx_bind m f s = (r, s') \<Longrightarrow> m s = (Inr x, t) \<Longrightarrow> f x t = (r, s')"
  by (simp add: tx_bind_def)

text \<open>The change itself, then at most one session issued under the route's refresh hash.\<close>

lemma issue_after:
  "issue_run env (cf_now c) h m \<Longrightarrow> gh_owner (cf_ghosts c) h = None \<Longrightarrow> m t = (r, s') \<Longrightarrow> reaches env h (c\<lparr>cf_auth := t\<rparr>) s'"
  by (rule issue_runD [of env "c\<lparr>cf_auth := t\<rparr>" h m r]) simp_all

lemma issue_rotate_then:
  "sha256 env (fr_refresh ids) = h \<Longrightarrow>
   issue_run env now h (tx_bind (rotateSecuritySession env now d d' ids u role) (\<lambda>session. tx_return (codes, session)))"
  by (intro issue_run_then issue_rotate run.keeps_basic)

lemma service_change_split:
  assumes "service_change env (cf_now c) h u (cf_auth c) s'" and h: "gh_owner (cf_ghosts c) h = None"
  obtains t where "security_change env (cf_now c) u (cf_auth c) t" "reaches env h (c\<lparr>cf_auth := t\<rparr>) s'"
proof -
  note result = that
  have whole: thesis if "security_change env (cf_now c) u (cf_auth c) s'"
    by (rule result [OF that]) (simp add: reaches_run run_to_refl)
  from assms(1) show thesis
  proof cases
    case (enable lib fresh d d' ids role code r codes)
    from enable(3) obtain t where t: "confirmTwoFactor lib fresh (cf_now c) u code (cf_auth c) = (Inr codes, t)" by (metis prod.collapse)
    note m = bind_after [OF enable(1) [unfolded enableTwoFactorRoute_def] t]
    from issue_after [OF issue_rotate_then [OF enable(2)] h, where t = t, OF m] show thesis by (rule result [OF security_change.enable [OF t]])
  next
    case (renew lib fresh d d' ids role input r codes)
    from renew(3) obtain t where t: "regenerateTwoFactorBackupCodes lib fresh (cf_now c) u input (cf_auth c) = (Inr codes, t)"
      by (metis prod.collapse)
    note m = bind_after [OF renew(1) [unfolded regenerateBackupCodesRoute_def] t]
    from issue_after [OF issue_rotate_then [OF renew(2)] h, where t = t, OF m] show thesis by (rule result [OF security_change.renew [OF t]])
  next
    case (disable lib fresh d d' ids role input q)
    from disable(3) obtain t where t: "disableTwoFactor lib fresh (cf_now c) u input (cf_auth c) = (Inr (), t)" by (metis prod.collapse)
    note m = bind_after [OF disable(1) [unfolded disableTwoFactorRoute_def] t]
    from issue_after [OF issue_rotate [OF disable(2)] h, where t = t, OF m] show thesis by (rule result [OF security_change.disable [OF t]])
  next
    case (reset lib d d' salt token pw recd)
    show thesis by (rule whole) (unfold reset(1), rule security_change.reset [OF reset(2,3)])
  next
    case (password generation hash nextHash)
    show thesis by (rule whole, rule security_change.password [OF password])
  next
    case (address d token email)
    show thesis by (rule whole, rule security_change.address [OF address])
  next
    case (everywhere d)
    show thesis by (rule whole, rule security_change.everywhere [OF everywhere])
  next
    case (admin d role' banned row' row)
    show thesis by (rule whole, rule security_change.admin [OF admin])
  qed
qed

text \<open>The owner of a stored refresh record is the account its hash was drawn for.\<close>

lemma stored_owner:
  assumes ok: "cfg_ok env c" "[] \<notin> ran (gh_family (cf_ghosts c))"
    and "GET (cf_now c) (Refresh h) (au_redis (cf_auth c)) = Some raw" "parseRefreshRecord raw = Some rc"
  shows "gh_owner (cf_ghosts c) h = Some (rr_user rc)"
proof -
  have idx: "index_ok {} (refresh_ttl env) (cf_now c) (cf_ghosts c) (au_redis (cf_auth c))" using ok(1) by (simp add: cfg_ok_def)
  from assms(3) obtain e where "refresh_at (cf_now c) (au_redis (cf_auth c)) h raw e" by (auto simp: refresh_at_GET)
  from index_record [OF idx this] obtain w v f y where raw: "raw = refreshRecord w v f"
    and live: "refresh_at (cf_now c) (au_redis (cf_auth c)) h (refreshRecord w v f) (Some y)" by metis
  note tok = index_tokens(4,5) [OF idx live]
  have "f \<noteq> []" using tok(2) ok(2) by (auto simp: ran_def)
  then show ?thesis using tok(1) assms(4) by (auto simp: raw parse_refreshRecord)
qed

text \<open>
  C13: the service simulates the session system, and its guarantees come with it. \<open>backed\<close> relates a state of the
  service (clock, accounts, Redis and the hashes used) to a reachable configuration of the session system with that
  clock and that state. Every initial state is backed, and every step of the service, that is every account route
  with any arguments and deliveries, whether it returns or throws, is matched by steps of the session system to a
  configuration that backs the new state. So, in the service as a whole: once a password was reset or changed, an
  address changed, a second factor enabled, renewed or removed, a role changed, an account banned, or the user
  logged out everywhere, then in every later state of the service no refresh token that was stored for the user
  before is refreshed and no access token is accepted that was signed for a version the account had before.
\<close>

theorem service_refines_sessions:
  assumes env: "auth_env_ok env" and reach: "service_init x" "(service_step env)\<^sup>*\<^sup>* x (now, s, D)"
    and change: "service_change env now h u s s'" and h: "h \<notin> D" "h \<noteq> []"
    and later: "(service_step env)\<^sup>*\<^sup>* (now, s', insert h D) (now2, s2, D2)"
  shows "(\<forall>y. service_init y \<longrightarrow> (\<exists>c. backed env y c)) \<and>
    (\<forall>y c z. backed env y c \<longrightarrow> service_step env y z \<longrightarrow> (\<exists>c'. (auth_step env)\<^sup>*\<^sup>* c c' \<and> backed env z c')) \<and>
    (\<forall>t raw rc d ds ids acc y s3. GET now (Refresh (sha256 env t)) (au_redis s) = Some raw \<longrightarrow> parseRefreshRecord raw = Some rc \<longrightarrow>
      rr_user rc = u \<longrightarrow> refreshRoute env now2 d ds ids (Some t) acc s2 \<noteq> (Inr y, s3)) \<and>
    (\<forall>row tok p m d y s3. t_find ac_id u (au_users s) = Some row \<longrightarrow> jwt_verify env False now2 tok = Some p \<longrightarrow>
      json_member ''sub'' p = Some (JStr u) \<longrightarrow> json_member ''sv'' p = Some (JNum m) \<longrightarrow> m \<le> ac_version row \<longrightarrow>
      authenticate env now2 d (Some tok) s2 \<noteq> (Inr y, s3))"
proof -
  from backed_reachable [OF env reach] obtain c where b: "backed env (now, s, D) c" ..
  note ok = backed_ok [OF env b]
  have c: "cf_now c = now" "cf_auth c = s" "[] \<notin> ran (gh_family (cf_ghosts c))" "gh_owner (cf_ghosts c) h = None"
    using b h by (auto simp: backed_def)
  from service_change_split [of env c h u s'] change c obtain t where
    t: "security_change env (cf_now c) u (cf_auth c) t" "reaches env h (c\<lparr>cf_auth := t\<rparr>) s'" by metis
  have "(auth_step env)\<^sup>*\<^sup>* c (c\<lparr>cf_auth := t\<rparr>)" by (rule run_toD [OF security_change_run [OF t(1)]])
  then have "backed env (now, t, D) (c\<lparr>cf_auth := t\<rparr>)" using b by (auto simp: backed_def intro: rtranclp_trans)
  from backed_reaches [OF this t(2) h(2)] obtain c1 where
    c1: "(auth_step env)\<^sup>*\<^sup>* (c\<lparr>cf_auth := t\<rparr>) c1" "backed env (now, s', insert h D) c1" by blast
  from backed_steps [OF env c1(2) later] obtain c2 where
    c2: "(auth_step env)\<^sup>*\<^sup>* c1 c2" "backed env (now2, s2, D2) c2" by blast
  note E = change_ends [OF env ok t(1) rtranclp_trans [OF c1(1) c2(1)]]
  have now2: "cf_now c2 = now2" "cf_auth c2 = s2" using c2(2) by (simp_all add: backed_def)
  show ?thesis
    using backed_init backed_step [OF env] stored_owner [OF ok c(3)] E c now2 by (intro conjI) (blast, blast, metis, metis)
qed

section \<open>Samples\<close>

text \<open>Libraries for the samples: bcrypt that keeps the password, and no Unicode to normalise.\<close>

definition lib1 :: tf_lib where
  "lib1 = \<lparr>tf_hmac = hmac0, tf_cipher = cipher0, tf_config = \<lparr>ec_key = key_entry0 1, ec_previous = []\<rparr>,
     tf_compare = (\<lambda>p h. p = h), tf_bcrypt = (\<lambda>salt p. p), tf_nfc = (\<lambda>p. p)\<rparr>"

lemma lib1_simps [simp]:
  "tf_hmac lib1 = hmac0" "tf_cipher lib1 = cipher0" "tf_compare lib1 p h = (p = h)" "tf_bcrypt lib1 salt p = p" "tf_nfc lib1 p = p"
  by (simp_all add: lib1_def)

lemma user1_more [simp]: "ac_email user1 = ''u1@example.com''" "ac_password_hash user1 = Some ''pw''"
  "ac_two_factor user1 = False" "ac_password_generation user1 = 1" "ac_email_generation user1 = 1" "ac_phone user1 = None"
  by (simp_all add: user1_def)

definition logged1 :: "(time \<times> (string \<times> json) list \<times> int) login_reply result \<times> auth_state" where
  "logged1 = loginRoute env1 lib1 0 Replied ids1 ''p1'' ''u1@example.com'' ''pw'' auth0"

lemma logged1_result: "logged1 = (Inr (LoggedIn user1 session1), auth1)"
proof -
  have "toLowerCase ''u1@example.com'' = ''u1@example.com''" by code_simp
  then show ?thesis
    using login1_result
    by (simp add: logged1_def loginRoute_def accountByEmail_def verifyPassword_def tx_defs Let_def login1_def auth1_def)
qed

lemma service1_run: "(service_step env1)\<^sup>*\<^sup>* (0, auth0, {}) (0, auth1, {''hr1''})"
proof -
  have "loginRoute env1 lib1 0 Replied ids1 ''p1'' ''u1@example.com'' ''pw'' auth0 = (Inr (LoggedIn user1 session1), auth1)"
    using logged1_result by (simp add: logged1_def)
  then have "account_request env1 0 ''hr1'' auth0 auth1" by (rule account_request.login) simp
  then have "service_step env1 (0, auth0, {}) (0, auth1, {''hr1''})" by (rule service_step.request) simp_all
  then show ?thesis ..
qed

lemma service1_init: "service_init (0, auth0, {})"
  by (simp add: service_init_def)

theorem refresh_records_typed_witness:
  "\<exists>rc f row. parseRefreshRecord (refreshRecord ''u1'' 1 ''hr1'') = Some rc \<and> rr_family rc = Some f \<and> f \<noteq> [] \<and>
    t_find ac_id (rr_user rc) (au_users (snd logged1)) = Some row \<and> rr_version rc \<le> ac_version row"
  using refresh_records_typed [OF env1_ok(1) service1_init service1_run GET_auth1(1)] by (simp add: logged1_result)

definition changed1 :: "unit result \<times> auth_state" where
  "changed1 = passwordWrite ''u1'' 1 ''pw'' ''new'' auth1"

theorem security_change_ends_sessions_witness:
  "(\<nexists>x s2. refreshRoute env1 0 Replied (Replied, Replied) ids2 (Some ''r1'') None (snd changed1) = (Inr x, s2)) \<and>
   (\<nexists>x s2. authenticate env1 0 Replied (Some (sc_access_token session1)) (snd changed1) = (Inr x, s2))"
proof -
  obtain s' where s': "changed1 = (Inr (), s')"
    by (simp add: changed1_def passwordWrite_def updateUser_def accountById_def tx_defs)
  have "security_change env1 (cf_now cfg1) ''u1'' (cf_auth cfg1) s'"
    by (rule security_change.password) (use s' in \<open>simp add: changed1_def\<close>)
  moreover have "gh_owner (cf_ghosts cfg1) (sha256 env1 ''r1'') = Some ''u1''" by simp
  moreover note security_change_ends_sessions [OF env1_ok(1) cfg0_init cfg1_reached, of "''u1''" s' "cfg1\<lparr>cf_auth := s'\<rparr>" "''r1''"]
  moreover have "snd changed1 = s'" by (simp add: s')
  ultimately show ?thesis using token1_payload by auto
qed

text \<open>The first user logs in and changes the password.\<close>

theorem service_refines_sessions_witness:
  "(\<nexists>y s3. refreshRoute env1 0 Replied (Replied, Replied) ids2 (Some ''r1'') None (snd changed1) = (Inr y, s3)) \<and>
   (\<nexists>y s3. authenticate env1 0 Replied (Some (sc_access_token session1)) (snd changed1) = (Inr y, s3))"
proof -
  obtain s' where s': "changed1 = (Inr (), s')"
    by (simp add: changed1_def passwordWrite_def updateUser_def accountById_def tx_defs)
  have change: "service_change env1 0 ''h9'' ''u1'' (snd logged1) s'"
    by (rule service_change.password) (use s' in \<open>simp add: changed1_def logged1_result\<close>)
  have h: "''h9'' \<notin> {''hr1''}" "''h9'' \<noteq> []" by simp_all
  have run: "(service_step env1)\<^sup>*\<^sup>* (0, auth0, {}) (0, snd logged1, {''hr1''})" using service1_run by (simp add: logged1_result)
  note R = service_refines_sessions [OF env1_ok(1) service1_init run change h rtranclp.rtrancl_refl]
  have "snd changed1 = s'" by (simp add: s')
  moreover have "GET 0 (Refresh (sha256 env1 ''r1'')) (au_redis (snd logged1)) = Some (refreshRecord ''u1'' 1 ''hr1'')"
    using GET_auth1(1) by (simp add: logged1_result)
  ultimately show ?thesis using R token1_payload by (auto simp: logged1_result parse_refreshRecord)
qed

end
