(* ===== verification/TwoFactorSafety.thy ===== *)
theory TwoFactorSafety
  imports AccountSafety
begin

text \<open>
  What the second factor guarantees: the migration of old secrets ends and leaves none behind, the
  counters of accepted codes only rise, and a backup code is used once.
\<close>

section \<open>The migration of old secrets\<close>

text \<open>The secrets of the previous schema, by user.\<close>

definition legacy :: "auth_state \<Rightarrow> (uuid \<times> string) set" where
  "legacy s = {(tm_user m, t) |m t. m \<in> set (au_methods s) \<and> tm_legacy m = Some t}"

lemma legacyI: "m \<in> set (au_methods s) \<Longrightarrow> tm_legacy m = Some t \<Longrightarrow> (tm_user m, t) \<in> legacy s"
  by (auto simp: legacy_def)

lemma legacyE:
  assumes "(u, t) \<in> legacy s"
  obtains m where "m \<in> set (au_methods s)" "tm_user m = u" "tm_legacy m = Some t"
  using assms by (auto simp: legacy_def)

abbreviation encrypt_legacy :: "tf_lib \<Rightarrow> tf_fresh \<Rightarrow> uuid \<Rightarrow> string \<Rightarrow> secret_box result" where
  "encrypt_legacy lib fresh u t \<equiv> encryptTwoFactorSecret (tf_cipher lib) (tf_config lib) (ff_migrate_iv fresh u) t u"

text \<open>Only the table of methods changes, and its users stay.\<close>

definition migrated :: "auth_state \<Rightarrow> auth_state \<Rightarrow> bool" where
  "migrated s t \<longleftrightarrow> map tm_user (au_methods t) = map tm_user (au_methods s) \<and> (\<exists>ms. t = s\<lparr>au_methods := ms\<rparr>)"

lemma migrated_refl: "migrated s s"
  unfolding migrated_def by (auto intro!: exI [of _ "au_methods s"])

lemma migrated_trans: "migrated s t \<Longrightarrow> migrated t u \<Longrightarrow> migrated s u"
  by (auto simp: migrated_def)

lemma updateMethod_legacy:
  assumes "updateMethod u f s = (r, t)" "\<And>m. tm_user (f m) = tm_user m \<and> tm_legacy (f m) = None"
  shows "migrated s t" "legacy t = {p \<in> legacy s. fst p \<noteq> u}" "r = Inr ()"
proof -
  from assms(1) have t: "t = s\<lparr>au_methods := t_upd tm_user u f (au_methods s)\<rparr>" and r: "r = Inr ()"
    by (auto simp: updateMethod_def tx_defs)
  show "r = Inr ()" by (rule r)
  show "migrated s t" using assms(2) by (auto simp: migrated_def t map_key_t_upd)
  show "legacy t = {p \<in> legacy s. fst p \<noteq> u}"
    using assms(2) by (force simp: legacy_def t t_upd_def)
qed

lemma migrateEach_result:
  assumes "migrateEach lib fresh rows s = (r, t)" "\<And>m. m \<in> set rows \<Longrightarrow> \<exists>x. tm_legacy m = Some x \<and> (tm_user m, x) \<in> L"
  shows "migrated s t \<and> (case r of
      Inl e \<Rightarrow> (\<exists>u x. (u, x) \<in> L \<and> encrypt_legacy lib fresh u x = Inl e)
    | Inr _ \<Rightarrow> legacy t = {p \<in> legacy s. fst p \<notin> tm_user ` set rows})"
  using assms
proof (induction rows arbitrary: s)
  case Nil
  then show ?case by (auto simp: tx_return_def migrated_refl)
next
  case (Cons row rows)
  from Cons.prems(2) obtain x where x: "tm_legacy row = Some x" "(tm_user row, x) \<in> L" by auto
  show ?case
  proof (cases "encrypt_legacy lib fresh (tm_user row) x")
    case (Inl e)
    then have r: "r = Inl e" "t = s" using Cons.prems(1) x by (auto simp: tx_bind_def tx_lift_def tx_throw_def)
    have "\<exists>u x. (u, x) \<in> L \<and> encrypt_legacy lib fresh u x = Inl e"
      by (rule exI [of _ "tm_user row"], rule exI [of _ x]) (simp add: x Inl)
    then show ?thesis by (simp add: r migrated_refl)
  next
    case (Inr box)
    let ?f = "\<lambda>m. if tm_confirmed_at row \<noteq> None then m\<lparr>tm_legacy := None, tm_active := Some box\<rparr>
        else m\<lparr>tm_legacy := None, tm_pending := Some (box, tm_created_at row)\<rparr>"
    obtain q s1 where q: "updateMethod (tm_user row) ?f s = (q, s1)" by fastforce
    have U: "migrated s s1" "legacy s1 = {p \<in> legacy s. fst p \<noteq> tm_user row}" "q = Inr ()"
      by (rule updateMethod_legacy [OF q], simp)+
    have "migrateEach lib fresh rows s1 = (r, t)"
      using Cons.prems(1) x Inr q U(3) by (simp add: tx_bind_def tx_lift_def tx_return_def)
    from Cons.IH [OF this] Cons.prems(2) U
    show ?thesis by (auto intro: migrated_trans split: sum.splits)
  qed
qed

text \<open>One batch.\<close>

definition in_scope :: "uuid option \<Rightarrow> uuid \<Rightarrow> bool" where
  "in_scope userId u \<longleftrightarrow> userId = None \<or> userId = Some u"

definition pending_rows :: "uuid option \<Rightarrow> auth_state \<Rightarrow> method_row list" where
  "pending_rows userId s = filter (\<lambda>m. tm_legacy m \<noteq> None \<and> in_scope userId (tm_user m)) (au_methods s)"

lemma legacyRows_take:
  "legacyRows userId (au_methods s) = take 100 (sort_key (\<lambda>m. (tm_created_at m, tm_id m)) (pending_rows userId s))"
proof -
  have f: "filter (\<lambda>m. tm_legacy m \<noteq> None \<and> (case userId of None \<Rightarrow> True | Some u \<Rightarrow> tm_user m = u)) (au_methods s)
      = pending_rows userId s"
    unfolding pending_rows_def in_scope_def by (rule filter_cong) (auto split: option.splits)
  show ?thesis unfolding legacyRows_def f ..
qed

lemma legacyRows_pending:
  "set (legacyRows userId (au_methods s)) \<subseteq> set (pending_rows userId s)"
  "length (legacyRows userId (au_methods s)) = min (length (pending_rows userId s)) 100"
  by (auto simp: legacyRows_take dest: in_set_takeD)

text \<open>With one row a user, the rows still pending are counted by their users.\<close>

lemma pending_users:
  assumes "distinct (map tm_user (au_methods s))"
  shows "distinct (map tm_user (pending_rows userId s))"
    "tm_user ` set (pending_rows userId s) = fst ` {p \<in> legacy s. in_scope userId (fst p)}"
proof -
  show "distinct (map tm_user (pending_rows userId s))" using assms by (simp add: pending_rows_def distinct_map_filter)
  show "tm_user ` set (pending_rows userId s) = fst ` {p \<in> legacy s. in_scope userId (fst p)}"
  proof (intro subset_antisym subsetI)
    fix u
    assume "u \<in> tm_user ` set (pending_rows userId s)"
    then obtain m x where "m \<in> set (au_methods s)" "tm_legacy m = Some x" "in_scope userId u" "u = tm_user m"
      by (auto simp: pending_rows_def)
    then have "(u, x) \<in> {p \<in> legacy s. in_scope userId (fst p)}" by (simp add: legacyI)
    then show "u \<in> fst ` {p \<in> legacy s. in_scope userId (fst p)}" by (rule rev_image_eqI) simp
  next
    fix u
    assume "u \<in> fst ` {p \<in> legacy s. in_scope userId (fst p)}"
    then show "u \<in> tm_user ` set (pending_rows userId s)" by (auto simp: pending_rows_def elim!: legacyE)
  qed
qed

lemma pending_length:
  assumes "distinct (map tm_user (au_methods s))"
  shows "length (pending_rows userId s) = card (fst ` {p \<in> legacy s. in_scope userId (fst p)})"
  using distinct_card [OF pending_users(1) [OF assms, of userId]] pending_users(2) [OF assms, of userId] by simp

lemma migrateLegacyBatch_result:
  assumes r: "migrateLegacyBatch lib fresh userId s = (r, t)" and d: "distinct (map tm_user (au_methods s))"
  shows "migrated s t" "case r of
      Inl e \<Rightarrow> (\<exists>u x. (u, x) \<in> legacy s \<and> in_scope userId u \<and> encrypt_legacy lib fresh u x = Inl e)
    | Inr n \<Rightarrow> n = min (length (pending_rows userId s)) 100 \<and> legacy t \<subseteq> legacy s \<and>
        length (pending_rows userId t) = length (pending_rows userId s) - n \<and>
        (\<forall>p\<in>legacy s. \<not> in_scope userId (fst p) \<longrightarrow> p \<in> legacy t)"
proof -
  let ?rows = "legacyRows userId (au_methods s)"
  let ?L = "{p \<in> legacy s. in_scope userId (fst p)}"
  obtain q t' where q: "migrateEach lib fresh ?rows s = (q, t')" by fastforce
  have mem: "\<exists>x. tm_legacy m = Some x \<and> (tm_user m, x) \<in> ?L" if "m \<in> set ?rows" for m
  proof -
    have "m \<in> set (pending_rows userId s)" using that legacyRows_pending(1) [of userId s] by blast
    then obtain x where "m \<in> set (au_methods s)" "tm_legacy m = Some x" "in_scope userId (tm_user m)"
      by (auto simp: pending_rows_def)
    then show ?thesis by (simp add: legacyI)
  qed
  note E = migrateEach_result [OF q mem]
  then have E: "migrated s t'" "case q of Inl e \<Rightarrow> (\<exists>u x. (u, x) \<in> ?L \<and> encrypt_legacy lib fresh u x = Inl e)
    | Inr _ \<Rightarrow> legacy t' = {p \<in> legacy s. fst p \<notin> tm_user ` set ?rows}" by auto
  have run: "(r, t) = authTx (\<lambda>s. case q of Inl e \<Rightarrow> (Inl e, t') | Inr _ \<Rightarrow> (Inr (length ?rows), t')) s"
    using r q by (auto simp: migrateLegacyBatch_def authTx_def tx_defs split: sum.splits prod.splits)
  have "auth_rollback s t' = s" using E(1) by (auto simp: auth_rollback_def migrated_def)
  then show "migrated s t" using run E(1) by (auto simp: authTx_def migrated_refl split: sum.splits)
  show "case r of
      Inl e \<Rightarrow> (\<exists>u x. (u, x) \<in> legacy s \<and> in_scope userId u \<and> encrypt_legacy lib fresh u x = Inl e)
    | Inr n \<Rightarrow> n = min (length (pending_rows userId s)) 100 \<and> legacy t \<subseteq> legacy s \<and>
        length (pending_rows userId t) = length (pending_rows userId s) - n \<and>
        (\<forall>p\<in>legacy s. \<not> in_scope userId (fst p) \<longrightarrow> p \<in> legacy t)"
  proof (cases q)
    case (Inl e)
    then show ?thesis using run E(2) by (auto simp: authTx_def)
  next
    case (Inr z)
    then have rt: "r = Inr (length ?rows)" "t = t'" using run by (simp_all add: authTx_def)
    have l: "legacy t = {p \<in> legacy s. fst p \<notin> tm_user ` set ?rows}" using E(2) Inr rt by simp
    have dt: "distinct (map tm_user (au_methods t))" using d E(1) rt by (simp add: migrated_def)
    have sub: "tm_user ` set ?rows \<subseteq> fst ` ?L" using mem by force
    have "fst ` {p \<in> legacy t. in_scope userId (fst p)} = fst ` ?L - tm_user ` set ?rows" unfolding l by auto
    moreover have "card (tm_user ` set ?rows) = length ?rows"
    proof -
      have "distinct (map tm_user (pending_rows userId s))" by (rule pending_users(1) [OF d])
      then have "distinct (map tm_user (sort_key (\<lambda>m. (tm_created_at m, tm_id m)) (pending_rows userId s)))"
        by (simp add: distinct_map)
      then have "distinct (map tm_user ?rows)" by (simp add: legacyRows_take take_map [symmetric])
      then show ?thesis using distinct_card by fastforce
    qed
    ultimately have "length (pending_rows userId t) = length (pending_rows userId s) - length ?rows"
      using pending_length [OF dt] pending_length [OF d] sub by (simp add: card_Diff_subset)
    moreover have "\<forall>p\<in>legacy s. \<not> in_scope userId (fst p) \<longrightarrow> p \<in> legacy t" using sub unfolding l by auto
    ultimately show ?thesis using rt l legacyRows_pending(2) [of userId s] by auto
  qed
qed

text \<open>All rounds: fuel is one more than the rows, each full round migrates a hundred of them.\<close>

lemma pending_in_legacy:
  "length (pending_rows userId s) = 0 \<longleftrightarrow> (\<forall>p\<in>legacy s. \<not> in_scope userId (fst p))"
  by (auto simp: pending_rows_def filter_empty_conv legacy_def)

lemma migrateRounds_result:
  assumes "migrateRounds n lib fresh userId k s = (r, t)" "distinct (map tm_user (au_methods s))"
    "length (pending_rows userId s) < 100 * n" "userId \<noteq> None \<Longrightarrow> length (pending_rows userId s) \<le> 1"
  shows "migrated s t \<and> (case r of
      Inl e \<Rightarrow> (\<exists>u x. (u, x) \<in> legacy s \<and> in_scope userId u \<and> encrypt_legacy lib fresh u x = Inl e)
    | Inr m \<Rightarrow> m = k + length (pending_rows userId s) \<and> (\<forall>p\<in>legacy t. \<not> in_scope userId (fst p)) \<and>
        {p \<in> legacy s. \<not> in_scope userId (fst p)} \<subseteq> legacy t)"
  using assms
proof (induction n arbitrary: k s)
  case 0
  then show ?case by simp
next
  case (Suc n)
  obtain q s1 where q: "migrateLegacyBatch lib fresh userId s = (q, s1)" by fastforce
  note B = migrateLegacyBatch_result [OF q Suc.prems(2)]
  show ?case
  proof (cases q)
    case (Inl e)
    then show ?thesis using Suc.prems(1) q B by (auto simp: tx_bind_def)
  next
    case (Inr b)
    then have b: "b = min (length (pending_rows userId s)) 100" "legacy s1 \<subseteq> legacy s"
      "length (pending_rows userId s1) = length (pending_rows userId s) - b"
      "\<forall>p\<in>legacy s. \<not> in_scope userId (fst p) \<longrightarrow> p \<in> legacy s1" using B(2) by simp_all
    have d1: "distinct (map tm_user (au_methods s1))" using B(1) Suc.prems(2) by (simp add: migrated_def)
    show ?thesis
    proof (cases "userId \<noteq> None \<or> b < 100")
      case True
      then have rt: "r = Inr (k + b)" "t = s1" using Suc.prems(1) q Inr by (auto simp: tx_bind_def tx_return_def)
      have n: "b = length (pending_rows userId s)" using True b(1) Suc.prems(4) by auto
      then have "\<forall>p\<in>legacy s1. \<not> in_scope userId (fst p)" using b(3) n pending_in_legacy [of userId s1] by simp
      then show ?thesis using rt B(1) b(4) n by auto
    next
      case False
      then have "migrateRounds n lib fresh userId (k + b) s1 = (r, t)" using Suc.prems(1) q Inr by (simp add: tx_bind_def)
      moreover have full: "b = 100" "100 \<le> length (pending_rows userId s)" using False b(1) by auto
      moreover have "length (pending_rows userId s1) < 100 * n" using full b(3) Suc.prems(3) by simp
      moreover have "userId \<noteq> None \<Longrightarrow> length (pending_rows userId s1) \<le> 1" using False by simp
      ultimately have R: "migrated s1 t \<and> (case r of
          Inl e \<Rightarrow> (\<exists>u x. (u, x) \<in> legacy s1 \<and> in_scope userId u \<and> encrypt_legacy lib fresh u x = Inl e)
        | Inr m \<Rightarrow> m = k + b + length (pending_rows userId s1) \<and> (\<forall>p\<in>legacy t. \<not> in_scope userId (fst p)) \<and>
            {p \<in> legacy s1. \<not> in_scope userId (fst p)} \<subseteq> legacy t)" by (intro Suc.IH d1)
      from full have n: "k + b + length (pending_rows userId s1) = k + length (pending_rows userId s)" using b(3) by simp
      show ?thesis
      proof (cases r)
        case (Inl e)
        then show ?thesis using R B(1) b(2) by (auto intro: migrated_trans)
      next
        case (Inr m)
        then show ?thesis using R B(1) b(4) n by (auto intro: migrated_trans)
      qed
    qed
  qed
qed

text \<open>
  The rows themselves. A migrated row has lost its old secret and holds it encrypted instead: as the active
  secret when the factor was confirmed, as a pending one otherwise.
\<close>

definition migrate_row :: "tf_lib \<Rightarrow> tf_fresh \<Rightarrow> method_row \<Rightarrow> method_row" where
  "migrate_row lib fresh m = (case tm_legacy m of
       None \<Rightarrow> m
     | Some t \<Rightarrow> (case encryptTwoFactorSecret (tf_cipher lib) (tf_config lib) (ff_migrate_iv fresh (tm_user m)) t (tm_user m) of
         Inl _ \<Rightarrow> m
       | Inr box \<Rightarrow> if tm_confirmed_at m \<noteq> None then m\<lparr>tm_legacy := None, tm_active := Some box\<rparr>
                    else m\<lparr>tm_legacy := None, tm_pending := Some (box, tm_created_at m)\<rparr>))"

definition migratable :: "tf_lib \<Rightarrow> tf_fresh \<Rightarrow> method_row \<Rightarrow> bool" where
  "migratable lib fresh m \<longleftrightarrow> (\<exists>t box. tm_legacy m = Some t \<and>
     encryptTwoFactorSecret (tf_cipher lib) (tf_config lib) (ff_migrate_iv fresh (tm_user m)) t (tm_user m) = Inr box)"

definition migrate_users :: "tf_lib \<Rightarrow> tf_fresh \<Rightarrow> uuid set \<Rightarrow> method_row \<Rightarrow> method_row" where
  "migrate_users lib fresh U m = (if tm_user m \<in> U then migrate_row lib fresh m else m)"

lemma migrate_row_fields [simp]: "tm_user (migrate_row lib fresh m) = tm_user m" "tm_user (migrate_users lib fresh U m) = tm_user m"
  by (auto simp: migrate_row_def migrate_users_def split: option.split sum.split)

lemma migrated_row_legacy: "migratable lib fresh m \<Longrightarrow> tm_legacy (migrate_row lib fresh m) = None"
  by (auto simp: migrate_row_def migratable_def split: option.split sum.split)

lemma migrate_users_twice:
  "tm_user m \<in> A \<Longrightarrow> tm_user m \<notin> B \<Longrightarrow> migrate_users lib fresh A (migrate_users lib fresh B m) = migrate_users lib fresh (A \<union> B) m"
  "tm_user m \<notin> A \<Longrightarrow> migrate_users lib fresh A (migrate_users lib fresh B m) = migrate_users lib fresh (A \<union> B) m"
  by (simp_all add: migrate_users_def)

text \<open>A run of the migration: some users in scope, all of whose old secrets could be encrypted, are migrated.\<close>

definition migrates :: "tf_lib \<Rightarrow> tf_fresh \<Rightarrow> uuid option \<Rightarrow> uuid set \<Rightarrow> auth_state \<Rightarrow> auth_state \<Rightarrow> bool" where
  "migrates lib fresh userId U s t \<longleftrightarrow> t = s\<lparr>au_methods := map (migrate_users lib fresh U) (au_methods s)\<rparr> \<and>
     (\<forall>m\<in>set (au_methods s). tm_user m \<in> U \<longrightarrow> migratable lib fresh m \<and> in_scope userId (tm_user m))"

lemma migrates_none: "migrates lib fresh userId {} s s"
proof -
  have "migrate_users lib fresh {} = (\<lambda>m. m)" by (rule ext) (simp add: migrate_users_def)
  then show ?thesis by (simp add: migrates_def)
qed

lemma migrates_trans:
  assumes "migrates lib fresh userId A s t" "migrates lib fresh userId B t v"
  shows "migrates lib fresh userId (B \<union> A) s v"
proof -
  note a = assms(1) [unfolded migrates_def] and b = assms(2) [unfolded migrates_def]
  have apart: "tm_user m \<notin> A" if "m \<in> set (au_methods s)" "tm_user m \<in> B" for m
  proof
    assume A: "tm_user m \<in> A"
    let ?m = "migrate_users lib fresh A m"
    have "?m \<in> set (au_methods t)" "tm_user ?m \<in> B" using a that by simp_all
    then have "tm_legacy ?m \<noteq> None" using b by (auto simp: migratable_def)
    moreover have "tm_legacy ?m = None" using a that(1) A by (simp add: migrate_users_def migrated_row_legacy)
    ultimately show False by simp
  qed
  have rows: "migrate_users lib fresh B (migrate_users lib fresh A m) = migrate_users lib fresh (B \<union> A) m" if "m \<in> set (au_methods s)" for m
    using apart [OF that] migrate_users_twice by (cases "tm_user m \<in> B") auto
  have "migratable lib fresh m \<and> in_scope userId (tm_user m)" if m: "m \<in> set (au_methods s)" "tm_user m \<in> B \<union> A" for m
  proof (cases "tm_user m \<in> A")
    case True
    then show ?thesis using a m(1) by blast
  next
    case False
    then have "m \<in> set (au_methods t)" using a m(1) by (force simp: migrate_users_def)
    then show ?thesis using b m(2) False by blast
  qed
  then show ?thesis using a b rows by (simp add: migrates_def)
qed

lemma update_migrates:
  assumes d: "distinct (map tm_user (au_methods s))" and m: "row \<in> set (au_methods s)" and f: "f row = migrate_row lib fresh row"
    and ok: "migratable lib fresh row" "in_scope userId (tm_user row)"
  shows "migrates lib fresh userId {tm_user row} s (s\<lparr>au_methods := t_upd tm_user (tm_user row) f (au_methods s)\<rparr>)"
proof -
  have same: "x = row" if "x \<in> set (au_methods s)" "tm_user x = tm_user row" for x
    using d m that by (auto simp: distinct_map dest: inj_onD)
  have "t_upd tm_user (tm_user row) f (au_methods s) = map (migrate_users lib fresh {tm_user row}) (au_methods s)"
    unfolding t_upd_def using same f by (intro map_cong) (auto simp: migrate_users_def)
  then show ?thesis using same ok by (auto simp: migrates_def)
qed

lemma migrateEach_rows:
  assumes "migrateEach lib fresh rows s = (Inr x, t)" "distinct (map tm_user (au_methods s))" "set rows \<subseteq> set (au_methods s)"
    "distinct (map tm_user rows)" "\<And>m. m \<in> set rows \<Longrightarrow> tm_legacy m \<noteq> None \<and> in_scope userId (tm_user m)"
  shows "migrates lib fresh userId (tm_user ` set rows) s t"
  using assms
proof (induction rows arbitrary: s)
  case Nil
  then show ?case using migrates_none by (simp add: tx_return_def)
next
  case (Cons row rows)
  obtain y where y: "tm_legacy row = Some y" using Cons.prems(5) by force
  from Cons.prems(1) y obtain box where box: "encrypt_legacy lib fresh (tm_user row) y = Inr box"
    by (auto simp: tx_bind_def tx_lift_def tx_throw_def split: sum.splits)
  let ?f = "\<lambda>m. if tm_confirmed_at row \<noteq> None then m\<lparr>tm_legacy := None, tm_active := Some box\<rparr>
      else m\<lparr>tm_legacy := None, tm_pending := Some (box, tm_created_at row)\<rparr>"
  let ?s = "au_methods_update (t_upd tm_user (tm_user row) ?f) s"
  have upd: "?s = s\<lparr>au_methods := t_upd tm_user (tm_user row) ?f (au_methods s)\<rparr>" by simp
  have "?f row = migrate_row lib fresh row" "migratable lib fresh row" "in_scope userId (tm_user row)"
    using y box Cons.prems(5) by (auto simp: migrate_row_def migratable_def)
  then have one: "migrates lib fresh userId {tm_user row} s ?s"
    unfolding upd using Cons.prems(2,3) by (intro update_migrates) simp_all
  have rest: "migrateEach lib fresh rows ?s = (Inr x, t)"
    using Cons.prems(1) y box by (simp add: tx_bind_def tx_lift_def tx_return_def updateMethod_def tx_modify_def)
  have "map tm_user (au_methods ?s) = map tm_user (au_methods s)" by (simp add: map_key_t_upd)
  moreover have "set rows \<subseteq> set (au_methods ?s)"
  proof
    fix m assume m: "m \<in> set rows"
    then have "tm_user m \<noteq> tm_user row" "m \<in> set (au_methods s)" using Cons.prems(3,4) by (auto simp: image_iff)
    then show "m \<in> set (au_methods ?s)" by (force simp: t_upd_def)
  qed
  ultimately have "migrates lib fresh userId (tm_user ` set rows) ?s t"
    using Cons.prems(2,4,5) by (intro Cons.IH [OF rest]) simp_all
  from migrates_trans [OF one this] show ?case by simp
qed

lemma migrateLegacyBatch_rows:
  assumes r: "migrateLegacyBatch lib fresh userId s = (r, t)" and d: "distinct (map tm_user (au_methods s))"
  shows "\<exists>U. migrates lib fresh userId U s t"
proof (cases r)
  case (Inl e)
  have "migrated s t" by (rule migrateLegacyBatch_result(1) [OF r d])
  moreover have "au_methods t = au_methods s"
    using r Inl by (auto simp: migrateLegacyBatch_def authTx_def auth_rollback_def split: prod.splits sum.splits)
  ultimately have "t = s" by (auto simp: migrated_def)
  then show ?thesis using migrates_none by blast
next
  case (Inr n)
  let ?rows = "legacyRows userId (au_methods s)"
  obtain x where x: "migrateEach lib fresh ?rows s = (Inr x, t)"
    using r Inr by (auto simp: migrateLegacyBatch_def authTx_def tx_defs split: prod.splits sum.splits)
  have "distinct (map tm_user (sort_key (\<lambda>m. (tm_created_at m, tm_id m)) (pending_rows userId s)))"
    using pending_users(1) [OF d, of userId] by (simp add: distinct_map)
  then have "distinct (map tm_user ?rows)" by (simp add: legacyRows_take take_map [symmetric])
  moreover have "m \<in> set (au_methods s) \<and> tm_legacy m \<noteq> None \<and> in_scope userId (tm_user m)" if "m \<in> set ?rows" for m
    using that legacyRows_pending(1) [of userId s] by (auto simp: pending_rows_def)
  ultimately have "migrates lib fresh userId (tm_user ` set ?rows) s t"
    by (intro migrateEach_rows [OF x d]) auto
  then show ?thesis by blast
qed

lemma migrateRounds_rows:
  assumes "migrateRounds n lib fresh userId k s = (r, t)" "distinct (map tm_user (au_methods s))"
  shows "\<exists>U. migrates lib fresh userId U s t"
  using assms
proof (induction n arbitrary: k s)
  case 0
  then have "t = s" by (simp add: tx_throw_def)
  then show ?case using migrates_none by (intro exI [of _ "{}"]) simp
next
  case (Suc n)
  obtain q s1 where q: "migrateLegacyBatch lib fresh userId s = (q, s1)" by fastforce
  obtain U where U: "migrates lib fresh userId U s s1" using migrateLegacyBatch_rows [OF q Suc.prems(2)] by blast
  then have d1: "distinct (map tm_user (au_methods s1))" using Suc.prems(2) by (simp add: migrates_def comp_def)
  consider "t = s1" | b where "migrateRounds n lib fresh userId (k + b) s1 = (r, t)"
    using Suc.prems(1) q by (auto simp: tx_bind_def tx_return_def split: sum.splits if_splits)
  then show ?case
  proof cases
    case 1
    then show ?thesis using U by blast
  next
    case 2
    from Suc.IH [OF this d1] show ?thesis using migrates_trans [OF U] by blast
  qed
qed

definition encrypted_from :: "tf_lib \<Rightarrow> tf_fresh \<Rightarrow> method_row \<Rightarrow> method_row \<Rightarrow> bool" where
  "encrypted_from lib fresh m m' \<longleftrightarrow> (\<exists>t box. tm_legacy m = Some t \<and>
     encryptTwoFactorSecret (tf_cipher lib) (tf_config lib) (ff_migrate_iv fresh (tm_user m)) t (tm_user m) = Inr box \<and>
     m' = (if tm_confirmed_at m \<noteq> None then m\<lparr>tm_legacy := None, tm_active := Some box\<rparr>
           else m\<lparr>tm_legacy := None, tm_pending := Some (box, tm_created_at m)\<rparr>))"

lemma migratable_encrypted: "migratable lib fresh m \<Longrightarrow> encrypted_from lib fresh m (migrate_row lib fresh m)"
  by (auto simp: migratable_def encrypted_from_def migrate_row_def)

text \<open>What a run did to each row.\<close>

lemma migrates_rows:
  assumes U: "migrates lib fresh userId U s t"
  shows "t = s\<lparr>au_methods := au_methods t\<rparr>"
    "list_all2 (\<lambda>m m'. m' = m \<or> in_scope userId (tm_user m) \<and> encrypted_from lib fresh m m') (au_methods s) (au_methods t)"
    "\<forall>m\<in>set (au_methods t). in_scope userId (tm_user m) \<longrightarrow> tm_legacy m = None \<Longrightarrow>
     list_all2 (\<lambda>m m'. if tm_legacy m \<noteq> None \<and> in_scope userId (tm_user m) then encrypted_from lib fresh m m' else m' = m)
       (au_methods s) (au_methods t)"
proof -
  have t: "au_methods t = map (migrate_users lib fresh U) (au_methods s)" "t = s\<lparr>au_methods := map (migrate_users lib fresh U) (au_methods s)\<rparr>"
    and ok: "\<And>m. m \<in> set (au_methods s) \<Longrightarrow> tm_user m \<in> U \<Longrightarrow> migratable lib fresh m \<and> in_scope userId (tm_user m)"
    using U by (auto simp: migrates_def)
  show "t = s\<lparr>au_methods := au_methods t\<rparr>" using t by simp
  show "list_all2 (\<lambda>m m'. m' = m \<or> in_scope userId (tm_user m) \<and> encrypted_from lib fresh m m') (au_methods s) (au_methods t)"
    unfolding t(1) list_all2_map2 list_all2_same using ok by (auto simp: migrate_users_def dest: migratable_encrypted)
  assume gone: "\<forall>m\<in>set (au_methods t). in_scope userId (tm_user m) \<longrightarrow> tm_legacy m = None"
  have "if tm_legacy m \<noteq> None \<and> in_scope userId (tm_user m) then encrypted_from lib fresh m (migrate_users lib fresh U m)
      else migrate_users lib fresh U m = m" if m: "m \<in> set (au_methods s)" for m
  proof (cases "tm_user m \<in> U")
    case True
    have m': "migratable lib fresh m" "in_scope userId (tm_user m)" using ok [OF m True] by simp_all
    have "tm_legacy m \<noteq> None" using m'(1) by (auto simp: migratable_def)
    then show ?thesis using True m'(2) migratable_encrypted [OF m'(1)] by (simp add: migrate_users_def)
  next
    case False
    then have "m \<in> set (au_methods t)" using m by (force simp: t(1) migrate_users_def)
    then show ?thesis using gone False by (auto simp: migrate_users_def)
  qed
  then show "list_all2 (\<lambda>m m'. if tm_legacy m \<noteq> None \<and> in_scope userId (tm_user m) then encrypted_from lib fresh m m' else m' = m)
       (au_methods s) (au_methods t)"
    unfolding t(1) list_all2_map2 list_all2_same by blast
qed

text \<open>One round more than there are rows is enough.\<close>

lemma migrateRounds_all:
  assumes r: "migrateRounds (Suc (length (au_methods s))) lib fresh userId 0 s = (r, s')"
    and d: "distinct (map tm_user (au_methods s))"
  shows "migrated s s' \<and> (case r of
      Inl e \<Rightarrow> (\<exists>u x. (u, x) \<in> legacy s \<and> in_scope userId u \<and> encrypt_legacy lib fresh u x = Inl e)
    | Inr m \<Rightarrow> m = 0 + length (pending_rows userId s) \<and> (\<forall>p\<in>legacy s'. \<not> in_scope userId (fst p)) \<and>
        {p \<in> legacy s. \<not> in_scope userId (fst p)} \<subseteq> legacy s')"
proof -
  have "length (pending_rows userId s) \<le> length (au_methods s)" by (simp add: pending_rows_def)
  moreover have "length (pending_rows userId s) \<le> 1" if some: "userId \<noteq> None"
  proof -
    obtain u where "userId = Some u" using some by auto
    then have "fst ` {p \<in> legacy s. in_scope userId (fst p)} \<subseteq> {u}" by (auto simp: in_scope_def)
    then have "card (fst ` {p \<in> legacy s. in_scope userId (fst p)}) \<le> 1" using card_mono [of "{u}"] by force
    then show ?thesis using pending_length [OF d] by simp
  qed
  ultimately show ?thesis by (intro migrateRounds_result [OF r d]) simp_all
qed

text \<open>
  C32: the migration of old secrets ends and is exact. With at most one row a user, which the table's
  unique constraint gives, \<open>migrateLegacyTwoFactorSecrets\<close> always ends and changes nothing but rows of the table of
  methods. When it returns, it returns how many old secrets were in scope, each of those rows has lost its
  old secret and holds it encrypted for its user instead (as the active secret if the factor was confirmed, else as the
  pending one, with its old time), and every other row is unchanged. It throws only an error of
  encrypting some old secret in scope; then each row is either unchanged or migrated in that same way, so no
  secret is lost.
\<close>

theorem migration_completes:
  assumes "distinct (map tm_user (au_methods s))"
  shows "\<exists>r s'. migrateLegacyTwoFactorSecrets lib fresh userId s = (r, s') \<and> s' = s\<lparr>au_methods := au_methods s'\<rparr> \<and>
    (case r of
       Inl e \<Rightarrow> (\<exists>m\<in>set (au_methods s). \<exists>t. tm_legacy m = Some t \<and> (userId = None \<or> userId = Some (tm_user m)) \<and>
           encryptTwoFactorSecret (tf_cipher lib) (tf_config lib) (ff_migrate_iv fresh (tm_user m)) t (tm_user m) = Inl e) \<and>
         list_all2 (\<lambda>m m'. m' = m \<or> (userId = None \<or> userId = Some (tm_user m)) \<and> encrypted_from lib fresh m m')
           (au_methods s) (au_methods s')
     | Inr n \<Rightarrow> n = length (filter (\<lambda>m. tm_legacy m \<noteq> None \<and> (userId = None \<or> userId = Some (tm_user m))) (au_methods s)) \<and>
         list_all2 (\<lambda>m m'. if tm_legacy m \<noteq> None \<and> (userId = None \<or> userId = Some (tm_user m)) then encrypted_from lib fresh m m' else m' = m)
           (au_methods s) (au_methods s'))"
proof -
  obtain r s' where r: "migrateRounds (Suc (length (au_methods s))) lib fresh userId 0 s = (r, s')" by fastforce
  note R = migrateRounds_all [OF r assms]
  obtain U where U: "migrates lib fresh userId U s s'" using migrateRounds_rows [OF r assms] by blast
  note rows = migrates_rows [OF U]
  have run: "migrateLegacyTwoFactorSecrets lib fresh userId s = (r, s')" by (simp only: migrateLegacyTwoFactorSecrets_def r)
  show ?thesis unfolding in_scope_def [symmetric]
  proof (intro exI conjI)
    show "migrateLegacyTwoFactorSecrets lib fresh userId s = (r, s')" by (rule run)
    show "s' = s\<lparr>au_methods := au_methods s'\<rparr>" by (rule rows(1))
    show "case r of
       Inl e \<Rightarrow> (\<exists>m\<in>set (au_methods s). \<exists>t. tm_legacy m = Some t \<and> in_scope userId (tm_user m) \<and>
           encrypt_legacy lib fresh (tm_user m) t = Inl e) \<and>
         list_all2 (\<lambda>m m'. m' = m \<or> in_scope userId (tm_user m) \<and> encrypted_from lib fresh m m') (au_methods s) (au_methods s')
     | Inr n \<Rightarrow> n = length (filter (\<lambda>m. tm_legacy m \<noteq> None \<and> in_scope userId (tm_user m)) (au_methods s)) \<and>
         list_all2 (\<lambda>m m'. if tm_legacy m \<noteq> None \<and> in_scope userId (tm_user m) then encrypted_from lib fresh m m' else m' = m)
           (au_methods s) (au_methods s')"
    proof (cases r)
      case (Inl e)
      then obtain u x where x: "(u, x) \<in> legacy s" "in_scope userId u" "encrypt_legacy lib fresh u x = Inl e" using R by auto
      from x(1) obtain m where "m \<in> set (au_methods s)" "tm_user m = u" "tm_legacy m = Some x" by (rule legacyE)
      then show ?thesis using x(2,3) rows(2) unfolding Inl sum.case by blast
    next
      case (Inr n)
      then have gone: "\<forall>m\<in>set (au_methods s'). in_scope userId (tm_user m) \<longrightarrow> tm_legacy m = None"
      proof (intro ballI impI)
        fix m assume m: "m \<in> set (au_methods s')" "in_scope userId (tm_user m)"
        have none: "\<forall>p\<in>legacy s'. \<not> in_scope userId (fst p)" using R Inr by simp
        show "tm_legacy m = None"
        proof (cases "tm_legacy m")
          case (Some x)
          from legacyI [OF m(1) this] none m(2) show ?thesis by fastforce
        qed simp
      qed
      have "n = length (pending_rows userId s)" using R Inr by simp
      then show ?thesis using rows(3) [OF gone] unfolding Inr sum.case pending_rows_def by blast
    qed
  qed
qed

section \<open>Counters of accepted codes\<close>

definition counter :: "uuid \<Rightarrow> auth_state \<Rightarrow> int option" where
  "counter u s = (case t_find tm_user u (au_methods s) of None \<Rightarrow> None | Some m \<Rightarrow> tm_last_counter m)"

text \<open>The row of the user stays, and its counter does not fall.\<close>

definition counts_up :: "uuid \<Rightarrow> auth_state \<Rightarrow> auth_state \<Rightarrow> bool" where
  "counts_up u s t \<longleftrightarrow> (\<forall>l. counter u s = Some l \<longrightarrow> (\<exists>l'. counter u t = Some l' \<and> l \<le> l'))"

lemma counts_up_trans: "counts_up u s t \<Longrightarrow> counts_up u t t' \<Longrightarrow> counts_up u s t'"
  unfolding counts_up_def by (metis order_trans)

interpretation counts: frame "counts_up u" for u
  by unfold_locales (simp add: counts_up_def, rule counts_up_trans)

lemma counts_table: "(\<And>s. au_methods (g s) = au_methods s) \<Longrightarrow> frame.keeps (counts_up u) (tx_modify g)"
  by (rule counts.keeps_modify) (simp add: counts_up_def counter_def)

lemma counts_same: "(\<And>r s s'. m s = (r, s') \<Longrightarrow> au_methods s' = au_methods s) \<Longrightarrow> frame.keeps (counts_up u) m"
  by (simp add: counts.keeps_def counts_up_def counter_def)

lemma counts_authTx:
  assumes "frame.keeps (counts_up u) m"
  shows "frame.keeps (counts_up u) (authTx m)"
  unfolding counts.keeps_def
proof (intro allI impI)
  fix s r s'
  assume r: "authTx m s = (r, s')"
  obtain q t where q: "m s = (q, t)" by fastforce
  have "counts_up u s t" by (rule counts.keepsD [OF assms q])
  then show "counts_up u s s'"
    using r q by (cases q) (auto simp: authTx_def auth_rollback_def counts_up_def counter_def)
qed

lemma counts_updateMethod:
  assumes "\<And>m. tm_user (f m) = tm_user m \<and> (u = v \<longrightarrow> tm_last_counter (f m) = tm_last_counter m)"
  shows "frame.keeps (counts_up u) (updateMethod v f)"
  unfolding updateMethod_def
  by (rule counts.keeps_modify) (use assms in \<open>auto simp: counts_up_def counter_def t_find_upd split: option.splits\<close>)

lemma counts_case_prod: "(\<And>a b. frame.keeps (counts_up u) (f a b)) \<Longrightarrow> frame.keeps (counts_up u) (case p of (a, b) \<Rightarrow> f a b)"
  by (cases p) simp

lemmas counts_intros = counts.keeps_intros counts_authTx counts_case_prod counts_updateMethod counts_table

lemma counts_reads:
  "frame.keeps (counts_up u) (selectMethod v)" "frame.keeps (counts_up u) (accountById v)"
  "frame.keeps (counts_up u) (selectUserForSecurityAction v)"
  by (simp_all add: selectMethod_def accountById_def selectUserForSecurityAction_def counts.keeps_basic counts.keeps_bind)

lemma counts_writes:
  "frame.keeps (counts_up u) (recordSecurityAudit v a)" "frame.keeps (counts_up u) (notifyUser v k)"
  "frame.keeps (counts_up u) (updateUser v g)" "frame.keeps (counts_up u) (bumpSessionVersion v)"
  "frame.keeps (counts_up u) (createBackupCodes lib fresh v)"
  "frame.keeps (counts_up u) (persistRotatedActiveSecret lib fresh v secret)"
  unfolding recordSecurityAudit_def notifyUser_def updateUser_def bumpSessionVersion_def createBackupCodes_def
    persistRotatedActiveSecret_def Let_def
  by (intro counts_intros counts_reads; simp)+

lemma counts_migrateEach: "frame.keeps (counts_up u) (migrateEach lib fresh rows)"
  by (induction rows) (auto intro!: counts_intros)

lemma counts_migrateRounds: "frame.keeps (counts_up u) (migrateRounds n lib fresh v k)"
  by (induction n arbitrary: k) (auto simp: migrateLegacyBatch_def intro!: counts_intros counts_migrateEach)

lemma counts_migrate: "frame.keeps (counts_up u) (migrateLegacyTwoFactorSecrets lib fresh v)"
  unfolding migrateLegacyTwoFactorSecrets_def counts.keeps_def using counts.keepsD [OF counts_migrateRounds] by blast

lemma counts_consumeBackupCode: "frame.keeps (counts_up u) (consumeBackupCode lib fresh now v ds code rows)"
  by (induction rows) (auto intro!: counts_intros counts_writes)

text \<open>Advancing the counter is guarded by its old value.\<close>

lemma advance_result:
  assumes "acceptTotp lib fresh v row ds c s = (r, t)"
  shows "counts_up u s t" "r = Inr True \<Longrightarrow> counter v t = Some c \<and> (\<forall>l. counter v s = Some l \<longrightarrow> l < c)"
proof -
  let ?f = "tm_last_counter_update (\<lambda>_. Some c)"
  let ?rest = "tx_bind (tx_when (ds_needs_rotation ds) (persistRotatedActiveSecret lib fresh v (ds_secret ds))) (\<lambda>_.
      tx_bind (recordSecurityAudit v ''two_factor_totp_accepted'') (\<lambda>_. tx_return True))"
  have rest: "frame.keeps (counts_up w) ?rest" for w by (intro counts_intros counts_writes)
  let ?s1 = "au_methods_update (t_upd tm_user v ?f) s"
  have "(r, t) = (case parseAcceptedCounter (case row of None \<Rightarrow> None | Some m \<Rightarrow> tm_last_counter m) of
      Inl e \<Rightarrow> (Inl e, s)
    | Inr old \<Rightarrow> if (case old of None \<Rightarrow> False | Some l \<Rightarrow> c \<le> l) then (Inr False, s)
        else if \<not> (case t_find tm_user v (au_methods s) of None \<Rightarrow> False
          | Some m \<Rightarrow> (case tm_last_counter m of None \<Rightarrow> True | Some l \<Rightarrow> l < c)) then (Inr False, s)
        else ?rest ?s1)"
    using assms by (auto simp: acceptTotp_def tx_bind_def tx_lift_def tx_gets_def tx_return_def tx_throw_def updateMethod_def
        tx_modify_def split: sum.splits)
  then consider "t = s" "r \<noteq> Inr True"
    | m where "t_find tm_user v (au_methods s) = Some m" "\<And>l. tm_last_counter m = Some l \<Longrightarrow> l < c" "?rest ?s1 = (r, t)"
    by (auto split: sum.splits if_splits option.splits)
  then have "counts_up u s t \<and> (r = Inr True \<longrightarrow> counter v t = Some c \<and> (\<forall>l. counter v s = Some l \<longrightarrow> l < c))"
  proof cases
    case 1
    then show ?thesis by (simp add: counts_up_def)
  next
    case (2 m)
    have s1: "counter w ?s1 = (if w = v then Some c else counter w s)" for w
      using 2(1) by (simp add: counter_def t_find_upd)
    have less: "l < c" if "counter v s = Some l" for l using 2(1,2) that by (simp add: counter_def)
    have "counts_up u s ?s1" unfolding counts_up_def s1 using less by (auto intro: less_imp_le)
    moreover have "counts_up u ?s1 t" by (rule counts.keepsD [OF rest 2(3)])
    moreover have "counter v t = counter v ?s1" if "r = Inr True"
      using 2(3) that
      by (cases "ds_needs_rotation ds")
        (auto simp: persistRotatedActiveSecret_def tx_simps updateMethod_def recordSecurityAudit_def
          counter_def t_find_upd split: option.splits)
    ultimately show ?thesis using less s1 [of v] by (auto intro: counts_up_trans)
  qed
  then show "counts_up u s t" "r = Inr True \<Longrightarrow> counter v t = Some c \<and> (\<forall>l. counter v s = Some l \<longrightarrow> l < c)"
    by simp_all
qed

lemma counts_consume: "frame.keeps (counts_up u) (consumeTwoFactorCode lib fresh now v code)"
proof -
  have "frame.keeps (counts_up u) (acceptTotp lib fresh v row ds c)" for row ds c
    unfolding counts.keeps_def using advance_result(1) by blast
  then show ?thesis
    unfolding consumeTwoFactorCode_def Let_def by (intro counts_intros counts_reads counts_consumeBackupCode) simp_all
qed

text \<open>The operations that leave the second factor of a user in place: all but enabling and removing it.\<close>

inductive factor_step :: "uuid \<Rightarrow> auth_state \<Rightarrow> auth_state \<Rightarrow> bool" for u where
  verify: "verifyTwoFactorCode lib fresh now v code s = (r, s') \<Longrightarrow> factor_step u s s'"
| set_up: "setupTwoFactor lib fresh now v label input s = (r, s') \<Longrightarrow> factor_step u s s'"
| renew: "regenerateTwoFactorBackupCodes lib fresh now v input s = (r, s') \<Longrightarrow> factor_step u s s'"
| migrate: "migrateLegacyTwoFactorSecrets lib fresh userId s = (r, s') \<Longrightarrow> factor_step u s s'"
| enable: "v \<noteq> u \<Longrightarrow> confirmTwoFactor lib fresh now v code s = (r, s') \<Longrightarrow> factor_step u s s'"
| remove: "v \<noteq> u \<Longrightarrow> disableTwoFactor lib fresh now v input s = (r, s') \<Longrightarrow> factor_step u s s'"
| elsewhere: "au_methods s' = au_methods s \<Longrightarrow> factor_step u s s'"

lemma counts_factor:
  "frame.keeps (counts_up u) (verifyTwoFactorCode lib fresh now v code)"
  "frame.keeps (counts_up u) (setupTwoFactor lib fresh now v label input)"
  "frame.keeps (counts_up u) (regenerateTwoFactorBackupCodes lib fresh now v input)"
  "v \<noteq> u \<Longrightarrow> frame.keeps (counts_up u) (confirmTwoFactor lib fresh now v code)"
  "v \<noteq> u \<Longrightarrow> frame.keeps (counts_up u) (disableTwoFactor lib fresh now v input)"
proof -
  have reauth: "frame.keeps (counts_up u) (requireReauthentication lib fresh now v row input)" for row
    unfolding requireReauthentication_def
    by (auto intro!: counts_intros counts_consume split: option.splits bool.splits prod.splits)
  have store: "frame.keeps (counts_up u) (storePending fresh now v b)" for b
    unfolding storePending_def
    by (intro counts_intros counts_reads) (auto simp: counts_up_def counter_def t_find_append split: option.splits)
  show "frame.keeps (counts_up u) (verifyTwoFactorCode lib fresh now v code)"
    unfolding verifyTwoFactorCode_def by (intro counts_intros counts_migrate counts_consume)
  show "frame.keeps (counts_up u) (setupTwoFactor lib fresh now v label input)"
    unfolding setupTwoFactor_def Let_def by (intro counts_intros counts_migrate counts_reads reauth store)
  show "frame.keeps (counts_up u) (regenerateTwoFactorBackupCodes lib fresh now v input)"
    unfolding regenerateTwoFactorBackupCodes_def by (intro counts_intros counts_migrate counts_reads reauth counts_writes)
  show "frame.keeps (counts_up u) (confirmTwoFactor lib fresh now v code)" if "v \<noteq> u"
    unfolding confirmTwoFactor_def confirmTx_def by (intro counts_intros counts_migrate counts_reads counts_writes) (use that in auto)
  show "frame.keeps (counts_up u) (disableTwoFactor lib fresh now v input)" if "v \<noteq> u"
  proof -
    have F: "t_find tm_user u (filter (\<lambda>m. tm_user m \<noteq> v) ms) = t_find tm_user u ms" for ms :: "method_row list"
      using that by (induction ms) auto
    have removal: "frame.keeps (counts_up u) (tx_modify (au_methods_update (filter (\<lambda>m. tm_user m \<noteq> v))))"
      by (intro counts.keeps_modify) (simp add: counts_up_def counter_def F)
    have codes: "frame.keeps (counts_up u) (tx_modify (au_backup_codes_update g))" for g by (intro counts_table) simp
    show ?thesis
      unfolding disableTwoFactor_def
      by (intro counts.keeps_bind counts_authTx counts_migrate counts_reads reauth counts_writes removal codes counts.keeps_basic)
  qed
qed

lemma counts_steps: "(factor_step u)\<^sup>*\<^sup>* s t \<Longrightarrow> counts_up u s t"
proof (induction rule: rtranclp_induct)
  case base
  then show ?case by (simp add: counts_up_def)
next
  case (step y z)
  from step.hyps(2) have "counts_up u y z"
    by cases (blast dest: counts.keepsD [OF counts_factor(1)] counts.keepsD [OF counts_factor(2)] counts.keepsD [OF counts_factor(3)]
      counts.keepsD [OF counts_factor(4)] counts.keepsD [OF counts_factor(5)] counts.keepsD [OF counts_migrate] |
      simp add: counts_up_def counter_def)+
  with step.IH show ?case by (rule counts_up_trans)
qed

text \<open>What an accepted six-digit code was.\<close>

lemma consume_totp:
  assumes "consumeTwoFactorCode lib fresh now u code s = (Inr True, t)" "SIX_DIGITS code"
  obtains secret c where "matchTotpCounter (tf_hmac lib) secret code now = Inr (Some c)" "counter u t = Some c"
    "\<And>l. counter u s = Some l \<Longrightarrow> l < c"
proof -
  have six: "length code = 6" "list_all is_digit code" using assms(2) by (simp_all add: SIX_DIGITS_def)
  from assms(1) obtain row box ds matched where m: "activeSecretFromRow row = Some box"
    "matchTotpCounter (tf_hmac lib) (ds_secret ds) code now = Inr matched"
    "case matched of Some c \<Rightarrow> acceptTotp lib fresh u row ds c s = (Inr True, t)
      | None \<Rightarrow> BACKUP_CODE_PATTERN (toUpperCase (js_trim code))"
    by (auto simp: consumeTwoFactorCode_def selectMethod_def tx_simps Let_def split: option.splits if_splits)
  have "code \<noteq> []" using six(1) by auto
  then have "is_digit (hd code)" "is_digit (last code)" using six(2) by (simp_all add: list_all_iff)
  with \<open>code \<noteq> []\<close> have "js_trim code = code" by (intro js_trim_id) (simp_all add: is_digit_not_space)
  then have "length (toUpperCase (js_trim code)) = 6" using six(1) by simp
  then have "\<not> BACKUP_CODE_PATTERN (toUpperCase (js_trim code))" by (auto simp: BACKUP_CODE_PATTERN_def)
  with m(3) obtain c where "matched = Some c" "acceptTotp lib fresh u row ds c s = (Inr True, t)" by (auto split: option.splits)
  then show thesis using m(2) advance_result(2) [of lib fresh u row ds c s] by (intro that [of "ds_secret ds" c]) auto
qed

lemma verify_consumes:
  assumes "verifyTwoFactorCode lib fresh now u code s = (Inr x, t)"
  obtains s0 where "counts_up u s s0" "consumeTwoFactorCode lib fresh now u code s0 = (Inr x, t)"
  using assms by (auto simp: verifyTwoFactorCode_def tx_simps dest: counts.keepsD [OF counts_migrate])

text \<open>
  C30: the counters of accepted authenticator codes strictly rise. If \<open>verifyTwoFactorCode\<close> accepts a
  six-digit code of a user and later, after whatever else happened except enabling or removing that
  user's second factor, accepts a six-digit code again, then each was the code of the counter the
  account holds afterwards, and the second counter is above the first; so no code is ever accepted
  twice for the same period of time, however requests interleave and keys rotate.
\<close>

theorem totp_counters_rise:
  assumes first: "verifyTwoFactorCode lib fresh now u code s = (Inr True, s1)" "SIX_DIGITS code"
    and between: "(factor_step u)\<^sup>*\<^sup>* s1 s2"
    and second: "verifyTwoFactorCode lib' fresh' now' u code' s2 = (Inr True, s3)" "SIX_DIGITS code'"
  shows "\<exists>c c' secret secret'. matchTotpCounter (tf_hmac lib) secret code now = Inr (Some c) \<and>
    matchTotpCounter (tf_hmac lib') secret' code' now' = Inr (Some c') \<and>
    counter u s1 = Some c \<and> counter u s3 = Some c' \<and> c < c'"
proof -
  from first(1) obtain s0 where "consumeTwoFactorCode lib fresh now u code s0 = (Inr True, s1)" by (rule verify_consumes)
  then obtain secret c where c: "matchTotpCounter (tf_hmac lib) secret code now = Inr (Some c)" "counter u s1 = Some c"
    by (rule consume_totp [OF _ first(2)])
  from second(1) obtain t where t: "counts_up u s2 t" "consumeTwoFactorCode lib' fresh' now' u code' t = (Inr True, s3)"
    by (rule verify_consumes)
  obtain secret' c' where c': "matchTotpCounter (tf_hmac lib') secret' code' now' = Inr (Some c')" "counter u s3 = Some c'"
    "\<And>l. counter u t = Some l \<Longrightarrow> l < c'" by (rule consume_totp [OF t(2) second(2)]) blast
  have "counts_up u s1 t" by (rule counts_up_trans [OF counts_steps [OF between] t(1)])
  then obtain l where "counter u t = Some l" "c \<le> l" using c(2) by (auto simp: counts_up_def)
  then have "c < c'" using c'(3) by fastforce
  then show ?thesis using c c'(1,2) by blast
qed

section \<open>Backup codes\<close>

lemma consumeBackupCode_accepts:
  assumes "consumeBackupCode lib fresh now u ds code rows s = (Inr True, t)"
  shows "\<exists>row\<in>set rows. tf_compare lib code (bc_hash row) \<and>
    (\<exists>r\<in>set (au_backup_codes s). bc_id r = bc_id row \<and> usableBackupCode u r) \<and>
    au_backup_codes t = map (\<lambda>r. if bc_id r = bc_id row \<and> usableBackupCode u r then r\<lparr>bc_used_at := Some now\<rparr> else r) (au_backup_codes s)"
  using assms
proof (induction rows)
  case Nil
  then show ?case by (simp add: tx_simps)
next
  case (Cons row rows)
  show ?case
  proof (cases "tf_compare lib code (bc_hash row)")
    case False
    then have "consumeBackupCode lib fresh now u ds code rows s = (Inr True, t)" using Cons.prems by simp
    from Cons.IH [OF this] show ?thesis by (rule bexE) (rule bexI, assumption, simp)
  next
    case True
    let ?mark = "map (\<lambda>r. if bc_id r = bc_id row \<and> usableBackupCode u r then r\<lparr>bc_used_at := Some now\<rparr> else r)"
    have keep: "au_backup_codes x' = au_backup_codes x"
      if "tx_when b (persistRotatedActiveSecret lib fresh u secret) x = (Inr y, x')" for x x' y b secret
      using that by (cases b) (auto simp: persistRotatedActiveSecret_def updateMethod_def tx_simps)
    from Cons.prems True obtain s1 where usable: "\<exists>r\<in>set (au_backup_codes s). bc_id r = bc_id row \<and> usableBackupCode u r"
      and rotated: "tx_when (ds_needs_rotation ds) (persistRotatedActiveSecret lib fresh u (ds_secret ds)) (au_backup_codes_update ?mark s) = (Inr (), s1)"
      and audited: "recordSecurityAudit u ''two_factor_backup_code_consumed'' s1 = (Inr (), t)"
      by (auto simp: tx_bind_iff tx_gets_iff tx_modify_iff tx_return_iff split: if_splits)
    have "au_backup_codes t = au_backup_codes s1" using audited by (auto simp: recordSecurityAudit_def tx_simps)
    also have "\<dots> = ?mark (au_backup_codes s)" using keep [OF rotated] by simp
    finally show ?thesis using True usable by (intro bexI [of _ row], simp_all)
  qed
qed

definition same_codes :: "auth_state \<Rightarrow> auth_state \<Rightarrow> bool" where
  "same_codes s t \<longleftrightarrow> au_backup_codes t = au_backup_codes s"

interpretation codes: frame same_codes
  by unfold_locales (simp_all add: same_codes_def)

lemma codes_authTx: "frame.keeps same_codes m \<Longrightarrow> frame.keeps same_codes (authTx m)"
  unfolding codes.keeps_def by (auto simp: authTx_def auth_rollback_def same_codes_def split: sum.splits prod.splits)

lemma codes_updateMethod: "frame.keeps same_codes (updateMethod v f)"
  unfolding updateMethod_def by (rule codes.keeps_modify) (simp add: same_codes_def)

lemma codes_migrateEach: "frame.keeps same_codes (migrateEach lib fresh rows)"
  by (induction rows) (auto intro!: codes.keeps_intros codes_updateMethod)

lemma codes_migrateRounds: "frame.keeps same_codes (migrateRounds n lib fresh v k)"
  by (induction n arbitrary: k) (auto simp: migrateLegacyBatch_def intro!: codes.keeps_intros codes_authTx codes_migrateEach)

lemma migration_keeps_codes:
  assumes "migrateLegacyTwoFactorSecrets lib fresh v s = (r, t)"
  shows "au_backup_codes t = au_backup_codes s"
  using codes.keepsD [OF codes_migrateRounds assms [unfolded migrateLegacyTwoFactorSecrets_def]] by (simp add: same_codes_def)

lemma consume_backup:
  assumes "consumeTwoFactorCode lib fresh now u code s = (Inr True, t)" "\<not> SIX_DIGITS code"
  shows "\<exists>row\<in>set (au_backup_codes s). usableBackupCode u row \<and> tf_compare lib (toUpperCase (js_trim code)) (bc_hash row) \<and>
    au_backup_codes t = map (\<lambda>r. if bc_id r = bc_id row \<and> usableBackupCode u r then r\<lparr>bc_used_at := Some now\<rparr> else r) (au_backup_codes s)"
proof -
  have "matchTotpCounter (tf_hmac lib) secret code now = Inr None" for secret using assms(2) by (simp add: matchTotpCounter_def)
  with assms(1) obtain ds where
    "consumeBackupCode lib fresh now u ds (toUpperCase (js_trim code)) (sort_key bc_id (filter (usableBackupCode u) (au_backup_codes s))) s
      = (Inr True, t)"
    by (auto simp: consumeTwoFactorCode_def selectMethod_def tx_simps Let_def split: option.splits if_splits)
  from consumeBackupCode_accepts [OF this] obtain row where
    "row \<in> set (sort_key bc_id (filter (usableBackupCode u) (au_backup_codes s)))"
    "tf_compare lib (toUpperCase (js_trim code)) (bc_hash row)"
    "au_backup_codes t = map (\<lambda>r. if bc_id r = bc_id row \<and> usableBackupCode u r then r\<lparr>bc_used_at := Some now\<rparr> else r) (au_backup_codes s)"
    by (elim bexE conjE) (rule that)
  then show ?thesis by (intro bexI [of _ row] conjI) simp_all
qed

lemma verify_backup:
  assumes "verifyTwoFactorCode lib fresh now u code s = (Inr True, t)" "\<not> SIX_DIGITS code"
  shows "\<exists>row\<in>set (au_backup_codes s). usableBackupCode u row \<and> tf_compare lib (toUpperCase (js_trim code)) (bc_hash row) \<and>
    au_backup_codes t = map (\<lambda>r. if bc_id r = bc_id row \<and> usableBackupCode u r then r\<lparr>bc_used_at := Some now\<rparr> else r) (au_backup_codes s)"
proof -
  from assms(1) obtain n s0 where "migrateLegacyTwoFactorSecrets lib fresh (Some u) s = (Inr n, s0)"
    "consumeTwoFactorCode lib fresh now u code s0 = (Inr True, t)"
    by (auto simp: verifyTwoFactorCode_def tx_simps)
  with consume_backup [OF this(2) assms(2)] migration_keeps_codes [OF this(1)] show ?thesis by simp
qed

section \<open>Every operation on the backup codes\<close>

text \<open>
  Codes of a user are only ever spent: a usable row was usable before, unless its hash is one of those
  issued meanwhile.
\<close>

definition spends :: "uuid \<Rightarrow> string set \<Rightarrow> auth_state \<Rightarrow> auth_state \<Rightarrow> bool" where
  "spends u H s t \<longleftrightarrow> (\<forall>r\<in>set (au_backup_codes t). usableBackupCode u r \<longrightarrow> r \<in> set (au_backup_codes s) \<or> bc_hash r \<in> H)"

interpretation spent: frame "spends u H" for u H
  by unfold_locales (auto simp: spends_def)

definition issued_hashes :: "tf_lib \<Rightarrow> tf_fresh \<Rightarrow> string set" where
  "issued_hashes lib fresh = set (map2 (tf_bcrypt lib) (ff_salts fresh) (map generateBackupCode (take BACKUP_CODE_COUNT (ff_codes fresh))))"

lemma spent_table: "(\<And>s. au_backup_codes (g s) = au_backup_codes s) \<Longrightarrow> frame.keeps (spends u H) (tx_modify g)"
  by (rule spent.keeps_modify) (simp add: spends_def)

lemma spent_authTx:
  assumes "frame.keeps (spends u H) m"
  shows "frame.keeps (spends u H) (authTx m)"
  unfolding spent.keeps_def
proof (intro allI impI)
  fix s r s'
  assume r: "authTx m s = (r, s')"
  obtain q t where q: "m s = (q, t)" by fastforce
  have "spends u H s t" by (rule spent.keepsD [OF assms q])
  then show "spends u H s s'"
    using r q by (cases q) (auto simp: authTx_def auth_rollback_def spends_def)
qed

lemma spent_case_prod: "(\<And>a b. frame.keeps (spends u H) (f a b)) \<Longrightarrow> frame.keeps (spends u H) (case p of (a, b) \<Rightarrow> f a b)"
  by (cases p) simp

lemma spent_updates: "frame.keeps (spends u H) (updateMethod v f)" "frame.keeps (spends u H) (updateUser v g)"
  unfolding updateMethod_def updateUser_def by (rule spent_table, simp)+

lemmas spent_intros = spent.keeps_intros spent_authTx spent_case_prod spent_updates spent_table

lemma spent_statements:
  "frame.keeps (spends u H) (selectMethod v)" "frame.keeps (spends u H) (accountById v)"
  "frame.keeps (spends u H) (selectUserForSecurityAction v)" "frame.keeps (spends u H) (recordSecurityAudit v a)"
  "frame.keeps (spends u H) (notifyUser v k)" "frame.keeps (spends u H) (bumpSessionVersion v)"
  "frame.keeps (spends u H) (persistRotatedActiveSecret lib fresh v secret)" "frame.keeps (spends u H) (storePending fresh now v b)"
  unfolding selectMethod_def accountById_def selectUserForSecurityAction_def recordSecurityAudit_def notifyUser_def
    bumpSessionVersion_def persistRotatedActiveSecret_def storePending_def
  by (intro spent_intros; simp)+

lemma spent_deletion: "frame.keeps (spends u H) (tx_modify (au_backup_codes_update (filter P)))"
  by (rule spent.keeps_modify) (auto simp: spends_def)

lemma spent_migrate: "frame.keeps (spends u H) (migrateLegacyTwoFactorSecrets lib fresh v)"
  unfolding spent.keeps_def by (auto simp: spends_def dest: migration_keeps_codes)

text \<open>Issuing codes removes the old ones of that user first.\<close>

lemma spent_createBackupCodes:
  assumes "v = u \<Longrightarrow> issued_hashes lib fresh \<subseteq> H"
  shows "frame.keeps (spends u H) (createBackupCodes lib fresh v)"
proof -
  let ?hs = "map2 (tf_bcrypt lib) (ff_salts fresh) (map generateBackupCode (take BACKUP_CODE_COUNT (ff_codes fresh)))"
  have "v = u \<and> bc_hash r \<in> set ?hs"
    if "r \<in> set (map2 (\<lambda>i h. \<lparr>bc_id = i, bc_user = v, bc_hash = h, bc_used_at = None\<rparr>) (ff_ids fresh) ?hs)" "usableBackupCode u r" for r
    using that by (auto simp: usableBackupCode_def dest: set_zip_rightD)
  then have "frame.keeps (spends u H) (tx_modify (au_backup_codes_update (\<lambda>rows. rows @
      map2 (\<lambda>i h. \<lparr>bc_id = i, bc_user = v, bc_hash = h, bc_used_at = None\<rparr>) (ff_ids fresh) ?hs)))"
    using assms by (intro spent.keeps_modify) (fastforce simp: spends_def issued_hashes_def)
  then show ?thesis
    unfolding createBackupCodes_def Let_def by (intro spent.keeps_bind spent_deletion spent.keeps_basic)
qed

lemma spent_consumeBackupCode: "frame.keeps (spends u H) (consumeBackupCode lib fresh now v ds code rows)"
proof (induction rows)
  case Nil
  then show ?case by (simp add: spent.keeps_basic)
next
  case (Cons row rows)
  have mark: "frame.keeps (spends u H) (tx_modify (au_backup_codes_update (map (\<lambda>r.
      if bc_id r = bc_id row \<and> usableBackupCode v r then r\<lparr>bc_used_at := Some now\<rparr> else r))))"
    by (rule spent.keeps_modify) (auto simp: spends_def usableBackupCode_def)
  show ?case
    by (simp only: consumeBackupCode.simps) (intro spent.keeps_intros Cons.IH mark spent_statements)
qed

lemma spent_consume: "frame.keeps (spends u H) (consumeTwoFactorCode lib fresh now v code)"
  unfolding consumeTwoFactorCode_def acceptTotp_def Let_def
  by (intro spent_intros spent_statements spent_consumeBackupCode)

lemma spent_operations:
  "frame.keeps (spends u H) (verifyTwoFactorCode lib fresh now v code)"
  "frame.keeps (spends u H) (setupTwoFactor lib fresh now v label input)"
  "frame.keeps (spends u H) (disableTwoFactor lib fresh now v input)"
  "(v = u \<Longrightarrow> issued_hashes lib fresh \<subseteq> H) \<Longrightarrow> frame.keeps (spends u H) (regenerateTwoFactorBackupCodes lib fresh now v input)"
  "(v = u \<Longrightarrow> issued_hashes lib fresh \<subseteq> H) \<Longrightarrow> frame.keeps (spends u H) (confirmTwoFactor lib fresh now v code)"
proof -
  have reauth: "frame.keeps (spends u H) (requireReauthentication lib fresh now v row input)" for row
    unfolding requireReauthentication_def
    by (auto intro!: spent_intros spent_consume split: option.splits bool.splits prod.splits)
  have methods: "frame.keeps (spends u H) (tx_modify (au_methods_update g))" for g by (intro spent_table) simp
  note rules = spent.keeps_intros spent_authTx spent_case_prod spent_updates spent_migrate spent_statements spent_consume reauth
    spent_deletion methods
  show "frame.keeps (spends u H) (verifyTwoFactorCode lib fresh now v code)"
    "frame.keeps (spends u H) (setupTwoFactor lib fresh now v label input)"
    "frame.keeps (spends u H) (disableTwoFactor lib fresh now v input)"
    unfolding verifyTwoFactorCode_def setupTwoFactor_def disableTwoFactor_def Let_def
    by (intro rules)+
  assume "v = u \<Longrightarrow> issued_hashes lib fresh \<subseteq> H"
  from spent_createBackupCodes [OF this]
  show "frame.keeps (spends u H) (regenerateTwoFactorBackupCodes lib fresh now v input)"
    "frame.keeps (spends u H) (confirmTwoFactor lib fresh now v code)"
    unfolding regenerateTwoFactorBackupCodes_def confirmTwoFactor_def confirmTx_def
    by (intro rules, assumption?)+
qed

text \<open>
  Everything that can happen to the backup codes: each operation of the service, for whatever user, and
  whatever leaves the codes alone. \<open>H\<close> holds the hashes of the codes issued to the user on the way.
\<close>

inductive code_step :: "uuid \<Rightarrow> string set \<Rightarrow> auth_state \<Rightarrow> auth_state \<Rightarrow> bool" for u H where
  verify: "verifyTwoFactorCode lib fresh now v code s = (r, s') \<Longrightarrow> code_step u H s s'"
| set_up: "setupTwoFactor lib fresh now v label input s = (r, s') \<Longrightarrow> code_step u H s s'"
| migrate: "migrateLegacyTwoFactorSecrets lib fresh userId s = (r, s') \<Longrightarrow> code_step u H s s'"
| remove: "disableTwoFactor lib fresh now v input s = (r, s') \<Longrightarrow> code_step u H s s'"
| renew: "regenerateTwoFactorBackupCodes lib fresh now v input s = (r, s') \<Longrightarrow> v = u \<longrightarrow> issued_hashes lib fresh \<subseteq> H \<Longrightarrow>
    code_step u H s s'"
| enable: "confirmTwoFactor lib fresh now v code s = (r, s') \<Longrightarrow> v = u \<longrightarrow> issued_hashes lib fresh \<subseteq> H \<Longrightarrow> code_step u H s s'"
| elsewhere: "au_backup_codes s' = au_backup_codes s \<Longrightarrow> code_step u H s s'"

lemma spent_steps: "(code_step u H)\<^sup>*\<^sup>* s t \<Longrightarrow> spends u H s t"
proof (induction rule: rtranclp_induct)
  case base
  then show ?case by (rule spent.moves_refl)
next
  case (step y z)
  from step.hyps(2) have "spends u H y z"
  proof cases
    case verify then show ?thesis by (rule spent.keepsD [OF spent_operations(1)])
  next
    case set_up then show ?thesis by (rule spent.keepsD [OF spent_operations(2)])
  next
    case migrate then show ?thesis by (rule spent.keepsD [OF spent_migrate])
  next
    case remove then show ?thesis by (rule spent.keepsD [OF spent_operations(3)])
  next
    case renew then show ?thesis by (intro spent.keepsD [OF spent_operations(4)]) blast+
  next
    case enable then show ?thesis by (intro spent.keepsD [OF spent_operations(5)]) blast+
  next
    case elsewhere then show ?thesis by (simp add: spends_def)
  qed
  with step.IH show ?case by (rule spent.moves_trans)
qed

text \<open>
  C31: a backup code works once. When \<open>verifyTwoFactorCode\<close> accepts a code that is not six digits, an unused
  backup code of that user matched it and is used from then on. Provided no other unused code of the user
  matched the same text, the text is refused in every later state, at whatever time and whatever the operations of
  the service did in between for whatever users, as long as it matches none of the codes newly issued to
  the user meanwhile.
\<close>

theorem backup_code_once:
  assumes accepted: "verifyTwoFactorCode lib fresh now u code s = (Inr True, s1)" "\<not> SIX_DIGITS code"
    and later: "(code_step u H)\<^sup>*\<^sup>* s1 s2"
  shows "\<exists>row\<in>set (au_backup_codes s). usableBackupCode u row \<and> tf_compare lib (toUpperCase (js_trim code)) (bc_hash row) \<and>
    (\<forall>r\<in>set (au_backup_codes s1). bc_id r = bc_id row \<longrightarrow> \<not> usableBackupCode u r) \<and>
    ((\<forall>other\<in>set (au_backup_codes s). usableBackupCode u other \<and> tf_compare lib (toUpperCase (js_trim code)) (bc_hash other)
        \<longrightarrow> bc_id other = bc_id row) \<and> (\<forall>hash\<in>H. \<not> tf_compare lib (toUpperCase (js_trim code)) hash) \<longrightarrow>
      (\<forall>lib' fresh' now'. tf_compare lib' = tf_compare lib \<longrightarrow> fst (verifyTwoFactorCode lib' fresh' now' u code s2) \<noteq> Inr True))"
proof -
  obtain row where row: "row \<in> set (au_backup_codes s)" "usableBackupCode u row" "tf_compare lib (toUpperCase (js_trim code)) (bc_hash row)"
    and s1: "au_backup_codes s1 =
      map (\<lambda>r. if bc_id r = bc_id row \<and> usableBackupCode u r then r\<lparr>bc_used_at := Some now\<rparr> else r) (au_backup_codes s)"
    using verify_backup [OF accepted] by (elim bexE conjE) (rule that)
  have gone: "\<not> usableBackupCode u r" if member: "r \<in> set (au_backup_codes s1)" and bc: "bc_id r = bc_id row" for r
  proof -
    obtain q where "r = (if bc_id q = bc_id row \<and> usableBackupCode u q then q\<lparr>bc_used_at := Some now\<rparr> else q)"
      using member unfolding s1 set_map by (elim imageE) (rule that)
    with bc show ?thesis by (cases "bc_id q = bc_id row \<and> usableBackupCode u q") (auto simp: usableBackupCode_def)
  qed
  have "fst (verifyTwoFactorCode lib' fresh' now' u code s2) \<noteq> Inr True"
    if only: "\<forall>other\<in>set (au_backup_codes s). usableBackupCode u other \<and> tf_compare lib (toUpperCase (js_trim code)) (bc_hash other)
        \<longrightarrow> bc_id other = bc_id row" and new: "\<forall>hash\<in>H. \<not> tf_compare lib (toUpperCase (js_trim code)) hash"
      and same: "tf_compare lib' = tf_compare lib" for lib' fresh' now'
  proof
    assume "fst (verifyTwoFactorCode lib' fresh' now' u code s2) = Inr True"
    then obtain t where "verifyTwoFactorCode lib' fresh' now' u code s2 = (Inr True, t)" by (metis prod.collapse)
    then obtain r where r: "r \<in> set (au_backup_codes s2)" "usableBackupCode u r" "tf_compare lib (toUpperCase (js_trim code)) (bc_hash r)"
      using verify_backup [OF _ accepted(2)] same by metis
    then have "r \<in> set (au_backup_codes s1)" using spent_steps [OF later] new unfolding spends_def by blast
    then obtain q where q: "q \<in> set (au_backup_codes s)"
      "r = (if bc_id q = bc_id row \<and> usableBackupCode u q then q\<lparr>bc_used_at := Some now\<rparr> else q)" unfolding s1 set_map by (rule imageE)
    then have "q = r" using r(2) by (cases "bc_id q = bc_id row \<and> usableBackupCode u q") (auto simp: usableBackupCode_def)
    then have "bc_id r = bc_id row" using only q(1) r(2,3) by blast
    with gone \<open>r \<in> set (au_backup_codes s1)\<close> r(2) show False by blast
  qed
  with row gone show ?thesis by blast
qed

section \<open>Samples\<close>

definition old_method :: "uuid \<Rightarrow> string \<Rightarrow> method_row" where
  "old_method u secret = \<lparr>tm_user = u, tm_id = u, tm_legacy = Some secret, tm_confirmed_at = Some 0, tm_created_at = 0,
     tm_active = None, tm_last_counter = None, tm_pending = None\<rparr>"

definition fresh1 :: tf_fresh where
  "fresh1 = \<lparr>ff_iv = replicate 12 0, ff_migrate_iv = (\<lambda>u. replicate 12 0), ff_secret = [], ff_codes = [], ff_salts = [],
     ff_ids = [], ff_method_id = ''m''\<rparr>"

theorem migration_completes_witness:
  "\<exists>r s'. migrateLegacyTwoFactorSecrets lib1 fresh1 None (auth0\<lparr>au_methods := [old_method ''u1'' ''NAQQ'']\<rparr>) = (r, s') \<and>
     map tm_user (au_methods s') = [''u1'']"
proof -
  let ?s = "auth0\<lparr>au_methods := [old_method ''u1'' ''NAQQ'']\<rparr>"
  have users: "map tm_user (au_methods ?s) = [''u1'']" by (simp add: old_method_def)
  have same: "list_all2 P xs ys \<Longrightarrow> (\<And>m m'. P m m' \<Longrightarrow> tm_user m' = tm_user m) \<Longrightarrow> map tm_user ys = map tm_user xs" for P xs ys
    by (induction rule: list_all2_induct) auto
  have "distinct (map tm_user (au_methods ?s))" by (simp add: users)
  from migration_completes [OF this, of lib1 fresh1 None] users show ?thesis
    by (elim exE conjE) (auto simp: encrypted_from_def split: sum.splits if_splits dest!: same)
qed

text \<open>An account whose second factor is the sealed sample secret, last used at counter \<open>l\<close>.\<close>

definition method1 :: "int option \<Rightarrow> method_row" where
  "method1 l = \<lparr>tm_user = ''u1'', tm_id = ''m1'', tm_legacy = None, tm_confirmed_at = Some 0, tm_created_at = 0,
     tm_active = (case sealed0 of Inl e \<Rightarrow> None | Inr box \<Rightarrow> Some box), tm_last_counter = l, tm_pending = None\<rparr>"

definition guarded1 :: "int option \<Rightarrow> string list \<Rightarrow> backup_code_row list \<Rightarrow> auth_state" where
  "guarded1 l audit codes = auth0\<lparr>au_methods := [method1 l], au_audit := map (Pair ''u1'') audit, au_backup_codes := codes\<rparr>"

lemma guarded1_parts:
  "au_methods (guarded1 l audit codes) = [method1 l]" "au_backup_codes (guarded1 l audit codes) = codes"
  "tm_user (method1 l) = ''u1''" "tm_legacy (method1 l) = None" "tm_last_counter (method1 l) = l"
  by (simp_all add: guarded1_def method1_def)

lemma guarded1_changes:
  "au_methods_update (t_upd tm_user ''u1'' (tm_last_counter_update (\<lambda>_. l'))) (guarded1 l audit codes) = guarded1 l' audit codes"
  "au_audit_update (\<lambda>rows. rows @ [(''u1'', a)]) (guarded1 l audit codes) = guarded1 l (audit @ [a]) codes"
  "au_backup_codes_update f (guarded1 l audit codes) = guarded1 l audit (f codes)"
  by (simp_all add: guarded1_def method1_def t_upd_def)

lemma guarded1_secret:
  "\<exists>box. activeSecretFromRow (Some (method1 l)) = Some box \<and>
     decryptTwoFactorSecretForRotation (tf_cipher lib1) (tf_config lib1) box ''u1'' = Inr \<lparr>ds_secret = ''NAQQ'', ds_needs_rotation = False\<rparr>"
proof -
  obtain box where box: "sealed0 = Inr box" "complete_box box"
    "decryptTwoFactorSecretForRotation cipher0 \<lparr>ec_key = key_entry0 1, ec_previous = []\<rparr> box ''u1'' =
       Inr \<lparr>ds_secret = ''NAQQ'', ds_needs_rotation = False\<rparr>"
    using sealed_sample unfolding complete_box_def by blast
  have "tf_config lib1 = \<lparr>ec_key = key_entry0 1, ec_previous = []\<rparr>" by (simp add: lib1_def)
  with box(2,3) show ?thesis by (intro exI [of _ box]) (simp add: activeSecretFromRow_def method1_def box(1))
qed

lemma guarded1_unmigrated:
  "migrateLegacyTwoFactorSecrets lib1 fresh1 (Some ''u1'') (guarded1 l audit codes) = (Inr 0, guarded1 l audit codes)"
  by (simp add: migrateLegacyTwoFactorSecrets_def guarded1_parts migrateLegacyBatch_def legacyRows_def authTx_def tx_defs)

lemma guarded1_code:
  assumes "matchTotpCounter hmac0 ''NAQQ'' code now = Inr (Some c)" "l = None \<or> l = Some k \<and> 0 \<le> k \<and> k < c \<and> safeInteger k"
  shows "verifyTwoFactorCode lib1 fresh1 now ''u1'' code (guarded1 l audit codes) =
    (Inr True, guarded1 (Some c) (audit @ [''two_factor_totp_accepted'']) codes)"
proof -
  obtain box where box: "activeSecretFromRow (Some (method1 l)) = Some box"
    "decryptTwoFactorSecretForRotation (tf_cipher lib1) (tf_config lib1) box ''u1'' = Inr \<lparr>ds_secret = ''NAQQ'', ds_needs_rotation = False\<rparr>"
    using guarded1_secret by blast
  have "parseAcceptedCounter l = Inr l" using assms(2) by (auto simp: parseAcceptedCounter_def)
  moreover have "\<not> (case l of None \<Rightarrow> False | Some l \<Rightarrow> c \<le> l)" "(case l of None \<Rightarrow> True | Some l \<Rightarrow> l < c)" using assms(2) by auto
  ultimately have "acceptTotp lib1 fresh1 ''u1'' (Some (method1 l)) \<lparr>ds_secret = ''NAQQ'', ds_needs_rotation = False\<rparr> c (guarded1 l audit codes) =
      (Inr True, guarded1 (Some c) (audit @ [''two_factor_totp_accepted'']) codes)"
    by (simp add: acceptTotp_def tx_defs guarded1_parts guarded1_changes updateMethod_def recordSecurityAudit_def t_find_def)
  then show ?thesis
    using box assms(1)
    by (simp add: verifyTwoFactorCode_def tx_bind_def guarded1_unmigrated authTx_def consumeTwoFactorCode_def selectMethod_def
        tx_gets_def tx_lift_def guarded1_parts t_find_def)
qed

theorem totp_counters_rise_witness:
  "\<exists>code code' s1 s3 c c'. verifyTwoFactorCode lib1 fresh1 0 ''u1'' code (guarded1 None [] []) = (Inr True, s1) \<and>
     verifyTwoFactorCode lib1 fresh1 150000 ''u1'' code' s1 = (Inr True, s3) \<and>
     counter ''u1'' s1 = Some c \<and> counter ''u1'' s3 = Some c' \<and> c < c'"
proof -
  obtain code where code: "SIX_DIGITS code" "matchTotpCounter hmac0 ''NAQQ'' code 0 = Inr (Some 0)"
    using totp_match [OF sample_secret, of 0 hmac0] by (force simp: matchTotpCounter_def split: if_splits)
  obtain code' where code': "SIX_DIGITS code'" "matchTotpCounter hmac0 ''NAQQ'' code' 150000 = Inr (Some 5)"
    using totp_match [OF sample_secret, of 150000 hmac0] by (force simp: matchTotpCounter_def split: if_splits)
  let ?a = "''two_factor_totp_accepted''"
  have one: "verifyTwoFactorCode lib1 fresh1 0 ''u1'' code (guarded1 None [] []) = (Inr True, guarded1 (Some 0) [?a] [])"
    using guarded1_code [OF code(2)] by simp
  have two: "verifyTwoFactorCode lib1 fresh1 150000 ''u1'' code' (guarded1 (Some 0) [?a] []) = (Inr True, guarded1 (Some 5) [?a, ?a] [])"
    using guarded1_code [OF code'(2), of "Some 0" 0] by (simp add: safeInteger_def MAX_SAFE_INT_def)
  from totp_counters_rise [OF one code(1) rtranclp.rtrancl_refl two code'(1)] one two show ?thesis by blast
qed

definition backup1 :: "time option \<Rightarrow> backup_code_row" where
  "backup1 used = \<lparr>bc_id = ''b1'', bc_user = ''u1'', bc_hash = ''AB12-CD34'', bc_used_at = used\<rparr>"

lemma sample_backup_code:
  "toUpperCase (js_trim '' ab12-cd34 '') = ''AB12-CD34''" "BACKUP_CODE_PATTERN ''AB12-CD34''" "\<not> SIX_DIGITS '' ab12-cd34 ''"
  by code_simp+

lemma guarded1_backup:
  "verifyTwoFactorCode lib1 fresh1 7 ''u1'' '' ab12-cd34 '' (guarded1 None [] [backup1 None]) =
    (Inr True, guarded1 None [''two_factor_backup_code_consumed''] [backup1 (Some 7)])"
proof -
  obtain box where box: "activeSecretFromRow (Some (method1 None)) = Some box"
    "decryptTwoFactorSecretForRotation (tf_cipher lib1) (tf_config lib1) box ''u1'' = Inr \<lparr>ds_secret = ''NAQQ'', ds_needs_rotation = False\<rparr>"
    using guarded1_secret by blast
  have free: "usableBackupCode ''u1'' (backup1 None)" "bc_hash (backup1 None) = ''AB12-CD34''"
    "(backup1 None)\<lparr>bc_used_at := Some 7\<rparr> = backup1 (Some 7)" by (simp_all add: usableBackupCode_def backup1_def)
  have "consumeBackupCode lib1 fresh1 7 ''u1'' \<lparr>ds_secret = ''NAQQ'', ds_needs_rotation = False\<rparr> ''AB12-CD34'' [backup1 None]
      (guarded1 None [] [backup1 None]) = (Inr True, guarded1 None [''two_factor_backup_code_consumed''] [backup1 (Some 7)])"
    by (simp add: tx_defs guarded1_parts guarded1_changes recordSecurityAudit_def free)
  moreover have "matchTotpCounter hmac0 ''NAQQ'' '' ab12-cd34 '' 7 = Inr None"
    using sample_backup_code(3) by (simp add: matchTotpCounter_def)
  ultimately show ?thesis
    using box
    by (simp add: verifyTwoFactorCode_def tx_bind_def guarded1_unmigrated authTx_def consumeTwoFactorCode_def selectMethod_def
        tx_gets_def tx_lift_def guarded1_parts t_find_def sample_backup_code(1,2) free Let_def)
qed

text \<open>Spent, then codes are issued anew to another user, then tried again.\<close>

theorem backup_code_once_witness:
  "\<exists>s1. verifyTwoFactorCode lib1 fresh1 7 ''u1'' '' ab12-cd34 '' (guarded1 None [] [backup1 None]) = (Inr True, s1) \<and>
     fst (verifyTwoFactorCode lib1 fresh1 8 ''u1'' '' ab12-cd34 ''
       (snd (regenerateTwoFactorBackupCodes lib1 fresh1 8 ''u2'' \<lparr>re_password = None, re_totp = None\<rparr> s1))) \<noteq> Inr True"
proof -
  let ?s1 = "guarded1 None [''two_factor_backup_code_consumed''] [backup1 (Some 7)]"
  let ?s2 = "snd (regenerateTwoFactorBackupCodes lib1 fresh1 8 ''u2'' \<lparr>re_password = None, re_totp = None\<rparr> ?s1)"
  have "code_step ''u1'' {} ?s1 ?s2" by (rule code_step.renew [OF prod.collapse [symmetric]]) simp
  from backup_code_once [OF guarded1_backup sample_backup_code(3) r_into_rtranclp [of "code_step ''u1'' {}", OF this]]
  have "fst (verifyTwoFactorCode lib1 fresh1 8 ''u1'' '' ab12-cd34 '' ?s2) \<noteq> Inr True"
    by (auto simp: guarded1_parts backup1_def)
  with guarded1_backup show ?thesis by blast
qed

end
