(* ===== verification/Storage.thy ===== *)
theory Storage
  imports Outbox "HOL-Library.Word"
begin

text \<open>
  \<open>modules/storage/storage.service.ts\<close>: uploaded images from the reservation of their bytes to their physical
  deletion. A row of \<open>storage_objects\<close> outlives the request that wrote it; the object itself lives on a disk
  or in S3 and is known here by its driver and key. Decoding and encoding images is an argument, and so is
  what becomes of each physical write and deletion; the semaphores that bound the work are left out.
\<close>

section \<open>Rows\<close>

datatype StoragePurpose = Avatar | ProductMedia | ChatAttachment | CatalogAsset

fun purposeName :: "StoragePurpose \<Rightarrow> string" where
  "purposeName Avatar = ''avatar''"
| "purposeName ProductMedia = ''product_media''"
| "purposeName ChatAttachment = ''chat_attachment''"
| "purposeName CatalogAsset = ''catalog_asset''"

definition publicStoragePurposes :: "StoragePurpose list" where
  "publicStoragePurposes = [Avatar, ProductMedia, CatalogAsset]"

definition privateStoragePurposes :: "StoragePurpose list" where
  "privateStoragePurposes = [ChatAttachment]"

definition isPublicStoragePurpose :: "StoragePurpose \<Rightarrow> bool" where
  "isPublicStoragePurpose purpose = list_ex (\<lambda>p. p = purpose) publicStoragePurposes"

definition isPrivateStoragePurpose :: "StoragePurpose \<Rightarrow> bool" where
  "isPrivateStoragePurpose purpose = list_ex (\<lambda>p. p = purpose) privateStoragePurposes"

datatype StorageDriver = LocalDriver | S3Driver

datatype StorageObjectStatus = Uploading | Temporary | Attached | Deleting | Deleted | Quarantined

record StorageObject =
  so_id :: uuid
  so_owner :: uuid
  so_key :: string
  so_driver :: StorageDriver
  so_purpose :: StoragePurpose
  so_mime :: string
  so_size :: int
  so_width :: int
  so_height :: int
  so_status :: StorageObjectStatus
  so_created_at :: time
  so_attached_at :: "time option"
  so_deleted_at :: "time option"

record group_row =
  gp_id :: uuid
  gp_active :: bool
  gp_icon :: "string option"

text \<open>A catalog item with its icon, banner, logo and background.\<close>

record item_row =
  it_group :: uuid
  it_active :: bool
  it_images :: "string option list"

record chat_row =
  ch_id :: uuid
  ch_conversation :: uuid
  ch_sender :: "uuid option"
  ch_client_id :: "uuid option"
  ch_body :: string
  ch_attachment :: "uuid option"
  ch_created_at :: time
  ch_hidden :: bool

text \<open>The column \<open>created_at\<close> counts microseconds: those below the millisecond, the unit of \<open>time\<close>, are \<open>dm_micros\<close>.\<close>

record dispute_message_row =
  dm_id :: uuid
  dm_dispute :: uuid
  dm_author :: uuid
  dm_body :: string
  dm_attachment :: "uuid option"
  dm_created_at :: time
  dm_micros :: int
  dm_hidden :: bool

text \<open>
  The database of the other services with the tables of media and chat. \<open>md_files\<close> are the physical objects,
  which no transaction rolls back; \<open>md_chat\<close> is the table \<open>messages\<close> with the columns the chat reads, in which a
  system message has no sender, \<open>md_muted\<close> is \<open>users.muted_until\<close>, \<open>md_read\<close> the read markers of the conversations by user.
\<close>

record media =
  md_db :: db
  md_objects :: "StorageObject list"
  md_files :: "(StorageDriver \<times> string) list"
  md_groups :: "group_row list"
  md_items :: "item_row list"
  md_chat :: "chat_row list"
  md_dispute_chat :: "dispute_message_row list"
  md_blocks :: "(uuid \<times> uuid) list"
  md_muted :: "(uuid \<times> time) list"
  md_read :: "((uuid \<times> uuid) \<times> time) list"

type_synonym 'a mediatx = "(media, 'a) tx"

record storage_env =
  st_env :: env
  STORAGE_DRIVER :: StorageDriver
  S3_BUCKET_set :: bool
  LOCAL_UPLOAD_DIR :: "string list"
  STORAGE_DAILY_UPLOAD_BYTES_PER_USER :: int
  STORAGE_TOTAL_QUOTA_BYTES_PER_USER :: int
  STORAGE_MAX_OBJECTS_PER_PURPOSE :: nat
  STORAGE_MAX_STORED_IMAGE_BYTES :: int
  STORAGE_MAX_IMAGE_WIDTH :: int
  STORAGE_MAX_IMAGE_HEIGHT :: int
  STORAGE_MAX_IMAGE_PIXELS :: int
  STORAGE_TEMP_TTL_HOURS :: int

definition onDb :: "'a dbtx \<Rightarrow> 'a mediatx" where
  "onDb m s = (case m (md_db s) of (r, d) \<Rightarrow> (r, s\<lparr>md_db := d\<rparr>))"

definition media_rollback :: "media \<Rightarrow> media \<Rightarrow> media" where
  "media_rollback s s' = s\<lparr>md_files := md_files s', md_db := rollback (md_db s) (md_db s')\<rparr>"

definition mediaTx :: "'a mediatx \<Rightarrow> 'a mediatx" where
  "mediaTx fn s = (case fn s of (Inl e, s') \<Rightarrow> (Inl e, media_rollback s s') | (Inr x, s') \<Rightarrow> (Inr x, s'))"

section \<open>Physical objects\<close>

definition buildPublicMediaUrl :: "uuid \<Rightarrow> string" where
  "buildPublicMediaUrl i = ''/api/storage/public/'' @ i"

definition buildPrivateMediaUrl :: "uuid \<Rightarrow> string" where
  "buildPrivateMediaUrl i = ''/api/storage/private/'' @ i"

text \<open>The ids are UUIDs, which \<open>encodeURIComponent\<close> leaves alone. \<open>path.resolve\<close> over the segments of a key: empty ones and \<open>.\<close> are skipped, \<open>..\<close> goes up.\<close>

fun splitOn :: "char \<Rightarrow> string \<Rightarrow> string list" where
  "splitOn d [] = [[]]"
| "splitOn d (c # s) = (if c = d then [] # splitOn d s
     else (case splitOn d s of [] \<Rightarrow> [[c]] | seg # segs \<Rightarrow> (c # seg) # segs))"

fun resolvePath :: "string list \<Rightarrow> string list \<Rightarrow> string list" where
  "resolvePath dir [] = dir"
| "resolvePath dir (seg # segs) =
     (if seg = [] \<or> seg = ''.'' then resolvePath dir segs
      else if seg = ''..'' then resolvePath (butlast dir) segs
      else resolvePath (dir @ [seg]) segs)"

definition localObjectPath :: "storage_env \<Rightarrow> string \<Rightarrow> string list result" where
  "localObjectPath cfg objectKey =
     (let root = resolvePath [] (LOCAL_UPLOAD_DIR cfg);
          target = resolvePath root (splitOn (CHR ''/'') objectKey) in
      if target \<noteq> root \<and> \<not> (strict_prefix root target)
      then Inl (JsError ''Storage object key escaped the local upload directory'')
      else Inr target)"

text \<open>
  What becomes of a write: it succeeds, it fails without a trace, or it fails to be confirmed although the object
  was stored; likewise for a deletion.
\<close>

datatype io_fate = IoDone | IoFailed | IoUnconfirmed

definition storageProviderFailure :: "string \<Rightarrow> err" where
  "storageProviderFailure operation = JsError (''Storage provider '' @ operation @ '' failed'')"

definition writePhysicalObject :: "storage_env \<Rightarrow> io_fate \<Rightarrow> StorageDriver \<Rightarrow> string \<Rightarrow> unit mediatx" where
  "writePhysicalObject cfg fate driver objectKey =
     (let failure = storageProviderFailure ''write'';
          store = tx_modify (md_files_update (\<lambda>fs. if list_ex (\<lambda>f. f = (driver, objectKey)) fs then fs else fs @ [(driver, objectKey)])) in
      tx_bind (tx_gets (\<lambda>s. case driver of
          LocalDriver \<Rightarrow> localObjectPath cfg objectKey \<noteq> Inl (JsError ''Storage object key escaped the local upload directory'')
            \<and> \<not> list_ex (\<lambda>f. f = (driver, objectKey)) (md_files s)
        | S3Driver \<Rightarrow> S3_BUCKET_set cfg)) (\<lambda>possible.
      tx_bind (tx_guard possible failure) (\<lambda>_.
      case fate of
        IoDone \<Rightarrow> store
      | IoFailed \<Rightarrow> tx_throw failure
      | IoUnconfirmed \<Rightarrow> tx_bind store (\<lambda>_. tx_throw failure))))"

text \<open>Deleting an object that is not there succeeds on both drivers.\<close>

definition deletePhysicalObject :: "storage_env \<Rightarrow> io_fate \<Rightarrow> StorageDriver \<Rightarrow> string \<Rightarrow> unit mediatx" where
  "deletePhysicalObject cfg fate driver objectKey =
     (let failure = storageProviderFailure ''delete'';
          possible = (case driver of
              LocalDriver \<Rightarrow> localObjectPath cfg objectKey \<noteq> Inl (JsError ''Storage object key escaped the local upload directory'')
            | S3Driver \<Rightarrow> S3_BUCKET_set cfg);
          erase = tx_modify (md_files_update (filter (\<lambda>f. f \<noteq> (driver, objectKey)))) in
      tx_bind (tx_guard possible failure) (\<lambda>_.
      case fate of
        IoDone \<Rightarrow> erase
      | IoFailed \<Rightarrow> tx_throw failure
      | IoUnconfirmed \<Rightarrow> tx_bind erase (\<lambda>_. tx_throw failure)))"

section \<open>Images\<close>

record ImageMetadata =
  im_format :: string
  im_pages :: "int option"
  im_width :: "int option"
  im_height :: "int option"

record image_lib =
  il_metadata :: "8 word list \<Rightarrow> ImageMetadata option"
  il_webp :: "8 word list \<Rightarrow> (8 word list \<times> int \<times> int) option"

record upload_file =
  uf_buffer :: "8 word list"
  uf_mimetype :: string

record ProcessedImage =
  pi_buffer :: "8 word list"
  pi_mime :: string
  pi_width :: int
  pi_height :: int

definition inputFormats :: "(string \<times> string) list" where
  "inputFormats = [(''image/jpeg'', ''jpeg''), (''image/png'', ''png''), (''image/webp'', ''webp'')]"

definition tooLarge :: "storage_env \<Rightarrow> int \<Rightarrow> int \<Rightarrow> bool" where
  "tooLarge cfg width height \<longleftrightarrow> STORAGE_MAX_IMAGE_WIDTH cfg < width \<or> STORAGE_MAX_IMAGE_HEIGHT cfg < height"

text \<open>\<open>None\<close> is an exception of the library, which the \<open>catch\<close> answers like any other without a status.\<close>

definition processUploadedImage :: "storage_env \<Rightarrow> image_lib \<Rightarrow> upload_file \<Rightarrow> ProcessedImage result" where
  "processUploadedImage cfg lib file = (case map_of inputFormats (uf_mimetype file) of
       None \<Rightarrow> Inl (badRequest ''Only JPEG, PNG, or WEBP images are allowed'')
     | Some expectedFormat \<Rightarrow> (case il_metadata lib (uf_buffer file) of
         None \<Rightarrow> Inl (badRequest ''Uploaded file is not a valid supported image'')
       | Some metadata \<Rightarrow>
           if im_format metadata \<noteq> expectedFormat then
             Inl (badRequest ''Uploaded file does not match its declared image format'')
           else if 1 < (case im_pages metadata of None \<Rightarrow> 1 | Some n \<Rightarrow> n) then Inl (badRequest ''Animated images are not supported'')
           else (case (im_width metadata, im_height metadata) of
               (Some width, Some height) \<Rightarrow>
                 if width = 0 \<or> height = 0 then Inl (badRequest ''Image dimensions could not be determined'')
                 else if tooLarge cfg width height \<or> STORAGE_MAX_IMAGE_PIXELS cfg < width * height
                 then Inl (badRequest ''Image dimensions are too large'')
                 else (case il_webp lib (uf_buffer file) of
                     None \<Rightarrow> Inl (badRequest ''Uploaded file is not a valid supported image'')
                   | Some (data, w, h) \<Rightarrow>
                       if tooLarge cfg w h then Inl (badRequest ''Image dimensions are too large'')
                       else if STORAGE_MAX_STORED_IMAGE_BYTES cfg < int (length data)
                       then Inl (badRequest ''Processed image exceeds the stored image limit'')
                       else Inr \<lparr>pi_buffer = data, pi_mime = ''image/webp'', pi_width = w, pi_height = h\<rparr>)
             | _ \<Rightarrow> Inl (badRequest ''Image dimensions could not be determined''))))"

section \<open>Uploading\<close>

definition reservedStatus :: "StorageObjectStatus \<Rightarrow> bool" where
  "reservedStatus st \<longleftrightarrow> st = Uploading \<or> st = Temporary \<or> st = Attached \<or> st = Deleting"

definition DAY_MS :: int where "DAY_MS = 24 * 60 * 60 * 1000"

definition HOUR_MS :: int where "HOUR_MS = 60 * 60 * 1000"

definition dailyBytes :: "uuid \<Rightarrow> time \<Rightarrow> StorageObject list \<Rightarrow> int" where
  "dailyBytes ownerId now rows = t_sum (\<lambda>obj. if so_owner obj = ownerId \<and> now - DAY_MS < so_created_at obj then so_size obj else 0) rows"

definition totalBytes :: "uuid \<Rightarrow> StorageObject list \<Rightarrow> int" where
  "totalBytes ownerId rows = t_sum (\<lambda>obj. if so_owner obj = ownerId \<and> reservedStatus (so_status obj) then so_size obj else 0) rows"

definition purposeCount :: "uuid \<Rightarrow> StoragePurpose \<Rightarrow> StorageObject list \<Rightarrow> nat" where
  "purposeCount ownerId purpose rows =
     length (filter (\<lambda>obj. so_owner obj = ownerId \<and> so_purpose obj = purpose \<and> reservedStatus (so_status obj)) rows)"

definition quotaError :: "string \<Rightarrow> err" where
  "quotaError message = ApiError 400 message ''storage_quota_exceeded''"

definition assertUploadQuota :: "storage_env \<Rightarrow> time \<Rightarrow> uuid \<Rightarrow> StoragePurpose \<Rightarrow> int \<Rightarrow> unit mediatx" where
  "assertUploadQuota cfg now ownerId purpose addBytes =
     tx_bind (tx_gets md_objects) (\<lambda>rows.
     tx_bind (tx_guard (\<not> STORAGE_DAILY_UPLOAD_BYTES_PER_USER cfg < dailyBytes ownerId now rows + addBytes)
       (quotaError ''Daily upload limit reached, try again tomorrow'')) (\<lambda>_.
     tx_bind (tx_guard (\<not> STORAGE_TOTAL_QUOTA_BYTES_PER_USER cfg < totalBytes ownerId rows + addBytes)
       (quotaError ''Storage quota exceeded, delete unused media first'')) (\<lambda>_.
     tx_guard (\<not> STORAGE_MAX_OBJECTS_PER_PURPOSE cfg \<le> purposeCount ownerId purpose rows)
       (quotaError ''Too many stored objects of this type''))))"

definition newObjectKey :: "uuid \<Rightarrow> StoragePurpose \<Rightarrow> string \<Rightarrow> string" where
  "newObjectKey ownerId purpose nanoid = purposeName purpose @ ''/'' @ ownerId @ ''/'' @ nanoid @ ''.webp''"

text \<open>The insert with the checks, the unique key and the reference to the owner of the table.\<close>

definition insertUpload :: "storage_env \<Rightarrow> time \<Rightarrow> uuid \<Rightarrow> string \<Rightarrow> StoragePurpose \<Rightarrow> ProcessedImage \<Rightarrow> StorageObject mediatx" where
  "insertUpload cfg now ownerId objectKey purpose img =
     tx_bind (onDb (gen_random_uuid (st_env cfg))) (\<lambda>i.
     tx_bind (tx_guard (0 < int (length (pi_buffer img)) \<and> 0 < pi_width img \<and> 0 < pi_height img) (PgError ''23514'')) (\<lambda>_.
     tx_bind (tx_gets (\<lambda>s. t_find so_key objectKey (md_objects s) \<noteq> None \<or> t_find so_id i (md_objects s) \<noteq> None)) (\<lambda>taken.
     tx_bind (tx_guard (\<not> taken) (PgError ''23505'')) (\<lambda>_.
     tx_bind (tx_gets (\<lambda>s. t_find u_id ownerId (users (md_db s)) \<noteq> None)) (\<lambda>owner.
     tx_bind (tx_guard owner (PgError ''23503'')) (\<lambda>_.
     let row = \<lparr>so_id = i, so_owner = ownerId, so_key = objectKey, so_driver = STORAGE_DRIVER cfg, so_purpose = purpose,
         so_mime = pi_mime img, so_size = int (length (pi_buffer img)), so_width = pi_width img,
         so_height = pi_height img, so_status = Uploading, so_created_at = now, so_attached_at = None, so_deleted_at = None\<rparr> in
     tx_bind (tx_modify (md_objects_update (\<lambda>rows. rows @ [row]))) (\<lambda>_. tx_return row)))))))"

text \<open>The reservation, serialised by an advisory lock of the owner.\<close>

definition reserveUpload :: "storage_env \<Rightarrow> time \<Rightarrow> uuid \<Rightarrow> string \<Rightarrow> StoragePurpose \<Rightarrow> ProcessedImage \<Rightarrow> StorageObject mediatx" where
  "reserveUpload cfg now ownerId objectKey purpose img = mediaTx (
     tx_bind (assertUploadQuota cfg now ownerId purpose (int (length (pi_buffer img)))) (\<lambda>_.
     insertUpload cfg now ownerId objectKey purpose img))"

definition finalizeUpload :: "uuid \<Rightarrow> StorageObject mediatx" where
  "finalizeUpload uploadId =
     tx_bind (tx_gets (\<lambda>s. t_find so_id uploadId (md_objects s))) (\<lambda>row.
     tx_bind (tx_some (case row of Some obj \<Rightarrow> if so_status obj = Uploading then Some obj else None | None \<Rightarrow> None)
       (JsError (''Storage upload '' @ uploadId @ '' lost its reservation before finalization''))) (\<lambda>obj.
     tx_bind (tx_modify (md_objects_update (t_upd so_id uploadId (\<lambda>obj.
       if so_status obj = Uploading then obj\<lparr>so_status := Temporary\<rparr> else obj)))) (\<lambda>_.
     tx_return (obj\<lparr>so_status := Temporary\<rparr>))))"

section \<open>Deletion intents\<close>

definition isDeleteIntent :: "uuid \<Rightarrow> outbox_row \<Rightarrow> bool" where
  "isDeleteIntent i e \<longleftrightarrow> ob_type e = ''storage.delete'' \<and> ob_aggregate_type e = ''storage_object'' \<and> ob_aggregate_id e = i"

definition deleteEvent :: "string \<Rightarrow> uuid \<Rightarrow> outbox_input" where
  "deleteEvent eventKey i = \<lparr>oi_key = eventKey, oi_type = ''storage.delete'', oi_aggregate_type = ''storage_object'',
     oi_aggregate_id = i, oi_payload = JObj [(''storageObjectId'', JStr i)]\<rparr>"

definition defaultDeleteKey :: "uuid \<Rightarrow> string" where
  "defaultDeleteKey i = ''storage.delete:'' @ i"

definition recoveryKey :: "uuid \<Rightarrow> string" where
  "recoveryKey i = ''storage.delete:'' @ i @ '':upload-recovery''"

text \<open>
  \<open>enqueueStorageDeletion\<close>: mark the row, revive the oldest failed intent, or else enqueue one. The outbox rows
  carry no \<open>updated_at\<close>; the choice among several failed intents is the argument \<open>updatedAt\<close>.
\<close>

definition enqueueStorageDeletion ::
  "storage_env \<Rightarrow> time \<Rightarrow> (outbox_row \<Rightarrow> time) \<Rightarrow> bool \<Rightarrow> string option \<Rightarrow> uuid \<Rightarrow> uuid option mediatx" where
  "enqueueStorageDeletion cfg now updatedAt reopenDeleted eventKey i =
     tx_bind (tx_gets (\<lambda>s. case t_find so_id i (md_objects s) of
         None \<Rightarrow> False | Some obj \<Rightarrow> so_status obj \<noteq> Deleted \<or> reopenDeleted)) (\<lambda>marked.
     if \<not> marked then tx_return None
     else
       tx_bind (tx_modify (md_objects_update (t_upd so_id i (\<lambda>obj.
         if so_status obj \<noteq> Deleted \<or> reopenDeleted then obj\<lparr>so_status := Deleting, so_deleted_at := None\<rparr> else obj)))) (\<lambda>_.
       tx_bind (tx_gets (\<lambda>s. sort_key (\<lambda>e. (updatedAt e, ob_id e))
           (filter (\<lambda>e. isDeleteIntent i e \<and> ob_status e = OFailed) (domain_outbox (md_db s))))) (\<lambda>failed.
       case failed of
         e # _ \<Rightarrow>
           tx_bind (onDb (tx_modify (domain_outbox_update (t_upd ob_id (ob_id e) (requeueRow now))))) (\<lambda>_.
           tx_return (Some (ob_id e)))
       | [] \<Rightarrow>
           tx_bind (onDb (enqueueDomainEvent (st_env cfg) now
             (deleteEvent (case eventKey of Some k \<Rightarrow> k | None \<Rightarrow> defaultDeleteKey i) i))) (\<lambda>event.
           tx_bind (tx_when (ob_status event = OFailed)
             (onDb (tx_modify (domain_outbox_update (t_upd ob_id (ob_id event) (requeueRow now)))))) (\<lambda>_.
           tx_return (Some (ob_id event)))))))"

text \<open>The recovery of a failed upload; its own failure is logged and swallowed.\<close>

definition recoverUpload :: "storage_env \<Rightarrow> time \<Rightarrow> (outbox_row \<Rightarrow> time) \<Rightarrow> err option \<Rightarrow> uuid \<Rightarrow> unit mediatx" where
  "recoverUpload cfg now updatedAt fault uploadId =
     tx_catch (mediaTx (tx_bind (enqueueStorageDeletion cfg now updatedAt True (Some (recoveryKey uploadId)) uploadId) (\<lambda>_.
       case fault of Some e \<Rightarrow> tx_throw e | None \<Rightarrow> tx_return ())))
     (\<lambda>_. tx_return ())"

definition createStorageUpload ::
  "storage_env \<Rightarrow> image_lib \<Rightarrow> time \<Rightarrow> (outbox_row \<Rightarrow> time) \<Rightarrow> io_fate \<Rightarrow> err option \<Rightarrow> uuid \<Rightarrow> StoragePurpose \<Rightarrow>
     upload_file \<Rightarrow> StorageObject mediatx" where
  "createStorageUpload cfg lib now updatedAt fate fault ownerId purpose file =
     tx_bind (assertUploadQuota cfg now ownerId purpose (int (length (uf_buffer file)))) (\<lambda>_.
     tx_bind (tx_lift (processUploadedImage cfg lib file)) (\<lambda>img.
     tx_bind (tx_gets (\<lambda>s. newObjectKey ownerId purpose (gen_nanoid (st_env cfg) (uuid_ctr (md_db s))))) (\<lambda>objectKey.
     tx_bind (reserveUpload cfg now ownerId objectKey purpose img) (\<lambda>upload.
     tx_catch
       (tx_bind (writePhysicalObject cfg fate (so_driver upload) objectKey) (\<lambda>_. finalizeUpload (so_id upload)))
       (\<lambda>e. tx_bind (recoverUpload cfg now updatedAt fault (so_id upload)) (\<lambda>_.
        tx_throw (if e = storageProviderFailure ''write''
          then serviceUnavailable ''Storage provider is temporarily unavailable'' else e)))))))"

record UploadDto =
  ud_id :: uuid
  ud_url :: string
  ud_mime :: string
  ud_width :: int
  ud_height :: int

definition toUploadDto :: "StorageObject \<Rightarrow> UploadDto" where
  "toUploadDto obj = \<lparr>ud_id = so_id obj,
     ud_url = (if so_status obj = Temporary \<or> isPrivateStoragePurpose (so_purpose obj)
       then buildPrivateMediaUrl (so_id obj) else buildPublicMediaUrl (so_id obj)),
     ud_mime = so_mime obj, ud_width = so_width obj, ud_height = so_height obj\<rparr>"

section \<open>Attaching\<close>

definition attachStorageObject :: "time \<Rightarrow> uuid \<Rightarrow> uuid \<Rightarrow> StoragePurpose \<Rightarrow> StorageObject mediatx" where
  "attachStorageObject now uploadId ownerId purpose =
     tx_bind (tx_gets (\<lambda>s. t_find so_id uploadId (md_objects s))) (\<lambda>found.
     tx_bind (tx_some found (notFound ''Upload not found'')) (\<lambda>object.
     tx_bind (tx_guard (so_owner object = ownerId) (forbidden ''This upload belongs to another user'')) (\<lambda>_.
     tx_bind (tx_guard (so_status object = Temporary) (badRequest ''Upload is no longer available for attachment'')) (\<lambda>_.
     tx_bind (tx_guard (so_purpose object = purpose) (badRequest ''Upload purpose does not match this operation'')) (\<lambda>_.
     tx_bind (tx_modify (md_objects_update (t_upd so_id (so_id object)
       (\<lambda>obj. if so_status obj = Temporary then obj\<lparr>so_status := Attached, so_attached_at := Some now\<rparr> else obj)))) (\<lambda>_.
     tx_return (object\<lparr>so_status := Attached, so_attached_at := Some now\<rparr>)))))))"

section \<open>Physical deletion\<close>

definition deletionTarget :: "uuid \<Rightarrow> StorageObject option mediatx" where
  "deletionTarget i = tx_gets (\<lambda>s. case t_find so_id i (md_objects s) of
       None \<Rightarrow> None | Some obj \<Rightarrow> if so_status obj = Deleted then None else Some obj)"

definition markDeleted :: "time \<Rightarrow> uuid \<Rightarrow> unit mediatx" where
  "markDeleted now i = tx_modify (md_objects_update (t_upd so_id i (\<lambda>obj.
     if so_status obj \<noteq> Deleted then obj\<lparr>so_status := Deleted, so_deleted_at := Some now\<rparr> else obj)))"

definition deleteStorageObject :: "storage_env \<Rightarrow> time \<Rightarrow> io_fate \<Rightarrow> uuid \<Rightarrow> unit mediatx" where
  "deleteStorageObject cfg now fate i =
     tx_bind (deletionTarget i) (\<lambda>found.
     case found of
       None \<Rightarrow> tx_return ()
     | Some object \<Rightarrow>
         tx_bind (deletePhysicalObject cfg fate (so_driver object) (so_key object)) (\<lambda>_. markDeleted now i))"

section \<open>Cleaning up\<close>

definition refersTo :: "StorageObject \<Rightarrow> string option \<Rightarrow> bool" where
  "refersTo obj img \<longleftrightarrow> img = Some (''/api/storage/public/'' @ so_id obj) \<or>
     suffix (CHR ''/'' # so_key obj) (case img of None \<Rightarrow> [] | Some u \<Rightarrow> u)"

definition catalogAssetReferenceExists :: "media \<Rightarrow> StorageObject \<Rightarrow> bool" where
  "catalogAssetReferenceExists s obj \<longleftrightarrow> list_ex (\<lambda>g. refersTo obj (gp_icon g)) (md_groups s) \<or>
     list_ex (\<lambda>it. list_ex (refersTo obj) (it_images it)) (md_items s)"

definition publicCatalogAssetBindingExists :: "media \<Rightarrow> StorageObject \<Rightarrow> bool" where
  "publicCatalogAssetBindingExists s obj \<longleftrightarrow> list_ex (\<lambda>g. gp_active g \<and> refersTo obj (gp_icon g)) (md_groups s) \<or>
     list_ex (\<lambda>it. it_active it \<and> list_ex (\<lambda>g. gp_id g = it_group it \<and> gp_active g) (md_groups s) \<and>
       list_ex (refersTo obj) (it_images it)) (md_items s)"

definition intentLive :: "media \<Rightarrow> uuid \<Rightarrow> bool" where
  "intentLive s i \<longleftrightarrow> list_ex (\<lambda>e. isDeleteIntent i e \<and> (ob_status e = OPending \<or> ob_status e = OProcessing)) (domain_outbox (md_db s))"

definition cleanupEligible :: "time \<Rightarrow> int \<Rightarrow> media \<Rightarrow> StorageObject \<Rightarrow> bool" where
  "cleanupEligible now olderThanHours s obj \<longleftrightarrow>
     ((so_status obj = Uploading \<or> so_status obj = Temporary) \<and> so_created_at obj < now - olderThanHours * HOUR_MS) \<or>
     (so_status obj = Deleting \<and> \<not> intentLive s (so_id obj)) \<or>
     (so_status obj = Attached \<and> so_purpose obj = CatalogAsset \<and> so_created_at obj < now - olderThanHours * HOUR_MS \<and>
        \<not> catalogAssetReferenceExists s obj)"

fun interleave :: "'a list \<Rightarrow> 'a list \<Rightarrow> 'a list" where
  "interleave [] ys = ys"
| "interleave (x # xs) [] = x # xs"
| "interleave (x # xs) (y # ys) = x # y # interleave xs ys"

text \<open>Two lanes, abandoned uploads and unfinished deletions, each oldest first, taken in turn.\<close>

definition cleanupCandidates :: "time \<Rightarrow> int \<Rightarrow> nat \<Rightarrow> media \<Rightarrow> uuid list" where
  "cleanupCandidates now olderThanHours batchSize s =
     (let eligible = filter (cleanupEligible now olderThanHours s) (md_objects s);
          fresh = (\<lambda>obj. so_status obj = Uploading \<or> so_status obj = Temporary);
          lane = (\<lambda>rows. map so_id (sort_key (\<lambda>obj. (so_created_at obj, so_id obj)) rows)) in
      take batchSize (interleave (lane (filter fresh eligible)) (lane (filter (\<lambda>obj. \<not> fresh obj) eligible))))"

definition cleanupOne ::
  "storage_env \<Rightarrow> time \<Rightarrow> (outbox_row \<Rightarrow> time) \<Rightarrow> int \<Rightarrow> err option \<Rightarrow> uuid \<Rightarrow> bool mediatx" where
  "cleanupOne cfg now updatedAt olderThanHours fault i = mediaTx (
     tx_bind (tx_gets (\<lambda>s. case t_find so_id i (md_objects s) of
         None \<Rightarrow> False | Some obj \<Rightarrow> cleanupEligible now olderThanHours s obj)) (\<lambda>selected.
     tx_bind (case fault of Some e \<Rightarrow> tx_throw e | None \<Rightarrow> tx_return ()) (\<lambda>_.
     if \<not> selected then tx_return False
     else tx_bind (enqueueStorageDeletion cfg now updatedAt False None i) (\<lambda>event. tx_return (event \<noteq> None)))))"

fun cleanupEach ::
  "storage_env \<Rightarrow> time \<Rightarrow> (outbox_row \<Rightarrow> time) \<Rightarrow> int \<Rightarrow> (uuid \<Rightarrow> err option) \<Rightarrow> uuid list \<Rightarrow> (nat \<times> nat) mediatx" where
  "cleanupEach cfg now updatedAt olderThanHours faults [] = tx_return (0, 0)"
| "cleanupEach cfg now updatedAt olderThanHours faults (i # rest) =
     tx_bind (tx_catch (tx_bind (cleanupOne cfg now updatedAt olderThanHours (faults i) i) (\<lambda>q. tx_return (if q then 1 else 0, 0)))
       (\<lambda>_. tx_return (0, 1))) (\<lambda>one.
     tx_bind (cleanupEach cfg now updatedAt olderThanHours faults rest) (\<lambda>more.
     tx_return (fst one + fst more, snd one + snd more)))"

record CleanupResult =
  cl_claimed :: nat
  cl_queued :: nat
  cl_failed :: nat

definition cleanupTemporaryStorageObjects ::
  "storage_env \<Rightarrow> time \<Rightarrow> (outbox_row \<Rightarrow> time) \<Rightarrow> (uuid \<Rightarrow> err option) \<Rightarrow> int option \<Rightarrow> int option \<Rightarrow> CleanupResult mediatx" where
  "cleanupTemporaryStorageObjects cfg now updatedAt faults olderThanHours batchSize =
     (let hours = (case olderThanHours of Some h \<Rightarrow> h | None \<Rightarrow> STORAGE_TEMP_TTL_HOURS cfg);
          size = nat (min (max (case batchSize of Some b \<Rightarrow> b | None \<Rightarrow> 100) 1) 500) in
      tx_bind (tx_gets (cleanupCandidates now hours size)) (\<lambda>candidates.
      tx_bind (cleanupEach cfg now updatedAt hours faults candidates) (\<lambda>counts.
      tx_return \<lparr>cl_claimed = length candidates, cl_queued = fst counts, cl_failed = snd counts\<rparr>)))"

end
