(* ===== verification/Chat.thy ===== *)
theory Chat
  imports Storage
begin

text \<open>
  \<open>modules/chat/chat.service.ts\<close> and \<open>modules/disputes/dispute-messages.service.ts\<close>: who may write to whom,
  sending a message once per client id, its attachment, and reading a conversation page by page; and
  the checks of \<open>storage.routes.ts\<close> on who may see an attachment. A page cursor is the pair it encodes.
\<close>

section \<open>Who may write\<close>

definition messagingBlocked :: err where
  "messagingBlocked = ApiError 403 ''You cannot message this user'' ''messaging_blocked''"

text \<open>The message is the translation of the Russian original.\<close>

definition userMuted :: err where
  "userMuted = ApiError 403 ''You cannot send messages for now: a moderator has restricted access'' ''user_muted''"

definition isMuted :: "time \<Rightarrow> uuid \<Rightarrow> bool mediatx" where
  "isMuted now userId = tx_gets (\<lambda>s. list_ex (\<lambda>(u, t). u = userId \<and> now < t) (md_muted s))"

definition getConversationParties :: "uuid \<Rightarrow> (uuid \<times> uuid) mediatx" where
  "getConversationParties conversationId =
     tx_bind (tx_gets (\<lambda>s. t_find cv_id conversationId (conversations (md_db s)))) (\<lambda>found.
     tx_bind (tx_some found (notFound ''Conversation not found'')) (\<lambda>row.
     tx_return (cv_buyer row, cv_seller row)))"

definition isBlockedPair :: "uuid \<Rightarrow> uuid \<Rightarrow> bool mediatx" where
  "isBlockedPair userA userB =
     tx_gets (\<lambda>s. list_ex (\<lambda>(a, b). (a = userA \<and> b = userB) \<or> (a = userB \<and> b = userA)) (md_blocks s))"

definition assertConversationAccess :: "uuid \<Rightarrow> uuid \<Rightarrow> Role \<Rightarrow> (uuid \<times> uuid) mediatx" where
  "assertConversationAccess conversationId userId role =
     tx_bind (getConversationParties conversationId) (\<lambda>parties.
     tx_bind (tx_guard (\<not> (role \<noteq> RAdmin \<and> fst parties \<noteq> userId \<and> snd parties \<noteq> userId)) (forbidden ''Forbidden'')) (\<lambda>_.
     tx_return parties))"

definition assertCanSendMessage :: "time \<Rightarrow> uuid \<Rightarrow> uuid \<Rightarrow> (uuid \<times> uuid) mediatx" where
  "assertCanSendMessage now conversationId userId =
     tx_bind (assertConversationAccess conversationId userId RUser) (\<lambda>parties.
     tx_bind (isMuted now userId) (\<lambda>muted.
     tx_bind (tx_guard (\<not> muted) userMuted) (\<lambda>_.
     tx_bind (isBlockedPair userId (if fst parties = userId then snd parties else fst parties)) (\<lambda>blocked.
     tx_bind (tx_guard (\<not> blocked) messagingBlocked) (\<lambda>_.
     tx_return parties)))))"

section \<open>Conversations\<close>

text \<open>A direct conversation is found from either side, one about a product from the buyer's.\<close>

definition lookupConversation :: "uuid \<Rightarrow> uuid \<Rightarrow> uuid option \<Rightarrow> conversation_row \<Rightarrow> bool" where
  "lookupConversation buyerId sellerId productId c \<longleftrightarrow> cv_order c = None \<and> (case productId of
       Some p \<Rightarrow> cv_buyer c = buyerId \<and> cv_seller c = sellerId \<and> cv_product c = Some p
     | None \<Rightarrow> cv_product c = None \<and>
         ((cv_buyer c = buyerId \<and> cv_seller c = sellerId) \<or> (cv_buyer c = sellerId \<and> cv_seller c = buyerId)))"

definition getOrCreateConversation :: "env \<Rightarrow> uuid \<Rightarrow> uuid \<Rightarrow> uuid option \<Rightarrow> (uuid \<times> bool) mediatx" where
  "getOrCreateConversation env buyerId sellerId productId =
     tx_bind (tx_guard (buyerId \<noteq> sellerId) (badRequest ''You cannot message yourself'')) (\<lambda>_.
     tx_bind (isBlockedPair buyerId sellerId) (\<lambda>blocked.
     tx_bind (tx_guard (\<not> blocked) messagingBlocked) (\<lambda>_.
     tx_bind (tx_gets (\<lambda>s. find (lookupConversation buyerId sellerId productId) (conversations (md_db s)))) (\<lambda>existing.
     case existing of
       Some c \<Rightarrow> tx_return (cv_id c, True)
     | None \<Rightarrow>
         tx_bind (onDb (gen_random_uuid env)) (\<lambda>i.
         tx_bind (onDb (tx_modify (conversations_update (\<lambda>cs. cs @ [\<lparr>cv_id = i, cv_buyer = buyerId, cv_seller = sellerId,
           cv_product = productId, cv_order = None\<rparr>])))) (\<lambda>_.
         tx_return (i, False)))))))"

definition getOrCreateDirectConversation :: "env \<Rightarrow> uuid \<Rightarrow> uuid \<Rightarrow> (uuid \<times> bool) mediatx" where
  "getOrCreateDirectConversation env buyerId sellerId = getOrCreateConversation env buyerId sellerId None"

definition startDirectConversation :: "env \<Rightarrow> uuid \<Rightarrow> uuid \<Rightarrow> (uuid \<times> bool) mediatx" where
  "startDirectConversation env me userId =
     tx_bind (tx_guard (userId \<noteq> me) (badRequest ''You cannot message yourself'')) (\<lambda>_.
     tx_bind (tx_gets (\<lambda>s. case t_find u_id userId (users (md_db s)) of None \<Rightarrow> False | Some u \<Rightarrow> \<not> u_banned u)) (\<lambda>found.
     tx_bind (tx_guard found (notFound ''User not found'')) (\<lambda>_.
     getOrCreateDirectConversation env me userId)))"

definition markConversationRead :: "time \<Rightarrow> uuid \<Rightarrow> uuid \<Rightarrow> unit mediatx" where
  "markConversationRead now conversationId userId =
     tx_bind (tx_gets (\<lambda>s. case t_find cv_id conversationId (conversations (md_db s)) of
         None \<Rightarrow> False | Some c \<Rightarrow> cv_buyer c = userId \<or> cv_seller c = userId)) (\<lambda>party.
     tx_when party (tx_modify (md_read_update (\<lambda>marks.
       ((conversationId, userId), now) # filter (\<lambda>mark. fst mark \<noteq> (conversationId, userId)) marks))))"

section \<open>Sending\<close>

record SendInput =
  si_conversation :: uuid
  si_sender :: uuid
  si_client_id :: uuid
  si_body :: string
  si_upload :: "uuid option"

record SendMessageResult =
  sm_message :: chat_row
  sm_created :: bool

definition findMessageByClientId :: "uuid \<Rightarrow> uuid \<Rightarrow> media \<Rightarrow> chat_row option" where
  "findMessageByClientId senderId clientMessageId s =
     find (\<lambda>m. ch_sender m = Some senderId \<and> ch_client_id m = Some clientMessageId) (md_chat s)"

definition verifyMessageReplay :: "chat_row \<Rightarrow> SendInput \<Rightarrow> string \<Rightarrow> SendMessageResult result" where
  "verifyMessageReplay existing input body =
     (if ch_conversation existing \<noteq> si_conversation input \<or> ch_body existing \<noteq> body \<or> ch_attachment existing \<noteq> si_upload input
      then Inl (ApiError 409 ''This client message ID was already used with different content'' ''client_message_id_reused'')
      else Inr \<lparr>sm_message = existing, sm_created = False\<rparr>)"

text \<open>The attachment of a message, attached in the same transaction, under the unique index of the column.\<close>

definition attachUpload :: "time \<Rightarrow> uuid \<Rightarrow> uuid option \<Rightarrow> uuid option mediatx" where
  "attachUpload now userId upload = (case upload of
       None \<Rightarrow> tx_return None
     | Some i \<Rightarrow> tx_bind (attachStorageObject now i userId ChatAttachment) (\<lambda>attached. tx_return (Some (so_id attached))))"

definition insertMessage :: "env \<Rightarrow> time \<Rightarrow> SendInput \<Rightarrow> string \<Rightarrow> uuid option \<Rightarrow> chat_row mediatx" where
  "insertMessage env now input body attachment =
     tx_bind (onDb (gen_random_uuid env)) (\<lambda>i.
     tx_bind (tx_gets (\<lambda>s. attachment \<noteq> None \<and> list_ex (\<lambda>m. ch_attachment m = attachment) (md_chat s))) (\<lambda>taken.
     tx_bind (tx_guard (\<not> taken) (PgError ''23505'')) (\<lambda>_.
     let row = \<lparr>ch_id = i, ch_conversation = si_conversation input, ch_sender = Some (si_sender input),
         ch_client_id = Some (si_client_id input), ch_body = body, ch_attachment = attachment, ch_created_at = now, ch_hidden = False\<rparr> in
     tx_bind (tx_modify (md_chat_update (\<lambda>rows. rows @ [row]))) (\<lambda>_. tx_return row))))"

definition sendTx :: "env \<Rightarrow> time \<Rightarrow> SendInput \<Rightarrow> string \<Rightarrow> SendMessageResult mediatx" where
  "sendTx env now input body =
     tx_bind (tx_gets (findMessageByClientId (si_sender input) (si_client_id input))) (\<lambda>lockedReplay.
     case lockedReplay of
       Some existing \<Rightarrow> tx_lift (verifyMessageReplay existing input body)
     | None \<Rightarrow>
         tx_bind (attachUpload now (si_sender input) (si_upload input)) (\<lambda>attachment.
         tx_bind (insertMessage env now input body attachment) (\<lambda>row.
         tx_bind (onDb (enqueueDomainEvent env now \<lparr>oi_key = ''message.created:'' @ ch_id row, oi_type = ''message.created'',
           oi_aggregate_type = ''message'', oi_aggregate_id = ch_id row, oi_payload = JObj [(''messageId'', JStr (ch_id row))]\<rparr>)) (\<lambda>_.
         tx_return \<lparr>sm_message = row, sm_created = True\<rparr>))))"

definition sendMessageIdempotently :: "env \<Rightarrow> time \<Rightarrow> SendInput \<Rightarrow> SendMessageResult mediatx" where
  "sendMessageIdempotently env now input =
     (let body = js_trim (si_body input) in
      tx_bind (tx_guard (\<not> (length body < 1 \<or> 3000 < length body)) (badRequest ''Invalid message'')) (\<lambda>_.
      tx_bind (assertCanSendMessage now (si_conversation input) (si_sender input)) (\<lambda>_.
      tx_bind (tx_gets (findMessageByClientId (si_sender input) (si_client_id input))) (\<lambda>replay.
      case replay of
        Some existing \<Rightarrow> tx_lift (verifyMessageReplay existing input body)
      | None \<Rightarrow> mediaTx (sendTx env now input body)))))"

section \<open>Dispute messages\<close>

text \<open>The insert checks the length of the text; \<open>micros\<close> are the microseconds of the clock below the millisecond.\<close>

definition canReviewDisputes :: "Role \<Rightarrow> bool" where
  "canReviewDisputes role \<longleftrightarrow> role = RAdmin \<or> role = RModerator"

definition getDisputeAccess :: "uuid \<Rightarrow> uuid \<Rightarrow> Role \<Rightarrow> dispute_row mediatx" where
  "getDisputeAccess disputeId userId role =
     tx_bind (tx_gets (\<lambda>s. case t_find d_id disputeId (disputes (md_db s)) of
         None \<Rightarrow> None
       | Some d \<Rightarrow> map_option (Pair d) (t_find o_id (d_order d) (orders (md_db s))))) (\<lambda>found.
     tx_bind (tx_some found (notFound ''Dispute not found'')) (\<lambda>(d, ord).
     tx_bind (tx_guard (\<not> (\<not> canReviewDisputes role \<and> o_buyer ord \<noteq> userId \<and> o_seller ord \<noteq> userId)) (forbidden ''Forbidden'')) (\<lambda>_.
     tx_return d)))"

definition assertDisputeAttachmentAccess :: "uuid \<Rightarrow> uuid \<Rightarrow> Role \<Rightarrow> unit mediatx" where
  "assertDisputeAttachmentAccess disputeId userId role = tx_bind (getDisputeAccess disputeId userId role) (\<lambda>_. tx_return ())"

definition createDisputeMessage :: "env \<Rightarrow> time \<Rightarrow> int \<Rightarrow> uuid \<Rightarrow> uuid \<Rightarrow> Role \<Rightarrow> string \<Rightarrow> uuid option \<Rightarrow> uuid mediatx" where
  "createDisputeMessage env now micros disputeId userId role body upload = mediaTx (
     tx_bind (getDisputeAccess disputeId userId role) (\<lambda>dispute.
     tx_bind (tx_guard (d_status dispute \<noteq> DResolved) (badRequest ''Resolved disputes do not accept new messages'')) (\<lambda>_.
     tx_bind (attachUpload now userId upload) (\<lambda>attachment.
     tx_bind (onDb (gen_random_uuid env)) (\<lambda>i.
     tx_bind (tx_guard (1 \<le> length (js_trim body) \<and> length (js_trim body) \<le> 5000) (PgError ''23514'')) (\<lambda>_.
     tx_bind (tx_gets (\<lambda>s. attachment \<noteq> None \<and> list_ex (\<lambda>m. dm_attachment m = attachment) (md_dispute_chat s))) (\<lambda>taken.
     tx_bind (tx_guard (\<not> taken) (PgError ''23505'')) (\<lambda>_.
     tx_bind (tx_modify (md_dispute_chat_update (\<lambda>rows. rows @ [\<lparr>dm_id = i, dm_dispute = disputeId, dm_author = userId,
       dm_body = js_trim body, dm_attachment = attachment, dm_created_at = now, dm_micros = micros, dm_hidden = False\<rparr>]))) (\<lambda>_.
     tx_return i)))))))))"

definition hideDisputeMessage :: "uuid \<Rightarrow> uuid \<Rightarrow> uuid \<Rightarrow> Role \<Rightarrow> unit mediatx" where
  "hideDisputeMessage disputeId messageId adminId role =
     tx_bind (tx_guard (role = RAdmin) (forbidden ''Forbidden'')) (\<lambda>_.
     tx_bind (getDisputeAccess disputeId adminId role) (\<lambda>_.
     tx_bind (tx_gets (\<lambda>s. list_ex (\<lambda>m. dm_id m = messageId \<and> dm_dispute m = disputeId) (md_dispute_chat s))) (\<lambda>found.
     tx_bind (tx_guard found (notFound ''Dispute message not found'')) (\<lambda>_.
     tx_modify (md_dispute_chat_update (map (\<lambda>m.
       if dm_id m = messageId \<and> dm_dispute m = disputeId then m\<lparr>dm_hidden := True\<rparr> else m)))))))"

section \<open>Reading attachments\<close>

definition getPublicStorageObject :: "(StorageObject \<Rightarrow> bool) \<Rightarrow> StorageObject mediatx" where
  "getPublicStorageObject wanted =
     tx_bind (tx_gets (\<lambda>s. find (\<lambda>obj. wanted obj \<and> isPublicStoragePurpose (so_purpose obj) \<and> so_status obj = Attached \<and>
       (so_purpose obj \<noteq> CatalogAsset \<or> publicCatalogAssetBindingExists s obj)) (md_objects s))) (\<lambda>found.
     tx_some found (notFound ''Media not found''))"

definition getPublicStorageObjectById :: "uuid \<Rightarrow> StorageObject mediatx" where
  "getPublicStorageObjectById i = getPublicStorageObject (\<lambda>obj. so_id obj = i)"

definition getLegacyPublicStorageObjectByKey :: "string \<Rightarrow> StorageObject mediatx" where
  "getLegacyPublicStorageObjectByKey objectKey = getPublicStorageObject (\<lambda>obj. so_key obj = objectKey)"

definition getProtectedStorageObjectById :: "uuid \<Rightarrow> StorageObject mediatx" where
  "getProtectedStorageObjectById i =
     tx_bind (tx_gets (\<lambda>s. find (\<lambda>obj. so_id obj = i \<and> (so_status obj = Temporary \<or> so_status obj = Attached)) (md_objects s))) (\<lambda>found.
     tx_some found (notFound ''Media not found''))"

datatype BindingKind = InConversation | InDispute

record StorageAttachmentBinding =
  sb_kind :: BindingKind
  sb_context :: uuid
  sb_hidden :: bool
  sb_review :: "uuid option"

text \<open>The latest dispute of the order a conversation is about.\<close>

definition reviewDispute :: "uuid \<Rightarrow> media \<Rightarrow> uuid option" where
  "reviewDispute conversationId s = (case t_find cv_id conversationId (conversations (md_db s)) of
       Some c \<Rightarrow> (case cv_order c of
           Some ord \<Rightarrow> map_option d_id (find (\<lambda>_. True) (rev (sort_key (\<lambda>d. (d_created_at d, d_id d))
             (filter (\<lambda>d. d_order d = ord) (disputes (md_db s))))))
         | None \<Rightarrow> None)
     | None \<Rightarrow> None)"

definition attachmentBindings :: "uuid \<Rightarrow> media \<Rightarrow> StorageAttachmentBinding list" where
  "attachmentBindings i s =
     map (\<lambda>m. \<lparr>sb_kind = InConversation, sb_context = ch_conversation m, sb_hidden = ch_hidden m,
         sb_review = reviewDispute (ch_conversation m) s\<rparr>) (filter (\<lambda>m. ch_attachment m = Some i) (md_chat s)) @
     map (\<lambda>m. \<lparr>sb_kind = InDispute, sb_context = dm_dispute m, sb_hidden = dm_hidden m, sb_review = Some (dm_dispute m)\<rparr>)
       (filter (\<lambda>m. dm_attachment m = Some i) (md_dispute_chat s))"

definition getStorageAttachmentBinding :: "uuid \<Rightarrow> StorageAttachmentBinding mediatx" where
  "getStorageAttachmentBinding i =
     tx_bind (tx_gets (attachmentBindings i)) (\<lambda>rows.
     case rows of
       [] \<Rightarrow> tx_throw (notFound ''Media not found'')
     | [binding] \<Rightarrow> tx_return binding
     | _ \<Rightarrow> tx_throw (serviceUnavailable ''Media is temporarily unavailable''))"

definition hideAttachmentLookupFailure :: "err \<Rightarrow> unit mediatx" where
  "hideAttachmentLookupFailure e = tx_throw (case e of
       ApiError st _ _ \<Rightarrow> if st = 403 \<or> st = 404 then notFound ''Media not found'' else e
     | _ \<Rightarrow> e)"

definition conversationReadAccess :: "StorageAttachmentBinding \<Rightarrow> uuid \<Rightarrow> Role \<Rightarrow> unit mediatx" where
  "conversationReadAccess binding userId role =
     tx_catch (tx_bind (assertConversationAccess (sb_context binding) userId role) (\<lambda>_. tx_return ()))
       (\<lambda>e. case e of
          ApiError st _ _ \<Rightarrow> (case sb_review binding of
              Some d \<Rightarrow> if st = 403 \<and> role = RModerator then assertDisputeAttachmentAccess d userId role else tx_throw e
            | None \<Rightarrow> tx_throw e)
        | _ \<Rightarrow> tx_throw e)"

definition assertProtectedReadAccess :: "StorageObject \<Rightarrow> uuid \<Rightarrow> Role \<Rightarrow> unit mediatx" where
  "assertProtectedReadAccess object userId role =
     (let hidden = notFound ''Media not found'' in
      if so_status object = Temporary then tx_guard (so_owner object = userId) hidden
      else if so_purpose object = CatalogAsset then tx_guard (\<not> (role \<noteq> RAdmin \<or> so_owner object \<noteq> userId)) hidden
      else if \<not> isPrivateStoragePurpose (so_purpose object) then tx_throw hidden
      else
        tx_bind (getStorageAttachmentBinding (so_id object)) (\<lambda>binding.
        tx_bind (tx_guard (\<not> (sb_hidden binding \<and> role \<noteq> RAdmin)) hidden) (\<lambda>_.
        tx_catch
          (case sb_kind binding of
             InConversation \<Rightarrow> conversationReadAccess binding userId role
           | InDispute \<Rightarrow> assertDisputeAttachmentAccess (sb_context binding) userId role)
          hideAttachmentLookupFailure)))"

text \<open>\<open>GET /private/:storageObjectId\<close> up to the body, and the upload and attach routes.\<close>

definition privateMediaRoute :: "uuid \<Rightarrow> uuid \<Rightarrow> Role \<Rightarrow> StorageObject mediatx" where
  "privateMediaRoute i userId role =
     tx_bind (getProtectedStorageObjectById i) (\<lambda>object.
     tx_bind (assertProtectedReadAccess object userId role) (\<lambda>_. tx_return object))"

definition attachCatalogAssetRoute :: "time \<Rightarrow> uuid \<Rightarrow> Role \<Rightarrow> uuid \<Rightarrow> UploadDto mediatx" where
  "attachCatalogAssetRoute now userId role uploadId =
     tx_bind (tx_guard (role = RAdmin) (forbidden ''Forbidden'')) (\<lambda>_.
     tx_bind (mediaTx (attachStorageObject now uploadId userId CatalogAsset)) (\<lambda>object.
     tx_return (toUploadDto object)))"

section \<open>Pages\<close>

type_synonym cursor = "time \<times> uuid"

definition buildLookaheadNextCursor :: "(chat_row \<Rightarrow> cursor) \<Rightarrow> chat_row list \<Rightarrow> nat \<Rightarrow> cursor option" where
  "buildLookaheadNextCursor key rows limit = (if length rows \<le> limit then None else Some (key (rows ! (limit - 1))))"

text \<open>A message as a viewer sees it: a hidden one shows a fixed text, here \<open>None\<close>, to all but administrators.\<close>

record MessageView =
  vw_id :: uuid
  vw_sender :: "uuid option"
  vw_body :: "string option"
  vw_attachment :: "uuid option"
  vw_hidden :: bool

definition viewMessage :: "bool \<Rightarrow> chat_row \<Rightarrow> MessageView" where
  "viewMessage viewerIsAdmin m = \<lparr>vw_id = ch_id m, vw_sender = ch_sender m,
     vw_body = (if ch_hidden m \<and> \<not> viewerIsAdmin then None else Some (ch_body m)),
     vw_attachment = (if ch_hidden m \<and> \<not> viewerIsAdmin then None else ch_attachment m), vw_hidden = ch_hidden m\<rparr>"

definition message_key :: "chat_row \<Rightarrow> cursor" where
  "message_key m = (ch_created_at m, ch_id m)"

definition newestFirst :: "chat_row list \<Rightarrow> chat_row list" where
  "newestFirst rows = rev (sort_key message_key rows)"

definition getMessagePage ::
  "uuid \<Rightarrow> int option \<Rightarrow> cursor option \<Rightarrow> time option \<Rightarrow> bool \<Rightarrow> media \<Rightarrow> MessageView list \<times> cursor option" where
  "getMessagePage conversationId limitOpt cursor before viewerIsAdmin s =
     (let limit = nat (min (max (case limitOpt of Some n \<Rightarrow> n | None \<Rightarrow> 50) 1) 200);
          inPage = (\<lambda>m. ch_conversation m = conversationId \<and> (case cursor of
              Some c \<Rightarrow> message_key m < c
            | None \<Rightarrow> (case before of Some t \<Rightarrow> ch_created_at m < t | None \<Rightarrow> True)));
          rows = take (limit + 1) (newestFirst (filter inPage (md_chat s))) in
      (map (viewMessage viewerIsAdmin) (rev (take limit rows)), buildLookaheadNextCursor message_key rows limit))"

text \<open>
  The messages of a dispute. Their page asks for no row more, and its cursor is the JavaScript date of the last one,
  which has lost the microseconds.
\<close>

definition buildNextCursor :: "('r \<Rightarrow> 'c) \<Rightarrow> 'r list \<Rightarrow> nat \<Rightarrow> 'c option" where
  "buildNextCursor key rows limit = (if length rows < limit then None else Some (key (last rows)))"

definition dispute_key :: "dispute_message_row \<Rightarrow> time \<times> int \<times> uuid" where
  "dispute_key m = (dm_created_at m, dm_micros m, dm_id m)"

definition dispute_date_key :: "dispute_message_row \<Rightarrow> time \<times> int \<times> uuid" where
  "dispute_date_key m = (dm_created_at m, 0, dm_id m)"

definition disputePage ::
  "uuid \<Rightarrow> int option \<Rightarrow> (time \<times> int \<times> uuid) option \<Rightarrow> bool \<Rightarrow> media \<Rightarrow>
     dispute_message_row list \<times> (time \<times> int \<times> uuid) option" where
  "disputePage disputeId limitOpt cursor isAdmin s =
     (let limit = nat (min (max (case limitOpt of Some n \<Rightarrow> n | None \<Rightarrow> 50) 1) 100);
          inPage = (\<lambda>m. dm_dispute m = disputeId \<and> (isAdmin \<or> \<not> dm_hidden m) \<and>
            (case cursor of Some c \<Rightarrow> dispute_key m < c | None \<Rightarrow> True));
          rows = take limit (rev (sort_key dispute_key (filter inPage (md_dispute_chat s)))) in
      (rev rows, buildNextCursor dispute_date_key rows limit))"

definition listDisputeMessagePage ::
  "uuid \<Rightarrow> uuid \<Rightarrow> Role \<Rightarrow> int option \<Rightarrow> (time \<times> int \<times> uuid) option \<Rightarrow>
     (dispute_message_row list \<times> (time \<times> int \<times> uuid) option) mediatx" where
  "listDisputeMessagePage disputeId userId role limit cursor =
     tx_bind (getDisputeAccess disputeId userId role) (\<lambda>_.
     tx_gets (disputePage disputeId limit cursor (role = RAdmin)))"

definition messagesRoute ::
  "time \<Rightarrow> uuid \<Rightarrow> Role \<Rightarrow> uuid \<Rightarrow> int option \<Rightarrow> cursor option \<Rightarrow> time option \<Rightarrow> (MessageView list \<times> cursor option) mediatx" where
  "messagesRoute now userId role conversationId limit cursor before =
     tx_bind (assertConversationAccess conversationId userId role) (\<lambda>_.
     tx_bind (tx_gets (getMessagePage conversationId limit cursor before (role = RAdmin))) (\<lambda>page.
     tx_bind (markConversationRead now conversationId userId) (\<lambda>_.
     tx_return page)))"

end
