(* ===== verification/StorageSafety.thy ===== *)
theory StorageSafety
  imports Storage Sample
begin

text \<open>
  What holds of uploads, deletion intents and physical objects under every interleaving of their
  transactions and statements: the quotas, the row behind each physical object, and what the cleanup
  repairs. One interleaving of a late write with a deletion is shown to lose an object.
\<close>

section \<open>Steps that delete nothing\<close>

text \<open>The columns no statement changes after the insert.\<close>

definition fixed_part :: "StorageObject \<Rightarrow> uuid \<times> uuid \<times> string \<times> StorageDriver \<times> StoragePurpose \<times> int \<times> time" where
  "fixed_part obj = (so_id obj, so_owner obj, so_key obj, so_driver obj, so_purpose obj, so_size obj, so_created_at obj)"

lemma fixed_part_eq:
  "fixed_part a = fixed_part b \<longleftrightarrow> so_id a = so_id b \<and> so_owner a = so_owner b \<and> so_key a = so_key b \<and> so_driver a = so_driver b \<and>
     so_purpose a = so_purpose b \<and> so_size a = so_size b \<and> so_created_at a = so_created_at b"
  by (simp add: fixed_part_def)

definition calm_row :: "StorageObject \<Rightarrow> StorageObject \<Rightarrow> bool" where
  "calm_row a b \<longleftrightarrow> fixed_part a = fixed_part b \<and> (so_status b = Deleted \<longleftrightarrow> so_status a = Deleted) \<and>
     (so_status b = Quarantined \<longrightarrow> so_status a = Quarantined)"

definition calm :: "media \<Rightarrow> media \<Rightarrow> bool" where
  "calm s t \<longleftrightarrow> list_all2 calm_row (md_objects s) (md_objects t) \<and> md_files t = md_files s"

lemma calm_row_refl: "calm_row a a"
  by (simp add: calm_row_def)

lemma calm_row_trans: "calm_row a b \<Longrightarrow> calm_row b c \<Longrightarrow> calm_row a c"
  by (auto simp: calm_row_def)

lemma calm_refl: "calm s s"
  by (simp add: calm_def list_all2_refl calm_row_refl)

interpretation calm: frame calm
proof
  show "calm s s" for s by (rule calm_refl)
  show "calm s u" if "calm s t" "calm t u" for s t u
    using that list_all2_trans [of calm_row calm_row calm_row, OF calm_row_trans]
    by (auto simp: calm_def)
qed

lemma calm_t_upd:
  assumes "\<And>obj. obj \<in> set (md_objects s) \<Longrightarrow> so_id obj = i \<Longrightarrow> calm_row obj (f obj)"
  shows "calm s (md_objects_update (t_upd so_id i f) s)"
  using assms by (auto simp: calm_def t_upd_def list_all2_map2 calm_row_refl intro!: list_all2_all_nthI)

lemma calm_untouched: "md_objects (f s) = md_objects s \<Longrightarrow> md_files (f s) = md_files s \<Longrightarrow> calm s (f s)"
  using calm_refl [of s] by (simp add: calm_def)

lemma calm_onDb: "frame.keeps calm (onDb m)"
  unfolding calm.keeps_def onDb_def
  by (clarsimp split: prod.splits) (rule calm_untouched, simp_all)

lemma calm_mediaTx: "frame.keeps calm m \<Longrightarrow> frame.keeps calm (mediaTx m)"
  unfolding calm.keeps_def mediaTx_def
  by (force simp: media_rollback_def calm_def list_all2_refl calm_row_refl split: prod.splits sum.splits)

lemmas calm_intros = calm.keeps_intros calm_onDb calm_mediaTx

lemma calm_objects:
  "(\<And>s. calm s (md_objects_update (t_upd so_id i f) s)) \<Longrightarrow> frame.keeps calm (tx_modify (md_objects_update (t_upd so_id i f)))"
  by (rule calm.keeps_modify)

lemma calm_finalizeUpload: "frame.keeps calm (finalizeUpload i)"
  unfolding finalizeUpload_def
  by (intro calm_intros calm_t_upd) (auto simp: calm_row_def fixed_part_def)

lemma calm_attachStorageObject: "frame.keeps calm (attachStorageObject now i u p)"
  unfolding attachStorageObject_def
  by (intro calm_intros calm_t_upd) (auto simp: calm_row_def fixed_part_def)

lemma calm_case_list: "frame.keeps calm m \<Longrightarrow> (\<And>x xs. frame.keeps calm (f x xs)) \<Longrightarrow>
    frame.keeps calm (case l of [] \<Rightarrow> m | x # xs \<Rightarrow> f x xs)"
  by (cases l) simp_all

lemma calm_enqueueStorageDeletion: "frame.keeps calm (enqueueStorageDeletion cfg now upd False k i)"
  unfolding enqueueStorageDeletion_def
  by (intro calm_intros calm_case_list calm_t_upd) (auto simp: calm_row_def fixed_part_def)

lemma calm_cleanupOne: "frame.keeps calm (cleanupOne cfg now upd h fault i)"
  unfolding cleanupOne_def
  by (intro calm_intros calm_enqueueStorageDeletion)

section \<open>The system\<close>

text \<open>
  The clock, the state, the uploads whose physical write has been tried and which have neither been finalised nor
  recovered since, and for each user the bytes that recoveries have reopened after their deletion.
\<close>

record storage_sys =
  sy_now :: time
  sy_media :: media
  sy_written :: "uuid set"
  sy_reopened :: "uuid \<Rightarrow> int"

definition reopening :: "uuid \<Rightarrow> media \<Rightarrow> uuid \<Rightarrow> int" where
  "reopening i s u = t_sum (\<lambda>obj. if so_id obj = i \<and> so_owner obj = u \<and> so_status obj = Deleted then so_size obj else 0) (md_objects s)"

text \<open>
  Every transaction and statement of \<open>storage.service.ts\<close>, in any order and for any object; the handler of a deletion
  runs as one step here. \<open>elsewhere\<close> is whatever the rest of the backend does.
\<close>

inductive storage_step :: "storage_env \<Rightarrow> storage_sys \<Rightarrow> storage_sys \<Rightarrow> bool" for cfg where
  later: "sy_now c \<le> n \<Longrightarrow> storage_step cfg c (c\<lparr>sy_now := n\<rparr>)"
| reserve: "reserveUpload cfg (sy_now c) u key purpose img (sy_media c) = (r, m) \<Longrightarrow> storage_step cfg c (c\<lparr>sy_media := m\<rparr>)"
| put: "t_find so_id i (md_objects (sy_media c)) = Some obj \<Longrightarrow>
    writePhysicalObject cfg fate (so_driver obj) (so_key obj) (sy_media c) = (r, m) \<Longrightarrow>
    storage_step cfg c (c\<lparr>sy_media := m, sy_written := insert i (sy_written c)\<rparr>)"
| finalize: "finalizeUpload i (sy_media c) = (r, m) \<Longrightarrow>
    storage_step cfg c (c\<lparr>sy_media := m, sy_written := (if isl r then sy_written c else sy_written c - {i})\<rparr>)"
| recover: "recoverUpload cfg (sy_now c) upd None i (sy_media c) = (r, m) \<Longrightarrow>
    storage_step cfg c (c\<lparr>sy_media := m, sy_written := sy_written c - {i},
      sy_reopened := (\<lambda>u. sy_reopened c u + reopening i (sy_media c) u)\<rparr>)"
| attach: "attachStorageObject (sy_now c) i u purpose (sy_media c) = (r, m) \<Longrightarrow> storage_step cfg c (c\<lparr>sy_media := m\<rparr>)"
| detach: "enqueueStorageDeletion cfg (sy_now c) upd False key i (sy_media c) = (r, m) \<Longrightarrow> storage_step cfg c (c\<lparr>sy_media := m\<rparr>)"
| cleanup: "cleanupOne cfg (sy_now c) upd h fault i (sy_media c) = (r, m) \<Longrightarrow> storage_step cfg c (c\<lparr>sy_media := m\<rparr>)"
| deliver: "deleteStorageObject cfg (sy_now c) fate i (sy_media c) = (r, m) \<Longrightarrow> storage_step cfg c (c\<lparr>sy_media := m\<rparr>)"
| elsewhere: "md_objects m = md_objects (sy_media c) \<Longrightarrow> md_files m = md_files (sy_media c) \<Longrightarrow> storage_step cfg c (c\<lparr>sy_media := m\<rparr>)"

definition storage_init :: "storage_sys \<Rightarrow> bool" where
  "storage_init c \<longleftrightarrow> md_objects (sy_media c) = [] \<and> md_files (sy_media c) = [] \<and> sy_reopened c = (\<lambda>_. 0)"

text \<open>What a user had uploaded in the day up to \<open>t\<close>.\<close>

definition window :: "uuid \<Rightarrow> time \<Rightarrow> StorageObject list \<Rightarrow> int" where
  "window u t rows = t_sum (\<lambda>obj. if so_owner obj = u \<and> t - DAY_MS < so_created_at obj \<and> so_created_at obj \<le> t then so_size obj else 0) rows"

definition accounted :: "uuid set \<Rightarrow> media \<Rightarrow> bool" where
  "accounted W s \<longleftrightarrow> (\<forall>f\<in>set (md_files s). \<exists>obj\<in>set (md_objects s). f = (so_driver obj, so_key obj) \<and>
     (so_status obj = Deleted \<longrightarrow> so_id obj \<in> W))"

definition rows_sound :: "time \<Rightarrow> StorageObject list \<Rightarrow> bool" where
  "rows_sound now rows \<longleftrightarrow> distinct (map so_id rows) \<and> distinct (map so_key rows) \<and>
     (\<forall>obj\<in>set rows. so_created_at obj \<le> now \<and> 0 < so_size obj \<and> so_status obj \<noteq> Quarantined)"

definition sys_ok :: "storage_env \<Rightarrow> storage_sys \<Rightarrow> bool" where
  "sys_ok cfg c \<longleftrightarrow> rows_sound (sy_now c) (md_objects (sy_media c)) \<and> accounted (sy_written c) (sy_media c) \<and>
     (\<forall>u t. window u t (md_objects (sy_media c)) \<le> max 0 (STORAGE_DAILY_UPLOAD_BYTES_PER_USER cfg)) \<and>
     (\<forall>u. 0 \<le> sy_reopened c u \<and> totalBytes u (md_objects (sy_media c)) \<le> max 0 (STORAGE_TOTAL_QUOTA_BYTES_PER_USER cfg) + sy_reopened c u)"

section \<open>What each operation does to the rows\<close>

lemma mediaTx_Inr: "mediaTx m s = (Inr x, t) \<longleftrightarrow> m s = (Inr x, t)"
  by (auto simp: mediaTx_def split: prod.splits sum.splits)

lemma mediaTx_Inl: "mediaTx m s = (Inl e, t) \<Longrightarrow> \<exists>t'. m s = (Inl e, t') \<and> t = media_rollback s t'"
  by (auto simp: mediaTx_def split: prod.splits sum.splits)

lemma reserveUpload_Inr:
  assumes "reserveUpload cfg now u key purpose img s = (Inr row, t)"
  shows "md_objects t = md_objects s @ [row] \<and> md_files t = md_files s \<and> so_owner row = u \<and> so_created_at row = now \<and>
    so_status row = Uploading \<and> 0 < so_size row \<and> so_id row \<notin> so_id ` set (md_objects s) \<and> so_key row \<notin> so_key ` set (md_objects s) \<and>
    dailyBytes u now (md_objects s) + so_size row \<le> STORAGE_DAILY_UPLOAD_BYTES_PER_USER cfg \<and>
    totalBytes u (md_objects s) + so_size row \<le> STORAGE_TOTAL_QUOTA_BYTES_PER_USER cfg"
  using assms
  by (auto simp: reserveUpload_def mediaTx_Inr assertUploadQuota_def insertUpload_def tx_simps onDb_def gen_random_uuid_def Let_def
      t_find_None_iff split: prod.splits)

lemma reserveUpload_Inl:
  assumes "reserveUpload cfg now u key purpose img s = (Inl e, t)"
  shows "md_objects t = md_objects s \<and> md_files t = md_files s"
proof -
  obtain t' where t': "tx_bind (assertUploadQuota cfg now u purpose (int (length (pi_buffer img)))) (\<lambda>_.
      insertUpload cfg now u key purpose img) s = (Inl e, t')" "t = media_rollback s t'"
    using mediaTx_Inl [OF assms [unfolded reserveUpload_def]] by blast
  have "md_files t' = md_files s"
    using t'(1) by (auto simp: assertUploadQuota_def insertUpload_def tx_errs tx_simps onDb_def gen_random_uuid_def Let_def
      split: prod.splits)
  then show ?thesis using t'(2) by (simp add: media_rollback_def)
qed

lemma finalizeUpload_Inr:
  assumes "finalizeUpload i s = (Inr x, t)"
  shows "\<exists>obj. t_find so_id i (md_objects s) = Some obj \<and> so_status obj = Uploading \<and>
    md_objects t = t_upd so_id i (\<lambda>obj. if so_status obj = Uploading then obj\<lparr>so_status := Temporary\<rparr> else obj) (md_objects s)"
  using assms by (auto simp: finalizeUpload_def tx_simps split: option.splits if_splits)

lemma writePhysicalObject_result:
  assumes "writePhysicalObject cfg fate d k s = (r, t)"
  shows "md_objects t = md_objects s \<and> set (md_files t) \<subseteq> insert (d, k) (set (md_files s))"
  using assms by (auto simp: writePhysicalObject_def tx_defs Let_def split: io_fate.splits if_splits)

lemma enqueueStorageDeletion_marks:
  "\<exists>x t. enqueueStorageDeletion cfg now upd reopen k i s = (Inr x, t) \<and> md_files t = md_files s \<and>
     md_objects t = (if \<exists>obj. t_find so_id i (md_objects s) = Some obj \<and> (so_status obj \<noteq> Deleted \<or> reopen)
       then t_upd so_id i (\<lambda>obj. if so_status obj \<noteq> Deleted \<or> reopen then obj\<lparr>so_status := Deleting, so_deleted_at := None\<rparr> else obj)
         (md_objects s) else md_objects s)"
proof (cases "t_find so_id i (md_objects s)")
  case None
  then show ?thesis by (simp add: enqueueStorageDeletion_def tx_defs t_upd_absent)
next
  case (Some obj)
  obtain row d where "enqueueDomainEvent (st_env cfg) now (deleteEvent (case k of None \<Rightarrow> defaultDeleteKey i | Some k \<Rightarrow> k) i) (md_db s)
      = (Inr row, d)" using enqueueDomainEvent_Inr by blast
  with Some show ?thesis
    by (auto simp: enqueueStorageDeletion_def tx_defs onDb_def split: list.splits prod.splits)
qed

lemma recoverUpload_result:
  assumes "recoverUpload cfg now upd None i s = (r, t)"
  shows "md_files t = md_files s \<and>
    md_objects t = t_upd so_id i (\<lambda>obj. obj\<lparr>so_status := Deleting, so_deleted_at := None\<rparr>) (md_objects s)"
proof -
  obtain x t' where "enqueueStorageDeletion cfg now upd True (Some (recoveryKey i)) i s = (Inr x, t')" "md_files t' = md_files s"
     "md_objects t' = t_upd so_id i (\<lambda>obj. obj\<lparr>so_status := Deleting, so_deleted_at := None\<rparr>) (md_objects s)"
    using enqueueStorageDeletion_marks [of cfg now upd True "Some (recoveryKey i)" i s]
    by (cases "t_find so_id i (md_objects s)") (auto simp: t_upd_absent)
  with assms show ?thesis by (auto simp: recoverUpload_def tx_catch_def mediaTx_def tx_bind_def tx_return_def)
qed

lemma deleteStorageObject_result:
  assumes "deleteStorageObject cfg now fate i s = (r, t)"
  shows "(md_objects t = md_objects s \<and> set (md_files t) \<subseteq> set (md_files s)) \<or>
    (\<exists>obj. t_find so_id i (md_objects s) = Some obj \<and> set (md_files t) = set (md_files s) - {(so_driver obj, so_key obj)} \<and>
      md_objects t = t_upd so_id i (\<lambda>obj. if so_status obj \<noteq> Deleted then obj\<lparr>so_status := Deleted, so_deleted_at := Some now\<rparr> else obj)
        (md_objects s))"
  using assms
  by (auto simp: deleteStorageObject_def deletionTarget_def deletePhysicalObject_def markDeleted_def tx_defs Let_def
      split: option.splits io_fate.splits if_splits StorageDriver.splits)

section \<open>The invariant\<close>

lemma t_sum_all2: "list_all2 R xs ys \<Longrightarrow> (\<And>a b. R a b \<Longrightarrow> a \<in> set xs \<Longrightarrow> g a = g b) \<Longrightarrow> t_sum g ys = t_sum g xs"
  by (induction rule: list_all2_induct) auto

lemma t_sum_mono: "(\<And>r. r \<in> set rows \<Longrightarrow> g r \<le> h r) \<Longrightarrow> t_sum g rows \<le> t_sum h rows"
  by (induction rows) (auto intro: add_mono)

lemma all2_ids: "list_all2 calm_row xs ys \<Longrightarrow> map so_id ys = map so_id xs \<and> map so_key ys = map so_key xs"
  by (induction rule: list_all2_induct) (auto simp: calm_row_def fixed_part_eq)

lemma all2_member: "list_all2 R xs ys \<Longrightarrow> a \<in> set xs \<Longrightarrow> \<exists>b\<in>set ys. R a b"
  by (induction rule: list_all2_induct) auto

lemma all2_source: "list_all2 R xs ys \<Longrightarrow> b \<in> set ys \<Longrightarrow> \<exists>a\<in>set xs. R a b"
  by (induction rule: list_all2_induct) auto

lemma rows_sound_calm:
  assumes "list_all2 calm_row xs ys" "rows_sound now xs"
  shows "rows_sound now ys"
proof -
  have "so_created_at b \<le> now \<and> 0 < so_size b \<and> so_status b \<noteq> Quarantined" if member: "b \<in> set ys" for b
  proof -
    obtain a where "a \<in> set xs" "calm_row a b" using all2_source [OF assms(1) member] by blast
    then show ?thesis using assms(2) by (auto simp: rows_sound_def calm_row_def fixed_part_eq)
  qed
  then show ?thesis using all2_ids [OF assms(1)] assms(2) by (simp add: rows_sound_def)
qed

lemma sums_calm:
  assumes "list_all2 calm_row xs ys" "rows_sound now xs"
  shows "window u t ys = window u t xs" "totalBytes u ys = totalBytes u xs"
proof -
  show "window u t ys = window u t xs"
    unfolding window_def by (rule t_sum_all2 [OF assms(1)]) (simp add: calm_row_def fixed_part_eq)
  have "reservedStatus (so_status a) = reservedStatus (so_status b)" if "calm_row a b" "a \<in> set xs" for a b
    using that assms(2) by (cases "so_status a"; cases "so_status b") (auto simp: calm_row_def reservedStatus_def rows_sound_def)
  then show "totalBytes u ys = totalBytes u xs"
    unfolding totalBytes_def by (intro t_sum_all2 [OF assms(1)]) (auto simp: calm_row_def fixed_part_eq)
qed

lemma accountedE:
  assumes "accounted W s" "f \<in> set (md_files s)"
  obtains a where "a \<in> set (md_objects s)" "f = (so_driver a, so_key a)" "so_status a = Deleted \<longrightarrow> so_id a \<in> W"
  using assms unfolding accounted_def by blast

lemma accountedI:
  "(\<And>f. f \<in> set (md_files s) \<Longrightarrow> \<exists>a\<in>set (md_objects s). f = (so_driver a, so_key a) \<and> (so_status a = Deleted \<longrightarrow> so_id a \<in> W)) \<Longrightarrow>
   accounted W s"
  by (simp add: accounted_def)

lemma accounted_calm:
  assumes "list_all2 calm_row (md_objects s) (md_objects t)" "set (md_files t) \<subseteq> set (md_files s)" "accounted W s" "W \<subseteq> W'"
  shows "accounted W' t"
  unfolding accounted_def
proof
  fix f
  assume "f \<in> set (md_files t)"
  then have "f \<in> set (md_files s)" using assms(2) by blast
  with assms(3) obtain a where a: "a \<in> set (md_objects s)" "f = (so_driver a, so_key a)" "so_status a = Deleted \<longrightarrow> so_id a \<in> W"
    by (rule accountedE)
  obtain b where "b \<in> set (md_objects t)" "calm_row a b" using all2_member [OF assms(1) a(1)] by blast
  then show "\<exists>obj\<in>set (md_objects t). f = (so_driver obj, so_key obj) \<and> (so_status obj = Deleted \<longrightarrow> so_id obj \<in> W')"
    using a(2,3) assms(4) by (intro bexI [of _ b]) (auto simp: calm_row_def fixed_part_eq)
qed

lemma sys_ok_calm:
  assumes "sys_ok cfg c" "calm (sy_media c) m"
  shows "sys_ok cfg (c\<lparr>sy_media := m\<rparr>)"
proof -
  have all: "list_all2 calm_row (md_objects (sy_media c)) (md_objects m)" and files: "set (md_files m) \<subseteq> set (md_files (sy_media c))"
    using assms(2) by (simp_all add: calm_def)
  have sound: "rows_sound (sy_now c) (md_objects (sy_media c))" and acc: "accounted (sy_written c) (sy_media c)"
    using assms(1) by (simp_all add: sys_ok_def)
  show ?thesis
    using assms(1) rows_sound_calm [OF all sound] accounted_calm [OF all files acc subset_refl]
    by (simp add: sys_ok_def sums_calm [OF all sound])
qed

lemma sys_ok_same_rows:
  assumes "sys_ok cfg c" "md_objects m = md_objects (sy_media c)" "set (md_files m) \<subseteq> set (md_files (sy_media c))"
  shows "sys_ok cfg (c\<lparr>sy_media := m\<rparr>)"
  using assms by (auto simp: sys_ok_def accounted_def)

text \<open>A reservation opens no window wider than the one it checked.\<close>

lemma window_append:
  assumes "rows_sound now rows" "so_owner row = u" "so_created_at row = now" "0 \<le> so_size row"
    "dailyBytes u now rows + so_size row \<le> D" "window v t rows \<le> max 0 D"
  shows "window v t (rows @ [row]) \<le> max 0 D"
proof (cases "v = u \<and> t - DAY_MS < now \<and> now \<le> t")
  case False
  then show ?thesis using assms(2,3,6) by (auto simp: window_def)
next
  case True
  have "window u t rows \<le> dailyBytes u now rows"
    unfolding window_def dailyBytes_def
    by (rule t_sum_mono) (use True assms(1) in \<open>auto simp: rows_sound_def\<close>)
  moreover have "window u t (rows @ [row]) = window u t rows + so_size row" using True assms(2,3) by (simp add: window_def)
  ultimately show ?thesis using True assms(5) by auto
qed

lemma sys_ok_reserve:
  assumes ok: "sys_ok cfg c" and run: "reserveUpload cfg (sy_now c) u key purpose img (sy_media c) = (r, m)"
  shows "sys_ok cfg (c\<lparr>sy_media := m\<rparr>)"
proof (cases r)
  case (Inl e)
  then show ?thesis using sys_ok_same_rows [OF ok] reserveUpload_Inl run by simp
next
  case (Inr row)
  note R = reserveUpload_Inr [OF run [unfolded Inr]]
  let ?rows = "md_objects (sy_media c)"
  have sound: "rows_sound (sy_now c) ?rows" using ok by (simp add: sys_ok_def)
  have "rows_sound (sy_now c) (?rows @ [row])" using sound R by (auto simp: rows_sound_def)
  moreover have "accounted (sy_written c) m" using ok R by (auto simp: sys_ok_def accounted_def)
  moreover have "window v t (?rows @ [row]) \<le> max 0 (STORAGE_DAILY_UPLOAD_BYTES_PER_USER cfg)" for v t
    by (rule window_append [OF sound, of row u]) (use ok R in \<open>auto simp: sys_ok_def\<close>)
  moreover have "totalBytes v (?rows @ [row]) \<le> max 0 (STORAGE_TOTAL_QUOTA_BYTES_PER_USER cfg) + sy_reopened c v" for v
  proof -
    have "totalBytes v (?rows @ [row]) = totalBytes v ?rows + (if v = u then so_size row else 0)"
      using R by (auto simp: totalBytes_def reservedStatus_def)
    moreover have "totalBytes v ?rows \<le> max 0 (STORAGE_TOTAL_QUOTA_BYTES_PER_USER cfg) + sy_reopened c v" "0 \<le> sy_reopened c v"
      using ok by (simp_all add: sys_ok_def)
    ultimately show ?thesis using R by auto
  qed
  ultimately show ?thesis using ok R by (simp add: sys_ok_def)
qed

lemma sys_ok_put:
  assumes ok: "sys_ok cfg c" and found: "t_find so_id i (md_objects (sy_media c)) = Some obj"
    and run: "writePhysicalObject cfg fate (so_driver obj) (so_key obj) (sy_media c) = (r, m)"
  shows "sys_ok cfg (c\<lparr>sy_media := m, sy_written := insert i (sy_written c)\<rparr>)"
proof -
  have member: "obj \<in> set (md_objects (sy_media c))" "so_id obj = i" using t_find_Some [OF found] by auto
  have acc: "accounted (sy_written c) (sy_media c)" using ok by (simp add: sys_ok_def)
  have "accounted (insert i (sy_written c)) m"
  proof (intro accountedI)
    fix f
    assume "f \<in> set (md_files m)"
    then consider "f = (so_driver obj, so_key obj)" | "f \<in> set (md_files (sy_media c))"
      using writePhysicalObject_result [OF run] by blast
    then show "\<exists>a\<in>set (md_objects m). f = (so_driver a, so_key a) \<and> (so_status a = Deleted \<longrightarrow> so_id a \<in> insert i (sy_written c))"
    proof cases
      case 1
      then show ?thesis using member writePhysicalObject_result [OF run] by (intro bexI [of _ obj]) auto
    next
      case 2
      with acc obtain a where "a \<in> set (md_objects (sy_media c))" "f = (so_driver a, so_key a)" "so_status a = Deleted \<longrightarrow> so_id a \<in> sy_written c"
        by (rule accountedE)
      then show ?thesis using writePhysicalObject_result [OF run] by (intro bexI [of _ a]) auto
    qed
  qed
  then show ?thesis using ok writePhysicalObject_result [OF run] by (simp add: sys_ok_def)
qed

text \<open>Statements that set one row's status.\<close>

lemma rows_sound_upd:
  assumes "rows_sound now rows" "\<And>obj. fixed_part (f obj) = fixed_part obj" "\<And>obj. so_status obj \<noteq> Quarantined \<Longrightarrow> so_status (f obj) \<noteq> Quarantined"
  shows "rows_sound now (t_upd so_id i f rows)"
proof -
  have "map so_id (t_upd so_id i f rows) = map so_id rows" "map so_key (t_upd so_id i f rows) = map so_key rows"
    using assms(2) by (simp_all add: map_t_upd fixed_part_eq)
  moreover have "so_created_at b \<le> now \<and> 0 < so_size b \<and> so_status b \<noteq> Quarantined" if member: "b \<in> set (t_upd so_id i f rows)" for b
  proof -
    obtain a where "a \<in> set rows" "b = (if so_id a = i then f a else a)" using mem_t_upd [OF member] by blast
    then show ?thesis using assms(1) assms(2,3) [of a] by (auto simp: rows_sound_def fixed_part_eq)
  qed
  ultimately show ?thesis using assms(1) by (simp add: rows_sound_def)
qed

lemma window_upd: "(\<And>obj. fixed_part (f obj) = fixed_part obj) \<Longrightarrow> window u t (t_upd so_id i f rows) = window u t rows"
  unfolding window_def by (rule t_sum_upd_same) (simp add: fixed_part_eq)

lemma sys_ok_finalize:
  assumes ok: "sys_ok cfg c" and run: "finalizeUpload i (sy_media c) = (r, m)"
  shows "sys_ok cfg (c\<lparr>sy_media := m, sy_written := (if isl r then sy_written c else sy_written c - {i})\<rparr>)"
proof -
  have "calm (sy_media c) m" by (rule calm.keepsD [OF calm_finalizeUpload run])
  then have base: "sys_ok cfg (c\<lparr>sy_media := m\<rparr>)" by (rule sys_ok_calm [OF ok])
  have "accounted (sy_written c - {i}) m" if returned: "\<not> isl r"
  proof -
    obtain obj where obj: "t_find so_id i (md_objects (sy_media c)) = Some obj" "so_status obj = Uploading"
      and m: "md_objects m = t_upd so_id i (\<lambda>obj. if so_status obj = Uploading then obj\<lparr>so_status := Temporary\<rparr> else obj) (md_objects (sy_media c))"
      using returned run finalizeUpload_Inr [of i "sy_media c"] by (cases r) auto
    have "t_find so_id i (md_objects m) = Some (obj\<lparr>so_status := Temporary\<rparr>)" using obj by (simp add: m t_find_upd)
    moreover have "distinct (map so_id (md_objects m))" using base by (simp add: sys_ok_def rows_sound_def)
    ultimately have temp: "so_status b = Temporary" if "b \<in> set (md_objects m)" "so_id b = i" for b
      using that t_find_distinct [of so_id "md_objects m" b] by auto
    have acc: "accounted (sy_written c) m" using base by (simp add: sys_ok_def)
    show ?thesis
    proof (rule accountedI)
      fix f
      assume "f \<in> set (md_files m)"
      with acc obtain a where "a \<in> set (md_objects m)" "f = (so_driver a, so_key a)" "so_status a = Deleted \<longrightarrow> so_id a \<in> sy_written c"
        by (rule accountedE)
      then show "\<exists>a\<in>set (md_objects m). f = (so_driver a, so_key a) \<and> (so_status a = Deleted \<longrightarrow> so_id a \<in> sy_written c - {i})"
        using temp by (intro bexI [of _ a]) auto
    qed
  qed
  with base show ?thesis by (simp add: sys_ok_def)
qed

lemma reopen_total:
  assumes "distinct (map so_id rows)" "\<And>obj. obj \<in> set rows \<Longrightarrow> so_status obj \<noteq> Quarantined"
  shows "totalBytes u (t_upd so_id i (\<lambda>obj. obj\<lparr>so_status := Deleting, so_deleted_at := None\<rparr>) rows) =
    totalBytes u rows + t_sum (\<lambda>obj. if so_id obj = i \<and> so_owner obj = u \<and> so_status obj = Deleted then so_size obj else 0) rows"
  using assms
proof (induction rows)
  case Nil
  then show ?case by (simp add: totalBytes_def)
next
  case (Cons a rows)
  have "reservedStatus (so_status a) \<longleftrightarrow> so_status a \<noteq> Deleted"
    using Cons.prems(2) [of a] by (cases "so_status a") (auto simp: reservedStatus_def)
  then show ?case using Cons by (auto simp: totalBytes_def reservedStatus_def)
qed

lemma sys_ok_recover:
  assumes ok: "sys_ok cfg c" and run: "recoverUpload cfg (sy_now c) upd None i (sy_media c) = (r, m)"
  shows "sys_ok cfg (c\<lparr>sy_media := m, sy_written := sy_written c - {i},
    sy_reopened := (\<lambda>u. sy_reopened c u + reopening i (sy_media c) u)\<rparr>)"
proof -
  let ?rows = "md_objects (sy_media c)" and ?f = "\<lambda>obj. obj\<lparr>so_status := Deleting, so_deleted_at := None\<rparr>"
  have m: "md_objects m = t_upd so_id i ?f ?rows" "md_files m = md_files (sy_media c)" using recoverUpload_result [OF run] by simp_all
  have sound: "rows_sound (sy_now c) ?rows" using ok by (simp add: sys_ok_def)
  have acc: "accounted (sy_written c) (sy_media c)" using ok by (simp add: sys_ok_def)
  have fixed: "fixed_part (?f obj) = fixed_part obj" for obj by (simp add: fixed_part_eq)
  have "rows_sound (sy_now c) (md_objects m)" unfolding m by (rule rows_sound_upd [OF sound fixed]) simp
  moreover have "accounted (sy_written c - {i}) m"
    unfolding accounted_def m(2)
  proof
    fix f
    assume "f \<in> set (md_files (sy_media c))"
    with acc obtain obj where obj: "obj \<in> set ?rows" "f = (so_driver obj, so_key obj)" "so_status obj = Deleted \<longrightarrow> so_id obj \<in> sy_written c"
      by (rule accountedE)
    then have "(if so_id obj = i then ?f obj else obj) \<in> set (md_objects m)" by (auto simp: m t_upd_def)
    then show "\<exists>obj\<in>set (md_objects m). f = (so_driver obj, so_key obj) \<and> (so_status obj = Deleted \<longrightarrow> so_id obj \<in> sy_written c - {i})"
      by (rule bexI [rotated]) (use obj in auto)
  qed
  moreover have "0 \<le> reopening i (sy_media c) u" for u
    unfolding reopening_def by (rule t_sum_nonneg) (use sound in \<open>auto simp: rows_sound_def intro: less_imp_le\<close>)
  moreover have "totalBytes u (md_objects m) = totalBytes u ?rows + reopening i (sy_media c) u" for u
    unfolding m reopening_def by (rule reopen_total) (use sound in \<open>simp_all add: rows_sound_def\<close>)
  ultimately show ?thesis using ok by (simp add: sys_ok_def m window_upd [OF fixed])
qed

lemma delete_total:
  "(\<And>a. a \<in> set rows \<Longrightarrow> 0 \<le> so_size a) \<Longrightarrow>
   totalBytes u (t_upd so_id i (\<lambda>obj. if so_status obj \<noteq> Deleted then obj\<lparr>so_status := Deleted, so_deleted_at := Some now\<rparr> else obj) rows)
     \<le> totalBytes u rows"
proof (induction rows)
  case Nil
  then show ?case by (simp add: totalBytes_def)
next
  case (Cons a rows)
  have "0 \<le> so_size a" using Cons.prems by simp
  moreover have "totalBytes u (t_upd so_id i (\<lambda>obj. if so_status obj \<noteq> Deleted then obj\<lparr>so_status := Deleted, so_deleted_at := Some now\<rparr> else obj) rows)
     \<le> totalBytes u rows" using Cons by simp
  ultimately show ?case by (cases "so_status a") (auto simp: totalBytes_def reservedStatus_def)
qed

lemma sys_ok_deliver:
  assumes ok: "sys_ok cfg c" and run: "deleteStorageObject cfg (sy_now c) fate i (sy_media c) = (r, m)"
  shows "sys_ok cfg (c\<lparr>sy_media := m\<rparr>)"
  using deleteStorageObject_result [OF run]
proof (elim disjE exE conjE)
  assume "md_objects m = md_objects (sy_media c)" "set (md_files m) \<subseteq> set (md_files (sy_media c))"
  then show ?thesis by (rule sys_ok_same_rows [OF ok])
next
  fix obj
  let ?rows = "md_objects (sy_media c)"
  let ?f = "\<lambda>obj. if so_status obj \<noteq> Deleted then obj\<lparr>so_status := Deleted, so_deleted_at := Some (sy_now c)\<rparr> else obj"
  assume found: "t_find so_id i ?rows = Some obj" and files: "set (md_files m) = set (md_files (sy_media c)) - {(so_driver obj, so_key obj)}"
    and m: "md_objects m = t_upd so_id i ?f ?rows"
  have sound: "rows_sound (sy_now c) ?rows" using ok by (simp add: sys_ok_def)
  have acc: "accounted (sy_written c) (sy_media c)" using ok by (simp add: sys_ok_def)
  have fixed: "fixed_part (?f obj) = fixed_part obj" for obj by (simp add: fixed_part_eq)
  have "rows_sound (sy_now c) (md_objects m)" unfolding m by (rule rows_sound_upd [OF sound fixed]) simp
  moreover have "accounted (sy_written c) m"
    unfolding accounted_def
  proof
    fix f
    assume f: "f \<in> set (md_files m)"
    then have "f \<in> set (md_files (sy_media c))" using files by simp
    with acc obtain a where a: "a \<in> set ?rows" "f = (so_driver a, so_key a)" "so_status a = Deleted \<longrightarrow> so_id a \<in> sy_written c"
      by (rule accountedE)
    have "so_id a \<noteq> i"
    proof
      assume "so_id a = i"
      then have "a = obj" using t_find_distinct [of so_id ?rows a] a(1) found sound by (simp add: rows_sound_def)
      then show False using f files a(2) by simp
    qed
    then have "a \<in> set (md_objects m)" using a(1) by (auto simp: m t_upd_def)
    then show "\<exists>obj\<in>set (md_objects m). f = (so_driver obj, so_key obj) \<and> (so_status obj = Deleted \<longrightarrow> so_id obj \<in> sy_written c)"
      using a(2,3) by blast
  qed
  moreover have "totalBytes u (md_objects m) \<le> totalBytes u ?rows" for u
  proof -
    have "0 \<le> so_size a" if "a \<in> set ?rows" for a using sound that by (auto simp: rows_sound_def intro: less_imp_le)
    then show ?thesis unfolding m by (rule delete_total)
  qed
  ultimately show ?thesis using ok by (force simp: sys_ok_def m window_upd [OF fixed] intro: order_trans)
qed

lemma sys_ok_step: "storage_step cfg c c' \<Longrightarrow> sys_ok cfg c \<Longrightarrow> sys_ok cfg c'"
proof (induction rule: storage_step.induct)
  case (later c n)
  then show ?case by (force simp: sys_ok_def rows_sound_def intro: order_trans)
next
  case (reserve c u key purpose img r m)
  then show ?case by (blast intro: sys_ok_reserve)
next
  case (put i c obj fate r m)
  then show ?case by (blast intro: sys_ok_put)
next
  case (finalize i c r m)
  then show ?case by (blast intro: sys_ok_finalize)
next
  case (recover c upd i r m)
  then show ?case by (blast intro: sys_ok_recover)
next
  case (attach c i u purpose r m)
  then show ?case by (blast intro: sys_ok_calm calm.keepsD [OF calm_attachStorageObject])
next
  case (detach c upd key i r m)
  then show ?case by (blast intro: sys_ok_calm calm.keepsD [OF calm_enqueueStorageDeletion])
next
  case (cleanup c upd h fault i r m)
  then show ?case by (blast intro: sys_ok_calm calm.keepsD [OF calm_cleanupOne])
next
  case (deliver c fate i r m)
  then show ?case by (blast intro: sys_ok_deliver)
next
  case (elsewhere m c)
  then show ?case by (intro sys_ok_same_rows) simp_all
qed

lemma sys_ok_init: "storage_init c \<Longrightarrow> sys_ok cfg c"
  by (simp add: storage_init_def sys_ok_def rows_sound_def accounted_def window_def totalBytes_def)

lemma sys_ok_reachable: "(storage_step cfg)\<^sup>*\<^sup>* c c' \<Longrightarrow> storage_init c \<Longrightarrow> sys_ok cfg c'"
  by (induction rule: rtranclp_induct) (auto intro: sys_ok_init sys_ok_step)

text \<open>
  C33: the storage quotas hold in every reachable state. Whatever the order of reservations, writes, finalisations,
  attachments, deletion intents, cleanups and deletions, and whatever fails: in no period of a day has a user
  uploaded more than the daily limit, also when the images were deleted since; and the bytes reserved or
  stored for a user stay within the total quota, up to those that recoveries of late writes reopened after
  their deletion.
\<close>

theorem quotas_hold:
  assumes "storage_init c" "(storage_step cfg)\<^sup>*\<^sup>* c c'"
  shows "window u t (md_objects (sy_media c')) \<le> max 0 (STORAGE_DAILY_UPLOAD_BYTES_PER_USER cfg) \<and>
    totalBytes u (md_objects (sy_media c')) \<le> max 0 (STORAGE_TOTAL_QUOTA_BYTES_PER_USER cfg) + sy_reopened c' u"
  using sys_ok_reachable [OF assms(2,1)] by (simp add: sys_ok_def)

text \<open>
  C34: no physical object is orphaned while the deletion handler is not interrupted. In every reachable state
  each stored object has its row, which still tells where it is: the row is not deleted, or an upload that has
  written it since has yet to be finalised or recovered; and two rows never share an object.
\<close>

theorem files_accounted:
  assumes "storage_init c" "(storage_step cfg)\<^sup>*\<^sup>* c c'" "f \<in> set (md_files (sy_media c'))"
  shows "\<exists>obj\<in>set (md_objects (sy_media c')). f = (so_driver obj, so_key obj) \<and>
    (so_status obj \<noteq> Deleted \<or> so_id obj \<in> sy_written c') \<and>
    (\<forall>other\<in>set (md_objects (sy_media c')). (so_driver other, so_key other) = f \<longrightarrow> so_id other = so_id obj)"
proof -
  have ok: "sys_ok cfg c'" by (rule sys_ok_reachable [OF assms(2,1)])
  then have "accounted (sy_written c') (sy_media c')" and d: "distinct (map so_key (md_objects (sy_media c')))"
    by (simp_all add: sys_ok_def rows_sound_def)
  from accountedE [OF this(1) assms(3)] obtain obj where obj: "obj \<in> set (md_objects (sy_media c'))" "f = (so_driver obj, so_key obj)"
    "so_status obj = Deleted \<longrightarrow> so_id obj \<in> sy_written c'" .
  have "other = obj" if "other \<in> set (md_objects (sy_media c'))" "so_key other = so_key obj" for other
    using d that obj(1) by (metis inj_onD distinct_map)
  then show ?thesis using obj by (intro bexI [of _ obj]) auto
qed

section \<open>A late write\<close>

text \<open>What a row that only moves between the states of its deletion costs: nothing of the total quotas once deleted.\<close>

lemma dailyBytes_upd:
  assumes "\<And>obj. fixed_part (f obj) = fixed_part obj"
  shows "dailyBytes u now (t_upd so_id i f rows) = dailyBytes u now rows"
  using assms by (induction rows) (auto simp: dailyBytes_def fixed_part_eq)

lemma other_rows_upd:
  assumes "\<And>obj. so_id (f obj) = so_id obj"
  shows "filter (\<lambda>obj. so_id obj \<noteq> i) (t_upd so_id i f rows) = filter (\<lambda>obj. so_id obj \<noteq> i) rows"
  using assms by (induction rows) simp_all

lemma deleted_row_free:
  assumes "\<And>obj. obj \<in> set rows \<Longrightarrow> so_id obj = i \<Longrightarrow> so_status obj = Deleted"
  shows "totalBytes u rows = totalBytes u (filter (\<lambda>obj. so_id obj \<noteq> i) rows)"
    "purposeCount u p rows = purposeCount u p (filter (\<lambda>obj. so_id obj \<noteq> i) rows)"
  using assms by (induction rows) (auto simp: totalBytes_def purposeCount_def reservedStatus_def)

lemma mark_deletes:
  assumes "obj \<in> set (t_upd so_id i (\<lambda>obj. if so_status obj \<noteq> Deleted then obj\<lparr>so_status := Deleted, so_deleted_at := k\<rparr> else obj) rows)"
    "so_id obj = i"
  shows "so_status obj = Deleted"
proof -
  let ?f = "\<lambda>obj. if so_status obj \<noteq> Deleted then obj\<lparr>so_status := Deleted, so_deleted_at := k\<rparr> else obj"
  obtain row where row: "obj = (if so_id row = i then ?f row else row)" using mem_t_upd [OF assms(1)] by blast
  have "so_id (?f row) = so_id row" "so_status (?f row) = Deleted" by simp_all
  then show ?thesis using row assms(2) by metis
qed

lemma late_row_quotas:
  assumes "rows' = t_upd so_id i (\<lambda>obj. if so_status obj \<noteq> Deleted then obj\<lparr>so_status := Deleted, so_deleted_at := Some now\<rparr> else obj)
    (t_upd so_id i (\<lambda>obj. obj\<lparr>so_status := Deleting, so_deleted_at := None\<rparr>)
      (t_upd so_id i (\<lambda>obj. if so_status obj \<noteq> Deleted then obj\<lparr>so_status := Deleting, so_deleted_at := None\<rparr> else obj) rows))"
  shows "totalBytes u rows' = totalBytes u (filter (\<lambda>obj. so_id obj \<noteq> i) rows)"
    "purposeCount u p rows' = purposeCount u p (filter (\<lambda>obj. so_id obj \<noteq> i) rows)"
    "dailyBytes u now' rows' = dailyBytes u now' rows"
proof -
  have "so_status obj = Deleted" if "obj \<in> set rows'" "so_id obj = i" for obj
    using mark_deletes that unfolding assms by blast
  note free = deleted_row_free [of rows' i, OF this]
  have other: "filter (\<lambda>obj. so_id obj \<noteq> i) rows' = filter (\<lambda>obj. so_id obj \<noteq> i) rows"
    unfolding assms by (simp add: other_rows_upd)
  show "totalBytes u rows' = totalBytes u (filter (\<lambda>obj. so_id obj \<noteq> i) rows)"
    "purposeCount u p rows' = purposeCount u p (filter (\<lambda>obj. so_id obj \<noteq> i) rows)"
    using free(1) [of u] free(2) [of u p] by (simp_all add: other)
  show "dailyBytes u now' rows' = dailyBytes u now' rows"
    unfolding assms by (simp add: dailyBytes_upd fixed_part_eq)
qed

text \<open>
  C35: a write that ends between the two halves of the deletion handler loses its object for good. Take an upload
  still unfinished after the time to live. The cleanup marks it, a worker runs the deletion of its event up
  to the physical deletion, the slow write then succeeds, its finalisation fails and the recovery reopens the
  deletion under an event of its own; when the worker now marks the row deleted, the object is stored, its row
  says deleted, the recovery event finds nothing to do and no cleanup ever selects the row. The total quota and the limit of objects count
  as if the row had never been; the daily quota alone goes on counting it, as before, for the day of its creation.
\<close>

theorem late_write_leaks:
  assumes row: "t_find so_id i (md_objects s) = Some obj"
    and stale: "so_status obj = Uploading" "so_created_at obj < now - h * HOUR_MS"
    and s3: "so_driver obj = S3Driver" "S3_BUCKET_set cfg"
  shows "\<exists>s1 s2 s3 s4 s5 e. cleanupOne cfg now upd h None i s = (Inr True, s1) \<and>
    deletionTarget i s1 = (Inr (Some (obj\<lparr>so_status := Deleting, so_deleted_at := None\<rparr>)), s1) \<and>
    deletePhysicalObject cfg IoDone (so_driver obj) (so_key obj) s1 = (Inr (), s2) \<and>
    writePhysicalObject cfg IoDone (so_driver obj) (so_key obj) s2 = (Inr (), s3) \<and>
    finalizeUpload i s3 = (Inl e, s3) \<and>
    recoverUpload cfg now upd None i s3 = (Inr (), s4) \<and>
    markDeleted now i s4 = (Inr (), s5) \<and>
    (S3Driver, so_key obj) \<in> set (md_files s5) \<and>
    (\<exists>gone. t_find so_id i (md_objects s5) = Some gone \<and> so_key gone = so_key obj \<and> so_status gone = Deleted \<and>
      (\<forall>now' h'. \<not> cleanupEligible now' h' s5 gone)) \<and>
    (\<forall>now' fate. deleteStorageObject cfg now' fate i s5 = (Inr (), s5)) \<and>
    (\<forall>u p now'. totalBytes u (md_objects s5) = totalBytes u (filter (\<lambda>other. so_id other \<noteq> i) (md_objects s)) \<and>
      purposeCount u p (md_objects s5) = purposeCount u p (filter (\<lambda>other. so_id other \<noteq> i) (md_objects s)) \<and>
      dailyBytes u now' (md_objects s5) = dailyBytes u now' (md_objects s))"
proof -
  let ?objs = "md_objects s" and ?deleting = "\<lambda>obj. obj\<lparr>so_status := Deleting, so_deleted_at := None\<rparr>"
  obtain x s1 where e: "enqueueStorageDeletion cfg now upd False None i s = (Inr x, s1)"
    and o1: "md_files s1 = md_files s" "t_find so_id i (md_objects s1) = Some (?deleting obj)"
      "md_objects s1 = t_upd so_id i (\<lambda>obj. if so_status obj \<noteq> Deleted then ?deleting obj else obj) ?objs"
    using enqueueStorageDeletion_marks [of cfg now upd False None i s] row stale(1) by (auto simp: t_find_upd)
  have "x \<noteq> None" using e row stale(1) by (auto simp: enqueueStorageDeletion_def tx_simps split: list.splits)
  moreover have "cleanupEligible now h s obj" using stale by (simp add: cleanupEligible_def)
  ultimately have c: "cleanupOne cfg now upd h None i s = (Inr True, s1)"
    using row e by (simp add: cleanupOne_def mediaTx_def tx_defs)
  define s2 where "s2 = md_files_update (filter (\<lambda>f. f \<noteq> (S3Driver, so_key obj))) s1"
  define s3 where "s3 = md_files_update (\<lambda>fs. fs @ [(S3Driver, so_key obj)]) s2"
  have d: "deletePhysicalObject cfg IoDone (so_driver obj) (so_key obj) s1 = (Inr (), s2)"
    using s3 by (simp add: deletePhysicalObject_def tx_defs s2_def)
  have "\<not> list_ex (\<lambda>f. f = (S3Driver, so_key obj)) (md_files s2)" by (simp add: s2_def list_ex_iff)
  then have w: "writePhysicalObject cfg IoDone (so_driver obj) (so_key obj) s2 = (Inr (), s3)"
    using s3 by (simp add: writePhysicalObject_def tx_defs Let_def s3_def)
  have o3: "t_find so_id i (md_objects s3) = Some (?deleting obj)" using o1 by (simp add: s2_def s3_def)
  then obtain err where f: "finalizeUpload i s3 = (Inl err, s3)" by (simp add: finalizeUpload_def tx_defs)
  obtain r s4 where rec: "recoverUpload cfg now upd None i s3 = (r, s4)" by fastforce
  have "\<not> isl r" using rec by (auto simp: recoverUpload_def tx_catch_def tx_return_def split: prod.splits sum.splits)
  then have rr: "recoverUpload cfg now upd None i s3 = (Inr (), s4)" using rec by (cases r) auto
  note R = recoverUpload_result [OF rec]
  have o4: "t_find so_id i (md_objects s4) = Some (?deleting obj)" using R o3 by (simp add: t_find_upd)
  define s5 where "s5 = md_objects_update (t_upd so_id i (\<lambda>obj.
      if so_status obj \<noteq> Deleted then obj\<lparr>so_status := Deleted, so_deleted_at := Some now\<rparr> else obj)) s4"
  have m: "markDeleted now i s4 = (Inr (), s5)" by (simp add: markDeleted_def tx_defs s5_def)
  have o5: "t_find so_id i (md_objects s5) = Some (obj\<lparr>so_status := Deleted, so_deleted_at := Some now\<rparr>)"
    using o4 by (simp add: s5_def t_find_upd)
  have "(S3Driver, so_key obj) \<in> set (md_files s5)" using R by (simp add: s5_def s3_def)
  moreover have "deleteStorageObject cfg now' fate i s5 = (Inr (), s5)" for now' fate
    using o5 by (simp add: deleteStorageObject_def deletionTarget_def tx_defs)
  moreover have "deletionTarget i s1 = (Inr (Some (?deleting obj)), s1)" using o1 by (simp add: deletionTarget_def tx_defs)
  moreover have "\<exists>gone. t_find so_id i (md_objects s5) = Some gone \<and> so_key gone = so_key obj \<and> so_status gone = Deleted \<and>
      (\<forall>now' h'. \<not> cleanupEligible now' h' s5 gone)"
    using o5 by (intro exI [of _ "obj\<lparr>so_status := Deleted, so_deleted_at := Some now\<rparr>"]) (simp add: cleanupEligible_def)
  moreover have "md_objects s5 = t_upd so_id i (\<lambda>obj. if so_status obj \<noteq> Deleted
      then obj\<lparr>so_status := Deleted, so_deleted_at := Some now\<rparr> else obj) (t_upd so_id i ?deleting
        (t_upd so_id i (\<lambda>obj. if so_status obj \<noteq> Deleted then ?deleting obj else obj) ?objs))"
    using R o1(3) by (simp add: s5_def s3_def s2_def)
  note late_row_quotas [OF this]
  ultimately show ?thesis using c d w f rr m
    by (intro exI [of _ s1] exI [of _ s2] exI [of _ s3] exI [of _ s4] exI [of _ s5] exI [of _ err]) simp
qed

section \<open>What the cleanup repairs\<close>

lemma cleanup_enqueues:
  assumes row: "t_find so_id i (md_objects s) = Some obj" "so_status obj = Deleting" "\<not> intentLive s i"
    and run: "cleanupOne cfg now upd h None i s = (r, t)"
  shows "\<exists>x. enqueueStorageDeletion cfg now upd False None i s = (Inr x, t) \<and> r = Inr (x \<noteq> None)"
proof -
  have "so_id obj = i" using t_find_Some [OF row(1)] by simp
  then have eligible: "cleanupEligible now h s obj" using row(2,3) by (simp add: cleanupEligible_def)
  obtain x t' where e: "enqueueStorageDeletion cfg now upd False None i s = (Inr x, t')"
    using enqueueStorageDeletion_marks by blast
  have "cleanupOne cfg now upd h None i s = (Inr (x \<noteq> None), t')"
    by (simp add: cleanupOne_def mediaTx_def tx_defs row(1) eligible e)
  then show ?thesis using run e by simp
qed

text \<open>Reviving an event that is no intent of a row leaves the row without a live one.\<close>

lemma requeue_foreign:
  assumes ids: "distinct (map ob_id box)" and f: "f \<in> set box" "\<not> isDeleteIntent i f"
    and dead: "\<And>g. g \<in> set box \<Longrightarrow> \<not> (isDeleteIntent i g \<and> (ob_status g = OPending \<or> ob_status g = OProcessing))"
    and g: "g \<in> set (t_upd ob_id (ob_id f) (requeueRow now) box)"
  shows "\<not> (isDeleteIntent i g \<and> (ob_status g = OPending \<or> ob_status g = OProcessing))"
proof -
  obtain g0 where g0: "g0 \<in> set box" "g = (if ob_id g0 = ob_id f then requeueRow now g0 else g0)"
    using mem_t_upd [OF g] by blast
  show ?thesis
  proof (cases "ob_id g0 = ob_id f")
    case True
    then have "g0 = f" using ids f(1) g0(1) by (metis inj_onD distinct_map)
    then have "g = requeueRow now f" using g0(2) by simp
    then show ?thesis using f(2) by (simp add: isDeleteIntent_def requeueRow_def)
  next
    case False
    then show ?thesis using g0 dead by auto
  qed
qed

text \<open>What \<open>enqueueStorageDeletion\<close> does to the outbox: revive the oldest failed intent, or use the default key.\<close>

lemma enqueue_box:
  assumes e: "enqueueStorageDeletion cfg now upd False None i s = (Inr x, t)"
    and row: "t_find so_id i (md_objects s) = Some obj" "so_status obj = Deleting"
  shows "x \<noteq> None \<and>
    (case sort_key (\<lambda>e. (upd e, ob_id e)) (filter (\<lambda>e. isDeleteIntent i e \<and> ob_status e = OFailed) (domain_outbox (md_db s))) of
       f # rest \<Rightarrow> domain_outbox (md_db t) = t_upd ob_id (ob_id f) (requeueRow now) (domain_outbox (md_db s))
     | [] \<Rightarrow> (case t_find ob_key (defaultDeleteKey i) (domain_outbox (md_db s)) of
         None \<Rightarrow> \<exists>new. domain_outbox (md_db t) = domain_outbox (md_db s) @ [new] \<and> isDeleteIntent i new \<and> ob_status new = OPending
       | Some f \<Rightarrow> domain_outbox (md_db t) =
           (if ob_status f = OFailed then t_upd ob_id (ob_id f) (requeueRow now) (domain_outbox (md_db s)) else domain_outbox (md_db s))))"
    (is "_ \<and> (case ?failed of [] \<Rightarrow> _ | f # rest \<Rightarrow> _)")
proof (cases ?failed)
  case (Cons f rest)
  then show ?thesis
    using e row by (auto simp: enqueueStorageDeletion_def tx_simps onDb_def tx_modify_def tx_return_def split: prod.splits)
next
  case Nil
  show ?thesis
  proof (cases "t_find ob_key (defaultDeleteKey i) (domain_outbox (md_db s))")
    case None
    then show ?thesis using e row Nil
      by (auto simp: enqueueStorageDeletion_def tx_simps onDb_def enqueueDomainEvent_def gen_random_uuid_def deleteEvent_def
          isDeleteIntent_def Let_def split: prod.splits)
  next
    case (Some f)
    then show ?thesis using e row Nil
      by (cases "ob_status f = OFailed")
        (auto simp: enqueueStorageDeletion_def tx_defs onDb_def enqueueDomainEvent_def deleteEvent_def)
  qed
qed

text \<open>
  Which unfinished deletions the cleanup restarts. For a row marked for deletion without a live intent,
  the cleanup reports the row as queued; there is a live intent afterwards if and only if some intent of the row
  had failed, and is revived, or the default event key of the row was never used. A row whose default event was
  processed is reported as queued again and again without any effect on the outbox.
\<close>

theorem cleanup_restarts:
  assumes row: "t_find so_id i (md_objects s) = Some obj" "so_status obj = Deleting" "\<not> intentLive s i"
    and ids: "distinct (map ob_id (domain_outbox (md_db s)))"
    and run: "cleanupOne cfg now upd h None i s = (r, t)"
  shows "r = Inr True \<and>
    (intentLive t i \<longleftrightarrow> (\<exists>e\<in>set (domain_outbox (md_db s)). isDeleteIntent i e \<and> ob_status e = OFailed) \<or>
       t_find ob_key (defaultDeleteKey i) (domain_outbox (md_db s)) = None)"
proof -
  let ?box = "domain_outbox (md_db s)"
  let ?intents = "filter (\<lambda>e. isDeleteIntent i e \<and> ob_status e = OFailed) ?box"
  obtain x where e: "enqueueStorageDeletion cfg now upd False None i s = (Inr x, t)" "r = Inr (x \<noteq> None)"
    using cleanup_enqueues [OF row run] by blast
  note box = enqueue_box [OF e(1) row(1,2)]
  have dead: "\<not> (isDeleteIntent i f \<and> (ob_status f = OPending \<or> ob_status f = OProcessing))" if "f \<in> set ?box" for f
    using row(3) that by (auto simp: intentLive_def list_ex_iff)
  show ?thesis
  proof (cases "sort_key (\<lambda>e. (upd e, ob_id e)) ?intents")
    case (Cons f rest)
    then have "f \<in> set (sort_key (\<lambda>e. (upd e, ob_id e)) ?intents)" by simp
    then have f: "f \<in> set ?box" "isDeleteIntent i f" "ob_status f = OFailed" by simp_all
    then have "requeueRow now f \<in> set (t_upd ob_id (ob_id f) (requeueRow now) ?box)" by (force simp: t_upd_def)
    then have "intentLive t i" using box Cons f(2)
      by (auto simp: intentLive_def list_ex_iff isDeleteIntent_def requeueRow_def intro!: bexI [of _ "requeueRow now f"])
    then show ?thesis using e(2) box f by blast
  next
    case Nil
    have "set ?intents = {}" using arg_cong [OF Nil, of set] by (simp only: set_sort list.set)
    then have none: "\<not> (isDeleteIntent i f \<and> ob_status f = OFailed)" if "f \<in> set ?box" for f using that by auto
    show ?thesis
    proof (cases "t_find ob_key (defaultDeleteKey i) ?box")
      case None
      then show ?thesis using e(2) box Nil by (auto simp: intentLive_def)
    next
      case (Some f)
      have f: "f \<in> set ?box" using t_find_Some [OF Some] by simp
      have "\<not> intentLive t i"
        using box Nil Some row(3) none [OF f] requeue_foreign [OF ids f _ dead]
        by (cases "ob_status f = OFailed") (auto simp: intentLive_def list_ex_iff)
      then show ?thesis using e(2) box none Some by auto
    qed
  qed
qed

section \<open>Samples\<close>

definition storage0 :: storage_env where
  "storage0 = \<lparr>st_env = env0, STORAGE_DRIVER = S3Driver, S3_BUCKET_set = True, LOCAL_UPLOAD_DIR = [''uploads''],
     STORAGE_DAILY_UPLOAD_BYTES_PER_USER = 10, STORAGE_TOTAL_QUOTA_BYTES_PER_USER = 20, STORAGE_MAX_OBJECTS_PER_PURPOSE = 3,
     STORAGE_MAX_STORED_IMAGE_BYTES = 100, STORAGE_MAX_IMAGE_WIDTH = 50, STORAGE_MAX_IMAGE_HEIGHT = 50,
     STORAGE_MAX_IMAGE_PIXELS = 2500, STORAGE_TEMP_TTL_HOURS = 24\<rparr>"

definition media0 :: media where
  "media0 = \<lparr>md_db = db0, md_objects = [], md_files = [], md_groups = [], md_items = [], md_chat = [], md_dispute_chat = [],
     md_blocks = [], md_muted = [], md_read = []\<rparr>"

definition image0 :: ProcessedImage where
  "image0 = \<lparr>pi_buffer = [1, 2, 3], pi_mime = ''image/webp'', pi_width = 4, pi_height = 4\<rparr>"

definition upload0 :: StorageObject where
  "upload0 = \<lparr>so_id = ''u'', so_owner = ''buyer'', so_key = ''chat_attachment/buyer/n.webp'', so_driver = S3Driver,
     so_purpose = ChatAttachment, so_mime = ''image/webp'', so_size = 3, so_width = 4, so_height = 4, so_status = Uploading,
     so_created_at = 5, so_attached_at = None, so_deleted_at = None\<rparr>"

definition reserved0 :: media where
  "reserved0 = media0\<lparr>md_db := db0\<lparr>uuid_ctr := 1\<rparr>, md_objects := [upload0]\<rparr>"

definition sys0 :: storage_sys where
  "sys0 = \<lparr>sy_now = 5, sy_media = media0, sy_written = {}, sy_reopened = (\<lambda>_. 0)\<rparr>"

definition sys2 :: storage_sys where
  "sys2 = sys0\<lparr>sy_media := reserved0\<lparr>md_files := [(S3Driver, so_key upload0)]\<rparr>, sy_written := {''u''}\<rparr>"

lemma reserve_sample:
  "reserveUpload storage0 5 ''buyer'' (so_key upload0) ChatAttachment image0 media0 = (Inr upload0, reserved0)"
  by (simp add: reserveUpload_def mediaTx_def assertUploadQuota_def insertUpload_def tx_defs onDb_def gen_random_uuid_def Let_def
      storage0_def media0_def image0_def upload0_def reserved0_def env0_def db0_def empty_db_def dailyBytes_def totalBytes_def purposeCount_def)

lemma write_sample:
  "writePhysicalObject storage0 IoDone S3Driver (so_key upload0) reserved0 = (Inr (), reserved0\<lparr>md_files := [(S3Driver, so_key upload0)]\<rparr>)"
  by (simp add: writePhysicalObject_def tx_defs Let_def storage0_def reserved0_def media0_def)

lemma sys2_reachable: "(storage_step storage0)\<^sup>*\<^sup>* sys0 sys2"
proof -
  have "storage_step storage0 sys0 (sys0\<lparr>sy_media := reserved0\<rparr>)"
    by (rule storage_step.reserve [of storage0 _ "''buyer''" "so_key upload0" ChatAttachment image0 "Inr upload0"])
      (simp add: sys0_def reserve_sample)
  moreover have "storage_step storage0 (sys0\<lparr>sy_media := reserved0\<rparr>) sys2"
    using storage_step.put [of "''u''" "sys0\<lparr>sy_media := reserved0\<rparr>" upload0 storage0 IoDone] write_sample
    by (simp add: sys2_def sys0_def) (simp add: reserved0_def upload0_def)
  ultimately show ?thesis by (meson converse_rtranclp_into_rtranclp rtranclp.rtrancl_refl)
qed

lemma sys0_init: "storage_init sys0"
  by (simp add: storage_init_def sys0_def media0_def)

theorem quotas_hold_witness:
  "md_objects (sy_media sys2) = [upload0] \<and> window ''buyer'' 6 (md_objects (sy_media sys2)) \<le> 10 \<and>
     totalBytes ''buyer'' (md_objects (sy_media sys2)) \<le> 20"
  using quotas_hold [OF sys0_init sys2_reachable, of "''buyer''" 6] by (simp add: storage0_def sys2_def sys0_def reserved0_def)

theorem files_accounted_witness:
  "\<exists>obj\<in>set (md_objects (sy_media sys2)). so_key obj = ''chat_attachment/buyer/n.webp'' \<and>
     (so_status obj \<noteq> Deleted \<or> so_id obj \<in> {''u''})"
proof -
  have "(S3Driver, so_key upload0) \<in> set (md_files (sy_media sys2))" by (simp add: sys2_def)
  from files_accounted [OF sys0_init sys2_reachable this] show ?thesis by (auto simp: upload0_def sys2_def)
qed

theorem late_write_leaks_witness:
  "\<exists>s5. (S3Driver, ''chat_attachment/buyer/n.webp'') \<in> set (md_files s5) \<and>
     (\<exists>gone. t_find so_id ''u'' (md_objects s5) = Some gone \<and> so_status gone = Deleted) \<and>
     deleteStorageObject storage0 100000000 IoDone ''u'' s5 = (Inr (), s5) \<and>
     totalBytes ''buyer'' (md_objects s5) = 0"
proof -
  have "t_find so_id ''u'' (md_objects reserved0) = Some upload0" by (simp add: reserved0_def upload0_def)
  moreover have "so_status upload0 = Uploading" "so_created_at upload0 < 90000000 - 24 * HOUR_MS" "so_driver upload0 = S3Driver"
    "S3_BUCKET_set storage0" "so_key upload0 = ''chat_attachment/buyer/n.webp''"
    by (simp_all add: upload0_def HOUR_MS_def storage0_def)
  moreover have "totalBytes ''buyer'' (filter (\<lambda>other. so_id other \<noteq> ''u'') (md_objects reserved0)) = 0"
    by (simp add: reserved0_def upload0_def totalBytes_def)
  ultimately show ?thesis using late_write_leaks [of "''u''" reserved0 upload0 90000000 24 storage0 "\<lambda>_. 0"] by metis
qed

definition marked0 :: media where
  "marked0 = reserved0\<lparr>md_objects := [upload0\<lparr>so_status := Deleting\<rparr>]\<rparr>"

theorem cleanup_restarts_witness:
  "\<exists>r t. cleanupOne storage0 9 (\<lambda>_. 0) 24 None ''u'' marked0 = (r, t) \<and> r = Inr True \<and> intentLive t ''u''"
proof -
  obtain r t where run: "cleanupOne storage0 9 (\<lambda>_. 0) 24 None ''u'' marked0 = (r, t)" by fastforce
  have box: "domain_outbox (md_db marked0) = []" by (simp add: marked0_def reserved0_def media0_def db0_def empty_db_def)
  have "t_find so_id ''u'' (md_objects marked0) = Some (upload0\<lparr>so_status := Deleting\<rparr>)" by (simp add: marked0_def upload0_def)
  with cleanup_restarts [OF this _ _ _ run] box run show ?thesis by (simp add: intentLive_def)
qed

end
