(* ===== verification/ChatSafety.thy ===== *)
theory ChatSafety
  imports Chat StorageSafety
begin

text \<open>
  What holds of messages and their attachments: a message is stored once per client id, an attachment belongs to
  one message of its owner in every reachable state and is read only by those who may read that message, and
  the pages of a conversation cover it.
\<close>

section \<open>Sending once\<close>

lemma assertCanSend_state:
  assumes "assertCanSendMessage now c u s = (r, t)"
  shows "t = s"
  using assms by (auto simp: assertCanSendMessage_def assertConversationAccess_def getConversationParties_def isMuted_def
      isBlockedPair_def tx_defs split: option.splits if_splits)

lemma assertCanSend_Inl:
  assumes "assertCanSendMessage now c u s = (Inl e, t)"
  shows "api_status e = 403 \<or> api_status e = 404"
  using assms by (auto simp: assertCanSendMessage_def assertConversationAccess_def getConversationParties_def isMuted_def
      isBlockedPair_def tx_errs error_defs userMuted_def messagingBlocked_def)

lemma attachUpload_Inr:
  assumes "attachUpload now u upload s = (Inr a, t)"
  shows "a = upload \<and> md_chat t = md_chat s"
  using assms by (cases upload) (auto simp: attachUpload_def attachStorageObject_def tx_simps dest: t_find_Some)

lemma insertMessage_Inr:
  assumes "insertMessage env now input body a s = (Inr row, t)"
  shows "md_chat t = md_chat s @ [row] \<and> md_objects t = md_objects s \<and> md_dispute_chat t = md_dispute_chat s \<and>
    ch_conversation row = si_conversation input \<and> ch_sender row = Some (si_sender input) \<and> ch_client_id row = Some (si_client_id input) \<and>
    ch_body row = body \<and> ch_attachment row = a \<and> \<not> ch_hidden row \<and>
    (a \<noteq> None \<longrightarrow> a \<notin> ch_attachment ` set (md_chat s))"
  using assms by (auto simp: insertMessage_def tx_simps onDb_def gen_random_uuid_def Let_def list_ex_iff)

lemma onDb_rows:
  assumes "onDb m s = (r, t)"
  shows "md_chat t = md_chat s" "md_objects t = md_objects s" "md_dispute_chat t = md_dispute_chat s"
  using assms by (auto simp: onDb_def split: prod.splits)

lemma sendTx_new:
  assumes "sendTx env now input body s = (Inr res, t)" "findMessageByClientId (si_sender input) (si_client_id input) s = None"
  shows "\<exists>a u. attachUpload now (si_sender input) (si_upload input) s = (Inr a, u) \<and>
    md_chat t = md_chat u @ [sm_message res] \<and> md_objects t = md_objects u \<and> md_dispute_chat t = md_dispute_chat u \<and> sm_created res \<and>
    ch_conversation (sm_message res) = si_conversation input \<and> ch_sender (sm_message res) = Some (si_sender input) \<and>
    ch_client_id (sm_message res) = Some (si_client_id input) \<and> ch_body (sm_message res) = body \<and>
    ch_attachment (sm_message res) = a \<and> (a \<noteq> None \<longrightarrow> a \<notin> ch_attachment ` set (md_chat u))"
proof -
  from assms obtain a u row v where "attachUpload now (si_sender input) (si_upload input) s = (Inr a, u)"
    "insertMessage env now input body a u = (Inr row, v)" "res = \<lparr>sm_message = row, sm_created = True\<rparr>"
    "\<exists>m (y :: outbox_row). onDb m v = (Inr y, t)"
    unfolding sendTx_def by (force simp: tx_simps)
  then show ?thesis using insertMessage_Inr [of env now input body a u row v] onDb_rows [of _ v _ t] by auto
qed

lemma find_append_Some: "find P xs = None \<Longrightarrow> P y \<Longrightarrow> find P (xs @ [y]) = Some y"
  by (induction xs) (auto split: if_splits)

lemma send_Inr:
  assumes "sendMessageIdempotently env now input s = (Inr res, t)"
  shows "ch_sender (sm_message res) = Some (si_sender input) \<and> ch_conversation (sm_message res) = si_conversation input \<and>
    ch_body (sm_message res) = js_trim (si_body input) \<and> ch_attachment (sm_message res) = si_upload input \<and>
    findMessageByClientId (si_sender input) (si_client_id input) t = Some (sm_message res) \<and>
    md_chat t = md_chat s @ (if sm_created res then [sm_message res] else []) \<and>
    sm_created res = (findMessageByClientId (si_sender input) (si_client_id input) s = None)"
proof -
  let ?body = "js_trim (si_body input)" and ?find = "findMessageByClientId (si_sender input) (si_client_id input)"
  from assms consider (replayed) m where "?find s = Some m" "verifyMessageReplay m input ?body = Inr res" "t = s"
    | (new) "?find s = None" "sendTx env now input ?body s = (Inr res, t)"
    by (auto simp: sendMessageIdempotently_def tx_simps Let_def mediaTx_Inr split: option.splits dest!: assertCanSend_state)
  then show ?thesis
  proof cases
    case replayed
    then have "ch_sender m = Some (si_sender input)" by (auto simp: findMessageByClientId_def find_Some_iff)
    with replayed show ?thesis by (auto simp: verifyMessageReplay_def split: if_splits)
  next
    case new
    obtain a u where u: "attachUpload now (si_sender input) (si_upload input) s = (Inr a, u)"
      "md_chat t = md_chat u @ [sm_message res]" "sm_created res" "ch_conversation (sm_message res) = si_conversation input"
      "ch_sender (sm_message res) = Some (si_sender input)" "ch_client_id (sm_message res) = Some (si_client_id input)"
      "ch_body (sm_message res) = ?body" "ch_attachment (sm_message res) = a"
      using sendTx_new [OF new(2,1)] by blast
    then have "a = si_upload input" "md_chat t = md_chat s @ [sm_message res]" using attachUpload_Inr [OF u(1)] by simp_all
    moreover have "?find t = Some (sm_message res)"
      using new(1) u(5,6) calculation(2) by (simp add: findMessageByClientId_def find_append_Some)
    ultimately show ?thesis using u new(1) by simp
  qed
qed

text \<open>
  C36: a message is sent once per client id. When \<open>sendMessageIdempotently\<close> returns, the trimmed message with its
  attachment is stored, once, under the sender's client id, and was inserted only if the id was new. In any later
  state that still has the message, sending under the same id changes nothing: it returns the stored message
  exactly when conversation, text and attachment are the same and the sender may still write there, and otherwise
  answers 400, 403, 404 or 409.
\<close>

theorem message_sent_once:
  assumes first: "sendMessageIdempotently env now input s = (Inr res, s1)"
    and kept: "findMessageByClientId (si_sender input) (si_client_id input) s2 = Some (sm_message res)"
    and retry: "si_sender again = si_sender input" "si_client_id again = si_client_id input"
    and run: "sendMessageIdempotently env' now' again s2 = (r, s3)"
  shows "md_chat s1 = md_chat s @ (if findMessageByClientId (si_sender input) (si_client_id input) s = None then [sm_message res] else []) \<and>
    findMessageByClientId (si_sender input) (si_client_id input) s1 = Some (sm_message res) \<and>
    ch_body (sm_message res) = js_trim (si_body input) \<and> ch_attachment (sm_message res) = si_upload input \<and>
    s3 = s2 \<and>
    (if si_conversation again = si_conversation input \<and> js_trim (si_body again) = js_trim (si_body input) \<and>
        si_upload again = si_upload input \<and> \<not> isl (fst (assertCanSendMessage now' (si_conversation again) (si_sender again) s2))
     then r = Inr \<lparr>sm_message = sm_message res, sm_created = False\<rparr>
     else \<exists>st m c. r = Inl (ApiError st m c) \<and> st \<in> {400, 403, 404, 409})"
proof -
  note F = send_Inr [OF first]
  let ?m = "sm_message res" and ?body = "js_trim (si_body again)"
  obtain q s' where q: "assertCanSendMessage now' (si_conversation again) (si_sender again) s2 = (q, s')" by fastforce
  then have s': "s' = s2" by (rule assertCanSend_state)
  have good: "\<not> (length (js_trim (si_body input)) < 1 \<or> 3000 < length (js_trim (si_body input)))"
    using first by (auto simp: sendMessageIdempotently_def tx_simps Let_def)
  have "(r, s3) = (if length ?body < 1 \<or> 3000 < length ?body then (Inl (badRequest ''Invalid message''), s2)
      else case q of Inl e \<Rightarrow> (Inl e, s2) | Inr _ \<Rightarrow> (verifyMessageReplay ?m again ?body, s2))"
    using run q kept retry unfolding s'
    by (cases "length ?body < 1 \<or> 3000 < length ?body"; cases q) (auto simp: sendMessageIdempotently_def tx_defs Let_def)
  then have eq: "s3 = s2" "r = (if length ?body < 1 \<or> 3000 < length ?body then Inl (badRequest ''Invalid message'')
      else case q of Inl e \<Rightarrow> Inl e | Inr _ \<Rightarrow> verifyMessageReplay ?m again ?body)"
    by (auto split: if_splits sum.splits)
  have "\<exists>st m c. e = ApiError st m c \<and> st \<in> {400, 403, 404, 409}" if "q = Inl e" for e
    using q that by (auto simp: assertCanSendMessage_def assertConversationAccess_def getConversationParties_def isMuted_def
      isBlockedPair_def tx_errs error_defs userMuted_def messagingBlocked_def)
  then have "if si_conversation again = si_conversation input \<and> ?body = js_trim (si_body input) \<and>
        si_upload again = si_upload input \<and> \<not> isl q
     then r = Inr \<lparr>sm_message = ?m, sm_created = False\<rparr>
     else \<exists>st m c. r = Inl (ApiError st m c) \<and> st \<in> {400, 403, 404, 409}"
    using F good unfolding eq(2) by (cases q) (auto simp: verifyMessageReplay_def error_defs)
  then show ?thesis using F eq(1) q by auto
qed

section \<open>Pages\<close>

text \<open>What a client collects that follows the cursors, newest message first, from the given one on.\<close>

fun followPages :: "nat \<Rightarrow> uuid \<Rightarrow> int option \<Rightarrow> cursor option \<Rightarrow> bool \<Rightarrow> media \<Rightarrow> MessageView list" where
  "followPages 0 c limit cur admin s = []"
| "followPages (Suc n) c limit cur admin s = (case getMessagePage c limit cur None admin s of (page, next) \<Rightarrow>
     rev page @ (case next of None \<Rightarrow> [] | Some cur' \<Rightarrow> followPages n c limit (Some cur') admin s))"

definition from_cursor :: "uuid \<Rightarrow> cursor option \<Rightarrow> media \<Rightarrow> chat_row list" where
  "from_cursor c cur s = newestFirst (filter (\<lambda>m. ch_conversation m = c \<and>
     (case cur of Some k \<Rightarrow> message_key m < k | None \<Rightarrow> True)) (md_chat s))"

lemma newestFirst_filter: "newestFirst (filter P xs) = filter P (newestFirst xs)"
  by (simp add: newestFirst_def filter_sort flip: rev_filter)

lemma set_newestFirst [simp]: "set (newestFirst xs) = set xs"
  by (simp add: newestFirst_def)

lemma newestFirst_descends:
  assumes "distinct (map ch_id xs)"
  shows "sorted_wrt (\<lambda>a b. message_key b < message_key a) (newestFirst xs)"
proof -
  have "distinct (map message_key xs)"
    using assms by (auto simp: distinct_map inj_on_def message_key_def)
  then have "distinct (map message_key (sort_key message_key xs))" by (simp add: distinct_map)
  then have "sorted_wrt (<) (map message_key (sort_key message_key xs))" by (simp add: strict_sorted_iff)
  then show ?thesis by (simp add: newestFirst_def sorted_wrt_rev sorted_wrt_map)
qed

text \<open>In a descending list the rows below a row are those after it.\<close>

lemma descending_below:
  fixes key :: "'r \<Rightarrow> 'k::linorder"
  assumes "sorted_wrt (\<lambda>a b. key b < key a) xs" "0 < k" "k \<le> length xs"
  shows "filter (\<lambda>m. key m < key (xs ! (k - 1))) xs = drop k xs"
proof -
  let ?P = "\<lambda>m. key m < key (xs ! (k - 1))"
  have "filter ?P (take k xs) = []"
  proof (unfold filter_empty_conv, intro ballI notI)
    fix m
    assume "m \<in> set (take k xs)" and less: "?P m"
    then obtain j where j: "j < k" "m = xs ! j" using assms(3) by (auto simp: in_set_conv_nth)
    show False
    proof (cases "j = k - 1")
      case False
      then have "key (xs ! (k - 1)) < key (xs ! j)"
        using j assms by (intro sorted_wrt_nth_less [OF assms(1)]) auto
      with less j show False by simp
    qed (use less j in simp)
  qed
  moreover have "filter ?P (drop k xs) = drop k xs"
  proof (rule filter_True, intro ballI)
    fix m
    assume "m \<in> set (drop k xs)"
    then obtain j where j: "j < length xs - k" "m = xs ! (k + j)" by (auto simp: in_set_conv_nth)
    then show "?P m" using assms by (auto intro: sorted_wrt_nth_less [OF assms(1)])
  qed
  ultimately show ?thesis by (metis append_Nil append_take_drop_id filter_append)
qed

lemma from_cursor_next:
  assumes "distinct (map ch_id (md_chat s))" "0 < k" "k \<le> length (from_cursor c cur s)"
  shows "from_cursor c (Some (message_key (from_cursor c cur s ! (k - 1)))) s = drop k (from_cursor c cur s)"
proof -
  let ?L = "from_cursor c cur s" and ?in = "\<lambda>m. ch_conversation m = c \<and> (case cur of Some k \<Rightarrow> message_key m < k | None \<Rightarrow> True)"
  define key where "key = message_key (?L ! (k - 1))"
  have "?L ! (k - 1) \<in> set ?L" using assms(2,3) by simp
  moreover have "set ?L \<subseteq> {m. ?in m}" by (auto simp: from_cursor_def)
  ultimately have "?in (?L ! (k - 1))" by blast
  then have "case cur of Some k \<Rightarrow> key < k | None \<Rightarrow> True" unfolding key_def by (rule conjunct2)
  then have "(\<lambda>m. ch_conversation m = c \<and> message_key m < key) = (\<lambda>m. ?in m \<and> message_key m < key)"
    by (auto split: option.splits intro: less_trans)
  then have "from_cursor c (Some key) s = filter (\<lambda>m. message_key m < key) ?L"
    by (simp add: from_cursor_def newestFirst_filter conj_commute)
  also have "\<dots> = drop k ?L"
    unfolding key_def
  proof (rule descending_below [OF _ assms(2,3)])
    have "distinct (map ch_id (filter ?in (md_chat s)))" using assms(1) by (rule distinct_map_filter)
    then show "sorted_wrt (\<lambda>a b. message_key b < message_key a) ?L"
      unfolding from_cursor_def by (rule newestFirst_descends)
  qed
  finally show ?thesis by (simp add: key_def)
qed

lemma followPages_from:
  assumes "distinct (map ch_id (md_chat s))" "length (from_cursor c cur s) < n"
  shows "followPages n c limit cur admin s = map (viewMessage admin) (from_cursor c cur s)"
  using assms(2)
proof (induction n arbitrary: cur)
  case 0
  then show ?case by simp
next
  case (Suc n)
  let ?L = "from_cursor c cur s"
  define k where "k = nat (min (max (case limit of Some n \<Rightarrow> n | None \<Rightarrow> 50) 1) 200)"
  have k: "0 < k" by (simp add: k_def)
  have page: "getMessagePage c limit cur None admin s =
      (map (viewMessage admin) (rev (take k ?L)), buildLookaheadNextCursor message_key (take (k + 1) ?L) k)"
    by (cases cur) (simp_all add: getMessagePage_def from_cursor_def k_def Let_def)
  show ?case
  proof (cases "length ?L \<le> k")
    case True
    then show ?thesis by (simp add: page buildLookaheadNextCursor_def rev_map)
  next
    case False
    then have next_cursor: "buildLookaheadNextCursor message_key (take (k + 1) ?L) k = Some (message_key (?L ! (k - 1)))"
      using k by (simp add: buildLookaheadNextCursor_def)
    have rest: "from_cursor c (Some (message_key (?L ! (k - 1)))) s = drop k ?L"
      by (rule from_cursor_next [OF assms(1) k]) (use False in simp)
    have "followPages n c limit (Some (message_key (?L ! (k - 1)))) admin s = map (viewMessage admin) (drop k ?L)"
      using Suc.IH [of "Some (message_key (?L ! (k - 1)))"] Suc.prems k False unfolding rest by simp
    then show ?thesis unfolding followPages.simps page prod.case next_cursor option.case
      by (simp add: rev_map flip: map_append)
  qed
qed

text \<open>
  C39: the pages of a conversation cover it. Following the cursors \<open>getMessagePage\<close> returns, from the first page
  to the one without a cursor, with any limit, yields every message of the conversation exactly once, newest
  first, whatever timestamps coincide; more pages than messages are never needed.
\<close>

theorem pages_cover:
  assumes "distinct (map ch_id (md_chat s))" "length (filter (\<lambda>m. ch_conversation m = c) (md_chat s)) < n"
  shows "followPages n c limit None admin s = map (viewMessage admin) (newestFirst (filter (\<lambda>m. ch_conversation m = c) (md_chat s)))"
proof -
  have L: "from_cursor c None s = newestFirst (filter (\<lambda>m. ch_conversation m = c) (md_chat s))" by (simp add: from_cursor_def)
  then have "length (from_cursor c None s) < n" using assms(2) by (simp add: newestFirst_def)
  from followPages_from [OF assms(1) this] show ?thesis by (simp add: L)
qed

section \<open>Pages of a dispute\<close>

text \<open>The client of \<open>followPages\<close>, for a dispute.\<close>

fun followDispute ::
  "nat \<Rightarrow> uuid \<Rightarrow> int option \<Rightarrow> (time \<times> int \<times> uuid) option \<Rightarrow> bool \<Rightarrow> media \<Rightarrow> dispute_message_row list" where
  "followDispute 0 d limit cur admin s = []"
| "followDispute (Suc n) d limit cur admin s = (case disputePage d limit cur admin s of (page, next) \<Rightarrow>
     rev page @ (case next of None \<Rightarrow> [] | Some cur' \<Rightarrow> followDispute n d limit (Some cur') admin s))"

definition dispute_from :: "uuid \<Rightarrow> (time \<times> int \<times> uuid) option \<Rightarrow> bool \<Rightarrow> media \<Rightarrow> dispute_message_row list" where
  "dispute_from d cur admin s = rev (sort_key dispute_key (filter (\<lambda>m. dm_dispute m = d \<and> (admin \<or> \<not> dm_hidden m) \<and>
     (case cur of Some k \<Rightarrow> dispute_key m < k | None \<Rightarrow> True)) (md_dispute_chat s)))"

lemma dispute_page_size:
  "\<exists>k. 0 < k \<and> (\<forall>cur. disputePage d limit cur admin s =
     (rev (take k (dispute_from d cur admin s)), buildNextCursor dispute_date_key (take k (dispute_from d cur admin s)) k))"
  by (rule exI [of _ "nat (min (max (case limit of Some n \<Rightarrow> n | None \<Rightarrow> 50) 1) 100)"])
    (simp add: disputePage_def dispute_from_def Let_def)

lemma dispute_from_mem:
  "m \<in> set (dispute_from d cur admin s) \<longleftrightarrow> m \<in> set (md_dispute_chat s) \<and> dm_dispute m = d \<and> (admin \<or> \<not> dm_hidden m) \<and>
     (case cur of Some k \<Rightarrow> dispute_key m < k | None \<Rightarrow> True)"
  by (auto simp: dispute_from_def)

lemma date_key_le: "0 \<le> dm_micros m \<Longrightarrow> dispute_date_key m \<le> dispute_key m"
  by (auto simp: dispute_date_key_def dispute_key_def less_eq_prod_def less_le)

text \<open>What a client still sees after a cursor lies below it.\<close>

lemma followDispute_below:
  assumes "\<forall>m\<in>set (md_dispute_chat s). 0 \<le> dm_micros m" "m \<in> set (followDispute n d limit (Some cur) admin s)"
  shows "dispute_key m < cur"
  using assms(2)
proof (induction n arbitrary: cur)
  case (Suc n)
  let ?L = "dispute_from d (Some cur) admin s"
  obtain k where k: "0 < k" and page: "\<And>cur. disputePage d limit cur admin s =
      (rev (take k (dispute_from d cur admin s)), buildNextCursor dispute_date_key (take k (dispute_from d cur admin s)) k)"
    using dispute_page_size [of d limit admin s] by blast
  from Suc.prems consider "m \<in> set (take k ?L)"
    | "k \<le> length ?L" "m \<in> set (followDispute n d limit (Some (dispute_date_key (last (take k ?L)))) admin s)"
    by (auto simp: page buildNextCursor_def split: if_splits)
  then show ?case
  proof cases
    case 1
    then have "m \<in> set ?L" by (rule in_set_takeD)
    then show ?thesis by (simp add: dispute_from_mem)
  next
    case 2
    then have "last (take k ?L) \<in> set (take k ?L)" using k by (intro last_in_set) auto
    then have "last (take k ?L) \<in> set ?L" by (rule in_set_takeD)
    then have "dispute_date_key (last (take k ?L)) < cur"
      using assms(1) date_key_le le_less_trans by (fastforce simp: dispute_from_mem)
    then show ?thesis using Suc.IH [OF 2(2)] by simp
  qed
qed simp

text \<open>
  C40: paging a dispute loses messages. The cursor of a page is the date of its oldest message without its
  microseconds. A message of the same millisecond that did not fit on the page and whose stored time has microseconds
  (so not one written in the very first microsecond of its millisecond, as a test that sets whole milliseconds
  does) is on no later page either, although it belongs to the dispute and is not hidden.
\<close>

theorem dispute_pages_skip:
  assumes "\<forall>m\<in>set (md_dispute_chat s). 0 \<le> dm_micros m"
    and page: "disputePage d limit None admin s = (rows, Some cur)"
    and y: "y \<in> set (md_dispute_chat s)" "dm_dispute y = d" "\<not> dm_hidden y" "y \<notin> set rows"
      "dm_created_at y = fst cur" "0 < dm_micros y"
  shows "y \<notin> set (followDispute n d limit None admin s)"
proof (cases n)
  case (Suc k)
  obtain m where "cur = dispute_date_key m"
    using page by (auto simp: disputePage_def Let_def buildNextCursor_def split: if_splits)
  then have "\<not> dispute_key y < cur" using y(5,6) by (simp add: dispute_key_def dispute_date_key_def less_prod_def)
  then have "y \<notin> set (followDispute k d limit (Some cur) admin s)" using followDispute_below [OF assms(1)] by blast
  then show ?thesis using y(4) by (simp add: Suc page)
qed simp

lemma dispute_from_descends:
  assumes "distinct (map dm_created_at (md_dispute_chat s))"
  shows "sorted_wrt (\<lambda>a b. dispute_key b < dispute_key a) (dispute_from d cur admin s)"
proof -
  let ?rows = "filter (\<lambda>m. dm_dispute m = d \<and> (admin \<or> \<not> dm_hidden m) \<and>
     (case cur of Some k \<Rightarrow> dispute_key m < k | None \<Rightarrow> True)) (md_dispute_chat s)"
  have "distinct (map dm_created_at ?rows)" using assms by (rule distinct_map_filter)
  then have "distinct (map dispute_key (sort_key dispute_key ?rows))"
    by (auto simp: distinct_map inj_on_def dispute_key_def)
  then have "sorted_wrt (<) (map dispute_key (sort_key dispute_key ?rows))" by (simp add: strict_sorted_iff)
  then show ?thesis by (simp add: dispute_from_def sorted_wrt_rev sorted_wrt_map)
qed

lemma dispute_from_next:
  assumes "distinct (map dm_created_at (md_dispute_chat s))" "\<forall>m\<in>set (md_dispute_chat s). 0 \<le> dm_micros m"
    and k: "0 < k" "k \<le> length (dispute_from d cur admin s)"
  shows "dispute_from d (Some (dispute_date_key (dispute_from d cur admin s ! (k - 1)))) admin s = drop k (dispute_from d cur admin s)"
proof -
  let ?L = "dispute_from d cur admin s"
  define x where "x = ?L ! (k - 1)"
  have "x \<in> set ?L" unfolding x_def using k by simp
  then have x: "x \<in> set (md_dispute_chat s)" "case cur of Some k \<Rightarrow> dispute_key x < k | None \<Rightarrow> True"
    by (simp_all add: dispute_from_mem)
  have same: "dispute_key m < dispute_date_key x \<longleftrightarrow> dispute_key m < dispute_key x" if "m \<in> set (md_dispute_chat s)" for m
  proof (cases "dm_created_at m = dm_created_at x")
    case True
    then have "m = x" using assms(1) that x(1) by (metis inj_onD distinct_map)
    then show ?thesis using date_key_le [of x] assms(2) x(1) by auto
  next
    case False
    then show ?thesis by (auto simp: dispute_key_def dispute_date_key_def less_prod_def less_le)
  qed
  have "filter (\<lambda>m. dm_dispute m = d \<and> (admin \<or> \<not> dm_hidden m) \<and> dispute_key m < dispute_date_key x) (md_dispute_chat s) =
      filter (\<lambda>m. dm_dispute m = d \<and> (admin \<or> \<not> dm_hidden m) \<and>
        (case cur of Some k \<Rightarrow> dispute_key m < k | None \<Rightarrow> True) \<and> dispute_key m < dispute_key x) (md_dispute_chat s)"
    by (rule filter_cong) (use same x(2) in \<open>auto split: option.splits\<close>)
  then have "dispute_from d (Some (dispute_date_key x)) admin s = filter (\<lambda>m. dispute_key m < dispute_key x) ?L"
    by (simp add: dispute_from_def filter_sort flip: rev_filter)
  also have "\<dots> = drop k ?L"
    unfolding x_def by (rule descending_below [OF dispute_from_descends [OF assms(1)] k])
  finally show ?thesis by (simp add: x_def)
qed

text \<open>When no two messages share a millisecond, the pages cover the dispute.\<close>

lemma dispute_pages_cover:
  assumes "distinct (map dm_created_at (md_dispute_chat s))" "\<forall>m\<in>set (md_dispute_chat s). 0 \<le> dm_micros m"
    "length (dispute_from d cur admin s) < n"
  shows "followDispute n d limit cur admin s = dispute_from d cur admin s"
  using assms(3)
proof (induction n arbitrary: cur)
  case (Suc n)
  let ?L = "dispute_from d cur admin s"
  obtain k where k: "0 < k" and page: "\<And>cur. disputePage d limit cur admin s =
      (rev (take k (dispute_from d cur admin s)), buildNextCursor dispute_date_key (take k (dispute_from d cur admin s)) k)"
    using dispute_page_size [of d limit admin s] by blast
  show ?case
  proof (cases "length ?L < k")
    case True
    then show ?thesis by (simp add: page buildNextCursor_def)
  next
    case False
    then have "last (take k ?L) = ?L ! (k - 1)" using k by (subst last_conv_nth) (auto simp: min_def)
    then have next_cursor: "buildNextCursor dispute_date_key (take k ?L) k = Some (dispute_date_key (?L ! (k - 1)))"
      using False by (simp add: buildNextCursor_def)
    have rest: "dispute_from d (Some (dispute_date_key (?L ! (k - 1)))) admin s = drop k ?L"
      by (rule dispute_from_next [OF assms(1,2) k]) (use False in simp)
    have "followDispute n d limit (Some (dispute_date_key (?L ! (k - 1)))) admin s = drop k ?L"
      using Suc.IH [of "Some (dispute_date_key (?L ! (k - 1)))"] Suc.prems k False unfolding rest by simp
    then show ?thesis unfolding followDispute.simps page prod.case next_cursor option.case by simp
  qed
qed simp

section \<open>Attachments\<close>

definition settled :: "StorageObject \<Rightarrow> bool" where
  "settled obj \<longleftrightarrow> so_status obj \<noteq> Uploading \<and> so_status obj \<noteq> Temporary"

definition advance_row :: "StorageObject \<Rightarrow> StorageObject \<Rightarrow> bool" where
  "advance_row a b \<longleftrightarrow> fixed_part a = fixed_part b \<and> (settled a \<longrightarrow> settled b)"

text \<open>No row is lost, becomes unsettled again or changes hands, and no message is touched.\<close>

definition advance :: "media \<Rightarrow> media \<Rightarrow> bool" where
  "advance s t \<longleftrightarrow> md_chat t = md_chat s \<and> md_dispute_chat t = md_dispute_chat s \<and>
     (\<forall>a\<in>set (md_objects s). \<exists>b\<in>set (md_objects t). advance_row a b) \<and>
     (distinct (map so_id (md_objects s)) \<longrightarrow> distinct (map so_id (md_objects t)))"

lemma advance_row_refl: "advance_row a a"
  by (simp add: advance_row_def)

lemma advance_row_trans: "advance_row a b \<Longrightarrow> advance_row b c \<Longrightarrow> advance_row a c"
  by (simp add: advance_row_def)

lemma advance_same: "md_objects t = md_objects s \<Longrightarrow> md_chat t = md_chat s \<Longrightarrow> md_dispute_chat t = md_dispute_chat s \<Longrightarrow> advance s t"
  unfolding advance_def using advance_row_refl by auto

interpretation advance: frame advance
proof
  show "advance s s" for s by (rule advance_same) simp_all
  show "advance s u" if st: "advance s t" and tu: "advance t u" for s t u
    unfolding advance_def
  proof (intro conjI ballI impI)
    fix a
    assume "a \<in> set (md_objects s)"
    then obtain b where b: "b \<in> set (md_objects t)" "advance_row a b" using st by (auto simp: advance_def)
    then obtain c where "c \<in> set (md_objects u)" "advance_row b c" using tu by (auto simp: advance_def)
    then show "\<exists>c\<in>set (md_objects u). advance_row a c" using advance_row_trans [OF b(2)] by blast
  qed (use st tu in \<open>simp_all add: advance_def\<close>)
qed

lemma advance_t_upd:
  assumes "\<And>obj. advance_row obj (f obj)"
  shows "advance s (md_objects_update (t_upd so_id i f) s)"
proof -
  have ids: "so_id (f obj) = so_id obj" for obj using assms [of obj] by (simp add: advance_row_def fixed_part_eq)
  have "\<exists>b\<in>set (t_upd so_id i f (md_objects s)). advance_row a b" if "a \<in> set (md_objects s)" for a
    using that assms [of a] advance_row_refl [of a] by (auto simp: t_upd_def intro: rev_bexI)
  then show ?thesis by (simp add: advance_def map_t_upd ids)
qed

lemma advance_onDb: "frame.keeps advance (onDb m)"
  unfolding advance.keeps_def onDb_def by (auto intro!: advance_same split: prod.splits)

lemma advance_mediaTx: "frame.keeps advance m \<Longrightarrow> frame.keeps advance (mediaTx m)"
  unfolding advance.keeps_def mediaTx_def
  by (force simp: media_rollback_def intro: advance_same split: prod.splits sum.splits)

lemma advance_case_list: "frame.keeps advance m \<Longrightarrow> (\<And>x xs. frame.keeps advance (f x xs)) \<Longrightarrow>
    frame.keeps advance (case l of [] \<Rightarrow> m | x # xs \<Rightarrow> f x xs)"
  by (cases l) simp_all

lemma advance_files: "frame.keeps advance (tx_modify (md_files_update g))"
  by (rule advance.keeps_modify) (simp add: advance_same)

lemma advance_upd: "(\<And>obj. advance_row obj (f obj)) \<Longrightarrow> frame.keeps advance (tx_modify (md_objects_update (t_upd so_id i f)))"
  by (intro advance.keeps_modify advance_t_upd)

lemma advance_case_fate: "frame.keeps advance a \<Longrightarrow> frame.keeps advance b \<Longrightarrow> frame.keeps advance c \<Longrightarrow>
    frame.keeps advance (case fate of IoDone \<Rightarrow> a | IoFailed \<Rightarrow> b | IoUnconfirmed \<Rightarrow> c)"
  by (cases fate) simp_all

lemmas advance_intros = advance.keeps_bind advance.keeps_catch advance.keeps_basic advance.keeps_when advance.keeps_if
  advance.keeps_case_option advance_onDb advance_mediaTx advance_case_list advance_files advance_case_fate

lemma advance_ops:
  "frame.keeps advance (writePhysicalObject cfg fate d k)"
  "frame.keeps advance (finalizeUpload i)"
  "frame.keeps advance (enqueueStorageDeletion cfg now upd reopen key i)"
  "frame.keeps advance (attachStorageObject now i u p)"
  "frame.keeps advance (deleteStorageObject cfg now fate i)"
proof -
  show "frame.keeps advance (writePhysicalObject cfg fate d k)"
    unfolding writePhysicalObject_def Let_def by (intro advance_intros)
  show "frame.keeps advance (finalizeUpload i)"
    unfolding finalizeUpload_def by (intro advance_intros advance_upd) (auto simp: advance_row_def fixed_part_eq settled_def)
  show "frame.keeps advance (enqueueStorageDeletion cfg now upd reopen key i)"
    unfolding enqueueStorageDeletion_def by (intro advance_intros advance_upd) (auto simp: advance_row_def fixed_part_eq settled_def)
  show "frame.keeps advance (attachStorageObject now i u p)"
    unfolding attachStorageObject_def by (intro advance_intros advance_upd) (auto simp: advance_row_def fixed_part_eq settled_def)
  show "frame.keeps advance (deleteStorageObject cfg now fate i)"
    unfolding deleteStorageObject_def deletionTarget_def deletePhysicalObject_def markDeleted_def Let_def
    by (intro advance_intros advance_upd) (auto simp: advance_row_def fixed_part_eq settled_def)
qed

lemma advance_background:
  "frame.keeps advance (recoverUpload cfg now upd fault i)"
  "frame.keeps advance (cleanupOne cfg now upd h fault i)"
  unfolding recoverUpload_def cleanupOne_def by (intro advance_intros advance_ops)+

lemma advance_reserve:
  assumes "reserveUpload cfg now u key purpose img s = (r, t)"
  shows "advance s t"
proof -
  have chat: "md_chat t = md_chat s" "md_dispute_chat t = md_dispute_chat s"
    using assms by (auto simp: reserveUpload_def mediaTx_def media_rollback_def assertUploadQuota_def insertUpload_def tx_defs onDb_def
      gen_random_uuid_def Let_def split: prod.splits sum.splits if_splits)
  show ?thesis
  proof (cases r)
    case (Inl e)
    then show ?thesis using reserveUpload_Inl assms chat by (intro advance_same) simp_all
  next
    case (Inr row)
    then have "md_objects t = md_objects s @ [row]" "so_id row \<notin> so_id ` set (md_objects s)"
      using reserveUpload_Inr assms by blast+
    then show ?thesis using chat advance_row_refl by (auto simp: advance_def)
  qed
qed

text \<open>The attachments in use, of both kinds of messages, and the object behind one.\<close>

fun somes :: "('a \<Rightarrow> 'b option) \<Rightarrow> 'a list \<Rightarrow> 'b list" where
  "somes f [] = []"
| "somes f (x # xs) = (case f x of None \<Rightarrow> somes f xs | Some y \<Rightarrow> y # somes f xs)"

lemma somes_append [simp]: "somes f (xs @ ys) = somes f xs @ somes f ys"
  by (induction xs) (auto split: option.splits)

lemma set_somes: "y \<in> set (somes f xs) \<longleftrightarrow> (\<exists>x\<in>set xs. f x = Some y)"
  by (induction xs) (auto split: option.splits)

lemma count_somes: "length (filter (\<lambda>x. f x = Some y) xs) = count_list (somes f xs) y"
  by (induction xs) (auto split: option.splits)

lemma count_distinct: "distinct xs \<Longrightarrow> count_list xs x = (if x \<in> set xs then 1 else 0)"
  by (induction xs) auto

definition attached_ids :: "media \<Rightarrow> uuid list" where
  "attached_ids s = somes ch_attachment (md_chat s) @ somes dm_attachment (md_dispute_chat s)"

definition held_by :: "media \<Rightarrow> uuid \<Rightarrow> uuid \<Rightarrow> bool" where
  "held_by s i u \<longleftrightarrow> (\<exists>obj\<in>set (md_objects s). so_id obj = i \<and> so_owner obj = u \<and> so_purpose obj = ChatAttachment \<and> settled obj)"

definition media_ok :: "media \<Rightarrow> bool" where
  "media_ok s \<longleftrightarrow> distinct (map so_id (md_objects s)) \<and> distinct (attached_ids s) \<and>
     (\<forall>m\<in>set (md_chat s). \<forall>i. ch_attachment m = Some i \<longrightarrow> (\<exists>u. ch_sender m = Some u \<and> held_by s i u)) \<and>
     (\<forall>m\<in>set (md_dispute_chat s). \<forall>i. dm_attachment m = Some i \<longrightarrow> held_by s i (dm_author m))"

lemma held_by_advance:
  assumes "advance s t" "held_by s i u"
  shows "held_by t i u"
proof -
  obtain a where a: "a \<in> set (md_objects s)" "so_id a = i" "so_owner a = u" "so_purpose a = ChatAttachment" "settled a"
    using assms(2) by (auto simp: held_by_def)
  then obtain b where "b \<in> set (md_objects t)" "advance_row a b" using assms(1) by (auto simp: advance_def)
  then show ?thesis using a by (auto simp: held_by_def advance_row_def fixed_part_eq)
qed

lemma media_ok_advance: "media_ok s \<Longrightarrow> advance s t \<Longrightarrow> media_ok t"
  using held_by_advance [of s t] by (auto simp: media_ok_def advance_def attached_ids_def) blast

lemma attached_held: "media_ok s \<Longrightarrow> i \<in> set (attached_ids s) \<Longrightarrow> \<exists>u. held_by s i u"
  by (fastforce simp: attached_ids_def media_ok_def set_somes)

lemma attachUpload_result:
  assumes ok: "media_ok s" and run: "attachUpload now u upload s = (Inr a, t)"
  shows "a = upload \<and> media_ok t \<and> md_chat t = md_chat s \<and> md_dispute_chat t = md_dispute_chat s \<and>
    (\<forall>i. upload = Some i \<longrightarrow> i \<notin> set (attached_ids s) \<and> held_by t i u)"
proof (cases upload)
  case None
  then show ?thesis using run ok by (auto simp: attachUpload_def tx_simps)
next
  case (Some i)
  from run obtain obj where obj: "t_find so_id i (md_objects s) = Some obj" "so_owner obj = u" "so_status obj = Temporary"
    "so_purpose obj = ChatAttachment" and a: "a = Some (so_id obj)"
    and t: "t = md_objects_update (t_upd so_id (so_id obj)
       (\<lambda>obj. if so_status obj = Temporary then obj\<lparr>so_status := Attached, so_attached_at := Some now\<rparr> else obj)) s"
    unfolding Some by (force simp: attachUpload_def attachStorageObject_def tx_simps)
  have i: "so_id obj = i" "obj \<in> set (md_objects s)" using t_find_Some [OF obj(1)] by auto
  have adv: "advance s t" unfolding t
    by (intro advance_t_upd) (auto simp: advance_row_def fixed_part_eq settled_def)
  have "i \<notin> set (attached_ids s)"
  proof
    assume "i \<in> set (attached_ids s)"
    then obtain v where "held_by s i v" using attached_held [OF ok] by blast
    then obtain b where b: "b \<in> set (md_objects s)" "so_id b = i" "settled b" by (auto simp: held_by_def)
    then have "b = obj" using ok obj(1) t_find_distinct [of so_id "md_objects s" b] by (auto simp: media_ok_def)
    then show False using b(3) obj(3) by (simp add: settled_def)
  qed
  moreover have "held_by t i u"
  proof -
    have "obj\<lparr>so_status := Attached, so_attached_at := Some now\<rparr> \<in> set (md_objects t)"
      using i obj(3) unfolding t by (force simp: t_upd_def)
    then show ?thesis unfolding held_by_def using i obj
      by (intro bexI [of _ "obj\<lparr>so_status := Attached, so_attached_at := Some now\<rparr>"]) (auto simp: settled_def)
  qed
  moreover have "md_chat t = md_chat s" "md_dispute_chat t = md_dispute_chat s" using adv by (simp_all add: advance_def)
  ultimately show ?thesis using media_ok_advance [OF ok adv] a i Some by simp
qed

lemma media_ok_add_chat:
  assumes "media_ok s" "md_objects t = md_objects s" "md_chat t = md_chat s @ [m]" "md_dispute_chat t = md_dispute_chat s"
    "\<And>i. ch_attachment m = Some i \<Longrightarrow> i \<notin> set (attached_ids s) \<and> (\<exists>u. ch_sender m = Some u \<and> held_by s i u)"
  shows "media_ok t"
proof -
  have "held_by t i u = held_by s i u" for i u using assms(2) by (simp add: held_by_def)
  then show ?thesis using assms
    by (cases "ch_attachment m") (auto simp: media_ok_def attached_ids_def set_somes)
qed

lemma media_ok_add_dispute:
  assumes "media_ok s" "md_objects t = md_objects s" "md_chat t = md_chat s" "md_dispute_chat t = md_dispute_chat s @ [m]"
    "\<And>i. dm_attachment m = Some i \<Longrightarrow> i \<notin> set (attached_ids s) \<and> held_by s i (dm_author m)"
  shows "media_ok t"
proof -
  have "held_by t i u = held_by s i u" for i u using assms(2) by (simp add: held_by_def)
  then show ?thesis using assms
    by (cases "dm_attachment m") (auto simp: media_ok_def attached_ids_def set_somes)
qed

lemma media_ok_send:
  assumes ok: "media_ok s" and run: "sendMessageIdempotently env now input s = (r, t)"
  shows "media_ok t"
proof -
  have same: "media_ok t" if "md_objects t = md_objects s" "md_chat t = md_chat s" "md_dispute_chat t = md_dispute_chat s"
    by (rule media_ok_advance [OF ok advance_same]) (use that in auto)
  let ?find = "findMessageByClientId (si_sender input) (si_client_id input)"
  show ?thesis
  proof (cases "\<exists>x. mediaTx (sendTx env now input (js_trim (si_body input))) s = (Inr x, t) \<and> ?find s = None")
    case True
    then obtain x where x: "sendTx env now input (js_trim (si_body input)) s = (Inr x, t)" "?find s = None" by (auto simp: mediaTx_Inr)
    obtain a u where u: "attachUpload now (si_sender input) (si_upload input) s = (Inr a, u)"
      "md_chat t = md_chat u @ [sm_message x]" "md_objects t = md_objects u" "md_dispute_chat t = md_dispute_chat u"
      "ch_sender (sm_message x) = Some (si_sender input)" "ch_attachment (sm_message x) = a"
      using sendTx_new [OF x] by blast
    note A = attachUpload_result [OF ok u(1)]
    have "attached_ids u = attached_ids s" using A by (simp add: attached_ids_def)
    then show ?thesis using A u by (intro media_ok_add_chat [of u t "sm_message x"]) auto
  next
    case False
    have "md_objects t = md_objects s \<and> md_chat t = md_chat s \<and> md_dispute_chat t = md_dispute_chat s"
    proof -
      obtain q s' where q: "assertCanSendMessage now (si_conversation input) (si_sender input) s = (q, s')" by fastforce
      have s': "s' = s" using assertCanSend_state [OF q] .
      obtain p v where p: "mediaTx (sendTx env now input (js_trim (si_body input))) s = (p, v)" by fastforce
      have "md_objects v = md_objects s \<and> md_chat v = md_chat s \<and> md_dispute_chat v = md_dispute_chat s" if "p = Inl e" for e
        using mediaTx_Inl [OF p [unfolded that]] by (auto simp: media_rollback_def)
      then show ?thesis using run q False p unfolding s'
        by (cases p; cases q; cases "?find s") (auto simp: sendMessageIdempotently_def Let_def tx_bind_def tx_guard_def tx_return_def
          tx_throw_def tx_gets_def tx_lift_def split: if_splits)
    qed
    then show ?thesis using same by simp
  qed
qed

lemma createDisputeMessage_Inr:
  assumes "createDisputeMessage env now us d u role body upload s = (Inr x, t)"
  shows "\<exists>a v. attachUpload now u upload s = (Inr a, v) \<and> md_objects t = md_objects v \<and> md_chat t = md_chat v \<and>
    (\<exists>m. md_dispute_chat t = md_dispute_chat v @ [m] \<and> dm_author m = u \<and> dm_attachment m = a)"
proof -
  obtain ds s0 where "getDisputeAccess d u role s = (Inr ds, s0)" "s0 = s"
    using assms by (auto simp: createDisputeMessage_def mediaTx_Inr tx_simps getDisputeAccess_def)
  with assms show ?thesis
    by (force simp: createDisputeMessage_def mediaTx_Inr tx_simps onDb_def gen_random_uuid_def)
qed

lemma media_ok_dispute:
  assumes ok: "media_ok s" and run: "createDisputeMessage env now us d u role body upload s = (r, t)"
  shows "media_ok t"
proof (cases r)
  case (Inl e)
  then obtain t' where "t = media_rollback s t'"
    using run by (auto simp: createDisputeMessage_def dest: mediaTx_Inl)
  then show ?thesis by (intro media_ok_advance [OF ok advance_same]) (simp_all add: media_rollback_def)
next
  case (Inr x)
  then obtain a v m where v: "attachUpload now u upload s = (Inr a, v)" "md_objects t = md_objects v" "md_chat t = md_chat v"
    "md_dispute_chat t = md_dispute_chat v @ [m]" "dm_author m = u" "dm_attachment m = a"
    using createDisputeMessage_Inr run by blast
  note A = attachUpload_result [OF ok v(1)]
  have "attached_ids v = attached_ids s" using A by (simp add: attached_ids_def)
  then show ?thesis using A v by (intro media_ok_add_dispute [of v t m]) auto
qed

text \<open>Moderation hides and shows messages.\<close>

lemma media_ok_moderate:
  assumes "media_ok s" "md_objects t = md_objects s"
    "md_chat t = map f (md_chat s)" "\<And>m. ch_attachment (f m) = ch_attachment m \<and> ch_sender (f m) = ch_sender m"
    "md_dispute_chat t = map g (md_dispute_chat s)" "\<And>m. dm_attachment (g m) = dm_attachment m \<and> dm_author (g m) = dm_author m"
  shows "media_ok t"
proof -
  have "somes ch_attachment (map f xs) = somes ch_attachment xs" for xs using assms(4) by (induction xs) (auto split: option.splits)
  moreover have "somes dm_attachment (map g xs) = somes dm_attachment xs" for xs
    using assms(6) by (induction xs) (auto split: option.splits)
  moreover have "held_by t i u = held_by s i u" for i u using assms(2) by (simp add: held_by_def)
  ultimately show ?thesis using assms by (auto simp: media_ok_def attached_ids_def)
qed

lemma hideDisputeMessage_result:
  assumes "hideDisputeMessage d i adm role s = (r, t)"
  shows "t = s \<or> t = md_dispute_chat_update (map (\<lambda>m. if dm_id m = i \<and> dm_dispute m = d then m\<lparr>dm_hidden := True\<rparr> else m)) s"
  using assms by (auto simp: hideDisputeMessage_def getDisputeAccess_def tx_defs split: option.splits prod.splits if_splits)

text \<open>The clock and the state, moved by every operation on media and messages, in any order.\<close>

inductive media_step :: "storage_env \<Rightarrow> time \<times> media \<Rightarrow> time \<times> media \<Rightarrow> bool" for cfg where
  later: "now \<le> n \<Longrightarrow> media_step cfg (now, s) (n, s)"
| send: "sendMessageIdempotently (st_env cfg) now input s = (r, t) \<Longrightarrow> media_step cfg (now, s) (now, t)"
| dispute: "createDisputeMessage (st_env cfg) now us d u role body upload s = (r, t) \<Longrightarrow> media_step cfg (now, s) (now, t)"
| hide_dispute: "hideDisputeMessage d i adm role s = (r, t) \<Longrightarrow> media_step cfg (now, s) (now, t)"
| system: "ch_sender row = None \<Longrightarrow> ch_client_id row = None \<Longrightarrow> ch_attachment row = None \<Longrightarrow>
    media_step cfg (now, s) (now, md_chat_update (\<lambda>rows. rows @ [row]) s)"
| moderate: "media_step cfg (now, s) (now, md_chat_update (map (\<lambda>m. if ch_id m = i then m\<lparr>ch_hidden := b\<rparr> else m)) s)"
| reserve: "reserveUpload cfg now u key purpose img s = (r, t) \<Longrightarrow> media_step cfg (now, s) (now, t)"
| put: "writePhysicalObject cfg fate d k s = (r, t) \<Longrightarrow> media_step cfg (now, s) (now, t)"
| finalize: "finalizeUpload i s = (r, t) \<Longrightarrow> media_step cfg (now, s) (now, t)"
| recover: "recoverUpload cfg now upd fault i s = (r, t) \<Longrightarrow> media_step cfg (now, s) (now, t)"
| attach: "purpose \<noteq> ChatAttachment \<Longrightarrow> attachStorageObject now i u purpose s = (r, t) \<Longrightarrow> media_step cfg (now, s) (now, t)"
| detach: "enqueueStorageDeletion cfg now upd reopen key i s = (r, t) \<Longrightarrow> media_step cfg (now, s) (now, t)"
| cleanup: "cleanupOne cfg now upd h fault i s = (r, t) \<Longrightarrow> media_step cfg (now, s) (now, t)"
| deliver: "deleteStorageObject cfg now fate i s = (r, t) \<Longrightarrow> media_step cfg (now, s) (now, t)"
| elsewhere: "md_objects t = md_objects s \<Longrightarrow> md_chat t = md_chat s \<Longrightarrow> md_dispute_chat t = md_dispute_chat s \<Longrightarrow>
    media_step cfg (now, s) (now, t)"

definition media_init :: "time \<times> media \<Rightarrow> bool" where
  "media_init x \<longleftrightarrow> md_objects (snd x) = [] \<and> md_chat (snd x) = [] \<and> md_dispute_chat (snd x) = []"

lemma media_ok_step: "media_step cfg x y \<Longrightarrow> media_ok (snd x) \<Longrightarrow> media_ok (snd y)"
proof (induction rule: media_step.induct)
  case (send now input s r t)
  then show ?case using media_ok_send by (metis snd_conv)
next
  case (dispute now us d u role body upload s r t)
  then show ?case using media_ok_dispute by (metis snd_conv)
next
  case (hide_dispute d i adm role s r t now)
  let ?g = "\<lambda>m. if dm_id m = i \<and> dm_dispute m = d then m\<lparr>dm_hidden := True\<rparr> else m"
  have "media_ok (md_dispute_chat_update (map ?g) s)"
    by (rule media_ok_moderate [of s _ "\<lambda>m. m" ?g]) (use hide_dispute in simp_all)
  then show ?case using hideDisputeMessage_result [OF hide_dispute(1)] hide_dispute(2) by auto
next
  case (system row now s)
  then show ?case using media_ok_add_chat [of s "md_chat_update (\<lambda>rows. rows @ [row]) s" row] by simp
next
  case (moderate now s i b)
  let ?f = "\<lambda>m. if ch_id m = i then m\<lparr>ch_hidden := b\<rparr> else m"
  have "media_ok (md_chat_update (map ?f) s)"
    by (rule media_ok_moderate [of s _ ?f "\<lambda>m. m"]) (use moderate in simp_all)
  then show ?case by simp
next
  case (reserve now u key purpose img s r t)
  then show ?case by (auto intro: media_ok_advance advance_reserve)
next
  case (put fate d k s r t now)
  then show ?case by (auto intro: media_ok_advance advance.keepsD [OF advance_ops(1)])
next
  case (finalize i s r t now)
  then show ?case by (auto intro: media_ok_advance advance.keepsD [OF advance_ops(2)])
next
  case (recover now upd fault i s r t)
  then show ?case by (auto intro: media_ok_advance advance.keepsD [OF advance_background(1)])
next
  case (attach purpose now i u s r t)
  then show ?case by (auto intro: media_ok_advance advance.keepsD [OF advance_ops(4)])
next
  case (detach now upd reopen key i s r t)
  then show ?case by (auto intro: media_ok_advance advance.keepsD [OF advance_ops(3)])
next
  case (cleanup now upd h fault i s r t)
  then show ?case by (auto intro: media_ok_advance advance.keepsD [OF advance_background(2)])
next
  case (deliver now fate i s r t)
  then show ?case by (auto intro: media_ok_advance advance.keepsD [OF advance_ops(5)])
next
  case (elsewhere t s now)
  then show ?case by (auto intro: media_ok_advance advance_same)
qed simp

lemma media_reachable: "(media_step cfg)\<^sup>*\<^sup>* x y \<Longrightarrow> media_init x \<Longrightarrow> media_ok (snd y)"
proof (induction rule: rtranclp_induct)
  case base
  then show ?case by (simp add: media_init_def media_ok_def attached_ids_def)
next
  case (step y z)
  then show ?case using media_ok_step by blast
qed

lemma one_binding:
  assumes "media_ok s" "i \<in> set (attached_ids s)"
  shows "length (attachmentBindings i s) = 1"
proof -
  have "length (attachmentBindings i s) = count_list (attached_ids s) i"
    by (simp add: attachmentBindings_def count_somes attached_ids_def count_list_append)
  then show ?thesis using assms count_distinct [of "attached_ids s" i] by (simp add: media_ok_def)
qed

lemma attachments_held:
  assumes "media_ok s" "m \<in> set (md_chat s)" "ch_attachment m = Some i" "t_find so_id i (md_objects s) = Some obj"
  shows "so_purpose obj = ChatAttachment"
proof -
  obtain b where b: "b \<in> set (md_objects s)" "so_id b = i" "so_purpose b = ChatAttachment"
    using assms by (auto simp: media_ok_def held_by_def)
  then have "t_find so_id i (md_objects s) = Some b"
    using assms(1) t_find_distinct [of so_id "md_objects s" b] by (simp add: media_ok_def)
  then show ?thesis using assms(4) b(3) by simp
qed

text \<open>
  C37: an attachment belongs to one message of its owner. In every reachable state, whatever was sent, moderated,
  uploaded, deleted or cleaned up in between, the attachment of a message, in a conversation or a dispute, is an
  object of the message's author, uploaded as a chat attachment and no longer free to be attached, and it has
  exactly one binding.
\<close>

theorem attachments_exclusive:
  assumes "media_init x" "(media_step cfg)\<^sup>*\<^sup>* x (now, s)"
    and used: "(\<exists>m\<in>set (md_chat s). ch_attachment m = Some i \<and> ch_sender m = Some u) \<or>
      (\<exists>m\<in>set (md_dispute_chat s). dm_attachment m = Some i \<and> dm_author m = u)"
  shows "(\<exists>obj. t_find so_id i (md_objects s) = Some obj \<and> so_owner obj = u \<and> so_purpose obj = ChatAttachment \<and>
      so_status obj \<noteq> Uploading \<and> so_status obj \<noteq> Temporary) \<and> length (attachmentBindings i s) = 1"
proof -
  have ok: "media_ok s" using media_reachable [OF assms(2,1)] by simp
  have "i \<in> set (attached_ids s)" using used by (auto simp: attached_ids_def set_somes)
  moreover have "held_by s i u" using ok used by (auto simp: media_ok_def)
  then obtain obj where obj: "obj \<in> set (md_objects s)" "so_id obj = i" "so_owner obj = u" "so_purpose obj = ChatAttachment" "settled obj"
    by (auto simp: held_by_def)
  moreover have "t_find so_id i (md_objects s) = Some obj"
    using ok obj(1,2) t_find_distinct [of so_id "md_objects s" obj] by (simp add: media_ok_def)
  ultimately show ?thesis using one_binding [OF ok] by (simp add: settled_def)
qed

lemma find_refined: "t_find key i rows = Some r \<Longrightarrow> Q r \<Longrightarrow> find (\<lambda>x. key x = i \<and> Q x) rows = Some r"
  by (induction rows) (auto split: if_splits)

text \<open>What the checks of a conversation decide.\<close>

definition may_read :: "media \<Rightarrow> chat_row \<Rightarrow> conversation_row \<Rightarrow> uuid \<Rightarrow> Role \<Rightarrow> bool" where
  "may_read s m c u role \<longleftrightarrow> (ch_hidden m \<longrightarrow> role = RAdmin) \<and> (role = RAdmin \<or> cv_buyer c = u \<or> cv_seller c = u \<or>
     (role = RModerator \<and> (\<exists>d ds. reviewDispute (ch_conversation m) s = Some d \<and> t_find d_id d (disputes (md_db s)) = Some ds \<and>
       t_find o_id (d_order ds) (orders (md_db s)) \<noteq> None)))"

lemma conversationReadAccess_result:
  assumes "t_find cv_id (ch_conversation m) (conversations (md_db s)) = Some c"
  shows "tx_catch (conversationReadAccess \<lparr>sb_kind = InConversation, sb_context = ch_conversation m, sb_hidden = ch_hidden m,
      sb_review = reviewDispute (ch_conversation m) s\<rparr> u role) hideAttachmentLookupFailure s =
    (if role = RAdmin \<or> cv_buyer c = u \<or> cv_seller c = u \<or> (role = RModerator \<and> (\<exists>d ds. reviewDispute (ch_conversation m) s = Some d \<and>
        t_find d_id d (disputes (md_db s)) = Some ds \<and> t_find o_id (d_order ds) (orders (md_db s)) \<noteq> None))
     then Inr () else Inl (notFound ''Media not found''), s)"
proof -
  have access: "assertConversationAccess (ch_conversation m) u role s = (if role = RAdmin \<or> cv_buyer c = u \<or> cv_seller c = u
      then Inr (cv_buyer c, cv_seller c) else Inl (forbidden ''Forbidden''), s)" for role
    using assms(1) by (auto simp: assertConversationAccess_def getConversationParties_def tx_defs)
  have review: "assertDisputeAttachmentAccess d u RModerator s =
      (if \<exists>ds. t_find d_id d (disputes (md_db s)) = Some ds \<and> t_find o_id (d_order ds) (orders (md_db s)) \<noteq> None
       then Inr () else Inl (notFound ''Dispute not found''), s)" for d
    by (auto simp: assertDisputeAttachmentAccess_def getDisputeAccess_def canReviewDisputes_def tx_defs split: option.splits)
  note defs = conversationReadAccess_def tx_catch_def tx_bind_def access hideAttachmentLookupFailure_def tx_throw_def
    tx_return_def error_defs
  show ?thesis
  proof (cases "role = RAdmin \<or> cv_buyer c = u \<or> cv_seller c = u")
    case True
    then have "role = RAdmin \<or> cv_buyer c = u \<or> cv_seller c = u \<or> x" for x by blast
    with True show ?thesis by (simp add: defs)
  next
    case outsider: False
    show ?thesis
    proof (cases "role = RModerator \<and> reviewDispute (ch_conversation m) s \<noteq> None")
      case True
      then obtain d where "reviewDispute (ch_conversation m) s = Some d" by blast
      with True outsider show ?thesis by (simp add: defs review)
    next
      case False
      with outsider show ?thesis by (cases "reviewDispute (ch_conversation m) s") (simp_all add: defs)
    qed
  qed
qed

text \<open>
  C38: who reads the attachment of a message. In every reachable state, for an attached object of a message in a
  conversation, the private route returns it exactly to the two parties, to administrators, and to moderators
  when the conversation's order has a dispute to review, and, once the message is hidden, to administrators
  alone; everyone else gets the same 404, and the public route never returns it.
\<close>

theorem attachment_readers:
  assumes "media_init x" "(media_step cfg)\<^sup>*\<^sup>* x (now, s)"
    and m: "m \<in> set (md_chat s)" "ch_attachment m = Some i"
    and obj: "t_find so_id i (md_objects s) = Some obj" "so_status obj = Attached"
    and conv: "t_find cv_id (ch_conversation m) (conversations (md_db s)) = Some c"
  shows "privateMediaRoute i u role s = (if may_read s m c u role then Inr obj else Inl (notFound ''Media not found''), s) \<and>
    getPublicStorageObjectById i s = (Inl (notFound ''Media not found''), s)"
proof -
  have ok: "media_ok s" using media_reachable [OF assms(2,1)] by simp
  have used: "i \<in> set (attached_ids s)" using m by (auto simp: attached_ids_def set_somes)
  have chat: "so_purpose obj = ChatAttachment"
    using attachments_held [OF ok m obj(1)] .
  let ?b = "\<lparr>sb_kind = InConversation, sb_context = ch_conversation m, sb_hidden = ch_hidden m,
         sb_review = reviewDispute (ch_conversation m) s\<rparr>"
  have "?b \<in> set (attachmentBindings i s)" using m by (auto simp: attachmentBindings_def)
  moreover have "length (attachmentBindings i s) = 1" by (rule one_binding [OF ok used])
  ultimately have bindings: "attachmentBindings i s = [?b]" by (cases "attachmentBindings i s") auto
  have id: "so_id obj = i" using t_find_Some [OF obj(1)] by simp
  have "assertProtectedReadAccess obj u role s = (if may_read s m c u role then Inr () else Inl (notFound ''Media not found''), s)"
    using conversationReadAccess_result [OF conv, of u role]
    by (auto simp: assertProtectedReadAccess_def obj(2) chat isPrivateStoragePurpose_def privateStoragePurposes_def
        getStorageAttachmentBinding_def bindings id tx_bind_def tx_gets_def tx_return_def tx_guard_def tx_throw_def may_read_def)
  moreover have "getProtectedStorageObjectById i s = (Inr obj, s)"
    using find_refined [of so_id i "md_objects s" obj "\<lambda>obj. so_status obj = Temporary \<or> so_status obj = Attached"] obj
    by (simp add: getProtectedStorageObjectById_def tx_defs)
  ultimately have "privateMediaRoute i u role s = (if may_read s m c u role then Inr obj else Inl (notFound ''Media not found''), s)"
    by (simp add: privateMediaRoute_def tx_bind_def tx_return_def)
  moreover have "getPublicStorageObjectById i s = (Inl (notFound ''Media not found''), s)"
  proof -
    have "y = obj" if "y \<in> set (md_objects s)" "so_id y = i" for y
      using t_find_distinct [of so_id "md_objects s" y] ok that obj(1) by (simp add: media_ok_def)
    then have "find (\<lambda>obj. so_id obj = i \<and> isPublicStoragePurpose (so_purpose obj) \<and> so_status obj = Attached \<and>
       (so_purpose obj \<noteq> CatalogAsset \<or> publicCatalogAssetBindingExists s obj)) (md_objects s) = None"
      using chat by (auto simp: find_None_iff isPublicStoragePurpose_def publicStoragePurposes_def)
    then show ?thesis by (simp add: getPublicStorageObjectById_def getPublicStorageObject_def tx_defs)
  qed
  ultimately show ?thesis by blast
qed

section \<open>Samples\<close>

definition conversation0 :: conversation_row where
  "conversation0 = \<lparr>cv_id = ''c'', cv_buyer = ''buyer'', cv_seller = ''seller'', cv_product = None, cv_order = None\<rparr>"

definition chat0 :: media where
  "chat0 = reserved0\<lparr>md_db := (md_db reserved0)\<lparr>conversations := [conversation0]\<rparr>, md_objects := [upload0\<lparr>so_status := Temporary\<rparr>]\<rparr>"

definition input0 :: SendInput where
  "input0 = \<lparr>si_conversation = ''c'', si_sender = ''buyer'', si_client_id = ''k'', si_body = '' hi'', si_upload = Some ''u''\<rparr>"

definition message0 :: chat_row where
  "message0 = \<lparr>ch_id = ''ux'', ch_conversation = ''c'', ch_sender = Some ''buyer'', ch_client_id = Some ''k'', ch_body = ''hi'',
     ch_attachment = Some ''u'', ch_created_at = 5, ch_hidden = False\<rparr>"

definition sent0 :: media where
  "sent0 = snd (sendMessageIdempotently env0 5 input0 chat0)"

lemma send_sample:
  "fst (sendMessageIdempotently env0 5 input0 chat0) = Inr \<lparr>sm_message = message0, sm_created = True\<rparr>"
  by code_simp

lemma sent_sample:
  "md_chat sent0 = [message0]" "t_find so_id ''u'' (md_objects sent0) = Some (upload0\<lparr>so_status := Attached, so_attached_at := Some 5\<rparr>)"
  "t_find cv_id ''c'' (conversations (md_db sent0)) = Some conversation0"
  by code_simp+

lemma sent_run: "sendMessageIdempotently env0 5 input0 chat0 = (Inr \<lparr>sm_message = message0, sm_created = True\<rparr>, sent0)"
  using send_sample by (simp add: sent0_def prod_eq_iff)

lemma sent_reachable: "(media_step storage0)\<^sup>*\<^sup>* (5, media0) (5, sent0)"
proof -
  have "media_step storage0 (5, media0) (5, reserved0)" using reserve_sample by (rule media_step.reserve)
  moreover have "media_step storage0 (5, reserved0) (5, reserved0\<lparr>md_objects := [upload0\<lparr>so_status := Temporary\<rparr>]\<rparr>)"
    by (rule media_step.finalize [of "''u''"])
      (simp add: finalizeUpload_def tx_defs reserved0_def upload0_def t_upd_def)
  moreover have "media_step storage0 (5, reserved0\<lparr>md_objects := [upload0\<lparr>so_status := Temporary\<rparr>]\<rparr>) (5, chat0)"
    by (rule media_step.elsewhere) (simp_all add: chat0_def)
  moreover have "media_step storage0 (5, chat0) (5, sent0)"
    using sent_run media_step.send [of storage0 5 input0 chat0] by (simp add: storage0_def)
  ultimately show ?thesis by (meson converse_rtranclp_into_rtranclp rtranclp.rtrancl_refl)
qed

lemma media0_init: "media_init (5, media0)"
  by (simp add: media_init_def media0_def)

theorem message_sent_once_witness:
  "\<exists>t. sendMessageIdempotently env0 7 input0 sent0 = (Inr \<lparr>sm_message = message0, sm_created = False\<rparr>, t) \<and> t = sent0"
proof -
  have kept: "findMessageByClientId (si_sender input0) (si_client_id input0) sent0 = Some message0"
    by (simp add: findMessageByClientId_def sent_sample input0_def message0_def)
  obtain r t where run: "sendMessageIdempotently env0 7 input0 sent0 = (r, t)" by fastforce
  have "\<not> isl (fst (assertCanSendMessage 7 (si_conversation input0) (si_sender input0) sent0))" by code_simp
  with message_sent_once [OF sent_run _ refl refl run] kept run show ?thesis by simp
qed

definition talk0 :: media where
  "talk0 = media0\<lparr>md_chat := [message0, message0\<lparr>ch_id := ''ua''\<rparr>, message0\<lparr>ch_id := ''ub'', ch_conversation := ''d''\<rparr>,
     message0\<lparr>ch_id := ''uc'', ch_created_at := 4\<rparr>]\<rparr>"

theorem pages_cover_witness:
  "map vw_id (followPages 4 ''c'' (Some 1) None False talk0) = [''ux'', ''ua'', ''uc'']"
proof -
  have "map vw_id (map (viewMessage False) (newestFirst (filter (\<lambda>m. ch_conversation m = ''c'') (md_chat talk0)))) = [''ux'', ''ua'', ''uc'']"
    by code_simp
  moreover have "distinct (map ch_id (md_chat talk0))" "length (filter (\<lambda>m. ch_conversation m = ''c'') (md_chat talk0)) < 4"
    by (simp_all add: talk0_def message0_def)
  ultimately show ?thesis using pages_cover [of talk0 "''c''" 4] by simp
qed

definition quarrel0 :: media where
  "quarrel0 = media0\<lparr>md_dispute_chat := [\<lparr>dm_id = ''a'', dm_dispute = ''d'', dm_author = ''buyer'', dm_body = ''one'',
       dm_attachment = None, dm_created_at = 5, dm_micros = 300, dm_hidden = False\<rparr>,
     \<lparr>dm_id = ''b'', dm_dispute = ''d'', dm_author = ''seller'', dm_body = ''two'', dm_attachment = None,
       dm_created_at = 5, dm_micros = 700, dm_hidden = False\<rparr>]\<rparr>"

theorem dispute_pages_skip_witness:
  "\<exists>lost\<in>set (md_dispute_chat quarrel0). dm_body lost = ''one'' \<and> (\<forall>n. lost \<notin> set (followDispute n ''d'' (Some 1) None False quarrel0))"
proof -
  let ?y = "hd (md_dispute_chat quarrel0)"
  have page: "disputePage ''d'' (Some 1) None False quarrel0 = ([md_dispute_chat quarrel0 ! 1], Some (5, 0, ''b''))"
    by code_simp
  have "\<forall>m\<in>set (md_dispute_chat quarrel0). 0 \<le> dm_micros m" "?y \<in> set (md_dispute_chat quarrel0)" "dm_dispute ?y = ''d''"
    "\<not> dm_hidden ?y" "?y \<notin> set [md_dispute_chat quarrel0 ! 1]" "dm_created_at ?y = fst (5::int, 0::int, ''b'')" "0 < dm_micros ?y"
    "dm_body ?y = ''one''"
    by (simp_all add: quarrel0_def)
  with dispute_pages_skip [OF this(1) page this(2-7)] show ?thesis by blast
qed

theorem attachments_exclusive_witness:
  "length (attachmentBindings ''u'' sent0) = 1 \<and> (\<exists>obj. t_find so_id ''u'' (md_objects sent0) = Some obj \<and> so_owner obj = ''buyer'')"
proof -
  have "\<exists>m\<in>set (md_chat sent0). ch_attachment m = Some ''u'' \<and> ch_sender m = Some ''buyer''"
    by (simp add: sent_sample message0_def)
  from attachments_exclusive [OF media0_init sent_reachable disjI1 [OF this]] show ?thesis by blast
qed

theorem attachment_readers_witness:
  "isl (fst (privateMediaRoute ''u'' ''stranger'' RUser sent0)) \<and>
   privateMediaRoute ''u'' ''seller'' RUser sent0 = (Inr (upload0\<lparr>so_status := Attached, so_attached_at := Some 5\<rparr>), sent0)"
proof -
  have "message0 \<in> set (md_chat sent0)" "ch_attachment message0 = Some ''u''"
    "t_find cv_id (ch_conversation message0) (conversations (md_db sent0)) = Some conversation0"
    by (simp_all add: sent_sample message0_def)
  from attachment_readers [OF media0_init sent_reachable this(1,2) sent_sample(2) _ this(3)]
  show ?thesis by (simp add: may_read_def conversation0_def message0_def)
qed

end
