(* ===== verification/Spec2Isabelle.thy ===== *)
theory Spec2Isabelle
  imports Settlement TwoFactorSafety ChatSafety
begin

text \<open>
  A verification of the money-carrying backend of the Skrynia marketplace (\<open>src/backend/src\<close>): buyers pay orders into
  escrow, sellers deliver, the escrow is released or refunded, users top up and withdraw, and every movement is booked in
  a double-entry ledger. Beside it stands what lets a browser in, accounts and their credentials, second factors and sessions,
  and what users send each other, messages with their attachments in the object storage.

  \<^bold>\<open>The program and the theories.\<close> Paths are relative to \<open>src/backend/src\<close>.
  \<^item> \<open>Prelude\<close>: the errors of \<open>common/errors.ts\<close>; \<open>tx\<close>, a state monad with errors in which every handler is written
    (a promise returns or throws, either way with a state); tables as lists of rows with \<open>t_find\<close>, \<open>t_upd\<close> and sums;
    the locales \<open>frame\<close> (what a handler leaves alone), \<open>table\<close> and \<open>transition_system\<close>.
  \<^item> \<open>Money\<close>: \<open>domain/money.ts\<close>, \<open>common/validation.ts\<close>, \<open>provider-money.ts\<close>, at the level of the canonical strings,
    with the 64-bit range written out. The later theories compute with the integers behind the strings;
    \<open>money_ops_refine\<close> relates the two.
  \<^item> \<open>Enums\<close>, \<open>Json\<close>, \<open>I18n\<close>: \<open>domain/enums.ts\<close>, JSON values and \<open>i18n/\<close>.
  \<^item> \<open>Database\<close>: the tables the services touch as one record \<open>db\<close>, the configuration as \<open>env\<close> (fee, ids, dictionaries),
    \<open>inTx\<close> and \<open>inSerializableTx\<close> of \<open>db/pool.ts\<close>, the read caches of \<open>common/redis.ts\<close>. \<open>TxRetry\<close>: the retry loop.
    \<open>Sample\<close>: a small database the witnesses evaluate on.
  \<^item> \<open>Events\<close>, \<open>Notifications\<close>: the order timeline, system messages, the outbox insert and stored notifications.
  \<^item> \<open>OrderTransitions\<close>: the lifecycle graph, the permission policies and \<open>transitionOrder\<close>.
  \<^item> \<open>Accounting\<close>, \<open>Balances\<close>: the ledger of \<open>accounting.service.ts\<close>, and wallets and ledger as two views of one state.
  \<^item> \<open>Escrow\<close>, \<open>EscrowOps\<close>: \<open>ledger.service.ts\<close> with the payment providers. \<open>Wallet\<close>, \<open>WalletOps\<close>: top-ups,
    withdrawals, payouts, manual adjustments. \<open>Disputes\<close>, \<open>DisputeOps\<close>: opening, resolving and recovering disputes.
    \<open>Outbox\<close>, \<open>OutboxOps\<close>: the outbox worker as interleaved statements. \<open>Idempotency\<close>: request keys and hashes.
  \<^item> \<open>Orders\<close>, \<open>OrdersOps\<close>: the order routes and the release sweeps. \<open>Payments\<close>, \<open>PaymentsOps\<close>: the pay routes,
    checkouts and provider callbacks. \<open>Reconciliation\<close>: the daily comparison of wallets and ledger.
  \<^item> \<open>Redis\<close>: the commands and keys the authentication services use, with expiry. \<open>Accounts\<close>: the account rows and the
    state \<open>auth_state\<close> of these services. \<open>Sessions\<close>: \<open>modules/auth/session.service.ts\<close>, its three Lua scripts as
    functions on the store. \<open>AuthGuard\<close>: \<open>common/middleware/auth.ts\<close> and the routes \<open>/refresh\<close>, \<open>/logout\<close> and
    \<open>/logout-all\<close>. \<open>SessionIndex\<close>: the invariant of the keys and what each script does to it. \<open>SessionRuns\<close>: every
    interleaving as a step relation. \<open>SessionSample\<close>, \<open>SessionSafety\<close>: a sample run and the properties.
  \<^item> \<open>Totp\<close>: Base32 and RFC 6238 codes of \<open>totp.service.ts\<close> on 32-bit words. \<open>TwoFactorCrypto\<close>: the sealed secrets of
    \<open>twofa-crypto-core.ts\<close>. \<open>TwoFactor\<close>: \<open>twofa.service.ts\<close> and passwords. \<open>Tokens\<close>: the verification and reset links of
    \<open>verification.service.ts\<close> with their Lua scripts. \<open>StepUp\<close>, \<open>EmailChange\<close>: step-up tokens, websocket tickets and
    changes of address. \<open>AccountRoutes\<close>: \<open>auth.routes.ts\<close> and the Telegram login. \<open>UserRoutes\<close>: the security routes of
    \<open>users.routes.ts\<close>, phone and Telegram links, and what an administrator changes of an account.
  \<^item> \<open>AccountRuns\<close>: all these routes as one request relation, and each as a run of session steps. \<open>AccountSafety\<close>,
    \<open>TwoFactorSafety\<close>: the properties of the account service and of the second factor.
  \<^item> \<open>Storage\<close>, \<open>StorageSafety\<close>: \<open>modules/storage/storage.service.ts\<close>, the rows of uploaded objects beside the physical
    objects, which no transaction rolls back. \<open>Chat\<close>, \<open>ChatSafety\<close>: \<open>chat.service.ts\<close>, \<open>dispute-messages.service.ts\<close> and the
    access checks of \<open>storage.routes.ts\<close>. Their state \<open>media\<close> holds the database of the other services.
  \<^item> \<open>Market\<close>, \<open>MarketRuns\<close> and this theory: the marketplace together, as a transition system. \<open>Settlement\<close>: what none of
    its steps undoes, a settled order.

  In each pair the first theory holds the definitions, one per function, handler or SQL statement group with the source's
  name, and the second the lemmas and properties. Locales state the interfaces and are interpreted on the model: a
  payment provider, a transaction runner (both pool functions), an idempotent book (the ledger), a lifecycle (orders), the
  tables, the frames and the transition systems.

  \<^bold>\<open>What is shown.\<close>
  \<^item> Escrow: what capture, release and refund move, to the cent, in wallets and (a capture) in the ledger; a failed one
    changes nothing; a settled order stays settled in every later state of the marketplace, and can be neither paid,
    released nor refunded again.
  \<^item> Lifecycle: every status change follows the graph, the caller's expectation and the actor's permissions; repeats
    change nothing; runs are finite.
  \<^item> Ledger: an entry is booked once per key; books stay balanced.
  \<^item> Disputes: a resolution moves the money once, is final, and is completed after a crash.
  \<^item> Wallets: top-ups are credited once, withdrawals are covered and undone by a rejection.
  \<^item> Outbox and request keys: well-formed under interleaving, processed events final, requests run once per key.
  \<^item> Sessions: logout and ending all sessions hold against refreshes in flight, tokens are exchanged once, a lost reply can
    be retried, an old session version is refused, a family stays within its bound, an issued session works.
  \<^item> Accounts: a forward simulation between the service with all its routes and the session system, with the guarantee
    after a change of credentials carried over to the service; stored refresh records are typed; changing a password, an address, a second factor, a role or a ban ends what was issued before.
  \<^item> Second factor: Base32 texts are exactly the encodings, bare or padded, counters of accepted codes rise, a backup
    code works once whatever the service does afterwards, the migration of old secrets ends and is exact row by row.
  \<^item> Routes: what creating, reviewing and sweeping do; callbacks move money only when genuine, and leave no
    trace of a payment for an order that cannot be paid.
  \<^item> Storage: quotas hold whatever fails, every stored object has its row, the cleanup restarts unfinished deletions.
  \<^item> Messages: one per client id, an attachment belongs to one message of its owner and is read by those who may read that
    message, the pages of a conversation cover it.
  \<^item> System: from an empty installation, whatever the order of requests, wallets and ledger agree, each seller's escrow is
    the sum of the orders still held, and reconciliation reports every currency balanced, with the provider clearing account
    equal to what is owed and earned.

  \<^bold>\<open>Errors.\<close> Some properties record behaviour that is hardly intended: manual adjustments can never be written, a fee in a
  currency without a platform wallet blocks the release, a payout can be rejected and paid, a confirmed payment of an
  order that has just become unpayable is acknowledged and recorded nowhere, an upload that ends while it is being deleted
  is stored for ever outside the total quota, and the pages of a dispute lose messages of one millisecond.

  \<^bold>\<open>Bounds.\<close> One definition uses fuel: \<open>migrateRounds\<close>, one round more than there are rows, which \<open>migration_completes\<close>
  shows is enough, since each full round migrates a hundred. The clients \<open>followPages\<close> and \<open>followDispute\<close> take a
  number of pages; one more than there are messages is enough. The retry loop recurses on the attempts left; the sweeps and batches recurse on the
  rows selected, at most 25 or the batch size. Serialization failures are a function from attempts to SQLSTATE codes.

  \<^bold>\<open>Arguments.\<close> Digests, base64, callback decoding, the providers' HTTP interfaces, ISO dates, ids and the translation
  dictionaries are arguments, and so are the token library (\<open>jwt_ok\<close> states its contract), HMAC, AES-GCM (\<open>seals\<close>), bcrypt, Unicode
  normalisation, the check of a Telegram login, the image library, the fate of physical writes and deletions, the random strings of a session or link, the fate of an email or text
  message and which Redis commands lose their reply. The system properties assume that drawn ids differ (\<open>env_ok\<close>).

  \<^bold>\<open>Not modelled.\<close> HTTP routing, the rate-limiting middleware, profile and settings routes, the
  delivery of session events to other processes, cookie attributes, websockets and presence, the semaphores, time limits and bounded
  reads of the storage, the list of conversations, the contents of emails and Telegram messages, catalogue and browsing queries, read-only routes, logging and metrics, the frontend and the scripts.
  WayForPay checkouts compute a floating-point amount and are left out. Transactions run one after another: SERIALIZABLE
  and row locks are taken at their word, and interleaving is modelled where the code works outside a transaction
  (the outbox, dispute resolution, completing a payout, sweeps). A COMMIT whose reply is lost is not modelled, and ids are
  strings, so an id in a callback that is no UUID is an id no row has, where PostgreSQL would throw.
\<close>

section \<open>The marketplace as a whole\<close>

lemma reachable_books:
  assumes "env_ok env" "market_init s" "(market_step env)\<^sup>*\<^sup>* s s'"
  shows "accounts_ok s'" "wallets_ok s'" "books_agree s'" "ledger_balanced s'" "escrow_covered s'"
    "\<forall>r\<in>set (orders s'). order_valid r"
  using reachable_ok [OF assms] by (simp_all add: market_ok_def money_ok_def rows_ok_def)

text \<open>
  C1: the books always agree. Start from an installation without orders or money and run any sequence of the modelled
  requests, callbacks, sweeps and jobs, succeeding or failing: in every state reached, each user's available and escrow
  balances and the platform's revenue equal the balances of their ledger accounts, no balance is negative, and the ledger
  is balanced.
\<close>

theorem books_always_agree:
  assumes "env_ok env" "market_init s" "(market_step env)\<^sup>*\<^sup>* s s'"
  shows "(\<forall>a. acct_valid a \<longrightarrow> wallet_money s' a = ledger_money (ledger_lines s') a) \<and> ledger_balanced s' \<and>
    (\<forall>w\<in>set (wallets s'). 0 \<le> w_available w \<and> 0 \<le> w_escrow w) \<and> (\<forall>p\<in>set (platform_wallets s'). 0 \<le> pw_revenue p)"
  using reachable_books [OF assms] by (simp add: books_agree_def wallets_ok_def wallet_ok_def list_all_iff)

text \<open>
  C2: escrow is exactly covered. In every reachable state a seller's escrow balance in a currency is the sum of the amounts
  of that seller's orders that are paid, in progress, delivered or disputed; so the escrow always suffices to release or
  refund each of them.
\<close>

theorem escrow_covers_orders:
  assumes "env_ok env" "market_init s" "(market_step env)\<^sup>*\<^sup>* s s'"
  shows "wallet_money s' (Held u c) = t_sum (\<lambda>r. if o_seller r = u \<and> o_currency r = c \<and>
      o_status r \<in> {Paid, InProgress, Delivered, Disputed} then o_amount r else 0) (orders s') \<and>
    (\<forall>r\<in>set (orders s'). o_status r \<in> {Paid, InProgress, Delivered, Disputed} \<longrightarrow>
       o_amount r \<le> wallet_money s' (Held (o_seller r) (o_currency r)))"
proof
  note R = reachable_books [OF assms]
  have sum: "wallet_money s' (Held u c) = t_sum (held_for u c) (orders s')" for u c
    using R(5) by (simp add: escrow_covered_def)
  have "held_for u c = (\<lambda>r. if o_seller r = u \<and> o_currency r = c \<and>
      o_status r \<in> {Paid, InProgress, Delivered, Disputed} then o_amount r else 0)"
    by (rule ext) (simp add: held_for_def holding_def)
  with sum show "wallet_money s' (Held u c) = t_sum (\<lambda>r. if o_seller r = u \<and> o_currency r = c \<and>
      o_status r \<in> {Paid, InProgress, Delivered, Disputed} then o_amount r else 0) (orders s')" by simp
  show "\<forall>r\<in>set (orders s'). o_status r \<in> {Paid, InProgress, Delivered, Disputed} \<longrightarrow>
       o_amount r \<le> wallet_money s' (Held (o_seller r) (o_currency r))"
  proof (intro ballI impI)
    fix r assume r: "r \<in> set (orders s')" "o_status r \<in> {Paid, InProgress, Delivered, Disputed}"
    have "0 \<le> held_for (o_seller r) (o_currency r) x" if "x \<in> set (orders s')" for x
      using R(6) that by (auto simp: held_for_def order_valid_def)
    then have "held_for (o_seller r) (o_currency r) r \<le> t_sum (held_for (o_seller r) (o_currency r)) (orders s')"
      by (rule t_sum_member [OF r(1)])
    with r(2) show "o_amount r \<le> wallet_money s' (Held (o_seller r) (o_currency r))"
      by (simp add: sum held_for_def [of _ _ r] holding_def)
  qed
qed

text \<open>
  C3: reconciliation raises no false alarm and accounts for the cash. Run on any reachable state, the snapshot has one row
  per currency; each is balanced with difference zero, and the money at the payment providers equals what the platform owes
  its users, holds in escrow and has earned.
\<close>

theorem reconciliation_clean:
  assumes "env_ok env" "market_init s" "(market_step env)\<^sup>*\<^sup>* s s'"
    and run: "createReconciliationSnapshot s' = (Inr out, s'')"
  shows "map sn_currency out = currencies s' \<and> (\<forall>x\<in>set out. sn_status x = ''balanced'' \<and> sn_difference x = 0 \<and>
    sn_provider_clearing x = sn_wallet_available x + sn_wallet_escrow x + sn_platform_revenue x)"
proof -
  note R = reachable_books [OF assms(1-3)]
  have out: "map snapshotOf (map (reconciliationRow s') (currencies s')) = map Inr out"
    using run by (simp add: createReconciliationSnapshot_Inr)
  have len: "length out = length (currencies s')" using arg_cong [OF out, of length] by simp
  have each: "sn_currency (out ! i) = currencies s' ! i \<and> sn_difference (out ! i) = 0 \<and> sn_status (out ! i) = ''balanced'' \<and>
      sn_provider_clearing (out ! i) = sn_wallet_available (out ! i) + sn_wallet_escrow (out ! i) + sn_platform_revenue (out ! i)"
    if i: "i < length out" for i
  proof (rule snapshot_balanced [OF R(1-4)])
    show "currencies s' ! i \<in> set (currencies s')" using i len by simp
    from arg_cong [OF out, of "\<lambda>l. l ! i"] i len show "snapshotOf (reconciliationRow s' (currencies s' ! i)) = Inr (out ! i)" by simp
  qed
  then have "map sn_currency out = currencies s'" by (intro nth_equalityI) (simp_all add: len)
  moreover have "sn_status x = ''balanced'' \<and> sn_difference x = 0 \<and>
      sn_provider_clearing x = sn_wallet_available x + sn_wallet_escrow x + sn_platform_revenue x" if "x \<in> set out" for x
    using that each by (auto simp: in_set_conv_nth)
  ultimately show ?thesis by blast
qed

section \<open>A run\<close>

text \<open>An empty shop in which a buyer orders two items and pays.\<close>

definition shop0 :: db where
  "shop0 = db0\<lparr>orders := []\<rparr>"

definition ordered0 :: db where
  "ordered0 = snd (createOrder env0 (\<lambda>_. ''t'') (\<lambda>_. hash0) 5 ''buyer'' (Some ''k1'') ''p1'' (Some 2) shop0)"

definition order_id0 :: uuid where
  "order_id0 = o_id (hd (orders ordered0))"

definition held0 :: db where
  "held0 = snd (payRoute env0 no_faults 6 ''buyer'' order_id0 Mock ordered0)"

lemma env0_ok: "env_ok env0"
  by (simp add: env_ok_def inj_gen_uuid0)

lemma shop0_init: "market_init shop0"
  by (simp add: shop0_def market_init_def db0_def empty_db_def product0_def)

lemma held0_reachable: "(market_step env0)\<^sup>*\<^sup>* shop0 held0"
proof -
  have "market_step env0 shop0 ordered0" unfolding ordered0_def by (rule market_step.create [OF prod.collapse [symmetric]])
  moreover have "market_step env0 ordered0 held0" unfolding held0_def by (rule market_step.pay [OF prod.collapse [symmetric]])
  ultimately show ?thesis by (meson converse_rtranclp_into_rtranclp rtranclp.rtrancl_refl)
qed

theorem books_always_agree_witness:
  "wallet_money held0 (Held ''seller'' ''USD'') = 2000 \<and> ledger_money (ledger_lines held0) (Held ''seller'' ''USD'') = 2000"
proof -
  have "wallet_money held0 (Held ''seller'' ''USD'') = 2000" by code_simp
  with books_always_agree [OF env0_ok shop0_init held0_reachable] show ?thesis by auto
qed

theorem escrow_covers_orders_witness:
  "t_sum (\<lambda>r. if o_seller r = ''seller'' \<and> o_currency r = ''USD'' \<and>
      o_status r \<in> {Paid, InProgress, Delivered, Disputed} then o_amount r else 0) (orders held0) = 2000"
proof -
  have "wallet_money held0 (Held ''seller'' ''USD'') = 2000" by code_simp
  with escrow_covers_orders [OF env0_ok shop0_init held0_reachable, of "''seller''" "''USD''"] show ?thesis by simp
qed

definition totals0 :: "db \<Rightarrow> string \<Rightarrow> int list" where
  "totals0 s c = [walletTotal w_available c s, walletTotal w_escrow c s, ledgerTotal ''liability:user-payable:'' c s,
     ledgerTotal ''liability:seller-escrow:'' c s, platformTotal c s, ledgerTotal ''revenue:platform-fee:'' c s,
     ledgerTotal ''asset:provider-clearing:'' c s]"

lemma held0_totals:
  "totals0 held0 ''USD'' = [0, 2000, 0, 2000, 0, 0, -2000]" "totals0 held0 ''UAH'' = [0, 0, 0, 0, 0, 0, 0]"
  by code_simp+

lemma totals0_snapshot:
  assumes "totals0 s c = [0, e, 0, e, 0, 0, - e]" "in_bigint_range e"
  shows "\<exists>x. snapshotOf (reconciliationRow s c) = Inr x"
proof (rule snapshot_exists)
  have "in_bigint_range 0" by (simp add: in_bigint_range_def POSTGRES_BIGINT_MAX_def POSTGRES_BIGINT_MIN_def)
  with assms show "list_all in_bigint_range [walletTotal w_available c s, walletTotal w_escrow c s,
      ledgerTotal ''liability:user-payable:'' c s, ledgerTotal ''liability:seller-escrow:'' c s, platformTotal c s,
      ledgerTotal ''revenue:platform-fee:'' c s, - ledgerTotal ''asset:provider-clearing:'' c s]"
    and "in_bigint_range (reconciliationDifference (walletTotal w_available c s) (ledgerTotal ''liability:user-payable:'' c s)
      (walletTotal w_escrow c s) (ledgerTotal ''liability:seller-escrow:'' c s) (platformTotal c s)
      (ledgerTotal ''revenue:platform-fee:'' c s))"
    by (simp_all add: totals0_def reconciliationDifference_def bigint_abs_def)
qed

theorem reconciliation_clean_witness:
  "\<exists>out s''. createReconciliationSnapshot held0 = (Inr out, s'') \<and> map sn_currency out = [''UAH'', ''USD''] \<and>
     (\<forall>x\<in>set out. sn_status x = ''balanced'')"
proof -
  have c: "currencies held0 = [''UAH'', ''USD'']" by code_simp
  obtain x y where "snapshotOf (reconciliationRow held0 ''UAH'') = Inr x" "snapshotOf (reconciliationRow held0 ''USD'') = Inr y"
    using totals0_snapshot [of held0 "''USD''" 2000] totals0_snapshot [of held0 "''UAH''" 0] held0_totals
    by (auto simp: in_bigint_range_def POSTGRES_BIGINT_MAX_def POSTGRES_BIGINT_MIN_def)
  then obtain s'' where r: "createReconciliationSnapshot held0 = (Inr [x, y], s'')"
    by (simp add: createReconciliationSnapshot_Inr c)
  with c reconciliation_clean [OF env0_ok shop0_init held0_reachable r] show ?thesis by auto
qed

end
